(* ===== verification/Oplk_Prelude.thy ===== *)
theory Oplk_Prelude
  imports Main "HOL-Library.Word"
begin

text \<open>
  What the components share and that is not specific to any of them: byte memories with
  bounds-checked copies (a C \<^verbatim>\<open>memcpy\<close> on an array, whose out-of-range case is the value
  \<^term>\<open>None\<close>), 32-bit unsigned arithmetic on \<^typ>\<open>nat\<close> with the wrap-around written out, and
  two interface locales: a machine whose steps keep an invariant, and a bounded first-in
  first-out channel.
\<close>

section \<open>Collections\<close>

named_theorems step_defs "definitions of the steps of a component, unfolded together"
named_theorems inv_intros "invariant preservation, one fact per operation"

section \<open>Machine types\<close>

type_synonym byte = "8 word"
type_synonym u16 = "16 word"
type_synonym u32 = "32 word"
type_synonym u64 = "64 word"

section \<open>Byte memories\<close>

text \<open>
  \<open>mem_read m off n\<close> reads \<open>n\<close> cells from \<open>off\<close>, \<open>mem_write m off bs\<close> stores \<open>bs\<close> at
  \<open>off\<close>. Both are \<^term>\<open>None\<close> when the access leaves the array: the C code has undefined
  behaviour there, and the models propagate the \<^term>\<open>None\<close>.
\<close>

definition mem_read :: "'a list \<Rightarrow> nat \<Rightarrow> nat \<Rightarrow> 'a list option" where
  "mem_read m off n = (if off + n \<le> length m then Some (take n (drop off m)) else None)"

definition mem_write :: "'a list \<Rightarrow> nat \<Rightarrow> 'a list \<Rightarrow> 'a list option" where
  "mem_write m off bs =
     (if off + length bs \<le> length m
      then Some (take off m @ bs @ drop (off + length bs) m) else None)"

lemma mem_read_length: "mem_read m off n = Some bs \<Longrightarrow> length bs = n"
  by (auto simp: mem_read_def split: if_splits)

lemma mem_write_length: "mem_write m off bs = Some m' \<Longrightarrow> length m' = length m"
  by (auto simp: mem_write_def split: if_splits)

lemma mem_read_nth:
  "mem_read m off n = Some bs \<Longrightarrow> i < n \<Longrightarrow> bs ! i = m ! (off + i)"
  by (auto simp: mem_read_def nth_append split: if_splits)

lemma mem_write_nth:
  assumes "mem_write m off bs = Some m'" and "i < length m"
  shows "m' ! i = (if off \<le> i \<and> i < off + length bs then bs ! (i - off) else m ! i)"
  using assms by (auto simp: mem_write_def nth_append min_def split: if_splits)

lemma mem_write_Some_iff: "(\<exists>m'. mem_write m off bs = Some m') \<longleftrightarrow> off + length bs \<le> length m"
  by (simp add: mem_write_def)

section \<open>32-bit unsigned arithmetic on naturals\<close>

definition wrap32 :: "nat \<Rightarrow> nat" where
  "wrap32 n = n mod 2 ^ 32"

definition sub32 :: "nat \<Rightarrow> nat \<Rightarrow> nat" where
  "sub32 a b = wrap32 (a + (2 ^ 32 - wrap32 b))"

lemma wrap32_id [simp]: "n < 2 ^ 32 \<Longrightarrow> wrap32 n = n"
  by (simp add: wrap32_def)

lemma wrap32_less [simp]: "wrap32 n < 2 ^ 32"
  by (simp add: wrap32_def)

lemma sub32_eq: "b \<le> a \<Longrightarrow> a < 2 ^ 32 \<Longrightarrow> sub32 a b = a - b"
proof -
  assume ba: "b \<le> a" and a: "a < 2 ^ 32"
  then have "sub32 a b = (a - b + 2 ^ 32) mod 2 ^ 32"
    by (simp add: sub32_def wrap32_def)
  also have "\<dots> = a - b" using a by simp
  finally show ?thesis .
qed

lemma sub32_less [simp]: "sub32 a b < 2 ^ 32"
  unfolding sub32_def by (rule wrap32_less)

lemma mod_diff_turn:
  fixes a b N :: nat
  assumes "b \<le> a" and "0 < N"
  shows "(a mod N + (N - b mod N)) mod N = (a - b) mod N"
proof -
  have "b mod N < N" "b mod N \<le> b" using assms(2) by simp_all
  then have "a + (N - b mod N) = (a - b) + (b - b mod N) + N" using assms(1) by linarith
  moreover have "b - b mod N = N * (b div N)" by (rule minus_mod_eq_mult_div)
  ultimately have "(a + (N - b mod N)) mod N = (a - b) mod N" by simp
  then show ?thesis by (simp only: mod_add_left_eq)
qed

lemma sub32_wrap:
  assumes "b \<le> a" and "a - b < 2 ^ 32"
  shows "sub32 (wrap32 a) (wrap32 b) = a - b"
  using mod_diff_turn [of b a "2 ^ 32"] assms by (simp add: sub32_def wrap32_def)

text \<open>The four bytes of a number add up to it.\<close>

lemma bytes4_sum:
  fixes n :: nat
  shows "n mod 256 + n div 256 mod 256 * 256 + n div 65536 mod 256 * 65536 +
     n div 16777216 * 16777216 = n"
proof -
  have sum: "m = 256 * a + m0 \<Longrightarrow> a = 256 * b + a0 \<Longrightarrow> b = 256 * c + b0 \<Longrightarrow>
      m0 + a0 * 256 + b0 * 65536 + c * 16777216 = m" for m a b c m0 a0 b0 :: nat
    by simp
  have "n div 65536 = n div 256 div 256" "n div 16777216 = n div 256 div 256 div 256"
    by (simp_all add: div_mult2_eq [symmetric])
  then show ?thesis
    using sum [OF mult_div_mod_eq [symmetric] mult_div_mod_eq [symmetric] mult_div_mod_eq [symmetric],
        of n] by simp
qed

section \<open>Rings of cells\<close>

text \<open>\<open>ring_read m off n\<close> reads \<open>n\<close> cells from \<open>off\<close>, around the end of the array.\<close>

definition ring_read :: "'a list \<Rightarrow> nat \<Rightarrow> nat \<Rightarrow> 'a list" where
  "ring_read m off n = map (\<lambda>i. m ! ((off + i) mod length m)) [0..<n]"

lemma ring_read_length [simp]: "length (ring_read m off n) = n"
  by (simp add: ring_read_def)

lemma ring_read_nth: "i < n \<Longrightarrow> ring_read m off n ! i = m ! ((off + i) mod length m)"
  by (simp add: ring_read_def)

lemma ring_read_cong:
  "length m' = length m \<Longrightarrow>
     (\<And>i. i < n \<Longrightarrow> m' ! ((off + i) mod length m) = m ! ((off + i) mod length m)) \<Longrightarrow>
     ring_read m' off n = ring_read m off n"
  by (simp add: ring_read_def)

lemma ring_read_mod: "ring_read m (off mod length m) n = ring_read m off n"
  by (simp add: ring_read_def mod_add_left_eq)

lemma ring_read_mod_add: "ring_read m (off mod length m + k) n = ring_read m (off + k) n"
  by (simp add: ring_read_def mod_add_left_eq add.assoc)

lemma ring_read_append: "ring_read m off (a + b) = ring_read m off a @ ring_read m (off + a) b"
  by (rule nth_equalityI) (auto simp: ring_read_nth nth_append add.assoc)

lemma ring_read_linear:
  "off + n \<le> length m \<Longrightarrow> ring_read m off n = take n (drop off m)"
  by (rule nth_equalityI) (auto simp: ring_read_nth)

text \<open>Two different offsets within one turn of the ring are different cells.\<close>

lemma ring_distinct:
  fixes i j N r :: nat
  assumes "i < j" and "j < i + N"
  shows "(r + i) mod N \<noteq> (r + j) mod N"
proof
  assume "(r + i) mod N = (r + j) mod N"
  then have "N dvd (r + j) - (r + i)"
    using assms mod_eq_dvd_iff_nat [of "r + i" "r + j" N] by simp
  then show False using assms by (auto dest: dvd_imp_le)
qed

section \<open>Machines with an invariant\<close>

text \<open>
  A component is driven by events. A step is \<^term>\<open>None\<close> where the C code has undefined
  behaviour (an access outside an array, a call through a missing table entry); \<open>run_steps\<close>
  stops there.
\<close>

fun run_steps :: "('e \<Rightarrow> 's \<Rightarrow> 's option) \<Rightarrow> 'e list \<Rightarrow> 's \<Rightarrow> 's option" where
  "run_steps step [] s = Some s"
| "run_steps step (e # es) s =
     (case step e s of None \<Rightarrow> None | Some s' \<Rightarrow> run_steps step es s')"

text \<open>Runs that collect what each step returns.\<close>

fun run_out :: "('e \<Rightarrow> 's \<Rightarrow> ('r \<times> 's) option) \<Rightarrow> 'e list \<Rightarrow> 's \<Rightarrow> ('r list \<times> 's) option" where
  "run_out step [] s = Some ([], s)"
| "run_out step (opn # ops) s =
     (case step opn s of
        None \<Rightarrow> None
      | Some (r, s') \<Rightarrow>
          (case run_out step ops s' of None \<Rightarrow> None | Some (rs, s'') \<Rightarrow> Some (r # rs, s'')))"

lemma run_steps_append:
  "run_steps step (es @ fs) s =
     (case run_steps step es s of None \<Rightarrow> None | Some s' \<Rightarrow> run_steps step fs s')"
  by (induction es arbitrary: s) (auto split: option.splits)

lemma run_out_append:
  "run_out step (es @ fs) s =
     (case run_out step es s of None \<Rightarrow> None
      | Some (rs, s') \<Rightarrow>
          (case run_out step fs s' of None \<Rightarrow> None | Some (qs, s'') \<Rightarrow> Some (rs @ qs, s'')))"
  by (induction es arbitrary: s) (auto split: option.splits)

text \<open>
  \<open>safe_machine\<close>: in a state of the invariant, an admissible event is processed without
  undefined behaviour and keeps the invariant. Both lift to runs.
\<close>

locale safe_machine =
  fixes step :: "'e \<Rightarrow> 's \<Rightarrow> 's option"
    and ok :: "'e \<Rightarrow> bool"
    and inv :: "'s \<Rightarrow> bool"
  assumes step_safe: "inv s \<Longrightarrow> ok e \<Longrightarrow> \<exists>s'. step e s = Some s' \<and> inv s'"
begin

lemma run_safe: "inv s \<Longrightarrow> list_all ok es \<Longrightarrow> \<exists>s'. run_steps step es s = Some s' \<and> inv s'"
proof (induction es arbitrary: s)
  case Nil
  then show ?case by simp
next
  case (Cons e es)
  then obtain s' where "step e s = Some s'" and "inv s'" using step_safe by fastforce
  with Cons show ?case by simp
qed

lemma run_inv: "inv s \<Longrightarrow> list_all ok es \<Longrightarrow> run_steps step es s = Some s' \<Longrightarrow> inv s'"
  using run_safe by fastforce

end

text \<open>
  \<open>guarded_machine\<close>: the same where what is admissible depends on the state, as for modules that
  share a resource. \<open>admissible_run\<close> says that every event of a run is admissible when it comes.
\<close>

fun admissible_run :: "('e \<Rightarrow> 's \<Rightarrow> 's option) \<Rightarrow> ('e \<Rightarrow> 's \<Rightarrow> bool) \<Rightarrow> 'e list \<Rightarrow> 's \<Rightarrow> bool" where
  "admissible_run step ok [] s \<longleftrightarrow> True"
| "admissible_run step ok (e # es) s \<longleftrightarrow>
     ok e s \<and> (case step e s of None \<Rightarrow> True | Some s' \<Rightarrow> admissible_run step ok es s')"

locale guarded_machine =
  fixes step :: "'e \<Rightarrow> 's \<Rightarrow> 's option"
    and ok :: "'e \<Rightarrow> 's \<Rightarrow> bool"
    and inv :: "'s \<Rightarrow> bool"
  assumes guarded_safe: "inv s \<Longrightarrow> ok e s \<Longrightarrow> \<exists>s'. step e s = Some s' \<and> inv s'"
begin

lemma guarded_run_safe:
  "inv s \<Longrightarrow> admissible_run step ok es s \<Longrightarrow> \<exists>s'. run_steps step es s = Some s' \<and> inv s'"
proof (induction es arbitrary: s)
  case (Cons e es)
  then obtain s' where "step e s = Some s'" and "inv s'" using guarded_safe by fastforce
  with Cons show ?case by simp
qed simp

end

section \<open>Bounded first-in first-out channels\<close>

text \<open>
  The contract between a message queue and the modules that post into it and read from it.
  \<open>put q x\<close> is \<^term>\<open>None\<close> when the channel refuses the message (it is full), \<open>get q\<close> is
  \<^term>\<open>None\<close> when there is nothing to read. \<open>contents\<close> is the abstraction to the list of
  pending messages, oldest first.
\<close>

locale fifo_channel =
  fixes put :: "'q \<Rightarrow> 'a \<Rightarrow> 'q option"
    and get :: "'q \<Rightarrow> ('a \<times> 'q) option"
    and holds :: "'q \<Rightarrow> 'a list \<Rightarrow> bool"
    and admissible :: "'a \<Rightarrow> bool"
  assumes holds_put: "holds q xs \<Longrightarrow> admissible x \<Longrightarrow> put q x = Some q' \<Longrightarrow> holds q' (xs @ [x])"
    and holds_get: "holds q (x # xs) \<Longrightarrow> \<exists>q'. get q = Some (x, q') \<and> holds q' xs"
    and holds_get_empty: "holds q [] \<Longrightarrow> get q = None"
begin

text \<open>\<open>put_all\<close> posts a batch, \<open>get_n\<close> drains \<open>n\<close> messages.\<close>

fun put_all :: "'q \<Rightarrow> 'a list \<Rightarrow> 'q option" where
  "put_all q [] = Some q"
| "put_all q (x # xs) = (case put q x of None \<Rightarrow> None | Some q' \<Rightarrow> put_all q' xs)"

fun get_n :: "nat \<Rightarrow> 'q \<Rightarrow> ('a list \<times> 'q) option" where
  "get_n 0 q = Some ([], q)"
| "get_n (Suc n) q =
     (case get q of None \<Rightarrow> None
      | Some (x, q') \<Rightarrow> (case get_n n q' of None \<Rightarrow> None | Some (xs, q'') \<Rightarrow> Some (x # xs, q'')))"

lemma holds_put_all:
  "holds q xs \<Longrightarrow> list_all admissible ys \<Longrightarrow> put_all q ys = Some q' \<Longrightarrow> holds q' (xs @ ys)"
proof (induction ys arbitrary: q xs)
  case Nil
  then show ?case by simp
next
  case (Cons y ys)
  then obtain q1 where put: "put q y = Some q1" and rest: "put_all q1 ys = Some q'"
    by (auto split: option.splits)
  from Cons.prems put have "holds q1 (xs @ [y])" by (auto intro: holds_put)
  from Cons.IH [OF this _ rest] Cons.prems show ?case by simp
qed

lemma holds_get_n:
  "holds q (xs @ ys) \<Longrightarrow> \<exists>q'. get_n (length xs) q = Some (xs, q') \<and> holds q' ys"
proof (induction xs arbitrary: q)
  case Nil
  then show ?case by simp
next
  case (Cons x xs)
  then obtain q1 where "get q = Some (x, q1)" and "holds q1 (xs @ ys)"
    using holds_get by fastforce
  with Cons.IH show ?case by fastforce
qed

lemma fifo_transfer:
  assumes "holds q []" and "list_all admissible xs" and "put_all q xs = Some q'"
  shows "\<exists>q''. get_n (length xs) q' = Some (xs, q'') \<and> holds q'' [] \<and> get q'' = None"
proof -
  from assms have "holds q' xs" using holds_put_all by fastforce
  then obtain q'' where "get_n (length xs) q' = Some (xs, q'')" "holds q'' []"
    using holds_get_n [of q' xs "[]"] by auto
  then show ?thesis by (blast intro: holds_get_empty)
qed

end

end
