(* ===== verification/Oplk_Types.thy ===== *)
theory Oplk_Types
  imports Oplk_Prelude
begin

text \<open>
  The enumerations and event structures that the modules of the stack exchange
  (\<^verbatim>\<open>stack/include/oplk/nmt.h\<close>, \<^verbatim>\<open>event.h\<close>, \<^verbatim>\<open>dll.h\<close>, \<^verbatim>\<open>errordefs.h\<close>). An enumeration is a datatype
  with the source's constructors; where the code compares the numeric values, the numbers are
  a function on it. The error enumeration is cut down to the codes the modelled modules name,
  with \<^verbatim>\<open>kErrorOther\<close> for the codes that only pass through them.
\<close>

section \<open>Error codes\<close>

datatype tOplkError =
    kErrorOk
  | kErrorNoResource
  | kErrorInvalidNodeId
  | kErrorInvalidEvent
  | kErrorInvalidOperation
  | kErrorReject
  | kErrorRetry
  | kErrorNmtInvalidEvent
  | kErrorTimerInvalidHandle
  | kErrorTimerNoTimerCreated
  | kErrorSdoSeqMissCb
  | kErrorSdoSeqInvalidHdl
  | kErrorSdoSeqUnsupportedProt
  | kErrorSdoSeqNoFreeHandle
  | kErrorSdoSeqFrameSizeError
  | kErrorSdoSeqNoFreeHistory
  | kErrorSdoSeqRequestAckNeeded
  | kErrorSdoSeqInvalidFrame
  | kErrorSdoSeqConnectionBusy
  | kErrorSdoSeqInvalidEvent
  | kErrorObdIllegalPart
  | kErrorObdIndexNotExist
  | kErrorObdValueLengthError
  | kErrorObdValueTooHigh
  | kErrorObdValueTooLow
  | kErrorObdAccessViolation
  | kErrorObdSubindexNotExist
  | kErrorSdoComInvalidParam
  | kErrorSdoComHandleBusy
  | kErrorSdoComHandleExists
  | kErrorSdoComNotResponsible
  | kErrorSdoComInvalidSendType
  | kErrorSdoComInvalidHandle
  | kErrorSdoComInvalidServiceType
  | kErrorSdoComNoFreeHandle
  | kErrorSdoComUnsupportedProt
  | kErrorPdoNotExist
  | kErrorPdoLengthExceeded
  | kErrorPdoGranularityMismatch
  | kErrorPdoInitError
  | kErrorPdoConfWhileEnabled
  | kErrorPdoVarNotFound
  | kErrorPdoVarNotMappable
  | kErrorPdoSizeMismatch
  | kErrorPdoTooManyTxPdos
  | kErrorPdoInvalidObjIndex
  | kErrorPdoTooManyPdos
  | kErrorDllInvalidParam
  | kErrorDllAsyncTxBufferFull
  | kErrorDllAsyncTxBufferEmpty
  | kErrorDllNoNodeInfo
  | kErrorInvalidInstanceParam
  | kErrorEventPostError
  | kErrorOther nat

text \<open>
  \<^verbatim>\<open>if (ret != kErrorOk) return ret;\<close> is \<open>ok_then\<close>: go on with the state after a call that
  succeeded, return the error and that state otherwise.
\<close>

definition ok_then :: "tOplkError \<times> 's \<Rightarrow> ('s \<Rightarrow> tOplkError \<times> 's) \<Rightarrow> tOplkError \<times> 's" where
  "ok_then r f = (case r of (ret, s) \<Rightarrow> if ret = kErrorOk then f s else (ret, s))"

lemma ok_then_Ok [simp]: "ok_then (kErrorOk, s) f = f s"
  by (simp add: ok_then_def)

lemma ok_then_error [simp]: "ret \<noteq> kErrorOk \<Longrightarrow> ok_then (ret, s) f = (ret, s)"
  by (simp add: ok_then_def)

lemma ok_then_split:
  "P (ok_then r f) \<longleftrightarrow>
     (fst r = kErrorOk \<longrightarrow> P (f (snd r))) \<and> (fst r \<noteq> kErrorOk \<longrightarrow> P r)"
  by (cases r) (simp add: ok_then_def)

section \<open>NMT states\<close>

datatype tNmtState =
    kNmtGsOff
  | kNmtGsInitialising
  | kNmtGsResetApplication
  | kNmtGsResetCommunication
  | kNmtGsResetConfiguration
  | kNmtCsNotActive
  | kNmtCsPreOperational1
  | kNmtCsStopped
  | kNmtCsPreOperational2
  | kNmtCsReadyToOperate
  | kNmtCsOperational
  | kNmtCsBasicEthernet
  | kNmtMsNotActive
  | kNmtMsPreOperational1
  | kNmtMsPreOperational2
  | kNmtMsReadyToOperate
  | kNmtMsOperational
  | kNmtMsBasicEthernet

primrec nmt_code :: "tNmtState \<Rightarrow> nat" where
  "nmt_code kNmtGsOff = 0x0000"
| "nmt_code kNmtGsInitialising = 0x0019"
| "nmt_code kNmtGsResetApplication = 0x0029"
| "nmt_code kNmtGsResetCommunication = 0x0039"
| "nmt_code kNmtGsResetConfiguration = 0x0079"
| "nmt_code kNmtCsNotActive = 0x011C"
| "nmt_code kNmtCsPreOperational1 = 0x011D"
| "nmt_code kNmtCsStopped = 0x014D"
| "nmt_code kNmtCsPreOperational2 = 0x015D"
| "nmt_code kNmtCsReadyToOperate = 0x016D"
| "nmt_code kNmtCsOperational = 0x01FD"
| "nmt_code kNmtCsBasicEthernet = 0x011E"
| "nmt_code kNmtMsNotActive = 0x021C"
| "nmt_code kNmtMsPreOperational1 = 0x021D"
| "nmt_code kNmtMsPreOperational2 = 0x025D"
| "nmt_code kNmtMsReadyToOperate = 0x026D"
| "nmt_code kNmtMsOperational = 0x02FD"
| "nmt_code kNmtMsBasicEthernet = 0x021E"

lemma nmt_code_inject [simp]: "nmt_code s = nmt_code t \<longleftrightarrow> s = t"
  by (cases s; cases t; simp)

text \<open>The C code compares states with \<^verbatim>\<open><\<close> and \<^verbatim>\<open>>=\<close>: the order of the codes.\<close>

instantiation tNmtState :: linorder
begin

definition less_eq_tNmtState :: "tNmtState \<Rightarrow> tNmtState \<Rightarrow> bool" where
  "less_eq_tNmtState s t \<longleftrightarrow> nmt_code s \<le> nmt_code t"

definition less_tNmtState :: "tNmtState \<Rightarrow> tNmtState \<Rightarrow> bool" where
  "less_tNmtState s t \<longleftrightarrow> nmt_code s < nmt_code t"

instance
  by standard (auto simp: less_eq_tNmtState_def less_tNmtState_def)

end

lemmas nmt_order_defs = less_eq_tNmtState_def less_tNmtState_def

definition is_cs :: "tNmtState \<Rightarrow> bool" where
  "is_cs s \<longleftrightarrow> kNmtGsResetConfiguration < s \<and> s < kNmtMsNotActive"

definition is_ms :: "tNmtState \<Rightarrow> bool" where
  "is_ms s \<longleftrightarrow> kNmtMsNotActive \<le> s"

section \<open>NMT events\<close>

datatype tNmtEvent =
    kNmtEventNoEvent
  | kNmtEventDllMePresTimeout
  | kNmtEventDllMeAsndTimeout
  | kNmtEventDllMeSocTrig
  | kNmtEventDllMeSoaTrig
  | kNmtEventDllCeSoc
  | kNmtEventDllCePreq
  | kNmtEventDllCePres
  | kNmtEventDllCeSoa
  | kNmtEventDllCeAInv
  | kNmtEventDllCeAsnd
  | kNmtEventDllCeFrameTimeout
  | kNmtEventSwReset
  | kNmtEventResetNode
  | kNmtEventResetCom
  | kNmtEventResetConfig
  | kNmtEventEnterPreOperational2
  | kNmtEventEnableReadyToOperate
  | kNmtEventStartNode
  | kNmtEventStopNode
  | kNmtEventEnterResetApp
  | kNmtEventEnterResetCom
  | kNmtEventInternComError
  | kNmtEventEnterResetConfig
  | kNmtEventEnterCsNotActive
  | kNmtEventEnterMsNotActive
  | kNmtEventTimerBasicEthernet
  | kNmtEventTimerMsPreOp1
  | kNmtEventNmtCycleError
  | kNmtEventTimerMsPreOp2
  | kNmtEventAllMandatoryCNIdent
  | kNmtEventEnterReadyToOperate
  | kNmtEventEnterMsOperational
  | kNmtEventSwitchOff
  | kNmtEventCriticalError

text \<open>
  A timer carries the event as an integer that the code casts to the enumeration; a number
  outside it selects no case of any switch, as \<^verbatim>\<open>kNmtEventNoEvent\<close> does.
\<close>

definition nmt_event_table :: "(nat \<times> tNmtEvent) list" where
  "nmt_event_table =
    [(0x00, kNmtEventNoEvent), (0x02, kNmtEventDllMePresTimeout),
     (0x03, kNmtEventDllMeAsndTimeout), (0x05, kNmtEventDllMeSocTrig),
     (0x06, kNmtEventDllMeSoaTrig), (0x07, kNmtEventDllCeSoc), (0x08, kNmtEventDllCePreq),
     (0x09, kNmtEventDllCePres), (0x0A, kNmtEventDllCeSoa), (0x0B, kNmtEventDllCeAInv),
     (0x0C, kNmtEventDllCeAsnd), (0x0D, kNmtEventDllCeFrameTimeout), (0x10, kNmtEventSwReset),
     (0x11, kNmtEventResetNode), (0x12, kNmtEventResetCom), (0x13, kNmtEventResetConfig),
     (0x14, kNmtEventEnterPreOperational2), (0x15, kNmtEventEnableReadyToOperate),
     (0x16, kNmtEventStartNode), (0x17, kNmtEventStopNode), (0x20, kNmtEventEnterResetApp),
     (0x21, kNmtEventEnterResetCom), (0x22, kNmtEventInternComError),
     (0x23, kNmtEventEnterResetConfig), (0x24, kNmtEventEnterCsNotActive),
     (0x25, kNmtEventEnterMsNotActive), (0x26, kNmtEventTimerBasicEthernet),
     (0x27, kNmtEventTimerMsPreOp1), (0x28, kNmtEventNmtCycleError),
     (0x29, kNmtEventTimerMsPreOp2), (0x2A, kNmtEventAllMandatoryCNIdent),
     (0x2B, kNmtEventEnterReadyToOperate), (0x2C, kNmtEventEnterMsOperational),
     (0x2D, kNmtEventSwitchOff), (0x2E, kNmtEventCriticalError)]"

definition nmt_event_of_code :: "nat \<Rightarrow> tNmtEvent" where
  "nmt_event_of_code n = (case map_of nmt_event_table n of Some e \<Rightarrow> e | None \<Rightarrow> kNmtEventNoEvent)"

record tEventNmtStateChange =
  newNmtState :: tNmtState
  oldNmtState :: tNmtState
  nmtEvent :: tNmtEvent

record tHeartbeatEvent =
  hbNodeId :: nat
  hbNmtState :: tNmtState
  hbErrorCode :: nat

section \<open>Types of the data link layer\<close>

datatype tDllReqServiceId =
    kDllReqServiceNo | kDllReqServiceIdent | kDllReqServiceStatus | kDllReqServiceNmtRequest
  | kDllReqServiceSync | kDllReqServiceUnspecified

primrec req_code :: "tDllReqServiceId \<Rightarrow> nat" where
  "req_code kDllReqServiceNo = 0x00"
| "req_code kDllReqServiceIdent = 0x01"
| "req_code kDllReqServiceStatus = 0x02"
| "req_code kDllReqServiceNmtRequest = 0x03"
| "req_code kDllReqServiceSync = 0x06"
| "req_code kDllReqServiceUnspecified = 0xFF"

datatype tDllAsndFilter = kDllAsndFilterNone | kDllAsndFilterLocal | kDllAsndFilterAny

datatype tDllAsyncReqPriority =
    kDllAsyncReqPrioNmt | kDllAsyncReqPrio6 | kDllAsyncReqPrio5 | kDllAsyncReqPrio4
  | kDllAsyncReqPrioGeneric | kDllAsyncReqPrio2 | kDllAsyncReqPrio1 | kDllAsyncReqPrio0

datatype tDllNodeOpType =
    kDllNodeOpTypeIsochronous | kDllNodeOpTypeFilterPdo | kDllNodeOpTypeFilterHeartbeat
  | kDllNodeOpTypeSoftDelete

record tDllNodeOpParam =
  opNodeId :: nat
  opNodeType :: tDllNodeOpType

record tDllNodeInfo =
  infoNodeId :: nat
  infoPresPayloadLimit :: nat
  infoPreqPayloadLimit :: nat
  infoPresTimeoutNs :: nat

section \<open>Events of the event module\<close>

datatype tEventType =
    kEventTypeNmtEvent | kEventTypePdoRx | kEventTypePdoTx | kEventTypePdoSoa | kEventTypeSync
  | kEventTypeTimer | kEventTypeHeartbeat | kEventTypeHistoryEntry | kEventTypeDllkFlag1
  | kEventTypeDllkFillTx | kEventTypeDllkPresReady | kEventTypeError | kEventTypeNmtStateChange
  | kEventTypeDllError | kEventTypeAsndRx | kEventTypeDllkServFilter | kEventTypeDllkIdentity
  | kEventTypeDllkConfig | kEventTypeDllkIssueReq | kEventTypeDllkAddNode
  | kEventTypeDllkDelNode | kEventTypeDllkConfigNode | kEventTypeDllkStartReducedCycle
  | kEventTypeNmtMnuNmtCmdSent | kEventTypeApiUserDef | kEventTypeDllkCycleFinish
  | kEventTypePdokAlloc | kEventTypePdokConfig | kEventTypeNmtMnuNodeCmd
  | kEventTypeGw309AsciiReq | kEventTypeNmtMnuNodeAdded | kEventTypePdokSetupPdoBuf
  | kEventTypePdokControlSync | kEventTypeReleaseRxFrame | kEventTypeAsndNotRx

datatype tEventSink =
    kEventSinkSync | kEventSinkNmtk | kEventSinkDllk | kEventSinkDlluCal | kEventSinkDllkCal
  | kEventSinkPdok | kEventSinkNmtu | kEventSinkErrk | kEventSinkErru | kEventSinkSdoAsySeq
  | kEventSinkNmtMnu | kEventSinkLedu | kEventSinkPdokCal | kEventSinkGw309Ascii
  | kEventSinkApi | kEventSinkInvalid

text \<open>
  The DLL error event and the error history entry. \<open>dllErrorEvents\<close> is the C bit set
  (\<^verbatim>\<open>DLL_ERR_*\<close>), a 32-bit word.
\<close>

record tEventDllError =
  dllErrorEvents :: u32
  dllErrNodeId :: nat
  dllErrNmtState :: tNmtState
  dllErrOplkError :: tOplkError

datatype tHistAddInfo =
    AddInfoZero \<comment> \<open>all bytes zero\<close>
  | AddInfoNode nat \<comment> \<open>first byte: a node ID\<close>
  | AddInfoError tOplkError \<comment> \<open>first two bytes: an error code\<close>

record tErrHistoryEntry =
  histErrorCode :: nat
  histTimeStamp :: nat
  histAddInfo :: tHistAddInfo

text \<open>The event argument: what \<^verbatim>\<open>pEventArg\<close> points to, by the kind of event.\<close>

datatype tEventArg =
    ArgNone
  | ArgNmtEvent tNmtEvent
  | ArgTimerValue nat nat \<comment> \<open>timer handle and user argument\<close>
  | ArgStateChange tEventNmtStateChange
  | ArgDllError tEventDllError
  | ArgHistory tErrHistoryEntry
  | ArgHeartbeat tHeartbeatEvent
  | ArgServFilter nat tDllAsndFilter
  | ArgIssueReq tDllReqServiceId nat byte \<comment> \<open>service, node and \<^verbatim>\<open>soaFlag1\<close>\<close>
  | ArgNodeInfo tDllNodeInfo
  | ArgNodeOp tDllNodeOpParam
  | ArgParam nat "byte list" \<comment> \<open>a structure: its field \<^verbatim>\<open>sizeOfStruct\<close> and the bytes behind it\<close>
  | ArgFrame "byte list"
  | ArgPriority tDllAsyncReqPriority

record tEvent =
  eventType :: tEventType
  eventSink :: tEventSink
  netTime :: nat
  pEventArg :: tEventArg

section \<open>SDO connections\<close>

datatype tSdoType = kSdoTypeAuto | kSdoTypeUdp | kSdoTypeAsnd | kSdoTypePdo

datatype tAsySdoConState =
    kAsySdoConStateConnected | kAsySdoConStateInitError | kAsySdoConStateConClosed
  | kAsySdoConStateAckReceived | kAsySdoConStateFrameSended | kAsySdoConStateTimeout
  | kAsySdoConStateTransferAbort

abbreviation SDO_SEQ_INVALID_HDL :: u32 where "SDO_SEQ_INVALID_HDL \<equiv> 0x3FFF"
abbreviation SDO_SEQ_HANDLE_MASK :: u32 where "SDO_SEQ_HANDLE_MASK \<equiv> 0xC000"

end
