(* ===== verification/Nmtk.thy ===== *)
theory Nmtk
  imports Oplk_Types
begin

text \<open>
  The NMT kernel module (\<^verbatim>\<open>stack/src/kernel/nmt/nmtk.c\<close>): the node's NMT state machine.
  \<open>nmtk_instance\<close> is \<^verbatim>\<open>tNmtkInstance\<close>; every \<^verbatim>\<open>doState...\<close> handler is a definition of the
  same name from an event and the instance to the instance (each returns \<^verbatim>\<open>kErrorOk\<close>), and
  \<open>nmtk_process\<close> is the event handler with its two calls to the other modules. The argument
  \<open>mn\<close> is the compile-time switch \<^verbatim>\<open>CONFIG_INCLUDE_NMT_MN\<close>.
\<close>

section \<open>State\<close>

datatype tNmtkStateIndexes =
    kNmtkGsOff
  | kNmtkGsInitialising
  | kNmtkGsResetApplication
  | kNmtkGsResetCommunication
  | kNmtkGsResetConfiguration
  | kNmtkCsNotActive
  | kNmtkCsPreOperational1
  | kNmtkCsStopped
  | kNmtkCsPreOperational2
  | kNmtkCsReadyToOperate
  | kNmtkCsOperational
  | kNmtkCsBasicEthernet
  | kNmtkMsNotActive
  | kNmtkMsPreOperational1
  | kNmtkMsPreOperational2
  | kNmtkMsReadyToOperate
  | kNmtkMsOperational
  | kNmtkMsBasicEthernet

record nmtk_instance =
  stateIndex :: tNmtkStateIndexes
  fEnableReadyToOperate :: bool
  fAppReadyToOperate :: bool
  fTimerMsPreOp2 :: bool
  fAllMandatoryCNIdent :: bool
  fFrozen :: bool

definition nmtk_init :: "nmtk_instance \<Rightarrow> tOplkError \<times> nmtk_instance" where
  "nmtk_init s =
     (kErrorOk,
      s\<lparr>stateIndex := kNmtkGsOff, fEnableReadyToOperate := False, fAppReadyToOperate := False,
        fTimerMsPreOp2 := False, fAllMandatoryCNIdent := False, fFrozen := False\<rparr>)"

definition nmtk_delInstance :: "nmtk_instance \<Rightarrow> tOplkError \<times> nmtk_instance" where
  "nmtk_delInstance s = (kErrorOk, s\<lparr>stateIndex := kNmtkGsOff\<rparr>)"

section \<open>State handlers\<close>

definition doStateGsOff :: "tNmtEvent \<Rightarrow> nmtk_instance \<Rightarrow> nmtk_instance" where
  "doStateGsOff e s =
     (if e = kNmtEventSwReset then s\<lparr>stateIndex := kNmtkGsInitialising\<rparr> else s)"

definition doStateGsInitialising :: "tNmtEvent \<Rightarrow> nmtk_instance \<Rightarrow> nmtk_instance" where
  "doStateGsInitialising e s =
     (case e of
        kNmtEventCriticalError \<Rightarrow> s\<lparr>stateIndex := kNmtkGsOff\<rparr>
      | kNmtEventSwitchOff \<Rightarrow> s\<lparr>stateIndex := kNmtkGsOff\<rparr>
      | kNmtEventEnterResetApp \<Rightarrow> s\<lparr>stateIndex := kNmtkGsResetApplication\<rparr>
      | _ \<Rightarrow> s)"

definition doStateGsResetApplication :: "tNmtEvent \<Rightarrow> nmtk_instance \<Rightarrow> nmtk_instance" where
  "doStateGsResetApplication e s =
     (case e of
        kNmtEventCriticalError \<Rightarrow> s\<lparr>stateIndex := kNmtkGsOff\<rparr>
      | kNmtEventSwitchOff \<Rightarrow> s\<lparr>stateIndex := kNmtkGsOff\<rparr>
      | kNmtEventSwReset \<Rightarrow> s\<lparr>stateIndex := kNmtkGsInitialising\<rparr>
      | kNmtEventEnterResetCom \<Rightarrow> s\<lparr>stateIndex := kNmtkGsResetCommunication\<rparr>
      | _ \<Rightarrow> s)"

definition doStateGsResetCommunication :: "tNmtEvent \<Rightarrow> nmtk_instance \<Rightarrow> nmtk_instance" where
  "doStateGsResetCommunication e s =
     (case e of
        kNmtEventCriticalError \<Rightarrow> s\<lparr>stateIndex := kNmtkGsOff\<rparr>
      | kNmtEventSwitchOff \<Rightarrow> s\<lparr>stateIndex := kNmtkGsOff\<rparr>
      | kNmtEventSwReset \<Rightarrow> s\<lparr>stateIndex := kNmtkGsInitialising\<rparr>
      | kNmtEventResetNode \<Rightarrow> s\<lparr>stateIndex := kNmtkGsResetApplication\<rparr>
      | kNmtEventEnterResetConfig \<Rightarrow> s\<lparr>stateIndex := kNmtkGsResetConfiguration\<rparr>
      | _ \<Rightarrow> s)"

text \<open>This handler clears the handshake flags before it looks at the event.\<close>

definition doStateGsResetConfiguration ::
    "bool \<Rightarrow> tNmtEvent \<Rightarrow> nmtk_instance \<Rightarrow> nmtk_instance" where
  "doStateGsResetConfiguration mn e s0 =
     (let s = s0\<lparr>fEnableReadyToOperate := False, fAppReadyToOperate := False, fFrozen := False\<rparr>
      in case e of
        kNmtEventCriticalError \<Rightarrow> s\<lparr>stateIndex := kNmtkGsOff\<rparr>
      | kNmtEventSwitchOff \<Rightarrow> s\<lparr>stateIndex := kNmtkGsOff\<rparr>
      | kNmtEventSwReset \<Rightarrow> s\<lparr>stateIndex := kNmtkGsInitialising\<rparr>
      | kNmtEventResetNode \<Rightarrow> s\<lparr>stateIndex := kNmtkGsResetApplication\<rparr>
      | kNmtEventResetCom \<Rightarrow> s\<lparr>stateIndex := kNmtkGsResetCommunication\<rparr>
      | kNmtEventEnterCsNotActive \<Rightarrow> s\<lparr>stateIndex := kNmtkCsNotActive\<rparr>
      | kNmtEventEnterMsNotActive \<Rightarrow>
          (if mn then s\<lparr>stateIndex := kNmtkMsNotActive\<rparr> else s\<lparr>fFrozen := True\<rparr>)
      | _ \<Rightarrow> s)"

definition doStateCsNotActive :: "tNmtEvent \<Rightarrow> nmtk_instance \<Rightarrow> nmtk_instance" where
  "doStateCsNotActive e s =
     (case e of
        kNmtEventCriticalError \<Rightarrow> s\<lparr>stateIndex := kNmtkGsOff\<rparr>
      | kNmtEventSwitchOff \<Rightarrow> s\<lparr>stateIndex := kNmtkGsOff\<rparr>
      | kNmtEventSwReset \<Rightarrow> s\<lparr>stateIndex := kNmtkGsInitialising\<rparr>
      | kNmtEventResetNode \<Rightarrow> s\<lparr>stateIndex := kNmtkGsResetApplication\<rparr>
      | kNmtEventResetCom \<Rightarrow> s\<lparr>stateIndex := kNmtkGsResetCommunication\<rparr>
      | kNmtEventInternComError \<Rightarrow> s\<lparr>stateIndex := kNmtkGsResetCommunication\<rparr>
      | kNmtEventResetConfig \<Rightarrow> s\<lparr>stateIndex := kNmtkGsResetConfiguration\<rparr>
      | kNmtEventDllCeSoc \<Rightarrow> s\<lparr>stateIndex := kNmtkCsPreOperational1\<rparr>
      | kNmtEventDllCeSoa \<Rightarrow> s\<lparr>stateIndex := kNmtkCsPreOperational1\<rparr>
      | kNmtEventTimerBasicEthernet \<Rightarrow> s\<lparr>stateIndex := kNmtkCsBasicEthernet\<rparr>
      | _ \<Rightarrow> s)"

definition doStateCsPreOperational1 :: "tNmtEvent \<Rightarrow> nmtk_instance \<Rightarrow> nmtk_instance" where
  "doStateCsPreOperational1 e s =
     (case e of
        kNmtEventCriticalError \<Rightarrow> s\<lparr>stateIndex := kNmtkGsOff\<rparr>
      | kNmtEventSwitchOff \<Rightarrow> s\<lparr>stateIndex := kNmtkGsOff\<rparr>
      | kNmtEventSwReset \<Rightarrow> s\<lparr>stateIndex := kNmtkGsInitialising\<rparr>
      | kNmtEventResetNode \<Rightarrow> s\<lparr>stateIndex := kNmtkGsResetApplication\<rparr>
      | kNmtEventResetCom \<Rightarrow> s\<lparr>stateIndex := kNmtkGsResetCommunication\<rparr>
      | kNmtEventInternComError \<Rightarrow> s\<lparr>stateIndex := kNmtkGsResetCommunication\<rparr>
      | kNmtEventResetConfig \<Rightarrow> s\<lparr>stateIndex := kNmtkGsResetConfiguration\<rparr>
      | kNmtEventDllCeSoc \<Rightarrow> s\<lparr>stateIndex := kNmtkCsPreOperational2\<rparr>
      | _ \<Rightarrow> s)"

definition doStateCsPreOperational2 :: "tNmtEvent \<Rightarrow> nmtk_instance \<Rightarrow> nmtk_instance" where
  "doStateCsPreOperational2 e s =
     (case e of
        kNmtEventCriticalError \<Rightarrow> s\<lparr>stateIndex := kNmtkGsOff\<rparr>
      | kNmtEventSwitchOff \<Rightarrow> s\<lparr>stateIndex := kNmtkGsOff\<rparr>
      | kNmtEventSwReset \<Rightarrow> s\<lparr>stateIndex := kNmtkGsInitialising\<rparr>
      | kNmtEventResetNode \<Rightarrow> s\<lparr>stateIndex := kNmtkGsResetApplication\<rparr>
      | kNmtEventResetCom \<Rightarrow> s\<lparr>stateIndex := kNmtkGsResetCommunication\<rparr>
      | kNmtEventInternComError \<Rightarrow> s\<lparr>stateIndex := kNmtkGsResetCommunication\<rparr>
      | kNmtEventResetConfig \<Rightarrow> s\<lparr>stateIndex := kNmtkGsResetConfiguration\<rparr>
      | kNmtEventStopNode \<Rightarrow>
          s\<lparr>fEnableReadyToOperate := False, fAppReadyToOperate := False,
            stateIndex := kNmtkCsStopped\<rparr>
      | kNmtEventNmtCycleError \<Rightarrow>
          s\<lparr>fEnableReadyToOperate := False, fAppReadyToOperate := False,
            stateIndex := kNmtkCsPreOperational1\<rparr>
      | kNmtEventEnterReadyToOperate \<Rightarrow>
          (if fEnableReadyToOperate s
           then s\<lparr>fEnableReadyToOperate := False, fAppReadyToOperate := False,
                  stateIndex := kNmtkCsReadyToOperate\<rparr>
           else s\<lparr>fAppReadyToOperate := True\<rparr>)
      | kNmtEventEnableReadyToOperate \<Rightarrow>
          (if fAppReadyToOperate s
           then s\<lparr>fEnableReadyToOperate := False, fAppReadyToOperate := False,
                  stateIndex := kNmtkCsReadyToOperate\<rparr>
           else s\<lparr>fEnableReadyToOperate := True\<rparr>)
      | _ \<Rightarrow> s)"

definition doStateCsReadyToOperate :: "tNmtEvent \<Rightarrow> nmtk_instance \<Rightarrow> nmtk_instance" where
  "doStateCsReadyToOperate e s =
     (case e of
        kNmtEventCriticalError \<Rightarrow> s\<lparr>stateIndex := kNmtkGsOff\<rparr>
      | kNmtEventSwitchOff \<Rightarrow> s\<lparr>stateIndex := kNmtkGsOff\<rparr>
      | kNmtEventSwReset \<Rightarrow> s\<lparr>stateIndex := kNmtkGsInitialising\<rparr>
      | kNmtEventResetNode \<Rightarrow> s\<lparr>stateIndex := kNmtkGsResetApplication\<rparr>
      | kNmtEventResetCom \<Rightarrow> s\<lparr>stateIndex := kNmtkGsResetCommunication\<rparr>
      | kNmtEventInternComError \<Rightarrow> s\<lparr>stateIndex := kNmtkGsResetCommunication\<rparr>
      | kNmtEventResetConfig \<Rightarrow> s\<lparr>stateIndex := kNmtkGsResetConfiguration\<rparr>
      | kNmtEventStopNode \<Rightarrow> s\<lparr>stateIndex := kNmtkCsStopped\<rparr>
      | kNmtEventNmtCycleError \<Rightarrow> s\<lparr>stateIndex := kNmtkCsPreOperational1\<rparr>
      | kNmtEventStartNode \<Rightarrow> s\<lparr>stateIndex := kNmtkCsOperational\<rparr>
      | _ \<Rightarrow> s)"

definition doStateCsOperational :: "tNmtEvent \<Rightarrow> nmtk_instance \<Rightarrow> nmtk_instance" where
  "doStateCsOperational e s =
     (case e of
        kNmtEventCriticalError \<Rightarrow> s\<lparr>stateIndex := kNmtkGsOff\<rparr>
      | kNmtEventSwitchOff \<Rightarrow> s\<lparr>stateIndex := kNmtkGsOff\<rparr>
      | kNmtEventSwReset \<Rightarrow> s\<lparr>stateIndex := kNmtkGsInitialising\<rparr>
      | kNmtEventResetNode \<Rightarrow> s\<lparr>stateIndex := kNmtkGsResetApplication\<rparr>
      | kNmtEventResetCom \<Rightarrow> s\<lparr>stateIndex := kNmtkGsResetCommunication\<rparr>
      | kNmtEventInternComError \<Rightarrow> s\<lparr>stateIndex := kNmtkGsResetCommunication\<rparr>
      | kNmtEventResetConfig \<Rightarrow> s\<lparr>stateIndex := kNmtkGsResetConfiguration\<rparr>
      | kNmtEventStopNode \<Rightarrow> s\<lparr>stateIndex := kNmtkCsStopped\<rparr>
      | kNmtEventEnterPreOperational2 \<Rightarrow> s\<lparr>stateIndex := kNmtkCsPreOperational2\<rparr>
      | kNmtEventNmtCycleError \<Rightarrow> s\<lparr>stateIndex := kNmtkCsPreOperational1\<rparr>
      | _ \<Rightarrow> s)"

definition doStateCsStopped :: "tNmtEvent \<Rightarrow> nmtk_instance \<Rightarrow> nmtk_instance" where
  "doStateCsStopped e s =
     (case e of
        kNmtEventCriticalError \<Rightarrow> s\<lparr>stateIndex := kNmtkGsOff\<rparr>
      | kNmtEventSwitchOff \<Rightarrow> s\<lparr>stateIndex := kNmtkGsOff\<rparr>
      | kNmtEventSwReset \<Rightarrow> s\<lparr>stateIndex := kNmtkGsInitialising\<rparr>
      | kNmtEventResetNode \<Rightarrow> s\<lparr>stateIndex := kNmtkGsResetApplication\<rparr>
      | kNmtEventResetCom \<Rightarrow> s\<lparr>stateIndex := kNmtkGsResetCommunication\<rparr>
      | kNmtEventInternComError \<Rightarrow> s\<lparr>stateIndex := kNmtkGsResetCommunication\<rparr>
      | kNmtEventResetConfig \<Rightarrow> s\<lparr>stateIndex := kNmtkGsResetConfiguration\<rparr>
      | kNmtEventEnterPreOperational2 \<Rightarrow> s\<lparr>stateIndex := kNmtkCsPreOperational2\<rparr>
      | kNmtEventNmtCycleError \<Rightarrow> s\<lparr>stateIndex := kNmtkCsPreOperational1\<rparr>
      | _ \<Rightarrow> s)"

definition doStateCsBasicEthernet :: "tNmtEvent \<Rightarrow> nmtk_instance \<Rightarrow> nmtk_instance" where
  "doStateCsBasicEthernet e s =
     (case e of
        kNmtEventCriticalError \<Rightarrow> s\<lparr>stateIndex := kNmtkGsOff\<rparr>
      | kNmtEventSwitchOff \<Rightarrow> s\<lparr>stateIndex := kNmtkGsOff\<rparr>
      | kNmtEventSwReset \<Rightarrow> s\<lparr>stateIndex := kNmtkGsInitialising\<rparr>
      | kNmtEventResetNode \<Rightarrow> s\<lparr>stateIndex := kNmtkGsResetApplication\<rparr>
      | kNmtEventResetCom \<Rightarrow> s\<lparr>stateIndex := kNmtkGsResetCommunication\<rparr>
      | kNmtEventInternComError \<Rightarrow> s\<lparr>stateIndex := kNmtkGsResetCommunication\<rparr>
      | kNmtEventResetConfig \<Rightarrow> s\<lparr>stateIndex := kNmtkGsResetConfiguration\<rparr>
      | kNmtEventDllCeSoc \<Rightarrow> s\<lparr>stateIndex := kNmtkCsPreOperational1\<rparr>
      | kNmtEventDllCePreq \<Rightarrow> s\<lparr>stateIndex := kNmtkCsPreOperational1\<rparr>
      | kNmtEventDllCePres \<Rightarrow> s\<lparr>stateIndex := kNmtkCsPreOperational1\<rparr>
      | kNmtEventDllCeSoa \<Rightarrow> s\<lparr>stateIndex := kNmtkCsPreOperational1\<rparr>
      | _ \<Rightarrow> s)"

definition doStateMsNotActive :: "bool \<Rightarrow> tNmtEvent \<Rightarrow> nmtk_instance \<Rightarrow> nmtk_instance" where
  "doStateMsNotActive mn e s =
     (if \<not> mn then s\<lparr>fFrozen := True\<rparr>
      else case e of
        kNmtEventCriticalError \<Rightarrow> s\<lparr>stateIndex := kNmtkGsOff\<rparr>
      | kNmtEventSwitchOff \<Rightarrow> s\<lparr>stateIndex := kNmtkGsOff\<rparr>
      | kNmtEventSwReset \<Rightarrow> s\<lparr>stateIndex := kNmtkGsInitialising\<rparr>
      | kNmtEventResetNode \<Rightarrow> s\<lparr>stateIndex := kNmtkGsResetApplication\<rparr>
      | kNmtEventResetCom \<Rightarrow> s\<lparr>stateIndex := kNmtkGsResetCommunication\<rparr>
      | kNmtEventInternComError \<Rightarrow> s\<lparr>stateIndex := kNmtkGsResetCommunication\<rparr>
      | kNmtEventResetConfig \<Rightarrow> s\<lparr>stateIndex := kNmtkGsResetConfiguration\<rparr>
      | kNmtEventDllCeSoc \<Rightarrow> s\<lparr>fFrozen := True\<rparr>
      | kNmtEventDllCeSoa \<Rightarrow> s\<lparr>fFrozen := True\<rparr>
      | kNmtEventTimerBasicEthernet \<Rightarrow>
          (if \<not> fFrozen s then s\<lparr>stateIndex := kNmtkMsBasicEthernet\<rparr> else s)
      | kNmtEventTimerMsPreOp1 \<Rightarrow>
          (if \<not> fFrozen s
           then s\<lparr>stateIndex := kNmtkMsPreOperational1, fTimerMsPreOp2 := False,
                  fAllMandatoryCNIdent := False\<rparr>
           else s)
      | _ \<Rightarrow> s)"

definition doStateMsPreOperational1 :: "tNmtEvent \<Rightarrow> nmtk_instance \<Rightarrow> nmtk_instance" where
  "doStateMsPreOperational1 e s =
     (case e of
        kNmtEventCriticalError \<Rightarrow> s\<lparr>stateIndex := kNmtkGsOff\<rparr>
      | kNmtEventSwitchOff \<Rightarrow> s\<lparr>stateIndex := kNmtkGsOff\<rparr>
      | kNmtEventSwReset \<Rightarrow> s\<lparr>stateIndex := kNmtkGsInitialising\<rparr>
      | kNmtEventResetNode \<Rightarrow> s\<lparr>stateIndex := kNmtkGsResetApplication\<rparr>
      | kNmtEventResetCom \<Rightarrow> s\<lparr>stateIndex := kNmtkGsResetCommunication\<rparr>
      | kNmtEventInternComError \<Rightarrow> s\<lparr>stateIndex := kNmtkGsResetCommunication\<rparr>
      | kNmtEventResetConfig \<Rightarrow> s\<lparr>stateIndex := kNmtkGsResetConfiguration\<rparr>
      | kNmtEventDllCeSoc \<Rightarrow> s\<lparr>stateIndex := kNmtkGsResetCommunication\<rparr>
      | kNmtEventDllCeSoa \<Rightarrow> s\<lparr>stateIndex := kNmtkGsResetCommunication\<rparr>
      | kNmtEventAllMandatoryCNIdent \<Rightarrow>
          (if fTimerMsPreOp2 s then s\<lparr>stateIndex := kNmtkMsPreOperational2\<rparr>
           else s\<lparr>fAllMandatoryCNIdent := True\<rparr>)
      | kNmtEventTimerMsPreOp2 \<Rightarrow>
          (if fAllMandatoryCNIdent s then s\<lparr>stateIndex := kNmtkMsPreOperational2\<rparr>
           else s\<lparr>fTimerMsPreOp2 := True\<rparr>)
      | _ \<Rightarrow> s)"

definition doStateMsPreOperational2 :: "tNmtEvent \<Rightarrow> nmtk_instance \<Rightarrow> nmtk_instance" where
  "doStateMsPreOperational2 e s =
     (case e of
        kNmtEventCriticalError \<Rightarrow> s\<lparr>stateIndex := kNmtkGsOff\<rparr>
      | kNmtEventSwitchOff \<Rightarrow> s\<lparr>stateIndex := kNmtkGsOff\<rparr>
      | kNmtEventSwReset \<Rightarrow> s\<lparr>stateIndex := kNmtkGsInitialising\<rparr>
      | kNmtEventResetNode \<Rightarrow> s\<lparr>stateIndex := kNmtkGsResetApplication\<rparr>
      | kNmtEventResetCom \<Rightarrow> s\<lparr>stateIndex := kNmtkGsResetCommunication\<rparr>
      | kNmtEventInternComError \<Rightarrow> s\<lparr>stateIndex := kNmtkGsResetCommunication\<rparr>
      | kNmtEventResetConfig \<Rightarrow> s\<lparr>stateIndex := kNmtkGsResetConfiguration\<rparr>
      | kNmtEventDllCeSoc \<Rightarrow> s\<lparr>stateIndex := kNmtkGsResetCommunication\<rparr>
      | kNmtEventDllCeSoa \<Rightarrow> s\<lparr>stateIndex := kNmtkGsResetCommunication\<rparr>
      | kNmtEventNmtCycleError \<Rightarrow> s\<lparr>stateIndex := kNmtkMsPreOperational1\<rparr>
      | kNmtEventEnterReadyToOperate \<Rightarrow> s\<lparr>stateIndex := kNmtkMsReadyToOperate\<rparr>
      | _ \<Rightarrow> s)"

definition doStateMsReadyToOperate :: "tNmtEvent \<Rightarrow> nmtk_instance \<Rightarrow> nmtk_instance" where
  "doStateMsReadyToOperate e s =
     (case e of
        kNmtEventCriticalError \<Rightarrow> s\<lparr>stateIndex := kNmtkGsOff\<rparr>
      | kNmtEventSwitchOff \<Rightarrow> s\<lparr>stateIndex := kNmtkGsOff\<rparr>
      | kNmtEventSwReset \<Rightarrow> s\<lparr>stateIndex := kNmtkGsInitialising\<rparr>
      | kNmtEventResetNode \<Rightarrow> s\<lparr>stateIndex := kNmtkGsResetApplication\<rparr>
      | kNmtEventResetCom \<Rightarrow> s\<lparr>stateIndex := kNmtkGsResetCommunication\<rparr>
      | kNmtEventInternComError \<Rightarrow> s\<lparr>stateIndex := kNmtkGsResetCommunication\<rparr>
      | kNmtEventResetConfig \<Rightarrow> s\<lparr>stateIndex := kNmtkGsResetConfiguration\<rparr>
      | kNmtEventDllCeSoc \<Rightarrow> s\<lparr>stateIndex := kNmtkGsResetCommunication\<rparr>
      | kNmtEventDllCeSoa \<Rightarrow> s\<lparr>stateIndex := kNmtkGsResetCommunication\<rparr>
      | kNmtEventNmtCycleError \<Rightarrow> s\<lparr>stateIndex := kNmtkMsPreOperational1\<rparr>
      | kNmtEventEnterMsOperational \<Rightarrow> s\<lparr>stateIndex := kNmtkMsOperational\<rparr>
      | _ \<Rightarrow> s)"

definition doStateMsOperational :: "tNmtEvent \<Rightarrow> nmtk_instance \<Rightarrow> nmtk_instance" where
  "doStateMsOperational e s =
     (case e of
        kNmtEventCriticalError \<Rightarrow> s\<lparr>stateIndex := kNmtkGsOff\<rparr>
      | kNmtEventSwitchOff \<Rightarrow> s\<lparr>stateIndex := kNmtkGsOff\<rparr>
      | kNmtEventSwReset \<Rightarrow> s\<lparr>stateIndex := kNmtkGsInitialising\<rparr>
      | kNmtEventResetNode \<Rightarrow> s\<lparr>stateIndex := kNmtkGsResetApplication\<rparr>
      | kNmtEventResetCom \<Rightarrow> s\<lparr>stateIndex := kNmtkGsResetCommunication\<rparr>
      | kNmtEventInternComError \<Rightarrow> s\<lparr>stateIndex := kNmtkGsResetCommunication\<rparr>
      | kNmtEventResetConfig \<Rightarrow> s\<lparr>stateIndex := kNmtkGsResetConfiguration\<rparr>
      | kNmtEventDllCeSoc \<Rightarrow> s\<lparr>stateIndex := kNmtkGsResetCommunication\<rparr>
      | kNmtEventDllCeSoa \<Rightarrow> s\<lparr>stateIndex := kNmtkGsResetCommunication\<rparr>
      | kNmtEventNmtCycleError \<Rightarrow> s\<lparr>stateIndex := kNmtkMsPreOperational1\<rparr>
      | _ \<Rightarrow> s)"

definition doStateMsBasicEthernet :: "tNmtEvent \<Rightarrow> nmtk_instance \<Rightarrow> nmtk_instance" where
  "doStateMsBasicEthernet e s =
     (case e of
        kNmtEventCriticalError \<Rightarrow> s\<lparr>stateIndex := kNmtkGsOff\<rparr>
      | kNmtEventSwitchOff \<Rightarrow> s\<lparr>stateIndex := kNmtkGsOff\<rparr>
      | kNmtEventSwReset \<Rightarrow> s\<lparr>stateIndex := kNmtkGsInitialising\<rparr>
      | kNmtEventResetNode \<Rightarrow> s\<lparr>stateIndex := kNmtkGsResetApplication\<rparr>
      | kNmtEventResetCom \<Rightarrow> s\<lparr>stateIndex := kNmtkGsResetCommunication\<rparr>
      | kNmtEventInternComError \<Rightarrow> s\<lparr>stateIndex := kNmtkGsResetCommunication\<rparr>
      | kNmtEventResetConfig \<Rightarrow> s\<lparr>stateIndex := kNmtkGsResetConfiguration\<rparr>
      | kNmtEventDllCeSoc \<Rightarrow> s\<lparr>stateIndex := kNmtkGsResetCommunication\<rparr>
      | kNmtEventDllCeSoa \<Rightarrow> s\<lparr>stateIndex := kNmtkGsResetCommunication\<rparr>
      | _ \<Rightarrow> s)"

section \<open>The state table and the event handler\<close>

text \<open>\<^verbatim>\<open>nmtkStates_g\<close>: without managing-node support the table ends at \<^verbatim>\<open>MsNotActive\<close>.\<close>

definition nmtkStates ::
    "bool \<Rightarrow> (tNmtState \<times> (tNmtEvent \<Rightarrow> nmtk_instance \<Rightarrow> nmtk_instance)) list" where
  "nmtkStates mn =
    [(kNmtGsOff, doStateGsOff),
     (kNmtGsInitialising, doStateGsInitialising),
     (kNmtGsResetApplication, doStateGsResetApplication),
     (kNmtGsResetCommunication, doStateGsResetCommunication),
     (kNmtGsResetConfiguration, doStateGsResetConfiguration mn),
     (kNmtCsNotActive, doStateCsNotActive),
     (kNmtCsPreOperational1, doStateCsPreOperational1),
     (kNmtCsStopped, doStateCsStopped),
     (kNmtCsPreOperational2, doStateCsPreOperational2),
     (kNmtCsReadyToOperate, doStateCsReadyToOperate),
     (kNmtCsOperational, doStateCsOperational),
     (kNmtCsBasicEthernet, doStateCsBasicEthernet),
     (kNmtMsNotActive, doStateMsNotActive mn)] @
    (if mn then
      [(kNmtMsPreOperational1, doStateMsPreOperational1),
       (kNmtMsPreOperational2, doStateMsPreOperational2),
       (kNmtMsReadyToOperate, doStateMsReadyToOperate),
       (kNmtMsOperational, doStateMsOperational),
       (kNmtMsBasicEthernet, doStateMsBasicEthernet)]
     else [])"

text \<open>The value of the index enumeration.\<close>

primrec nmtk_index :: "tNmtkStateIndexes \<Rightarrow> nat" where
  "nmtk_index kNmtkGsOff = 0"
| "nmtk_index kNmtkGsInitialising = 1"
| "nmtk_index kNmtkGsResetApplication = 2"
| "nmtk_index kNmtkGsResetCommunication = 3"
| "nmtk_index kNmtkGsResetConfiguration = 4"
| "nmtk_index kNmtkCsNotActive = 5"
| "nmtk_index kNmtkCsPreOperational1 = 6"
| "nmtk_index kNmtkCsStopped = 7"
| "nmtk_index kNmtkCsPreOperational2 = 8"
| "nmtk_index kNmtkCsReadyToOperate = 9"
| "nmtk_index kNmtkCsOperational = 10"
| "nmtk_index kNmtkCsBasicEthernet = 11"
| "nmtk_index kNmtkMsNotActive = 12"
| "nmtk_index kNmtkMsPreOperational1 = 13"
| "nmtk_index kNmtkMsPreOperational2 = 14"
| "nmtk_index kNmtkMsReadyToOperate = 15"
| "nmtk_index kNmtkMsOperational = 16"
| "nmtk_index kNmtkMsBasicEthernet = 17"

definition nmtk_entry ::
    "bool \<Rightarrow> tNmtkStateIndexes \<Rightarrow> (tNmtState \<times> (tNmtEvent \<Rightarrow> nmtk_instance \<Rightarrow> nmtk_instance)) option"
  where
  "nmtk_entry mn i =
     (if nmtk_index i < length (nmtkStates mn) then Some (nmtkStates mn ! nmtk_index i) else None)"

definition nmtk_dispatch :: "bool \<Rightarrow> tNmtEvent \<Rightarrow> nmtk_instance \<Rightarrow> nmtk_instance option" where
  "nmtk_dispatch mn e s = map_option (\<lambda>ent. snd ent e s) (nmtk_entry mn (stateIndex s))"

text \<open>
  \<open>nmtk_event_arg\<close> is the first switch of \<^verbatim>\<open>nmtk_process\<close>: \<open>Some (Some e)\<close> the NMT event,
  \<open>Some None\<close> an event type it refuses, \<^term>\<open>None\<close> an argument of another type than the event
  type says (the code would read it through a cast).
\<close>

definition nmtk_event_arg :: "tEvent \<Rightarrow> tNmtEvent option option" where
  "nmtk_event_arg ev =
     (case eventType ev of
        kEventTypeNmtEvent \<Rightarrow> (case pEventArg ev of ArgNmtEvent e \<Rightarrow> Some (Some e) | _ \<Rightarrow> None)
      | kEventTypeTimer \<Rightarrow>
          (case pEventArg ev of ArgTimerValue h v \<Rightarrow> Some (Some (nmt_event_of_code v)) | _ \<Rightarrow> None)
      | _ \<Rightarrow> Some None)"

definition state_change_event :: "tEventSink \<Rightarrow> tEventNmtStateChange \<Rightarrow> tEvent" where
  "state_change_event sink ch =
     \<lparr>eventType = kEventTypeNmtStateChange, eventSink = sink, netTime = 0,
      pEventArg = ArgStateChange ch\<rparr>"

text \<open>
  \<open>dllk\<close> and \<open>post\<close> are the results of \<^verbatim>\<open>dllk_process\<close> and \<^verbatim>\<open>eventk_postEvent\<close>; the last
  component of the result lists the events handed to them, in order.
\<close>

definition nmtk_process ::
    "bool \<Rightarrow> (tEvent \<Rightarrow> tOplkError) \<Rightarrow> (tEvent \<Rightarrow> tOplkError) \<Rightarrow> tEvent \<Rightarrow> nmtk_instance \<Rightarrow>
     (tOplkError \<times> nmtk_instance \<times> tEvent list) option" where
  "nmtk_process mn dllk post ev s =
     (case nmtk_event_arg ev of
        None \<Rightarrow> None
      | Some None \<Rightarrow> Some (kErrorNmtInvalidEvent, s, [])
      | Some (Some e) \<Rightarrow>
          (case nmtk_entry mn (stateIndex s) of
             None \<Rightarrow> None
           | Some old \<Rightarrow>
               let s' = snd old e s in
               if stateIndex s = stateIndex s' then Some (kErrorOk, s', [])
               else
                 (case nmtk_entry mn (stateIndex s') of
                    None \<Rightarrow> None
                  | Some new \<Rightarrow>
                      let ch = \<lparr>newNmtState = fst new, oldNmtState = fst old, nmtEvent = e\<rparr>;
                          evD = state_change_event kEventSinkDllk ch;
                          evU = state_change_event kEventSinkNmtu ch
                      in if dllk evD \<noteq> kErrorOk then Some (dllk evD, s', [evD])
                         else Some (post evU, s', [evD, evU]))))"

section \<open>Facts about the dispatch\<close>

lemmas doState_defs [step_defs] =
  doStateGsOff_def doStateGsInitialising_def doStateGsResetApplication_def
  doStateGsResetCommunication_def doStateGsResetConfiguration_def doStateCsNotActive_def
  doStateCsPreOperational1_def doStateCsPreOperational2_def doStateCsReadyToOperate_def
  doStateCsOperational_def doStateCsStopped_def doStateCsBasicEthernet_def
  doStateMsNotActive_def doStateMsPreOperational1_def doStateMsPreOperational2_def
  doStateMsReadyToOperate_def doStateMsOperational_def doStateMsBasicEthernet_def

text \<open>The NMT state of an index, as the table has it.\<close>

primrec nmt_of_index :: "tNmtkStateIndexes \<Rightarrow> tNmtState" where
  "nmt_of_index kNmtkGsOff = kNmtGsOff"
| "nmt_of_index kNmtkGsInitialising = kNmtGsInitialising"
| "nmt_of_index kNmtkGsResetApplication = kNmtGsResetApplication"
| "nmt_of_index kNmtkGsResetCommunication = kNmtGsResetCommunication"
| "nmt_of_index kNmtkGsResetConfiguration = kNmtGsResetConfiguration"
| "nmt_of_index kNmtkCsNotActive = kNmtCsNotActive"
| "nmt_of_index kNmtkCsPreOperational1 = kNmtCsPreOperational1"
| "nmt_of_index kNmtkCsStopped = kNmtCsStopped"
| "nmt_of_index kNmtkCsPreOperational2 = kNmtCsPreOperational2"
| "nmt_of_index kNmtkCsReadyToOperate = kNmtCsReadyToOperate"
| "nmt_of_index kNmtkCsOperational = kNmtCsOperational"
| "nmt_of_index kNmtkCsBasicEthernet = kNmtCsBasicEthernet"
| "nmt_of_index kNmtkMsNotActive = kNmtMsNotActive"
| "nmt_of_index kNmtkMsPreOperational1 = kNmtMsPreOperational1"
| "nmt_of_index kNmtkMsPreOperational2 = kNmtMsPreOperational2"
| "nmt_of_index kNmtkMsReadyToOperate = kNmtMsReadyToOperate"
| "nmt_of_index kNmtkMsOperational = kNmtMsOperational"
| "nmt_of_index kNmtkMsBasicEthernet = kNmtMsBasicEthernet"

lemma nmt_of_index_inject [simp]: "nmt_of_index i = nmt_of_index j \<longleftrightarrow> i = j"
  by (cases i; cases j; simp)

text \<open>The rows of the table, one equation per index.\<close>

lemma nmtk_entry_simps [simp]:
  "nmtk_entry mn kNmtkGsOff = Some (kNmtGsOff, doStateGsOff)"
  "nmtk_entry mn kNmtkGsInitialising = Some (kNmtGsInitialising, doStateGsInitialising)"
  "nmtk_entry mn kNmtkGsResetApplication = Some (kNmtGsResetApplication, doStateGsResetApplication)"
  "nmtk_entry mn kNmtkGsResetCommunication =
     Some (kNmtGsResetCommunication, doStateGsResetCommunication)"
  "nmtk_entry mn kNmtkGsResetConfiguration =
     Some (kNmtGsResetConfiguration, doStateGsResetConfiguration mn)"
  "nmtk_entry mn kNmtkCsNotActive = Some (kNmtCsNotActive, doStateCsNotActive)"
  "nmtk_entry mn kNmtkCsPreOperational1 = Some (kNmtCsPreOperational1, doStateCsPreOperational1)"
  "nmtk_entry mn kNmtkCsStopped = Some (kNmtCsStopped, doStateCsStopped)"
  "nmtk_entry mn kNmtkCsPreOperational2 = Some (kNmtCsPreOperational2, doStateCsPreOperational2)"
  "nmtk_entry mn kNmtkCsReadyToOperate = Some (kNmtCsReadyToOperate, doStateCsReadyToOperate)"
  "nmtk_entry mn kNmtkCsOperational = Some (kNmtCsOperational, doStateCsOperational)"
  "nmtk_entry mn kNmtkCsBasicEthernet = Some (kNmtCsBasicEthernet, doStateCsBasicEthernet)"
  "nmtk_entry mn kNmtkMsNotActive = Some (kNmtMsNotActive, doStateMsNotActive mn)"
  by (simp_all add: nmtk_entry_def nmtkStates_def)

lemma nmtk_entry_ms_simps [simp]:
  "nmtk_entry mn kNmtkMsPreOperational1 =
     (if mn then Some (kNmtMsPreOperational1, doStateMsPreOperational1) else None)"
  "nmtk_entry mn kNmtkMsPreOperational2 =
     (if mn then Some (kNmtMsPreOperational2, doStateMsPreOperational2) else None)"
  "nmtk_entry mn kNmtkMsReadyToOperate =
     (if mn then Some (kNmtMsReadyToOperate, doStateMsReadyToOperate) else None)"
  "nmtk_entry mn kNmtkMsOperational =
     (if mn then Some (kNmtMsOperational, doStateMsOperational) else None)"
  "nmtk_entry mn kNmtkMsBasicEthernet =
     (if mn then Some (kNmtMsBasicEthernet, doStateMsBasicEthernet) else None)"
  by (simp_all add: nmtk_entry_def nmtkStates_def)

text \<open>The table names the state of its row.\<close>

lemma nmtk_entry_state: "nmtk_entry mn i = Some ent \<Longrightarrow> fst ent = nmt_of_index i"
  by (cases i; cases mn; auto)

section \<open>Specification: the NMT transition relation\<close>

text \<open>
  The transitions of the POWERLINK NMT state machine, by the labels the code's comments give
  them. The common resets are one rule each, for a whole range of states in the order of the
  state codes. \<open>nmt_guard\<close> adds the conditions on the instance's flags.
\<close>

inductive nmt_trans :: "tNmtState \<Rightarrow> tNmtEvent \<Rightarrow> tNmtState \<Rightarrow> bool" where
  GT1: "nmt_trans kNmtGsOff kNmtEventSwReset kNmtGsInitialising"
| GT3: "kNmtGsOff < s \<Longrightarrow> e \<in> {kNmtEventSwitchOff, kNmtEventCriticalError} \<Longrightarrow>
     nmt_trans s e kNmtGsOff"
| GT4: "kNmtGsResetApplication < s \<Longrightarrow> nmt_trans s kNmtEventResetNode kNmtGsResetApplication"
| GT5: "kNmtGsResetCommunication < s \<Longrightarrow> nmt_trans s kNmtEventResetCom kNmtGsResetCommunication"
| GT6: "kNmtGsResetConfiguration < s \<Longrightarrow>
     nmt_trans s kNmtEventInternComError kNmtGsResetCommunication"
| GT7: "kNmtGsResetConfiguration < s \<Longrightarrow>
     nmt_trans s kNmtEventResetConfig kNmtGsResetConfiguration"
| GT8: "kNmtGsInitialising < s \<Longrightarrow> nmt_trans s kNmtEventSwReset kNmtGsInitialising"
| GT10: "nmt_trans kNmtGsInitialising kNmtEventEnterResetApp kNmtGsResetApplication"
| GT11: "nmt_trans kNmtGsResetApplication kNmtEventEnterResetCom kNmtGsResetCommunication"
| GT12: "nmt_trans kNmtGsResetCommunication kNmtEventEnterResetConfig kNmtGsResetConfiguration"
| CT1: "nmt_trans kNmtGsResetConfiguration kNmtEventEnterCsNotActive kNmtCsNotActive"
| CT2: "e \<in> {kNmtEventDllCeSoc, kNmtEventDllCeSoa} \<Longrightarrow>
     nmt_trans kNmtCsNotActive e kNmtCsPreOperational1"
| CT3: "nmt_trans kNmtCsNotActive kNmtEventTimerBasicEthernet kNmtCsBasicEthernet"
| CT4: "nmt_trans kNmtCsPreOperational1 kNmtEventDllCeSoc kNmtCsPreOperational2"
| CT6: "e \<in> {kNmtEventEnterReadyToOperate, kNmtEventEnableReadyToOperate} \<Longrightarrow>
     nmt_trans kNmtCsPreOperational2 e kNmtCsReadyToOperate"
| CT7: "nmt_trans kNmtCsReadyToOperate kNmtEventStartNode kNmtCsOperational"
| CT8: "s \<in> {kNmtCsPreOperational2, kNmtCsReadyToOperate, kNmtCsOperational} \<Longrightarrow>
     nmt_trans s kNmtEventStopNode kNmtCsStopped"
| CT9_10: "s \<in> {kNmtCsOperational, kNmtCsStopped} \<Longrightarrow>
     nmt_trans s kNmtEventEnterPreOperational2 kNmtCsPreOperational2"
| CT11: "s \<in> {kNmtCsPreOperational2, kNmtCsReadyToOperate, kNmtCsOperational, kNmtCsStopped} \<Longrightarrow>
     nmt_trans s kNmtEventNmtCycleError kNmtCsPreOperational1"
| CT12: "e \<in> {kNmtEventDllCeSoc, kNmtEventDllCePreq, kNmtEventDllCePres, kNmtEventDllCeSoa} \<Longrightarrow>
     nmt_trans kNmtCsBasicEthernet e kNmtCsPreOperational1"
| MT1: "nmt_trans kNmtGsResetConfiguration kNmtEventEnterMsNotActive kNmtMsNotActive"
| MT2: "nmt_trans kNmtMsNotActive kNmtEventTimerMsPreOp1 kNmtMsPreOperational1"
| MT3: "e \<in> {kNmtEventAllMandatoryCNIdent, kNmtEventTimerMsPreOp2} \<Longrightarrow>
     nmt_trans kNmtMsPreOperational1 e kNmtMsPreOperational2"
| MT4: "nmt_trans kNmtMsPreOperational2 kNmtEventEnterReadyToOperate kNmtMsReadyToOperate"
| MT5: "nmt_trans kNmtMsReadyToOperate kNmtEventEnterMsOperational kNmtMsOperational"
| MT6: "s \<in> {kNmtMsPreOperational2, kNmtMsReadyToOperate, kNmtMsOperational} \<Longrightarrow>
     nmt_trans s kNmtEventNmtCycleError kNmtMsPreOperational1"
| MT7: "nmt_trans kNmtMsNotActive kNmtEventTimerBasicEthernet kNmtMsBasicEthernet"
| OtherMn: "kNmtMsNotActive < s \<Longrightarrow> e \<in> {kNmtEventDllCeSoc, kNmtEventDllCeSoa} \<Longrightarrow>
     nmt_trans s e kNmtGsResetCommunication"

definition nmt_guard :: "bool \<Rightarrow> tNmtState \<Rightarrow> tNmtEvent \<Rightarrow> nmtk_instance \<Rightarrow> bool" where
  "nmt_guard mn st e s \<longleftrightarrow>
     (st = kNmtGsResetConfiguration \<and> e = kNmtEventEnterMsNotActive \<longrightarrow> mn) \<and>
     (st = kNmtMsNotActive \<longrightarrow> mn) \<and>
     (st = kNmtCsPreOperational2 \<and> e = kNmtEventEnterReadyToOperate \<longrightarrow>
        fEnableReadyToOperate s) \<and>
     (st = kNmtCsPreOperational2 \<and> e = kNmtEventEnableReadyToOperate \<longrightarrow>
        fAppReadyToOperate s) \<and>
     (st = kNmtMsNotActive \<and> e \<in> {kNmtEventTimerBasicEthernet, kNmtEventTimerMsPreOp1} \<longrightarrow>
        \<not> fFrozen s) \<and>
     (st = kNmtMsPreOperational1 \<and> e = kNmtEventAllMandatoryCNIdent \<longrightarrow> fTimerMsPreOp2 s) \<and>
     (st = kNmtMsPreOperational1 \<and> e = kNmtEventTimerMsPreOp2 \<longrightarrow> fAllMandatoryCNIdent s)"

text \<open>The transitions out of each state.\<close>

declare nmt_order_defs [simp]

inductive_simps nmt_trans_from:
  "nmt_trans kNmtGsOff e t"
  "nmt_trans kNmtGsInitialising e t"
  "nmt_trans kNmtGsResetApplication e t"
  "nmt_trans kNmtGsResetCommunication e t"
  "nmt_trans kNmtGsResetConfiguration e t"
  "nmt_trans kNmtCsNotActive e t"
  "nmt_trans kNmtCsPreOperational1 e t"
  "nmt_trans kNmtCsStopped e t"
  "nmt_trans kNmtCsPreOperational2 e t"
  "nmt_trans kNmtCsReadyToOperate e t"
  "nmt_trans kNmtCsOperational e t"
  "nmt_trans kNmtCsBasicEthernet e t"
  "nmt_trans kNmtMsNotActive e t"
  "nmt_trans kNmtMsPreOperational1 e t"
  "nmt_trans kNmtMsPreOperational2 e t"
  "nmt_trans kNmtMsReadyToOperate e t"
  "nmt_trans kNmtMsOperational e t"
  "nmt_trans kNmtMsBasicEthernet e t"

section \<open>Invariant\<close>

text \<open>
  At most one of the two handshake flags of a controlled node is set, none outside
  \<^verbatim>\<open>PreOperational2\<close> once the node communicates; the same for the two flags of the managing
  node's first boot step; and a managing-node state is reached only with managing-node support,
  so the table always has a row for the current state.
\<close>

definition nmtk_inv :: "bool \<Rightarrow> nmtk_instance \<Rightarrow> bool" where
  "nmtk_inv mn s \<longleftrightarrow>
     \<not> (fEnableReadyToOperate s \<and> fAppReadyToOperate s) \<and>
     \<not> (fTimerMsPreOp2 s \<and> fAllMandatoryCNIdent s) \<and>
     (kNmtGsResetConfiguration < nmt_of_index (stateIndex s) \<and>
        stateIndex s \<noteq> kNmtkCsPreOperational2 \<longrightarrow>
      \<not> fEnableReadyToOperate s \<and> \<not> fAppReadyToOperate s) \<and>
     (is_ms (nmt_of_index (stateIndex s)) \<longrightarrow> mn)"

lemma nmtk_inv_init [inv_intros]: "nmtk_inv mn (snd (nmtk_init s))"
  by (simp add: nmtk_inv_def nmtk_init_def is_ms_def)

lemma nmtk_inv_dispatch [inv_intros]:
  "nmtk_inv mn s \<Longrightarrow> \<exists>s'. nmtk_dispatch mn e s = Some s' \<and> nmtk_inv mn s'"
  by (cases "stateIndex s"; cases e;
      auto simp: nmtk_dispatch_def step_defs nmtk_inv_def is_ms_def Let_def)

interpretation nmt_machine: safe_machine "nmtk_dispatch mn" "\<lambda>_. True" "nmtk_inv mn" for mn
  by unfold_locales (rule nmtk_inv_dispatch)

section \<open>The handshakes\<close>

text \<open>Events that a node in one of the two states of a handshake does not leave it by.\<close>

definition cn_ready_neutral :: "tNmtEvent \<Rightarrow> bool" where
  "cn_ready_neutral e \<longleftrightarrow>
     e \<notin> {kNmtEventCriticalError, kNmtEventSwitchOff, kNmtEventSwReset, kNmtEventResetNode,
          kNmtEventResetCom, kNmtEventInternComError, kNmtEventResetConfig, kNmtEventStopNode,
          kNmtEventNmtCycleError, kNmtEventStartNode}"

definition mn_boot_neutral :: "tNmtEvent \<Rightarrow> bool" where
  "mn_boot_neutral e \<longleftrightarrow>
     e \<notin> {kNmtEventCriticalError, kNmtEventSwitchOff, kNmtEventSwReset, kNmtEventResetNode,
          kNmtEventResetCom, kNmtEventInternComError, kNmtEventResetConfig, kNmtEventDllCeSoc,
          kNmtEventDllCeSoa, kNmtEventNmtCycleError, kNmtEventEnterReadyToOperate}"

text \<open>What the instance has recorded of the events \<open>seen\<close> so far.\<close>

definition cn_ready_progress :: "tNmtEvent set \<Rightarrow> nmtk_instance \<Rightarrow> bool" where
  "cn_ready_progress seen s \<longleftrightarrow>
     (if {kNmtEventEnterReadyToOperate, kNmtEventEnableReadyToOperate} \<subseteq> seen
      then stateIndex s = kNmtkCsReadyToOperate
      else stateIndex s = kNmtkCsPreOperational2 \<and>
        (fAppReadyToOperate s \<longleftrightarrow> kNmtEventEnterReadyToOperate \<in> seen) \<and>
        (fEnableReadyToOperate s \<longleftrightarrow> kNmtEventEnableReadyToOperate \<in> seen))"

definition mn_boot_progress :: "tNmtEvent set \<Rightarrow> nmtk_instance \<Rightarrow> bool" where
  "mn_boot_progress seen s \<longleftrightarrow>
     (if {kNmtEventAllMandatoryCNIdent, kNmtEventTimerMsPreOp2} \<subseteq> seen
      then stateIndex s = kNmtkMsPreOperational2
      else stateIndex s = kNmtkMsPreOperational1 \<and>
        (fAllMandatoryCNIdent s \<longleftrightarrow> kNmtEventAllMandatoryCNIdent \<in> seen) \<and>
        (fTimerMsPreOp2 s \<longleftrightarrow> kNmtEventTimerMsPreOp2 \<in> seen))"

lemma cn_ready_progress_step:
  "cn_ready_progress seen s \<Longrightarrow> cn_ready_neutral e \<Longrightarrow>
   \<exists>s'. nmtk_dispatch mn e s = Some s' \<and> cn_ready_progress (insert e seen) s'"
  by (cases e; auto simp: cn_ready_progress_def cn_ready_neutral_def nmtk_dispatch_def
      doStateCsPreOperational2_def doStateCsReadyToOperate_def split: if_splits)

lemma mn_boot_progress_step:
  "mn_boot_progress seen s \<Longrightarrow> mn_boot_neutral e \<Longrightarrow>
   \<exists>s'. nmtk_dispatch True e s = Some s' \<and> mn_boot_progress (insert e seen) s'"
  by (cases e; auto simp: mn_boot_progress_def mn_boot_neutral_def nmtk_dispatch_def
      doStateMsPreOperational1_def doStateMsPreOperational2_def split: if_splits)

text \<open>Progress along a run, for both handshakes at once.\<close>

lemma progress_run:
  assumes "\<And>seen s e. P seen s \<Longrightarrow> N e \<Longrightarrow> \<exists>s'. step e s = Some s' \<and> P (insert e seen) s'"
    and "P seen s" and "list_all N es"
  shows "\<exists>s'. run_steps step es s = Some s' \<and> P (set es \<union> seen) s'"
  using assms(2,3)
proof (induction es arbitrary: seen s)
  case Nil
  then show ?case by simp
next
  case (Cons e es)
  then obtain s1 where "step e s = Some s1" and "P (insert e seen) s1"
    using assms(1) by fastforce
  with Cons show ?case by fastforce
qed

section \<open>Entering the managing-node role\<close>

lemma enter_ms_step:
  assumes "nmtk_dispatch mn e s = Some s'" and "\<not> is_ms (nmt_of_index (stateIndex s))"
    and "is_ms (nmt_of_index (stateIndex s'))"
  shows "stateIndex s = kNmtkGsResetConfiguration \<and> e = kNmtEventEnterMsNotActive"
  using assms
  by (cases "stateIndex s"; cases e;
      auto simp: nmtk_dispatch_def step_defs is_ms_def Let_def split: if_splits)

lemma enter_ms_run:
  "run_steps (nmtk_dispatch mn) es s = Some s' \<Longrightarrow> \<not> is_ms (nmt_of_index (stateIndex s)) \<Longrightarrow>
   is_ms (nmt_of_index (stateIndex s')) \<Longrightarrow>
   \<exists>k m. k < length es \<and> run_steps (nmtk_dispatch mn) (take k es) s = Some m \<and>
     stateIndex m = kNmtkGsResetConfiguration \<and> es ! k = kNmtEventEnterMsNotActive"
proof (induction es arbitrary: s' rule: rev_induct)
  case Nil
  then show ?case by simp
next
  case (snoc e es)
  then obtain m where m: "run_steps (nmtk_dispatch mn) es s = Some m"
    and e: "nmtk_dispatch mn e m = Some s'"
    by (auto simp: run_steps_append split: option.splits)
  show ?case
  proof (cases "is_ms (nmt_of_index (stateIndex m))")
    case True
    from snoc.IH [OF m snoc.prems(2) True] obtain k m' where "k < length es"
      and "run_steps (nmtk_dispatch mn) (take k es) s = Some m'"
      and "stateIndex m' = kNmtkGsResetConfiguration" and "es ! k = kNmtEventEnterMsNotActive"
      by blast
    then show ?thesis by (intro exI [of _ k] exI [of _ m']) (simp add: nth_append)
  next
    case False
    from enter_ms_step [OF e False snoc.prems(3)] m show ?thesis
      by (intro exI [of _ "length es"] exI [of _ m]) simp
  qed
qed

text \<open>Events that do not reset a node in \<^verbatim>\<open>MsNotActive\<close>.\<close>

definition no_reset :: "tNmtEvent \<Rightarrow> bool" where
  "no_reset e \<longleftrightarrow>
     e \<notin> {kNmtEventCriticalError, kNmtEventSwitchOff, kNmtEventSwReset, kNmtEventResetNode,
          kNmtEventResetCom, kNmtEventInternComError, kNmtEventResetConfig}"

definition ms_frozen :: "nmtk_instance \<Rightarrow> bool" where
  "ms_frozen s \<longleftrightarrow> stateIndex s = kNmtkMsNotActive \<and> fFrozen s"

lemma ms_frozen_step:
  "ms_frozen s \<Longrightarrow> no_reset e \<Longrightarrow> \<exists>s'. nmtk_dispatch True e s = Some s' \<and> ms_frozen s'"
  by (cases e; auto simp: ms_frozen_def no_reset_def nmtk_dispatch_def doStateMsNotActive_def)

interpretation nmt_frozen: safe_machine "nmtk_dispatch True" no_reset ms_frozen
  by unfold_locales (rule ms_frozen_step)

text \<open>A node in a given state with all flags clear.\<close>

definition nmtk_example :: "tNmtkStateIndexes \<Rightarrow> nmtk_instance" where
  "nmtk_example i =
     \<lparr>stateIndex = i, fEnableReadyToOperate = False, fAppReadyToOperate = False,
      fTimerMsPreOp2 = False, fAllMandatoryCNIdent = False, fFrozen = False\<rparr>"

section \<open>Properties\<close>

text \<open>
  C2: The state machine refines the NMT transition relation of the specification. Whenever the
  dispatch through the state table processes an event, the node is in a new state \<open>t\<close> afterwards
  exactly when the relation has a transition labelled with that event to \<open>t\<close> and the guard over
  the instance's flags holds; every other event leaves the state as it was.
\<close>

theorem nmtk_refines_spec:
  assumes "nmtk_dispatch mn e s = Some s'"
  shows "(nmt_of_index (stateIndex s') = t \<and> stateIndex s' \<noteq> stateIndex s) \<longleftrightarrow>
     nmt_trans (nmt_of_index (stateIndex s)) e t \<and>
     nmt_guard mn (nmt_of_index (stateIndex s)) e s"
  using assms
  by (cases "stateIndex s"; cases e;
      auto simp: nmtk_dispatch_def step_defs nmt_trans_from nmt_guard_def Let_def split: if_splits)

theorem nmtk_refines_spec_witness:
  "nmt_trans kNmtCsReadyToOperate kNmtEventStartNode kNmtCsOperational \<and>
   nmt_guard False kNmtCsReadyToOperate kNmtEventStartNode (nmtk_example kNmtkCsReadyToOperate)"
proof -
  have "nmtk_dispatch False kNmtEventStartNode (nmtk_example kNmtkCsReadyToOperate) =
      Some (nmtk_example kNmtkCsOperational)"
    by (simp add: nmtk_dispatch_def nmtk_example_def doStateCsReadyToOperate_def)
  from nmtk_refines_spec [OF this, of kNmtCsOperational] show ?thesis
    by (simp add: nmtk_example_def)
qed

text \<open>
  From initialisation, every sequence of NMT events is processed without leaving the state
  table (which is shorter when the managing node is compiled out), and ends in a state of the
  invariant: the handshake flags are never both set and are clear outside the state that uses
  them, and a managing-node state is only reached with managing-node support.
\<close>

theorem nmtk_run_safe:
  "\<exists>s'. run_steps (nmtk_dispatch mn) es (snd (nmtk_init s)) = Some s' \<and> nmtk_inv mn s'"
  by (rule nmt_machine.run_safe [OF nmtk_inv_init]) (simp add: list_all_iff)

text \<open>
  C25: The controlled node's ready-to-operate handshake. From \<^verbatim>\<open>PreOperational2\<close> with both flags
  clear, over any events that do not leave the two states of the handshake, the node is in
  \<^verbatim>\<open>ReadyToOperate\<close> exactly when both the application's \<^verbatim>\<open>EnterReadyToOperate\<close> and the managing
  node's \<^verbatim>\<open>EnableReadyToOperate\<close> have occurred, in either order, and still in
  \<^verbatim>\<open>PreOperational2\<close> otherwise.
\<close>

theorem cn_ready_handshake:
  assumes "stateIndex s = kNmtkCsPreOperational2"
    and "\<not> fEnableReadyToOperate s" and "\<not> fAppReadyToOperate s"
    and "list_all cn_ready_neutral es"
  shows "\<exists>s'. run_steps (nmtk_dispatch mn) es s = Some s' \<and>
    stateIndex s' =
      (if {kNmtEventEnterReadyToOperate, kNmtEventEnableReadyToOperate} \<subseteq> set es
       then kNmtkCsReadyToOperate else kNmtkCsPreOperational2)"
proof -
  have "cn_ready_progress {} s" using assms(1-3) by (simp add: cn_ready_progress_def)
  from progress_run [OF cn_ready_progress_step this assms(4)] show ?thesis
    by (fastforce simp: cn_ready_progress_def split: if_splits)
qed

theorem cn_ready_handshake_witness:
  "\<exists>s'. run_steps (nmtk_dispatch False)
      [kNmtEventDllCeSoc, kNmtEventEnableReadyToOperate, kNmtEventDllCePreq,
       kNmtEventEnterReadyToOperate] (nmtk_example kNmtkCsPreOperational2) = Some s' \<and>
    stateIndex s' = kNmtkCsReadyToOperate"
  using cn_ready_handshake [of "nmtk_example kNmtkCsPreOperational2"
      "[kNmtEventDllCeSoc, kNmtEventEnableReadyToOperate, kNmtEventDllCePreq,
        kNmtEventEnterReadyToOperate]" False]
  by (simp add: nmtk_example_def cn_ready_neutral_def)

text \<open>
  The managing node's first boot step. From \<^verbatim>\<open>MsPreOperational1\<close> with both flags clear, over
  any events that do not leave the two states, the node is in \<^verbatim>\<open>MsPreOperational2\<close> exactly when
  all mandatory nodes have been identified and the residence time has elapsed, in either order.
\<close>

theorem mn_boot_step1:
  assumes "stateIndex s = kNmtkMsPreOperational1"
    and "\<not> fTimerMsPreOp2 s" and "\<not> fAllMandatoryCNIdent s"
    and "list_all mn_boot_neutral es"
  shows "\<exists>s'. run_steps (nmtk_dispatch True) es s = Some s' \<and>
    stateIndex s' =
      (if {kNmtEventAllMandatoryCNIdent, kNmtEventTimerMsPreOp2} \<subseteq> set es
       then kNmtkMsPreOperational2 else kNmtkMsPreOperational1)"
proof -
  have "mn_boot_progress {} s" using assms(1-3) by (simp add: mn_boot_progress_def)
  from progress_run [OF mn_boot_progress_step this assms(4)] show ?thesis
    by (fastforce simp: mn_boot_progress_def split: if_splits)
qed

theorem mn_boot_step1_witness:
  "\<exists>s'. run_steps (nmtk_dispatch True) [kNmtEventTimerMsPreOp2, kNmtEventAllMandatoryCNIdent]
      (nmtk_example kNmtkMsPreOperational1) = Some s' \<and>
    stateIndex s' = kNmtkMsPreOperational2"
  using mn_boot_step1 [of "nmtk_example kNmtkMsPreOperational1"
      "[kNmtEventTimerMsPreOp2, kNmtEventAllMandatoryCNIdent]"]
  by (simp add: nmtk_example_def mn_boot_neutral_def)

text \<open>
  After a cycle error the second boot step is re-entered on one of the two conditions only.
  \<^verbatim>\<open>MsPreOperational1\<close> keeps the flag that was set first when it is re-entered through the cycle
  error, so identifying the mandatory nodes again moves the node to \<^verbatim>\<open>MsPreOperational2\<close> without
  the residence time having elapsed a second time.
\<close>

theorem mn_reboot_skips_residence_time:
  assumes "stateIndex s = kNmtkMsPreOperational1"
    and "\<not> fTimerMsPreOp2 s" and "\<not> fAllMandatoryCNIdent s"
  shows "map_option stateIndex (run_steps (nmtk_dispatch True)
      [kNmtEventTimerMsPreOp2, kNmtEventAllMandatoryCNIdent, kNmtEventNmtCycleError,
       kNmtEventAllMandatoryCNIdent] s) = Some kNmtkMsPreOperational2"
  using assms
  by (simp add: nmtk_dispatch_def doStateMsPreOperational1_def doStateMsPreOperational2_def)

theorem mn_reboot_skips_residence_time_witness:
  "map_option stateIndex (run_steps (nmtk_dispatch True)
      [kNmtEventTimerMsPreOp2, kNmtEventAllMandatoryCNIdent, kNmtEventNmtCycleError,
       kNmtEventAllMandatoryCNIdent] (nmtk_example kNmtkMsPreOperational1)) =
     Some kNmtkMsPreOperational2"
  by (rule mn_reboot_skips_residence_time) (simp_all add: nmtk_example_def)

text \<open>
  C28: A node changes into the managing-node role at one place only. Every run from a state that is
  not a managing-node state to one that is passes through \<^verbatim>\<open>GsResetConfiguration\<close> and there
  processes \<^verbatim>\<open>EnterMsNotActive\<close>; in particular a controlled node never slips into it.
\<close>

theorem role_change_through_reset_configuration:
  assumes "run_steps (nmtk_dispatch mn) es s = Some s'"
    and "\<not> is_ms (nmt_of_index (stateIndex s))" and "is_ms (nmt_of_index (stateIndex s'))"
  shows "\<exists>k m. k < length es \<and> run_steps (nmtk_dispatch mn) (take k es) s = Some m \<and>
     stateIndex m = kNmtkGsResetConfiguration \<and> es ! k = kNmtEventEnterMsNotActive"
  using assms by (rule enter_ms_run)

theorem role_change_through_reset_configuration_witness:
  "\<exists>k m. k < length [kNmtEventResetConfig, kNmtEventEnterMsNotActive] \<and>
     run_steps (nmtk_dispatch True) (take k [kNmtEventResetConfig, kNmtEventEnterMsNotActive])
       (nmtk_example kNmtkCsOperational) = Some m \<and>
     stateIndex m = kNmtkGsResetConfiguration \<and>
     [kNmtEventResetConfig, kNmtEventEnterMsNotActive] ! k = kNmtEventEnterMsNotActive"
  by (rule role_change_through_reset_configuration
        [of True _ _ "nmtk_example kNmtkMsNotActive"])
    (simp_all add: nmtk_example_def nmtk_dispatch_def doStateCsOperational_def
      doStateGsResetConfiguration_def is_ms_def)

text \<open>
  A managing node that has seen another managing node (it is frozen in \<^verbatim>\<open>MsNotActive\<close>) stays
  there, whatever events come, until a reset, a switch-off or an error.
\<close>

theorem frozen_mn_stays:
  assumes "ms_frozen s" and "list_all no_reset es"
  shows "\<exists>s'. run_steps (nmtk_dispatch True) es s = Some s' \<and> ms_frozen s'"
  using assms by (rule nmt_frozen.run_safe)

theorem frozen_mn_stays_witness:
  "\<exists>s'. run_steps (nmtk_dispatch True) [kNmtEventTimerMsPreOp1, kNmtEventTimerBasicEthernet]
      ((nmtk_example kNmtkMsNotActive)\<lparr>fFrozen := True\<rparr>) = Some s' \<and> ms_frozen s'"
  by (rule frozen_mn_stays) (simp_all add: ms_frozen_def nmtk_example_def no_reset_def)

text \<open>
  The event handler announces a state change exactly when there is one, first to the DLL and
  then to the user layer, with the old and the new NMT state of the table and the event; when the
  DLL refuses it, its error is returned and the user layer is not told. Without a change nothing
  is sent and the result is \<^verbatim>\<open>kErrorOk\<close>.
\<close>

theorem nmtk_process_announces:
  assumes "nmtk_inv mn s" and "nmtk_event_arg ev = Some (Some e)"
  shows "\<exists>s'. nmtk_dispatch mn e s = Some s' \<and>
    nmtk_process mn dllk post ev s =
      Some (let ch = \<lparr>newNmtState = nmt_of_index (stateIndex s'),
                      oldNmtState = nmt_of_index (stateIndex s), nmtEvent = e\<rparr>;
                evD = state_change_event kEventSinkDllk ch;
                evU = state_change_event kEventSinkNmtu ch
            in if stateIndex s' = stateIndex s then (kErrorOk, s', [])
               else if dllk evD = kErrorOk then (post evU, s', [evD, evU])
               else (dllk evD, s', [evD]))"
proof -
  from assms(1) obtain s' where s': "nmtk_dispatch mn e s = Some s'" and inv: "nmtk_inv mn s'"
    using nmtk_inv_dispatch by blast
  from s' obtain old where old: "nmtk_entry mn (stateIndex s) = Some old"
    and step: "snd old e s = s'"
    by (auto simp: nmtk_dispatch_def)
  from nmtk_inv_dispatch [OF inv, of e] obtain new where
    new: "nmtk_entry mn (stateIndex s') = Some new"
    by (auto simp: nmtk_dispatch_def)
  from old new have "fst old = nmt_of_index (stateIndex s)"
    and "fst new = nmt_of_index (stateIndex s')"
    by (auto dest: nmtk_entry_state)
  with s' old new step assms(2) show ?thesis by (auto simp: nmtk_process_def Let_def)
qed

theorem nmtk_process_announces_witness:
  "nmtk_process True (\<lambda>_. kErrorOk) (\<lambda>_. kErrorOk)
      \<lparr>eventType = kEventTypeNmtEvent, eventSink = kEventSinkNmtk, netTime = 0,
       pEventArg = ArgNmtEvent kNmtEventStopNode\<rparr> (nmtk_example kNmtkCsOperational) =
     Some (kErrorOk, nmtk_example kNmtkCsStopped,
       map (\<lambda>sink. state_change_event sink
              \<lparr>newNmtState = kNmtCsStopped, oldNmtState = kNmtCsOperational,
               nmtEvent = kNmtEventStopNode\<rparr>)
         [kEventSinkDllk, kEventSinkNmtu])"
  using nmtk_process_announces [of True "nmtk_example kNmtkCsOperational"
      "\<lparr>eventType = kEventTypeNmtEvent, eventSink = kEventSinkNmtk, netTime = 0,
        pEventArg = ArgNmtEvent kNmtEventStopNode\<rparr>" kNmtEventStopNode
      "\<lambda>_. kErrorOk" "\<lambda>_. kErrorOk"]
  by (simp add: nmtk_example_def nmtk_inv_def nmtk_event_arg_def is_ms_def nmtk_dispatch_def
      doStateCsOperational_def Let_def)

text \<open>
  A controlled node boots: from initialisation the events of a regular start-up (the resets of
  the higher layer, the first frames of the managing node, both halves of the handshake and the
  start command) bring the node to \<^verbatim>\<open>CsOperational\<close>.
\<close>

theorem cn_boots_to_operational:
  "map_option stateIndex (run_steps (nmtk_dispatch mn)
     [kNmtEventSwReset, kNmtEventEnterResetApp, kNmtEventEnterResetCom, kNmtEventEnterResetConfig,
      kNmtEventEnterCsNotActive, kNmtEventDllCeSoa, kNmtEventDllCeSoc,
      kNmtEventEnableReadyToOperate, kNmtEventEnterReadyToOperate, kNmtEventStartNode]
     (snd (nmtk_init s))) = Some kNmtkCsOperational"
  by (simp add: nmtk_init_def nmtk_dispatch_def step_defs)

end
