(* ===== verification/Dllk_StateMachine.thy ===== *)
theory Dllk_StateMachine
  imports Oplk_Types
begin

text \<open>
  The DLL state machine of the kernel stack (\<^verbatim>\<open>stack/src/kernel/dll/dllkstatemachine.c\<close>), which
  follows the frames of a POWERLINK cycle and reports what is missing to the error handler.
  \<open>tDllkInstance\<close> holds the fields of the C instance that this file reads or writes, and
  \<open>dllk_outs\<close>, the calls to the other modules in the order they are made. The answers of these
  modules are an argument, \<open>dllk_env\<close>. The handlers are definitions of the same names; a
  handler that gets a pointer to the error event takes and returns the event's bit set. The
  arguments \<open>mn\<close> and \<open>masnd\<close> are the compile-time switches \<^verbatim>\<open>CONFIG_INCLUDE_NMT_MN\<close> and
  \<^verbatim>\<open>CONFIG_INCLUDE_MASND\<close>.
\<close>

unbundle bit_operations_syntax

section \<open>State\<close>

datatype tDllState =
    kDllGsInit | kDllCsWaitPreq | kDllCsWaitSoc | kDllCsWaitSoa
  | kDllMsNonCyclic | kDllMsWaitSocTrig | kDllMsWaitPreqTrig | kDllMsWaitPres
  | kDllMsWaitSoaTrig | kDllMsWaitAsndTrig | kDllMsWaitAsnd

primrec dll_code :: "tDllState \<Rightarrow> nat" where
  "dll_code kDllGsInit = 0x00"
| "dll_code kDllCsWaitPreq = 0x01"
| "dll_code kDllCsWaitSoc = 0x02"
| "dll_code kDllCsWaitSoa = 0x03"
| "dll_code kDllMsNonCyclic = 0x04"
| "dll_code kDllMsWaitSocTrig = 0x05"
| "dll_code kDllMsWaitPreqTrig = 0x06"
| "dll_code kDllMsWaitPres = 0x07"
| "dll_code kDllMsWaitSoaTrig = 0x08"
| "dll_code kDllMsWaitAsndTrig = 0x09"
| "dll_code kDllMsWaitAsnd = 0x0A"

record tDllLossSocStatus =
  fLossReported :: bool
  fTimeoutOccurred :: bool

text \<open>The calls into other modules, with their arguments.\<close>

datatype dllk_out =
    OutStopCycle                          \<comment> \<open>\<^verbatim>\<open>edrvcyclic_stopCycle()\<close>\<close>
  | OutDeleteCycleTimer                   \<comment> \<open>\<^verbatim>\<open>hrestimer_deleteTimer(&timerHdlCycle)\<close>\<close>
  | OutStartCycle                         \<comment> \<open>\<^verbatim>\<open>edrvcyclic_startCycle()\<close>\<close>
  | OutPostEvent tEventType               \<comment> \<open>\<^verbatim>\<open>dllk_postEvent(type)\<close>\<close>
  | OutAsndNotRx nat nat                  \<comment> \<open>\<^verbatim>\<open>kEventTypeAsndNotRx\<close>: node and service, one byte each\<close>
  | OutSendSoa tNmtState bool             \<comment> \<open>\<^verbatim>\<open>dllk_mnSendSoa(nmtState, _, fEnableInvitation)\<close>\<close>
  | OutPostError tEventDllError           \<comment> \<open>\<^verbatim>\<open>errhndk_postError(&dllEvent)\<close>\<close>

record tDllkInstance =
  dllState :: tDllState
  cycleCount :: u32
  prescaleCycleCount :: u32
  mnFlag1 :: byte
  multipleCycleCnt :: u32                 \<comment> \<open>\<^verbatim>\<open>dllConfigParam.multipleCycleCnt\<close>\<close>
  prescaler :: u32                        \<comment> \<open>\<^verbatim>\<open>dllConfigParam.prescaler\<close>\<close>
  aAsndFilter :: "tDllAsndFilter list"
  aLastReqServiceId :: "tDllReqServiceId list"
  aLastTargetNodeId :: "nat list"
  curLastSoaReq :: nat
  syncLastSoaReq :: nat
  lossSocStatus :: tDllLossSocStatus
  dllk_outs :: "dllk_out list"

text \<open>
  What the other modules answer during one event. \<open>env_soa\<close> is what sending a SoA stores in the
  instance (the request it has put into the frame).
\<close>

record dllk_env =
  env_ret :: "dllk_out \<Rightarrow> tOplkError"
  env_soa :: "tDllkInstance \<Rightarrow> tDllkInstance"

abbreviation DLLK_SOAREQ_COUNT :: nat where "DLLK_SOAREQ_COUNT \<equiv> 3"
abbreviation C_DLL_PREOP1_START_CYCLES :: u32 where "C_DLL_PREOP1_START_CYCLES \<equiv> 10"
abbreviation PLK_FRAME_FLAG1_PS :: byte where "PLK_FRAME_FLAG1_PS \<equiv> 0x40"
abbreviation DLL_ERR_MN_CYCTIMEEXCEED :: u32 where "DLL_ERR_MN_CYCTIMEEXCEED \<equiv> 0x4"
abbreviation DLL_ERR_CN_LOSS_SOC :: u32 where "DLL_ERR_CN_LOSS_SOC \<equiv> 0x800"
abbreviation DLL_ERR_CN_LOSS_SOA :: u32 where "DLL_ERR_CN_LOSS_SOA \<equiv> 0x1000"
abbreviation DLL_ERR_CN_LOSS_PREQ :: u32 where "DLL_ERR_CN_LOSS_PREQ \<equiv> 0x2000"
abbreviation DLL_ERR_CN_RECVD_PREQ :: u32 where "DLL_ERR_CN_RECVD_PREQ \<equiv> 0x4000"

definition dllk_call :: "dllk_env \<Rightarrow> dllk_out \<Rightarrow> tDllkInstance \<Rightarrow> tOplkError \<times> tDllkInstance" where
  "dllk_call env out s = (env_ret env out, s\<lparr>dllk_outs := dllk_outs s @ [out]\<rparr>)"

section \<open>Loss of SoC\<close>

definition triggerLossOfSocEvent :: "tDllLossSocStatus \<Rightarrow> bool \<times> tDllLossSocStatus" where
  "triggerLossOfSocEvent l =
     (if \<not> fLossReported l then (True, l\<lparr>fLossReported := True\<rparr>) else (False, l))"

definition triggerLossOfSocEventOnFrameTimeout ::
  "tDllLossSocStatus \<Rightarrow> bool \<times> tDllLossSocStatus" where
  "triggerLossOfSocEventOnFrameTimeout l =
     (if \<not> fLossReported l
      then (True, l\<lparr>fLossReported := True, fTimeoutOccurred := True\<rparr>)
      else (fTimeoutOccurred l, l\<lparr>fTimeoutOccurred := True\<rparr>))"

text \<open>\<^verbatim>\<open>if (trigger...()) pDllEvent_p->dllErrorEvents |= DLL_ERR_CN_LOSS_SOC;\<close>\<close>

definition reportLossOfSoc ::
  "(tDllLossSocStatus \<Rightarrow> bool \<times> tDllLossSocStatus) \<Rightarrow> u32 \<times> tDllkInstance \<Rightarrow> u32 \<times> tDllkInstance"
  where
  "reportLossOfSoc trigger es =
     (let (errs, s) = es; (fTrigger, l) = trigger (lossSocStatus s)
      in (if fTrigger then errs OR DLL_ERR_CN_LOSS_SOC else errs, s\<lparr>lossSocStatus := l\<rparr>))"

section \<open>Controlled node, full cycle\<close>

definition processCsFullCycleDllWaitPreq ::
  "bool \<Rightarrow> tNmtState \<Rightarrow> tNmtEvent \<Rightarrow> u32 \<times> tDllkInstance \<Rightarrow> u32 \<times> tDllkInstance" where
  "processCsFullCycleDllWaitPreq masnd n e es =
     (let (errs, s) = es in
      case e of
        kNmtEventDllCePreq \<Rightarrow> (errs OR DLL_ERR_CN_RECVD_PREQ, s\<lparr>dllState := kDllCsWaitSoa\<rparr>)
      | kNmtEventDllCeFrameTimeout \<Rightarrow>
          if n = kNmtCsPreOperational2 then (errs, s)
          else
            (let (errs, s) = reportLossOfSoc triggerLossOfSocEventOnFrameTimeout (errs, s)
             in (errs OR DLL_ERR_CN_LOSS_SOA, s\<lparr>dllState := kDllCsWaitSoc\<rparr>))
      | kNmtEventDllCeAInv \<Rightarrow>
          if masnd then
            (if cycleCount s = 0 \<and> kNmtCsReadyToOperate \<le> n
             then errs OR (DLL_ERR_CN_LOSS_PREQ OR DLL_ERR_CN_LOSS_SOA) else errs,
             s\<lparr>dllState := kDllCsWaitSoc\<rparr>)
          else (errs, s)
      | kNmtEventDllCeSoa \<Rightarrow>
          (if cycleCount s = 0 \<and> kNmtCsReadyToOperate \<le> n
           then errs OR DLL_ERR_CN_LOSS_PREQ else errs,
           s\<lparr>dllState := kDllCsWaitSoc\<rparr>)
      | kNmtEventDllCeSoc \<Rightarrow> (errs OR DLL_ERR_CN_LOSS_SOA, s)
      | kNmtEventDllCeAsnd \<Rightarrow> (errs OR DLL_ERR_CN_LOSS_SOA, s)
      | _ \<Rightarrow> (errs, s))"

definition processCsFullCycleDllWaitSoc ::
  "tNmtState \<Rightarrow> tNmtEvent \<Rightarrow> u32 \<times> tDllkInstance \<Rightarrow> u32 \<times> tDllkInstance" where
  "processCsFullCycleDllWaitSoc n e es =
     (let (errs, s) = es in
      case e of
        kNmtEventDllCeSoc \<Rightarrow>
          (errs, s\<lparr>dllState := kDllCsWaitPreq,
                   lossSocStatus := \<lparr>fLossReported = False, fTimeoutOccurred = False\<rparr>\<rparr>)
      | kNmtEventDllCeFrameTimeout \<Rightarrow>
          if n = kNmtCsPreOperational2 then (errs, s)
          else reportLossOfSoc triggerLossOfSocEventOnFrameTimeout (errs, s)
      | kNmtEventDllCePreq \<Rightarrow> reportLossOfSoc triggerLossOfSocEvent (errs, s)
      | kNmtEventDllCeSoa \<Rightarrow> reportLossOfSoc triggerLossOfSocEvent (errs, s)
      | _ \<Rightarrow> (errs, s))"

definition processCsFullCycleDllWaitSoa ::
  "tNmtState \<Rightarrow> tNmtEvent \<Rightarrow> u32 \<times> tDllkInstance \<Rightarrow> u32 \<times> tDllkInstance" where
  "processCsFullCycleDllWaitSoa n e es =
     (let (errs, s) = es in
      case e of
        kNmtEventDllCeFrameTimeout \<Rightarrow>
          if n = kNmtCsPreOperational2 then (errs, s)
          else
            (let (errs, s) = reportLossOfSoc triggerLossOfSocEventOnFrameTimeout (errs, s)
             in (errs OR DLL_ERR_CN_LOSS_SOA, s\<lparr>dllState := kDllCsWaitSoc\<rparr>))
      | kNmtEventDllCePreq \<Rightarrow>
          (let (errs, s) = reportLossOfSoc triggerLossOfSocEvent (errs, s)
           in (errs OR DLL_ERR_CN_LOSS_SOA, s\<lparr>dllState := kDllCsWaitSoc\<rparr>))
      | kNmtEventDllCeSoa \<Rightarrow> (errs, s\<lparr>dllState := kDllCsWaitSoc\<rparr>)
      | kNmtEventDllCeSoc \<Rightarrow> (errs OR DLL_ERR_CN_LOSS_SOA, s\<lparr>dllState := kDllCsWaitPreq\<rparr>)
      | kNmtEventDllCeAsnd \<Rightarrow> (errs OR DLL_ERR_CN_LOSS_SOA, s)
      | _ \<Rightarrow> (errs, s))"

definition processCsFullCycleDllGsInit ::
  "tNmtState \<Rightarrow> tNmtEvent \<Rightarrow> u32 \<times> tDllkInstance \<Rightarrow> u32 \<times> tDllkInstance" where
  "processCsFullCycleDllGsInit n e es =
     (let (errs, s) = es in (errs, s\<lparr>dllState := kDllCsWaitPreq\<rparr>))"

section \<open>Controlled node, stopped\<close>

definition processCsStoppedDllWaitPreq ::
  "tNmtState \<Rightarrow> tNmtEvent \<Rightarrow> u32 \<times> tDllkInstance \<Rightarrow> u32 \<times> tDllkInstance" where
  "processCsStoppedDllWaitPreq n e es =
     (let (errs, s) = es in
      case e of
        kNmtEventDllCePreq \<Rightarrow> (errs, s\<lparr>dllState := kDllCsWaitSoa\<rparr>)
      | kNmtEventDllCeFrameTimeout \<Rightarrow>
          (let (errs, s) = reportLossOfSoc triggerLossOfSocEventOnFrameTimeout (errs, s)
           in (errs OR DLL_ERR_CN_LOSS_SOA, s\<lparr>dllState := kDllCsWaitSoc\<rparr>))
      | kNmtEventDllCeSoa \<Rightarrow> (errs, s\<lparr>dllState := kDllCsWaitSoc\<rparr>)
      | kNmtEventDllCeSoc \<Rightarrow> (errs OR DLL_ERR_CN_LOSS_SOA, s)
      | kNmtEventDllCeAsnd \<Rightarrow> (errs OR DLL_ERR_CN_LOSS_SOA, s)
      | _ \<Rightarrow> (errs, s))"

definition processCsStoppedDllWaitSoc ::
  "tNmtState \<Rightarrow> tNmtEvent \<Rightarrow> u32 \<times> tDllkInstance \<Rightarrow> u32 \<times> tDllkInstance" where
  "processCsStoppedDllWaitSoc n e es =
     (let (errs, s) = es in
      case e of
        kNmtEventDllCeSoc \<Rightarrow> (errs, s\<lparr>dllState := kDllCsWaitSoa\<rparr>)
      | kNmtEventDllCePreq \<Rightarrow> reportLossOfSoc triggerLossOfSocEvent (errs, s)
      | kNmtEventDllCeSoa \<Rightarrow> reportLossOfSoc triggerLossOfSocEvent (errs, s)
      | kNmtEventDllCeFrameTimeout \<Rightarrow>
          reportLossOfSoc triggerLossOfSocEventOnFrameTimeout (errs, s)
      | _ \<Rightarrow> (errs, s))"

definition processCsStoppedDllWaitSoa ::
  "bool \<Rightarrow> tNmtState \<Rightarrow> tNmtEvent \<Rightarrow> u32 \<times> tDllkInstance \<Rightarrow> u32 \<times> tDllkInstance" where
  "processCsStoppedDllWaitSoa masnd n e es =
     (let (errs, s) = es in
      case e of
        kNmtEventDllCeFrameTimeout \<Rightarrow>
          (let (errs, s) = reportLossOfSoc triggerLossOfSocEventOnFrameTimeout (errs, s)
           in (errs OR DLL_ERR_CN_LOSS_SOA, s\<lparr>dllState := kDllCsWaitSoc\<rparr>))
      | kNmtEventDllCeAInv \<Rightarrow>
          if masnd then (errs OR DLL_ERR_CN_LOSS_SOA, s\<lparr>dllState := kDllCsWaitSoc\<rparr>)
          else (errs, s)
      | kNmtEventDllCeSoa \<Rightarrow> (errs, s\<lparr>dllState := kDllCsWaitSoc\<rparr>)
      | kNmtEventDllCeSoc \<Rightarrow> (errs OR DLL_ERR_CN_LOSS_SOA, s)
      | kNmtEventDllCeAsnd \<Rightarrow> (errs OR DLL_ERR_CN_LOSS_SOA, s)
      | _ \<Rightarrow> (errs, s))"

definition processCsStoppedDllGsInit ::
  "tNmtState \<Rightarrow> tNmtEvent \<Rightarrow> u32 \<times> tDllkInstance \<Rightarrow> u32 \<times> tDllkInstance" where
  "processCsStoppedDllGsInit n e es =
     (let (errs, s) = es in (errs, s\<lparr>dllState := kDllCsWaitSoa\<rparr>))"

text \<open>The two handler tables, indexed by the number of the DLL state.\<close>

definition pfnProcessCsFullCycle_g ::
  "bool \<Rightarrow> (tNmtState \<Rightarrow> tNmtEvent \<Rightarrow> u32 \<times> tDllkInstance \<Rightarrow> u32 \<times> tDllkInstance) list" where
  "pfnProcessCsFullCycle_g masnd =
     [processCsFullCycleDllGsInit, processCsFullCycleDllWaitPreq masnd,
      processCsFullCycleDllWaitSoc, processCsFullCycleDllWaitSoa]"

definition pfnProcessCsStopped_g ::
  "bool \<Rightarrow> (tNmtState \<Rightarrow> tNmtEvent \<Rightarrow> u32 \<times> tDllkInstance \<Rightarrow> u32 \<times> tDllkInstance) list" where
  "pfnProcessCsStopped_g masnd =
     [processCsStoppedDllGsInit, processCsStoppedDllWaitPreq,
      processCsStoppedDllWaitSoc, processCsStoppedDllWaitSoa masnd]"

definition table_entry :: "'a list \<Rightarrow> nat \<Rightarrow> 'a option" where
  "table_entry tbl i = (if i < length tbl then Some (tbl ! i) else None)"

section \<open>Managing node\<close>

definition dllk_asyncFrameNotReceived ::
  "dllk_env \<Rightarrow> tDllReqServiceId \<Rightarrow> nat \<Rightarrow> tDllkInstance \<Rightarrow> (tOplkError \<times> tDllkInstance) option" where
  "dllk_asyncFrameNotReceived env req node s =
     (if req \<in> {kDllReqServiceIdent, kDllReqServiceStatus, kDllReqServiceSync} then
        (case table_entry (aAsndFilter s) (req_code req) of
           None \<Rightarrow> None
         | Some f \<Rightarrow>
             if f = kDllAsndFilterAny
             then Some (dllk_call env (OutAsndNotRx (node mod 256) (req_code req mod 256)) s)
             else Some (kErrorOk, s))
      else Some (kErrorOk, s))"

text \<open>The call on the slot \<open>curLastSoaReq\<close> of the two request arrays.\<close>

definition lastRequestNotReceived ::
  "dllk_env \<Rightarrow> tDllkInstance \<Rightarrow> (tOplkError \<times> tDllkInstance) option" where
  "lastRequestNotReceived env s =
     (case table_entry (aLastReqServiceId s) (curLastSoaReq s) of
        None \<Rightarrow> None
      | Some req \<Rightarrow>
          (case table_entry (aLastTargetNodeId s) (curLastSoaReq s) of
             None \<Rightarrow> None
           | Some node \<Rightarrow> dllk_asyncFrameNotReceived env req node s))"

definition processNmtMsPreop1 ::
  "dllk_env \<Rightarrow> tNmtState \<Rightarrow> tNmtEvent \<Rightarrow> tDllkInstance \<Rightarrow> (tOplkError \<times> tDllkInstance) option" where
  "processNmtMsPreop1 env n e s =
     (if dllState s \<noteq> kDllMsNonCyclic then
        Some (ok_then (dllk_call env OutStopCycle s)
          (\<lambda>s. (kErrorOk, s\<lparr>dllState := kDllMsNonCyclic\<rparr>)))
      else if e = kNmtEventDllMeSocTrig \<or> e = kNmtEventDllCeAsnd then
        (case lastRequestNotReceived env s of
           None \<Rightarrow> None
         | Some r \<Rightarrow>
             Some (ok_then r (\<lambda>s.
               (let (_, s) = dllk_call env (OutSendSoa n (C_DLL_PREOP1_START_CYCLES \<le> cycleCount s)) s;
                    s = env_soa env s
                in (kErrorOk, s\<lparr>cycleCount := cycleCount s + 1\<rparr>)))))
      else Some (kErrorOk, s))"

definition processNmtMsFullCycle ::
  "dllk_env \<Rightarrow> tNmtState \<Rightarrow> tNmtEvent \<Rightarrow> u32 \<times> tDllkInstance \<Rightarrow>
    (u32 \<times> tOplkError \<times> tDllkInstance) option" where
  "processNmtMsFullCycle env n e es =
     (let (errs, s) = es in
      case e of
        kNmtEventDllMeSocTrig \<Rightarrow>
          (let s = (if multipleCycleCnt s > 0
                    then s\<lparr>cycleCount := (cycleCount s + 1) mod multipleCycleCnt s\<rparr> else s)
           in if dllState s = kDllMsNonCyclic then
                Some (errs,
                  ok_then (dllk_call env OutDeleteCycleTimer s) (\<lambda>s.
                  ok_then (dllk_call env OutStartCycle s) (\<lambda>s.
                  let s = s\<lparr>dllState := kDllMsWaitSocTrig, syncLastSoaReq := curLastSoaReq s\<rparr>
                  in ok_then (dllk_call env (OutPostEvent kEventTypeSync) s) (\<lambda>s. (kErrorOk, s)))))
              else Some (errs OR DLL_ERR_MN_CYCTIMEEXCEED, kErrorOk, s\<lparr>dllState := kDllMsWaitSocTrig\<rparr>))
      | kNmtEventDllMeAsndTimeout \<Rightarrow>
          (let s = (if prescaler s > 0
                    then let s = s\<lparr>prescaleCycleCount := prescaleCycleCount s + 1\<rparr>
                         in if prescaleCycleCount s = prescaler s
                            then s\<lparr>prescaleCycleCount := 0, mnFlag1 := mnFlag1 s XOR PLK_FRAME_FLAG1_PS\<rparr>
                            else s
                    else s)
           in case lastRequestNotReceived env s of
                None \<Rightarrow> None
              | Some (ret, s) \<Rightarrow>
                  (let s = s\<lparr>curLastSoaReq := (curLastSoaReq s + 1) mod 256\<rparr>;
                       s = (if DLLK_SOAREQ_COUNT \<le> curLastSoaReq s then s\<lparr>curLastSoaReq := 0\<rparr> else s)
                   in Some (errs, ret, s)))
      | _ \<Rightarrow> Some (errs, kErrorOk, s))"

section \<open>The state change\<close>

text \<open>After the switch: a non-empty error event goes to the error handler, whose answer is returned.\<close>

definition postDllEvent ::
  "dllk_env \<Rightarrow> tNmtState \<Rightarrow> u32 \<Rightarrow> tOplkError \<times> tDllkInstance \<Rightarrow> tOplkError \<times> tDllkInstance" where
  "postDllEvent env n errs r =
     (if errs \<noteq> 0
      then dllk_call env (OutPostError \<lparr>dllErrorEvents = errs, dllErrNodeId = 0, dllErrNmtState = n,
                                        dllErrOplkError = kErrorOk\<rparr>) (snd r)
      else r)"

definition dllk_changeState ::
  "bool \<Rightarrow> bool \<Rightarrow> dllk_env \<Rightarrow> tNmtEvent \<Rightarrow> tNmtState \<Rightarrow> tDllkInstance \<Rightarrow>
    (tOplkError \<times> tDllkInstance) option" where
  "dllk_changeState mn masnd env e n s =
     (if n \<in> {kNmtCsPreOperational2, kNmtCsReadyToOperate, kNmtCsOperational} then
        if dll_code (dllState s) < dll_code kDllMsNonCyclic then
          (case table_entry (pfnProcessCsFullCycle_g masnd) (dll_code (dllState s)) of
             None \<Rightarrow> None
           | Some pfn \<Rightarrow> let (errs, s) = pfn n e (0, s) in Some (postDllEvent env n errs (kErrorOk, s)))
        else Some (kErrorOk, s)
      else if mn \<and> n \<in> {kNmtMsPreOperational2, kNmtMsReadyToOperate, kNmtMsOperational} then
        (case processNmtMsFullCycle env n e (0, s) of
           None \<Rightarrow> None
         | Some (errs, ret, s) \<Rightarrow>
             if ret \<noteq> kErrorOk then Some (ret, s) else Some (postDllEvent env n errs (ret, s)))
      else if n \<in> {kNmtGsOff, kNmtGsInitialising, kNmtGsResetApplication, kNmtGsResetCommunication,
                   kNmtGsResetConfiguration, kNmtCsBasicEthernet} then
        Some (kErrorOk, s\<lparr>dllState := kDllGsInit\<rparr>)
      else if n \<in> {kNmtCsNotActive, kNmtCsPreOperational1} then
        Some (kErrorOk,
          s\<lparr>dllState := (if e = kNmtEventDllCeSoc then kDllCsWaitPreq else kDllGsInit)\<rparr>)
      else if n = kNmtCsStopped then
        if dll_code (dllState s) < dll_code kDllMsNonCyclic then
          (case table_entry (pfnProcessCsStopped_g masnd) (dll_code (dllState s)) of
             None \<Rightarrow> None
           | Some pfn \<Rightarrow> let (errs, s) = pfn n e (0, s) in Some (postDllEvent env n errs (kErrorOk, s)))
        else Some (kErrorOk, s)
      else if mn \<and> n = kNmtMsPreOperational1 then processNmtMsPreop1 env n e s
      else Some (kErrorOk, s))"

section \<open>Lemmas\<close>

lemmas cs_handler_defs [step_defs] =
  processCsFullCycleDllGsInit_def processCsFullCycleDllWaitPreq_def
  processCsFullCycleDllWaitSoc_def processCsFullCycleDllWaitSoa_def
  processCsStoppedDllGsInit_def processCsStoppedDllWaitPreq_def
  processCsStoppedDllWaitSoc_def processCsStoppedDllWaitSoa_def
  reportLossOfSoc_def triggerLossOfSocEvent_def triggerLossOfSocEventOnFrameTimeout_def

lemma table_entry_nth [simp]: "i < length tbl \<Longrightarrow> table_entry tbl i = Some (tbl ! i)"
  by (simp add: table_entry_def)

lemma dllk_call_simps [simp]:
  "dllk_call env out s = (env_ret env out, s\<lparr>dllk_outs := dllk_outs s @ [out]\<rparr>)"
  by (simp add: dllk_call_def)

text \<open>The handler that the tables select: the state after it and the bits it has set.\<close>

definition cs_full :: "tNmtState \<Rightarrow> bool" where
  "cs_full n \<longleftrightarrow> n \<in> {kNmtCsPreOperational2, kNmtCsReadyToOperate, kNmtCsOperational}"

definition is_cs_state :: "tDllState \<Rightarrow> bool" where
  "is_cs_state d \<longleftrightarrow> d \<in> {kDllGsInit, kDllCsWaitPreq, kDllCsWaitSoc, kDllCsWaitSoa}"

definition cs_handle :: "bool \<Rightarrow> tNmtState \<Rightarrow> tNmtEvent \<Rightarrow> tDllkInstance \<Rightarrow> u32 \<times> tDllkInstance" where
  "cs_handle masnd n e s =
     (if n = kNmtCsStopped then
        (case dllState s of
           kDllGsInit \<Rightarrow> processCsStoppedDllGsInit n e (0, s)
         | kDllCsWaitPreq \<Rightarrow> processCsStoppedDllWaitPreq n e (0, s)
         | kDllCsWaitSoc \<Rightarrow> processCsStoppedDllWaitSoc n e (0, s)
         | _ \<Rightarrow> processCsStoppedDllWaitSoa masnd n e (0, s))
      else
        (case dllState s of
           kDllGsInit \<Rightarrow> processCsFullCycleDllGsInit n e (0, s)
         | kDllCsWaitPreq \<Rightarrow> processCsFullCycleDllWaitPreq masnd n e (0, s)
         | kDllCsWaitSoc \<Rightarrow> processCsFullCycleDllWaitSoc n e (0, s)
         | _ \<Rightarrow> processCsFullCycleDllWaitSoa n e (0, s)))"

lemma cs_tables:
  "is_cs_state d \<Longrightarrow> table_entry (pfnProcessCsFullCycle_g masnd) (dll_code d) =
     Some (case d of
        kDllGsInit \<Rightarrow> processCsFullCycleDllGsInit
      | kDllCsWaitPreq \<Rightarrow> processCsFullCycleDllWaitPreq masnd
      | kDllCsWaitSoc \<Rightarrow> processCsFullCycleDllWaitSoc
      | _ \<Rightarrow> processCsFullCycleDllWaitSoa)"
  "is_cs_state d \<Longrightarrow> table_entry (pfnProcessCsStopped_g masnd) (dll_code d) =
     Some (case d of
        kDllGsInit \<Rightarrow> processCsStoppedDllGsInit
      | kDllCsWaitPreq \<Rightarrow> processCsStoppedDllWaitPreq
      | kDllCsWaitSoc \<Rightarrow> processCsStoppedDllWaitSoc
      | _ \<Rightarrow> processCsStoppedDllWaitSoa masnd)"
  by (cases d; simp add: is_cs_state_def pfnProcessCsFullCycle_g_def pfnProcessCsStopped_g_def)+

lemma is_cs_state_code: "is_cs_state d \<longleftrightarrow> dll_code d < 4"
  by (cases d) (simp_all add: is_cs_state_def)

lemma dllk_changeState_cs:
  assumes "cs_full n \<or> n = kNmtCsStopped" and "is_cs_state (dllState s)"
  shows "dllk_changeState mn masnd env e n s =
     Some (case cs_handle masnd n e s of (errs, s) \<Rightarrow> postDllEvent env n errs (kErrorOk, s))"
  using assms cs_tables [OF assms(2)]
  by (cases "dllState s"; cases n)
    (simp_all add: dllk_changeState_def cs_full_def cs_handle_def is_cs_state_def split_beta)

lemma dllk_changeState_cs_other:
  assumes "cs_full n \<or> n = kNmtCsStopped" and "\<not> is_cs_state (dllState s)"
  shows "dllk_changeState mn masnd env e n s = Some (kErrorOk, s)"
  using assms
  by (auto simp: dllk_changeState_def cs_full_def is_cs_state_code)

text \<open>
  A handler changes the DLL state within the states of a controlled node and the loss of SoC
  status, and sets bits of a mask that depends on the NMT state.
\<close>

definition cs_mask :: "tNmtState \<Rightarrow> u32" where
  "cs_mask n =
     (if n = kNmtCsStopped then DLL_ERR_CN_LOSS_SOC OR DLL_ERR_CN_LOSS_SOA
      else if n = kNmtCsPreOperational2
      then DLL_ERR_CN_LOSS_SOC OR DLL_ERR_CN_LOSS_SOA OR DLL_ERR_CN_RECVD_PREQ
      else DLL_ERR_CN_LOSS_SOC OR DLL_ERR_CN_LOSS_SOA OR DLL_ERR_CN_RECVD_PREQ OR
        DLL_ERR_CN_LOSS_PREQ)"

definition cs_effect :: "tNmtState \<Rightarrow> tDllkInstance \<Rightarrow> u32 \<times> tDllkInstance \<Rightarrow> bool" where
  "cs_effect n s r \<longleftrightarrow> is_cs_state (dllState (snd r)) \<and> fst r AND NOT (cs_mask n) = 0 \<and>
     snd r = s\<lparr>dllState := dllState (snd r), lossSocStatus := lossSocStatus (snd r)\<rparr>"

lemma cs_effects:
  "cs_full n \<Longrightarrow> cs_effect n s (processCsFullCycleDllGsInit n e (0, s))"
  "cs_full n \<Longrightarrow> dllState s = kDllCsWaitPreq \<Longrightarrow>
     cs_effect n s (processCsFullCycleDllWaitPreq masnd n e (0, s))"
  "cs_full n \<Longrightarrow> dllState s = kDllCsWaitSoc \<Longrightarrow>
     cs_effect n s (processCsFullCycleDllWaitSoc n e (0, s))"
  "cs_full n \<Longrightarrow> dllState s = kDllCsWaitSoa \<Longrightarrow>
     cs_effect n s (processCsFullCycleDllWaitSoa n e (0, s))"
  "n = kNmtCsStopped \<Longrightarrow> cs_effect n s (processCsStoppedDllGsInit n e (0, s))"
  "n = kNmtCsStopped \<Longrightarrow> dllState s = kDllCsWaitPreq \<Longrightarrow>
     cs_effect n s (processCsStoppedDllWaitPreq n e (0, s))"
  "n = kNmtCsStopped \<Longrightarrow> dllState s = kDllCsWaitSoc \<Longrightarrow>
     cs_effect n s (processCsStoppedDllWaitSoc n e (0, s))"
  "n = kNmtCsStopped \<Longrightarrow> dllState s = kDllCsWaitSoa \<Longrightarrow>
     cs_effect n s (processCsStoppedDllWaitSoa masnd n e (0, s))"
  by (cases e; auto simp: step_defs Let_def cs_effect_def is_cs_state_def cs_mask_def cs_full_def
      nmt_order_defs)+

lemma cs_handle_effect:
  assumes "cs_full n \<or> n = kNmtCsStopped" and "is_cs_state (dllState s)"
  shows "cs_effect n s (cs_handle masnd n e s)"
  using assms cs_effects
  by (cases "dllState s") (auto simp: cs_handle_def is_cs_state_def cs_full_def)

section \<open>Runs and the posted error events\<close>

definition dllk_step ::
  "bool \<Rightarrow> bool \<Rightarrow> dllk_env \<times> tNmtState \<times> tNmtEvent \<Rightarrow> tDllkInstance \<Rightarrow> tDllkInstance option" where
  "dllk_step mn masnd ev s =
     (case ev of (env, n, e) \<Rightarrow> map_option snd (dllk_changeState mn masnd env e n s))"

fun posted :: "dllk_out list \<Rightarrow> tEventDllError list" where
  "posted [] = []"
| "posted (OutPostError ev # os) = ev # posted os"
| "posted (_ # os) = posted os"

definition posted_errors :: "tDllkInstance \<Rightarrow> u32 list" where
  "posted_errors s = map dllErrorEvents (posted (dllk_outs s))"

lemma posted_append [simp]: "posted (xs @ ys) = posted xs @ posted ys"
  by (induction xs rule: posted.induct) simp_all

text \<open>The bits that an event posted in an NMT state can have.\<close>

definition dll_mask :: "tNmtState \<Rightarrow> u32" where
  "dll_mask n =
     (if cs_full n \<or> n = kNmtCsStopped then cs_mask n
      else if n \<in> {kNmtMsPreOperational2, kNmtMsReadyToOperate, kNmtMsOperational}
      then DLL_ERR_MN_CYCTIMEEXCEED else 0)"

definition dll_event_ok :: "tEventDllError \<Rightarrow> bool" where
  "dll_event_ok ev \<longleftrightarrow> dllErrorEvents ev \<noteq> 0 \<and> dllErrNodeId ev = 0 \<and>
     dllErrorEvents ev AND NOT (dll_mask (dllErrNmtState ev)) = 0"

definition dllk_inv :: "tDllkInstance \<Rightarrow> bool" where
  "dllk_inv s \<longleftrightarrow> curLastSoaReq s < DLLK_SOAREQ_COUNT \<and>
     length (aLastReqServiceId s) = DLLK_SOAREQ_COUNT \<and>
     length (aLastTargetNodeId s) = DLLK_SOAREQ_COUNT \<and>
     6 < length (aAsndFilter s) \<and> list_all dll_event_ok (posted (dllk_outs s))"

text \<open>
  Sending a SoA stores the request in its slot: it changes entries of the request arrays, not
  the current slot, the DLL state or the recorded calls.
\<close>

definition soa_ok :: "dllk_env \<Rightarrow> bool" where
  "soa_ok env \<longleftrightarrow> (\<forall>s. \<exists>rs ns. env_soa env s = s\<lparr>aLastReqServiceId := rs, aLastTargetNodeId := ns\<rparr> \<and>
     length rs = length (aLastReqServiceId s) \<and> length ns = length (aLastTargetNodeId s))"

lemma postDllEvent_state:
  "snd (postDllEvent env n errs r) =
     (if errs = 0 then snd r
      else (snd r)\<lparr>dllk_outs := dllk_outs (snd r) @
        [OutPostError \<lparr>dllErrorEvents = errs, dllErrNodeId = 0, dllErrNmtState = n,
                       dllErrOplkError = kErrorOk\<rparr>]\<rparr>)"
  by (simp add: postDllEvent_def)

lemma dllk_step_cs:
  assumes "cs_full n \<or> n = kNmtCsStopped" and "is_cs_state (dllState s)"
    and "cs_handle masnd n e s = (errs, s')"
  shows "dllk_step mn masnd (env, n, e) s = Some (snd (postDllEvent env n errs (kErrorOk, s')))"
  using assms by (simp add: dllk_step_def dllk_changeState_cs)

lemma dllk_inv_cs [inv_intros]:
  assumes inv: "dllk_inv s" and n: "cs_full n \<or> n = kNmtCsStopped"
  shows "\<exists>s'. dllk_step mn masnd (env, n, e) s = Some s' \<and> dllk_inv s'"
proof (cases "is_cs_state (dllState s)")
  case True
  obtain errs t where h: "cs_handle masnd n e s = (errs, t)" by fastforce
  have "cs_effect n s (errs, t)" using cs_handle_effect [OF n True, of masnd e] h by simp
  then have t: "t = s\<lparr>dllState := dllState t, lossSocStatus := lossSocStatus t\<rparr>"
    and m: "errs AND NOT (dll_mask n) = 0" using n by (auto simp: cs_effect_def dll_mask_def)
  have "dllk_inv (snd (postDllEvent env n errs (kErrorOk, t)))"
    using inv m by (subst t) (simp add: dllk_inv_def postDllEvent_state dll_event_ok_def)
  with dllk_step_cs [OF n True h] show ?thesis by blast
next
  case False
  then show ?thesis using inv n by (simp add: dllk_step_def dllk_changeState_cs_other)
qed

lemma lastRequestNotReceived_total:
  assumes "dllk_inv s"
  shows "\<exists>ret s'. lastRequestNotReceived env s = Some (ret, s') \<and> dllk_inv s' \<and>
     (\<exists>outs. s' = s\<lparr>dllk_outs := outs\<rparr> \<and> posted outs = posted (dllk_outs s))"
proof -
  have "req_code r mod 256 = req_code r \<and> (req_code r < 7 \<or> r = kDllReqServiceUnspecified)" for r
    by (cases r) simp_all
  then show ?thesis using assms
    by (auto simp: lastRequestNotReceived_def dllk_asyncFrameNotReceived_def dllk_inv_def
        intro: exI [of _ "dllk_outs s"])
qed

lemma dllk_inv_preop1 [inv_intros]:
  assumes inv: "dllk_inv s" and env: "soa_ok env"
  shows "\<exists>r. processNmtMsPreop1 env n e s = Some r \<and> dllk_inv (snd r)"
proof -
  obtain ret t where l: "lastRequestNotReceived env s = Some (ret, t)" and t: "dllk_inv t"
    using lastRequestNotReceived_total [OF inv] by blast
  have soa: "\<exists>rs ns. env_soa env u = u\<lparr>aLastReqServiceId := rs, aLastTargetNodeId := ns\<rparr> \<and>
     length rs = length (aLastReqServiceId u) \<and> length ns = length (aLastTargetNodeId u)" for u
    using env by (simp add: soa_ok_def)
  have "dllk_inv (env_soa env u) \<longleftrightarrow> dllk_inv u" for u
    using soa [of u] by (auto simp: dllk_inv_def)
  then show ?thesis using inv t l
    by (auto simp: processNmtMsPreop1_def Let_def ok_then_def dllk_inv_def)
qed

definition prescaleStep :: "tDllkInstance \<Rightarrow> tDllkInstance" where
  "prescaleStep s =
     (if prescaler s > 0
      then let s = s\<lparr>prescaleCycleCount := prescaleCycleCount s + 1\<rparr>
           in if prescaleCycleCount s = prescaler s
              then s\<lparr>prescaleCycleCount := 0, mnFlag1 := mnFlag1 s XOR PLK_FRAME_FLAG1_PS\<rparr>
              else s
      else s)"

lemma dllk_inv_prescaleStep: "dllk_inv s \<Longrightarrow> dllk_inv (prescaleStep s)"
  by (simp add: prescaleStep_def dllk_inv_def Let_def)

lemma fullCycle_asnd_eq:
  "processNmtMsFullCycle env n kNmtEventDllMeAsndTimeout (errs, s) =
     (case lastRequestNotReceived env (prescaleStep s) of
        None \<Rightarrow> None
      | Some (ret, t) \<Rightarrow>
          Some (errs, ret,
            let t = t\<lparr>curLastSoaReq := (curLastSoaReq t + 1) mod 256\<rparr>
            in if DLLK_SOAREQ_COUNT \<le> curLastSoaReq t then t\<lparr>curLastSoaReq := 0\<rparr> else t))"
  by (simp only: processNmtMsFullCycle_def prescaleStep_def Let_def prod.case tNmtEvent.case)

lemma fullCycle_asnd_timeout:
  assumes "dllk_inv s"
  shows "\<exists>ret outs.
     processNmtMsFullCycle env n kNmtEventDllMeAsndTimeout (errs, s) =
       Some (errs, ret, (prescaleStep s)
         \<lparr>dllk_outs := outs, curLastSoaReq := (curLastSoaReq s + 1) mod 3\<rparr>) \<and>
     posted outs = posted (dllk_outs s)"
proof -
  obtain ret t outs where l: "lastRequestNotReceived env (prescaleStep s) = Some (ret, t)"
    and t: "t = (prescaleStep s)\<lparr>dllk_outs := outs\<rparr>"
    and p: "posted outs = posted (dllk_outs (prescaleStep s))"
    using lastRequestNotReceived_total [OF dllk_inv_prescaleStep [OF assms], of env] by blast
  have s: "dllk_outs (prescaleStep s) = dllk_outs s"
    "curLastSoaReq (prescaleStep s) = curLastSoaReq s"
    by (simp_all add: prescaleStep_def Let_def)
  have c: "curLastSoaReq s < 3" using assms by (simp add: dllk_inv_def)
  have slot: "(let u = u\<lparr>curLastSoaReq := (curLastSoaReq u + 1) mod 256\<rparr>
        in if 3 \<le> curLastSoaReq u then u\<lparr>curLastSoaReq := 0\<rparr> else u) =
      u\<lparr>curLastSoaReq := (curLastSoaReq u + 1) mod 3\<rparr>" if "curLastSoaReq u < 3" for u
  proof -
    from that have "curLastSoaReq u = 0 \<or> curLastSoaReq u = 1 \<or> curLastSoaReq u = 2" by arith
    then show ?thesis by (elim disjE) simp_all
  qed
  have "processNmtMsFullCycle env n kNmtEventDllMeAsndTimeout (errs, s) =
     Some (errs, ret, t\<lparr>curLastSoaReq := (curLastSoaReq t + 1) mod 3\<rparr>)"
    using l c t s slot [of t] by (simp add: fullCycle_asnd_eq)
  moreover have "t\<lparr>curLastSoaReq := (curLastSoaReq t + 1) mod 3\<rparr> =
     (prescaleStep s)\<lparr>dllk_outs := outs, curLastSoaReq := (curLastSoaReq s + 1) mod 3\<rparr>"
    using s by (simp add: t)
  ultimately show ?thesis using p s by metis
qed

lemma dllk_inv_fullCycle [inv_intros]:
  assumes inv: "dllk_inv s"
  shows "\<exists>errs ret t. processNmtMsFullCycle env n e (0, s) = Some (errs, ret, t) \<and> dllk_inv t \<and>
     errs AND NOT DLL_ERR_MN_CYCTIMEEXCEED = 0"
proof -
  consider "e = kNmtEventDllMeSocTrig" | "e = kNmtEventDllMeAsndTimeout"
    | "e \<noteq> kNmtEventDllMeSocTrig" "e \<noteq> kNmtEventDllMeAsndTimeout" by blast
  then show ?thesis
  proof cases
    case 1
    with inv show ?thesis
      by (auto simp: processNmtMsFullCycle_def Let_def ok_then_def dllk_inv_def)
  next
    case 2
    from fullCycle_asnd_timeout [OF inv, of env n 0] dllk_inv_prescaleStep [OF inv] inv 2
    show ?thesis by (auto simp: dllk_inv_def)
  next
    case 3
    with inv show ?thesis
      by (auto simp: processNmtMsFullCycle_def split: tNmtEvent.splits)
  qed
qed

definition ms_full :: "tNmtState \<Rightarrow> bool" where
  "ms_full n \<longleftrightarrow> n \<in> {kNmtMsPreOperational2, kNmtMsReadyToOperate, kNmtMsOperational}"

lemma dllk_changeState_ms:
  "ms_full n \<Longrightarrow> dllk_changeState True masnd env e n s =
     (case processNmtMsFullCycle env n e (0, s) of
        None \<Rightarrow> None
      | Some (errs, ret, t) \<Rightarrow>
          Some (if ret = kErrorOk then postDllEvent env n errs (ret, t) else (ret, t)))"
  by (cases n) (simp_all add: dllk_changeState_def ms_full_def split: option.split)

lemma dllk_changeState_preop1:
  "dllk_changeState True masnd env e kNmtMsPreOperational1 s =
     processNmtMsPreop1 env kNmtMsPreOperational1 e s"
  by (simp add: dllk_changeState_def)

lemma dllk_changeState_idle:
  assumes "\<not> cs_full n" and "n \<noteq> kNmtCsStopped"
    and "mn \<longrightarrow> \<not> ms_full n \<and> n \<noteq> kNmtMsPreOperational1"
  shows "\<exists>d. dllk_changeState mn masnd env e n s = Some (kErrorOk, s\<lparr>dllState := d\<rparr>)"
proof -
  have "\<exists>d. s = s\<lparr>dllState := d\<rparr>" by (rule exI [of _ "dllState s"]) simp
  with assms show ?thesis
    by (cases n) (auto simp: dllk_changeState_def ms_full_def cs_full_def)
qed

lemma dllk_inv_step [inv_intros]:
  assumes inv: "dllk_inv s" and env: "soa_ok env"
  shows "\<exists>s'. dllk_step mn masnd (env, n, e) s = Some s' \<and> dllk_inv s'"
proof -
  consider "cs_full n \<or> n = kNmtCsStopped" | "mn" "ms_full n" | "mn" "n = kNmtMsPreOperational1"
    | "\<not> cs_full n" "n \<noteq> kNmtCsStopped" "mn \<longrightarrow> \<not> ms_full n \<and> n \<noteq> kNmtMsPreOperational1"
    by blast
  then show ?thesis
  proof cases
    case 1
    then show ?thesis by (rule dllk_inv_cs [OF inv])
  next
    case 2
    obtain errs ret t where f: "processNmtMsFullCycle env n e (0, s) = Some (errs, ret, t)"
      and t: "dllk_inv t" "errs AND NOT (dll_mask n) = 0"
      using dllk_inv_fullCycle [OF inv, of env n e] 2
      by (auto simp: dll_mask_def cs_full_def ms_full_def)
    then have "dllk_inv (snd (postDllEvent env n errs (r, t)))" for r
      by (simp add: dllk_inv_def postDllEvent_state dll_event_ok_def)
    with f t 2 show ?thesis by (simp add: dllk_step_def dllk_changeState_ms)
  next
    case 3
    then show ?thesis using dllk_inv_preop1 [OF inv env, of n e]
      by (auto simp: dllk_step_def dllk_changeState_preop1)
  next
    case 4
    from dllk_changeState_idle [OF this, of masnd env e s] inv show ?thesis
      by (auto simp: dllk_step_def dllk_inv_def)
  qed
qed

interpretation dllk_machine: safe_machine "dllk_step mn masnd" "\<lambda>ev. soa_ok (fst ev)" dllk_inv
  for mn masnd
  by unfold_locales (auto intro: dllk_inv_step)

section \<open>Accounting for lost SoC frames\<close>

definition loss_posts :: "tDllkInstance \<Rightarrow> nat" where
  "loss_posts s = length (filter (\<lambda>w. w AND DLL_ERR_CN_LOSS_SOC \<noteq> 0) (posted_errors s))"

definition in_cycle :: "tDllkInstance \<Rightarrow> bool" where
  "in_cycle s \<longleftrightarrow> dllState s \<in> {kDllCsWaitPreq, kDllCsWaitSoc, kDllCsWaitSoa}"

definition cs_timed :: "tNmtState \<Rightarrow> bool" where
  "cs_timed n \<longleftrightarrow> n \<in> {kNmtCsReadyToOperate, kNmtCsOperational, kNmtCsStopped}"

lemma loss_posts_post:
  "loss_posts (snd (postDllEvent env n errs (r, s))) =
     loss_posts s + of_bool (errs AND DLL_ERR_CN_LOSS_SOC \<noteq> 0)"
  by (auto simp: loss_posts_def posted_errors_def postDllEvent_state)

lemma cs_handle_loss_timeout:
  assumes "cs_timed n" and "in_cycle s"
    and "cs_handle masnd n kNmtEventDllCeFrameTimeout s = (errs, s')"
  shows "in_cycle s'" and "loss_posts s' = loss_posts s"
    and "errs AND DLL_ERR_CN_LOSS_SOC \<noteq> 0 \<longleftrightarrow>
       \<not> fLossReported (lossSocStatus s) \<or> fTimeoutOccurred (lossSocStatus s)"
    and "lossSocStatus s' = \<lparr>fLossReported = True, fTimeoutOccurred = True\<rparr>"
  using assms
  by (auto simp: cs_timed_def in_cycle_def cs_handle_def step_defs Let_def loss_posts_def
      posted_errors_def split: if_splits intro!: tDllLossSocStatus.equality)

definition loss_effect :: "tDllkInstance \<Rightarrow> u32 \<times> tDllkInstance \<Rightarrow> bool" where
  "loss_effect s r \<longleftrightarrow> in_cycle (snd r) \<and> dllk_outs (snd r) = dllk_outs s \<and>
     (if fst r AND DLL_ERR_CN_LOSS_SOC = 0 then lossSocStatus (snd r) = lossSocStatus s
      else \<not> fLossReported (lossSocStatus s) \<and>
        lossSocStatus (snd r) = (lossSocStatus s)\<lparr>fLossReported := True\<rparr>)"

lemma loss_effects:
  assumes "e \<noteq> kNmtEventDllCeSoc" and "e \<noteq> kNmtEventDllCeFrameTimeout"
  shows "dllState s = kDllCsWaitPreq \<Longrightarrow> loss_effect s (processCsFullCycleDllWaitPreq masnd n e (0, s))"
    and "dllState s = kDllCsWaitSoc \<Longrightarrow> loss_effect s (processCsFullCycleDllWaitSoc n e (0, s))"
    and "dllState s = kDllCsWaitSoa \<Longrightarrow> loss_effect s (processCsFullCycleDllWaitSoa n e (0, s))"
    and "dllState s = kDllCsWaitPreq \<Longrightarrow> loss_effect s (processCsStoppedDllWaitPreq n e (0, s))"
    and "dllState s = kDllCsWaitSoc \<Longrightarrow> loss_effect s (processCsStoppedDllWaitSoc n e (0, s))"
    and "dllState s = kDllCsWaitSoa \<Longrightarrow> loss_effect s (processCsStoppedDllWaitSoa masnd n e (0, s))"
  using assms by (cases e; simp add: loss_effect_def in_cycle_def step_defs)+

lemma cs_handle_loss_other:
  assumes "cs_timed n" and "in_cycle s"
    and "cs_handle masnd n e s = (errs, s')"
    and "e \<noteq> kNmtEventDllCeSoc" and "e \<noteq> kNmtEventDllCeFrameTimeout"
  shows "in_cycle s' \<and> loss_posts s' = loss_posts s \<and>
     (if errs AND DLL_ERR_CN_LOSS_SOC = 0 then lossSocStatus s' = lossSocStatus s
      else \<not> fLossReported (lossSocStatus s) \<and>
        lossSocStatus s' = (lossSocStatus s)\<lparr>fLossReported := True\<rparr>)"
proof -
  from assms(2) have "loss_effect s (cs_handle masnd n e s)"
    unfolding in_cycle_def cs_handle_def using loss_effects [OF assms(4, 5)] by auto
  then show ?thesis
    using assms(3) by (auto simp: loss_effect_def loss_posts_def posted_errors_def split: if_splits)
qed

text \<open>The relation between the flags, the events posted since \<open>base\<close> and the timeouts so far.\<close>

definition soc_acct :: "nat \<Rightarrow> nat \<Rightarrow> tDllkInstance \<Rightarrow> bool" where
  "soc_acct base t s \<longleftrightarrow> in_cycle s \<and>
     (fTimeoutOccurred (lossSocStatus s) \<longleftrightarrow> 0 < t) \<and>
     (0 < t \<longrightarrow> fLossReported (lossSocStatus s)) \<and>
     loss_posts s = base + (if 0 < t then t else of_bool (fLossReported (lossSocStatus s)))"

lemma in_cycle_cs: "in_cycle s \<Longrightarrow> is_cs_state (dllState s)"
  by (auto simp: in_cycle_def is_cs_state_def)

lemma cs_timed_cs: "cs_timed n \<Longrightarrow> cs_full n \<or> n = kNmtCsStopped"
  by (auto simp: cs_timed_def cs_full_def)

lemma soc_acct_step:
  assumes "cs_timed n" and acct: "soc_acct base t s" and "e \<noteq> kNmtEventDllCeSoc"
  shows "\<exists>s'. dllk_step mn masnd (env, n, e) s = Some s' \<and>
     soc_acct base (if e = kNmtEventDllCeFrameTimeout then t + 1 else t) s'"
proof -
  obtain errs u where h: "cs_handle masnd n e s = (errs, u)" by fastforce
  have cyc: "in_cycle s" using acct by (simp add: soc_acct_def)
  have post: "in_cycle (snd (postDllEvent env n errs r)) = in_cycle (snd r)"
    "lossSocStatus (snd (postDllEvent env n errs r)) = lossSocStatus (snd r)" for r
    by (simp_all add: postDllEvent_state in_cycle_def)
  have "soc_acct base (if e = kNmtEventDllCeFrameTimeout then t + 1 else t)
      (snd (postDllEvent env n errs (kErrorOk, u)))"
  proof (cases "e = kNmtEventDllCeFrameTimeout")
    case True
    from cs_handle_loss_timeout [OF assms(1) cyc h [unfolded True]] acct True show ?thesis
      by (auto simp: soc_acct_def post loss_posts_post)
  next
    case False
    from cs_handle_loss_other [OF assms(1) cyc h assms(3) False] acct False show ?thesis
      by (auto simp: soc_acct_def post loss_posts_post split: if_splits)
  qed
  with dllk_step_cs [OF cs_timed_cs [OF assms(1)] in_cycle_cs [OF cyc] h] show ?thesis by blast
qed

lemma soc_acct_run:
  assumes "cs_timed n" and "soc_acct base t s" and "kNmtEventDllCeSoc \<notin> set es"
  shows "\<exists>s'. run_steps (\<lambda>e. dllk_step mn masnd (env, n, e)) es s = Some s' \<and>
     soc_acct base (t + count_list es kNmtEventDllCeFrameTimeout) s'"
  using assms(2, 3)
proof (induction es arbitrary: s t)
  case Nil
  then show ?case by simp
next
  case (Cons e es)
  from soc_acct_step [OF assms(1) Cons.prems(1), of e mn masnd env] Cons.prems(2) obtain s' where
    "dllk_step mn masnd (env, n, e) s = Some s'"
    "soc_acct base (if e = kNmtEventDllCeFrameTimeout then t + 1 else t) s'" by auto
  with Cons.IH [of "if e = kNmtEventDllCeFrameTimeout then t + 1 else t" s'] Cons.prems(2)
  show ?case by (auto split: if_splits)
qed

section \<open>Whole cycles of a controlled node\<close>

definition cn_cycle :: "bool \<Rightarrow> tNmtEvent list" where
  "cn_cycle preq =
     (if preq then [kNmtEventDllCeSoc, kNmtEventDllCePreq, kNmtEventDllCeSoa]
      else [kNmtEventDllCeSoc, kNmtEventDllCeSoa])"

definition cs_monitored :: "tNmtState \<Rightarrow> bool" where
  "cs_monitored n \<longleftrightarrow> n \<in> {kNmtCsReadyToOperate, kNmtCsOperational}"

lemma dllk_step_monitored:
  assumes "cs_monitored n" and "is_cs_state (dllState s)"
  shows "dllk_step mn masnd (env, n, e) s =
     Some (case cs_handle masnd n e s of (errs, t) \<Rightarrow> snd (postDllEvent env n errs (kErrorOk, t)))"
  using assms by (auto simp: dllk_step_def dllk_changeState_cs cs_monitored_def cs_full_def split_beta)

lemma cn_cycle_from_wait_soc:
  assumes "cs_monitored n" and "cycleCount s = 0" and "dllState s = kDllCsWaitSoc"
  shows "\<exists>s'. run_steps (\<lambda>e. dllk_step mn masnd (env, n, e)) (cn_cycle b) s = Some s' \<and>
     dllState s' = kDllCsWaitSoc \<and> cycleCount s' = 0 \<and>
     posted_errors s' = posted_errors s @ [if b then DLL_ERR_CN_RECVD_PREQ else DLL_ERR_CN_LOSS_PREQ]"
  using assms
  by (cases b)
    (auto simp: cn_cycle_def dllk_step_monitored is_cs_state_def cs_handle_def step_defs
      cs_monitored_def postDllEvent_state posted_errors_def nmt_order_defs)

lemma cn_cycles_from_wait_soc:
  assumes "cs_monitored n" and "cycleCount s = 0" and "dllState s = kDllCsWaitSoc"
  shows "\<exists>s'. run_steps (\<lambda>e. dllk_step mn masnd (env, n, e)) (concat (map cn_cycle bs)) s = Some s' \<and>
     dllState s' = kDllCsWaitSoc \<and> cycleCount s' = 0 \<and>
     posted_errors s' = posted_errors s @
       map (\<lambda>b. if b then DLL_ERR_CN_RECVD_PREQ else DLL_ERR_CN_LOSS_PREQ) bs"
  using assms(2, 3)
proof (induction bs arbitrary: s)
  case Nil
  then show ?case by simp
next
  case (Cons b bs)
  from cn_cycle_from_wait_soc [OF assms(1) Cons.prems, of mn masnd env b] obtain s1 where
    s1: "run_steps (\<lambda>e. dllk_step mn masnd (env, n, e)) (cn_cycle b) s = Some s1"
      "dllState s1 = kDllCsWaitSoc" "cycleCount s1 = 0"
      "posted_errors s1 = posted_errors s @ [if b then DLL_ERR_CN_RECVD_PREQ else DLL_ERR_CN_LOSS_PREQ]"
    by blast
  from Cons.IH [OF s1(3, 2)] s1(1, 4) show ?case by (auto simp: run_steps_append)
qed

lemma cn_cycle_resync:
  assumes "cs_monitored n" and "cycleCount s = 0" and "is_cs_state (dllState s)"
  shows "\<exists>s' ws. run_steps (\<lambda>e. dllk_step mn masnd (env, n, e)) (cn_cycle True) s = Some s' \<and>
     dllState s' = kDllCsWaitSoc \<and> cycleCount s' = 0 \<and>
     posted_errors s' = posted_errors s @ ws \<and> length ws \<le> 2"
  using assms
  by (auto simp: cn_cycle_def dllk_step_monitored is_cs_state_def cs_handle_def step_defs
      cs_monitored_def postDllEvent_state posted_errors_def nmt_order_defs)

section \<open>The managing node's cycle\<close>

lemma prescaleStep_count:
  assumes "0 < prescaler s" and "unat (prescaleCycleCount s) = k mod unat (prescaler s)"
  shows "unat (prescaleCycleCount (prescaleStep s)) = Suc k mod unat (prescaler s)"
    and "mnFlag1 (prescaleStep s) =
       mnFlag1 s XOR (if unat (prescaler s) dvd Suc k then PLK_FRAME_FLAG1_PS else 0)"
proof -
  let ?p = "unat (prescaler s)"
  have p: "0 < ?p" using assms(1) by (simp add: word_greater_zero_iff unat_gt_0)
  have lt: "unat (prescaleCycleCount s) < ?p" using assms(2) p by simp
  then have u: "unat (prescaleCycleCount s + 1) = Suc (k mod ?p)"
    using assms(2) unsigned_less [of "prescaler s", where ?'a = nat]
    by (simp add: unat_word_ariths)
  then have eq: "prescaleCycleCount s + 1 = prescaler s \<longleftrightarrow> Suc (k mod ?p) = ?p"
    by (metis word_unat_eq_iff)
  show "unat (prescaleCycleCount (prescaleStep s)) = Suc k mod ?p"
    using u eq assms(1) by (auto simp: prescaleStep_def Let_def mod_Suc)
  have "?p dvd Suc k \<longleftrightarrow> Suc (k mod ?p) = ?p" by (simp add: dvd_eq_mod_eq_0 mod_Suc)
  then show "mnFlag1 (prescaleStep s) = mnFlag1 s XOR (if ?p dvd Suc k then PLK_FRAME_FLAG1_PS else 0)"
    using eq assms(1) by (auto simp: prescaleStep_def Let_def)
qed

lemma dllk_step_asnd_timeout:
  assumes "ms_full n" and "dllk_inv s"
  shows "\<exists>outs. dllk_step True masnd (env, n, kNmtEventDllMeAsndTimeout) s =
       Some ((prescaleStep s)\<lparr>dllk_outs := outs, curLastSoaReq := (curLastSoaReq s + 1) mod 3\<rparr>) \<and>
     posted outs = posted (dllk_outs s)"
proof -
  obtain ret outs where "processNmtMsFullCycle env n kNmtEventDllMeAsndTimeout (0, s) =
       Some (0, ret, (prescaleStep s)
         \<lparr>dllk_outs := outs, curLastSoaReq := (curLastSoaReq s + 1) mod 3\<rparr>)"
    and "posted outs = posted (dllk_outs s)"
    using fullCycle_asnd_timeout [OF assms(2), of env n 0] by blast
  then show ?thesis
    using assms(1) by (auto simp: dllk_step_def dllk_changeState_ms postDllEvent_def)
qed

lemma asnd_timeouts_run:
  assumes "ms_full n" and "dllk_inv s" and "0 < prescaler s" and "prescaleCycleCount s = 0"
  shows "\<exists>s'. run_steps (\<lambda>e. dllk_step True masnd (env, n, e))
         (replicate k kNmtEventDllMeAsndTimeout) s = Some s' \<and>
     dllk_inv s' \<and> prescaler s' = prescaler s \<and>
     unat (prescaleCycleCount s') = k mod unat (prescaler s) \<and>
     mnFlag1 s' = mnFlag1 s XOR (if odd (k div unat (prescaler s)) then PLK_FRAME_FLAG1_PS else 0) \<and>
     curLastSoaReq s' = (curLastSoaReq s + k) mod 3"
proof (induction k)
  case 0
  have "curLastSoaReq s < 3" using assms(2) by (simp add: dllk_inv_def)
  then show ?case using assms by simp
next
  case (Suc k)
  let ?p = "unat (prescaler s)"
  obtain u where u: "run_steps (\<lambda>e. dllk_step True masnd (env, n, e))
      (replicate k kNmtEventDllMeAsndTimeout) s = Some u"
    and inv: "dllk_inv u" and p: "prescaler u = prescaler s"
    and cnt: "unat (prescaleCycleCount u) = k mod ?p"
    and flag: "mnFlag1 u = mnFlag1 s XOR (if odd (k div ?p) then PLK_FRAME_FLAG1_PS else 0)"
    and slot: "curLastSoaReq u = (curLastSoaReq s + k) mod 3" using Suc by blast
  obtain outs where st: "dllk_step True masnd (env, n, kNmtEventDllMeAsndTimeout) u =
       Some ((prescaleStep u)\<lparr>dllk_outs := outs, curLastSoaReq := (curLastSoaReq u + 1) mod 3\<rparr>)"
    and po: "posted outs = posted (dllk_outs u)"
    using dllk_step_asnd_timeout [OF assms(1) inv] by blast
  note ps = prescaleStep_count [of u k, unfolded p, OF assms(3) cnt]
  have "odd (Suc k div ?p) \<longleftrightarrow> (if ?p dvd Suc k then even (k div ?p) else odd (k div ?p))"
    using dvd_eq_mod_eq_0 [of ?p "Suc k"] by (simp add: div_Suc)
  then have "(mnFlag1 s XOR (if odd (k div ?p) then PLK_FRAME_FLAG1_PS else 0)) XOR
      (if ?p dvd Suc k then PLK_FRAME_FLAG1_PS else 0) =
     mnFlag1 s XOR (if odd (Suc k div ?p) then PLK_FRAME_FLAG1_PS else 0)"
    by (auto simp: xor.assoc)
  moreover have "dllk_inv ((prescaleStep u)
      \<lparr>dllk_outs := outs, curLastSoaReq := (curLastSoaReq u + 1) mod 3\<rparr>)"
    using dllk_inv_prescaleStep [OF inv] inv po by (simp add: dllk_inv_def)
  moreover have "prescaler (prescaleStep u) = prescaler u"
    by (simp add: prescaleStep_def Let_def)
  moreover have "((curLastSoaReq s + k) mod 3 + 1) mod 3 = (curLastSoaReq s + Suc k) mod 3"
    by presburger
  moreover have "replicate (Suc k) kNmtEventDllMeAsndTimeout =
      replicate k kNmtEventDllMeAsndTimeout @ [kNmtEventDllMeAsndTimeout]"
    by (simp add: replicate_append_same)
  ultimately show ?case using u st ps p flag slot by (simp add: run_steps_append)
qed

section \<open>The reduced cycle\<close>

fun soa_invitations :: "dllk_out list \<Rightarrow> bool list" where
  "soa_invitations [] = []"
| "soa_invitations (OutSendSoa n b # os) = b # soa_invitations os"
| "soa_invitations (_ # os) = soa_invitations os"

lemma soa_invitations_append [simp]:
  "soa_invitations (xs @ ys) = soa_invitations xs @ soa_invitations ys"
  by (induction xs rule: soa_invitations.induct) simp_all

definition asnd_calls_ok :: "dllk_env \<Rightarrow> bool" where
  "asnd_calls_ok env \<longleftrightarrow> (\<forall>a b. env_ret env (OutAsndNotRx a b) = kErrorOk)"

lemma lastRequestNotReceived_ok:
  assumes "dllk_inv s" and "asnd_calls_ok env"
  shows "\<exists>outs. lastRequestNotReceived env s = Some (kErrorOk, s\<lparr>dllk_outs := outs\<rparr>) \<and>
     soa_invitations outs = soa_invitations (dllk_outs s)"
proof -
  have r: "req_code r mod 256 = req_code r \<and> (req_code r < 7 \<or> r = kDllReqServiceUnspecified)" for r
    by (cases r) simp_all
  have same: "s = s\<lparr>dllk_outs := dllk_outs s\<rparr>" by simp
  show ?thesis using assms r same
    by (auto simp: lastRequestNotReceived_def dllk_asyncFrameNotReceived_def dllk_inv_def
        asnd_calls_ok_def intro: exI [of _ "dllk_outs s"])
qed

lemma preop1_soa_step:
  assumes inv: "dllk_inv s" and "dllState s = kDllMsNonCyclic"
    and "soa_ok env" and "asnd_calls_ok env"
  shows "\<exists>s'. dllk_step True masnd (env, kNmtMsPreOperational1, kNmtEventDllMeSocTrig) s = Some s' \<and>
     dllState s' = kDllMsNonCyclic \<and> cycleCount s' = cycleCount s + 1 \<and>
     soa_invitations (dllk_outs s') = soa_invitations (dllk_outs s) @ [10 \<le> cycleCount s]"
proof -
  obtain outs where l: "lastRequestNotReceived env s = Some (kErrorOk, s\<lparr>dllk_outs := outs\<rparr>)"
    and o: "soa_invitations outs = soa_invitations (dllk_outs s)"
    using lastRequestNotReceived_ok [OF inv assms(4)] by blast
  let ?u = "s\<lparr>dllk_outs := outs @ [OutSendSoa kNmtMsPreOperational1 (10 \<le> cycleCount s)]\<rparr>"
  obtain rs ns where "env_soa env ?u = ?u\<lparr>aLastReqServiceId := rs, aLastTargetNodeId := ns\<rparr>"
    using assms(3) unfolding soa_ok_def by blast
  with l o assms(2) show ?thesis
    by (simp add: dllk_step_def dllk_changeState_preop1 processNmtMsPreop1_def Let_def)
qed

lemma preop1_soa_run:
  assumes "dllk_inv s" and "dllState s = kDllMsNonCyclic" and "cycleCount s = 0"
    and "soa_ok env" and "asnd_calls_ok env"
  shows "\<exists>s'. run_steps (\<lambda>e. dllk_step True masnd (env, kNmtMsPreOperational1, e))
         (replicate k kNmtEventDllMeSocTrig) s = Some s' \<and>
     dllk_inv s' \<and> dllState s' = kDllMsNonCyclic \<and> cycleCount s' = word_of_nat k \<and>
     soa_invitations (dllk_outs s') =
       soa_invitations (dllk_outs s) @ map (\<lambda>i. 10 \<le> i mod 2 ^ 32) [0..<k]"
proof (induction k)
  case 0
  then show ?case using assms by simp
next
  case (Suc k)
  let ?e = "(env, kNmtMsPreOperational1, kNmtEventDllMeSocTrig)"
  obtain u where u: "run_steps (\<lambda>e. dllk_step True masnd (env, kNmtMsPreOperational1, e))
         (replicate k kNmtEventDllMeSocTrig) s = Some u"
    and inv: "dllk_inv u" and d: "dllState u = kDllMsNonCyclic" and c: "cycleCount u = word_of_nat k"
    and i: "soa_invitations (dllk_outs u) =
       soa_invitations (dllk_outs s) @ map (\<lambda>i. 10 \<le> i mod 2 ^ 32) [0..<k]" using Suc by blast
  have "10 \<le> cycleCount u \<longleftrightarrow> 10 \<le> k mod 2 ^ 32"
    by (simp add: c word_le_nat_alt unat_of_nat)
  with preop1_soa_step [OF inv d assms(4, 5), of masnd] dllk_inv_step [OF inv assms(4)]
  obtain v where "dllk_step True masnd ?e u = Some v" "dllk_inv v" "dllState v = kDllMsNonCyclic"
    "cycleCount v = word_of_nat (Suc k)"
    "soa_invitations (dllk_outs v) = soa_invitations (dllk_outs u) @ [10 \<le> k mod 2 ^ 32]"
    using c by (fastforce simp: add.commute)
  moreover have "replicate (Suc k) kNmtEventDllMeSocTrig =
      replicate k kNmtEventDllMeSocTrig @ [kNmtEventDllMeSocTrig]"
    by (simp add: replicate_append_same)
  ultimately show ?case using u i by (simp add: run_steps_append)
qed

section \<open>Properties\<close>

text \<open>A node after \<^verbatim>\<open>memset\<close> of the instance, in a given DLL state, and modules that accept every call.\<close>

definition dllk_example :: "tDllState \<Rightarrow> tDllkInstance" where
  "dllk_example d =
     \<lparr>dllState = d, cycleCount = 0, prescaleCycleCount = 0, mnFlag1 = 0, multipleCycleCnt = 0,
      prescaler = 2, aAsndFilter = replicate 254 kDllAsndFilterNone,
      aLastReqServiceId = replicate 3 kDllReqServiceNo, aLastTargetNodeId = replicate 3 0,
      curLastSoaReq = 0, syncLastSoaReq = 0,
      lossSocStatus = \<lparr>fLossReported = False, fTimeoutOccurred = False\<rparr>, dllk_outs = []\<rparr>"

definition dllk_ok_env :: dllk_env where
  "dllk_ok_env = \<lparr>env_ret = (\<lambda>_. kErrorOk), env_soa = (\<lambda>s. s)\<rparr>"

lemma dllk_example_inv: "dllk_inv (dllk_example d)"
  by (simp add: dllk_example_def dllk_inv_def)

lemma dllk_ok_env_ok: "soa_ok dllk_ok_env" "asnd_calls_ok dllk_ok_env"
proof -
  have "\<exists>rs ns. s = s\<lparr>aLastReqServiceId := rs, aLastTargetNodeId := ns\<rparr> \<and>
     length rs = length (aLastReqServiceId s) \<and> length ns = length (aLastTargetNodeId s)"
    for s :: tDllkInstance
    by (rule exI [of _ "aLastReqServiceId s"], rule exI [of _ "aLastTargetNodeId s"]) simp
  then show "soa_ok dllk_ok_env" by (simp add: soa_ok_def dllk_ok_env_def)
  show "asnd_calls_ok dllk_ok_env" by (simp add: asnd_calls_ok_def dllk_ok_env_def)
qed

text \<open>
  C22: No sequence of NMT states and events, whatever the other modules answer, makes the DLL
  state machine leave its handler tables, its request slots or its filter table, and every error
  event it posts is non-empty, has node 0 and only bits that its NMT state can report: a stopped
  node never reports a missing or received PReq, a node in \<^verbatim>\<open>PreOperational2\<close> no missing PReq, a
  managing node only an exceeded cycle time, and no event is posted in the other states.
\<close>

theorem dllk_run_safe:
  assumes "dllk_inv s" and "list_all (\<lambda>ev. soa_ok (fst ev)) evs"
  shows "\<exists>s'. run_steps (dllk_step mn masnd) evs s = Some s' \<and> dllk_inv s'"
  using assms by (rule dllk_machine.run_safe)

theorem dllk_run_safe_witness:
  "\<exists>s'. run_steps (dllk_step True False)
       [(dllk_ok_env, kNmtMsPreOperational2, kNmtEventDllMeSocTrig),
        (dllk_ok_env, kNmtMsOperational, kNmtEventDllMeSocTrig)] (dllk_example kDllMsNonCyclic) = Some s' \<and>
     dllk_inv s'"
  by (rule dllk_run_safe [OF dllk_example_inv]) (simp add: dllk_ok_env_ok)

text \<open>The losses of SoC posted in a run: one for each timeout, and at most one without a timeout.\<close>

definition loss_accounted ::
  "bool \<Rightarrow> bool \<Rightarrow> dllk_env \<Rightarrow> tNmtState \<Rightarrow> tNmtEvent list \<Rightarrow> tDllkInstance \<Rightarrow> bool" where
  "loss_accounted mn masnd env n es s \<longleftrightarrow>
     (\<exists>s'. run_steps (\<lambda>e. dllk_step mn masnd (env, n, e)) es s = Some s' \<and>
        (let t = count_list es kNmtEventDllCeFrameTimeout
         in if 0 < t then loss_posts s' = loss_posts s + t else loss_posts s' \<le> loss_posts s + 1))"

lemma loss_accounted_from_cleared:
  assumes "cs_timed n" and "in_cycle s"
    and "lossSocStatus s = \<lparr>fLossReported = False, fTimeoutOccurred = False\<rparr>"
    and "kNmtEventDllCeSoc \<notin> set es"
  shows "loss_accounted mn masnd env n es s"
proof -
  have "soc_acct (loss_posts s) 0 s" using assms by (simp add: soc_acct_def)
  from soc_acct_run [OF assms(1) this assms(4), of mn masnd env] show ?thesis
    by (auto simp: loss_accounted_def soc_acct_def Let_def split: if_splits)
qed

text \<open>The SoC a node waits for clears the record of losses, except in \<^verbatim>\<open>CS_STOPPED\<close>.\<close>

lemma expected_soc_rearms:
  assumes "cs_timed n" and "n \<noteq> kNmtCsStopped" and "dllState s = kDllCsWaitSoc"
  shows "dllk_step mn masnd (env, n, kNmtEventDllCeSoc) s =
    Some (s\<lparr>dllState := kDllCsWaitPreq,
            lossSocStatus := \<lparr>fLossReported = False, fTimeoutOccurred = False\<rparr>\<rparr>)"
proof -
  have "cs_monitored n" using assms(1, 2) by (auto simp: cs_timed_def cs_monitored_def)
  from dllk_step_monitored [OF this, of s] assms show ?thesis
    by (auto simp: cs_timed_def is_cs_state_def cs_handle_def step_defs postDllEvent_def)
qed

text \<open>
  C8: Loss of SoC is accounted for once per lost frame. In ReadyToOperate and Operational, from the
  reception of a SoC that the node waited for until the next SoC, the node reports as many losses
  of SoC as there were frame timeouts, and at most one when there was no timeout, however the
  missing SoC shows in the other frames. This holds whatever losses were recorded before. In
  \<^verbatim>\<open>CS_STOPPED\<close> it holds from a state of the cycle in which no loss is recorded, but a SoC does not
  lead back to such a state: there the accounting is right only up to the first recorded loss.
\<close>

theorem loss_of_soc_accounting:
  assumes "cs_timed n" and "kNmtEventDllCeSoc \<notin> set es"
  shows "(n \<noteq> kNmtCsStopped \<and> dllState s = kDllCsWaitSoc \<longrightarrow>
       loss_accounted mn masnd env n (kNmtEventDllCeSoc # es) s) \<and>
     (in_cycle s \<and> lossSocStatus s = \<lparr>fLossReported = False, fTimeoutOccurred = False\<rparr> \<longrightarrow>
       loss_accounted mn masnd env n es s)"
proof -
  define s1 where "s1 = s\<lparr>dllState := kDllCsWaitPreq,
    lossSocStatus := \<lparr>fLossReported = False, fTimeoutOccurred = False\<rparr>\<rparr>"
  have "loss_accounted mn masnd env n es s1"
    by (rule loss_accounted_from_cleared [OF assms(1) _ _ assms(2)]) (simp_all add: s1_def in_cycle_def)
  moreover have "loss_posts s1 = loss_posts s" by (simp add: s1_def loss_posts_def posted_errors_def)
  ultimately have "loss_accounted mn masnd env n (kNmtEventDllCeSoc # es) s"
    if "n \<noteq> kNmtCsStopped" "dllState s = kDllCsWaitSoc"
    using expected_soc_rearms [OF assms(1) that, of mn masnd env, folded s1_def] by (auto simp: loss_accounted_def Let_def split: if_splits)
  then show ?thesis using assms loss_accounted_from_cleared by blast
qed

theorem loss_of_soc_accounting_witness:
  "loss_accounted False False dllk_ok_env kNmtCsOperational
     [kNmtEventDllCeSoc, kNmtEventDllCePreq, kNmtEventDllCeSoa, kNmtEventDllCeFrameTimeout, kNmtEventDllCeFrameTimeout]
     (dllk_example kDllCsWaitSoc) \<and>
   loss_accounted False False dllk_ok_env kNmtCsStopped
     [kNmtEventDllCePreq, kNmtEventDllCeSoa, kNmtEventDllCeFrameTimeout] (dllk_example kDllCsWaitSoc)"
proof
  let ?es = "[kNmtEventDllCePreq, kNmtEventDllCeSoa, kNmtEventDllCeFrameTimeout, kNmtEventDllCeFrameTimeout]"
  show "loss_accounted False False dllk_ok_env kNmtCsOperational (kNmtEventDllCeSoc # ?es) (dllk_example kDllCsWaitSoc)"
    by (rule loss_of_soc_accounting [THEN conjunct1, THEN mp]) (simp_all add: cs_timed_def dllk_example_def)
  show "loss_accounted False False dllk_ok_env kNmtCsStopped
      [kNmtEventDllCePreq, kNmtEventDllCeSoa, kNmtEventDllCeFrameTimeout] (dllk_example kDllCsWaitSoc)"
    by (rule loss_of_soc_accounting [THEN conjunct2, THEN mp]) (simp_all add: cs_timed_def in_cycle_def dllk_example_def)
qed



text \<open>
  In \<^verbatim>\<open>CS_STOPPED\<close> the loss of SoC status is never cleared. Once a loss has been seen in a
  frame, any number of undisturbed cycles later the first frame timeout, which stands for a new
  lost SoC, is still taken for the old one and nothing is posted.
\<close>

theorem stopped_loss_not_rearmed:
  assumes "dllState s = kDllCsWaitSoc"
    and "lossSocStatus s = \<lparr>fLossReported = True, fTimeoutOccurred = False\<rparr>"
  shows "run_steps (\<lambda>e. dllk_step mn masnd (env, kNmtCsStopped, e))
       (concat (replicate k [kNmtEventDllCeSoc, kNmtEventDllCeSoa]) @ [kNmtEventDllCeFrameTimeout]) s =
     Some (s\<lparr>lossSocStatus := \<lparr>fLossReported = True, fTimeoutOccurred = True\<rparr>\<rparr>)"
proof (induction k)
  case 0
  show ?case using assms
    by (simp add: dllk_step_def dllk_changeState_cs is_cs_state_def cs_handle_def step_defs
        postDllEvent_def)
next
  case (Suc k)
  have "s\<lparr>dllState := kDllCsWaitSoc\<rparr> = s" using assms(1) by simp
  then have "run_steps (\<lambda>e. dllk_step mn masnd (env, kNmtCsStopped, e))
       [kNmtEventDllCeSoc, kNmtEventDllCeSoa] s = Some s" using assms
    by (simp add: dllk_step_def dllk_changeState_cs is_cs_state_def cs_handle_def step_defs
        postDllEvent_def)
  then have "run_steps (\<lambda>e. dllk_step mn masnd (env, kNmtCsStopped, e))
      ([kNmtEventDllCeSoc, kNmtEventDllCeSoa] @ es) s =
     run_steps (\<lambda>e. dllk_step mn masnd (env, kNmtCsStopped, e)) es s" for es
    by (simp only: run_steps_append option.case)
  with Suc show ?case by (simp only: replicate_Suc concat.simps append_assoc)
qed

theorem stopped_loss_not_rearmed_witness:
  "\<exists>s. dllState s = kDllCsWaitSoc \<and>
     run_steps (\<lambda>e. dllk_step False False (dllk_ok_env, kNmtCsStopped, e))
       (concat (replicate 2 [kNmtEventDllCeSoc, kNmtEventDllCeSoa]) @ [kNmtEventDllCeFrameTimeout]) s =
     Some (s\<lparr>lossSocStatus := \<lparr>fLossReported = True, fTimeoutOccurred = True\<rparr>\<rparr>)"
  by (rule exI [of _ "(dllk_example kDllCsWaitSoc)
        \<lparr>lossSocStatus := \<lparr>fLossReported = True, fTimeoutOccurred = False\<rparr>\<rparr>"], rule conjI,
      simp add: dllk_example_def, rule stopped_loss_not_rearmed)
    (simp_all add: dllk_example_def)

text \<open>
  The managing node's SoC trigger. In the reduced cycle it deletes the cycle timer, starts
  the cycle and posts the synchronisation event, in this order, and enters the cyclic states
  exactly when the first two calls succeed; in a cyclic state it posts an exceeded cycle time.
\<close>

theorem mn_soc_trigger:
  assumes "ms_full n"
  shows "\<exists>ret s' calls. dllk_changeState True masnd env kNmtEventDllMeSocTrig n s = Some (ret, s') \<and>
     dllk_outs s' = dllk_outs s @ calls \<and>
     (if dllState s \<noteq> kDllMsNonCyclic
      then dllState s' = kDllMsWaitSocTrig \<and> map dllErrorEvents (posted calls) = [DLL_ERR_MN_CYCTIMEEXCEED]
      else if env_ret env OutDeleteCycleTimer \<noteq> kErrorOk
      then ret \<noteq> kErrorOk \<and> dllState s' = kDllMsNonCyclic \<and> calls = [OutDeleteCycleTimer]
      else if env_ret env OutStartCycle \<noteq> kErrorOk
      then ret \<noteq> kErrorOk \<and> dllState s' = kDllMsNonCyclic \<and> calls = [OutDeleteCycleTimer, OutStartCycle]
      else ret = env_ret env (OutPostEvent kEventTypeSync) \<and> dllState s' = kDllMsWaitSocTrig \<and>
        syncLastSoaReq s' = curLastSoaReq s \<and>
        calls = [OutDeleteCycleTimer, OutStartCycle, OutPostEvent kEventTypeSync])"
  using assms
  by (auto simp: dllk_changeState_ms processNmtMsFullCycle_def Let_def postDllEvent_def ok_then_def)

theorem mn_soc_trigger_witness:
  "\<exists>ret s' calls. dllk_changeState True False dllk_ok_env kNmtEventDllMeSocTrig kNmtMsPreOperational2
       (dllk_example kDllMsNonCyclic) = Some (ret, s') \<and> dllState s' = kDllMsWaitSocTrig \<and>
     calls = [OutDeleteCycleTimer, OutStartCycle, OutPostEvent kEventTypeSync]"
  using mn_soc_trigger [of kNmtMsPreOperational2 False dllk_ok_env "dllk_example kDllMsNonCyclic"]
  by (auto simp: ms_full_def dllk_ok_env_def dllk_example_def)

text \<open>
  C26: The managing node's per-cycle bookkeeping. After \<open>k\<close> cycles the prescale counter is
  \<open>k mod prescaler\<close>, the PS flag of the SoC has been toggled once for every \<open>prescaler\<close> cycles
  and the request slot has advanced by \<open>k\<close> around its three entries, whatever the calls return.
\<close>

theorem mn_cycle_bookkeeping:
  assumes "ms_full n" and "dllk_inv s" and "0 < prescaler s" and "prescaleCycleCount s = 0"
  shows "\<exists>s'. run_steps (\<lambda>e. dllk_step True masnd (env, n, e))
         (replicate k kNmtEventDllMeAsndTimeout) s = Some s' \<and>
     unat (prescaleCycleCount s') = k mod unat (prescaler s) \<and>
     mnFlag1 s' = mnFlag1 s XOR (if odd (k div unat (prescaler s)) then PLK_FRAME_FLAG1_PS else 0) \<and>
     curLastSoaReq s' = (curLastSoaReq s + k) mod 3"
  using asnd_timeouts_run [OF assms] by blast

theorem mn_cycle_bookkeeping_witness:
  "\<exists>s'. run_steps (\<lambda>e. dllk_step True False (dllk_ok_env, kNmtMsOperational, e))
         (replicate 7 kNmtEventDllMeAsndTimeout) (dllk_example kDllMsWaitSocTrig) = Some s' \<and>
     mnFlag1 s' = 0x40 \<and> curLastSoaReq s' = 1"
proof -
  have ex: "prescaler (dllk_example d) = 2" "prescaleCycleCount (dllk_example d) = 0"
    "mnFlag1 (dllk_example d) = 0" "curLastSoaReq (dllk_example d) = 0" for d
    by (simp_all add: dllk_example_def)
  let ?s = "dllk_example kDllMsWaitSocTrig"
  have h: "ms_full kNmtMsOperational" "0 < prescaler ?s" "prescaleCycleCount ?s = 0"
    by (simp_all add: ms_full_def ex)
  obtain s' where run: "run_steps (\<lambda>e. dllk_step True False (dllk_ok_env, kNmtMsOperational, e))
      (replicate 7 kNmtEventDllMeAsndTimeout) ?s = Some s'"
    and flag: "mnFlag1 s' = mnFlag1 ?s XOR
      (if odd (7 div unat (prescaler ?s)) then PLK_FRAME_FLAG1_PS else 0)"
    and slot: "curLastSoaReq s' = (curLastSoaReq ?s + 7) mod 3"
    using mn_cycle_bookkeeping [OF h(1) dllk_example_inv h(2, 3), of False dllk_ok_env 7] by blast
  have "mnFlag1 s' = 0x40" using flag unfolding ex by simp
  moreover have "curLastSoaReq s' = 1" using slot unfolding ex by simp
  ultimately show ?thesis using run by (intro exI [of _ s'] conjI)
qed

text \<open>
  C29: The reduced cycle of a booting managing node. The first \<^verbatim>\<open>C_DLL_PREOP1_START_CYCLES\<close>
  SoA frames invite no node, every later one does, up to the wrap-around of the 32-bit counter,
  after which ten SoA frames without invitation follow again.
\<close>

theorem mn_preop1_invitations:
  assumes "dllk_inv s" and "dllState s = kDllMsNonCyclic" and "cycleCount s = 0"
    and "soa_ok env" and "asnd_calls_ok env"
  shows "\<exists>s'. run_steps (\<lambda>e. dllk_step True masnd (env, kNmtMsPreOperational1, e))
         (replicate k kNmtEventDllMeSocTrig) s = Some s' \<and>
     soa_invitations (dllk_outs s') =
       soa_invitations (dllk_outs s) @ map (\<lambda>i. 10 \<le> i mod 2 ^ 32) [0..<k]"
  using preop1_soa_run [OF assms] by blast

theorem mn_preop1_invitations_witness:
  "\<exists>s'. run_steps (\<lambda>e. dllk_step True False (dllk_ok_env, kNmtMsPreOperational1, e))
         (replicate 12 kNmtEventDllMeSocTrig) (dllk_example kDllMsNonCyclic) = Some s' \<and>
     soa_invitations (dllk_outs s') = [False, False, False, False, False, False, False, False, False, False,
       True, True]"
proof -
  let ?s = "dllk_example kDllMsNonCyclic"
  have h: "dllState ?s = kDllMsNonCyclic" "cycleCount ?s = 0" "soa_invitations (dllk_outs ?s) = []"
    by (simp_all add: dllk_example_def)
  have m: "map (\<lambda>i. 10 \<le> i mod (2::nat) ^ 32) [0..<12] = [False, False, False, False, False, False, False, False, False, False,
       True, True]"
    by (simp add: upt_rec)
  obtain s' where run: "run_steps (\<lambda>e. dllk_step True False (dllk_ok_env, kNmtMsPreOperational1, e))
         (replicate 12 kNmtEventDllMeSocTrig) ?s = Some s'"
    and inv: "soa_invitations (dllk_outs s') =
       soa_invitations (dllk_outs ?s) @ map (\<lambda>i. 10 \<le> i mod 2 ^ 32) [0..<12]"
    using mn_preop1_invitations [OF dllk_example_inv h(1, 2) dllk_ok_env_ok, of False 12] by blast
  from inv have "soa_invitations (dllk_outs s') = [False, False, False, False, False, False, False, False, False, False,
       True, True]"
    unfolding h m append_Nil .
  with run show ?thesis by (intro exI [of _ s'] conjI)
qed

end
