(* ===== verification/Errhndk.thy ===== *)
theory Errhndk
  imports Oplk_Types
begin

text \<open>
  The kernel error handler (\<^verbatim>\<open>stack/src/kernel/errhnd/errhndk.c\<close>) on the error objects of its
  local abstraction layer (\<^verbatim>\<open>errhndkcal-local.c\<close>). \<open>tErrHndkInstance\<close> holds the instance, the
  global error objects and, in \<open>errhndk_outs\<close>, the events it has posted and the nodes it has
  removed, in order. What posting answers is the argument \<open>env\<close>, a function of the calls so
  far and the call. \<open>mn\<close> is the switch \<^verbatim>\<open>CONFIG_INCLUDE_NMT_MN\<close>. The per-node operations index
  tables of 254 entries; an index outside them is \<^term>\<open>None\<close>.
\<close>

unbundle bit_operations_syntax

section \<open>State\<close>

record tErrorObject =
  cumulativeCnt :: u32
  thresholdCnt :: u32
  threshold :: u32

record tErrHndObjects =
  cnLossSoc :: tErrorObject
  cnLossPreq :: tErrorObject
  cnCrcErr :: tErrorObject
  mnCrcErr :: tErrorObject
  mnCycTimeExceed :: tErrorObject
  aMnCnLossPres :: "tErrorObject list"

datatype tCnLossPresEvent =
    ERRORHANDLERK_CN_LOSS_PRES_EVENT_NONE
  | ERRORHANDLERK_CN_LOSS_PRES_EVENT_OCC
  | ERRORHANDLERK_CN_LOSS_PRES_EVENT_THR

datatype errhndk_out =
    OutHistory tErrHistoryEntry      \<comment> \<open>\<^verbatim>\<open>kEventTypeHistoryEntry\<close> to the API\<close>
  | OutNmtEvent tNmtEvent            \<comment> \<open>\<^verbatim>\<open>kEventTypeNmtEvent\<close> to the NMT kernel module\<close>
  | OutHeartbeat tHeartbeatEvent     \<comment> \<open>\<^verbatim>\<open>kEventTypeHeartbeat\<close> to the NMT MN module\<close>
  | OutDeleteNode nat                \<comment> \<open>\<^verbatim>\<open>dllk_deleteNode\<close> of an isochronous node\<close>

record tErrHndkInstance =
  errEvents :: u32                   \<comment> \<open>\<^verbatim>\<open>instance_l.dllErrorEvents\<close>\<close>
  aMnCnLossPresEvent :: "tCnLossPresEvent list"
  errorObjects :: tErrHndObjects     \<comment> \<open>\<^verbatim>\<open>errhndk_errorObjects_g\<close>\<close>
  errhndk_outs :: "errhndk_out list"

type_synonym errhndk_env = "errhndk_out list \<Rightarrow> errhndk_out \<Rightarrow> tOplkError"

abbreviation NUM_DLL_MNCN_LOSSPRES_OBJS :: nat where "NUM_DLL_MNCN_LOSSPRES_OBJS \<equiv> 254"
abbreviation ERR_MN_CRC :: u32 where "ERR_MN_CRC \<equiv> 0x1"
abbreviation ERR_MN_CYCTIMEEXCEED :: u32 where "ERR_MN_CYCTIMEEXCEED \<equiv> 0x4"
abbreviation ERR_MN_CN_LOSS_PRES :: u32 where "ERR_MN_CN_LOSS_PRES \<equiv> 0x80"
abbreviation ERR_CN_LOSS_SOC :: u32 where "ERR_CN_LOSS_SOC \<equiv> 0x800"
abbreviation ERR_CN_LOSS_PREQ :: u32 where "ERR_CN_LOSS_PREQ \<equiv> 0x2000"
abbreviation ERR_CN_RECVD_PREQ :: u32 where "ERR_CN_RECVD_PREQ \<equiv> 0x4000"
abbreviation ERR_CN_CRC :: u32 where "ERR_CN_CRC \<equiv> 0x10000"
abbreviation ERR_INVALID_FORMAT :: u32 where "ERR_INVALID_FORMAT \<equiv> 0x200000"
abbreviation E_DLL_CRC_TH :: nat where "E_DLL_CRC_TH \<equiv> 0x8164"
abbreviation E_DLL_CYCLE_EXCEED :: nat where "E_DLL_CYCLE_EXCEED \<equiv> 0x8232"
abbreviation E_DLL_CYCLE_EXCEED_TH :: nat where "E_DLL_CYCLE_EXCEED_TH \<equiv> 0x8233"
abbreviation E_DLL_INVALID_FORMAT :: nat where "E_DLL_INVALID_FORMAT \<equiv> 0x8241"
abbreviation E_DLL_LOSS_PREQ_TH :: nat where "E_DLL_LOSS_PREQ_TH \<equiv> 0x8242"
abbreviation E_DLL_LOSS_PRES_TH :: nat where "E_DLL_LOSS_PRES_TH \<equiv> 0x8243"
abbreviation E_DLL_LOSS_SOC_TH :: nat where "E_DLL_LOSS_SOC_TH \<equiv> 0x8245"

section \<open>The error objects\<close>

definition set_counters :: "u32 \<Rightarrow> u32 \<Rightarrow> tErrorObject \<Rightarrow> tErrorObject" where
  "set_counters cum thrCnt obj = obj\<lparr>cumulativeCnt := cum, thresholdCnt := thrCnt\<rparr>"

definition get_error :: "tErrorObject \<Rightarrow> u32 \<times> u32 \<times> u32" where
  "get_error obj = (cumulativeCnt obj, thresholdCnt obj, threshold obj)"

definition errhndkcal_init :: "tErrHndkInstance \<Rightarrow> tErrHndkInstance" where
  "errhndkcal_init s =
     (let z = \<lparr>cumulativeCnt = 0, thresholdCnt = 0, threshold = 0\<rparr>
      in s\<lparr>errorObjects := \<lparr>cnLossSoc = z, cnLossPreq = z, cnCrcErr = z, mnCrcErr = z,
             mnCycTimeExceed = z, aMnCnLossPres = replicate NUM_DLL_MNCN_LOSSPRES_OBJS z\<rparr>\<rparr>)"

definition errhndkcal_getCnLossSocError :: "tErrHndkInstance \<Rightarrow> u32 \<times> u32 \<times> u32" where
  "errhndkcal_getCnLossSocError s = get_error (cnLossSoc (errorObjects s))"

definition errhndkcal_getCnLossPreqError :: "tErrHndkInstance \<Rightarrow> u32 \<times> u32 \<times> u32" where
  "errhndkcal_getCnLossPreqError s = get_error (cnLossPreq (errorObjects s))"

definition errhndkcal_getCnCrcError :: "tErrHndkInstance \<Rightarrow> u32 \<times> u32 \<times> u32" where
  "errhndkcal_getCnCrcError s = get_error (cnCrcErr (errorObjects s))"

definition errhndkcal_getMnCrcError :: "tErrHndkInstance \<Rightarrow> u32 \<times> u32 \<times> u32" where
  "errhndkcal_getMnCrcError s = get_error (mnCrcErr (errorObjects s))"

definition errhndkcal_getMnCycTimeExceedError :: "tErrHndkInstance \<Rightarrow> u32 \<times> u32 \<times> u32" where
  "errhndkcal_getMnCycTimeExceedError s = get_error (mnCycTimeExceed (errorObjects s))"

definition errhndkcal_getMnCnLossPresError ::
  "nat \<Rightarrow> tErrHndkInstance \<Rightarrow> (u32 \<times> u32 \<times> u32) option" where
  "errhndkcal_getMnCnLossPresError idx s =
     (if idx < length (aMnCnLossPres (errorObjects s))
      then Some (get_error (aMnCnLossPres (errorObjects s) ! idx)) else None)"

definition errhndkcal_setCnLossSocCounters ::
  "u32 \<Rightarrow> u32 \<Rightarrow> tErrHndkInstance \<Rightarrow> tErrHndkInstance" where
  "errhndkcal_setCnLossSocCounters cum thrCnt s =
     s\<lparr>errorObjects := (errorObjects s)
        \<lparr>cnLossSoc := set_counters cum thrCnt (cnLossSoc (errorObjects s))\<rparr>\<rparr>"

definition errhndkcal_setCnLossPreqCounters ::
  "u32 \<Rightarrow> u32 \<Rightarrow> tErrHndkInstance \<Rightarrow> tErrHndkInstance" where
  "errhndkcal_setCnLossPreqCounters cum thrCnt s =
     s\<lparr>errorObjects := (errorObjects s)
        \<lparr>cnLossPreq := set_counters cum thrCnt (cnLossPreq (errorObjects s))\<rparr>\<rparr>"

definition errhndkcal_setMnCrcCounters ::
  "u32 \<Rightarrow> u32 \<Rightarrow> tErrHndkInstance \<Rightarrow> tErrHndkInstance" where
  "errhndkcal_setMnCrcCounters cum thrCnt s =
     s\<lparr>errorObjects := (errorObjects s)
        \<lparr>mnCrcErr := set_counters cum thrCnt (mnCrcErr (errorObjects s))\<rparr>\<rparr>"

definition errhndkcal_setMnCycTimeExceedCounters ::
  "u32 \<Rightarrow> u32 \<Rightarrow> tErrHndkInstance \<Rightarrow> tErrHndkInstance" where
  "errhndkcal_setMnCycTimeExceedCounters cum thrCnt s =
     s\<lparr>errorObjects := (errorObjects s)
        \<lparr>mnCycTimeExceed := set_counters cum thrCnt (mnCycTimeExceed (errorObjects s))\<rparr>\<rparr>"

definition errhndkcal_setMnCnLossPresCounters ::
  "nat \<Rightarrow> u32 \<Rightarrow> u32 \<Rightarrow> tErrHndkInstance \<Rightarrow> tErrHndkInstance option" where
  "errhndkcal_setMnCnLossPresCounters idx cum thrCnt s =
     (let objs = aMnCnLossPres (errorObjects s)
      in if idx < length objs
         then Some (s\<lparr>errorObjects := (errorObjects s)
           \<lparr>aMnCnLossPres := objs[idx := set_counters cum thrCnt (objs ! idx)]\<rparr>\<rparr>)
         else None)"

definition errhndkcal_setLossSocThresholdCnt :: "u32 \<Rightarrow> tErrHndkInstance \<Rightarrow> tErrHndkInstance" where
  "errhndkcal_setLossSocThresholdCnt thrCnt s =
     s\<lparr>errorObjects := (errorObjects s)
        \<lparr>cnLossSoc := (cnLossSoc (errorObjects s))\<lparr>thresholdCnt := thrCnt\<rparr>\<rparr>\<rparr>"

definition errhndkcal_setLossPreqThresholdCnt :: "u32 \<Rightarrow> tErrHndkInstance \<Rightarrow> tErrHndkInstance" where
  "errhndkcal_setLossPreqThresholdCnt thrCnt s =
     s\<lparr>errorObjects := (errorObjects s)
        \<lparr>cnLossPreq := (cnLossPreq (errorObjects s))\<lparr>thresholdCnt := thrCnt\<rparr>\<rparr>\<rparr>"

definition errhndkcal_setMnCrcThresholdCnt :: "u32 \<Rightarrow> tErrHndkInstance \<Rightarrow> tErrHndkInstance" where
  "errhndkcal_setMnCrcThresholdCnt thrCnt s =
     s\<lparr>errorObjects := (errorObjects s)
        \<lparr>mnCrcErr := (mnCrcErr (errorObjects s))\<lparr>thresholdCnt := thrCnt\<rparr>\<rparr>\<rparr>"

definition errhndkcal_setMnCnLossPresThresholdCnt ::
  "nat \<Rightarrow> u32 \<Rightarrow> tErrHndkInstance \<Rightarrow> tErrHndkInstance option" where
  "errhndkcal_setMnCnLossPresThresholdCnt idx thrCnt s =
     (let objs = aMnCnLossPres (errorObjects s)
      in if idx < length objs
         then Some (s\<lparr>errorObjects := (errorObjects s)
           \<lparr>aMnCnLossPres := objs[idx := (objs ! idx)\<lparr>thresholdCnt := thrCnt\<rparr>]\<rparr>\<rparr>)
         else None)"

section \<open>Posting events\<close>

definition errhndk_call ::
  "errhndk_env \<Rightarrow> errhndk_out \<Rightarrow> tErrHndkInstance \<Rightarrow> tOplkError \<times> tErrHndkInstance" where
  "errhndk_call env out s =
     (env (errhndk_outs s) out, s\<lparr>errhndk_outs := errhndk_outs s @ [out]\<rparr>)"

definition postHeartbeatEvent ::
  "errhndk_env \<Rightarrow> nat \<Rightarrow> tNmtState \<Rightarrow> nat \<Rightarrow> tErrHndkInstance \<Rightarrow> tOplkError \<times> tErrHndkInstance" where
  "postHeartbeatEvent env node n code =
     errhndk_call env (OutHeartbeat \<lparr>hbNodeId = node, hbNmtState = n, hbErrorCode = code\<rparr>)"

definition postNmtEvent ::
  "errhndk_env \<Rightarrow> tNmtEvent \<Rightarrow> tErrHndkInstance \<Rightarrow> tOplkError \<times> tErrHndkInstance" where
  "postNmtEvent env e = errhndk_call env (OutNmtEvent e)"

definition generateHistoryEntry ::
  "errhndk_env \<Rightarrow> nat \<Rightarrow> nat \<Rightarrow> tErrHndkInstance \<Rightarrow> tOplkError \<times> tErrHndkInstance" where
  "generateHistoryEntry env code time =
     errhndk_call env (OutHistory \<lparr>histErrorCode = code, histTimeStamp = time,
       histAddInfo = AddInfoZero\<rparr>)"

definition generateHistoryEntryNodeId ::
  "errhndk_env \<Rightarrow> nat \<Rightarrow> nat \<Rightarrow> nat \<Rightarrow> tErrHndkInstance \<Rightarrow> tOplkError \<times> tErrHndkInstance" where
  "generateHistoryEntryNodeId env code time node =
     errhndk_call env (OutHistory \<lparr>histErrorCode = code, histTimeStamp = time,
       histAddInfo = AddInfoNode (node mod 256)\<rparr>)"

definition generateHistoryEntryWithError ::
  "errhndk_env \<Rightarrow> nat \<Rightarrow> nat \<Rightarrow> tOplkError \<Rightarrow> tErrHndkInstance \<Rightarrow> tOplkError \<times> tErrHndkInstance"
  where
  "generateHistoryEntryWithError env code time err =
     errhndk_call env (OutHistory \<lparr>histErrorCode = code, histTimeStamp = time,
       histAddInfo = AddInfoError err\<rparr>)"

section \<open>Error handlers\<close>

text \<open>
  Each handler gets the event's \<^verbatim>\<open>netTime\<close> and its \<^verbatim>\<open>tEventDllError\<close> argument. Results that the
  code drops are the first component of a pair that is not used.
\<close>

definition handleCnLossSoc ::
  "errhndk_env \<Rightarrow> nat \<Rightarrow> tEventDllError \<Rightarrow> tErrHndkInstance \<Rightarrow> tOplkError \<times> tErrHndkInstance" where
  "handleCnLossSoc env time e s =
     (if dllErrorEvents e AND ERR_CN_LOSS_SOC = 0 then (kErrorOk, s)
      else
        let (cum, thrCnt, thr) = errhndkcal_getCnLossSocError s; cum = cum + 1
        in if thr > 0 then
             let thrCnt = thrCnt + 8;
                 s = (if thr \<le> thrCnt
                      then snd (postNmtEvent env kNmtEventNmtCycleError
                             (snd (generateHistoryEntry env E_DLL_LOSS_SOC_TH time s)))
                      else s);
                 s = s\<lparr>errEvents := errEvents s OR ERR_CN_LOSS_SOC\<rparr>
             in (kErrorOk, errhndkcal_setCnLossSocCounters cum thrCnt s)
           else (kErrorOk, errhndkcal_setCnLossSocCounters cum thrCnt s))"

definition handleCnLossPreq ::
  "errhndk_env \<Rightarrow> nat \<Rightarrow> tEventDllError \<Rightarrow> tErrHndkInstance \<Rightarrow> tOplkError \<times> tErrHndkInstance" where
  "handleCnLossPreq env time e s =
     (if dllErrorEvents e AND ERR_CN_LOSS_PREQ = 0 then (kErrorOk, s)
      else
        let (cum, thrCnt, thr) = errhndkcal_getCnLossPreqError s; cum = cum + 1
        in if thr > 0 then
             let thrCnt = thrCnt + 8
             in if thr \<le> thrCnt then
                  let (ret, s) = generateHistoryEntry env E_DLL_LOSS_PREQ_TH time s
                  in if ret \<noteq> kErrorOk then (ret, errhndkcal_setCnLossPreqCounters cum thrCnt s)
                     else (kErrorOk, errhndkcal_setCnLossPreqCounters cum thrCnt
                             (snd (postNmtEvent env kNmtEventNmtCycleError s)))
                else (kErrorOk, errhndkcal_setCnLossPreqCounters cum thrCnt s)
           else (kErrorOk, errhndkcal_setCnLossPreqCounters cum thrCnt s))"

definition handleCorrectPreq :: "tEventDllError \<Rightarrow> tErrHndkInstance \<Rightarrow> tErrHndkInstance" where
  "handleCorrectPreq e s =
     (let thrCnt = thresholdCnt (cnLossPreq (errorObjects s))
      in if thrCnt = 0 \<or> dllErrorEvents e AND ERR_CN_RECVD_PREQ = 0 then s
         else errhndkcal_setLossPreqThresholdCnt (thrCnt - 1) s)"

definition handleCnCrc ::
  "errhndk_env \<Rightarrow> nat \<Rightarrow> tEventDllError \<Rightarrow> tErrHndkInstance \<Rightarrow> tOplkError \<times> tErrHndkInstance" where
  "handleCnCrc env time e s =
     (if dllErrorEvents e AND ERR_CN_CRC = 0 then (kErrorOk, s)
      else
        let (cum, thrCnt, thr) = errhndkcal_getCnCrcError s; cum = cum + 1
        in if thr > 0 then
             let thrCnt = thrCnt + 8;
                 (ret, s) = (if thr \<le> thrCnt then generateHistoryEntry env E_DLL_CRC_TH time s
                             else (kErrorOk, s))
             in if ret \<noteq> kErrorOk then (ret, errhndkcal_setCnLossPreqCounters cum thrCnt s)
                else
                  let s = (if thr \<le> thrCnt then snd (postNmtEvent env kNmtEventNmtCycleError s) else s);
                      s = s\<lparr>errEvents := errEvents s OR ERR_CN_CRC\<rparr>
                  in (kErrorOk, errhndkcal_setCnLossPreqCounters cum thrCnt s)
           else (kErrorOk, errhndkcal_setCnLossPreqCounters cum thrCnt s))"

definition handleInvalidFormat ::
  "bool \<Rightarrow> errhndk_env \<Rightarrow> nat \<Rightarrow> tEventDllError \<Rightarrow> tErrHndkInstance \<Rightarrow> tOplkError \<times> tErrHndkInstance"
  where
  "handleInvalidFormat mn env time e s =
     (if dllErrorEvents e AND ERR_INVALID_FORMAT = 0 then (kErrorOk, s)
      else ok_then (generateHistoryEntryNodeId env E_DLL_INVALID_FORMAT time (dllErrNodeId e) s)
        (\<lambda>s.
          if mn \<and> kNmtMsNotActive \<le> dllErrNmtState e then
            if dllErrNodeId e \<noteq> 0 then
              let (_, s) = errhndk_call env (OutDeleteNode (dllErrNodeId e)) s;
                  (_, s) = postHeartbeatEvent env (dllErrNodeId e) kNmtCsNotActive
                             E_DLL_INVALID_FORMAT s
              in (kErrorOk, s)
            else (kErrorOk, s)
          else (kErrorOk, snd (postNmtEvent env kNmtEventInternComError s))))"

definition handleMnCrc ::
  "errhndk_env \<Rightarrow> nat \<Rightarrow> tEventDllError \<Rightarrow> tErrHndkInstance \<Rightarrow> tOplkError \<times> tErrHndkInstance" where
  "handleMnCrc env time e s =
     (if dllErrorEvents e AND ERR_MN_CRC = 0 then (kErrorOk, s)
      else
        let (cum, thrCnt, thr) = errhndkcal_getMnCrcError s; cum = cum + 1
        in if thr > 0 then
             let thrCnt = thrCnt + 8;
                 (ret, s) = (if thr \<le> thrCnt then generateHistoryEntry env E_DLL_CRC_TH time s
                             else (kErrorOk, s))
             in if ret \<noteq> kErrorOk then (ret, errhndkcal_setMnCrcCounters cum thrCnt s)
                else
                  let s = (if thr \<le> thrCnt then snd (postNmtEvent env kNmtEventNmtCycleError s) else s);
                      s = s\<lparr>errEvents := errEvents s OR ERR_MN_CRC\<rparr>
                  in (kErrorOk, errhndkcal_setMnCrcCounters cum thrCnt s)
           else (kErrorOk, errhndkcal_setMnCrcCounters cum thrCnt s))"

definition handleMnCycTimeExceed ::
  "errhndk_env \<Rightarrow> nat \<Rightarrow> tEventDllError \<Rightarrow> tErrHndkInstance \<Rightarrow> tOplkError \<times> tErrHndkInstance" where
  "handleMnCycTimeExceed env time e s =
     (if dllErrorEvents e AND ERR_MN_CYCTIMEEXCEED = 0 then (kErrorOk, s)
      else
        let (cum, thrCnt, thr) = errhndkcal_getMnCycTimeExceedError s; cum = cum + 1
        in if thr > 0 then
             let thrCnt = thrCnt + 8
             in if thr \<le> thrCnt then
                  let (ret, s) = generateHistoryEntryWithError env E_DLL_CYCLE_EXCEED_TH time
                                   (dllErrOplkError e) s
                  in if ret \<noteq> kErrorOk
                     then (ret, errhndkcal_setMnCycTimeExceedCounters thrCnt cum s)
                     else
                       let s = snd (postNmtEvent env kNmtEventNmtCycleError s);
                           s = s\<lparr>errEvents := errEvents s OR ERR_MN_CYCTIMEEXCEED\<rparr>
                       in (ret, errhndkcal_setMnCycTimeExceedCounters cum thrCnt s)
                else
                  let (ret, s) = generateHistoryEntryWithError env E_DLL_CYCLE_EXCEED time
                                   (dllErrOplkError e) s
                  in if ret \<noteq> kErrorOk
                     then (ret, errhndkcal_setMnCycTimeExceedCounters cum thrCnt s)
                     else
                       let s = s\<lparr>errEvents := errEvents s OR ERR_MN_CYCTIMEEXCEED\<rparr>
                       in (ret, errhndkcal_setMnCycTimeExceedCounters cum thrCnt s)
           else (kErrorOk, errhndkcal_setMnCycTimeExceedCounters cum thrCnt s))"

definition handleMnCnLossPres ::
  "errhndk_env \<Rightarrow> nat \<Rightarrow> tEventDllError \<Rightarrow> tErrHndkInstance \<Rightarrow>
    (tOplkError \<times> tErrHndkInstance) option" where
  "handleMnCnLossPres env time e s =
     (if dllErrorEvents e AND ERR_MN_CN_LOSS_PRES = 0 then Some (kErrorOk, s)
      else
        let idx = sub32 (dllErrNodeId e) 1
        in case errhndkcal_getMnCnLossPresError idx s of
             None \<Rightarrow> None
           | Some (cum, thrCnt, thr) \<Rightarrow>
               if length (aMnCnLossPresEvent s) \<le> idx then None
               else if aMnCnLossPresEvent s ! idx \<noteq> ERRORHANDLERK_CN_LOSS_PRES_EVENT_NONE
               then Some (kErrorOk, s)
               else
                 let cum = cum + 1
                 in if thr > 0 then
                      let thrCnt = thrCnt + 8
                      in if thr \<le> thrCnt then
                           let s = s\<lparr>aMnCnLossPresEvent := (aMnCnLossPresEvent s)
                                      [idx := ERRORHANDLERK_CN_LOSS_PRES_EVENT_THR]\<rparr>;
                               (ret, s) = generateHistoryEntryNodeId env E_DLL_LOSS_PRES_TH time
                                            (dllErrNodeId e) s
                           in if ret \<noteq> kErrorOk
                              then map_option (\<lambda>s. (ret, s))
                                     (errhndkcal_setMnCnLossPresCounters idx cum thrCnt s)
                              else
                                let (_, s) = errhndk_call env (OutDeleteNode (dllErrNodeId e)) s;
                                    (_, s) = postHeartbeatEvent env (dllErrNodeId e) kNmtCsNotActive
                                               E_DLL_LOSS_PRES_TH s
                                in map_option (\<lambda>s. (kErrorOk, s))
                                     (errhndkcal_setMnCnLossPresCounters idx cum thrCnt s)
                         else
                           let s = s\<lparr>aMnCnLossPresEvent := (aMnCnLossPresEvent s)
                                      [idx := ERRORHANDLERK_CN_LOSS_PRES_EVENT_OCC]\<rparr>
                           in map_option (\<lambda>s. (kErrorOk, s))
                                (errhndkcal_setMnCnLossPresCounters idx cum thrCnt s)
                    else map_option (\<lambda>s. (kErrorOk, s))
                           (errhndkcal_setMnCnLossPresCounters idx cum thrCnt s))"

definition handleDllErrors ::
  "bool \<Rightarrow> errhndk_env \<Rightarrow> nat \<Rightarrow> tEventDllError \<Rightarrow> tErrHndkInstance \<Rightarrow>
    (tOplkError \<times> tErrHndkInstance) option" where
  "handleDllErrors mn env time e s =
     (let r = ok_then (handleCnLossSoc env time e s) (\<lambda>s.
              ok_then (handleCnLossPreq env time e s) (\<lambda>s.
              ok_then (handleCnCrc env time e (handleCorrectPreq e s)) (\<lambda>s.
              ok_then (handleInvalidFormat mn env time e s) (\<lambda>s.
              if mn then
                ok_then (handleMnCrc env time e s) (\<lambda>s. handleMnCycTimeExceed env time e s)
              else (kErrorOk, s)))))
      in if mn \<and> fst r = kErrorOk then handleMnCnLossPres env time e (snd r) else Some r)"

section \<open>Interface functions\<close>

definition errhndk_init :: "tErrHndkInstance \<Rightarrow> tOplkError \<times> tErrHndkInstance" where
  "errhndk_init s = (kErrorOk, errhndkcal_init (s\<lparr>errEvents := 0\<rparr>))"

definition errhndk_process ::
  "bool \<Rightarrow> errhndk_env \<Rightarrow> tEvent \<Rightarrow> tErrHndkInstance \<Rightarrow> (tOplkError \<times> tErrHndkInstance) option" where
  "errhndk_process mn env ev s =
     (if eventType ev = kEventTypeDllError then
        (case pEventArg ev of
           ArgDllError e \<Rightarrow> handleDllErrors mn env (netTime ev) e s
         | _ \<Rightarrow> None)
      else Some (kErrorInvalidEvent, s))"

text \<open>
  The loop over the node list of the last cycle. The list is an array of bytes that ends with
  \<^verbatim>\<open>C_ADR_INVALID\<close>; running off its end is \<^term>\<open>None\<close>.
\<close>

fun decrementCnNodes :: "nat list \<Rightarrow> tErrHndkInstance \<Rightarrow> tErrHndkInstance option" where
  "decrementCnNodes [] s = None"
| "decrementCnNodes (cnId # ids) s =
     (if cnId = 0 then Some s
      else
        let idx = sub32 cnId 1
        in if idx < NUM_DLL_MNCN_LOSSPRES_OBJS then
             if idx < length (aMnCnLossPresEvent s) \<and> idx < length (aMnCnLossPres (errorObjects s)) then
               if aMnCnLossPresEvent s ! idx = ERRORHANDLERK_CN_LOSS_PRES_EVENT_NONE then
                 let thrCnt = thresholdCnt (aMnCnLossPres (errorObjects s) ! idx)
                 in if thrCnt > 0 then
                      (case errhndkcal_setMnCnLossPresThresholdCnt idx (thrCnt - 1) s of
                         None \<Rightarrow> None
                       | Some s \<Rightarrow> decrementCnNodes ids s)
                    else decrementCnNodes ids s
               else if aMnCnLossPresEvent s ! idx = ERRORHANDLERK_CN_LOSS_PRES_EVENT_OCC then
                 decrementCnNodes ids
                   (s\<lparr>aMnCnLossPresEvent := (aMnCnLossPresEvent s)
                       [idx := ERRORHANDLERK_CN_LOSS_PRES_EVENT_NONE]\<rparr>)
               else decrementCnNodes ids s
             else None
           else decrementCnNodes ids s)"

definition decrementMnCounters :: "nat list \<Rightarrow> tErrHndkInstance \<Rightarrow> tErrHndkInstance option" where
  "decrementMnCounters ids s =
     (case decrementCnNodes ids s of
        None \<Rightarrow> None
      | Some s \<Rightarrow>
          let s = (if errEvents s AND ERR_MN_CRC = 0 then
                     let thrCnt = thresholdCnt (mnCrcErr (errorObjects s))
                     in if thrCnt > 0 then errhndkcal_setMnCrcThresholdCnt (thrCnt - 1) s else s
                   else s);
              s = (if errEvents s AND ERR_MN_CYCTIMEEXCEED = 0 then
                     let thrCnt = thresholdCnt (mnCycTimeExceed (errorObjects s))
                     in if thrCnt > 0 then errhndkcal_setMnCrcThresholdCnt (thrCnt - 1) s else s
                   else s)
          in Some s)"

definition decrementCnCounters :: "tErrHndkInstance \<Rightarrow> tErrHndkInstance" where
  "decrementCnCounters s =
     (let s = (if errEvents s AND ERR_CN_LOSS_SOC = 0 then
                 let thrCnt = thresholdCnt (cnLossSoc (errorObjects s))
                 in if thrCnt > 0 then errhndkcal_setLossSocThresholdCnt (thrCnt - 1) s else s
               else s)
      in if errEvents s AND ERR_CN_CRC = 0 then
           let thrCnt = thresholdCnt (cnCrcErr (errorObjects s))
           in if thrCnt > 0 then errhndkcal_setLossSocThresholdCnt (thrCnt - 1) s else s
         else s)"

definition errhndk_decrementCounters ::
  "bool \<Rightarrow> bool \<Rightarrow> nat list \<Rightarrow> tErrHndkInstance \<Rightarrow> (tOplkError \<times> tErrHndkInstance) option" where
  "errhndk_decrementCounters mn fMN ids s =
     (case (if mn \<and> fMN then decrementMnCounters ids s else Some (decrementCnCounters s)) of
        None \<Rightarrow> None
      | Some s \<Rightarrow> Some (kErrorOk, s\<lparr>errEvents := 0\<rparr>))"

definition errhndk_resetCnError :: "nat \<Rightarrow> tErrHndkInstance \<Rightarrow> tOplkError \<times> tErrHndkInstance" where
  "errhndk_resetCnError node s =
     (let idx = sub32 node 1
      in if NUM_DLL_MNCN_LOSSPRES_OBJS \<le> idx then (kErrorInvalidNodeId, s)
         else (kErrorOk, s\<lparr>aMnCnLossPresEvent :=
                 (aMnCnLossPresEvent s)[idx := ERRORHANDLERK_CN_LOSS_PRES_EVENT_NONE]\<rparr>))"

section \<open>Lemmas\<close>

lemmas errhndkcal_defs [step_defs] =
  errhndkcal_getCnLossSocError_def errhndkcal_getCnLossPreqError_def errhndkcal_getCnCrcError_def
  errhndkcal_getMnCrcError_def errhndkcal_getMnCycTimeExceedError_def
  errhndkcal_getMnCnLossPresError_def errhndkcal_setCnLossSocCounters_def
  errhndkcal_setCnLossPreqCounters_def errhndkcal_setMnCrcCounters_def
  errhndkcal_setMnCycTimeExceedCounters_def errhndkcal_setMnCnLossPresCounters_def
  errhndkcal_setLossSocThresholdCnt_def errhndkcal_setLossPreqThresholdCnt_def
  errhndkcal_setMnCrcThresholdCnt_def errhndkcal_setMnCnLossPresThresholdCnt_def
  get_error_def set_counters_def

lemmas errhndk_post_defs [step_defs] =
  errhndk_call_def postHeartbeatEvent_def postNmtEvent_def generateHistoryEntry_def
  generateHistoryEntryNodeId_def generateHistoryEntryWithError_def

text \<open>How often node \<open>n\<close> has been removed from the isochronous phase.\<close>

definition removals :: "nat \<Rightarrow> tErrHndkInstance \<Rightarrow> nat" where
  "removals n s = length (filter (\<lambda>out. out = OutDeleteNode n) (errhndk_outs s))"

text \<open>
  What every handler leaves alone: the tables of the nodes, the CRC object of the controlled
  node, and the removals of node \<open>n\<close>.
\<close>

definition quiet :: "nat \<Rightarrow> tErrHndkInstance \<Rightarrow> tErrHndkInstance \<Rightarrow> bool" where
  "quiet n s s' \<longleftrightarrow> aMnCnLossPresEvent s' = aMnCnLossPresEvent s \<and>
     aMnCnLossPres (errorObjects s') = aMnCnLossPres (errorObjects s) \<and>
     cnCrcErr (errorObjects s') = cnCrcErr (errorObjects s) \<and> removals n s' = removals n s"

lemma quiet_refl [simp]: "quiet n s s"
  by (simp add: quiet_def)

lemma quiet_trans: "quiet n s t \<Longrightarrow> quiet n t u \<Longrightarrow> quiet n s u"
  by (simp add: quiet_def)

lemma quiet_handlers:
  "quiet n s (snd (handleCnLossSoc env time e s))"
  "quiet n s (snd (handleCnLossPreq env time e s))"
  "quiet n s (handleCorrectPreq e s)"
  "quiet n s (snd (handleCnCrc env time e s))"
  "quiet n s (snd (handleMnCrc env time e s))"
  "quiet n s (snd (handleMnCycTimeExceed env time e s))"
  by (simp_all add: quiet_def removals_def handleCnLossSoc_def handleCnLossPreq_def
      handleCorrectPreq_def handleCnCrc_def handleMnCrc_def handleMnCycTimeExceed_def
      step_defs Let_def split_beta)

lemma quiet_invalid_format:
  "dllErrorEvents e AND ERR_INVALID_FORMAT = 0 \<or> dllErrNodeId e \<noteq> n \<Longrightarrow>
     quiet n s (snd (handleInvalidFormat mn env time e s))"
  by (auto simp: quiet_def removals_def handleInvalidFormat_def step_defs Let_def split_beta
      ok_then_def)

text \<open>The handlers before \<^verbatim>\<open>handleMnCnLossPres\<close>, in the code's order.\<close>

definition handleFirst ::
  "bool \<Rightarrow> errhndk_env \<Rightarrow> nat \<Rightarrow> tEventDllError \<Rightarrow> tErrHndkInstance \<Rightarrow> tOplkError \<times> tErrHndkInstance"
  where
  "handleFirst mn env time e s =
     ok_then (handleCnLossSoc env time e s) (\<lambda>s.
     ok_then (handleCnLossPreq env time e s) (\<lambda>s.
     ok_then (handleCnCrc env time e (handleCorrectPreq e s)) (\<lambda>s.
     ok_then (handleInvalidFormat mn env time e s) (\<lambda>s.
     if mn then ok_then (handleMnCrc env time e s) (\<lambda>s. handleMnCycTimeExceed env time e s)
     else (kErrorOk, s)))))"

lemma handleDllErrors_first:
  "handleDllErrors mn env time e s =
     (if mn \<and> fst (handleFirst mn env time e s) = kErrorOk
      then handleMnCnLossPres env time e (snd (handleFirst mn env time e s))
      else Some (handleFirst mn env time e s))"
  by (simp only: handleDllErrors_def handleFirst_def Let_def)

lemma quiet_ok_then:
  "quiet n s (snd r) \<Longrightarrow> (\<And>t. quiet n t (snd (f t))) \<Longrightarrow> quiet n s (snd (ok_then r f))"
  using quiet_trans by (cases r) (fastforce simp: ok_then_def)

lemma quiet_first:
  assumes "dllErrorEvents e AND ERR_INVALID_FORMAT = 0 \<or> dllErrNodeId e \<noteq> n"
  shows "quiet n s (snd (handleFirst mn env time e s))"
  unfolding handleFirst_def
  by (intro quiet_ok_then quiet_handlers quiet_invalid_format [OF assms]
      quiet_trans [OF quiet_handlers(3) quiet_handlers(4)])
    (simp add: quiet_ok_then quiet_handlers)

section \<open>Runs\<close>

datatype errhndk_op =
    OpProcess tEvent
  | OpDecrement bool "nat list" \<comment> \<open>\<^verbatim>\<open>fMN_p\<close> and the node list of the last cycle\<close>
  | OpReset nat

primrec errhndk_step ::
  "bool \<Rightarrow> errhndk_env \<Rightarrow> errhndk_op \<Rightarrow> tErrHndkInstance \<Rightarrow> tErrHndkInstance option" where
  "errhndk_step mn env (OpProcess ev) s = map_option snd (errhndk_process mn env ev s)"
| "errhndk_step mn env (OpDecrement fMN ids) s =
     map_option snd (errhndk_decrementCounters mn fMN ids s)"
| "errhndk_step mn env (OpReset n) s = Some (snd (errhndk_resetCnError n s))"

text \<open>
  Admissible operations: an error event carries its argument and names a node when it reports a
  lost PRes, and a node list ends within the array.
\<close>

primrec op_ok :: "errhndk_op \<Rightarrow> bool" where
  "op_ok (OpProcess ev) \<longleftrightarrow>
     (eventType ev = kEventTypeDllError \<longrightarrow>
       (case pEventArg ev of
          ArgDllError e \<Rightarrow> dllErrorEvents e AND ERR_MN_CN_LOSS_PRES \<noteq> 0 \<longrightarrow>
            1 \<le> dllErrNodeId e \<and> dllErrNodeId e \<le> 254
        | _ \<Rightarrow> False))"
| "op_ok (OpDecrement fMN ids) \<longleftrightarrow> 0 \<in> set ids \<and> list_all (\<lambda>i. i < 256) ids"
| "op_ok (OpReset n) \<longleftrightarrow> True"

definition errhndk_inv :: "tErrHndkInstance \<Rightarrow> bool" where
  "errhndk_inv s \<longleftrightarrow> length (aMnCnLossPresEvent s) = NUM_DLL_MNCN_LOSSPRES_OBJS \<and>
     length (aMnCnLossPres (errorObjects s)) = NUM_DLL_MNCN_LOSSPRES_OBJS"

lemma errhndk_inv_quiet: "errhndk_inv s \<Longrightarrow> quiet n s s' \<Longrightarrow> errhndk_inv s'"
  by (simp add: errhndk_inv_def quiet_def)

text \<open>
  A step as the node tables see it: \<open>removed_step n s s'\<close> says how the state of node \<open>n\<close> and
  the number of its removals can change.
\<close>

definition cn_event :: "nat \<Rightarrow> tErrHndkInstance \<Rightarrow> tCnLossPresEvent" where
  "cn_event n s = aMnCnLossPresEvent s ! (n - 1)"

definition removed_step :: "nat \<Rightarrow> tErrHndkInstance \<Rightarrow> tErrHndkInstance \<Rightarrow> bool" where
  "removed_step n s s' \<longleftrightarrow>
     (cn_event n s = ERRORHANDLERK_CN_LOSS_PRES_EVENT_THR \<longrightarrow>
       cn_event n s' = ERRORHANDLERK_CN_LOSS_PRES_EVENT_THR \<and> removals n s' = removals n s) \<and>
     (cn_event n s \<noteq> ERRORHANDLERK_CN_LOSS_PRES_EVENT_THR \<longrightarrow>
       removals n s' \<le> removals n s +
         of_bool (cn_event n s' = ERRORHANDLERK_CN_LOSS_PRES_EVENT_THR))"

lemma removed_step_quiet: "quiet n s s' \<Longrightarrow> removed_step n s s'"
  by (simp add: removed_step_def quiet_def cn_event_def)

lemma removed_step_quiet_left: "quiet n s t \<Longrightarrow> removed_step n t u \<Longrightarrow> removed_step n s u"
  by (simp add: removed_step_def quiet_def cn_event_def)

lemma lossPres_step:
  assumes inv: "errhndk_inv s" and n: "1 \<le> n" "n \<le> 254"
    and ok: "dllErrorEvents e AND ERR_MN_CN_LOSS_PRES \<noteq> 0 \<longrightarrow>
      1 \<le> dllErrNodeId e \<and> dllErrNodeId e \<le> 254"
  shows "\<exists>r. handleMnCnLossPres env time e s = Some r \<and> errhndk_inv (snd r) \<and> removed_step n s (snd r) \<and>
     cnCrcErr (errorObjects (snd r)) = cnCrcErr (errorObjects s)"
proof (cases "dllErrorEvents e AND ERR_MN_CN_LOSS_PRES = 0")
  case True
  with inv show ?thesis by (simp add: handleMnCnLossPres_def removed_step_quiet)
next
  case False
  with ok have m: "1 \<le> dllErrNodeId e" "dllErrNodeId e \<le> 254" by simp_all
  then have "sub32 (dllErrNodeId e) 1 = dllErrNodeId e - 1" by (intro sub32_eq) simp_all
  moreover have "dllErrNodeId e - 1 = n - 1 \<longleftrightarrow> dllErrNodeId e = n" using m n by arith
  ultimately show ?thesis using False inv m n
    apply (simp add: handleMnCnLossPres_def Let_def step_defs errhndk_inv_def split_beta)
    apply (cases "dllErrNodeId e = n")
    apply (auto simp: removed_step_def cn_event_def removals_def nth_list_update)
    done
qed

lemma handleDllErrors_step:
  assumes inv: "errhndk_inv s"
    and ok: "dllErrorEvents e AND ERR_MN_CN_LOSS_PRES \<noteq> 0 \<longrightarrow>
      1 \<le> dllErrNodeId e \<and> dllErrNodeId e \<le> 254"
  shows "\<exists>r. handleDllErrors mn env time e s = Some r \<and> errhndk_inv (snd r) \<and>
     cnCrcErr (errorObjects (snd r)) = cnCrcErr (errorObjects s)"
    and "\<lbrakk>1 \<le> n; n \<le> 254; dllErrorEvents e AND ERR_INVALID_FORMAT = 0 \<or> dllErrNodeId e \<noteq> n;
      handleDllErrors mn env time e s = Some r\<rbrakk> \<Longrightarrow> removed_step n s (snd r)"
proof -
  let ?h = "handleFirst mn env time e s"
  have "dllErrorEvents e AND ERR_INVALID_FORMAT = 0 \<or> dllErrNodeId e \<noteq> dllErrNodeId e + 1" by simp
  from quiet_first [where n = "dllErrNodeId e + 1", of e s mn env time]
  have q: "quiet (dllErrNodeId e + 1) s (snd ?h)" by simp
  have inv': "errhndk_inv (snd ?h)" using errhndk_inv_quiet [OF inv q] .
  from lossPres_step [OF inv' _ _ ok, of 1 env time] q inv'
  show "\<exists>r. handleDllErrors mn env time e s = Some r \<and> errhndk_inv (snd r) \<and>
     cnCrcErr (errorObjects (snd r)) = cnCrcErr (errorObjects s)"
    by (cases ?h) (auto simp: handleDllErrors_first quiet_def)
  assume n: "1 \<le> n" "n \<le> 254" "dllErrorEvents e AND ERR_INVALID_FORMAT = 0 \<or> dllErrNodeId e \<noteq> n"
    and r: "handleDllErrors mn env time e s = Some r"
  have qn: "quiet n s (snd ?h)" by (rule quiet_first [OF n(3)])
  show "removed_step n s (snd r)"
    using lossPres_step [OF inv' n(1, 2) ok, of env time] r removed_step_quiet [OF qn]
      removed_step_quiet_left [OF qn]
    by (auto simp: handleDllErrors_first split: if_splits)
qed

lemma decrementCnNodes_step:
  assumes "errhndk_inv s" and "0 \<in> set ids" and "list_all (\<lambda>i. i < 256) ids"
  shows "\<exists>s'. decrementCnNodes ids s = Some s' \<and> errhndk_inv s' \<and>
     cnCrcErr (errorObjects s') = cnCrcErr (errorObjects s) \<and>
     mnCycTimeExceed (errorObjects s') = mnCycTimeExceed (errorObjects s) \<and>
     mnCrcErr (errorObjects s') = mnCrcErr (errorObjects s) \<and>
     errhndk_outs s' = errhndk_outs s \<and> errEvents s' = errEvents s \<and>
     (\<forall>i < 254. (aMnCnLossPresEvent s' ! i = ERRORHANDLERK_CN_LOSS_PRES_EVENT_THR) =
       (aMnCnLossPresEvent s ! i = ERRORHANDLERK_CN_LOSS_PRES_EVENT_THR))"
  using assms
proof (induction ids arbitrary: s)
  case Nil
  then show ?case by simp
next
  case (Cons cnId ids)
  show ?case
  proof (cases "cnId = 0")
    case True
    with Cons.prems show ?thesis by simp
  next
    case False
    with Cons.prems have idx: "sub32 cnId 1 = cnId - 1" "1 \<le> cnId" "cnId < 256" "0 \<in> set ids"
      "list_all (\<lambda>i. i < 256) ids"
      by (auto intro: sub32_eq)
    note IH = Cons.IH [OF _ idx(4, 5)]
    show ?thesis using idx(1-3) False Cons.prems(1)
        IH [of s]
        IH [of "s\<lparr>aMnCnLossPresEvent := (aMnCnLossPresEvent s)
            [cnId - 1 := ERRORHANDLERK_CN_LOSS_PRES_EVENT_NONE]\<rparr>"]
        IH [of "s\<lparr>errorObjects := (errorObjects s)\<lparr>aMnCnLossPres := (aMnCnLossPres (errorObjects s))
            [cnId - 1 := (aMnCnLossPres (errorObjects s) ! (cnId - 1))
              \<lparr>thresholdCnt := thresholdCnt (aMnCnLossPres (errorObjects s) ! (cnId - 1)) - 1\<rparr>]\<rparr>\<rparr>"]
      by (auto simp: Let_def step_defs errhndk_inv_def nth_list_update)
  qed
qed

lemma decrement_step:
  assumes inv: "errhndk_inv s" and ids: "0 \<in> set ids" "list_all (\<lambda>i. i < 256) ids"
  shows "\<exists>s'. errhndk_decrementCounters mn fMN ids s = Some (kErrorOk, s') \<and> errhndk_inv s' \<and>
     cnCrcErr (errorObjects s') = cnCrcErr (errorObjects s) \<and>
     (1 \<le> n \<and> n \<le> 254 \<longrightarrow> removed_step n s s')"
proof (cases "mn \<and> fMN")
  case True
  obtain t where t: "decrementCnNodes ids s = Some t" "errhndk_inv t"
    "cnCrcErr (errorObjects t) = cnCrcErr (errorObjects s)" "errhndk_outs t = errhndk_outs s"
    "\<forall>i < 254. (aMnCnLossPresEvent t ! i = ERRORHANDLERK_CN_LOSS_PRES_EVENT_THR) =
       (aMnCnLossPresEvent s ! i = ERRORHANDLERK_CN_LOSS_PRES_EVENT_THR)"
    using decrementCnNodes_step [OF inv ids] by blast
  with True show ?thesis
    by (auto simp: errhndk_decrementCounters_def decrementMnCounters_def Let_def step_defs
        errhndk_inv_def removed_step_def cn_event_def removals_def)
next
  case False
  with inv show ?thesis
    by (auto simp: errhndk_decrementCounters_def decrementCnCounters_def Let_def step_defs
        errhndk_inv_def removed_step_def cn_event_def removals_def)
qed

text \<open>The invariant of the component, and that no operation writes the CRC object.\<close>

definition errhndk_inv_crc :: "tErrorObject \<Rightarrow> tErrHndkInstance \<Rightarrow> bool" where
  "errhndk_inv_crc obj s \<longleftrightarrow> errhndk_inv s \<and> cnCrcErr (errorObjects s) = obj"

lemma errhndk_inv_step [inv_intros]:
  assumes "errhndk_inv_crc obj s" and "op_ok opn"
  shows "\<exists>s'. errhndk_step mn env opn s = Some s' \<and> errhndk_inv_crc obj s'"
proof (cases opn)
  case (OpProcess ev)
  with assms handleDllErrors_step(1) [of s _ mn env "netTime ev"] show ?thesis
    by (fastforce simp: errhndk_inv_crc_def errhndk_process_def split: tEventArg.splits)
next
  case (OpDecrement fMN ids)
  with assms decrement_step [of s ids mn fMN 0] show ?thesis
    by (auto simp: errhndk_inv_crc_def)
next
  case (OpReset n)
  with assms show ?thesis
    by (auto simp: errhndk_inv_crc_def errhndk_inv_def errhndk_resetCnError_def Let_def)
qed

interpretation errhndk_machine: safe_machine "errhndk_step mn env" op_ok "errhndk_inv_crc obj"
  for mn env obj
  by unfold_locales (rule errhndk_inv_step)

text \<open>Operations that neither reset node \<open>n\<close> nor report a format error of it.\<close>

primrec op_keeps :: "nat \<Rightarrow> errhndk_op \<Rightarrow> bool" where
  "op_keeps n (OpProcess ev) \<longleftrightarrow>
     (case pEventArg ev of
        ArgDllError e \<Rightarrow> dllErrorEvents e AND ERR_INVALID_FORMAT = 0 \<or> dllErrNodeId e \<noteq> n
      | _ \<Rightarrow> True)"
| "op_keeps n (OpDecrement fMN ids) \<longleftrightarrow> True"
| "op_keeps n (OpReset m) \<longleftrightarrow> m \<noteq> n \<and> m < 2 ^ 32"

lemma removed_step_op:
  assumes inv: "errhndk_inv s" and n: "1 \<le> n" "n \<le> 254" and "op_ok opn" and "op_keeps n opn"
    and st: "errhndk_step mn env opn s = Some s'"
  shows "removed_step n s s'"
proof (cases opn)
  case (OpProcess ev)
  show ?thesis
  proof (cases "eventType ev = kEventTypeDllError")
    case True
    with OpProcess assms(4) obtain e where e: "pEventArg ev = ArgDllError e"
      and ok: "dllErrorEvents e AND ERR_MN_CN_LOSS_PRES \<noteq> 0 \<longrightarrow>
        1 \<le> dllErrNodeId e \<and> dllErrNodeId e \<le> 254"
      by (auto split: tEventArg.splits)
    obtain r where r: "handleDllErrors mn env (netTime ev) e s = Some r" and s': "s' = snd r"
      using st OpProcess True e by (auto simp: errhndk_process_def)
    have "dllErrorEvents e AND ERR_INVALID_FORMAT = 0 \<or> dllErrNodeId e \<noteq> n"
      using assms(5) OpProcess e by simp
    from handleDllErrors_step(2) [OF inv ok n this r] s' show ?thesis by simp
  next
    case False
    with OpProcess st show ?thesis by (simp add: errhndk_process_def removed_step_quiet)
  qed
next
  case (OpDecrement fMN ids)
  with assms decrement_step [of s ids mn fMN n] show ?thesis by auto
next
  case (OpReset m)
  with assms have "sub32 m 1 \<noteq> n - 1 \<or> m = 0"
    using sub32_eq [of 1 m] by (cases "m = 0") auto
  moreover have "sub32 0 1 = 2 ^ 32 - 1" by (simp add: sub32_def wrap32_def)
  ultimately show ?thesis using OpReset st
    by (cases "NUM_DLL_MNCN_LOSSPRES_OBJS \<le> sub32 m 1")
      (auto simp: errhndk_resetCnError_def Let_def removed_step_def cn_event_def removals_def)
qed

lemma removed_run:
  assumes "errhndk_inv s" and n: "1 \<le> n" "n \<le> 254"
    and "list_all op_ok ops" and "list_all (op_keeps n) ops"
    and "run_steps (errhndk_step mn env) ops s = Some s'"
  shows "(cn_event n s = ERRORHANDLERK_CN_LOSS_PRES_EVENT_THR \<longrightarrow> removals n s' = removals n s) \<and>
     removals n s' \<le> removals n s + 1"
  using assms(1, 4-6)
proof (induction ops arbitrary: s)
  case Nil
  then show ?case by simp
next
  case (Cons opn ops)
  obtain t where t: "errhndk_step mn env opn s = Some t"
    and run: "run_steps (errhndk_step mn env) ops t = Some s'"
    using Cons.prems(4) by (auto split: option.splits)
  have "errhndk_inv t"
    using errhndk_inv_step [of "cnCrcErr (errorObjects s)" s opn mn env] Cons.prems(1, 2) t
    by (simp add: errhndk_inv_crc_def)
  with Cons.IH [of t] Cons.prems run have ih:
    "(cn_event n t = ERRORHANDLERK_CN_LOSS_PRES_EVENT_THR \<longrightarrow> removals n s' = removals n t) \<and>
     removals n s' \<le> removals n t + 1" by simp
  have "removed_step n s t"
    using removed_step_op [OF Cons.prems(1) n _ _ t] Cons.prems(2, 3) by simp
  with ih show ?case by (auto simp: removed_step_def of_bool_def split: if_splits)
qed

section \<open>Threshold counting\<close>

text \<open>
  The counting rule of the specification: an error adds 8 to the threshold counter, a cycle
  without error takes 1 off, and an error that leaves the counter at or above the threshold is
  reported. \<open>leaky\<close> gives the last counter and the number of reports.
\<close>

fun leaky :: "nat \<Rightarrow> nat \<Rightarrow> bool list \<Rightarrow> nat \<times> nat" where
  "leaky thr c [] = (c, 0)"
| "leaky thr c (b # bs) =
     (if b then (case leaky thr (c + 8) bs of (c', n) \<Rightarrow> (c', n + of_bool (thr \<le> c + 8)))
      else leaky thr (c - 1) bs)"

definition cycle_errors :: "tErrHndkInstance \<Rightarrow> nat" where
  "cycle_errors s =
     length (filter (\<lambda>out. out = OutNmtEvent kNmtEventNmtCycleError) (errhndk_outs s))"

text \<open>The events posted to the NMT module.\<close>

fun nmt_posts :: "errhndk_out list \<Rightarrow> tNmtEvent list" where
  "nmt_posts [] = []"
| "nmt_posts (OutNmtEvent e # outs) = e # nmt_posts outs"
| "nmt_posts (_ # outs) = nmt_posts outs"

lemma nmt_posts_append [simp]: "nmt_posts (xs @ ys) = nmt_posts xs @ nmt_posts ys"
  by (induction xs rule: nmt_posts.induct) simp_all

definition dll_error :: "nat \<Rightarrow> tEventDllError \<Rightarrow> errhndk_op" where
  "dll_error time e =
     OpProcess \<lparr>eventType = kEventTypeDllError, eventSink = kEventSinkErrk, netTime = time,
       pEventArg = ArgDllError e\<rparr>"

text \<open>An event that reports a lost SoC and, of the other errors, at most a lost SoA or a PReq.\<close>

definition soc_event :: "tEventDllError \<Rightarrow> bool" where
  "soc_event e \<longleftrightarrow> dllErrorEvents e AND ERR_CN_LOSS_SOC \<noteq> 0 \<and>
     dllErrorEvents e AND ERR_CN_LOSS_PREQ = 0 \<and> dllErrorEvents e AND ERR_CN_CRC = 0 \<and>
     dllErrorEvents e AND ERR_INVALID_FORMAT = 0"

definition soc_cycle_ops :: "tEventDllError \<Rightarrow> bool \<Rightarrow> errhndk_op list" where
  "soc_cycle_ops e lost = (if lost then [dll_error 0 e] else []) @ [OpDecrement False []]"

definition soc_ready :: "tErrHndkInstance \<Rightarrow> bool" where
  "soc_ready s \<longleftrightarrow> 0 < threshold (cnLossSoc (errorObjects s)) \<and>
     thresholdCnt (cnCrcErr (errorObjects s)) = 0 \<and> errEvents s = 0"

lemma soc_cycle:
  assumes ready: "soc_ready s" and e: "soc_event e"
  defines "obj \<equiv> cnLossSoc (errorObjects s)"
  shows "\<exists>s'. run_steps (errhndk_step False env) (soc_cycle_ops e lost) s = Some s' \<and> soc_ready s' \<and>
     threshold (cnLossSoc (errorObjects s')) = threshold obj \<and>
     thresholdCnt (cnLossSoc (errorObjects s')) =
       (if lost then thresholdCnt obj + 8
        else if thresholdCnt obj > 0 then thresholdCnt obj - 1 else thresholdCnt obj) \<and>
     cycle_errors s' = cycle_errors s + of_bool (lost \<and> threshold obj \<le> thresholdCnt obj + 8)"
  using ready e unfolding obj_def
  by (auto simp: soc_ready_def soc_event_def soc_cycle_ops_def dll_error_def errhndk_process_def
      handleDllErrors_def handleCnLossSoc_def handleCnLossPreq_def handleCorrectPreq_def
      handleCnCrc_def handleInvalidFormat_def errhndk_decrementCounters_def
      decrementCnCounters_def cycle_errors_def step_defs Let_def word_bw_comms)

lemma unat_add8: "unat (c :: u32) + 8 < 2 ^ 32 \<Longrightarrow> unat (c + 8) = unat c + 8"
  by (simp add: unat_word_ariths)

lemma unat_minus1: "(c :: u32) > 0 \<Longrightarrow> unat (c - 1) = unat c - 1"
  by (simp add: unat_minus_one word_greater_zero_iff)

lemma soc_cycles:
  assumes "soc_ready s" and e: "soc_event e"
    and "unat (thresholdCnt (cnLossSoc (errorObjects s))) + 8 * length bs < 2 ^ 32"
    and "leaky (unat (threshold (cnLossSoc (errorObjects s))))
      (unat (thresholdCnt (cnLossSoc (errorObjects s)))) bs = (c, n)"
  shows "\<exists>s'. run_steps (errhndk_step False env) (concat (map (soc_cycle_ops e) bs)) s = Some s' \<and>
     unat (thresholdCnt (cnLossSoc (errorObjects s'))) = c \<and>
     cycle_errors s' = cycle_errors s + n"
  using assms(1, 3, 4)
proof (induction bs arbitrary: s c n)
  case Nil
  then show ?case by simp
next
  case (Cons b bs)
  let ?o = "\<lambda>s. cnLossSoc (errorObjects s)"
  obtain t where t: "run_steps (errhndk_step False env) (soc_cycle_ops e b) s = Some t" "soc_ready t"
    "threshold (?o t) = threshold (?o s)"
    "thresholdCnt (?o t) = (if b then thresholdCnt (?o s) + 8
        else if thresholdCnt (?o s) > 0 then thresholdCnt (?o s) - 1 else thresholdCnt (?o s))"
    "cycle_errors t = cycle_errors s +
       of_bool (b \<and> threshold (?o s) \<le> thresholdCnt (?o s) + 8)"
    using soc_cycle [OF Cons.prems(1) e, of env b] by blast
  have add8: "b \<Longrightarrow> unat (thresholdCnt (?o s) + 8) = unat (thresholdCnt (?o s)) + 8"
    using Cons.prems(2) by (intro unat_add8) simp
  have cnt: "unat (thresholdCnt (?o t)) =
      (if b then unat (thresholdCnt (?o s)) + 8 else unat (thresholdCnt (?o s)) - 1)"
    using t(4) add8 by (auto simp: unat_minus1 word_gt_0)
  obtain c' n' where l: "leaky (unat (threshold (?o t))) (unat (thresholdCnt (?o t))) bs = (c', n')"
    by fastforce
  have "c = c'" "n = n' + of_bool (b \<and> threshold (?o s) \<le> thresholdCnt (?o s) + 8)"
    using Cons.prems(3) l t(3) cnt add8
    by (auto simp: word_le_nat_alt split: if_splits prod.splits)
  moreover have "unat (thresholdCnt (?o t)) + 8 * length bs < 2 ^ 32"
    using cnt Cons.prems(2) by (auto split: if_splits)
  ultimately show ?case
    using Cons.IH [OF t(2) _ l] t(1, 5) by (auto simp: run_steps_append)
qed

text \<open>
  The PReq monitoring: the threshold counter goes up by 8 with a reported loss and down by one
  with a PReq that was received, both while the event is processed.
\<close>

definition history_ok :: "errhndk_env \<Rightarrow> bool" where
  "history_ok env \<longleftrightarrow> (\<forall>outs h. env outs (OutHistory h) = kErrorOk)"

lemma preq_cycle:
  assumes thr: "0 < threshold (cnLossPreq (errorObjects s))" and env: "history_ok env"
    and e: "dllErrorEvents e = (if lost then ERR_CN_LOSS_PREQ else ERR_CN_RECVD_PREQ)"
  defines "obj \<equiv> cnLossPreq (errorObjects s)"
  shows "\<exists>s'. errhndk_step False env (dll_error time e) s = Some s' \<and>
     threshold (cnLossPreq (errorObjects s')) = threshold obj \<and>
     thresholdCnt (cnLossPreq (errorObjects s')) =
       (if lost then thresholdCnt obj + 8
        else if thresholdCnt obj > 0 then thresholdCnt obj - 1 else thresholdCnt obj) \<and>
     nmt_posts (errhndk_outs s') = nmt_posts (errhndk_outs s) @
       replicate (of_bool (lost \<and> threshold obj \<le> thresholdCnt obj + 8)) kNmtEventNmtCycleError"
  using thr env e unfolding obj_def
  by (auto simp: history_ok_def dll_error_def errhndk_process_def
      handleDllErrors_def handleCnLossSoc_def handleCnLossPreq_def handleCorrectPreq_def
      handleCnCrc_def handleInvalidFormat_def step_defs Let_def word_gt_0)

lemma preq_cycles:
  assumes "0 < threshold (cnLossPreq (errorObjects s))" and env: "history_ok env"
    and "list_all2 (\<lambda>lost e. dllErrorEvents e =
      (if lost then ERR_CN_LOSS_PREQ else ERR_CN_RECVD_PREQ)) bs evs"
    and "unat (thresholdCnt (cnLossPreq (errorObjects s))) + 8 * length bs < 2 ^ 32"
    and "leaky (unat (threshold (cnLossPreq (errorObjects s))))
      (unat (thresholdCnt (cnLossPreq (errorObjects s)))) bs = (c, n)"
  shows "\<exists>s'. run_steps (errhndk_step False env) (map (dll_error time) evs) s = Some s' \<and>
     unat (thresholdCnt (cnLossPreq (errorObjects s'))) = c \<and>
     nmt_posts (errhndk_outs s') =
       nmt_posts (errhndk_outs s) @ replicate n kNmtEventNmtCycleError"
  using assms(3, 1, 4, 5)
proof (induction bs evs arbitrary: s c n rule: list_all2_induct)
  case Nil
  then show ?case by simp
next
  case (Cons b bs e evs)
  let ?o = "\<lambda>s. cnLossPreq (errorObjects s)"
  obtain t where t: "errhndk_step False env (dll_error time e) s = Some t"
    "threshold (?o t) = threshold (?o s)"
    "thresholdCnt (?o t) = (if b then thresholdCnt (?o s) + 8
        else if thresholdCnt (?o s) > 0 then thresholdCnt (?o s) - 1 else thresholdCnt (?o s))"
    "nmt_posts (errhndk_outs t) = nmt_posts (errhndk_outs s) @
       replicate (of_bool (b \<and> threshold (?o s) \<le> thresholdCnt (?o s) + 8)) kNmtEventNmtCycleError"
    using preq_cycle [OF Cons.prems(1) env Cons.hyps(1), of time] by blast
  have add8: "b \<Longrightarrow> unat (thresholdCnt (?o s) + 8) = unat (thresholdCnt (?o s)) + 8"
    using Cons.prems(2) by (intro unat_add8) simp
  have cnt: "unat (thresholdCnt (?o t)) =
      (if b then unat (thresholdCnt (?o s)) + 8 else unat (thresholdCnt (?o s)) - 1)"
    using t(3) add8 by (auto simp: unat_minus1 word_gt_0)
  obtain c' n' where l: "leaky (unat (threshold (?o t))) (unat (thresholdCnt (?o t))) bs = (c', n')"
    by fastforce
  have "c = c'" "n = n' + of_bool (b \<and> threshold (?o s) \<le> thresholdCnt (?o s) + 8)"
    using Cons.prems(3) l t(2) cnt add8
    by (auto simp: word_le_nat_alt split: if_splits prod.splits)
  moreover have "unat (thresholdCnt (?o t)) + 8 * length bs < 2 ^ 32"
    using cnt Cons.prems(2) by (auto split: if_splits)
  ultimately show ?case
    using Cons.IH [OF _ _ l] t(1, 2, 4) Cons.prems(1)
    by (auto simp: replicate_add [symmetric] add.commute)
qed

section \<open>Properties\<close>

text \<open>A start configuration: every counter 0, every threshold \<open>thr\<close>, and a post that succeeds.\<close>

definition errhndk_example :: "u32 \<Rightarrow> tErrHndkInstance" where
  "errhndk_example thr =
     (let obj = \<lparr>cumulativeCnt = 0, thresholdCnt = 0, threshold = thr\<rparr>
      in \<lparr>errEvents = 0,
          aMnCnLossPresEvent = replicate 254 ERRORHANDLERK_CN_LOSS_PRES_EVENT_NONE,
          errorObjects = \<lparr>cnLossSoc = obj, cnLossPreq = obj, cnCrcErr = obj, mnCrcErr = obj,
            mnCycTimeExceed = obj, aMnCnLossPres = replicate 254 obj\<rparr>,
          errhndk_outs = []\<rparr>)"

definition post_ok :: errhndk_env where
  "post_ok outs out = kErrorOk"

definition one_error :: "u32 \<Rightarrow> nat \<Rightarrow> tEventDllError" where
  "one_error bits n = \<lparr>dllErrorEvents = bits, dllErrNodeId = n, dllErrNmtState = kNmtCsOperational,
     dllErrOplkError = kErrorOk\<rparr>"

lemma errhndk_example_inv: "errhndk_inv (errhndk_example thr)"
  by (simp add: errhndk_inv_def errhndk_example_def Let_def)

text \<open>
  C27: No sequence of admissible operations reaches outside the node tables, and none of them
  ever writes the CRC error object of the controlled node: its counters keep their values for
  ever, although CRC errors are reported and good cycles are counted.
\<close>

theorem errhndk_run_safe:
  assumes "errhndk_inv s" and "list_all op_ok ops"
  shows "\<exists>s'. run_steps (errhndk_step mn env) ops s = Some s' \<and> errhndk_inv s' \<and>
     cnCrcErr (errorObjects s') = cnCrcErr (errorObjects s)"
  using errhndk_machine.run_safe [of "cnCrcErr (errorObjects s)" s ops mn env] assms
  by (simp add: errhndk_inv_crc_def)

theorem errhndk_run_safe_witness:
  "\<exists>s'. run_steps (errhndk_step True post_ok)
       [dll_error 7 (one_error ERR_CN_CRC 0), dll_error 8 (one_error ERR_MN_CN_LOSS_PRES 254),
        OpDecrement True [3, 254, 255, 0], OpReset 3] (errhndk_example 1) = Some s' \<and>
     errhndk_inv s' \<and> cnCrcErr (errorObjects s') = \<lparr>cumulativeCnt = 0, thresholdCnt = 0, threshold = 1\<rparr>"
proof -
  have "cnCrcErr (errorObjects (errhndk_example 1)) =
      \<lparr>cumulativeCnt = 0, thresholdCnt = 0, threshold = 1\<rparr>"
    by (simp add: errhndk_example_def Let_def)
  moreover have "list_all op_ok
      [dll_error 7 (one_error ERR_CN_CRC 0), dll_error 8 (one_error ERR_MN_CN_LOSS_PRES 254),
       OpDecrement True [3, 254, 255, 0], OpReset 3]"
    by (simp add: dll_error_def one_error_def)
  ultimately show ?thesis
    using errhndk_run_safe [OF errhndk_example_inv [of 1], of _ True post_ok] by metis
qed

text \<open>
  C19: Loss of SoC is counted by the rule of the specification. Over any sequence of cycles of a
  controlled node whose CRC counter is 0, each of which loses its SoC or not, the threshold
  counter is the one of the rule and the NMT cycle error is posted exactly as often as the rule
  reports, whatever the history entries return.
\<close>

theorem soc_threshold_counting:
  assumes "soc_ready s" and "soc_event e"
    and "unat (thresholdCnt (cnLossSoc (errorObjects s))) + 8 * length bs < 2 ^ 32"
  shows "\<exists>s'. run_steps (errhndk_step False env) (concat (map (soc_cycle_ops e) bs)) s = Some s' \<and>
     (unat (thresholdCnt (cnLossSoc (errorObjects s'))), cycle_errors s' - cycle_errors s) =
       leaky (unat (threshold (cnLossSoc (errorObjects s))))
         (unat (thresholdCnt (cnLossSoc (errorObjects s)))) bs"
  using soc_cycles [OF assms] by (metis prod.collapse add_diff_cancel_left')

theorem soc_threshold_counting_witness:
  "\<exists>s'. run_steps (errhndk_step False post_ok)
       (concat (map (soc_cycle_ops (one_error 0x1800 0)) [True, False, True, True])) (errhndk_example 15) =
       Some s' \<and>
     (unat (thresholdCnt (cnLossSoc (errorObjects s'))), cycle_errors s' - cycle_errors (errhndk_example 15)) =
       (23, 2)"
proof -
  let ?s = "errhndk_example 15"
  have ready: "soc_ready ?s" and cnt: "thresholdCnt (cnLossSoc (errorObjects ?s)) = 0"
    and thr: "threshold (cnLossSoc (errorObjects ?s)) = 15"
    by (simp_all add: soc_ready_def errhndk_example_def Let_def)
  have e: "soc_event (one_error 0x1800 0)" by (simp add: soc_event_def one_error_def)
  have b: "unat (thresholdCnt (cnLossSoc (errorObjects ?s))) +
      8 * length [True, False, True, True] < 2 ^ 32"
    by (simp add: cnt)
  have l: "leaky (unat (15 :: u32)) (unat (0 :: u32)) [True, False, True, True] = (23, 2)" by simp
  from soc_threshold_counting [OF ready e b, of post_ok] show ?thesis
    unfolding cnt thr l .
qed

text \<open>
  C21: The managing node removes a node from the isochronous phase at most once. Over any
  admissible run in which the error flag of the node is not reset and no format error of it is
  reported, lost PRes frames lead to at most one removal, and to none when the node is already
  marked as over the threshold.
\<close>

theorem cn_removed_at_most_once:
  assumes "errhndk_inv s" and "1 \<le> n" and "n \<le> 254"
    and "list_all op_ok ops" and "list_all (op_keeps n) ops"
  shows "\<exists>s'. run_steps (errhndk_step mn env) ops s = Some s' \<and>
     removals n s' \<le> removals n s + 1 \<and>
     (cn_event n s = ERRORHANDLERK_CN_LOSS_PRES_EVENT_THR \<longrightarrow> removals n s' = removals n s)"
  using errhndk_machine.run_safe [of "cnCrcErr (errorObjects s)" s ops mn env]
    removed_run [OF assms, of mn env] assms
  by (auto simp: errhndk_inv_crc_def)

theorem cn_removed_at_most_once_witness:
  "\<exists>s'. run_steps (errhndk_step True post_ok)
       [dll_error 1 (one_error ERR_MN_CN_LOSS_PRES 5), OpDecrement True [5, 0],
        dll_error 2 (one_error ERR_MN_CN_LOSS_PRES 5)] (errhndk_example 8) = Some s' \<and>
     removals 5 s' \<le> removals 5 (errhndk_example 8) + 1"
  using cn_removed_at_most_once [OF errhndk_example_inv [of 8], of 5
      "[dll_error 1 (one_error ERR_MN_CN_LOSS_PRES 5), OpDecrement True [5, 0],
        dll_error 2 (one_error ERR_MN_CN_LOSS_PRES 5)]" True post_ok]
  by (auto simp: dll_error_def one_error_def simp del: run_steps.simps)



text \<open>
  A CRC error of a controlled node is written to the wrong object. The counters of the CRC
  object stay, and the loss of PReq object loses its own counts: its cumulative counter becomes
  the CRC one plus one and its threshold counter the CRC one plus eight.
\<close>

theorem crc_error_overwrites_loss_preq:
  assumes "dllErrorEvents e = ERR_CN_CRC" and "0 < threshold (cnCrcErr (errorObjects s))"
  shows "\<exists>ret s'. handleDllErrors False env time e s = Some (ret, s') \<and>
     cnCrcErr (errorObjects s') = cnCrcErr (errorObjects s) \<and>
     cumulativeCnt (cnLossPreq (errorObjects s')) = cumulativeCnt (cnCrcErr (errorObjects s)) + 1 \<and>
     thresholdCnt (cnLossPreq (errorObjects s')) = thresholdCnt (cnCrcErr (errorObjects s)) + 8"
  using assms
  by (auto simp: handleDllErrors_def handleCnLossSoc_def handleCnLossPreq_def
      handleCorrectPreq_def handleCnCrc_def handleInvalidFormat_def step_defs Let_def ok_then_def
      split_beta)

theorem crc_error_overwrites_loss_preq_witness:
  "\<exists>ret s'. handleDllErrors False post_ok 0 (one_error ERR_CN_CRC 0)
       ((errhndk_example 100)\<lparr>errorObjects := (errorObjects (errhndk_example 100))
          \<lparr>cnLossPreq := \<lparr>cumulativeCnt = 50, thresholdCnt = 90, threshold = 100\<rparr>\<rparr>\<rparr>) = Some (ret, s') \<and>
     cumulativeCnt (cnLossPreq (errorObjects s')) = 1 \<and>
     thresholdCnt (cnLossPreq (errorObjects s')) = 8"
  using crc_error_overwrites_loss_preq [of "one_error ERR_CN_CRC 0"
      "(errhndk_example 100)\<lparr>errorObjects := (errorObjects (errhndk_example 100))
          \<lparr>cnLossPreq := \<lparr>cumulativeCnt = 50, thresholdCnt = 90, threshold = 100\<rparr>\<rparr>\<rparr>" post_ok 0]
  by (auto simp: one_error_def errhndk_example_def Let_def)

text \<open>
  On a managing node the counter of exceeded cycle times never goes down. After any positive
  number of cycles without an error it has its old value, and the CRC counter of the managing
  node has been set to that value minus one.
\<close>

theorem cycexceed_never_decays:
  assumes "errEvents s = 0" and "0 < thresholdCnt (mnCycTimeExceed (errorObjects s))" and "0 < k"
  shows "\<exists>s'. run_steps (errhndk_step True env) (replicate k (OpDecrement True [0])) s = Some s' \<and>
     mnCycTimeExceed (errorObjects s') = mnCycTimeExceed (errorObjects s) \<and>
     thresholdCnt (mnCrcErr (errorObjects s')) =
       thresholdCnt (mnCycTimeExceed (errorObjects s)) - 1"
  using assms
proof (induction k arbitrary: s)
  case 0
  then show ?case by simp
next
  case (Suc k)
  obtain t where t: "errhndk_step True env (OpDecrement True [0]) s = Some t" "errEvents t = 0"
    "mnCycTimeExceed (errorObjects t) = mnCycTimeExceed (errorObjects s)"
    "thresholdCnt (mnCrcErr (errorObjects t)) = thresholdCnt (mnCycTimeExceed (errorObjects s)) - 1"
    using Suc.prems
    by (fastforce simp: errhndk_decrementCounters_def decrementMnCounters_def step_defs Let_def)
  show ?case
  proof (cases "k = 0")
    case True
    with t show ?thesis by (simp del: errhndk_step.simps)
  next
    case False
    with Suc.IH [of t] Suc.prems t show ?thesis by (simp del: errhndk_step.simps)
  qed
qed

theorem cycexceed_never_decays_witness:
  "\<exists>s s'. run_steps (errhndk_step True post_ok) (replicate 3 (OpDecrement True [0])) s = Some s' \<and>
     thresholdCnt (mnCycTimeExceed (errorObjects s')) = 8 \<and>
     thresholdCnt (mnCrcErr (errorObjects s')) = 7"
proof -
  let ?s = "(errhndk_example 100)\<lparr>errorObjects := (errorObjects (errhndk_example 100))
      \<lparr>mnCycTimeExceed := \<lparr>cumulativeCnt = 1, thresholdCnt = 8, threshold = 100\<rparr>\<rparr>\<rparr>"
  have h: "errEvents ?s = 0"
    and c: "mnCycTimeExceed (errorObjects ?s) = \<lparr>cumulativeCnt = 1, thresholdCnt = 8, threshold = 100\<rparr>"
    by (simp_all add: errhndk_example_def Let_def)
  have p: "0 < thresholdCnt (mnCycTimeExceed (errorObjects ?s))" "0 < (3::nat)"
    unfolding c by simp_all
  obtain s' where "run_steps (errhndk_step True post_ok) (replicate 3 (OpDecrement True [0])) ?s = Some s'"
    and "mnCycTimeExceed (errorObjects s') = mnCycTimeExceed (errorObjects ?s)"
    and "thresholdCnt (mnCrcErr (errorObjects s')) = thresholdCnt (mnCycTimeExceed (errorObjects ?s)) - 1"
    using cycexceed_never_decays [OF h p, of post_ok] by blast
  then show ?thesis unfolding c by (intro exI [of _ ?s] exI [of _ s']) simp
qed

end
