(* ===== verification/Circbuf.thy ===== *)
theory Circbuf
  imports Oplk_Prelude
begin

text \<open>
  The circular buffer that carries the messages between the layers
  (\<^verbatim>\<open>stack/src/common/circbuf/circbuffer.c\<close>). \<open>tCircBufInstance\<close> joins the instance and the
  shared header; the memory behind \<^verbatim>\<open>pCircBuf\<close> is a list of bytes, read and written with the
  bounds-checked copies of the prelude, so that an access outside it is \<^term>\<open>None\<close>. \<^verbatim>\<open>size_t\<close>
  and the offsets are 32-bit: naturals with \<open>wrap32\<close> where a sum can wrap. Locking switches the
  interrupts off (\<^verbatim>\<open>circbuf-noos.c\<close>), so an operation is one step. A pointer argument is
  \<^term>\<open>None\<close> for \<^verbatim>\<open>NULL\<close>. \<open>sigCount\<close> counts the calls of the signalling function.
\<close>

section \<open>State\<close>

datatype tCircBufError =
    kCircBufOk | kCircBufNoReadableData | kCircBufReadsizeTooSmall | kCircBufBufferFull
  | kCircBufOpenMismatch | kCircBufInvalidArg | kCircBufOutOfMem | kCircBufAlreadySignaling
  | kCircBufExceedDataSizeLimit | kCircBufNoResource

record tCircBufInstance =
  bufferSize :: nat
  writeOffset :: nat
  readOffset :: nat
  freeSize :: nat
  dataCount :: nat
  pCircBuf :: "byte list"
  bufferId :: nat
  pfnSigCb :: bool \<comment> \<open>is a signalling function set?\<close>
  sigCount :: nat

abbreviation CIRCBUF_BLOCK_ALIGNMENT :: nat where "CIRCBUF_BLOCK_ALIGNMENT \<equiv> 4"
abbreviation NR_OF_CIRC_BUFFERS :: nat where "NR_OF_CIRC_BUFFERS \<equiv> 20"

text \<open>\<^verbatim>\<open>(size + (CIRCBUF_BLOCK_ALIGNMENT - 1)) & ~(CIRCBUF_BLOCK_ALIGNMENT - 1)\<close>\<close>

definition align_block :: "nat \<Rightarrow> nat" where
  "align_block n =
     wrap32 (n + (CIRCBUF_BLOCK_ALIGNMENT - 1)) div CIRCBUF_BLOCK_ALIGNMENT * CIRCBUF_BLOCK_ALIGNMENT"

text \<open>A \<^verbatim>\<open>UINT32\<close> in the buffer, in the byte order of the host (little endian).\<close>

definition u32_bytes :: "nat \<Rightarrow> byte list" where
  "u32_bytes n = [word_of_nat n, word_of_nat (n div 2 ^ 8), word_of_nat (n div 2 ^ 16),
     word_of_nat (n div 2 ^ 24)]"

definition bytes_u32 :: "byte list \<Rightarrow> nat" where
  "bytes_u32 bs = unat (bs ! 0) + unat (bs ! 1) * 2 ^ 8 + unat (bs ! 2) * 2 ^ 16 +
     unat (bs ! 3) * 2 ^ 24"

text \<open>\<^verbatim>\<open>memcpy(m + off, src + soff, n)\<close>\<close>

definition memcpy :: "byte list \<Rightarrow> nat \<Rightarrow> byte list \<Rightarrow> nat \<Rightarrow> nat \<Rightarrow> byte list option" where
  "memcpy m off src soff n =
     (case mem_read src soff n of None \<Rightarrow> None | Some bs \<Rightarrow> mem_write m off bs)"

section \<open>Operations\<close>

text \<open>
  \<^verbatim>\<open>circbuf_allocBuffer\<close> gets \<open>size\<close> bytes of unspecified contents from the heap: \<open>heap\<close>, or
  \<^term>\<open>None\<close> when there is no memory.
\<close>

definition circbuf_alloc ::
  "nat \<Rightarrow> nat \<Rightarrow> (nat \<Rightarrow> byte list option) \<Rightarrow> tCircBufError \<times> tCircBufInstance option" where
  "circbuf_alloc bufId size_p heap =
     (if size_p = 0 \<or> NR_OF_CIRC_BUFFERS \<le> bufId then (kCircBufInvalidArg, None)
      else
        let alignedSize = align_block size_p
        in case heap alignedSize of
             None \<Rightarrow> (kCircBufNoResource, None)
           | Some mem \<Rightarrow>
               (kCircBufOk,
                Some \<lparr>bufferSize = alignedSize, writeOffset = 0, readOffset = 0,
                      freeSize = alignedSize, dataCount = 0, pCircBuf = mem, bufferId = bufId,
                      pfnSigCb = False, sigCount = 0\<rparr>))"

definition circbuf_reset :: "tCircBufInstance \<Rightarrow> tCircBufInstance" where
  "circbuf_reset q =
     q\<lparr>readOffset := 0, writeOffset := 0, freeSize := bufferSize q, dataCount := 0\<rparr>"

text \<open>The last steps of both write functions.\<close>

definition circbuf_written :: "nat \<Rightarrow> tCircBufInstance \<Rightarrow> tCircBufError \<times> tCircBufInstance" where
  "circbuf_written fullBlockSize q =
     (let q = q\<lparr>freeSize := sub32 (freeSize q) fullBlockSize, dataCount := wrap32 (dataCount q + 1)\<rparr>
      in (kCircBufOk, if pfnSigCb q then q\<lparr>sigCount := sigCount q + 1\<rparr> else q))"

definition circbuf_writeData ::
  "tCircBufInstance \<Rightarrow> byte list option \<Rightarrow> (tCircBufError \<times> tCircBufInstance) option" where
  "circbuf_writeData q pData =
     (case pData of
        None \<Rightarrow> Some (kCircBufOk, q)
      | Some bs \<Rightarrow>
          let size = length bs
          in if size = 0 then Some (kCircBufOk, q)
          else
            let blockSize = align_block size;
                fullBlockSize = wrap32 (blockSize + 4);
                w = writeOffset q
            in if freeSize q < fullBlockSize then Some (kCircBufOutOfMem, q)
            else if wrap32 (w + fullBlockSize) \<le> bufferSize q then
              (case mem_write (pCircBuf q) w (u32_bytes size) of
                 None \<Rightarrow> None
               | Some m1 \<Rightarrow>
                   (case memcpy m1 (w + 4) bs 0 size of
                      None \<Rightarrow> None
                    | Some m2 \<Rightarrow>
                        Some (circbuf_written fullBlockSize
                          (q\<lparr>pCircBuf := m2,
                             writeOffset := (if wrap32 (w + fullBlockSize) = bufferSize q then 0
                                             else wrap32 (w + fullBlockSize))\<rparr>))))
            else
              (case mem_write (pCircBuf q) w (u32_bytes size) of
                 None \<Rightarrow> None
               | Some m1 \<Rightarrow>
                   let chunkSize = sub32 (sub32 (bufferSize q) w) 4
                   in case memcpy m1 (w + 4) bs 0 chunkSize of
                        None \<Rightarrow> None
                      | Some m2 \<Rightarrow>
                          (case memcpy m2 0 bs chunkSize (sub32 size chunkSize) of
                             None \<Rightarrow> None
                           | Some m3 \<Rightarrow>
                               Some (circbuf_written fullBlockSize
                                 (q\<lparr>pCircBuf := m3, writeOffset := sub32 blockSize chunkSize\<rparr>)))))"

definition circbuf_writeMultipleData ::
  "tCircBufInstance \<Rightarrow> byte list option \<Rightarrow> byte list option \<Rightarrow>
    (tCircBufError \<times> tCircBufInstance) option" where
  "circbuf_writeMultipleData q pData pData2 =
     (case (pData, pData2) of
        (Some bs, Some cs) \<Rightarrow>
          let size = length bs; size2 = length cs
          in if size = 0 \<or> size2 = 0 then Some (kCircBufOk, q)
          else
            let blockSize = align_block (wrap32 (size + size2));
                fullBlockSize = wrap32 (blockSize + 4);
                w = writeOffset q
            in if freeSize q < fullBlockSize then Some (kCircBufOutOfMem, q)
            else if wrap32 (w + fullBlockSize) \<le> bufferSize q then
              (case mem_write (pCircBuf q) w (u32_bytes (wrap32 (size + size2))) of
                 None \<Rightarrow> None
               | Some m1 \<Rightarrow>
                   (case memcpy m1 (w + 4) bs 0 size of
                      None \<Rightarrow> None
                    | Some m2 \<Rightarrow>
                        (case memcpy m2 (w + 4 + size) cs 0 size2 of
                           None \<Rightarrow> None
                         | Some m3 \<Rightarrow>
                             Some (circbuf_written fullBlockSize
                               (q\<lparr>pCircBuf := m3,
                                  writeOffset := (if wrap32 (w + fullBlockSize) = bufferSize q then 0
                                                  else wrap32 (w + fullBlockSize))\<rparr>)))))
            else
              (case mem_write (pCircBuf q) w (u32_bytes (wrap32 (size + size2))) of
                 None \<Rightarrow> None
               | Some m1 \<Rightarrow>
                   let chunkSize = sub32 (sub32 (bufferSize q) w) 4;
                       copied =
                         (if size \<le> chunkSize then
                            (case memcpy m1 (w + 4) bs 0 size of
                               None \<Rightarrow> None
                             | Some m2 \<Rightarrow>
                                 let partSize = sub32 chunkSize size
                                 in case memcpy m2 (w + size + 4) cs 0 partSize of
                                      None \<Rightarrow> None
                                    | Some m3 \<Rightarrow> memcpy m3 0 cs partSize (sub32 size2 partSize))
                          else
                            let partSize = sub32 size chunkSize
                            in case memcpy m1 (w + 4) bs 0 chunkSize of
                                 None \<Rightarrow> None
                               | Some m2 \<Rightarrow>
                                   (case memcpy m2 0 bs chunkSize partSize of
                                      None \<Rightarrow> None
                                    | Some m3 \<Rightarrow> memcpy m3 partSize cs 0 size2))
                   in case copied of
                        None \<Rightarrow> None
                      | Some m \<Rightarrow>
                          Some (circbuf_written fullBlockSize
                            (q\<lparr>pCircBuf := m, writeOffset := sub32 blockSize chunkSize\<rparr>)))
      | _ \<Rightarrow> Some (kCircBufOk, q))"

text \<open>
  Reading gets the caller's memory, whose length is \<^verbatim>\<open>size_p\<close>, and returns it with the value
  stored through \<^verbatim>\<open>pDataBlockSize_p\<close>, if any.
\<close>

definition circbuf_readData ::
  "tCircBufInstance \<Rightarrow> byte list option \<Rightarrow>
    (tCircBufError \<times> tCircBufInstance \<times> byte list option \<times> nat option) option" where
  "circbuf_readData q pData =
     (case pData of
        None \<Rightarrow> Some (kCircBufOk, q, None, None)
      | Some dst \<Rightarrow>
          if length dst = 0 then Some (kCircBufOk, q, Some dst, None)
          else if freeSize q = bufferSize q then Some (kCircBufNoReadableData, q, Some dst, None)
          else
            (case mem_read (pCircBuf q) (readOffset q) 4 of
               None \<Rightarrow> None
             | Some hdr \<Rightarrow>
                 let dataSize = bytes_u32 hdr;
                     blockSize = align_block dataSize;
                     fullBlockSize = wrap32 (blockSize + 4);
                     r = readOffset q;
                     rd = (\<lambda>off q. q\<lparr>readOffset := off,
                             freeSize := wrap32 (freeSize q + fullBlockSize),
                             dataCount := sub32 (dataCount q) 1\<rparr>)
                 in if length dst < dataSize then Some (kCircBufReadsizeTooSmall, q, Some dst, None)
                 else if wrap32 (r + fullBlockSize) \<le> bufferSize q then
                   (case memcpy dst 0 (pCircBuf q) (r + 4) dataSize of
                      None \<Rightarrow> None
                    | Some d \<Rightarrow>
                        Some (kCircBufOk,
                          rd (if wrap32 (r + fullBlockSize) = bufferSize q then 0
                              else wrap32 (r + fullBlockSize)) q, Some d, Some dataSize))
                 else
                   let chunkSize = sub32 (sub32 (bufferSize q) r) 4
                   in case memcpy dst 0 (pCircBuf q) (r + 4) chunkSize of
                        None \<Rightarrow> None
                      | Some d1 \<Rightarrow>
                          (case memcpy d1 chunkSize (pCircBuf q) 0 (sub32 dataSize chunkSize) of
                             None \<Rightarrow> None
                           | Some d2 \<Rightarrow>
                               Some (kCircBufOk, rd (sub32 blockSize chunkSize) q, Some d2,
                                 Some dataSize))))"

definition circbuf_getDataCount :: "tCircBufInstance \<Rightarrow> nat" where
  "circbuf_getDataCount q = dataCount q"

definition circBuf_setSignaling :: "tCircBufInstance \<Rightarrow> bool \<Rightarrow> tCircBufError \<times> tCircBufInstance" where
  "circBuf_setSignaling q cb = (kCircBufOk, q\<lparr>pfnSigCb := cb\<rparr>)"

section \<open>Bytes and alignment\<close>

lemma u32_bytes_length [simp]: "length (u32_bytes n) = 4"
  by (simp add: u32_bytes_def)

lemma u32_bytes_inverse [simp]: "n < 2 ^ 32 \<Longrightarrow> bytes_u32 (u32_bytes n) = n"
  using bytes4_sum [of n] by (simp add: u32_bytes_def bytes_u32_def unat_of_nat)

lemma align_block_bounds:
  assumes "n \<le> 2 ^ 31"
  shows "n \<le> align_block n" "align_block n < n + 4" "4 dvd align_block n"
    "0 < n \<Longrightarrow> 4 \<le> align_block n" "align_block n \<le> 2 ^ 31"
proof -
  have a: "align_block n = (n + 3) div 4 * 4" using assms by (simp add: align_block_def)
  show "n \<le> align_block n" "align_block n < n + 4" "4 dvd align_block n" "0 < n \<Longrightarrow> 4 \<le> align_block n"
    unfolding a by auto
  show "align_block n \<le> 2 ^ 31" using assms unfolding a by simp
qed

section \<open>Writing and reading around the end\<close>

text \<open>
  Writing \<open>bs\<close> from \<open>w\<close> around the end of the memory: the cells of one turn get the bytes, the
  others stay.
\<close>

definition ring_written :: "byte list \<Rightarrow> nat \<Rightarrow> byte list \<Rightarrow> byte list \<Rightarrow> bool" where
  "ring_written m w bs m' \<longleftrightarrow> length m' = length m \<and> ring_read m' w (length bs) = bs \<and>
     (\<forall>k < length m. (\<forall>i < length bs. k \<noteq> (w + i) mod length m) \<longrightarrow> m' ! k = m ! k)"

lemma ring_written_linear:
  assumes "mem_write m w bs = Some m'"
  shows "ring_written m w bs m'"
proof -
  have b: "w + length bs \<le> length m" using assms by (metis mem_write_Some_iff)
  have l: "length m' = length m" using assms by (rule mem_write_length)
  have "ring_read m' w (length bs) = bs"
    using b l mem_write_nth [OF assms] by (intro nth_equalityI) (auto simp: ring_read_nth)
  moreover have "m' ! k = m ! k"
    if "k < length m" "\<forall>i < length bs. k \<noteq> (w + i) mod length m" for k
  proof -
    have "\<not> (w \<le> k \<and> k < w + length bs)"
    proof
      assume "w \<le> k \<and> k < w + length bs"
      then have "k - w < length bs" "w + (k - w) = k" by arith+
      with that show False by (metis mod_less)
    qed
    with mem_write_nth [OF assms that(1)] show ?thesis by simp
  qed
  ultimately show ?thesis using l by (simp add: ring_written_def)
qed

lemma ring_written_append:
  assumes "ring_written m w as m1" and "ring_written m1 (w + length as) bs m2"
    and "length as + length bs \<le> length m"
  shows "ring_written m w (as @ bs) m2"
proof -
  have l: "length m1 = length m" "length m2 = length m" using assms by (simp_all add: ring_written_def)
  have "ring_read m2 w (length as) = ring_read m1 w (length as)"
  proof (rule ring_read_cong)
    fix i assume i: "i < length as"
    have "(w + i) mod length m \<noteq> (w + length as + j) mod length m" if "j < length bs" for j
      using ring_distinct [of i "length as + j" "length m" w] i that assms(3)
      by (simp add: add.assoc)
    moreover have "0 < length m" using i assms(3) by linarith
    then have "(w + i) mod length m < length m1" using l by simp
    ultimately show "m2 ! ((w + i) mod length m1) = m1 ! ((w + i) mod length m1)"
      using assms(2) l by (simp add: ring_written_def)
  qed (simp add: l)
  moreover have "m2 ! k = m ! k"
    if "k < length m" "\<forall>i < length (as @ bs). k \<noteq> (w + i) mod length m" for k
  proof -
    have "\<forall>i < length as. k \<noteq> (w + i) mod length m" using that(2) by simp
    moreover have "\<forall>i < length bs. k \<noteq> (w + length as + i) mod length m"
      using that(2) by (auto simp: add.assoc)
    ultimately show ?thesis using assms(1, 2) l that(1) by (simp add: ring_written_def)
  qed
  ultimately show ?thesis using assms l by (simp add: ring_written_def ring_read_append)
qed

lemma ring_written_mod: "ring_written m (w mod length m) bs m' \<longleftrightarrow> ring_written m w bs m'"
  using ring_read_mod [of m' w "length bs"]
  by (auto simp: ring_written_def mod_add_left_eq)

lemma memcpy_linear:
  assumes "w + n \<le> length m" and "k + n \<le> length bs"
  shows "\<exists>m'. memcpy m w bs k n = Some m' \<and> ring_written m w (take n (drop k bs)) m'"
proof -
  have r: "mem_read bs k n = Some (take n (drop k bs))" using assms(2) by (simp add: mem_read_def)
  have "length (take n (drop k bs)) = n" using assms(2) by simp
  then obtain m' where "mem_write m w (take n (drop k bs)) = Some m'"
    using mem_write_Some_iff [of m w "take n (drop k bs)"] assms(1) by auto
  then show ?thesis using r ring_written_linear by (auto simp: memcpy_def)
qed

text \<open>Copying out of the memory into the caller's.\<close>

lemma memcpy_out:
  assumes "off + n \<le> length dst" and "r + n \<le> length m"
  shows "memcpy dst off m r n =
     Some (take off dst @ take n (drop r m) @ drop (off + n) dst)"
  using assms by (simp add: memcpy_def mem_read_def mem_write_def)

text \<open>A copy that reaches the end of the memory and goes on at its start.\<close>

lemma memcpy_split:
  assumes "p \<le> length m" and "length m - p \<le> length bs" and "length bs \<le> length m"
  shows "\<exists>m1 m2. memcpy m p bs 0 (length m - p) = Some m1 \<and>
     memcpy m1 0 bs (length m - p) (length bs - (length m - p)) = Some m2 \<and> ring_written m p bs m2"
proof -
  let ?c = "length m - p"
  obtain m1 where m1: "memcpy m p bs 0 ?c = Some m1" and r1: "ring_written m p (take ?c bs) m1"
    using memcpy_linear [of p ?c m 0 bs] assms by auto
  have l: "length m1 = length m" using r1 by (simp add: ring_written_def)
  have fits: "0 + (length bs - ?c) \<le> length m1" "?c + (length bs - ?c) \<le> length bs"
    using assms l by linarith+
  obtain m2 where m2: "memcpy m1 0 bs ?c (length bs - ?c) = Some m2"
    and r2: "ring_written m1 0 (take (length bs - ?c) (drop ?c bs)) m2"
    using memcpy_linear [OF fits] by blast
  have "ring_written m1 (p + length (take ?c bs)) (drop ?c bs) m2"
  proof -
    have "(p + length (take ?c bs)) mod length m1 = 0" using assms l by simp
    with r2 ring_written_mod [of m1 "p + length (take ?c bs)" "drop ?c bs" m2] show ?thesis by simp
  qed
  from ring_written_append [OF r1 this] assms have "ring_written m p bs m2" by simp
  with m1 m2 show ?thesis by blast
qed

section \<open>The queue of messages in the memory\<close>

definition frame_len :: "byte list \<Rightarrow> nat" where
  "frame_len x = 4 + align_block (length x)"

definition used :: "byte list list \<Rightarrow> nat" where
  "used xs = sum_list (map frame_len xs)"

fun stored :: "byte list \<Rightarrow> nat \<Rightarrow> byte list list \<Rightarrow> bool" where
  "stored m off [] \<longleftrightarrow> True"
| "stored m off (x # xs) \<longleftrightarrow>
     ring_read m off (4 + length x) = u32_bytes (length x) @ x \<and>
     stored m ((off + frame_len x) mod length m) xs"

definition cb_inv :: "tCircBufInstance \<Rightarrow> bool" where
  "cb_inv q \<longleftrightarrow> 0 < bufferSize q \<and> bufferSize q \<le> 2 ^ 31 \<and> 4 dvd bufferSize q \<and>
     length (pCircBuf q) = bufferSize q \<and> readOffset q < bufferSize q \<and> 4 dvd readOffset q \<and>
     writeOffset q < bufferSize q \<and> 4 dvd writeOffset q"

text \<open>\<open>holds q xs\<close>: the buffer holds the messages \<open>xs\<close>, oldest first.\<close>

definition holds :: "tCircBufInstance \<Rightarrow> byte list list \<Rightarrow> bool" where
  "holds q xs \<longleftrightarrow> cb_inv q \<and> (\<forall>x \<in> set xs. x \<noteq> [] \<and> length x \<le> 2 ^ 31) \<and>
     used xs \<le> bufferSize q \<and> freeSize q = bufferSize q - used xs \<and>
     writeOffset q = (readOffset q + used xs) mod bufferSize q \<and>
     dataCount q = length xs \<and> stored (pCircBuf q) (readOffset q) xs"

lemma used_simps [simp]:
  "used [] = 0" "used (x # xs) = frame_len x + used xs" "used (xs @ ys) = used xs + used ys"
  by (simp_all add: used_def)

lemma frame_len_bounds:
  assumes "length x \<le> 2 ^ 31"
  shows "4 + length x \<le> frame_len x" "4 dvd frame_len x" "frame_len x \<le> 2 ^ 31 + 4"
    "frame_len x < 8 + length x" "x \<noteq> [] \<Longrightarrow> 8 \<le> frame_len x"
  using align_block_bounds [OF assms] by (simp_all add: frame_len_def)

lemma stored_cong:
  assumes "length m' = length m" and "used xs \<le> length m"
    and "\<And>i. i < used xs \<Longrightarrow> m' ! ((off + i) mod length m) = m ! ((off + i) mod length m)"
    and "\<forall>x \<in> set xs. length x \<le> 2 ^ 31"
  shows "stored m' off xs \<longleftrightarrow> stored m off xs"
  using assms(2-4)
proof (induction xs arbitrary: off)
  case Nil
  then show ?case by simp
next
  case (Cons x xs)
  have b: "4 + length x \<le> frame_len x" using Cons.prems(3) by (intro frame_len_bounds) simp
  have "ring_read m' off (4 + length x) = ring_read m off (4 + length x)"
    using b Cons.prems(2) by (intro ring_read_cong) (simp_all add: assms(1))
  moreover have "stored m' ((off + frame_len x) mod length m) xs \<longleftrightarrow>
      stored m ((off + frame_len x) mod length m) xs"
  proof (rule Cons.IH)
    fix i assume "i < used xs"
    then show "m' ! (((off + frame_len x) mod length m + i) mod length m) =
        m ! (((off + frame_len x) mod length m + i) mod length m)"
      using Cons.prems(2) [of "frame_len x + i"] by (simp add: mod_add_left_eq add.assoc)
  qed (use Cons.prems in auto)
  ultimately show ?case by (simp add: assms(1))
qed

lemma stored_append:
  "length m > 0 \<Longrightarrow> stored m off (xs @ [x]) \<longleftrightarrow> stored m off xs \<and>
     ring_read m (off + used xs) (4 + length x) = u32_bytes (length x) @ x"
proof (induction xs arbitrary: off)
  case Nil
  then show ?case by simp
next
  case (Cons y ys)
  then show ?case
    using ring_read_mod_add [of m "off + frame_len y" "used ys"] by (simp add: add.assoc)
qed

text \<open>What a successful write does: \<open>frame_put\<close>. It adds the message to those that are held.\<close>

definition frame_put :: "byte list \<Rightarrow> tCircBufInstance \<Rightarrow> tCircBufInstance \<Rightarrow> bool" where
  "frame_put x q q' \<longleftrightarrow>
     ring_written (pCircBuf q) (writeOffset q) (u32_bytes (length x) @ x) (pCircBuf q') \<and>
     bufferSize q' = bufferSize q \<and> readOffset q' = readOffset q \<and>
     writeOffset q' = (writeOffset q + frame_len x) mod bufferSize q \<and>
     freeSize q' = freeSize q - frame_len x \<and> dataCount q' = wrap32 (dataCount q + 1) \<and>
     sigCount q' = sigCount q + of_bool (pfnSigCb q)"

lemma holds_count:
  assumes "holds q xs"
  shows "8 * length xs \<le> bufferSize q"
proof -
  have "\<forall>x \<in> set xs. x \<noteq> [] \<and> length x \<le> 2 ^ 31 \<Longrightarrow> 8 * length xs \<le> used xs" for xs
  proof (induction xs)
    case (Cons x xs)
    with frame_len_bounds(5) [of x] show ?case by simp
  qed simp
  from this [of xs] assms have "8 * length xs \<le> used xs" "used xs \<le> bufferSize q"
    by (simp_all add: holds_def)
  then show ?thesis by (rule order_trans)
qed

lemma frame_put_holds:
  assumes h: "holds q xs" and x: "x \<noteq> []" "length x \<le> 2 ^ 31" and fits: "frame_len x \<le> freeSize q"
    and put: "frame_put x q q'"
  shows "holds q' (xs @ [x])"
proof -
  let ?m = "pCircBuf q" and ?m' = "pCircBuf q'" and ?N = "bufferSize q" and ?w = "writeOffset q"
  have inv: "cb_inv q" and l: "length ?m = ?N" and u: "used xs \<le> ?N"
    and free: "freeSize q = ?N - used xs" and w: "?w = (readOffset q + used xs) mod ?N"
    and N: "0 < ?N" and st: "stored ?m (readOffset q) xs" and len: "\<forall>x \<in> set xs. length x \<le> 2 ^ 31"
    using h by (auto simp: holds_def cb_inv_def)
  have rw: "ring_written ?m (readOffset q + used xs) (u32_bytes (length x) @ x) ?m'"
    using put w l ring_written_mod [of ?m "readOffset q + used xs"] by (simp add: frame_put_def)
  have l': "length ?m' = ?N" using rw l by (simp add: ring_written_def)
  have keep: "?m' ! ((readOffset q + i) mod ?N) = ?m ! ((readOffset q + i) mod ?N)" if "i < used xs" for i
  proof -
    have "(readOffset q + i) mod ?N \<noteq> (readOffset q + (used xs + j)) mod ?N" if "j < 4 + length x" for j
      using ring_distinct [of i "used xs + j" ?N "readOffset q"] \<open>i < used xs\<close> that fits free u
        frame_len_bounds(1) [OF x(2)] by simp
    then show ?thesis using rw l N by (simp add: ring_written_def add.assoc)
  qed
  have "stored ?m' (readOffset q) (xs @ [x])"
  proof -
    have "stored ?m' (readOffset q) xs"
      using stored_cong [of ?m' ?m xs "readOffset q"] keep st u l l' len by simp
    moreover have "ring_read ?m' (readOffset q + used xs) (4 + length x) = u32_bytes (length x) @ x"
      using rw by (simp add: ring_written_def)
    ultimately show ?thesis using stored_append [of ?m'] l' N by simp
  qed
  moreover have "cb_inv q'"
    using inv put l' frame_len_bounds(2) [OF x(2)]
    by (auto simp: cb_inv_def frame_put_def intro!: dvd_mod)
  moreover have "wrap32 (dataCount q + 1) = length xs + 1"
    using holds_count [OF h] h by (intro trans [OF wrap32_id]) (auto simp: holds_def cb_inv_def)
  moreover have "writeOffset q' = (readOffset q + (used xs + frame_len x)) mod ?N"
    using put w by (simp add: frame_put_def mod_add_left_eq add.assoc)
  ultimately show ?thesis
    using h put x fits free u by (auto simp: holds_def frame_put_def)
qed

section \<open>The operations on the queue\<close>

text \<open>The arithmetic of a write: nothing wraps, and the new offset is taken around the ring.\<close>

lemma frame_arith:
  fixes w N :: nat
  assumes N: "0 < N" "N \<le> 2 ^ 31" "4 dvd N" "w < N" "4 dvd w"
    and x: "length x \<le> 2 ^ 31" and fits: "frame_len x \<le> N"
  shows "wrap32 (align_block (length x) + 4) = frame_len x"
    and "wrap32 (w + frame_len x) = w + frame_len x"
    and "w + 4 \<le> N" and "sub32 (sub32 N w) 4 = N - w - 4"
    and "w + frame_len x \<le> N \<Longrightarrow>
      (if w + frame_len x = N then 0 else w + frame_len x) = (w + frame_len x) mod N"
    and "N < w + frame_len x \<Longrightarrow> N - w - 4 < length x"
    and "N < w + frame_len x \<Longrightarrow>
      sub32 (align_block (length x)) (N - w - 4) = (w + frame_len x) mod N"
proof -
  note fl = frame_len_bounds [OF x]
  show "wrap32 (align_block (length x) + 4) = frame_len x"
    using fl(3) by (simp add: frame_len_def)
  show "wrap32 (w + frame_len x) = w + frame_len x" using N fits by simp
  show w4: "w + 4 \<le> N"
  proof -
    have "4 dvd N - w" using N(3, 5) by (rule dvd_diff_nat)
    then show ?thesis using N dvd_imp_le [of 4 "N - w"] by simp
  qed
  have "sub32 N w = N - w" using N by (intro sub32_eq) simp_all
  moreover have "sub32 (N - w) 4 = N - w - 4" using N w4 by (intro sub32_eq) simp_all
  ultimately show "sub32 (sub32 N w) 4 = N - w - 4" by simp
  show "w + frame_len x \<le> N \<Longrightarrow>
      (if w + frame_len x = N then 0 else w + frame_len x) = (w + frame_len x) mod N"
    using N by auto
  assume wrap: "N < w + frame_len x"
  have "4 dvd w + frame_len x - N" using N fl(2) by (intro dvd_diff_nat) simp_all
  then have big: "4 \<le> w + frame_len x - N" using wrap dvd_imp_le [of 4 "w + frame_len x - N"] by simp
  with fl(4) w4 show "N - w - 4 < length x" by simp
  have "sub32 (align_block (length x)) (N - w - 4) = align_block (length x) - (N - w - 4)"
    using big w4 align_block_bounds(5) [OF x] by (intro sub32_eq) (simp_all add: frame_len_def)
  also have "\<dots> = w + frame_len x - N" using big w4 by (simp add: frame_len_def)
  also have "\<dots> = (w + frame_len x) mod N"
  proof -
    have "w + frame_len x - N < N" using wrap N(4) fits by linarith
    then show ?thesis using wrap le_mod_geq [of N "w + frame_len x"] by simp
  qed
  finally show "sub32 (align_block (length x)) (N - w - 4) = (w + frame_len x) mod N" .
qed

lemma header_written:
  assumes "cb_inv q" and "writeOffset q + 4 \<le> bufferSize q"
  shows "\<exists>m. mem_write (pCircBuf q) (writeOffset q) (u32_bytes n) = Some m \<and>
     length m = bufferSize q \<and> ring_written (pCircBuf q) (writeOffset q) (u32_bytes n) m"
proof -
  obtain m where "mem_write (pCircBuf q) (writeOffset q) (u32_bytes n) = Some m"
    using mem_write_Some_iff [of "pCircBuf q" "writeOffset q" "u32_bytes n"] assms
    by (auto simp: cb_inv_def)
  with ring_written_linear [OF this] assms(1) show ?thesis
    by (auto simp: cb_inv_def ring_written_def)
qed

definition after_write :: "byte list \<Rightarrow> byte list \<Rightarrow> tCircBufInstance \<Rightarrow> tCircBufError \<times> tCircBufInstance" where
  "after_write x m q =
     circbuf_written (frame_len x)
       (q\<lparr>pCircBuf := m, writeOffset := (writeOffset q + frame_len x) mod bufferSize q\<rparr>)"

lemma after_write_frame_put:
  assumes "cb_inv q" and "length x \<le> 2 ^ 31" and "frame_len x \<le> freeSize q"
    and "freeSize q \<le> bufferSize q"
    and "ring_written (pCircBuf q) (writeOffset q) (u32_bytes (length x) @ x) m"
  shows "\<exists>q'. after_write x m q = (kCircBufOk, q') \<and> frame_put x q q'"
proof -
  have "sub32 (freeSize q) (frame_len x) = freeSize q - frame_len x"
    using assms(1, 3, 4) by (intro sub32_eq) (simp_all add: cb_inv_def)
  with assms(5) show ?thesis
    by (auto simp: after_write_def circbuf_written_def Let_def frame_put_def)
qed

lemma writeData_eq:
  assumes inv: "cb_inv q" and x: "x \<noteq> []" "length x \<le> 2 ^ 31" and fits: "frame_len x \<le> freeSize q"
    and free: "freeSize q \<le> bufferSize q"
  shows "\<exists>m. ring_written (pCircBuf q) (writeOffset q) (u32_bytes (length x) @ x) m \<and>
     circbuf_writeData q (Some x) = Some (after_write x m q)"
proof -
  let ?m = "pCircBuf q" and ?w = "writeOffset q" and ?N = "bufferSize q"
  have fN: "frame_len x \<le> ?N" using fits free by simp
  have N: "0 < ?N" "?N \<le> 2 ^ 31" "4 dvd ?N" "?w < ?N" "4 dvd ?w" and l: "length ?m = ?N"
    using inv by (simp_all add: cb_inv_def)
  note ar = frame_arith [OF N x(2) fN]
  obtain m1 where m1: "mem_write ?m ?w (u32_bytes (length x)) = Some m1" "length m1 = ?N"
    and r1: "ring_written ?m ?w (u32_bytes (length x)) m1"
    using header_written [OF inv ar(3)] by blast
  note fl = frame_len_bounds(1) [OF x(2)]
  show ?thesis
  proof (cases "?w + frame_len x \<le> ?N")
    case True
    obtain m2 where m2: "memcpy m1 (?w + 4) x 0 (length x) = Some m2"
      and r2: "ring_written m1 (?w + 4) x m2"
      using memcpy_linear [of "?w + 4" "length x" m1 0 x] True fl m1(2) by auto
    have "ring_written ?m ?w (u32_bytes (length x) @ x) m2"
      using ring_written_append [OF r1, of x m2] r2 fl fN l by simp
    moreover have "circbuf_writeData q (Some x) = Some (after_write x m2 q)"
      unfolding after_write_def ar(5) [OF True, symmetric]
      using m1 m2 x(1) fits True ar(1, 2) by (simp add: circbuf_writeData_def Let_def not_less)
    ultimately show ?thesis by blast
  next
    case False
    then have wrap: "?N < ?w + frame_len x" by simp
    let ?c = "?N - ?w - 4"
    have c: "length m1 - (?w + 4) = ?c" using m1(2) by simp
    have "?w + 4 \<le> length m1" "length m1 - (?w + 4) \<le> length x" "length x \<le> length m1"
      using ar(3) ar(6) [OF wrap] fl fN m1(2) by simp_all
    from memcpy_split [OF this] obtain m2 m3 where
      m2: "memcpy m1 (?w + 4) x 0 ?c = Some m2" "memcpy m2 0 x ?c (length x - ?c) = Some m3"
      and r3: "ring_written m1 (?w + 4) x m3" unfolding c by blast
    have "ring_written ?m ?w (u32_bytes (length x) @ x) m3"
      using ring_written_append [OF r1, of x m3] r3 fl fN l by simp
    moreover have "sub32 (length x) ?c = length x - ?c"
      using ar(6) [OF wrap] x(2) by (intro sub32_eq) simp_all
    then have "circbuf_writeData q (Some x) = Some (after_write x m3 q)"
      unfolding after_write_def ar(7) [OF wrap, symmetric]
      using m1 m2 x(1) fits False ar(1, 2, 4) by (simp add: circbuf_writeData_def Let_def not_less)
    ultimately show ?thesis by blast
  qed
qed

lemma writeData_full:
  assumes "cb_inv q" and "x \<noteq> []" "length x \<le> 2 ^ 31" and "freeSize q < frame_len x"
  shows "circbuf_writeData q (Some x) = Some (kCircBufOutOfMem, q)"
proof -
  have "wrap32 (align_block (length x) + 4) = frame_len x"
    using frame_len_bounds(3) [OF assms(3)] by (simp add: frame_len_def)
  with assms show ?thesis by (simp add: circbuf_writeData_def Let_def)
qed

lemma writeData_holds:
  assumes h: "holds q xs" and x: "x \<noteq> []" "length x \<le> 2 ^ 31"
  shows "frame_len x \<le> freeSize q \<Longrightarrow>
      \<exists>q'. circbuf_writeData q (Some x) = Some (kCircBufOk, q') \<and> holds q' (xs @ [x]) \<and>
        sigCount q' = sigCount q + of_bool (pfnSigCb q)"
    and "freeSize q < frame_len x \<Longrightarrow> circbuf_writeData q (Some x) = Some (kCircBufOutOfMem, q)"
proof -
  have inv: "cb_inv q" and free: "freeSize q \<le> bufferSize q" using h by (auto simp: holds_def)
  show "freeSize q < frame_len x \<Longrightarrow> circbuf_writeData q (Some x) = Some (kCircBufOutOfMem, q)"
    by (rule writeData_full [OF inv x])
  assume fits: "frame_len x \<le> freeSize q"
  from writeData_eq [OF inv x fits free] obtain m where
    "ring_written (pCircBuf q) (writeOffset q) (u32_bytes (length x) @ x) m"
    "circbuf_writeData q (Some x) = Some (after_write x m q)" by blast
  with after_write_frame_put [OF inv x(2) fits free] frame_put_holds [OF h x fits]
  show "\<exists>q'. circbuf_writeData q (Some x) = Some (kCircBufOk, q') \<and> holds q' (xs @ [x]) \<and>
        sigCount q' = sigCount q + of_bool (pfnSigCb q)"
    by (fastforce simp: frame_put_def)
qed

text \<open>Reading takes the oldest message.\<close>

lemma readData_empty:
  assumes "holds q []" and "dst \<noteq> []"
  shows "circbuf_readData q (Some dst) = Some (kCircBufNoReadableData, q, Some dst, None)"
  using assms by (simp add: holds_def circbuf_readData_def)

lemma read_header:
  assumes h: "holds q (x # xs)"
  shows "mem_read (pCircBuf q) (readOffset q) 4 = Some (u32_bytes (length x))"
    and "ring_read (pCircBuf q) (readOffset q + 4) (length x) = x"
    and "freeSize q \<noteq> bufferSize q"
    and "frame_len x \<le> bufferSize q"
proof -
  let ?m = "pCircBuf q" and ?r = "readOffset q" and ?N = "bufferSize q"
  have N: "0 < ?N" "?N \<le> 2 ^ 31" "4 dvd ?N" "?r < ?N" "4 dvd ?r" and l: "length ?m = ?N"
    and x: "x \<noteq> []" "length x \<le> 2 ^ 31" and u: "used (x # xs) \<le> ?N"
    and rr: "ring_read ?m ?r (4 + length x) = u32_bytes (length x) @ x"
    and free: "freeSize q = ?N - used (x # xs)"
    using h by (auto simp: holds_def cb_inv_def)
  show fN: "frame_len x \<le> ?N" using u by simp
  have "?r + 4 \<le> length ?m" using frame_arith(3) [OF N x(2) fN] l by simp
  moreover have "ring_read ?m ?r 4 @ ring_read ?m (?r + 4) (length x) = u32_bytes (length x) @ x"
    using rr by (simp only: ring_read_append)
  ultimately show "mem_read ?m ?r 4 = Some (u32_bytes (length x))"
    and "ring_read ?m (?r + 4) (length x) = x"
    by (simp_all add: mem_read_def ring_read_linear)
  show "freeSize q \<noteq> ?N" using free u frame_len_bounds(5) [OF x(2, 1)] N(1) by simp
qed

lemma readData_small:
  assumes h: "holds q (x # xs)" and "dst \<noteq> []" and "length dst < length x"
  shows "circbuf_readData q (Some dst) = Some (kCircBufReadsizeTooSmall, q, Some dst, None)"
proof -
  have "length x < 2 ^ 32" using h by (auto simp: holds_def)
  with read_header [OF h] assms show ?thesis
    by (simp add: circbuf_readData_def Let_def)
qed

text \<open>The state after a successful read of a message \<open>x\<close>.\<close>

definition after_read :: "byte list \<Rightarrow> tCircBufInstance \<Rightarrow> tCircBufInstance" where
  "after_read x q =
     q\<lparr>readOffset := (readOffset q + frame_len x) mod bufferSize q,
       freeSize := wrap32 (freeSize q + frame_len x), dataCount := sub32 (dataCount q) 1\<rparr>"

lemma after_read_holds:
  assumes h: "holds q (x # xs)"
  shows "holds (after_read x q) xs"
proof -
  let ?N = "bufferSize q"
  have inv: "cb_inv q" and u: "used (x # xs) \<le> ?N" and x: "length x \<le> 2 ^ 31"
    and l: "length (pCircBuf q) = ?N" and N: "0 < ?N" "?N \<le> 2 ^ 31" "4 dvd ?N" "4 dvd readOffset q"
    using h by (auto simp: holds_def cb_inv_def)
  have cnt: "sub32 (dataCount q) 1 = length xs"
  proof -
    have d: "dataCount q = length xs + 1" using h by (simp add: holds_def)
    with holds_count [OF h] N show ?thesis
      by (subst sub32_eq) (simp_all add: d)
  qed
  have "wrap32 (freeSize q + frame_len x) = ?N - used xs"
    using h u N by (subst wrap32_id) (auto simp: holds_def)
  moreover have "cb_inv (after_read x q)"
    using inv frame_len_bounds(2) [OF x] by (auto simp: cb_inv_def after_read_def intro!: dvd_mod)
  ultimately show ?thesis
    using h u cnt l by (simp add: holds_def after_read_def mod_add_left_eq add.assoc)
qed

lemma readData_ok:
  assumes h: "holds q (x # xs)" and dst: "length x \<le> length dst"
  shows "circbuf_readData q (Some dst) =
     Some (kCircBufOk, after_read x q, Some (x @ drop (length x) dst), Some (length x))"
proof -
  let ?m = "pCircBuf q" and ?r = "readOffset q" and ?N = "bufferSize q"
  have N: "0 < ?N" "?N \<le> 2 ^ 31" "4 dvd ?N" "?r < ?N" "4 dvd ?r" and l: "length ?m = ?N"
    and x: "x \<noteq> []" "length x \<le> 2 ^ 31"
    using h by (auto simp: holds_def cb_inv_def)
  note rh = read_header [OF h]
  note ar = frame_arith [OF N x(2) rh(4)]
  have d: "dst \<noteq> []" using dst x by auto
  have n: "bytes_u32 (u32_bytes (length x)) = length x" using x by simp
  note fl = frame_len_bounds(1) [OF x(2)]
  show ?thesis
  proof (cases "?r + frame_len x \<le> ?N")
    case True
    have "take (length x) (drop (?r + 4) ?m) = x"
      using rh(2) True fl l by (simp add: ring_read_linear)
    then have "memcpy dst 0 ?m (?r + 4) (length x) = Some (x @ drop (length x) dst)"
      using memcpy_out [of 0 "length x" dst "?r + 4" ?m] True fl l dst by simp
    then show ?thesis
      unfolding after_read_def ar(5) [OF True, symmetric]
      using True rh(1, 3) n d dst ar(1, 2) by (simp add: circbuf_readData_def Let_def)
  next
    case False
    then have wrap: "?N < ?r + frame_len x" by simp
    let ?c = "?N - ?r - 4"
    have c: "?c < length x" "?r + 4 + ?c = ?N" using ar(3) ar(6) [OF wrap] by simp_all
    have xs: "x = take ?c (drop (?r + 4) ?m) @ take (length x - ?c) ?m"
    proof -
      have "x = ring_read ?m (?r + 4) (?c + (length x - ?c))" using rh(2) c by simp
      also have "\<dots> = ring_read ?m (?r + 4) ?c @ ring_read ?m (?r + 4 + ?c) (length x - ?c)"
        by (rule ring_read_append)
      also have "ring_read ?m (?r + 4 + ?c) (length x - ?c) = ring_read ?m 0 (length x - ?c)"
        using ring_read_mod [of ?m "?r + 4 + ?c"] c l by simp
      finally show ?thesis
        using c l fl rh(4) by (simp add: ring_read_linear)
    qed
    let ?p = "take ?c (drop (?r + 4) ?m)"
    have lp: "length ?p = ?c" using c l by simp
    have m1: "memcpy dst 0 ?m (?r + 4) ?c = Some (?p @ drop ?c dst)"
      using memcpy_out [of 0 ?c dst "?r + 4" ?m] c dst l by simp
    have "memcpy (?p @ drop ?c dst) ?c ?m 0 (length x - ?c) =
        Some (?p @ take (length x - ?c) ?m @ drop (?c + (length x - ?c)) (?p @ drop ?c dst))"
      using memcpy_out [of ?c "length x - ?c" "?p @ drop ?c dst" 0 ?m] lp c dst l fl rh(4) by simp
    also have "\<dots> = Some (x @ drop (length x) dst)"
      using xs lp c dst by (simp add: drop_append)
    finally have m2: "memcpy (?p @ drop ?c dst) ?c ?m 0 (length x - ?c) = Some (x @ drop (length x) dst)" .
    have "sub32 (length x) ?c = length x - ?c" using c x(2) by (intro sub32_eq) simp_all
    then show ?thesis
      unfolding after_read_def ar(7) [OF wrap, symmetric]
      using False rh(1, 3) n d dst ar(1, 2, 4) m1 m2 by (simp add: circbuf_readData_def Let_def)
  qed
qed

text \<open>The cells that a write has set determine the memory.\<close>

lemma ring_written_unique:
  assumes "ring_written m w bs m1" and "ring_written m w bs m2"
  shows "m1 = m2"
proof (rule nth_equalityI)
  show l: "length m1 = length m2" using assms by (simp add: ring_written_def)
  fix k assume k: "k < length m1"
  show "m1 ! k = m2 ! k"
  proof (cases "\<forall>i < length bs. k \<noteq> (w + i) mod length m")
    case True
    with assms k show ?thesis by (simp add: ring_written_def)
  next
    case False
    then obtain i where i: "i < length bs" "k = (w + i) mod length m" by blast
    have "ring_read m1 w (length bs) ! i = ring_read m2 w (length bs) ! i"
      and len: "length m1 = length m" "length m2 = length m"
      using assms by (simp_all add: ring_written_def)
    then show ?thesis using i(2) by (simp add: ring_read_nth [OF i(1)])
  qed
qed

lemma writeMultipleData_eq:
  assumes inv: "cb_inv q" and a: "a \<noteq> []" and b: "b \<noteq> []" and x: "length (a @ b) \<le> 2 ^ 31"
    and free: "freeSize q \<le> bufferSize q"
  shows "circbuf_writeMultipleData q (Some a) (Some b) = circbuf_writeData q (Some (a @ b))"
proof (cases "frame_len (a @ b) \<le> freeSize q")
  case False
  have "wrap32 (align_block (length (a @ b)) + 4) = frame_len (a @ b)"
    using frame_len_bounds(3) [OF x] by (simp add: frame_len_def)
  moreover have "wrap32 (length a + length b) = length (a @ b)"
    using x by (subst wrap32_id) simp_all
  ultimately have "circbuf_writeMultipleData q (Some a) (Some b) = Some (kCircBufOutOfMem, q)"
    using False a b by (simp add: circbuf_writeMultipleData_def Let_def)
  then show ?thesis using writeData_full [OF inv _ x] False a by simp
next
  case fits: True
  let ?x = "a @ b" and ?m = "pCircBuf q" and ?w = "writeOffset q" and ?N = "bufferSize q"
  have fN: "frame_len ?x \<le> ?N" using fits free by simp
  have N: "0 < ?N" "?N \<le> 2 ^ 31" "4 dvd ?N" "?w < ?N" "4 dvd ?w" and l: "length ?m = ?N"
    using inv by (simp_all add: cb_inv_def)
  note ar = frame_arith [OF N x fN]
  have sum: "wrap32 (length a + length b) = length ?x" using x by (subst wrap32_id) simp_all
  note fl = frame_len_bounds(1) [OF x]
  obtain m1 where m1: "mem_write ?m ?w (u32_bytes (length ?x)) = Some m1" "length m1 = ?N"
    and r1: "ring_written ?m ?w (u32_bytes (length ?x)) m1"
    using header_written [OF inv ar(3)] by blast
  have "\<exists>m. ring_written m1 (?w + 4) ?x m \<and>
      circbuf_writeMultipleData q (Some a) (Some b) = Some (after_write ?x m q)"
  proof (cases "?w + frame_len ?x \<le> ?N")
    case True
    obtain m2 where m2: "memcpy m1 (?w + 4) a 0 (length a) = Some m2"
      and r2: "ring_written m1 (?w + 4) a m2"
      using memcpy_linear [of "?w + 4" "length a" m1 0 a] True fl m1(2) by auto
    have l2: "length m2 = ?N" using r2 m1(2) by (simp add: ring_written_def)
    obtain m3 where m3: "memcpy m2 (?w + 4 + length a) b 0 (length b) = Some m3"
      and r3: "ring_written m2 (?w + 4 + length a) b m3"
      using memcpy_linear [of "?w + 4 + length a" "length b" m2 0 b] True fl l2 by auto
    have "ring_written m1 (?w + 4) ?x m3"
      using ring_written_append [OF r2 r3] fl fN m1(2) by simp
    moreover have "circbuf_writeMultipleData q (Some a) (Some b) = Some (after_write ?x m3 q)"
      unfolding after_write_def ar(5) [OF True, symmetric]
      using m1 m2 m3 a b fits True ar(1, 2) sum
      by (simp add: circbuf_writeMultipleData_def Let_def not_less)
    ultimately show ?thesis by blast
  next
    case False
    then have wrap: "?N < ?w + frame_len ?x" by simp
    let ?c = "?N - ?w - 4"
    have c: "?c < length a + length b" "?w + 4 + ?c = ?N" using ar(3) ar(6) [OF wrap] by simp_all
    show ?thesis
    proof (cases "length a \<le> ?c")
      case True
      obtain m2 where m2: "memcpy m1 (?w + 4) a 0 (length a) = Some m2"
        and r2: "ring_written m1 (?w + 4) a m2"
        using memcpy_linear [of "?w + 4" "length a" m1 0 a] True c m1(2) by auto
      have l2: "length m2 = ?N" using r2 m1(2) by (simp add: ring_written_def)
      have p: "length m2 - (?w + 4 + length a) = ?c - length a" using l2 by simp
      have "?w + 4 + length a \<le> length m2" "length m2 - (?w + 4 + length a) \<le> length b"
        "length b \<le> length m2"
        using True c fl fN l2 by simp_all
      from memcpy_split [OF this] obtain m3 m4 where
        m3: "memcpy m2 (?w + 4 + length a) b 0 (?c - length a) = Some m3"
          "memcpy m3 0 b (?c - length a) (length b - (?c - length a)) = Some m4"
        and r4: "ring_written m2 (?w + 4 + length a) b m4" unfolding p by blast
      have "ring_written m1 (?w + 4) ?x m4"
        using ring_written_append [OF r2 r4] fl fN m1(2) by simp
      moreover have "sub32 ?c (length a) = ?c - length a" using True N by (intro sub32_eq) simp_all
      moreover have "sub32 (length b) (?c - length a) = length b - (?c - length a)"
        using c x by (intro sub32_eq) simp_all
      ultimately have "circbuf_writeMultipleData q (Some a) (Some b) = Some (after_write ?x m4 q)"
        unfolding after_write_def ar(7) [OF wrap, symmetric]
        using m1 m2 m3 a b fits False True ar(1, 2, 4) sum
        by (simp add: circbuf_writeMultipleData_def Let_def not_less add.commute add.left_commute)
      with \<open>ring_written m1 (?w + 4) ?x m4\<close> show ?thesis by blast
    next
      case big: False
      have p: "length m1 - (?w + 4) = ?c" using m1(2) by simp
      have "?w + 4 \<le> length m1" "length m1 - (?w + 4) \<le> length a" "length a \<le> length m1"
        using big ar(3) fl fN m1(2) by simp_all
      from memcpy_split [OF this] obtain m2 m3 where
        m2: "memcpy m1 (?w + 4) a 0 ?c = Some m2" "memcpy m2 0 a ?c (length a - ?c) = Some m3"
        and r3: "ring_written m1 (?w + 4) a m3" unfolding p by blast
      have l3: "length m3 = ?N" using r3 m1(2) by (simp add: ring_written_def)
      have "length a - ?c + length b \<le> length m3" "0 + length b \<le> length b"
        using fl fN l3 unfolding length_append by linarith+
      from memcpy_linear [OF this] obtain m4 where
        m4: "memcpy m3 (length a - ?c) b 0 (length b) = Some m4"
        and r4: "ring_written m3 (length a - ?c) b m4" by auto
      have off: "?w + 4 + length a = ?N + (length a - ?c)" using big c by simp
      have "(?w + 4 + length a) mod length m3 = (length a - ?c) mod length m3"
        by (simp only: off l3 mod_add_self1)
      then have "ring_written m3 (?w + 4 + length a) b m4"
        using r4 ring_written_mod [of m3 "?w + 4 + length a" b m4]
          ring_written_mod [of m3 "length a - ?c" b m4] by simp
      from ring_written_append [OF r3 this] have "ring_written m1 (?w + 4) ?x m4"
        using fl fN m1(2) by simp
      moreover have "sub32 (length a) ?c = length a - ?c" using big x by (intro sub32_eq) simp_all
      ultimately have "circbuf_writeMultipleData q (Some a) (Some b) = Some (after_write ?x m4 q)"
        unfolding after_write_def ar(7) [OF wrap, symmetric]
        using m1 m2 m4 a b fits False big ar(1, 2, 4) sum
        by (simp add: circbuf_writeMultipleData_def Let_def not_less)
      with \<open>ring_written m1 (?w + 4) ?x m4\<close> show ?thesis by blast
    qed
  qed
  then obtain m where m: "ring_written m1 (?w + 4) ?x m"
    "circbuf_writeMultipleData q (Some a) (Some b) = Some (after_write ?x m q)" by blast
  have "ring_written ?m ?w (u32_bytes (length ?x) @ ?x) m"
    using ring_written_append [OF r1, of ?x m] m(1) fl fN l by simp
  moreover obtain m' where "ring_written ?m ?w (u32_bytes (length ?x) @ ?x) m'"
    "circbuf_writeData q (Some ?x) = Some (after_write ?x m' q)"
    using writeData_eq [OF inv _ x fits free] a by auto
  ultimately show ?thesis using m(2) ring_written_unique by metis
qed

lemma circbuf_alloc_holds:
  assumes "circbuf_alloc bufId size_p heap = (kCircBufOk, Some q)" and "size_p \<le> 2 ^ 31"
    and "\<And>n mem. heap n = Some mem \<Longrightarrow> length mem = n"
  shows "holds q [] \<and> bufferSize q = align_block size_p"
  using assms align_block_bounds [of size_p]
  by (auto simp: circbuf_alloc_def holds_def cb_inv_def Let_def split: if_splits option.splits)

lemma circbuf_reset_holds: "holds q xs \<Longrightarrow> holds (circbuf_reset q) []"
  by (auto simp: holds_def cb_inv_def circbuf_reset_def)

section \<open>Refinement to a bounded queue\<close>

text \<open>
  The specification: a list of messages with a capacity in bytes. A message takes its length,
  rounded up to four, and four bytes.
\<close>

datatype cb_op =
    OpWrite "byte list option"
  | OpWriteMultiple "byte list option" "byte list option"
  | OpRead "byte list option"
  | OpReset
  | OpCount

datatype cb_out =
    ResWrite tCircBufError
  | ResRead tCircBufError "byte list option" "nat option"
  | ResCount nat
  | ResNone

fun spec_write :: "nat \<Rightarrow> byte list \<Rightarrow> byte list list \<Rightarrow> cb_out \<times> byte list list" where
  "spec_write cap x xs =
     (if x = [] then (ResWrite kCircBufOk, xs)
      else if used xs + frame_len x \<le> cap then (ResWrite kCircBufOk, xs @ [x])
      else (ResWrite kCircBufOutOfMem, xs))"

fun spec_read :: "byte list \<Rightarrow> byte list list \<Rightarrow> cb_out \<times> byte list list" where
  "spec_read dst xs =
     (if dst = [] then (ResRead kCircBufOk (Some dst) None, xs)
      else case xs of
        [] \<Rightarrow> (ResRead kCircBufNoReadableData (Some dst) None, xs)
      | x # rest \<Rightarrow>
          if length dst < length x then (ResRead kCircBufReadsizeTooSmall (Some dst) None, xs)
          else (ResRead kCircBufOk (Some (x @ drop (length x) dst)) (Some (length x)), rest))"

primrec spec_step :: "nat \<Rightarrow> cb_op \<Rightarrow> byte list list \<Rightarrow> cb_out \<times> byte list list" where
  "spec_step cap (OpWrite p) xs =
     (case p of None \<Rightarrow> (ResWrite kCircBufOk, xs) | Some x \<Rightarrow> spec_write cap x xs)"
| "spec_step cap (OpWriteMultiple p p') xs =
     (case (p, p') of
        (Some a, Some b) \<Rightarrow>
          if a = [] \<or> b = [] then (ResWrite kCircBufOk, xs) else spec_write cap (a @ b) xs
      | _ \<Rightarrow> (ResWrite kCircBufOk, xs))"
| "spec_step cap (OpRead p) xs =
     (case p of None \<Rightarrow> (ResRead kCircBufOk None None, xs) | Some dst \<Rightarrow> spec_read dst xs)"
| "spec_step cap OpReset xs = (ResNone, [])"
| "spec_step cap OpCount xs = (ResCount (length xs), xs)"

primrec cb_step :: "cb_op \<Rightarrow> tCircBufInstance \<Rightarrow> (cb_out \<times> tCircBufInstance) option" where
  "cb_step (OpWrite p) q = map_option (map_prod ResWrite id) (circbuf_writeData q p)"
| "cb_step (OpWriteMultiple p p') q =
     map_option (map_prod ResWrite id) (circbuf_writeMultipleData q p p')"
| "cb_step (OpRead p) q =
     map_option (\<lambda>(ret, q, dst, n). (ResRead ret dst n, q)) (circbuf_readData q p)"
| "cb_step OpReset q = Some (ResNone, circbuf_reset q)"
| "cb_step OpCount q = Some (ResCount (circbuf_getDataCount q), q)"

definition data_ok :: "byte list option \<Rightarrow> bool" where
  "data_ok p \<longleftrightarrow> (case p of None \<Rightarrow> True | Some x \<Rightarrow> length x \<le> 2 ^ 30)"

primrec op_small :: "cb_op \<Rightarrow> bool" where
  "op_small (OpWrite p) \<longleftrightarrow> data_ok p"
| "op_small (OpWriteMultiple p p') \<longleftrightarrow> data_ok p \<and> data_ok p'"
| "op_small (OpRead p) \<longleftrightarrow> True"
| "op_small OpReset \<longleftrightarrow> True"
| "op_small OpCount \<longleftrightarrow> True"

lemma write_simulates:
  assumes h: "holds q xs" and x: "length x \<le> 2 ^ 31"
  shows "\<exists>r q'. circbuf_writeData q (Some x) = Some (r, q') \<and>
     (ResWrite r, snd (spec_write (bufferSize q) x xs)) = spec_write (bufferSize q) x xs \<and>
     holds q' (snd (spec_write (bufferSize q) x xs)) \<and> bufferSize q' = bufferSize q"
proof (cases "x = []")
  case True
  with h show ?thesis by (simp add: circbuf_writeData_def)
next
  case x0: False
  have u: "freeSize q = bufferSize q - used xs" "used xs \<le> bufferSize q" and inv: "cb_inv q"
    using h by (simp_all add: holds_def)
  show ?thesis
  proof (cases "frame_len x \<le> freeSize q")
    case True
    obtain m where m: "ring_written (pCircBuf q) (writeOffset q) (u32_bytes (length x) @ x) m"
      "circbuf_writeData q (Some x) = Some (after_write x m q)"
      using writeData_eq [OF inv x0 x True] u by auto
    obtain q' where q': "after_write x m q = (kCircBufOk, q')" "frame_put x q q'"
      using after_write_frame_put [OF inv x True _ m(1)] u by auto
    from frame_put_holds [OF h x0 x True q'(2)] q' m(2) x0 True u show ?thesis
      by (auto simp: frame_put_def)
  next
    case False
    with writeData_full [OF inv x0 x] h x0 u show ?thesis by simp
  qed
qed

lemma cb_step_simulates:
  assumes h: "holds q xs" and small: "op_small opn"
  shows "\<exists>q'. cb_step opn q = Some (fst (spec_step (bufferSize q) opn xs), q') \<and>
     holds q' (snd (spec_step (bufferSize q) opn xs)) \<and> bufferSize q' = bufferSize q"
proof (cases opn)
  case (OpWrite p)
  show ?thesis
  proof (cases p)
    case None
    with OpWrite h show ?thesis by (simp add: circbuf_writeData_def)
  next
    case (Some x)
    with small OpWrite have "length x \<le> 2 ^ 31" by (simp add: data_ok_def)
    from write_simulates [OF h this] OpWrite Some show ?thesis by (auto dest: sym)
  qed
next
  case (OpWriteMultiple p p')
  show ?thesis
  proof (cases "\<exists>a b. p = Some a \<and> p' = Some b \<and> a \<noteq> [] \<and> b \<noteq> []")
    case True
    then obtain a b where ab: "p = Some a" "p' = Some b" "a \<noteq> []" "b \<noteq> []" by blast
    with small OpWriteMultiple have l: "length (a @ b) \<le> 2 ^ 31" by (simp add: data_ok_def)
    have "cb_inv q" "freeSize q \<le> bufferSize q" using h by (auto simp: holds_def)
    from writeMultipleData_eq [OF this(1) ab(3, 4) l this(2)] write_simulates [OF h l]
      OpWriteMultiple ab
    show ?thesis by (auto dest: sym)
  next
    case False
    with OpWriteMultiple h show ?thesis
      by (cases p; cases p') (auto simp: circbuf_writeMultipleData_def)
  qed
next
  case (OpRead p)
  show ?thesis
  proof (cases "p = None \<or> p = Some []")
    case True
    with OpRead h show ?thesis by (auto simp: circbuf_readData_def)
  next
    case False
    then obtain dst where dst: "p = Some dst" "dst \<noteq> []" by auto
    show ?thesis
    proof (cases xs)
      case Nil
      with readData_empty [of q dst] h dst OpRead show ?thesis by simp
    next
      case (Cons x rest)
      have "bufferSize (after_read x q) = bufferSize q" by (simp add: after_read_def)
      with readData_ok [of q x rest dst] readData_small [of q x rest dst]
        after_read_holds [of q x rest] h dst OpRead Cons
      show ?thesis by (cases "length dst < length x") auto
    qed
  qed
next
  case OpReset
  with circbuf_reset_holds [OF h] show ?thesis by (simp add: circbuf_reset_def)
next
  case OpCount
  with h show ?thesis by (simp add: circbuf_getDataCount_def holds_def)
qed

lemma cb_run_simulates:
  assumes "holds q xs" and "list_all op_small ops"
    and "run_out (\<lambda>opn xs. Some (spec_step (bufferSize q) opn xs)) ops xs = Some (rs, ys)"
  shows "\<exists>q'. run_out cb_step ops q = Some (rs, q') \<and> holds q' ys"
  using assms
proof (induction ops arbitrary: q xs rs)
  case Nil
  then show ?case by simp
next
  case (Cons opn ops)
  obtain q1 where q1: "cb_step opn q = Some (fst (spec_step (bufferSize q) opn xs), q1)"
    "holds q1 (snd (spec_step (bufferSize q) opn xs))" "bufferSize q1 = bufferSize q"
    using cb_step_simulates [OF Cons.prems(1)] Cons.prems(2) by auto
  from Cons.prems(3) obtain rs' where rs: "rs = fst (spec_step (bufferSize q) opn xs) # rs'"
    "run_out (\<lambda>opn xs. Some (spec_step (bufferSize q1) opn xs)) ops
       (snd (spec_step (bufferSize q) opn xs)) = Some (rs', ys)"
    by (auto simp: q1(3) split: option.splits prod.splits)
  from Cons.IH [OF q1(2) _ rs(2)] Cons.prems(2) q1(1) rs(1) show ?case by auto
qed

section \<open>The channel\<close>

text \<open>
  The interface the modules use: post a message, and read one into memory of \<open>n\<close> bytes. Messages
  are not empty and not longer than the reader's memory.
\<close>

definition cb_put :: "tCircBufInstance \<Rightarrow> byte list \<Rightarrow> tCircBufInstance option" where
  "cb_put q x =
     (case circbuf_writeData q (Some x) of Some (kCircBufOk, q') \<Rightarrow> Some q' | _ \<Rightarrow> None)"

definition cb_get :: "nat \<Rightarrow> tCircBufInstance \<Rightarrow> (byte list \<times> tCircBufInstance) option" where
  "cb_get n q =
     (case circbuf_readData q (Some (replicate n 0)) of
        Some (kCircBufOk, q', Some dst, Some k) \<Rightarrow> Some (take k dst, q')
      | _ \<Rightarrow> None)"

definition cb_message :: "nat \<Rightarrow> byte list \<Rightarrow> bool" where
  "cb_message n x \<longleftrightarrow> x \<noteq> [] \<and> length x \<le> n \<and> length x \<le> 2 ^ 31"

definition cb_holds :: "nat \<Rightarrow> tCircBufInstance \<Rightarrow> byte list list \<Rightarrow> bool" where
  "cb_holds n q xs \<longleftrightarrow> holds q xs \<and> list_all (cb_message n) xs"

lemma cb_put_holds:
  assumes "cb_holds n q xs" and "cb_message n x" and "cb_put q x = Some q'"
  shows "cb_holds n q' (xs @ [x])"
proof -
  have h: "holds q xs" and x: "x \<noteq> []" "length x \<le> 2 ^ 31"
    using assms by (simp_all add: cb_holds_def cb_message_def)
  from writeData_holds [OF h x] assms show ?thesis
    by (cases "frame_len x \<le> freeSize q") (auto simp: cb_put_def cb_holds_def not_le)
qed

lemma cb_get_holds:
  assumes "cb_holds n q (x # xs)"
  shows "\<exists>q'. cb_get n q = Some (x, q') \<and> cb_holds n q' xs"
  using assms readData_ok [of q x xs "replicate n 0"] after_read_holds [of q x xs]
  by (auto simp: cb_holds_def cb_message_def cb_get_def)

lemma cb_get_empty: "cb_holds n q [] \<Longrightarrow> cb_get n q = None"
  using readData_empty [of q "replicate n 0"]
  by (cases "n = 0") (auto simp: cb_holds_def cb_get_def circbuf_readData_def)

interpretation cb: fifo_channel cb_put "cb_get n" "cb_holds n" "cb_message n" for n
  by unfold_locales (auto intro: cb_put_holds cb_get_holds cb_get_empty)

section \<open>Properties\<close>

definition cb_heap :: "nat \<Rightarrow> byte list option" where
  "cb_heap n = Some (replicate n 0)"

text \<open>
  C11: The buffer refines a bounded queue of messages. From the buffer that the allocation
  returns, any sequence of writes, two-part writes, reads, resets and counts, with null pointers,
  empty data and too small memory included, runs without an access outside the memory and gives
  the results of the queue whose capacity is the aligned size.
\<close>

theorem circbuf_refines_queue:
  assumes "circbuf_alloc bufId size_p heap = (kCircBufOk, Some q)" and "size_p \<le> 2 ^ 31"
    and "\<And>n mem. heap n = Some mem \<Longrightarrow> length mem = n"
    and "list_all op_small ops"
    and "run_out (\<lambda>opn xs. Some (spec_step (align_block size_p) opn xs)) ops [] = Some (rs, ys)"
  shows "\<exists>q'. run_out cb_step ops q = Some (rs, q') \<and> holds q' ys"
  using circbuf_alloc_holds [OF assms(1-3)] cb_run_simulates [of q "[]" ops rs ys] assms(4, 5)
  by simp

theorem circbuf_refines_queue_witness:
  "\<exists>q q'. circbuf_alloc 0 22 cb_heap = (kCircBufOk, Some q) \<and>
     run_out cb_step [OpWrite (Some [1, 2, 3]), OpWriteMultiple (Some [4]) (Some [5, 6, 7, 8]),
       OpWrite (Some [9]), OpRead (Some [0, 0]), OpRead (Some [0, 0, 0, 0]), OpCount] q =
     Some ([ResWrite kCircBufOk, ResWrite kCircBufOk, ResWrite kCircBufOutOfMem,
       ResRead kCircBufReadsizeTooSmall (Some [0, 0]) None,
       ResRead kCircBufOk (Some [1, 2, 3, 0]) (Some 3), ResCount 1], q')"
proof -
  obtain q where q: "circbuf_alloc 0 22 cb_heap = (kCircBufOk, Some q)"
    by (simp add: circbuf_alloc_def cb_heap_def Let_def)
  have s: "(22::nat) \<le> 2 ^ 31" by simp
  have heap: "cb_heap n = Some mem \<Longrightarrow> length mem = n" for n mem by (auto simp: cb_heap_def)
  let ?ops = "[OpWrite (Some [1, 2, 3]), OpWriteMultiple (Some [4]) (Some [5, 6, 7, 8]),
       OpWrite (Some [9]), OpRead (Some [0, 0]), OpRead (Some [0, 0, 0, 0]), OpCount]"
  have small: "list_all op_small ?ops" by (simp add: data_ok_def)
  have run: "run_out (\<lambda>opn xs. Some (spec_step (align_block 22) opn xs)) ?ops [] =
     Some ([ResWrite kCircBufOk, ResWrite kCircBufOk, ResWrite kCircBufOutOfMem,
       ResRead kCircBufReadsizeTooSmall (Some [0, 0]) None,
       ResRead kCircBufOk (Some [1, 2, 3, 0]) (Some 3), ResCount 1], [[4, 5, 6, 7, 8]])"
    by (simp add: frame_len_def align_block_def)
  from circbuf_refines_queue [OF q s heap small run] q show ?thesis by blast
qed

text \<open>
  Messages come out in the order in which they went in. When an empty buffer has accepted a
  batch of messages that fit the reader's memory, as many reads return exactly the batch, and
  then there is nothing to read.
\<close>

theorem circbuf_in_order:
  assumes "holds q []" and "list_all (cb_message n) xs"
    and "fifo_channel.put_all cb_put q xs = Some q'"
  shows "\<exists>q''. fifo_channel.get_n (cb_get n) (length xs) q' = Some (xs, q'') \<and> holds q'' [] \<and>
     cb_get n q'' = None"
  using cb.fifo_transfer [of n q xs q'] assms by (auto simp: cb_holds_def)

theorem circbuf_in_order_witness:
  "\<exists>q q' q''. fifo_channel.put_all cb_put q [[1, 2], [3, 4, 5, 6, 7]] = Some q' \<and>
     fifo_channel.get_n (cb_get 8) (length [[1, 2], [3, 4, 5, 6, 7]]) q' =
       Some ([[1, 2], [3, 4, 5, 6, 7]], q'')"
proof -
  obtain q where alloc: "circbuf_alloc 0 24 cb_heap = (kCircBufOk, Some q)"
    by (simp add: circbuf_alloc_def cb_heap_def Let_def)
  have heap: "cb_heap n = Some mem \<Longrightarrow> length mem = n" for n mem by (auto simp: cb_heap_def)
  have h: "holds q []" "bufferSize q = align_block 24"
    using circbuf_alloc_holds [OF alloc _ heap] by simp_all
  have free: "freeSize q = 24" using h by (simp add: holds_def align_block_def)
  obtain q1 where q1: "circbuf_writeData q (Some [1, 2]) = Some (kCircBufOk, q1)" "holds q1 [[1, 2]]"
    using writeData_holds(1) [OF h(1), of "[1, 2]"] free by (auto simp: frame_len_def align_block_def)
  have "bufferSize q1 = 24"
    using write_simulates [OF h(1), of "[1, 2]"] q1 h(2) by (auto simp: align_block_def)
  then have "freeSize q1 = 16" using q1(2) by (simp add: holds_def frame_len_def align_block_def)
  then obtain q2 where "circbuf_writeData q1 (Some [3, 4, 5, 6, 7]) = Some (kCircBufOk, q2)"
    using writeData_holds(1) [OF q1(2), of "[3, 4, 5, 6, 7]"] by (auto simp: frame_len_def align_block_def)
  with q1 have "fifo_channel.put_all cb_put q [[1, 2], [3, 4, 5, 6, 7]] = Some q2"
    by (simp add: cb_put_def)
  from circbuf_in_order [OF h(1) _ this, of 8] this show ?thesis
    by (auto simp: cb_message_def simp del: cb.get_n.simps)
qed

text \<open>
  The optimised two-part write is the write of the concatenation: the same answer and, byte
  for byte, the same memory and header, wherever the end of the memory cuts the two parts.
\<close>

theorem writeMultiple_is_write:
  assumes "holds q xs" and "a \<noteq> []" and "b \<noteq> []" and "length (a @ b) \<le> 2 ^ 31"
  shows "circbuf_writeMultipleData q (Some a) (Some b) = circbuf_writeData q (Some (a @ b))"
proof -
  have "cb_inv q" "freeSize q \<le> bufferSize q" using assms(1) by (auto simp: holds_def)
  from writeMultipleData_eq [OF this(1) assms(2-4) this(2)] show ?thesis .
qed

theorem writeMultiple_is_write_witness:
  "\<exists>q. holds q [] \<and> circbuf_writeMultipleData q (Some [1]) (Some [2, 3]) =
     circbuf_writeData q (Some [1, 2, 3])"
proof -
  obtain q where alloc: "circbuf_alloc 0 24 cb_heap = (kCircBufOk, Some q)"
    by (simp add: circbuf_alloc_def cb_heap_def Let_def)
  have heap: "cb_heap n = Some mem \<Longrightarrow> length mem = n" for n mem by (auto simp: cb_heap_def)
  have "holds q []" using circbuf_alloc_holds [OF alloc _ heap] by simp
  with writeMultiple_is_write [OF this, of "[1]" "[2, 3]"] show ?thesis by auto
qed

end
