(* ===== verification/Timeru.thy ===== *)
theory Timeru
  imports Oplk_Types
begin

text \<open>
  The generic user timer module (\<^verbatim>\<open>stack/src/user/timer/timer-generic.c\<close>, the variant without
  operating system, where \<^verbatim>\<open>timeru_process\<close> is called from the main loop). Timers wait in a list
  of differences: each entry holds the time after its predecessor, the first one the time after
  \<^verbatim>\<open>startTimeInMs\<close>. The two linked lists are lists of entry numbers (the links are their order);
  the handle of entry \<open>i\<close> is \<open>i + 1\<close> and 0 is no handle. Times are 32-bit, written as naturals with
  \<open>wrap32\<close> and \<open>sub32\<close>. The tick counter is an argument. \<open>maxEntries\<close> is \<^verbatim>\<open>TIMERU_MAX_ENTRIES\<close>.
\<close>

section \<open>State\<close>

record tTimerArg =
  timerSink :: tEventSink
  timerValue :: nat

record tTimeruInstance =
  timerList :: "(nat \<times> nat) list"  \<comment> \<open>entries from \<^verbatim>\<open>pTimerListFirst\<close>, with \<^verbatim>\<open>timeoutInMs\<close>\<close>
  freeList :: "nat list"            \<comment> \<open>entries from \<^verbatim>\<open>pFreeListFirst\<close>\<close>
  timerArgs :: "nat \<Rightarrow> tTimerArg"   \<comment> \<open>\<^verbatim>\<open>timerArg\<close> of each entry\<close>
  startTimeInMs :: nat
  freeEntries :: nat
  minFreeEntries :: nat

section \<open>Operations\<close>

definition timeru_addInstance ::
  "nat \<Rightarrow> bool \<Rightarrow> tTimeruInstance \<Rightarrow> tOplkError \<times> tTimeruInstance" where
  "timeru_addInstance maxEntries mallocOk s =
     (let s = s\<lparr>timerList := [], freeList := [], startTimeInMs := 0, freeEntries := 0,
                minFreeEntries := 0\<rparr>
      in if \<not> mallocOk then (kErrorNoResource, s)
         else (kErrorOk, s\<lparr>freeList := [0..<maxEntries], freeEntries := maxEntries,
                 minFreeEntries := maxEntries, startTimeInMs := 0\<rparr>))"

definition timeru_init :: "nat \<Rightarrow> bool \<Rightarrow> tTimeruInstance \<Rightarrow> tOplkError \<times> tTimeruInstance" where
  "timeru_init maxEntries mallocOk s = timeru_addInstance maxEntries mallocOk s"

definition timeru_delInstance :: "tTimeruInstance \<Rightarrow> tOplkError \<times> tTimeruInstance" where
  "timeru_delInstance s = (kErrorOk, s\<lparr>timerList := [], freeList := [], freeEntries := 0\<rparr>)"

text \<open>The loop of \<^verbatim>\<open>timeru_setTimer\<close> over the timer list.\<close>

fun insertTimer :: "nat \<Rightarrow> nat \<Rightarrow> (nat \<times> nat) list \<Rightarrow> (nat \<times> nat) list" where
  "insertTimer e t [] = [(e, t)]"
| "insertTimer e t ((f, d) # rest) =
     (if t < d then (e, t) # (f, sub32 d t) # rest
      else (f, d) # insertTimer e (sub32 t d) rest)"

text \<open>The loop of \<^verbatim>\<open>timeru_deleteTimer\<close>: the successor takes over the time of the removed entry.\<close>

fun removeTimer :: "nat \<Rightarrow> (nat \<times> nat) list \<Rightarrow> (nat \<times> nat) list" where
  "removeTimer e [] = []"
| "removeTimer e ((f, d) # rest) =
     (if f = e then
        (case rest of [] \<Rightarrow> [] | (g, d') # rest' \<Rightarrow> (g, wrap32 (d' + d)) # rest')
      else (f, d) # removeTimer e rest)"

text \<open>
  \<open>hdl\<close> is the pointer argument: \<^term>\<open>None\<close> for \<^verbatim>\<open>NULL\<close>, otherwise the handle it points to. The
  functions return the handle they leave there.
\<close>

definition timeru_setTimer ::
  "nat \<Rightarrow> nat option \<Rightarrow> nat \<Rightarrow> tTimerArg \<Rightarrow> tTimeruInstance \<Rightarrow>
    tOplkError \<times> nat option \<times> tTimeruInstance" where
  "timeru_setTimer tick hdl timeInMs arg s =
     (case hdl of
        None \<Rightarrow> (kErrorTimerInvalidHandle, hdl, s)
      | Some _ \<Rightarrow>
          (case freeList s of
             [] \<Rightarrow> (kErrorTimerNoTimerCreated, hdl, s)
           | e # rest \<Rightarrow>
               let n = freeEntries s - 1;
                   s = s\<lparr>freeList := rest, freeEntries := n,
                         minFreeEntries := (if n < minFreeEntries s then n else minFreeEntries s),
                         timerArgs := (timerArgs s)(e := arg)\<rparr>;
                   timeout = wrap32 (sub32 tick (startTimeInMs s) + timeInMs)
               in (kErrorOk, Some (e + 1), s\<lparr>timerList := insertTimer e timeout (timerList s)\<rparr>)))"

text \<open>
  Deleting an entry that is already free would put it on the free list twice and close a cycle:
  that is \<^term>\<open>None\<close>.
\<close>

definition timeru_deleteTimer ::
  "nat option \<Rightarrow> tTimeruInstance \<Rightarrow> (tOplkError \<times> nat option \<times> tTimeruInstance) option" where
  "timeru_deleteTimer hdl s =
     (case hdl of
        None \<Rightarrow> Some (kErrorTimerInvalidHandle, hdl, s)
      | Some h \<Rightarrow>
          if h = 0 then Some (kErrorOk, hdl, s)
          else if h - 1 \<in> set (freeList s) then None
          else
            let e = h - 1
            in Some (kErrorOk, Some 0,
                 s\<lparr>timerList := removeTimer e (timerList s), freeList := e # freeList s,
                   freeEntries := freeEntries s + 1\<rparr>))"

definition timeru_modifyTimer ::
  "nat \<Rightarrow> nat option \<Rightarrow> nat \<Rightarrow> tTimerArg \<Rightarrow> tTimeruInstance \<Rightarrow>
    (tOplkError \<times> nat option \<times> tTimeruInstance) option" where
  "timeru_modifyTimer tick hdl timeInMs arg s =
     (case timeru_deleteTimer hdl s of
        None \<Rightarrow> None
      | Some (ret, hdl, s) \<Rightarrow>
          if ret \<noteq> kErrorOk then Some (ret, hdl, s)
          else Some (timeru_setTimer tick hdl timeInMs arg s))"

text \<open>Processing returns the event that it posts, if any: sink, handle and argument.\<close>

definition timeru_process ::
  "nat \<Rightarrow> tTimeruInstance \<Rightarrow> (tEventSink \<times> nat \<times> nat) option \<times> tTimeruInstance" where
  "timeru_process tick s =
     (let timeout = sub32 tick (startTimeInMs s)
      in case timerList s of
           [] \<Rightarrow> (None, s)
         | (e, d) # rest \<Rightarrow>
             if d \<le> timeout then
               (Some (timerSink (timerArgs s e), e + 1, timerValue (timerArgs s e)),
                s\<lparr>timerList := rest, startTimeInMs := wrap32 (startTimeInMs s + d)\<rparr>)
             else (None, s))"

section \<open>The list of differences\<close>

text \<open>The times at which the timers of a list expire, from its start time.\<close>

fun expiries :: "nat \<Rightarrow> (nat \<times> nat) list \<Rightarrow> (nat \<times> nat) list" where
  "expiries st [] = []"
| "expiries st ((e, d) # rest) = (e, st + d) # expiries (st + d) rest"

definition due :: "nat \<Rightarrow> nat \<times> nat \<Rightarrow> bool" where
  "due t x \<longleftrightarrow> snd x \<le> t"

lemma due_pair [simp]: "due t (e, x) \<longleftrightarrow> x \<le> t"
  by (simp add: due_def)

lemma expiries_entries [simp]: "map fst (expiries st l) = map fst l"
  by (induction st l rule: expiries.induct) simp_all

lemma expiries_ge: "x \<in> set (expiries st l) \<Longrightarrow> st \<le> snd x"
  by (induction st l rule: expiries.induct) (auto dest: le_trans [rotated])

lemma expiries_sorted: "sorted (map snd (expiries st l))"
  using expiries_ge by (induction st l rule: expiries.induct) auto

text \<open>The differences of a list are 32-bit values.\<close>

definition deltas_ok :: "(nat \<times> nat) list \<Rightarrow> bool" where
  "deltas_ok l \<longleftrightarrow> sum_list (map snd l) < 2 ^ 32"

text \<open>Inserting puts the timer behind those that expire at the same time or before.\<close>

lemma insertTimer_expiries:
  assumes "t < 2 ^ 32" and "deltas_ok l"
  shows "expiries st (insertTimer e t l) =
     takeWhile (due (st + t)) (expiries st l) @ (e, st + t) # dropWhile (due (st + t)) (expiries st l)"
  using assms
proof (induction e t l arbitrary: st rule: insertTimer.induct)
  case (1 e t)
  then show ?case by simp
next
  case (2 e t f d rest)
  have d: "d < 2 ^ 32" "deltas_ok rest" using "2.prems" by (simp_all add: deltas_ok_def)
  show ?case
  proof (cases "t < d")
    case True
    then have "sub32 d t = d - t" using d by (intro sub32_eq) simp_all
    with True show ?thesis by (simp add: due_def)
  next
    case False
    then have s: "sub32 t d = t - d" using "2.prems" by (intro sub32_eq) simp_all
    have "t - d < 2 ^ 32" using "2.prems" by simp
    with "2.IH" [OF False _ d(2), of "st + d"] False s show ?thesis by (simp add: due_def)
  qed
qed

lemma insertTimer_sum:
  assumes "t < 2 ^ 32" and "deltas_ok l"
  shows "sum_list (map snd (insertTimer e t l)) = max t (sum_list (map snd l))"
  using assms
proof (induction e t l rule: insertTimer.induct)
  case (1 e t)
  then show ?case by simp
next
  case (2 e t f d rest)
  show ?case
  proof (cases "t < d")
    case True
    then have "sub32 d t = d - t" using "2.prems" by (intro sub32_eq) (simp_all add: deltas_ok_def)
    with True show ?thesis by simp
  next
    case False
    then have s: "sub32 t d = t - d" using "2.prems" by (intro sub32_eq) simp_all
    have "t - d < 2 ^ 32" "deltas_ok rest" using "2.prems" by (simp_all add: deltas_ok_def)
    with "2.IH" [OF False] False s show ?thesis by simp
  qed
qed

lemma insertTimer_entries:
  "fst ` set (insertTimer e t l) = insert e (fst ` set l)"
  "distinct (map fst (insertTimer e t l)) \<longleftrightarrow> e \<notin> fst ` set l \<and> distinct (map fst l)"
proof -
  have set: "fst ` set (insertTimer e t l) = insert e (fst ` set l)" for e t l
    by (induction e t l rule: insertTimer.induct) auto
  show "fst ` set (insertTimer e t l) = insert e (fst ` set l)" by (rule set)
  show "distinct (map fst (insertTimer e t l)) \<longleftrightarrow> e \<notin> fst ` set l \<and> distinct (map fst l)"
    by (induction e t l rule: insertTimer.induct) (auto simp: set)
qed

lemma removeTimer_expiries:
  assumes "distinct (map fst l)" and "deltas_ok l"
  shows "expiries st (removeTimer e l) = filter (\<lambda>x. fst x \<noteq> e) (expiries st l)"
  using assms
proof (induction e l arbitrary: st rule: removeTimer.induct)
  case (1 e)
  then show ?case by simp
next
  case (2 e f d rest)
  show ?case
  proof (cases "f = e")
    case True
    with "2.prems" have "e \<notin> fst ` set (expiries (st + d) rest)"
      using expiries_entries [of "st + d" rest] by (metis distinct.simps(2) fst_conv list.simps(9) list.set_map)
    then have keep: "filter (\<lambda>x. fst x \<noteq> e) (expiries (st + d) rest) = expiries (st + d) rest"
      by (intro filter_True) force
    show ?thesis
    proof (cases rest)
      case Nil
      with True show ?thesis by simp
    next
      case (Cons y ys)
      obtain g d' where y: "y = (g, d')" by fastforce
      have "wrap32 (d' + d) = d' + d"
        using "2.prems" Cons y by (intro wrap32_id) (simp add: deltas_ok_def)
      with True keep Cons y show ?thesis by (simp add: add.commute add.left_commute)
    qed
  next
    case False
    with "2.IH" [of "st + d"] "2.prems" show ?thesis by (simp add: deltas_ok_def)
  qed
qed

lemma removeTimer_entries:
  assumes "distinct (map fst l)" and "deltas_ok l"
  shows "map fst (removeTimer e l) = filter (\<lambda>f. f \<noteq> e) (map fst l)"
proof -
  have "map fst (removeTimer e l) = map fst (expiries 0 (removeTimer e l))" by simp
  also have "\<dots> = filter (\<lambda>f. f \<noteq> e) (map fst (expiries 0 l))"
    by (simp only: removeTimer_expiries [OF assms] filter_map comp_def)
  finally show ?thesis by simp
qed

lemma removeTimer_fst: "map fst (removeTimer e l) = remove1 e (map fst l)"
  by (induction e l rule: removeTimer.induct) (auto split: list.splits)

lemma removeTimer_keys:
  assumes "distinct (map fst l)"
  shows "fst ` set (removeTimer e l) = fst ` set l - {e}" "distinct (map fst (removeTimer e l))"
proof -
  show "distinct (map fst (removeTimer e l))" using assms by (simp add: removeTimer_fst distinct_remove1)
  have "set (map fst (removeTimer e l)) = set (map fst l) - {e}"
    using assms by (simp only: removeTimer_fst set_remove1_eq)
  then show "fst ` set (removeTimer e l) = fst ` set l - {e}" by simp
qed

lemma removeTimer_sum: "deltas_ok l \<Longrightarrow> deltas_ok (removeTimer e l)"
proof (induction e l rule: removeTimer.induct)
  case (2 e f d rest)
  have "sum_list (map snd (removeTimer e l)) \<le> sum_list (map snd l)" if "deltas_ok l" for l
    using that
  proof (induction e l rule: removeTimer.induct)
    case (2 e f d rest)
    have "wrap32 n \<le> n" for n by (simp add: wrap32_def)
    with 2 show ?case by (auto simp: deltas_ok_def split: list.splits intro: add_mono le_trans)
  qed simp
  from this [OF "2.prems"] "2.prems" show ?case by (simp add: deltas_ok_def)
qed simp

section \<open>The schedule\<close>

text \<open>
  The specification works on true time, which does not wrap: the pending timers with the time at
  which they expire, in the order in which they will fire. \<open>base\<close> is the time at which the last
  timer fired. A request is within range when the times it computes fit 32 bits; outside the
  range the specification says nothing.
\<close>

record schedule =
  base :: nat
  pending :: "(nat \<times> nat) list"
  frees :: "nat list"
  sargs :: "nat \<Rightarrow> tTimerArg"

datatype tim_op =
    TSet "nat option" nat tTimerArg
  | TModify "nat option" nat tTimerArg
  | TDelete "nat option"
  | TProcess

datatype tim_out =
    TRet tOplkError "nat option"
  | TEvent "(tEventSink \<times> nat \<times> nat) option"

definition spec_set ::
  "nat \<Rightarrow> nat option \<Rightarrow> nat \<Rightarrow> tTimerArg \<Rightarrow> schedule \<Rightarrow> (tim_out \<times> schedule) option" where
  "spec_set now hdl time arg sp =
     (case hdl of
        None \<Rightarrow> Some (TRet kErrorTimerInvalidHandle None, sp)
      | Some _ \<Rightarrow>
          (case frees sp of
             [] \<Rightarrow> Some (TRet kErrorTimerNoTimerCreated hdl, sp)
           | e # rest \<Rightarrow>
               if base sp \<le> now \<and> now - base sp + time < 2 ^ 32 then
                 Some (TRet kErrorOk (Some (e + 1)),
                   sp\<lparr>frees := rest, sargs := (sargs sp)(e := arg),
                      pending := takeWhile (due (now + time)) (pending sp) @ (e, now + time) #
                        dropWhile (due (now + time)) (pending sp)\<rparr>)
               else None))"

definition spec_delete :: "nat option \<Rightarrow> schedule \<Rightarrow> (tim_out \<times> schedule) option" where
  "spec_delete hdl sp =
     (case hdl of
        None \<Rightarrow> Some (TRet kErrorTimerInvalidHandle None, sp)
      | Some h \<Rightarrow>
          if h = 0 then Some (TRet kErrorOk hdl, sp)
          else if h - 1 \<in> set (frees sp) then None
          else Some (TRet kErrorOk (Some 0),
            sp\<lparr>frees := (h - 1) # frees sp,
               pending := filter (\<lambda>x. fst x \<noteq> h - 1) (pending sp)\<rparr>))"

definition spec_process :: "nat \<Rightarrow> schedule \<Rightarrow> (tim_out \<times> schedule) option" where
  "spec_process now sp =
     (if base sp \<le> now \<and> now - base sp < 2 ^ 32 then
        (case pending sp of
           [] \<Rightarrow> Some (TEvent None, sp)
         | (e, x) # rest \<Rightarrow>
             if x \<le> now then
               Some (TEvent (Some (timerSink (sargs sp e), e + 1, timerValue (sargs sp e))),
                 sp\<lparr>base := x, pending := rest\<rparr>)
             else Some (TEvent None, sp))
      else None)"

fun schedule_step :: "nat \<times> tim_op \<Rightarrow> schedule \<Rightarrow> (tim_out \<times> schedule) option" where
  "schedule_step (now, TSet hdl time arg) sp = spec_set now hdl time arg sp"
| "schedule_step (now, TModify hdl time arg) sp =
     (case spec_delete hdl sp of
        None \<Rightarrow> None
      | Some (TRet ret hdl, sp) \<Rightarrow>
          if ret \<noteq> kErrorOk then Some (TRet ret hdl, sp) else spec_set now hdl time arg sp
      | Some (TEvent ev, sp) \<Rightarrow> None)"
| "schedule_step (now, TDelete hdl) sp = spec_delete hdl sp"
| "schedule_step (now, TProcess) sp = spec_process now sp"

fun timer_step :: "nat \<times> tim_op \<Rightarrow> tTimeruInstance \<Rightarrow> (tim_out \<times> tTimeruInstance) option" where
  "timer_step (now, TSet hdl time arg) s =
     (case timeru_setTimer (wrap32 now) hdl time arg s of (ret, hdl, s) \<Rightarrow> Some (TRet ret hdl, s))"
| "timer_step (now, TModify hdl time arg) s =
     map_option (\<lambda>(ret, hdl, s). (TRet ret hdl, s)) (timeru_modifyTimer (wrap32 now) hdl time arg s)"
| "timer_step (now, TDelete hdl) s =
     map_option (\<lambda>(ret, hdl, s). (TRet ret hdl, s)) (timeru_deleteTimer hdl s)"
| "timer_step (now, TProcess) s =
     (case timeru_process (wrap32 now) s of (ev, s) \<Rightarrow> Some (TEvent ev, s))"

definition scheduled :: "schedule \<Rightarrow> tTimeruInstance \<Rightarrow> bool" where
  "scheduled sp s \<longleftrightarrow> startTimeInMs s = wrap32 (base sp) \<and>
     pending sp = expiries (base sp) (timerList s) \<and> deltas_ok (timerList s) \<and>
     distinct (map fst (timerList s) @ freeList s) \<and> freeList s = frees sp \<and>
     timerArgs s = sargs sp \<and> freeEntries s = length (freeList s)"

lemma scheduled_set:
  assumes r: "scheduled sp s" and sp: "spec_set now hdl time arg sp = Some (out, sp')"
  shows "\<exists>ret hdl' s'. timeru_setTimer (wrap32 now) hdl time arg s = (ret, hdl', s') \<and>
     out = TRet ret hdl' \<and> scheduled sp' s'"
proof (cases "hdl = None \<or> frees sp = []")
  case True
  with r sp show ?thesis
    by (auto simp: spec_set_def timeru_setTimer_def scheduled_def split: option.splits list.splits)
next
  case False
  then obtain h e rest where h: "hdl = Some h" "frees sp = e # rest" by (auto simp: neq_Nil_conv)
  with sp have range: "base sp \<le> now" "now - base sp + time < 2 ^ 32"
    and out: "out = TRet kErrorOk (Some (e + 1))"
      "sp' = sp\<lparr>frees := rest, sargs := (sargs sp)(e := arg),
          pending := takeWhile (due (now + time)) (pending sp) @ (e, now + time) #
            dropWhile (due (now + time)) (pending sp)\<rparr>"
    by (simp_all add: spec_set_def split: if_splits)
  have t: "wrap32 (sub32 (wrap32 now) (startTimeInMs s) + time) = now - base sp + time"
    using r range sub32_wrap [of "base sp" now] by (simp add: scheduled_def)
  have d: "deltas_ok (timerList s)" using r by (simp add: scheduled_def)
  have "expiries (base sp) (insertTimer e (now - base sp + time) (timerList s)) = pending sp'"
    using insertTimer_expiries [OF range(2) d, of "base sp" e] r range(1) out(2)
    by (simp add: scheduled_def)
  moreover have "deltas_ok (insertTimer e (now - base sp + time) (timerList s))"
    using insertTimer_sum [OF range(2) d, of e] range(2) d by (simp add: deltas_ok_def)
  ultimately show ?thesis
    using r h out t
    by (auto simp: scheduled_def timeru_setTimer_def Let_def insertTimer_entries)
qed

lemma scheduled_delete:
  assumes r: "scheduled sp s" and sp: "spec_delete hdl sp = Some (out, sp')"
  shows "\<exists>ret hdl' s'. timeru_deleteTimer hdl s = Some (ret, hdl', s') \<and>
     out = TRet ret hdl' \<and> scheduled sp' s'"
proof (cases "hdl = None \<or> hdl = Some 0")
  case True
  with r sp show ?thesis by (auto simp: spec_delete_def timeru_deleteTimer_def)
next
  case False
  then obtain h where h: "hdl = Some h" "h \<noteq> 0" by auto
  with sp have free: "h - 1 \<notin> set (frees sp)"
    and out: "out = TRet kErrorOk (Some 0)"
      "sp' = sp\<lparr>frees := (h - 1) # frees sp, pending := filter (\<lambda>x. fst x \<noteq> h - 1) (pending sp)\<rparr>"
    by (simp_all add: spec_delete_def split: if_splits)
  have d: "distinct (map fst (timerList s))" "deltas_ok (timerList s)"
    using r by (simp_all add: scheduled_def)
  let ?l = "removeTimer (h - 1) (timerList s)"
  let ?s = "s\<lparr>timerList := ?l, freeList := (h - 1) # freeList s, freeEntries := freeEntries s + 1\<rparr>"
  have "distinct (map fst ?l @ (h - 1) # freeList s)"
    unfolding removeTimer_entries [OF d] using r free by (auto simp: scheduled_def)
  with removeTimer_expiries [OF d, of "base sp" "h - 1"] removeTimer_sum [OF d(2), of "h - 1"] r out(2)
  have "scheduled sp' ?s" by (simp add: scheduled_def)
  moreover have "timeru_deleteTimer hdl s = Some (kErrorOk, Some 0, ?s)"
    using h free r by (simp add: timeru_deleteTimer_def Let_def scheduled_def)
  ultimately show ?thesis using out(1) by blast
qed

lemma scheduled_process:
  assumes r: "scheduled sp s" and sp: "spec_process now sp = Some (out, sp')"
  shows "\<exists>ev s'. timeru_process (wrap32 now) s = (ev, s') \<and> out = TEvent ev \<and> scheduled sp' s'"
proof -
  from sp have range: "base sp \<le> now" "now - base sp < 2 ^ 32"
    by (simp_all add: spec_process_def split: if_splits)
  have el: "sub32 (wrap32 now) (startTimeInMs s) = now - base sp"
    using r sub32_wrap [OF range] by (simp add: scheduled_def)
  show ?thesis
  proof (cases "timerList s")
    case Nil
    with r sp range show ?thesis by (auto simp: spec_process_def timeru_process_def scheduled_def)
  next
    case (Cons x rest)
    obtain e d where x: "x = (e, d)" by fastforce
    have p: "pending sp = (e, base sp + d) # expiries (base sp + d) rest"
      using r Cons x by (simp add: scheduled_def)
    have w: "wrap32 (wrap32 (base sp) + d) = wrap32 (base sp + d)"
      by (simp add: wrap32_def mod_add_left_eq)
    show ?thesis
    proof (cases "base sp + d \<le> now")
      case True
      then have "d \<le> now - base sp" using range by simp
      with True r sp range Cons x p el w show ?thesis
        by (auto simp: spec_process_def timeru_process_def scheduled_def deltas_ok_def Let_def)
    next
      case False
      then have "\<not> d \<le> now - base sp" using range by simp
      with False r sp range Cons x p el show ?thesis
        by (auto simp: spec_process_def timeru_process_def Let_def)
    qed
  qed
qed

lemma scheduled_step:
  assumes r: "scheduled sp s" and sp: "schedule_step opn sp = Some (out, sp')"
  shows "\<exists>s'. timer_step opn s = Some (out, s') \<and> scheduled sp' s'"
proof -
  obtain now op where opn: "opn = (now, op)" by fastforce
  show ?thesis
  proof (cases op)
    case (TSet hdl time arg)
    with opn sp scheduled_set [OF r, of now hdl time arg out sp'] show ?thesis by auto
  next
    case (TModify hdl time arg)
    with opn sp obtain out1 sp1 where s1: "spec_delete hdl sp = Some (out1, sp1)"
      by (auto split: option.splits)
    from scheduled_delete [OF r this] obtain ret hdl1 s1 where
      d: "timeru_deleteTimer hdl s = Some (ret, hdl1, s1)" "out1 = TRet ret hdl1" "scheduled sp1 s1"
      by blast
    show ?thesis
    proof (cases "ret = kErrorOk")
      case True
      with TModify opn sp s1 d scheduled_set [OF d(3), of now hdl1 time arg out sp']
      show ?thesis by (auto simp: timeru_modifyTimer_def)
    next
      case False
      with TModify opn sp s1 d show ?thesis by (auto simp: timeru_modifyTimer_def)
    qed
  next
    case (TDelete hdl)
    with opn sp scheduled_delete [OF r, of hdl out sp'] show ?thesis by auto
  next
    case TProcess
    with opn sp scheduled_process [OF r, of now out sp'] show ?thesis by auto
  qed
qed

lemma scheduled_run:
  assumes "scheduled sp s" and "run_out schedule_step ops sp = Some (outs, sp')"
  shows "\<exists>s'. run_out timer_step ops s = Some (outs, s') \<and> scheduled sp' s'"
  using assms
proof (induction ops arbitrary: sp s outs)
  case Nil
  then show ?case by simp
next
  case (Cons opn ops)
  from Cons.prems(2) obtain out sp1 outs1 where
    sp1: "schedule_step opn sp = Some (out, sp1)" "run_out schedule_step ops sp1 = Some (outs1, sp')"
      "outs = out # outs1"
    by (auto split: option.splits prod.splits)
  obtain s1 where s1: "timer_step opn s = Some (out, s1)" "scheduled sp1 s1"
    using scheduled_step [OF Cons.prems(1) sp1(1)] by blast
  from Cons.IH [OF s1(2) sp1(2)] s1(1) sp1(3) show ?case by auto
qed

text \<open>The module after its initialisation, and the empty schedule at time 0.\<close>

definition idle_schedule :: "nat \<Rightarrow> (nat \<Rightarrow> tTimerArg) \<Rightarrow> schedule" where
  "idle_schedule maxEntries args = \<lparr>base = 0, pending = [], frees = [0..<maxEntries], sargs = args\<rparr>"

lemma scheduled_init:
  "timeru_init maxEntries True s = (kErrorOk, s') \<Longrightarrow>
     scheduled (idle_schedule maxEntries (timerArgs s)) s'"
  by (auto simp: timeru_init_def timeru_addInstance_def scheduled_def idle_schedule_def deltas_ok_def)

section \<open>Firing\<close>

definition timer_event :: "schedule \<Rightarrow> nat \<times> nat \<Rightarrow> tim_out" where
  "timer_event sp x =
     TEvent (Some (timerSink (sargs sp (fst x)), fst x + 1, timerValue (sargs sp (fst x))))"

lemma spec_drain:
  assumes "base sp \<le> now" and "now - base sp < 2 ^ 32" and "sorted (map snd (pending sp))"
    and "\<forall>x \<in> set (pending sp). base sp \<le> snd x"
    and "length (takeWhile (due now) (pending sp)) \<le> k"
  shows "\<exists>sp'. run_out schedule_step (replicate k (now, TProcess)) sp =
       Some (map (timer_event sp) (takeWhile (due now) (pending sp)) @
         replicate (k - length (takeWhile (due now) (pending sp))) (TEvent None), sp') \<and>
     pending sp' = dropWhile (due now) (pending sp) \<and> frees sp' = frees sp"
  using assms
proof (induction k arbitrary: sp)
  case 0
  then show ?case by (cases "pending sp") (auto split: if_splits)
next
  case (Suc k)
  show ?case
  proof (cases "\<exists>e x rest. pending sp = (e, x) # rest \<and> x \<le> now")
    case True
    then obtain e x rest where p: "pending sp = (e, x) # rest" "x \<le> now" by blast
    let ?sp = "sp\<lparr>base := x, pending := rest\<rparr>"
    have "base ?sp \<le> now" "now - base ?sp < 2 ^ 32" "sorted (map snd (pending ?sp))"
      "\<forall>y \<in> set (pending ?sp). base ?sp \<le> snd y"
      "length (takeWhile (due now) (pending ?sp)) \<le> k"
      using Suc.prems p by auto
    from Suc.IH [OF this] obtain sp' where
      "run_out schedule_step (replicate k (now, TProcess)) ?sp =
       Some (map (timer_event ?sp) (takeWhile (due now) rest) @
         replicate (k - length (takeWhile (due now) rest)) (TEvent None), sp')"
      "pending sp' = dropWhile (due now) rest" "frees sp' = frees sp" by auto
    moreover have "timer_event ?sp = timer_event sp" by (rule ext) (simp add: timer_event_def)
    ultimately show ?thesis
      using Suc.prems p by (auto simp: spec_process_def timer_event_def)
  next
    case False
    then have "takeWhile (due now) (pending sp) = []" "dropWhile (due now) (pending sp) = pending sp"
      by (cases "pending sp"; force)+
    moreover have "schedule_step (now, TProcess) sp = Some (TEvent None, sp)"
      using False Suc.prems by (auto simp: spec_process_def split: list.splits)
    ultimately show ?thesis using Suc.IH [of sp] Suc.prems by auto
  qed
qed

section \<open>Properties\<close>

definition timer_example :: tTimeruInstance where
  "timer_example = \<lparr>timerList = [], freeList = [0, 1, 2],
     timerArgs = (\<lambda>_. \<lparr>timerSink = kEventSinkInvalid, timerValue = 0\<rparr>),
     startTimeInMs = 0, freeEntries = 3, minFreeEntries = 3\<rparr>"

definition sdo_arg :: "nat \<Rightarrow> tTimerArg" where
  "sdo_arg v = \<lparr>timerSink = kEventSinkSdoAsySeq, timerValue = v\<rparr>"

lemma timer_example_init: "timeru_init 3 True timer_example = (kErrorOk, timer_example)"
  by (simp add: timeru_init_def timeru_addInstance_def timer_example_def upt_rec)



text \<open>
  Timers fire completely, in order and never early. Polling at one time, one poll for each
  timer that is due and one more, posts exactly the events of the timers whose time has come, in
  the order of their expiry times, then nothing, and leaves the others in the list.
\<close>

theorem timers_fire_when_due:
  assumes "scheduled sp s" and "base sp \<le> now" and "now - base sp < 2 ^ 32"
  shows "\<exists>sp' s'. run_out timer_step
       (replicate (length (takeWhile (due now) (pending sp)) + 1) (now, TProcess)) s =
     Some (map (timer_event sp) (takeWhile (due now) (pending sp)) @ [TEvent None], s') \<and>
     scheduled sp' s' \<and> pending sp' = filter (\<lambda>x. now < snd x) (pending sp)"
proof -
  let ?n = "length (takeWhile (due now) (pending sp))"
  have p: "pending sp = expiries (base sp) (timerList s)" using assms(1) by (simp add: scheduled_def)
  have sorted: "sorted (map snd (pending sp))" and ge: "\<forall>x \<in> set (pending sp). base sp \<le> snd x"
    using expiries_sorted expiries_ge unfolding p by blast+
  have "filter (\<lambda>x. now < snd x) l = dropWhile (due now) l" if "sorted (map snd l)" for l
    using that
  proof (induction l)
    case (Cons x l)
    show ?case
    proof (cases "due now x")
      case False
      with Cons.prems have "\<forall>y \<in> set (x # l). now < snd y" by (auto simp: due_def)
      with False show ?thesis by (simp add: filter_True)
    qed (use Cons in \<open>auto simp: due_def\<close>)
  qed simp
  with spec_drain [OF assms(2, 3) sorted ge, of "?n + 1"] sorted obtain sp' where
    "run_out schedule_step (replicate (?n + 1) (now, TProcess)) sp =
       Some (map (timer_event sp) (takeWhile (due now) (pending sp)) @ [TEvent None], sp')"
    "pending sp' = filter (\<lambda>x. now < snd x) (pending sp)" by auto
  with scheduled_run [OF assms(1) this(1)] show ?thesis by blast
qed

theorem timers_fire_when_due_witness:
  "\<exists>sp s s'. pending sp = [(1, 30), (0, 60), (2, 90)] \<and>
     run_out timer_step (replicate 3 (70, TProcess)) s =
       Some (map (timer_event sp) [(1, 30), (0, 60)] @ [TEvent None], s')"
proof -
  let ?sp = "\<lparr>base = 0, pending = [(1, 30), (0, 60), (2, 90)], frees = [], sargs = timerArgs timer_example\<rparr>"
  let ?s = "timer_example\<lparr>timerList := [(1, 30), (0, 30), (2, 30)], freeList := [], freeEntries := 0\<rparr>"
  have r: "scheduled ?sp ?s" by (simp add: scheduled_def timer_example_def deltas_ok_def)
  have t: "takeWhile (due 70) (pending ?sp) = [(1, 30), (0, 60)]" by simp
  have k: "length [(1 :: nat, 30 :: nat), (0, 60)] + 1 = 3" by simp
  have h: "base ?sp \<le> 70" "70 - base ?sp < 2 ^ 32" by simp_all
  obtain s' where "run_out timer_step (replicate 3 (70, TProcess)) ?s =
      Some (map (timer_event ?sp) [(1, 30), (0, 60)] @ [TEvent None], s')"
    using timers_fire_when_due [OF r h] unfolding t k by blast
  moreover have "pending ?sp = [(1, 30), (0, 60), (2, 90)]" by simp
  ultimately show ?thesis by metis
qed

text \<open>
  Outside the range a timer fires at once. The start time moves only when a timer fires;
  when the list has been empty so long that the time since then and the requested time together
  reach 2 to the 32 milliseconds, the sum wraps around and the next poll at the same tick posts
  the event of the new timer.
\<close>

theorem idle_timer_fires_at_once:
  assumes "timerList s = []" and "freeList s = e # rest" and "time < 2 ^ 32"
    and "2 ^ 32 \<le> sub32 tick (startTimeInMs s) + time"
    and "timeru_setTimer tick (Some h) time arg s = (ret, hdl, s')"
  shows "fst (timeru_process tick s') = Some (timerSink arg, e + 1, timerValue arg)"
proof -
  let ?el = "sub32 tick (startTimeInMs s)"
  have "?el < 2 ^ 32" by (rule sub32_less)
  then have "wrap32 (?el + time) = ?el + time - 2 ^ 32"
    using assms(3, 4) by (simp add: wrap32_def le_mod_geq)
  with assms show ?thesis
    by (auto simp: timeru_setTimer_def timeru_process_def Let_def)
qed

theorem idle_timer_fires_at_once_witness:
  "fst (timeru_process 4294966296
     (snd (snd (timeru_setTimer 4294966296 (Some 0) 5000 (sdo_arg 9) timer_example)))) =
   Some (kEventSinkSdoAsySeq, 1, 9)"
proof -
  obtain ret hdl s' where st: "timeru_setTimer 4294966296 (Some 0) 5000 (sdo_arg 9) timer_example = (ret, hdl, s')"
    by (metis prod_cases3)
  have "fst (timeru_process 4294966296 s') = Some (timerSink (sdo_arg 9), 0 + 1, timerValue (sdo_arg 9))"
    by (rule idle_timer_fires_at_once [OF _ _ _ _ st])
      (simp_all add: timer_example_def sub32_def wrap32_def)
  with st show ?thesis by (simp add: sdo_arg_def)
qed

end
