(* ===== verification/Sdo_Seq.thy ===== *)
theory Sdo_Seq
  imports Oplk_Prelude Oplk_Types Timeru "HOL-Library.Monad_Syntax"
begin

text \<open>
  The SDO sequence layer (\<^verbatim>\<open>src/stack/src/user/sdo/sdo-sequ.c\<close>): connections with a handshake,
  sequence numbers, acknowledges and a history of sent frames for retransmission.

  All functions work on one system state: the connections, the timer module they call (\<open>Timeru\<close>)
  and the calls made so far. What is outside is an environment: the results of the transport
  layers, and the reaction of the command layer to the callbacks, which may change the state by
  calling this module again. \<^term>\<open>None\<close> is undefined behaviour: an access outside an array, a
  corrupted list of timers.
\<close>

unbundle bit_operations_syntax

section \<open>State\<close>

datatype tSdoSeqEvent =
    kSdoSeqEventNoEvent | kSdoSeqEventInitCon | kSdoSeqEventFrameRec | kSdoSeqEventFrameSend
  | kSdoSeqEventTimeout | kSdoSeqEventCloseCon

datatype tSdoSeqState =
    kSdoSeqStateIdle | kSdoSeqStateInit1 | kSdoSeqStateInit2 | kSdoSeqStateInit3
  | kSdoSeqStateConnected | kSdoSeqStateWaitAck

text \<open>The SDO part of a frame: the two bytes of the sequence header and the payload.\<close>

record tAsySdoSeq =
  recvSeqNumCon :: byte
  sendSeqNumCon :: byte
  sdoSeqPayload :: "byte list"

record tSdoSeqConHistory =
  histFreeEntries :: nat
  writeIndex :: nat
  ackIndex :: nat
  readIndex :: nat
  aHistoryFrame :: "tAsySdoSeq list"
  aFrameSize :: "nat list"

record tSdoSeqCon =
  conHandle :: u32
  sdoSeqState :: tSdoSeqState
  recvSeqNum :: byte
  sendSeqNum :: byte
  sdoSeqConHistory :: tSdoSeqConHistory
  timerHandle :: nat
  retryCount :: nat
  useCount :: nat

datatype seq_out =
    SeqSent u32 tAsySdoSeq nat \<comment> \<open>a frame for a transport connection, its size\<close>
  | SeqRecvCb u32 "byte list" nat \<comment> \<open>the payload of a frame and its size, for the command layer\<close>
  | SeqConCb u32 tAsySdoConState \<comment> \<open>a connection state for the command layer\<close>
  | SeqLowerDel u32

record sdoseq_system =
  aSdoSeqCon :: "tSdoSeqCon list"
  pfnSdoComRecvCb :: bool \<comment> \<open>is the callback set?\<close>
  pfnSdoComConCb :: bool
  sdoSeqTimeout :: nat
  seqTimers :: tTimeruInstance
  seqTick :: nat
  seqOuts :: "seq_out list"

text \<open>
  \<open>lowerInit t n\<close> is what the transport \<open>t\<close> answers when a connection to node \<open>n\<close> is opened:
  its result and handle. \<open>lowerAdd\<close> and \<open>lowerRemove\<close> are the results of starting and
  stopping the UDP (\<^term>\<open>True\<close>) and the ASnd transport.
\<close>

record seq_env =
  includeUdp :: bool
  includeAsnd :: bool
  lowerAdd :: "bool \<Rightarrow> tOplkError"
  lowerRemove :: "bool \<Rightarrow> tOplkError"
  lowerSend :: "seq_out list \<Rightarrow> tOplkError"
  lowerInit :: "tSdoType \<Rightarrow> nat \<Rightarrow> seq_out list \<Rightarrow> tOplkError \<times> u32"
  lowerDel :: "seq_out list \<Rightarrow> tOplkError"
  reaction :: "seq_out \<Rightarrow> sdoseq_system \<Rightarrow> sdoseq_system option"

abbreviation SDO_HISTORY_SIZE :: nat where "SDO_HISTORY_SIZE \<equiv> 5"
abbreviation CONFIG_SDO_MAX_CONNECTION_SEQ :: nat where "CONFIG_SDO_MAX_CONNECTION_SEQ \<equiv> 5"
abbreviation SDO_SEQ_DEFAULT_TIMEOUT :: nat where "SDO_SEQ_DEFAULT_TIMEOUT \<equiv> 5000"
abbreviation SDO_SEQ_RETRY_COUNT :: nat where "SDO_SEQ_RETRY_COUNT \<equiv> 5"
abbreviation SDO_SEQ_NUM_THRESHOLD :: byte where "SDO_SEQ_NUM_THRESHOLD \<equiv> 100"
abbreviation SDO_SEQ_HEADER_SIZE :: nat where "SDO_SEQ_HEADER_SIZE \<equiv> 4"
abbreviation SDO_SEQ_HISTROY_FRAME_SIZE :: nat where "SDO_SEQ_HISTROY_FRAME_SIZE \<equiv> 300"
abbreviation ASND_HEADER_SIZE :: nat where "ASND_HEADER_SIZE \<equiv> 4"
abbreviation ETH_HEADER_SIZE :: nat where "ETH_HEADER_SIZE \<equiv> 14"
abbreviation SDO_CON_MASK :: byte where "SDO_CON_MASK \<equiv> 0x03"
abbreviation SEQ_NUM_MASK :: byte where "SEQ_NUM_MASK \<equiv> 0xFC"
abbreviation SDO_SEQU_MAX_TIMEOUT_MS :: nat where "SDO_SEQU_MAX_TIMEOUT_MS \<equiv> 86400000"
abbreviation SDO_ASY_HANDLE :: u32 where "SDO_ASY_HANDLE \<equiv> 0x8000"
abbreviation SDO_UDP_HANDLE :: u32 where "SDO_UDP_HANDLE \<equiv> 0x8000"
abbreviation SDO_ASND_HANDLE :: u32 where "SDO_ASND_HANDLE \<equiv> 0x4000"
abbreviation SDO_ASY_HANDLE_MASK :: u32 where "SDO_ASY_HANDLE_MASK \<equiv> 0xC000"

definition zero_con :: tSdoSeqCon where
  "zero_con = \<lparr>conHandle = 0, sdoSeqState = kSdoSeqStateIdle, recvSeqNum = 0, sendSeqNum = 0,
     sdoSeqConHistory = \<lparr>histFreeEntries = 0, writeIndex = 0, ackIndex = 0, readIndex = 0,
       aHistoryFrame = replicate SDO_HISTORY_SIZE \<lparr>recvSeqNumCon = 0, sendSeqNumCon = 0, sdoSeqPayload = []\<rparr>,
       aFrameSize = replicate SDO_HISTORY_SIZE 0\<rparr>,
     timerHandle = 0, retryCount = 0, useCount = 0\<rparr>"

definition con :: "nat \<Rightarrow> sdoseq_system \<Rightarrow> tSdoSeqCon" where
  "con i s = aSdoSeqCon s ! i"

definition upd :: "nat \<Rightarrow> (tSdoSeqCon \<Rightarrow> tSdoSeqCon) \<Rightarrow> sdoseq_system \<Rightarrow> sdoseq_system" where
  "upd i f s = s\<lparr>aSdoSeqCon := (aSdoSeqCon s)[i := f (con i s)]\<rparr>"

definition hist :: "nat \<Rightarrow> sdoseq_system \<Rightarrow> tSdoSeqConHistory" where
  "hist i s = sdoSeqConHistory (con i s)"

definition upd_hist :: "nat \<Rightarrow> (tSdoSeqConHistory \<Rightarrow> tSdoSeqConHistory) \<Rightarrow> sdoseq_system \<Rightarrow> sdoseq_system" where
  "upd_hist i f = upd i (\<lambda>c. c\<lparr>sdoSeqConHistory := f (sdoSeqConHistory c)\<rparr>)"

definition set_state :: "nat \<Rightarrow> tSdoSeqState \<Rightarrow> sdoseq_system \<Rightarrow> sdoseq_system" where
  "set_state i st = upd i (\<lambda>c. c\<lparr>sdoSeqState := st\<rparr>)"

definition seq_call :: "seq_out \<Rightarrow> sdoseq_system \<Rightarrow> sdoseq_system" where
  "seq_call call s = s\<lparr>seqOuts := seqOuts s @ [call]\<rparr>"

text \<open>The handle of a connection for the command layer, and the calls of its callbacks.\<close>

definition seq_handle :: "nat \<Rightarrow> u32" where
  "seq_handle i = word_of_nat i OR SDO_ASY_HANDLE"

definition conCb :: "seq_env \<Rightarrow> nat \<Rightarrow> tAsySdoConState \<Rightarrow> sdoseq_system \<Rightarrow> sdoseq_system option" where
  "conCb E i st s =
     (if pfnSdoComConCb s then
        let call = SeqConCb (seq_handle i) st in reaction E call (seq_call call s)
      else None)"

definition recvCb ::
  "seq_env \<Rightarrow> nat \<Rightarrow> tAsySdoSeq \<Rightarrow> nat \<Rightarrow> sdoseq_system \<Rightarrow> sdoseq_system option" where
  "recvCb E i fr dataSize s =
     (if pfnSdoComRecvCb s then
        let call = SeqRecvCb (seq_handle i) (sdoSeqPayload fr) (dataSize - SDO_SEQ_HEADER_SIZE)
        in reaction E call (seq_call call s)
      else None)"

section \<open>Timers, history and sending\<close>

definition setTimer :: "nat \<Rightarrow> nat \<Rightarrow> sdoseq_system \<Rightarrow> (tOplkError \<times> sdoseq_system) option" where
  "setTimer i timeout s =
     (let arg = \<lparr>timerSink = kEventSinkSdoAsySeq, timerValue = i + 1\<rparr>;
          h = timerHandle (con i s)
      in map_option (\<lambda>(ret, hdl, t). (ret, upd i (\<lambda>c. c\<lparr>timerHandle := the hdl\<rparr>) (s\<lparr>seqTimers := t\<rparr>)))
           (if h = 0 then Some (timeru_setTimer (seqTick s) (Some h) timeout arg (seqTimers s))
            else timeru_modifyTimer (seqTick s) (Some h) timeout arg (seqTimers s)))"

definition deleteTimer :: "nat \<Rightarrow> sdoseq_system \<Rightarrow> sdoseq_system option" where
  "deleteTimer i s =
     map_option (\<lambda>(ret, hdl, t). upd i (\<lambda>c. c\<lparr>timerHandle := the hdl\<rparr>) (s\<lparr>seqTimers := t\<rparr>))
       (timeru_deleteTimer (Some (timerHandle (con i s))) (seqTimers s))"

definition initHistory :: "nat \<Rightarrow> sdoseq_system \<Rightarrow> tOplkError \<times> sdoseq_system" where
  "initHistory i s =
     (kErrorOk, upd_hist i (\<lambda>h. h\<lparr>histFreeEntries := SDO_HISTORY_SIZE, ackIndex := 0, writeIndex := 0\<rparr>) s)"

definition addFrameToHistory ::
  "nat \<Rightarrow> tAsySdoSeq \<Rightarrow> nat \<Rightarrow> sdoseq_system \<Rightarrow> (tOplkError \<times> sdoseq_system) option" where
  "addFrameToHistory i fr size_p s =
     (if SDO_SEQ_HISTROY_FRAME_SIZE < size_p then Some (kErrorSdoSeqFrameSizeError, s)
      else
        let h = hist i s
        in if 0 < histFreeEntries h then
             (if writeIndex h < SDO_HISTORY_SIZE \<and>
                 ETH_HEADER_SIZE + ASND_HEADER_SIZE + size_p \<le> SDO_SEQ_HISTROY_FRAME_SIZE then
                Some (kErrorOk,
                  upd_hist i (\<lambda>h. h\<lparr>aHistoryFrame := (aHistoryFrame h)[writeIndex h := fr],
                    aFrameSize := (aFrameSize h)[writeIndex h := size_p],
                    histFreeEntries := histFreeEntries h - 1,
                    writeIndex := (if writeIndex h + 1 = SDO_HISTORY_SIZE then 0 else writeIndex h + 1)\<rparr>) s)
              else None)
           else Some (kErrorSdoSeqNoFreeHistory, s))"

text \<open>
  The loop of \<^verbatim>\<open>deleteAckedFrameFromHistory\<close>, on the history and the local index; \<^term>\<open>True\<close> is
  its return from inside, which does not store the index.
\<close>

partial_function (option) deleteAckedLoop ::
  "byte \<Rightarrow> nat \<Rightarrow> tSdoSeqConHistory \<Rightarrow> (bool \<times> nat \<times> tSdoSeqConHistory) option" where
  "deleteAckedLoop recvSeq ack h =
     (if ack < SDO_HISTORY_SIZE then
        let current = sendSeqNumCon (aHistoryFrame h ! ack) AND SEQ_NUM_MASK
        in if (recvSeq - current) AND SEQ_NUM_MASK < SDO_SEQ_NUM_THRESHOLD then
             let h = h\<lparr>aFrameSize := (aFrameSize h)[ack := 0], histFreeEntries := histFreeEntries h + 1\<rparr>;
                 ack = (if ack + 1 = SDO_HISTORY_SIZE then 0 else ack + 1)
             in if (recvSeq - 1 - current) AND SEQ_NUM_MASK < SDO_SEQ_NUM_THRESHOLD \<and> writeIndex h \<noteq> ack
                then deleteAckedLoop recvSeq ack h
                else Some (False, ack, h)
           else Some (True, ack, h)
      else None)"

definition deleteAckedFrameFromHistory ::
  "nat \<Rightarrow> byte \<Rightarrow> sdoseq_system \<Rightarrow> (tOplkError \<times> sdoseq_system) option" where
  "deleteAckedFrameFromHistory i recvSeq s =
     (if histFreeEntries (hist i s) < SDO_HISTORY_SIZE then
        map_option (\<lambda>(early, ack, h).
            (kErrorOk, upd_hist i (\<lambda>_. if early then h else h\<lparr>ackIndex := ack\<rparr>) s))
          (deleteAckedLoop recvSeq (ackIndex (hist i s)) (hist i s))
      else Some (kErrorOk, s))"

text \<open>The frame to retransmit next, if there is one, with its index in the history and its size.\<close>

definition readFromHistory ::
  "nat \<Rightarrow> bool \<Rightarrow> sdoseq_system \<Rightarrow> ((nat \<times> nat) option \<times> sdoseq_system) option" where
  "readFromHistory i fInitRead s =
     (let s = (if fInitRead then upd_hist i (\<lambda>h. h\<lparr>readIndex := ackIndex h\<rparr>) s else s);
          h = hist i s
      in if histFreeEntries h < SDO_HISTORY_SIZE \<and> writeIndex h \<noteq> readIndex h then
           (if readIndex h < SDO_HISTORY_SIZE then
              Some (Some (readIndex h, aFrameSize h ! readIndex h),
                upd_hist i (\<lambda>h. h\<lparr>readIndex :=
                  (if readIndex h + 1 = SDO_HISTORY_SIZE then 0 else readIndex h + 1)\<rparr>) s)
            else None)
         else Some (None, s))"

definition sendToLowerLayer ::
  "seq_env \<Rightarrow> nat \<Rightarrow> nat \<Rightarrow> tAsySdoSeq \<Rightarrow> sdoseq_system \<Rightarrow> tOplkError \<times> sdoseq_system" where
  "sendToLowerLayer E i dataSize fr s =
     (let h = conHandle (con i s);
          send = (let s = seq_call (SeqSent h fr dataSize) s in (lowerSend E (seqOuts s), s))
      in if h AND SDO_ASY_HANDLE_MASK = SDO_UDP_HANDLE then
           (if includeUdp E then send else (kErrorSdoSeqUnsupportedProt, s))
         else if h AND SDO_ASY_HANDLE_MASK = SDO_ASND_HANDLE then
           (if includeAsnd E then send else (kErrorSdoSeqUnsupportedProt, s))
         else (kErrorSdoSeqInvalidHdl, s))"

definition sendFrame ::
  "seq_env \<Rightarrow> nat \<Rightarrow> nat \<Rightarrow> byte list option \<Rightarrow> bool \<Rightarrow> sdoseq_system \<Rightarrow>
    (tOplkError \<times> sdoseq_system) option" where
  "sendFrame E i dataSize pData fFrameInHistory s =
     (if dataSize \<le> length (case pData of None \<Rightarrow> [] | Some bs \<Rightarrow> bs) then
        let payload = take dataSize (case pData of None \<Rightarrow> [] | Some bs \<Rightarrow> bs);
            freeEntries = (if fFrameInHistory then histFreeEntries (hist i s) else 0);
            s = (if fFrameInHistory \<and> freeEntries \<le> 1
                 then upd i (\<lambda>c. c\<lparr>recvSeqNum := recvSeqNum c OR 0x03\<rparr>) s else s);
            fr = \<lparr>recvSeqNumCon = sendSeqNum (con i s), sendSeqNumCon = recvSeqNum (con i s),
                  sdoSeqPayload = payload\<rparr>;
            dataSize = dataSize + SDO_SEQ_HEADER_SIZE;
            (ret, s) = sendToLowerLayer E i dataSize fr s
        in if ret = kErrorOk \<and> fFrameInHistory then
             let s = (if recvSeqNum (con i s) AND 0x03 = 0x03
                      then upd i (\<lambda>c. c\<lparr>recvSeqNum := recvSeqNum c - 1\<rparr>) s else s)
             in do {
               (ret, s) \<leftarrow> addFrameToHistory i fr dataSize s;
               Some (if ret = kErrorSdoSeqNoFreeHistory \<or> freeEntries \<le> 1
                     then kErrorSdoSeqRequestAckNeeded else ret, s)
             }
           else Some (ret, s)
      else None)"

text \<open>The two loops that send the history again.\<close>

partial_function (option) resendHistory ::
  "seq_env \<Rightarrow> nat \<Rightarrow> (nat \<times> nat) option \<Rightarrow> sdoseq_system \<Rightarrow> (tOplkError \<times> sdoseq_system) option" where
  "resendHistory E i cur s =
     (case cur of
        None \<Rightarrow> Some (kErrorOk, s)
      | Some (idx, frameSize) \<Rightarrow>
          if frameSize = 0 then Some (kErrorOk, s)
          else
            let (ret, s) = sendToLowerLayer E i frameSize (aHistoryFrame (hist i s) ! idx) s
            in if ret \<noteq> kErrorOk then Some (ret, s)
               else do {
                 (cur, s) \<leftarrow> readFromHistory i False s;
                 resendHistory E i cur s
               })"

section \<open>The state machine\<close>

text \<open>
  What the handlers have in common: taking over the numbers of a received frame, clearing the
  connection bits of both numbers (\<^verbatim>\<open>scon\<close> and \<^verbatim>\<open>rcon\<close> are 0: the frame closes the connection),
  and the answer to a frame that does not fit the handshake.
\<close>

definition scon :: "tAsySdoSeq \<Rightarrow> byte" where
  "scon fr = sendSeqNumCon fr AND SDO_CON_MASK"

definition rcon :: "tAsySdoSeq \<Rightarrow> byte" where
  "rcon fr = recvSeqNumCon fr AND SDO_CON_MASK"

definition saveSeqNums :: "nat \<Rightarrow> tAsySdoSeq \<Rightarrow> sdoseq_system \<Rightarrow> sdoseq_system" where
  "saveSeqNums i fr = upd i (\<lambda>c. c\<lparr>recvSeqNum := recvSeqNumCon fr, sendSeqNum := sendSeqNumCon fr\<rparr>)"

definition clearCons :: "nat \<Rightarrow> sdoseq_system \<Rightarrow> sdoseq_system" where
  "clearCons i = upd i (\<lambda>c. c\<lparr>sendSeqNum := sendSeqNum c AND SEQ_NUM_MASK,
     recvSeqNum := recvSeqNum c AND SEQ_NUM_MASK\<rparr>)"

definition rejectFrame ::
  "seq_env \<Rightarrow> nat \<Rightarrow> tAsySdoSeq \<Rightarrow> sdoseq_system \<Rightarrow> (tOplkError \<times> sdoseq_system) option" where
  "rejectFrame E i fr s = do {
     s \<leftarrow> deleteTimer i s;
     s \<leftarrow> (if rcon fr \<noteq> 0 \<or> scon fr \<noteq> 0 then
             map_option snd (sendFrame E i 0 None False (clearCons i (saveSeqNums i fr s)))
           else Some s);
     s \<leftarrow> conCb E i kAsySdoConStateInitError s;
     Some (kErrorOk, s)
   }"

definition closeIdle ::
  "seq_env \<Rightarrow> nat \<Rightarrow> tAsySdoConState \<Rightarrow> sdoseq_system \<Rightarrow> (tOplkError \<times> sdoseq_system) option" where
  "closeIdle E i st s = do {
     (_, s) \<leftarrow> sendFrame E i 0 None False (clearCons i (set_state i kSdoSeqStateIdle s));
     s \<leftarrow> conCb E i st s;
     Some (kErrorOk, s)
   }"

text \<open>A step of the handshake: take over the numbers, answer with the own one, go to \<open>st\<close>.\<close>

definition answerFrame ::
  "seq_env \<Rightarrow> nat \<Rightarrow> tAsySdoSeq \<Rightarrow> sdoseq_system \<Rightarrow> (tOplkError \<times> sdoseq_system) option" where
  "answerFrame E i fr s =
     sendFrame E i 0 None False (upd i (\<lambda>c. c\<lparr>recvSeqNum := recvSeqNum c + 1\<rparr>) (saveSeqNums i fr s))"

text \<open>The end of the handshake: history and timer are set up, and the command layer is told.\<close>

definition enterConnected ::
  "seq_env \<Rightarrow> nat \<Rightarrow> sdoseq_system \<Rightarrow> (tOplkError \<times> sdoseq_system) option" where
  "enterConnected E i s =
     (let (ret, s) = initHistory i (set_state i kSdoSeqStateConnected s)
      in if ret \<noteq> kErrorOk then Some (ret, s)
         else do {
           (ret, s) \<leftarrow> setTimer i (sdoSeqTimeout s) s;
           s \<leftarrow> conCb E i kAsySdoConStateConnected s;
           Some (ret, s)
         })"

definition processStateIdle ::
  "seq_env \<Rightarrow> nat \<Rightarrow> tSdoSeqEvent \<Rightarrow> tAsySdoSeq option \<Rightarrow> sdoseq_system \<Rightarrow>
    (tOplkError \<times> sdoseq_system) option" where
  "processStateIdle E i event pRecvFrame s =
     (case event of
        kSdoSeqEventInitCon \<Rightarrow> do {
          (ret, s) \<leftarrow> sendFrame E i 0 None False
             (upd i (\<lambda>c. c\<lparr>recvSeqNum := 0x01, sendSeqNum := 0x00\<rparr>) s);
          (if ret \<noteq> kErrorOk then Some (ret, s)
           else setTimer i (sdoSeqTimeout s) (set_state i kSdoSeqStateInit1 s))
        }
      | kSdoSeqEventFrameRec \<Rightarrow> do {
          fr \<leftarrow> pRecvFrame;
          (if rcon fr = 0 \<and> scon fr = 1 then do {
             (ret, s) \<leftarrow> answerFrame E i fr s;
             (if ret \<noteq> kErrorOk then Some (kErrorOk, s)
              else setTimer i (sdoSeqTimeout s) (set_state i kSdoSeqStateInit2 s))
           }
           else rejectFrame E i fr s)
        }
      | _ \<Rightarrow> Some (kErrorOk, s))"

definition processStateInit1 ::
  "seq_env \<Rightarrow> nat \<Rightarrow> tSdoSeqEvent \<Rightarrow> tAsySdoSeq option \<Rightarrow> sdoseq_system \<Rightarrow>
    (tOplkError \<times> sdoseq_system) option" where
  "processStateInit1 E i event pRecvFrame s =
     (case event of
        kSdoSeqEventFrameRec \<Rightarrow> do {
          fr \<leftarrow> pRecvFrame;
          (if rcon fr = 1 \<and> scon fr = 1 then do {
             (ret, s) \<leftarrow> answerFrame E i fr s;
             (if ret \<noteq> kErrorOk then Some (ret, s)
              else setTimer i (sdoSeqTimeout s) (set_state i kSdoSeqStateInit3 s))
           }
           else if rcon fr = 0 \<and> scon fr = 1 then do {
             (ret, s) \<leftarrow> answerFrame E i fr s;
             (if ret \<noteq> kErrorOk then Some (ret, s)
              else setTimer i (sdoSeqTimeout s) (set_state i kSdoSeqStateInit2 s))
           }
           else rejectFrame E i fr (set_state i kSdoSeqStateIdle s))
        }
      | kSdoSeqEventTimeout \<Rightarrow> closeIdle E i kAsySdoConStateInitError s
      | _ \<Rightarrow> Some (kErrorOk, s))"

definition processStateInit2 ::
  "seq_env \<Rightarrow> nat \<Rightarrow> tSdoSeqEvent \<Rightarrow> tAsySdoSeq option \<Rightarrow> sdoseq_system \<Rightarrow>
    (tOplkError \<times> sdoseq_system) option" where
  "processStateInit2 E i event pRecvFrame s =
     (case event of
        kSdoSeqEventFrameRec \<Rightarrow> do {
          fr \<leftarrow> pRecvFrame;
          (if rcon fr = 1 \<and> scon fr = 2 then do {
             (ret, s) \<leftarrow> answerFrame E i fr s;
             (if ret \<noteq> kErrorOk then Some (ret, s) else enterConnected E i s)
           }
           else if rcon fr = 1 \<and> scon fr = 1 then do {
             (ret, s) \<leftarrow> answerFrame E i fr s;
             (if ret \<noteq> kErrorOk then Some (ret, s)
              else do {
                (ret, s) \<leftarrow> setTimer i (sdoSeqTimeout s) s;
                Some (ret, set_state i kSdoSeqStateInit3 s)
              })
           }
           else rejectFrame E i fr (set_state i kSdoSeqStateIdle s))
        }
      | kSdoSeqEventTimeout \<Rightarrow> closeIdle E i kAsySdoConStateInitError s
      | _ \<Rightarrow> Some (kErrorOk, s))"

definition processStateInit3 ::
  "seq_env \<Rightarrow> nat \<Rightarrow> tSdoSeqEvent \<Rightarrow> tAsySdoSeq option \<Rightarrow> sdoseq_system \<Rightarrow>
    (tOplkError \<times> sdoseq_system) option" where
  "processStateInit3 E i event pRecvFrame s =
     (case event of
        kSdoSeqEventFrameRec \<Rightarrow> do {
          fr \<leftarrow> pRecvFrame;
          (if rcon fr = 2 \<and> scon fr = 2 then enterConnected E i (saveSeqNums i fr s)
           else if rcon fr = 1 \<and> scon fr = 2 then do {
             (ret, s) \<leftarrow> answerFrame E i fr s;
             (if ret \<noteq> kErrorOk then Some (ret, s) else enterConnected E i s)
           }
           else rejectFrame E i fr (set_state i kSdoSeqStateIdle s))
        }
      | kSdoSeqEventTimeout \<Rightarrow> closeIdle E i kAsySdoConStateInitError s
      | _ \<Rightarrow> Some (kErrorOk, s))"

text \<open>
  The branches of \<^verbatim>\<open>processStateConnected\<close>: sending, receiving a frame of the connection, and the
  timeout.
\<close>

definition connectedSend ::
  "seq_env \<Rightarrow> nat \<Rightarrow> nat \<Rightarrow> byte list option \<Rightarrow> sdoseq_system \<Rightarrow>
    (tOplkError \<times> sdoseq_system) option" where
  "connectedSend E i dataSize pData s = do {
     (_, s) \<leftarrow> setTimer i (sdoSeqTimeout s) s;
     (case pData of
        None \<Rightarrow> sendFrame E i 0 None False s
      | Some bs \<Rightarrow> do {
          (ret, s) \<leftarrow> sendFrame E i dataSize (Some bs) True
             (upd i (\<lambda>c. c\<lparr>recvSeqNum := recvSeqNum c + 4\<rparr>) s);
          (if ret = kErrorSdoSeqRequestAckNeeded then
             Some (kErrorOk, set_state i kSdoSeqStateWaitAck s)
           else if ret \<noteq> kErrorOk then Some (ret, s)
           else do {
             s \<leftarrow> conCb E i kAsySdoConStateFrameSended s;
             Some (ret, s)
           })
        })
   }"

definition connectedData ::
  "seq_env \<Rightarrow> nat \<Rightarrow> tAsySdoSeq \<Rightarrow> nat \<Rightarrow> tOplkError \<Rightarrow> sdoseq_system \<Rightarrow>
    (tOplkError \<times> sdoseq_system) option" where
  "connectedData E i fr dataSize ret s =
     (let num = sendSeqNumCon fr;
          ack = (\<lambda>s. if scon fr = 3 then sendFrame E i 0 None False s else Some (ret, s))
      in if (sendSeqNum (con i s) + 4) AND SEQ_NUM_MASK = num AND SEQ_NUM_MASK then
           let s = upd i (\<lambda>c. c\<lparr>sendSeqNum := num AND NOT 0x01\<rparr>) s
           in if SDO_SEQ_HEADER_SIZE < dataSize then do {
                s \<leftarrow> recvCb E i fr dataSize s;
                s \<leftarrow> conCb E i kAsySdoConStateFrameSended s;
                ack s
              }
              else do {
                s \<leftarrow> conCb E i kAsySdoConStateAckReceived s;
                ack s
              }
         else if (num - sendSeqNum (con i s) - 4) AND SEQ_NUM_MASK < SDO_SEQ_NUM_THRESHOLD then do {
           (ret, s) \<leftarrow> sendFrame E i 0 None False (upd i (\<lambda>c. c\<lparr>sendSeqNum := sendSeqNum c OR 0x03\<rparr>) s);
           Some (ret, upd i (\<lambda>c. c\<lparr>sendSeqNum := (sendSeqNum c AND SEQ_NUM_MASK) OR 0x02\<rparr>) s)
         }
         else ack s)"

definition connectedReceive ::
  "seq_env \<Rightarrow> nat \<Rightarrow> tAsySdoSeq \<Rightarrow> nat \<Rightarrow> sdoseq_system \<Rightarrow> (tOplkError \<times> sdoseq_system) option" where
  "connectedReceive E i fr dataSize s = do {
     (ret, s) \<leftarrow> setTimer i (sdoSeqTimeout s) s;
     (if scon fr = 0 then do {
        s \<leftarrow> deleteTimer i (set_state i kSdoSeqStateIdle s);
        s \<leftarrow> conCb E i kAsySdoConStateConClosed s;
        Some (ret, s)
      }
      else if scon fr = 1 then do {
        s \<leftarrow> deleteTimer i (set_state i kSdoSeqStateIdle s);
        s \<leftarrow> conCb E i kAsySdoConStateTransferAbort s;
        Some (kErrorRetry, s)
      }
      else do {
        (ret, s) \<leftarrow>
           (if rcon fr = 3 then do {
              (cur, s) \<leftarrow> readFromHistory i True s;
              resendHistory E i cur s
            }
            else Some (ret, s));
        (if rcon fr = 3 \<and> ret \<noteq> kErrorOk then Some (ret, s)
         else connectedData E i fr dataSize ret s)
      })
   }"

definition connectedTimeout ::
  "seq_env \<Rightarrow> nat \<Rightarrow> sdoseq_system \<Rightarrow> (tOplkError \<times> sdoseq_system) option" where
  "connectedTimeout E i s =
     (if histFreeEntries (hist i s) < SDO_HISTORY_SIZE \<and> retryCount (con i s) < SDO_SEQ_RETRY_COUNT then do {
        (_, s) \<leftarrow> setTimer i (sdoSeqTimeout s) (upd i (\<lambda>c. c\<lparr>retryCount := retryCount c + 1\<rparr>) s);
        (cur, s) \<leftarrow> readFromHistory i True s;
        (case cur of
           None \<Rightarrow> Some (kErrorOk, s)
         | Some (idx, frameSize) \<Rightarrow>
             if frameSize = 0 then Some (kErrorOk, s)
             else
               let fr = (aHistoryFrame (hist i s) ! idx);
                   fr = fr\<lparr>sendSeqNumCon := sendSeqNumCon fr OR 0x03\<rparr>;
                   s = upd_hist i (\<lambda>h. h\<lparr>aHistoryFrame := (aHistoryFrame h)[idx := fr]\<rparr>) s
               in Some (sendToLowerLayer E i frameSize fr s))
      }
      else closeIdle E i kAsySdoConStateTimeout s)"

definition processStateConnected ::
  "seq_env \<Rightarrow> nat \<Rightarrow> tSdoSeqEvent \<Rightarrow> tAsySdoSeq option \<Rightarrow> nat \<Rightarrow> byte list option \<Rightarrow> sdoseq_system \<Rightarrow>
    (tOplkError \<times> sdoseq_system) option" where
  "processStateConnected E i event pRecvFrame dataSize pData s =
     (case event of
        kSdoSeqEventFrameSend \<Rightarrow> connectedSend E i dataSize pData s
      | kSdoSeqEventFrameRec \<Rightarrow> do {
          fr \<leftarrow> pRecvFrame;
          connectedReceive E i fr dataSize s
        }
      | kSdoSeqEventCloseCon \<Rightarrow> do {
          (_, s) \<leftarrow> sendFrame E i 0 None False (clearCons i (set_state i kSdoSeqStateIdle s));
          s \<leftarrow> deleteTimer i s;
          Some (kErrorOk, s)
        }
      | kSdoSeqEventTimeout \<Rightarrow> connectedTimeout E i s
      | _ \<Rightarrow> Some (kErrorOk, s))"

definition waitAckReceive ::
  "seq_env \<Rightarrow> nat \<Rightarrow> tAsySdoSeq \<Rightarrow> nat \<Rightarrow> tOplkError \<Rightarrow> sdoseq_system \<Rightarrow>
    (tOplkError \<times> sdoseq_system) option" where
  "waitAckReceive E i fr dataSize ret s =
     (if rcon fr = 0 then do {
        s \<leftarrow> deleteTimer i (set_state i kSdoSeqStateIdle s);
        s \<leftarrow> conCb E i kAsySdoConStateConClosed s;
        Some (ret, s)
      }
      else if rcon fr = 1 then do {
        s \<leftarrow> deleteTimer i (set_state i kSdoSeqStateIdle s);
        s \<leftarrow> conCb E i kAsySdoConStateTransferAbort s;
        Some (kErrorRetry, s)
      }
      else if rcon fr = 2 then do {
        s \<leftarrow> conCb E i kAsySdoConStateAckReceived (set_state i kSdoSeqStateConnected s);
        s \<leftarrow> (if SDO_SEQ_HEADER_SIZE < dataSize then recvCb E i fr dataSize s else Some s);
        Some (ret, s)
      }
      else if recvSeqNumCon fr = recvSeqNum (con i s) then
        let s = upd i (\<lambda>c. c\<lparr>recvSeqNum := recvSeqNum c - 1\<rparr>)
                  (saveSeqNums i fr (set_state i kSdoSeqStateConnected s))
        in if SDO_SEQ_HEADER_SIZE < dataSize then do {
             s \<leftarrow> recvCb E i fr dataSize s;
             s \<leftarrow> conCb E i kAsySdoConStateFrameSended s;
             Some (ret, s)
           }
           else sendFrame E i 0 None False s
      else do {
        (cur, s) \<leftarrow> readFromHistory i True s;
        resendHistory E i cur s
      })"

definition processStateWaitAck ::
  "seq_env \<Rightarrow> nat \<Rightarrow> tSdoSeqEvent \<Rightarrow> tAsySdoSeq option \<Rightarrow> nat \<Rightarrow> sdoseq_system \<Rightarrow>
    (tOplkError \<times> sdoseq_system) option" where
  "processStateWaitAck E i event pRecvFrame dataSize s = do {
     (ret, s) \<leftarrow> setTimer i (sdoSeqTimeout s) s;
     (if event = kSdoSeqEventFrameRec then do {
        fr \<leftarrow> pRecvFrame;
        waitAckReceive E i fr dataSize ret s
      }
      else if event = kSdoSeqEventTimeout then do {
        (_, s) \<leftarrow> closeIdle E i kAsySdoConStateTimeout s;
        Some (ret, s)
      }
      else Some (ret, s))
   }"

definition processState ::
  "seq_env \<Rightarrow> u32 \<Rightarrow> nat \<Rightarrow> byte list option \<Rightarrow> tAsySdoSeq option \<Rightarrow> tSdoSeqEvent \<Rightarrow>
    sdoseq_system \<Rightarrow> (tOplkError \<times> sdoseq_system) option" where
  "processState E handle dataSize pData pRecvFrame event s =
     (if (handle OR SDO_ASY_HANDLE) AND NOT SDO_SEQ_HANDLE_MASK = SDO_SEQ_INVALID_HDL then
        Some (kErrorSdoSeqInvalidHdl, s)
      else
        let i = unat handle
        in if CONFIG_SDO_MAX_CONNECTION_SEQ \<le> i then None
           else if pData = None \<and> pRecvFrame = None \<and> dataSize \<noteq> 0 then
             Some (kErrorSdoSeqInvalidFrame, s)
           else
             (case sdoSeqState (con i s) of
                kSdoSeqStateIdle \<Rightarrow> processStateIdle E i event pRecvFrame s
              | kSdoSeqStateInit1 \<Rightarrow> processStateInit1 E i event pRecvFrame s
              | kSdoSeqStateInit2 \<Rightarrow> processStateInit2 E i event pRecvFrame s
              | kSdoSeqStateInit3 \<Rightarrow> processStateInit3 E i event pRecvFrame s
              | kSdoSeqStateConnected \<Rightarrow>
                  processStateConnected E i event pRecvFrame dataSize pData s
              | kSdoSeqStateWaitAck \<Rightarrow> processStateWaitAck E i event pRecvFrame dataSize s))"

section \<open>Interface\<close>

definition sdoseq_addInstance ::
  "seq_env \<Rightarrow> bool \<Rightarrow> bool \<Rightarrow> sdoseq_system \<Rightarrow> tOplkError \<times> sdoseq_system" where
  "sdoseq_addInstance E recvCbSet conCbSet s =
     (if \<not> recvCbSet then (kErrorSdoSeqMissCb, s)
      else
        let s = s\<lparr>pfnSdoComRecvCb := True\<rparr>
        in if \<not> conCbSet then (kErrorSdoSeqMissCb, s)
           else
             let s = s\<lparr>pfnSdoComConCb := True,
                       aSdoSeqCon := replicate CONFIG_SDO_MAX_CONNECTION_SEQ zero_con\<rparr>
             in if includeUdp E \<and> lowerAdd E True \<noteq> kErrorOk then (lowerAdd E True, s)
                else if includeAsnd E \<and> lowerAdd E False \<noteq> kErrorOk then (lowerAdd E False, s)
                else (kErrorOk, s\<lparr>sdoSeqTimeout := SDO_SEQ_DEFAULT_TIMEOUT\<rparr>))"

definition sdoseq_init ::
  "seq_env \<Rightarrow> bool \<Rightarrow> bool \<Rightarrow> sdoseq_system \<Rightarrow> tOplkError \<times> sdoseq_system" where
  "sdoseq_init E recvCbSet conCbSet s = sdoseq_addInstance E recvCbSet conCbSet s"

text \<open>The loop over the connections of \<^verbatim>\<open>sdoseq_delInstance\<close>.\<close>

fun deleteTimers :: "nat list \<Rightarrow> sdoseq_system \<Rightarrow> sdoseq_system option" where
  "deleteTimers [] s = Some s"
| "deleteTimers (i # is) s =
     (if conHandle (con i s) \<noteq> 0 then
        (case deleteTimer i s of None \<Rightarrow> None | Some s \<Rightarrow> deleteTimers is s)
      else deleteTimers is s)"

definition sdoseq_delInstance :: "seq_env \<Rightarrow> sdoseq_system \<Rightarrow> (tOplkError \<times> sdoseq_system) option" where
  "sdoseq_delInstance E s =
     map_option (\<lambda>s.
        (if includeAsnd E then lowerRemove E False
         else if includeUdp E then lowerRemove E True else kErrorOk,
         s\<lparr>aSdoSeqCon := replicate CONFIG_SDO_MAX_CONNECTION_SEQ zero_con,
           pfnSdoComRecvCb := False, pfnSdoComConCb := False, sdoSeqTimeout := 0\<rparr>))
       (deleteTimers [0..<CONFIG_SDO_MAX_CONNECTION_SEQ] s)"

text \<open>
  The two searches: the connection of a handle of the transport, and a free entry, which
  \<^verbatim>\<open>receiveCb\<close> takes from the front and \<^verbatim>\<open>sdoseq_initCon\<close> from the end.
\<close>

definition findCon :: "u32 \<Rightarrow> sdoseq_system \<Rightarrow> nat option" where
  "findCon h s = find (\<lambda>i. conHandle (con i s) = h) [0..<CONFIG_SDO_MAX_CONNECTION_SEQ]"

definition claimCon :: "nat \<Rightarrow> u32 \<Rightarrow> sdoseq_system \<Rightarrow> sdoseq_system" where
  "claimCon i h = upd i (\<lambda>c. c\<lparr>conHandle := h, useCount := wrap32 (useCount c + 1)\<rparr>)"

definition sdoseq_initCon ::
  "seq_env \<Rightarrow> nat \<Rightarrow> tSdoType \<Rightarrow> sdoseq_system \<Rightarrow> (tOplkError \<times> u32 option \<times> sdoseq_system) option" where
  "sdoseq_initCon E nodeId sdoType s =
     (if (case sdoType of kSdoTypeUdp \<Rightarrow> includeUdp E | kSdoTypeAsnd \<Rightarrow> includeAsnd E | _ \<Rightarrow> False) then
        let (ret, h) = lowerInit E sdoType nodeId (seqOuts s)
        in if ret \<noteq> kErrorOk then Some (ret, None, s)
           else
             (case (case findCon h s of Some i \<Rightarrow> Some (i, s)
                    | None \<Rightarrow> map_option (\<lambda>i. (i, claimCon i h s))
                        (find (\<lambda>i. conHandle (con i s) = 0) (rev [0..<CONFIG_SDO_MAX_CONNECTION_SEQ]))) of
                None \<Rightarrow>
                  let s = seq_call (SeqLowerDel h) s; ret = lowerDel E (seqOuts s)
                  in Some (if ret \<noteq> kErrorOk then ret else kErrorSdoSeqNoFreeHandle, None, s)
              | Some (i, s) \<Rightarrow>
                  map_option (\<lambda>(ret, s). (ret, Some (seq_handle i), s))
                    (processState E (word_of_nat i) 0 None None kSdoSeqEventInitCon s))
      else Some (kErrorSdoSeqUnsupportedProt, None, s))"

definition sdoseq_sendData ::
  "seq_env \<Rightarrow> u32 \<Rightarrow> nat \<Rightarrow> byte list option \<Rightarrow> sdoseq_system \<Rightarrow> (tOplkError \<times> sdoseq_system) option" where
  "sdoseq_sendData E hdl dataSize pData s =
     (let handle = hdl AND NOT SDO_SEQ_HANDLE_MASK
      in if CONFIG_SDO_MAX_CONNECTION_SEQ \<le> unat handle then None
         else if sdoSeqState (con (unat handle) s) = kSdoSeqStateIdle then
           Some (kErrorSdoSeqInvalidHdl, s)
         else if sdoSeqState (con (unat handle) s) \<noteq> kSdoSeqStateConnected then
           Some (kErrorSdoSeqConnectionBusy, s)
         else processState E handle dataSize pData None kSdoSeqEventFrameSend s)"

text \<open>
  The argument of a timer event points to a connection; the value 0 stands for \<^verbatim>\<open>NULL\<close>, another
  value outside the table for a pointer to something else.
\<close>

definition sdoseq_processEvent ::
  "seq_env \<Rightarrow> tEvent option \<Rightarrow> sdoseq_system \<Rightarrow> (tOplkError \<times> sdoseq_system) option" where
  "sdoseq_processEvent E pEvent s =
     (case pEvent of
        None \<Rightarrow> Some (kErrorSdoSeqInvalidEvent, s)
      | Some event \<Rightarrow>
          if eventType event \<noteq> kEventTypeTimer then Some (kErrorSdoSeqInvalidEvent, s)
          else
            (case pEventArg event of
               ArgTimerValue timerHdl v \<Rightarrow>
                 if v = 0 then Some (kErrorOk, s)
                 else if CONFIG_SDO_MAX_CONNECTION_SEQ < v then None
                 else if timerHdl \<noteq> timerHandle (con (v - 1) s) then
                   map_option (\<lambda>(_, _, t). (kErrorOk, s\<lparr>seqTimers := t\<rparr>))
                     (timeru_deleteTimer (Some timerHdl) (seqTimers s))
                 else do {
                   s \<leftarrow> deleteTimer (v - 1) s;
                   processState E (word_of_nat (v - 1)) 0 None None kSdoSeqEventTimeout s
                 }
             | _ \<Rightarrow> None))"

definition lowerDelete :: "seq_env \<Rightarrow> nat \<Rightarrow> sdoseq_system \<Rightarrow> sdoseq_system" where
  "lowerDelete E i s =
     (let h = conHandle (con i s)
      in if (if h AND SDO_ASY_HANDLE_MASK = SDO_UDP_HANDLE then includeUdp E else includeAsnd E)
         then seq_call (SeqLowerDel h) s else s)"

definition sdoseq_deleteCon ::
  "seq_env \<Rightarrow> u32 \<Rightarrow> sdoseq_system \<Rightarrow> (tOplkError \<times> sdoseq_system) option" where
  "sdoseq_deleteCon E hdl s =
     (let handle = hdl AND NOT SDO_SEQ_HANDLE_MASK; i = unat handle
      in if CONFIG_SDO_MAX_CONNECTION_SEQ \<le> i then Some (kErrorSdoSeqInvalidHdl, s)
         else
           let s = upd i (\<lambda>c. c\<lparr>useCount := sub32 (useCount c) 1\<rparr>) s
           in if useCount (con i s) = 0 then do {
                (ret, s) \<leftarrow> processState E handle 0 None None kSdoSeqEventCloseCon s;
                s \<leftarrow> deleteTimer i (lowerDelete E i s);
                Some (ret, upd i (\<lambda>_. zero_con\<lparr>sdoSeqConHistory :=
                  (sdoSeqConHistory zero_con)\<lparr>histFreeEntries := SDO_HISTORY_SIZE\<rparr>\<rparr>) s)
              }
              else Some (kErrorOk, s))"

definition sdoseq_setTimeout :: "nat \<Rightarrow> sdoseq_system \<Rightarrow> tOplkError \<times> sdoseq_system" where
  "sdoseq_setTimeout timeout s =
     (kErrorOk, s\<lparr>sdoSeqTimeout := min timeout SDO_SEQU_MAX_TIMEOUT_MS\<rparr>)"

text \<open>
  Reception. One pass of the loop of \<^verbatim>\<open>receiveCb\<close>, and the loop: a frame that starts a new
  connection over an old one is processed again.
\<close>

definition receiveOnce ::
  "seq_env \<Rightarrow> u32 \<Rightarrow> tAsySdoSeq \<Rightarrow> nat \<Rightarrow> sdoseq_system \<Rightarrow> (tOplkError \<times> sdoseq_system) option" where
  "receiveOnce E conHdl fr dataSize s =
     (case (case findCon conHdl s of Some i \<Rightarrow> Some (i, s)
            | None \<Rightarrow> map_option (\<lambda>i. (i, claimCon i conHdl s))
                (find (\<lambda>i. conHandle (con i s) = 0) [0..<CONFIG_SDO_MAX_CONNECTION_SEQ])) of
        None \<Rightarrow> Some (kErrorSdoSeqNoFreeHandle, s)
      | Some (i, s) \<Rightarrow> do {
          (ret, s) \<leftarrow> deleteAckedFrameFromHistory i (recvSeqNumCon fr AND SEQ_NUM_MASK) s;
          (if ret \<noteq> kErrorOk then Some (ret, s)
           else processState E (word_of_nat i) dataSize None (Some fr) kSdoSeqEventFrameRec s)
        })"

partial_function (option) receiveCb ::
  "seq_env \<Rightarrow> u32 \<Rightarrow> tAsySdoSeq \<Rightarrow> nat \<Rightarrow> sdoseq_system \<Rightarrow> (tOplkError \<times> sdoseq_system) option" where
  "receiveCb E conHdl fr dataSize s = do {
     (ret, s) \<leftarrow> receiveOnce E conHdl fr dataSize s;
     (if ret = kErrorRetry then receiveCb E conHdl fr dataSize s else Some (ret, s))
   }"

section \<open>The invariant\<close>

text \<open>
  The indices of the history stay in the table, the timer handles of the connections are entries
  in use and not shared, and the entries of the timer list that belong to this module are the
  timers of connections. \<open>act\<close> are the connections whose state can answer with
  \<^term>\<open>kErrorRetry\<close>; \<open>evolves\<close> is what any call does that establishes no connection.
\<close>

definition hist_ok :: "tSdoSeqConHistory \<Rightarrow> bool" where
  "hist_ok h \<longleftrightarrow> length (aHistoryFrame h) = SDO_HISTORY_SIZE \<and> length (aFrameSize h) = SDO_HISTORY_SIZE \<and>
     ackIndex h < SDO_HISTORY_SIZE \<and> writeIndex h < SDO_HISTORY_SIZE \<and> readIndex h < SDO_HISTORY_SIZE"

definition handles_ok :: "(nat \<Rightarrow> nat) \<Rightarrow> tTimeruInstance \<Rightarrow> bool" where
  "handles_ok hdl t \<longleftrightarrow>
     distinct (map fst (timerList t) @ freeList t) \<and>
     (\<forall>i<CONFIG_SDO_MAX_CONNECTION_SEQ. hdl i \<noteq> 0 \<longrightarrow> hdl i - 1 \<notin> set (freeList t)) \<and>
     (\<forall>i<CONFIG_SDO_MAX_CONNECTION_SEQ. \<forall>j<CONFIG_SDO_MAX_CONNECTION_SEQ.
        hdl i = hdl j \<longrightarrow> hdl i \<noteq> 0 \<longrightarrow> i = j) \<and>
     (\<forall>e\<in>fst ` set (timerList t). timerSink (timerArgs t e) = kEventSinkSdoAsySeq \<longrightarrow>
        (\<exists>i<CONFIG_SDO_MAX_CONNECTION_SEQ. timerValue (timerArgs t e) = i + 1 \<and> hdl i = e + 1))"

definition seq_ok :: "sdoseq_system \<Rightarrow> bool" where
  "seq_ok s \<longleftrightarrow> length (aSdoSeqCon s) = CONFIG_SDO_MAX_CONNECTION_SEQ \<and>
     (\<forall>i<CONFIG_SDO_MAX_CONNECTION_SEQ. hist_ok (hist i s)) \<and>
     pfnSdoComRecvCb s \<and> pfnSdoComConCb s \<and>
     handles_ok (\<lambda>i. timerHandle (con i s)) (seqTimers s)"

definition act :: "sdoseq_system \<Rightarrow> nat set" where
  "act s = {i. i < CONFIG_SDO_MAX_CONNECTION_SEQ \<and>
     sdoSeqState (con i s) \<in> {kSdoSeqStateConnected, kSdoSeqStateWaitAck}}"

definition evolves :: "sdoseq_system \<Rightarrow> sdoseq_system \<Rightarrow> bool" where
  "evolves s s' \<longleftrightarrow> seq_ok s' \<and> act s' \<subseteq> act s"

definition env_ok :: "seq_env \<Rightarrow> bool" where
  "env_ok E \<longleftrightarrow> (\<forall>outs. lowerSend E outs \<noteq> kErrorRetry) \<and>
     (\<forall>call s. seq_ok s \<longrightarrow> (\<exists>s'. reaction E call s = Some s' \<and> evolves s s'))"

lemma con_upd [simp]:
  "i < length (aSdoSeqCon s) \<Longrightarrow> con j (upd i f s) = (if j = i then f (con i s) else con j s)"
  by (simp add: con_def upd_def)

lemma upd_fields [simp]:
  "length (aSdoSeqCon (upd i f s)) = length (aSdoSeqCon s)"
  "pfnSdoComRecvCb (upd i f s) = pfnSdoComRecvCb s" "pfnSdoComConCb (upd i f s) = pfnSdoComConCb s"
  "seqTimers (upd i f s) = seqTimers s" "sdoSeqTimeout (upd i f s) = sdoSeqTimeout s"
  "seqTick (upd i f s) = seqTick s" "seqOuts (upd i f s) = seqOuts s"
  by (simp_all add: upd_def)

lemma con_other [simp]:
  "con i (s\<lparr>seqTimers := t\<rparr>) = con i s" "con i (s\<lparr>seqTick := n\<rparr>) = con i s"
  "con i (s\<lparr>seqOuts := os\<rparr>) = con i s" "con i (s\<lparr>sdoSeqTimeout := n\<rparr>) = con i s"
  "con i (seq_call c s) = con i s"
  by (simp_all add: con_def seq_call_def)

lemma seq_call_fields [simp]:
  "aSdoSeqCon (seq_call c s) = aSdoSeqCon s" "seqTimers (seq_call c s) = seqTimers s"
  "pfnSdoComRecvCb (seq_call c s) = pfnSdoComRecvCb s" "pfnSdoComConCb (seq_call c s) = pfnSdoComConCb s"
  "sdoSeqTimeout (seq_call c s) = sdoSeqTimeout s" "seqTick (seq_call c s) = seqTick s"
  "seqOuts (seq_call c s) = seqOuts s @ [c]"
  by (simp_all add: seq_call_def)

lemma seq_okD:
  assumes "seq_ok s"
  shows "length (aSdoSeqCon s) = CONFIG_SDO_MAX_CONNECTION_SEQ"
    "i < CONFIG_SDO_MAX_CONNECTION_SEQ \<Longrightarrow> hist_ok (sdoSeqConHistory (con i s))"
    "pfnSdoComRecvCb s" "pfnSdoComConCb s"
    "handles_ok (\<lambda>i. timerHandle (con i s)) (seqTimers s)"
  using assms by (simp_all add: seq_ok_def hist_def)

lemma evolves_refl: "seq_ok s \<Longrightarrow> evolves s s"
  by (simp add: evolves_def)

lemma evolves_trans: "evolves s s' \<Longrightarrow> evolves s' s'' \<Longrightarrow> evolves s s''"
  by (auto simp: evolves_def)

lemma evolvesD: "evolves s s' \<Longrightarrow> seq_ok s'" "evolves s s' \<Longrightarrow> act s' \<subseteq> act s"
  by (simp_all add: evolves_def)

lemma act_upd:
  assumes "length (aSdoSeqCon s) = CONFIG_SDO_MAX_CONNECTION_SEQ" and "i < CONFIG_SDO_MAX_CONNECTION_SEQ"
  shows "act (upd i f s) =
     (if sdoSeqState (f (con i s)) \<in> {kSdoSeqStateConnected, kSdoSeqStateWaitAck}
      then insert i (act s) else act s - {i})"
  using assms by (auto simp: act_def)

lemma seq_ok_upd:
  assumes "seq_ok s" and "i < CONFIG_SDO_MAX_CONNECTION_SEQ"
    and "timerHandle (f (con i s)) = timerHandle (con i s)"
    and "hist_ok (sdoSeqConHistory (f (con i s)))"
  shows "seq_ok (upd i f s)"
proof -
  have "(\<lambda>j. timerHandle (con j (upd i f s))) = (\<lambda>j. timerHandle (con j s))"
    using seq_okD(1) [OF assms(1)] assms(2,3) by auto
  then show ?thesis using seq_okD [OF assms(1)] assms(2,4) by (simp add: seq_ok_def hist_def)
qed

lemma evolves_upd:
  assumes "seq_ok s" and "i < CONFIG_SDO_MAX_CONNECTION_SEQ"
    and "timerHandle (f (con i s)) = timerHandle (con i s)"
    and "hist_ok (sdoSeqConHistory (f (con i s)))"
    and "sdoSeqState (f (con i s)) = sdoSeqState (con i s) \<or>
      sdoSeqState (f (con i s)) \<notin> {kSdoSeqStateConnected, kSdoSeqStateWaitAck}"
  shows "evolves s (upd i f s)"
  using seq_ok_upd [where f = f, OF assms(1-4)] assms seq_okD(1) [OF assms(1)]
  by (auto simp: evolves_def act_upd) (auto simp: act_def)

lemma evolves_call: "seq_ok s \<Longrightarrow> evolves s (seq_call c s)"
  by (simp add: evolves_def seq_ok_def act_def hist_def)

text \<open>Simple changes of a connection.\<close>

lemma evolves_numbers:
  assumes "seq_ok s" and "i < CONFIG_SDO_MAX_CONNECTION_SEQ"
  shows "evolves s (saveSeqNums i fr s)" "evolves s (clearCons i s)"
    "evolves s (upd i (\<lambda>c. c\<lparr>recvSeqNum := f c\<rparr>) s)" "evolves s (upd i (\<lambda>c. c\<lparr>sendSeqNum := f c\<rparr>) s)"
    "evolves s (upd i (\<lambda>c. c\<lparr>recvSeqNum := f c, sendSeqNum := g c\<rparr>) s)"
    "evolves s (upd i (\<lambda>c. c\<lparr>retryCount := n c\<rparr>) s)" "evolves s (upd i (\<lambda>c. c\<lparr>useCount := n c\<rparr>) s)"
    "evolves s (claimCon i h s)"
  using assms seq_okD(2) [OF assms]
  by (auto simp: saveSeqNums_def clearCons_def claimCon_def intro!: evolves_upd)

lemma set_state_ok:
  assumes "seq_ok s" and "i < CONFIG_SDO_MAX_CONNECTION_SEQ"
  shows "seq_ok (set_state i st s)"
    "st \<notin> {kSdoSeqStateConnected, kSdoSeqStateWaitAck} \<Longrightarrow> evolves s (set_state i st s)"
    "i \<in> act s \<Longrightarrow> evolves s (set_state i st s)"
    "st \<notin> {kSdoSeqStateConnected, kSdoSeqStateWaitAck} \<Longrightarrow> i \<notin> act (set_state i st s)"
  using assms seq_okD(1,2) [OF assms(1)]
  by (auto simp: set_state_def evolves_def act_upd intro!: seq_ok_upd)

lemma callbacks_evolve:
  assumes "env_ok E" and "seq_ok s"
  shows "\<exists>s'. conCb E i st s = Some s' \<and> evolves s s'" "\<exists>s'. recvCb E i fr n s = Some s' \<and> evolves s s'"
proof -
  have "\<exists>s'. reaction E c (seq_call c s) = Some s' \<and> evolves s s'" for c
  proof -
    have e: "evolves s (seq_call c s)" by (rule evolves_call [OF assms(2)])
    then obtain s' where "reaction E c (seq_call c s) = Some s'" "evolves (seq_call c s) s'"
      using assms(1) evolvesD(1) [OF e] unfolding env_ok_def by blast
    then show ?thesis using evolves_trans [OF e] by blast
  qed
  then show "\<exists>s'. conCb E i st s = Some s' \<and> evolves s s'"
    "\<exists>s'. recvCb E i fr n s = Some s' \<and> evolves s s'"
    using seq_okD(3,4) [OF assms(2)] by (simp_all add: conCb_def recvCb_def Let_def)
qed


section \<open>Timers\<close>

definition timer_freed :: "nat \<Rightarrow> tTimeruInstance \<Rightarrow> tTimeruInstance" where
  "timer_freed e t = t\<lparr>timerList := removeTimer e (timerList t), freeList := e # freeList t,
     freeEntries := freeEntries t + 1\<rparr>"

lemma handles_ok_delete:
  assumes "handles_ok h t" and "h i \<noteq> 0" and "i < CONFIG_SDO_MAX_CONNECTION_SEQ"
  shows "timeru_deleteTimer (Some (h i)) t = Some (kErrorOk, Some 0,
      timer_freed (h i - 1) t)"
    and "handles_ok (h(i := 0)) (timer_freed (h i - 1) t)"
proof -
  let ?t = "timer_freed (h i - 1) t"
  have f: "h i - 1 \<notin> set (freeList t)" using assms by (simp add: handles_ok_def)
  then show "timeru_deleteTimer (Some (h i)) t = Some (kErrorOk, Some 0, ?t)"
    using assms(2) by (simp add: timeru_deleteTimer_def timer_freed_def Let_def)
  have d: "distinct (map fst (timerList t))" using assms(1) by (simp add: handles_ok_def)
  have keys: "fst ` set (timerList ?t) = fst ` set (timerList t) - {h i - 1}"
    "distinct (map fst (timerList ?t))" using removeTimer_keys [OF d] by (simp_all add: timer_freed_def)
  have fl: "freeList ?t = (h i - 1) # freeList t" "timerArgs ?t = timerArgs t"
    by (simp_all add: timer_freed_def)
  note fl = fl fl [unfolded One_nat_def]
  have "distinct (map fst (timerList ?t) @ freeList ?t)"
    using keys f assms(1) by (auto simp: handles_ok_def fl)
  moreover have "(h(i := 0)) j - 1 \<notin> set (freeList ?t)"
    if "j < CONFIG_SDO_MAX_CONNECTION_SEQ" "(h(i := 0)) j \<noteq> 0" for j
  proof -
    have "j \<noteq> i" "h j \<noteq> 0" using that(2) by (auto split: if_splits)
    then have "h j \<noteq> h i" "h j - 1 \<notin> set (freeList t)"
      using assms(1,3) that(1) by (auto simp: handles_ok_def)
    then show ?thesis using \<open>j \<noteq> i\<close> \<open>h j \<noteq> 0\<close> assms(2) by (auto simp: fl)
  qed
  moreover have "j = k" if "j < CONFIG_SDO_MAX_CONNECTION_SEQ" "k < CONFIG_SDO_MAX_CONNECTION_SEQ"
      "(h(i := 0)) j = (h(i := 0)) k" "(h(i := 0)) j \<noteq> 0" for j k
    using that assms(1) by (auto simp: handles_ok_def split: if_splits)
  moreover have "\<exists>j<CONFIG_SDO_MAX_CONNECTION_SEQ. timerValue (timerArgs ?t e) = j + 1 \<and> (h(i := 0)) j = e + 1"
    if "e \<in> fst ` set (timerList ?t)" "timerSink (timerArgs ?t e) = kEventSinkSdoAsySeq" for e
  proof -
    have e: "e \<in> fst ` set (timerList t)" "e \<noteq> h i - 1" using that(1) unfolding keys by simp_all
    moreover have "timerSink (timerArgs t e) = kEventSinkSdoAsySeq" using that(2) by (simp only: fl)
    ultimately obtain j where "j < CONFIG_SDO_MAX_CONNECTION_SEQ" "timerValue (timerArgs t e) = j + 1" "h j = e + 1"
      using assms(1) by (auto simp: handles_ok_def)
    then show ?thesis using e(2) by (auto simp: fl)
  qed
  ultimately show "handles_ok (h(i := 0)) ?t" unfolding handles_ok_def by blast
qed

lemma handles_ok_set:
  assumes "handles_ok h t" and "h i = 0" and "i < CONFIG_SDO_MAX_CONNECTION_SEQ"
    and "freeList t = e # rest"
    and "timerList t' = insertTimer e x (timerList t)" "freeList t' = rest"
    and "timerArgs t' = (timerArgs t)(e := \<lparr>timerSink = kEventSinkSdoAsySeq, timerValue = i + 1\<rparr>)"
  shows "handles_ok (h(i := e + 1)) t'"
proof -
  have e: "e \<notin> fst ` set (timerList t)" "e \<notin> set rest" using assms(1,4) by (auto simp: handles_ok_def)
  have he: "h j \<noteq> e + 1" if "j < CONFIG_SDO_MAX_CONNECTION_SEQ" for j
    using assms(1,4) that by (auto simp: handles_ok_def)
  have keys: "fst ` set (timerList t') = insert e (fst ` set (timerList t))"
    "distinct (map fst (timerList t')) = distinct (e # map fst (timerList t))"
    unfolding assms(5) by (simp_all add: insertTimer_entries image_image)
  have "distinct (map fst (timerList t') @ freeList t')"
    using keys e assms(1,4,6) by (auto simp: handles_ok_def)
  moreover have "(h(i := e + 1)) j - 1 \<notin> set (freeList t')"
    if "j < CONFIG_SDO_MAX_CONNECTION_SEQ" "(h(i := e + 1)) j \<noteq> 0" for j
    using that e(2) assms(1,4,6) by (auto simp: handles_ok_def split: if_splits)
  moreover have "j = k" if "j < CONFIG_SDO_MAX_CONNECTION_SEQ" "k < CONFIG_SDO_MAX_CONNECTION_SEQ"
      "(h(i := e + 1)) j = (h(i := e + 1)) k" "(h(i := e + 1)) j \<noteq> 0" for j k
    using that he [of j] he [of k] assms(1) by (auto simp: handles_ok_def split: if_splits)
  moreover have "\<exists>j<CONFIG_SDO_MAX_CONNECTION_SEQ. timerValue (timerArgs t' f) = j + 1 \<and> (h(i := e + 1)) j = f + 1"
    if "f \<in> fst ` set (timerList t')" "timerSink (timerArgs t' f) = kEventSinkSdoAsySeq" for f
  proof (cases "f = e")
    case True
    then show ?thesis using assms(3,7) by auto
  next
    case False
    then have "f \<in> fst ` set (timerList t)" "timerSink (timerArgs t f) = kEventSinkSdoAsySeq"
      using that assms(7) unfolding keys by simp_all
    then obtain j where "j < CONFIG_SDO_MAX_CONNECTION_SEQ" "timerValue (timerArgs t f) = j + 1" "h j = f + 1"
      using assms(1) by (auto simp: handles_ok_def)
    then show ?thesis using False assms(2,7) by auto
  qed
  ultimately show ?thesis unfolding handles_ok_def by blast
qed

text \<open>A change of the timer handle of a connection together with the timer module.\<close>

definition with_timer :: "nat \<Rightarrow> nat \<Rightarrow> tTimeruInstance \<Rightarrow> sdoseq_system \<Rightarrow> sdoseq_system" where
  "with_timer i h t s = upd i (\<lambda>c. c\<lparr>timerHandle := h\<rparr>) (s\<lparr>seqTimers := t\<rparr>)"

lemma evolves_with_timer:
  assumes "seq_ok s" and "i < CONFIG_SDO_MAX_CONNECTION_SEQ"
    and "handles_ok ((\<lambda>j. timerHandle (con j s))(i := h)) t"
  shows "evolves s (with_timer i h t s)"
proof -
  have "(\<lambda>j. timerHandle (con j (with_timer i h t s))) = (\<lambda>j. timerHandle (con j s))(i := h)"
    using seq_okD(1) [OF assms(1)] assms(2) by (auto simp: with_timer_def)
  then show ?thesis using seq_okD [OF assms(1)] assms(2,3)
    by (auto simp: evolves_def seq_ok_def act_def hist_def with_timer_def)
qed

lemma deleteTimer_ok:
  assumes "seq_ok s" and "i < CONFIG_SDO_MAX_CONNECTION_SEQ"
  shows "\<exists>t. deleteTimer i s = Some (with_timer i 0 t s) \<and> evolves s (with_timer i 0 t s)"
proof (cases "timerHandle (con i s) = 0")
  case True
  have "handles_ok ((\<lambda>j. timerHandle (con j s))(i := 0)) (seqTimers s)"
    using seq_okD(5) [OF assms(1)] True by (simp add: fun_upd_idem)
  moreover have "deleteTimer i s = Some (with_timer i 0 (seqTimers s) s)"
    using True by (simp add: deleteTimer_def timeru_deleteTimer_def with_timer_def)
  ultimately show ?thesis using evolves_with_timer [OF assms] by blast
next
  case False
  note d = handles_ok_delete [OF seq_okD(5) [OF assms(1)] False assms(2)]
  from d(1) evolves_with_timer [OF assms d(2)] show ?thesis
    by (auto simp: deleteTimer_def with_timer_def)
qed

lemma setTimer_ok:
  assumes "seq_ok s" and "i < CONFIG_SDO_MAX_CONNECTION_SEQ"
  shows "\<exists>ret h t. setTimer i time s = Some (ret, with_timer i h t s) \<and>
     evolves s (with_timer i h t s) \<and> ret \<noteq> kErrorRetry"
proof -
  let ?arg = "\<lparr>timerSink = kEventSinkSdoAsySeq, timerValue = i + 1\<rparr>"
  let ?hd = "\<lambda>j. timerHandle (con j s)"
  have set: "\<exists>ret h' t'. timeru_setTimer (seqTick s) (Some h) time ?arg t = (ret, Some h', t') \<and>
      handles_ok (?hd(i := h')) t' \<and> ret \<noteq> kErrorRetry"
    if "handles_ok (?hd(i := 0)) t" "h = 0" for t h
  proof (cases "freeList t")
    case Nil
    then show ?thesis using that by (simp add: timeru_setTimer_def)
  next
    case (Cons e rest)
    obtain t' x where t': "timeru_setTimer (seqTick s) (Some h) time ?arg t = (kErrorOk, Some (e + 1), t')"
      "timerList t' = insertTimer e x (timerList t)" "freeList t' = rest"
      "timerArgs t' = (timerArgs t)(e := ?arg)"
      using Cons by (simp add: timeru_setTimer_def Let_def)
    from handles_ok_set [OF that(1) _ assms(2) Cons t'(2-4)] t'(1) show ?thesis by simp
  qed
  show ?thesis
  proof (cases "?hd i = 0")
    case True
    have "handles_ok (?hd(i := 0)) (seqTimers s)"
      using seq_okD(5) [OF assms(1)] True by (simp add: fun_upd_idem)
    from set [OF this True] obtain ret h' t' where
      "timeru_setTimer (seqTick s) (Some (?hd i)) time ?arg (seqTimers s) = (ret, Some h', t')"
      "handles_ok (?hd(i := h')) t'" "ret \<noteq> kErrorRetry" by blast
    with evolves_with_timer [OF assms this(2)] True show ?thesis
      by (auto simp: setTimer_def with_timer_def Let_def)
  next
    case False
    note d = handles_ok_delete [OF seq_okD(5) [OF assms(1)] False assms(2)]
    from set [OF d(2) refl] obtain ret h' t' where
      t: "timeru_setTimer (seqTick s) (Some 0) time ?arg
        (timer_freed (?hd i - 1) (seqTimers s)) = (ret, Some h', t')"
      "handles_ok (?hd(i := h')) t'" "ret \<noteq> kErrorRetry" by blast
    then have "timeru_modifyTimer (seqTick s) (Some (?hd i)) time ?arg (seqTimers s) = Some (ret, Some h', t')"
      unfolding timeru_modifyTimer_def d(1) by simp
    with evolves_with_timer [OF assms t(2)] t(3) False show ?thesis
      by (auto simp: setTimer_def with_timer_def Let_def)
  qed
qed

lemma with_timer_con [simp]:
  "i < length (aSdoSeqCon s) \<Longrightarrow> con j (with_timer i h t s) = (if j = i then (con i s)\<lparr>timerHandle := h\<rparr> else con j s)"
  by (simp add: with_timer_def)


section \<open>The history\<close>

lemma hist_ok_zero: "hist_ok (sdoSeqConHistory zero_con)"
  by (simp add: hist_ok_def zero_con_def)

lemma upd_hist_ok:
  assumes "seq_ok s" and "i < CONFIG_SDO_MAX_CONNECTION_SEQ" and "hist_ok (f (hist i s))"
  shows "evolves s (upd_hist i f s)"
  unfolding upd_hist_def by (rule evolves_upd) (use assms in \<open>simp_all add: hist_def\<close>)

lemma hist_upd_hist [simp]:
  "i < length (aSdoSeqCon s) \<Longrightarrow> hist i (upd_hist i f s) = f (hist i s)"
  by (simp add: upd_hist_def hist_def)

lemma initHistory_ok:
  assumes "seq_ok s" and "i < CONFIG_SDO_MAX_CONNECTION_SEQ"
  shows "\<exists>s'. initHistory i s = (kErrorOk, s') \<and> evolves s s'"
  using upd_hist_ok [OF assms] seq_okD(2) [OF assms]
  by (simp add: initHistory_def hist_ok_def hist_def)

lemma addFrameToHistory_ok:
  assumes "seq_ok s" and "i < CONFIG_SDO_MAX_CONNECTION_SEQ" and "n \<le> 282"
  shows "\<exists>ret s'. addFrameToHistory i fr n s = Some (ret, s') \<and> evolves s s' \<and> ret \<noteq> kErrorRetry"
proof -
  have h: "hist_ok (hist i s)" using seq_okD(2) [OF assms(1,2)] by (simp add: hist_def)
  from upd_hist_ok [OF assms(1,2)] h assms(3) show ?thesis
    by (auto simp: addFrameToHistory_def hist_ok_def Let_def intro: evolves_refl [OF assms(1)])
qed

lemma deleteAckedLoop_ok:
  assumes "hist_ok h" and "ack < SDO_HISTORY_SIZE"
  shows "\<exists>early ack' h'. deleteAckedLoop q ack h = Some (early, ack', h') \<and> hist_ok h' \<and>
     ack' < SDO_HISTORY_SIZE"
  using assms
proof (induction "(writeIndex h + SDO_HISTORY_SIZE - ack - 1) mod SDO_HISTORY_SIZE"
    arbitrary: ack h rule: less_induct)
  case less
  let ?h = "h\<lparr>aFrameSize := (aFrameSize h)[ack := 0], histFreeEntries := histFreeEntries h + 1\<rparr>"
  let ?ack = "if ack + 1 = SDO_HISTORY_SIZE then 0 else ack + 1"
  have h: "hist_ok ?h" using less.prems(1) by (simp add: hist_ok_def)
  have a: "?ack < SDO_HISTORY_SIZE" using less.prems(2) by auto
  have IH: "\<exists>early ack' h'. deleteAckedLoop q ?ack ?h = Some (early, ack', h') \<and> hist_ok h' \<and>
      ack' < SDO_HISTORY_SIZE" if "writeIndex ?h \<noteq> ?ack"
  proof (rule less.hyps [OF _ h a])
    have "writeIndex h < SDO_HISTORY_SIZE" using less.prems(1) by (simp add: hist_ok_def)
    then show "(writeIndex ?h + SDO_HISTORY_SIZE - ?ack - 1) mod SDO_HISTORY_SIZE
        < (writeIndex h + SDO_HISTORY_SIZE - ack - 1) mod SDO_HISTORY_SIZE"
      using that less.prems(2) by (auto simp: mod_if split: if_splits)
  qed
  show ?case
  proof (cases "(q - (sendSeqNumCon (aHistoryFrame h ! ack) AND SEQ_NUM_MASK)) AND SEQ_NUM_MASK
      < SDO_SEQ_NUM_THRESHOLD")
    case False
    then show ?thesis using less.prems by (subst deleteAckedLoop.simps) (auto simp: Let_def)
  next
    case True
    show ?thesis
    proof (cases "(q - 1 - (sendSeqNumCon (aHistoryFrame h ! ack) AND SEQ_NUM_MASK)) AND SEQ_NUM_MASK
        < SDO_SEQ_NUM_THRESHOLD \<and> writeIndex ?h \<noteq> ?ack")
      case go_on: True
      have "deleteAckedLoop q ack h = deleteAckedLoop q ?ack ?h"
        using True go_on less.prems(2)
        by (subst deleteAckedLoop.simps) (simp only: Let_def if_True simp_thms)
      then show ?thesis using IH go_on by simp
    next
      case False
      have "deleteAckedLoop q ack h = Some (False, ?ack, ?h)"
        using True False less.prems(2)
        by (subst deleteAckedLoop.simps) (simp only: Let_def if_True if_False simp_thms)
      then show ?thesis using h a by blast
    qed
  qed
qed

lemma deleteAckedFrameFromHistory_ok:
  assumes "seq_ok s" and "i < CONFIG_SDO_MAX_CONNECTION_SEQ"
  shows "\<exists>s'. deleteAckedFrameFromHistory i q s = Some (kErrorOk, s') \<and> evolves s s'"
proof -
  have h: "hist_ok (hist i s)" using seq_okD(2) [OF assms] by (simp add: hist_def)
  then have "ackIndex (hist i s) < SDO_HISTORY_SIZE" by (simp add: hist_ok_def)
  from deleteAckedLoop_ok [OF h this, of q] obtain early ack h' where
    d: "deleteAckedLoop q (ackIndex (hist i s)) (hist i s) = Some (early, ack, h')" "hist_ok h'"
    "ack < SDO_HISTORY_SIZE" by blast
  have "hist_ok (if early then h' else h'\<lparr>ackIndex := ack\<rparr>)" using d(2,3) by (simp add: hist_ok_def)
  from upd_hist_ok [OF assms, of "\<lambda>_. if early then h' else h'\<lparr>ackIndex := ack\<rparr>", OF this]
  show ?thesis using d(1) evolves_refl [OF assms(1)]
    by (simp add: deleteAckedFrameFromHistory_def)
qed

definition hist_gap :: "tSdoSeqConHistory \<Rightarrow> nat" where
  "hist_gap h = (writeIndex h + SDO_HISTORY_SIZE - readIndex h) mod SDO_HISTORY_SIZE"

lemma readFromHistory_ok:
  assumes "seq_ok s" and "i < CONFIG_SDO_MAX_CONNECTION_SEQ"
  shows "\<exists>cur s'. readFromHistory i b s = Some (cur, s') \<and> evolves s s' \<and>
     (case cur of None \<Rightarrow> True | Some (idx, n) \<Rightarrow> idx < SDO_HISTORY_SIZE) \<and>
     (\<not> b \<longrightarrow> cur \<noteq> None \<longrightarrow> hist_gap (hist i s') < hist_gap (hist i s))"
proof -
  define s1 where "s1 = (if b then upd_hist i (\<lambda>h. h\<lparr>readIndex := ackIndex h\<rparr>) s else s)"
  have h: "hist_ok (hist i s)" using seq_okD(2) [OF assms] by (simp add: hist_def)
  have e: "evolves s s1"
    unfolding s1_def using upd_hist_ok [OF assms] evolves_refl [OF assms(1)] h by (simp add: hist_ok_def)
  note ok = evolvesD(1) [OF e]
  have h1: "hist_ok (hist i s1)" using seq_okD(2) [OF ok assms(2)] by (simp add: hist_def)
  have l: "i < length (aSdoSeqCon s1)" using seq_okD(1) [OF ok] assms(2) by simp
  let ?f = "\<lambda>h. h\<lparr>readIndex := (if readIndex h + 1 = SDO_HISTORY_SIZE then 0 else readIndex h + 1)\<rparr>"
  have f: "hist_ok (?f (hist i s1))" using h1 by (auto simp: hist_ok_def)
  have r: "readFromHistory i b s =
      (if histFreeEntries (hist i s1) < SDO_HISTORY_SIZE \<and> writeIndex (hist i s1) \<noteq> readIndex (hist i s1)
       then Some (Some (readIndex (hist i s1), aFrameSize (hist i s1) ! readIndex (hist i s1)),
         upd_hist i ?f s1)
       else Some (None, s1))"
    using h1 unfolding readFromHistory_def s1_def [symmetric] by (auto simp: hist_ok_def Let_def)
  have gap: "hist_gap (?f (hist i s1)) < hist_gap (hist i s1)"
    if "writeIndex (hist i s1) \<noteq> readIndex (hist i s1)"
    using that h1 by (auto simp: hist_gap_def hist_ok_def mod_if split: if_splits)
  have "evolves s (upd_hist i ?f s1)" using evolves_trans [OF e] upd_hist_ok [OF ok assms(2), of ?f] f by blast
  then show ?thesis
    using e gap h1 l by (auto simp: r hist_ok_def s1_def [of] split: if_splits)
qed


section \<open>Sending\<close>

lemma sendToLowerLayer_ok:
  assumes "env_ok E" and "seq_ok s"
  shows "\<exists>ret s'. sendToLowerLayer E i n fr s = (ret, s') \<and> evolves s s' \<and> ret \<noteq> kErrorRetry \<and>
     aSdoSeqCon s' = aSdoSeqCon s"
  using assms evolves_refl [OF assms(2)] evolves_call [OF assms(2)]
  by (simp add: sendToLowerLayer_def env_ok_def Let_def)

lemma sendFrame_ok:
  assumes "env_ok E" and "seq_ok s" and "i < CONFIG_SDO_MAX_CONNECTION_SEQ"
    and "n \<le> length (case pData of None \<Rightarrow> [] | Some bs \<Rightarrow> bs)" and "b \<longrightarrow> n \<le> 278"
  shows "\<exists>ret s'. sendFrame E i n pData b s = Some (ret, s') \<and> evolves s s' \<and> ret \<noteq> kErrorRetry"
proof -
  define free where "free = (if b then histFreeEntries (hist i s) else 0)"
  define s1 where "s1 = (if b \<and> free \<le> 1 then upd i (\<lambda>c. c\<lparr>recvSeqNum := recvSeqNum c OR 0x03\<rparr>) s else s)"
  have e1: "evolves s s1" using evolves_numbers(3) [OF assms(2,3)] evolves_refl [OF assms(2)]
    by (simp add: s1_def)
  define fr where "fr = \<lparr>recvSeqNumCon = sendSeqNum (con i s1), sendSeqNumCon = recvSeqNum (con i s1),
      sdoSeqPayload = take n (case pData of None \<Rightarrow> [] | Some bs \<Rightarrow> bs)\<rparr>"
  obtain ret s2 where send: "sendToLowerLayer E i (n + SDO_SEQ_HEADER_SIZE) fr s1 = (ret, s2)"
    and e12: "evolves s1 s2" and ret: "ret \<noteq> kErrorRetry"
    using sendToLowerLayer_ok [OF assms(1) evolvesD(1) [OF e1]] by blast
  note e2 = evolves_trans [OF e1 e12]
  show ?thesis
  proof (cases "ret = kErrorOk \<and> b")
    case False
    then have "sendFrame E i n pData b s = Some (ret, s2)"
      using assms(4) send unfolding sendFrame_def free_def [symmetric] Let_def s1_def [symmetric]
        fr_def [symmetric] by auto
    then show ?thesis using e2 ret by blast
  next
    case True
    define s3 where "s3 = (if recvSeqNum (con i s2) AND 0x03 = 0x03
        then upd i (\<lambda>c. c\<lparr>recvSeqNum := recvSeqNum c - 1\<rparr>) s2 else s2)"
    have e3: "evolves s s3"
      using evolves_trans [OF e2 evolves_numbers(3) [OF evolvesD(1) [OF e2] assms(3)]] e2
      by (simp add: s3_def)
    obtain ret' s4 where add: "addFrameToHistory i fr (n + SDO_SEQ_HEADER_SIZE) s3 = Some (ret', s4)"
      and e34: "evolves s3 s4" and ret': "ret' \<noteq> kErrorRetry"
      using addFrameToHistory_ok [OF evolvesD(1) [OF e3] assms(3), of "n + SDO_SEQ_HEADER_SIZE" fr]
        assms(5) True by auto
    have "sendFrame E i n pData b s = Some
        (if ret' = kErrorSdoSeqNoFreeHistory \<or> free \<le> 1 then kErrorSdoSeqRequestAckNeeded else ret', s4)"
      using assms(4) send add True unfolding sendFrame_def free_def [symmetric] Let_def s1_def [symmetric]
        fr_def [symmetric] by (simp add: s3_def [symmetric])
    then show ?thesis using evolves_trans [OF e3 e34] ret' by simp
  qed
qed

lemma sendFrame_empty_ok:
  assumes "env_ok E" and "seq_ok s" and "i < CONFIG_SDO_MAX_CONNECTION_SEQ"
  shows "\<exists>ret s'. sendFrame E i 0 None False s = Some (ret, s') \<and> evolves s s' \<and> ret \<noteq> kErrorRetry"
  using sendFrame_ok [OF assms, of 0 None False] by simp

lemma resendHistory_ok:
  assumes "env_ok E" and "seq_ok s" and "i < CONFIG_SDO_MAX_CONNECTION_SEQ"
  shows "\<exists>ret s'. resendHistory E i cur s = Some (ret, s') \<and> evolves s s' \<and> ret \<noteq> kErrorRetry"
  using assms(2)
proof (induction "case cur of None \<Rightarrow> 0 | Some _ \<Rightarrow> Suc (hist_gap (hist i s))" arbitrary: cur s
    rule: less_induct)
  case less
  show ?case
  proof (cases "cur = None \<or> snd (the cur) = 0")
    case True
    then show ?thesis using less.prems
      by (subst resendHistory.simps) (auto simp: evolves_refl split: option.splits prod.splits)
  next
    case False
    then obtain idx n where cur: "cur = Some (idx, n)" "n \<noteq> 0" by (cases cur) auto
    obtain ret s1 where send: "sendToLowerLayer E i n (aHistoryFrame (hist i s) ! idx) s = (ret, s1)"
      and e1: "evolves s s1" and ret: "ret \<noteq> kErrorRetry" and con: "aSdoSeqCon s1 = aSdoSeqCon s"
      using sendToLowerLayer_ok [OF assms(1) less.prems] by blast
    show ?thesis
    proof (cases "ret = kErrorOk")
      case False
      then show ?thesis using cur send e1 ret by (subst resendHistory.simps) simp
    next
      case True
      obtain cur' s2 where read: "readFromHistory i False s1 = Some (cur', s2)"
        and e12: "evolves s1 s2"
        and gap: "cur' \<noteq> None \<longrightarrow> hist_gap (hist i s2) < hist_gap (hist i s1)"
        using readFromHistory_ok [OF evolvesD(1) [OF e1] assms(3), of False] by auto
      have "hist i s1 = hist i s" using con by (simp add: hist_def con_def)
      then have "\<exists>ret s'. resendHistory E i cur' s2 = Some (ret, s') \<and> evolves s2 s' \<and> ret \<noteq> kErrorRetry"
        using less.hyps [of s2 cur'] evolvesD(1) [OF e12] gap cur by (cases cur') auto
      moreover have "resendHistory E i cur s = resendHistory E i cur' s2"
        using cur send read True by (subst resendHistory.simps) simp
      ultimately show ?thesis using evolves_trans [OF e1 e12] evolves_trans by metis
    qed
  qed
qed


section \<open>Rules for the handlers\<close>

text \<open>
  \<open>wp m Q\<close>: the call returns, and its result satisfies \<open>Q\<close>. The rules of the operations carry
  the fact that the state has evolved from a fixed state \<open>a\<close>, so that the rules chain.
\<close>

named_theorems wp_rules "what the operations of the sequence layer return"

definition wp :: "'a option \<Rightarrow> ('a \<Rightarrow> bool) \<Rightarrow> bool" where
  "wp m Q \<longleftrightarrow> (\<exists>x. m = Some x \<and> Q x)"

lemma wp_Some [simp]: "wp (Some x) Q = Q x"
  by (simp add: wp_def)

lemma wp_bind [simp]: "wp (Option.bind m k) Q = wp m (\<lambda>x. wp (k x) Q)"
  by (cases m) (simp_all add: wp_def)

lemma wp_map_option [simp]: "wp (map_option f m) Q = wp m (\<lambda>x. Q (f x))"
  by (cases m) (simp_all add: wp_def)

lemma wp_weaken: "wp m P \<Longrightarrow> (\<And>x. P x \<Longrightarrow> Q x) \<Longrightarrow> wp m Q"
  by (auto simp: wp_def)

lemma wp_call:
  assumes "\<exists>r s'. m = Some (r, s') \<and> evolves s s' \<and> r \<noteq> kErrorRetry" and "evolves a s"
    and "\<And>r s'. evolves a s' \<Longrightarrow> r \<noteq> kErrorRetry \<Longrightarrow> Q (r, s')"
  shows "wp m Q"
  using assms evolves_trans by (fastforce simp: wp_def)

lemma setTimer_wp [wp_rules]:
  assumes "evolves a s" and "i < CONFIG_SDO_MAX_CONNECTION_SEQ"
    and "\<And>r s'. evolves a s' \<Longrightarrow> r \<noteq> kErrorRetry \<Longrightarrow> Q (r, s')"
  shows "wp (setTimer i time s) Q"
proof (rule wp_call [where Q = Q, OF _ assms(1,3)])
  show "\<exists>r s'. setTimer i time s = Some (r, s') \<and> evolves s s' \<and> r \<noteq> kErrorRetry"
    using setTimer_ok [OF evolvesD(1) [OF assms(1)] assms(2)] by blast
qed

lemma deleteTimer_wp [wp_rules]:
  assumes "evolves a s" and "i < CONFIG_SDO_MAX_CONNECTION_SEQ"
    and "\<And>s'. evolves a s' \<Longrightarrow> Q s'"
  shows "wp (deleteTimer i s) Q"
proof -
  obtain t where "deleteTimer i s = Some (with_timer i 0 t s)" and e: "evolves s (with_timer i 0 t s)"
    using deleteTimer_ok [OF evolvesD(1) [OF assms(1)] assms(2)] by blast
  then show ?thesis using assms(3) [OF evolves_trans [OF assms(1) e]] by simp
qed

lemma sendFrame_wp:
  assumes "env_ok E" and "evolves a s" and "i < CONFIG_SDO_MAX_CONNECTION_SEQ"
    and "n \<le> length (case pData of None \<Rightarrow> [] | Some bs \<Rightarrow> bs)" and "b \<longrightarrow> n \<le> 278"
    and "\<And>r s'. evolves a s' \<Longrightarrow> r \<noteq> kErrorRetry \<Longrightarrow> Q (r, s')"
  shows "wp (sendFrame E i n pData b s) Q"
  using sendFrame_ok [OF assms(1) evolvesD(1) [OF assms(2)] assms(3-5)]
  by (rule wp_call [where Q = Q, OF _ assms(2,6)])

lemma sendEmpty_wp [wp_rules]:
  assumes "env_ok E" and "evolves a s" and "i < CONFIG_SDO_MAX_CONNECTION_SEQ"
    and "\<And>r s'. evolves a s' \<Longrightarrow> r \<noteq> kErrorRetry \<Longrightarrow> Q (r, s')"
  shows "wp (sendFrame E i 0 None False s) Q"
  using assms by (auto intro: sendFrame_wp)

lemma callback_wp [wp_rules]:
  assumes "env_ok E" and "evolves a s" and "\<And>s'. evolves a s' \<Longrightarrow> Q s'"
  shows "wp (conCb E i st s) Q" "wp (recvCb E i fr n s) Q"
proof -
  obtain s1 where s1: "conCb E i st s = Some s1" "evolves s s1"
    using callbacks_evolve(1) [OF assms(1) evolvesD(1) [OF assms(2)]] by blast
  show "wp (conCb E i st s) Q"
    using s1(1) assms(3) [OF evolves_trans [OF assms(2) s1(2)]] by simp
  obtain s2 where s2: "recvCb E i fr n s = Some s2" "evolves s s2"
    using callbacks_evolve(2) [OF assms(1) evolvesD(1) [OF assms(2)]] by blast
  show "wp (recvCb E i fr n s) Q"
    using s2(1) assms(3) [OF evolves_trans [OF assms(2) s2(2)]] by simp
qed

lemma read_wp:
  assumes "evolves a s" and "i < CONFIG_SDO_MAX_CONNECTION_SEQ"
    and "\<And>cur s'. evolves a s' \<Longrightarrow>
      (case cur of None \<Rightarrow> True | Some (idx, n) \<Rightarrow> idx < SDO_HISTORY_SIZE) \<Longrightarrow> Q (cur, s')"
  shows "wp (readFromHistory i b s) Q"
proof -
  obtain cur s' where "readFromHistory i b s = Some (cur, s')" and e: "evolves s s'"
    and "case cur of None \<Rightarrow> True | Some (idx, n) \<Rightarrow> idx < SDO_HISTORY_SIZE"
    using readFromHistory_ok [OF evolvesD(1) [OF assms(1)] assms(2), of b] by blast
  then show ?thesis using assms(3) [OF evolves_trans [OF assms(1) e]] by simp
qed

lemma resend_wp [wp_rules]:
  assumes "env_ok E" and "evolves a s" and "i < CONFIG_SDO_MAX_CONNECTION_SEQ"
    and "\<And>r s'. evolves a s' \<Longrightarrow> r \<noteq> kErrorRetry \<Longrightarrow> Q (r, s')"
  shows "wp (resendHistory E i cur s) Q"
  using resendHistory_ok [OF assms(1) evolvesD(1) [OF assms(2)] assms(3)]
  by (rule wp_call [where Q = Q, OF _ assms(2,4)])

lemmas numbers_evolve [wp_rules] =
  evolves_trans [OF _ evolves_numbers(1) [OF evolvesD(1)]] evolves_trans [OF _ evolves_numbers(2) [OF evolvesD(1)]]
  evolves_trans [OF _ evolves_numbers(3) [OF evolvesD(1)]] evolves_trans [OF _ evolves_numbers(4) [OF evolvesD(1)]]
  evolves_trans [OF _ evolves_numbers(5) [OF evolvesD(1)]] evolves_trans [OF _ evolves_numbers(6) [OF evolvesD(1)]]
  evolves_trans [OF _ evolves_numbers(7) [OF evolvesD(1)]] evolves_trans [OF _ evolves_numbers(8) [OF evolvesD(1)]]

lemma state_evolves:
  assumes "evolves a s" and "i < CONFIG_SDO_MAX_CONNECTION_SEQ"
  shows "st \<notin> {kSdoSeqStateConnected, kSdoSeqStateWaitAck} \<Longrightarrow> evolves a (set_state i st s)"
    "i \<in> act a \<Longrightarrow> evolves a (set_state i st s)"
  using assms set_state_ok [OF evolvesD(1) [OF assms(1)] assms(2), of st]
    act_upd [OF seq_okD(1) [OF evolvesD(1) [OF assms(1)]] assms(2)]
  by (auto simp: evolves_def set_state_def split: if_splits)

lemmas idle_evolves [wp_rules] =
  state_evolves(1) [where st = kSdoSeqStateIdle, simplified] state_evolves(1) [where st = kSdoSeqStateInit1, simplified]
  state_evolves(1) [where st = kSdoSeqStateInit2, simplified] state_evolves(1) [where st = kSdoSeqStateInit3, simplified]


section \<open>The handlers keep the invariant\<close>

text \<open>
  What a handler does with an event: no event but a received frame establishes a connection, and
  a received frame that has to be processed again has closed one.
\<close>

definition handled :: "tSdoSeqEvent \<Rightarrow> sdoseq_system \<Rightarrow> tOplkError \<times> sdoseq_system \<Rightarrow> bool" where
  "handled event a rs \<longleftrightarrow> seq_ok (snd rs) \<and>
     (if event = kSdoSeqEventFrameRec then fst rs = kErrorRetry \<longrightarrow> act (snd rs) \<subset> act a
      else evolves a (snd rs))"

lemma handled_evolves: "evolves a s' \<Longrightarrow> r \<noteq> kErrorRetry \<Longrightarrow> handled event a (r, s')"
  by (simp add: handled_def evolves_def)

lemma handled_other: "evolves a s' \<Longrightarrow> event \<noteq> kSdoSeqEventFrameRec \<Longrightarrow> handled event a (r, s')"
  by (simp add: handled_def evolves_def)

lemma handled_seq_ok: "seq_ok s' \<Longrightarrow> r \<noteq> kErrorRetry \<Longrightarrow> handled kSdoSeqEventFrameRec a (r, s')"
  by (simp add: handled_def)

lemma handled_retry:
  "evolves a s' \<Longrightarrow> act a \<subset> act b \<Longrightarrow> handled kSdoSeqEventFrameRec b (r, s')"
  by (auto simp: handled_def evolves_def)

lemma rejectFrame_wp [wp_rules]:
  assumes "env_ok E" and "evolves a s" and "i < CONFIG_SDO_MAX_CONNECTION_SEQ"
    and "\<And>r s'. evolves a s' \<Longrightarrow> r \<noteq> kErrorRetry \<Longrightarrow> Q (r, s')"
  shows "wp (rejectFrame E i fr s) Q"
  using assms unfolding rejectFrame_def by (auto intro!: wp_rules)

lemma closeIdle_wp [wp_rules]:
  assumes "env_ok E" and "evolves a s" and "i < CONFIG_SDO_MAX_CONNECTION_SEQ"
    and "\<And>r s'. evolves a s' \<Longrightarrow> r \<noteq> kErrorRetry \<Longrightarrow> Q (r, s')"
  shows "wp (closeIdle E i st s) Q"
  using assms unfolding closeIdle_def by (auto intro!: wp_rules)

lemma answerFrame_wp [wp_rules]:
  assumes "env_ok E" and "evolves a s" and "i < CONFIG_SDO_MAX_CONNECTION_SEQ"
    and "\<And>r s'. evolves a s' \<Longrightarrow> r \<noteq> kErrorRetry \<Longrightarrow> Q (r, s')"
  shows "wp (answerFrame E i fr s) Q"
  using assms unfolding answerFrame_def by (auto intro!: wp_rules)

lemma enterConnected_wp:
  assumes "env_ok E" and "evolves a s" and "i < CONFIG_SDO_MAX_CONNECTION_SEQ"
    and "\<And>r s'. seq_ok s' \<Longrightarrow> r \<noteq> kErrorRetry \<Longrightarrow> Q (r, s')"
  shows "wp (enterConnected E i s) Q"
proof -
  let ?s = "set_state i kSdoSeqStateConnected s"
  have "seq_ok ?s" using set_state_ok(1) [OF evolvesD(1) [OF assms(2)] assms(3)] .
  from initHistory_ok [OF this assms(3)] obtain s' where
    "initHistory i ?s = (kErrorOk, s')" "evolves ?s s'" by blast
  then show ?thesis using assms(1,3) unfolding enterConnected_def
    by (auto intro!: wp_rules assms(4) dest: evolvesD(1))
qed

lemma processStateIdle_ok:
  assumes "env_ok E" and "seq_ok a" and "i < CONFIG_SDO_MAX_CONNECTION_SEQ"
    and "event = kSdoSeqEventFrameRec \<longrightarrow> pRecv \<noteq> None"
  shows "wp (processStateIdle E i event pRecv a) (\<lambda>(r, s'). evolves a s' \<and> r \<noteq> kErrorRetry)"
  using assms evolves_refl [OF assms(2)] unfolding processStateIdle_def
  by (cases event) (auto intro!: wp_rules)

lemma processStateInit_ok:
  assumes "env_ok E" and "seq_ok a" and "i < CONFIG_SDO_MAX_CONNECTION_SEQ"
    and "event = kSdoSeqEventFrameRec \<longrightarrow> pRecv \<noteq> None"
  shows "wp (processStateInit1 E i event pRecv a) (handled event a)"
    "wp (processStateInit2 E i event pRecv a) (handled event a)"
    "wp (processStateInit3 E i event pRecv a) (handled event a)"
  using assms evolves_refl [OF assms(2)]
  unfolding processStateInit1_def processStateInit2_def processStateInit3_def
  by (cases event; auto intro!: wp_rules enterConnected_wp intro: handled_evolves handled_seq_ok)+

lemma connectedSend_ok:
  assumes "env_ok E" and "seq_ok a" and "i < CONFIG_SDO_MAX_CONNECTION_SEQ" and "i \<in> act a"
    and "\<And>bs. pData = Some bs \<Longrightarrow> n \<le> length bs \<and> n \<le> 278"
  shows "wp (connectedSend E i n pData a) (\<lambda>(r, s'). evolves a s')"
  using assms evolves_refl [OF assms(2)] unfolding connectedSend_def
  by (cases pData) (auto intro!: wp_rules sendFrame_wp state_evolves(2))

lemma connectedData_wp:
  assumes "env_ok E" and "evolves a s" and "i < CONFIG_SDO_MAX_CONNECTION_SEQ" and "ret \<noteq> kErrorRetry"
    and "\<And>r s'. evolves a s' \<Longrightarrow> r \<noteq> kErrorRetry \<Longrightarrow> Q (r, s')"
  shows "wp (connectedData E i fr n ret s) Q"
  using assms(1-4) unfolding connectedData_def Let_def
  by (auto intro!: wp_rules assms(5))

text \<open>The branches that answer with \<^term>\<open>kErrorRetry\<close> close the connection first.\<close>

lemma closing:
  assumes "evolves a s" and "i < CONFIG_SDO_MAX_CONNECTION_SEQ" and "i \<in> act a"
  shows "evolves (set_state i kSdoSeqStateIdle s) (set_state i kSdoSeqStateIdle s)"
    "act (set_state i kSdoSeqStateIdle s) \<subset> act a"
proof -
  note ok = evolvesD(1) [OF assms(1)]
  show "evolves (set_state i kSdoSeqStateIdle s) (set_state i kSdoSeqStateIdle s)"
    using set_state_ok(1) [OF ok assms(2)] by (rule evolves_refl)
  show "act (set_state i kSdoSeqStateIdle s) \<subset> act a"
    using act_upd [OF seq_okD(1) [OF ok] assms(2)] assms(3) evolvesD(2) [OF assms(1)]
    by (auto simp: set_state_def)
qed

lemma abort_wp:
  assumes "env_ok E" and "evolves a s" and "i < CONFIG_SDO_MAX_CONNECTION_SEQ" and "i \<in> act a"
  shows "wp (deleteTimer i (set_state i kSdoSeqStateIdle s))
     (\<lambda>s. wp (conCb E i st s) (\<lambda>s. handled kSdoSeqEventFrameRec a (r, s)))"
  using assms(1,3) closing [OF assms(2-4)]
  by (auto intro!: deleteTimer_wp callback_wp handled_retry)

lemma connectedReceive_ok:
  assumes "env_ok E" and "seq_ok a" and "i < CONFIG_SDO_MAX_CONNECTION_SEQ" and "i \<in> act a"
  shows "wp (connectedReceive E i fr n a) (handled kSdoSeqEventFrameRec a)"
  using assms(1,3,4) evolves_refl [OF assms(2)] unfolding connectedReceive_def
  by (auto intro!: setTimer_wp abort_wp connectedData_wp read_wp resend_wp handled_evolves)

lemma resent_frame:
  assumes "sendToLowerLayer E i n fr (upd_hist i (\<lambda>h. h\<lparr>aHistoryFrame := (aHistoryFrame h)[idx := fr]\<rparr>) s) = (r, s')"
    and "env_ok E" and "evolves a s" and "i < CONFIG_SDO_MAX_CONNECTION_SEQ"
  shows "evolves a s'"
proof -
  have "hist_ok ((hist i s)\<lparr>aHistoryFrame := (aHistoryFrame (hist i s))[idx := fr]\<rparr>)"
    using seq_okD(2) [OF evolvesD(1) [OF assms(3)] assms(4)] by (simp add: hist_ok_def hist_def)
  from upd_hist_ok [OF evolvesD(1) [OF assms(3)] assms(4), where f = "\<lambda>h. h\<lparr>aHistoryFrame := (aHistoryFrame h)[idx := fr]\<rparr>", OF this]
  have e: "evolves a (upd_hist i (\<lambda>h. h\<lparr>aHistoryFrame := (aHistoryFrame h)[idx := fr]\<rparr>) s)"
    by (rule evolves_trans [OF assms(3)])
  from sendToLowerLayer_ok [OF assms(2) evolvesD(1) [OF e], of i n fr] assms(1) show ?thesis
    by (auto intro: evolves_trans [OF e])
qed

lemma connectedTimeout_ok:
  assumes "env_ok E" and "seq_ok a" and "i < CONFIG_SDO_MAX_CONNECTION_SEQ" and "i \<in> act a"
  shows "wp (connectedTimeout E i a) (\<lambda>(r, s'). evolves a s')"
proof (cases "histFreeEntries (hist i a) < SDO_HISTORY_SIZE \<and> retryCount (con i a) < SDO_SEQ_RETRY_COUNT")
  case False
  then show ?thesis using assms(1,3) evolves_refl [OF assms(2)]
    unfolding connectedTimeout_def by (auto intro!: closeIdle_wp)
next
  case True
  have e: "evolves a (upd i (\<lambda>c. c\<lparr>retryCount := retryCount c + 1\<rparr>) a)"
    using evolves_numbers(6) [OF assms(2,3)] .
  show ?thesis
    unfolding connectedTimeout_def if_P [OF True]
  proof (simp only: wp_bind, rule setTimer_wp [OF e assms(3)], simp only: prod.case wp_bind,
      rule read_wp [OF _ assms(3)], assumption)
    fix cur s
    assume "evolves a s"
    then show "wp (case (cur, s) of (cur, s) \<Rightarrow>
        (case cur of None \<Rightarrow> Some (kErrorOk, s)
         | Some (idx, frameSize) \<Rightarrow>
             if frameSize = 0 then Some (kErrorOk, s)
             else
               let fr = (aHistoryFrame (hist i s) ! idx);
                   fr = fr\<lparr>sendSeqNumCon := sendSeqNumCon fr OR 0x03\<rparr>;
                   s = upd_hist i (\<lambda>h. h\<lparr>aHistoryFrame := (aHistoryFrame h)[idx := fr]\<rparr>) s
               in Some (sendToLowerLayer E i frameSize fr s))) (\<lambda>(r, s'). evolves a s')"
      using resent_frame [OF _ assms(1) _ assms(3)]
      by (auto simp: Let_def split: option.split prod.split)
  qed
qed

lemma waitAckReceive_ok:
  assumes "env_ok E" and "evolves a s" and "i < CONFIG_SDO_MAX_CONNECTION_SEQ" and "i \<in> act a"
    and "ret \<noteq> kErrorRetry"
  shows "wp (waitAckReceive E i fr n ret s) (handled kSdoSeqEventFrameRec a)"
  using assms unfolding waitAckReceive_def Let_def
  by (auto intro!: abort_wp callback_wp sendEmpty_wp resend_wp read_wp numbers_evolve state_evolves(2)
      handled_evolves)

lemma processStateConnected_ok:
  assumes "env_ok E" and "seq_ok a" and "i < CONFIG_SDO_MAX_CONNECTION_SEQ" and "i \<in> act a"
    and "event = kSdoSeqEventFrameRec \<longrightarrow> pRecv \<noteq> None"
    and "\<And>bs. event = kSdoSeqEventFrameSend \<Longrightarrow> pData = Some bs \<Longrightarrow> n \<le> length bs \<and> n \<le> 278"
  shows "wp (processStateConnected E i event pRecv n pData a) (handled event a)"
proof (cases event)
  case kSdoSeqEventFrameRec
  then show ?thesis using assms(5) connectedReceive_ok [OF assms(1-4)]
    by (auto simp: processStateConnected_def)
next
  case kSdoSeqEventFrameSend
  then show ?thesis using assms(6) connectedSend_ok [OF assms(1-4), of pData n]
    by (auto simp: processStateConnected_def elim!: wp_weaken intro!: handled_other)
next
  case kSdoSeqEventTimeout
  then show ?thesis using connectedTimeout_ok [OF assms(1-4)]
    by (auto simp: processStateConnected_def elim!: wp_weaken intro!: handled_other)
qed (use assms(1-4) evolves_refl [OF assms(2)] in
  \<open>auto simp: processStateConnected_def intro!: wp_rules handled_other\<close>)

lemma processStateWaitAck_ok:
  assumes "env_ok E" and "seq_ok a" and "i < CONFIG_SDO_MAX_CONNECTION_SEQ" and "i \<in> act a"
    and "event = kSdoSeqEventFrameRec \<longrightarrow> pRecv \<noteq> None"
  shows "wp (processStateWaitAck E i event pRecv n a) (handled event a)"
  using assms evolves_refl [OF assms(2)] unfolding processStateWaitAck_def
  by (cases "event = kSdoSeqEventFrameRec"; cases "event = kSdoSeqEventTimeout")
    (auto intro!: setTimer_wp waitAckReceive_ok closeIdle_wp handled_other)

lemma processState_ok:
  assumes "env_ok E" and "seq_ok s" and "i < CONFIG_SDO_MAX_CONNECTION_SEQ"
    and "event = kSdoSeqEventFrameRec \<longrightarrow> pRecv \<noteq> None"
    and "\<And>bs. event = kSdoSeqEventFrameSend \<Longrightarrow> pData = Some bs \<Longrightarrow> n \<le> length bs \<and> n \<le> 278"
  shows "wp (processState E (word_of_nat i) n pData pRecv event s) (handled event s)"
proof -
  have i: "unat (word_of_nat i :: u32) = i" "(word_of_nat i OR SDO_ASY_HANDLE) AND NOT SDO_SEQ_HANDLE_MASK \<noteq> SDO_SEQ_INVALID_HDL"
  proof -
    have "i = 0 \<or> i = 1 \<or> i = 2 \<or> i = 3 \<or> i = 4" using assms(3) by arith
    then show "unat (word_of_nat i :: u32) = i"
      "(word_of_nat i OR SDO_ASY_HANDLE) AND NOT SDO_SEQ_HANDLE_MASK \<noteq> SDO_SEQ_INVALID_HDL" by auto
  qed
  have same: "handled event s (r, s)" if "r \<noteq> kErrorRetry" for r
    using that evolves_refl [OF assms(2)] by (rule handled_evolves [rotated])
  show ?thesis
    using i assms same processStateIdle_ok [OF assms(1-4)] processStateInit_ok [OF assms(1-4)]
      processStateConnected_ok [OF assms(1-3), of event pRecv pData n]
      processStateWaitAck_ok [OF assms(1-3), of event pRecv n]
    by (cases "sdoSeqState (con i s)")
      (auto simp: processState_def act_def Let_def elim!: wp_weaken intro!: handled_evolves)
qed


section \<open>Runs\<close>

text \<open>
  A run: calls of the command layer, received frames, and polls of the timer module, whose events
  for this module are processed at once. Every operation comes with the tick of the clock.
\<close>

datatype seq_op =
    SeqInitCon nat tSdoType
  | SeqSendData u32 "byte list"
  | SeqDeleteCon u32
  | SeqSetTimeout nat
  | SeqReceive u32 tAsySdoSeq nat
  | SeqPoll

fun seq_step :: "seq_env \<Rightarrow> nat \<times> seq_op \<Rightarrow> sdoseq_system \<Rightarrow> sdoseq_system option" where
  "seq_step E (tick, SeqInitCon n t) s =
     map_option (\<lambda>(_, _, s). s) (sdoseq_initCon E n t (s\<lparr>seqTick := tick\<rparr>))"
| "seq_step E (tick, SeqSendData h bs) s =
     map_option snd (sdoseq_sendData E h (length bs) (Some bs) (s\<lparr>seqTick := tick\<rparr>))"
| "seq_step E (tick, SeqDeleteCon h) s = map_option snd (sdoseq_deleteCon E h (s\<lparr>seqTick := tick\<rparr>))"
| "seq_step E (tick, SeqSetTimeout n) s = Some (snd (sdoseq_setTimeout n (s\<lparr>seqTick := tick\<rparr>)))"
| "seq_step E (tick, SeqReceive h fr n) s = map_option snd (receiveCb E h fr n (s\<lparr>seqTick := tick\<rparr>))"
| "seq_step E (tick, SeqPoll) s =
     (let (ev, t) = timeru_process tick (seqTimers s); s = s\<lparr>seqTick := tick, seqTimers := t\<rparr>
      in case ev of
           Some (kEventSinkSdoAsySeq, h, v) \<Rightarrow>
             map_option snd (sdoseq_processEvent E (Some \<lparr>eventType = kEventTypeTimer,
               eventSink = kEventSinkSdoAsySeq, netTime = 0, pEventArg = ArgTimerValue h v\<rparr>) s)
         | _ \<Rightarrow> Some s)"

fun seq_op_ok :: "seq_op \<Rightarrow> bool" where
  "seq_op_ok (SeqSendData h bs) \<longleftrightarrow>
     unat (h AND NOT SDO_SEQ_HANDLE_MASK) < CONFIG_SDO_MAX_CONNECTION_SEQ \<and> length bs \<le> 278"
| "seq_op_ok _ \<longleftrightarrow> True"

fun api_op :: "seq_op \<Rightarrow> bool" where
  "api_op (SeqReceive _ _ _) \<longleftrightarrow> False"
| "api_op SeqPoll \<longleftrightarrow> False"
| "api_op _ \<longleftrightarrow> True"

lemma evolves_tick: "seq_ok s \<Longrightarrow> evolves s (s\<lparr>seqTick := n\<rparr>)" "seq_ok s \<Longrightarrow> evolves s (s\<lparr>sdoSeqTimeout := n\<rparr>)"
  by (simp_all add: evolves_def seq_ok_def act_def hist_def)

lemma processState_other:
  assumes "env_ok E" and "evolves a s" and "i < CONFIG_SDO_MAX_CONNECTION_SEQ"
    and "event \<noteq> kSdoSeqEventFrameRec"
    and "\<And>bs. event = kSdoSeqEventFrameSend \<Longrightarrow> pData = Some bs \<Longrightarrow> n \<le> length bs \<and> n \<le> 278"
    and "\<And>r s'. evolves a s' \<Longrightarrow> Q (r, s')"
  shows "wp (processState E (word_of_nat i) n pData pRecv event s) Q"
  using processState_ok [OF assms(1) evolvesD(1) [OF assms(2)] assms(3), of event pRecv pData n] assms(4,5)
  by (auto simp: handled_def elim!: wp_weaken intro!: assms(6) intro: evolves_trans [OF assms(2)])

lemma initCon_evolves:
  assumes "env_ok E" and "evolves a s"
  shows "wp (sdoseq_initCon E n t s) (\<lambda>(_, _, s'). evolves a s')"
proof -
  obtain ret h where l: "lowerInit E t n (seqOuts s) = (ret, h)" by fastforce
  have found: "wp (map_option (\<lambda>(ret, s). (ret, Some (seq_handle i), s))
      (processState E (word_of_nat i) 0 None None kSdoSeqEventInitCon s')) (\<lambda>(_, _, s'). evolves a s')"
    if "evolves a s'" "i < CONFIG_SDO_MAX_CONNECTION_SEQ" for i s'
    using that assms(1) by (auto intro!: processState_other)
  have claim: "evolves a (claimCon i h s)" if "i < CONFIG_SDO_MAX_CONNECTION_SEQ" for i
    using evolves_numbers(8) [OF evolvesD(1) [OF assms(2)] that] by (rule evolves_trans [OF assms(2)])
  have del: "evolves a (seq_call (SeqLowerDel h) s)"
    using evolves_call [OF evolvesD(1) [OF assms(2)]] by (rule evolves_trans [OF assms(2)])
  show ?thesis
  proof (cases "findCon h s")
    case (Some i)
    then have "i < CONFIG_SDO_MAX_CONNECTION_SEQ" by (auto simp: findCon_def find_Some_iff)
    then show ?thesis using Some found [OF assms(2)] assms(2) l by (simp add: sdoseq_initCon_def Let_def)
  next
    case None
    show ?thesis
    proof (cases "find (\<lambda>i. conHandle (con i s) = 0) (rev [0..<CONFIG_SDO_MAX_CONNECTION_SEQ])")
      case (Some i)
      then have "i \<in> set (rev [0..<CONFIG_SDO_MAX_CONNECTION_SEQ])"
        by (metis find_Some_iff nth_mem)
      then have i: "i < CONFIG_SDO_MAX_CONNECTION_SEQ" by simp
      show ?thesis using None Some found [OF claim [OF i] i] assms(2) l
        by (simp add: sdoseq_initCon_def Let_def)
    next
      case free: None
      show ?thesis using None free del assms(2) l by (simp add: sdoseq_initCon_def Let_def)
    qed
  qed
qed


lemma sendData_evolves:
  assumes "env_ok E" and "evolves a s"
    and "unat (h AND NOT SDO_SEQ_HANDLE_MASK) < CONFIG_SDO_MAX_CONNECTION_SEQ" and "length bs \<le> 278"
  shows "wp (sdoseq_sendData E h (length bs) (Some bs) s) (\<lambda>(_, s'). evolves a s')"
proof -
  have "wp (processState E (h AND NOT SDO_SEQ_HANDLE_MASK) (length bs) (Some bs) None kSdoSeqEventFrameSend s)
      (\<lambda>(_, s'). evolves a s')"
    using processState_other [OF assms(1,2,3), of kSdoSeqEventFrameSend "Some bs" "length bs"] assms(4) by simp
  then show ?thesis using assms(2,3) by (simp add: sdoseq_sendData_def Let_def)
qed

lemma seq_ok_zero:
  assumes "seq_ok s" and "i < CONFIG_SDO_MAX_CONNECTION_SEQ" and "timerHandle (con i s) = 0"
  shows "evolves s (upd i (\<lambda>_. zero_con\<lparr>sdoSeqConHistory :=
     (sdoSeqConHistory zero_con)\<lparr>histFreeEntries := SDO_HISTORY_SIZE\<rparr>\<rparr>) s)"
  by (rule evolves_upd) (use assms hist_ok_zero in \<open>simp_all add: zero_con_def hist_ok_def\<close>)

lemma deleteCon_evolves:
  assumes "env_ok E" and "evolves a s"
  shows "wp (sdoseq_deleteCon E h s) (\<lambda>(_, s'). evolves a s')"
proof -
  define i where "i = unat (h AND NOT SDO_SEQ_HANDLE_MASK)"
  show ?thesis
  proof (cases "i < CONFIG_SDO_MAX_CONNECTION_SEQ")
    case False
    then show ?thesis using assms(2) by (simp add: sdoseq_deleteCon_def i_def Let_def)
  next
    case i: True
    have h: "h AND NOT SDO_SEQ_HANDLE_MASK = word_of_nat i" by (simp add: i_def)
    then have iu: "unat (word_of_nat i :: u32) = i" by (simp add: i_def flip: h)
    let ?s = "upd i (\<lambda>c. c\<lparr>useCount := sub32 (useCount c) 1\<rparr>) s"
    have e: "evolves a ?s" using evolves_numbers(7) [OF evolvesD(1) [OF assms(2)] i]
      by (rule evolves_trans [OF assms(2)])
    have del: "wp (deleteTimer i (lowerDelete E i s')) (\<lambda>s''. evolves a (upd i (\<lambda>_. zero_con\<lparr>sdoSeqConHistory :=
        (sdoSeqConHistory zero_con)\<lparr>histFreeEntries := SDO_HISTORY_SIZE\<rparr>\<rparr>) s''))"
      if s': "evolves a s'" for s'
    proof -
      have l: "evolves a (lowerDelete E i s')"
        using evolves_call [OF evolvesD(1) [OF s']] s' evolves_trans by (auto simp: lowerDelete_def Let_def)
      obtain t where t: "deleteTimer i (lowerDelete E i s') = Some (with_timer i 0 t (lowerDelete E i s'))"
        and e': "evolves (lowerDelete E i s') (with_timer i 0 t (lowerDelete E i s'))"
        using deleteTimer_ok [OF evolvesD(1) [OF l] i] by blast
      have "timerHandle (con i (with_timer i 0 t (lowerDelete E i s'))) = 0"
        using seq_okD(1) [OF evolvesD(1) [OF l]] i by simp
      from seq_ok_zero [OF evolvesD(1) [OF e'] i this] show ?thesis
        using t evolves_trans [OF evolves_trans [OF l e']] by simp
    qed
    have "wp (processState E (word_of_nat i) 0 None None kSdoSeqEventCloseCon ?s)
       (\<lambda>(ret, s). wp (deleteTimer i (lowerDelete E i s))
         (\<lambda>s''. wp (Some (ret, upd i (\<lambda>_. zero_con\<lparr>sdoSeqConHistory :=
           (sdoSeqConHistory zero_con)\<lparr>histFreeEntries := SDO_HISTORY_SIZE\<rparr>\<rparr>) s'')) (\<lambda>(_, s'). evolves a s')))"
      by (rule processState_other [OF assms(1) e i]) (simp_all add: del)
    then show ?thesis using e i
      unfolding sdoseq_deleteCon_def h Let_def iu by (auto simp: split_def)
  qed
qed

lemma api_evolves:
  assumes "env_ok E" and "seq_ok s" and "api_op x" and "seq_op_ok x"
  shows "\<exists>s'. seq_step E (tick, x) s = Some s' \<and> evolves s s'"
proof -
  note e = evolves_tick(1) [OF assms(2), of tick]
  have "wp (seq_step E (tick, x) s) (evolves s)"
  proof (cases x)
    case (SeqInitCon n t)
    then show ?thesis using initCon_evolves [OF assms(1) e, of n t] by (auto elim!: wp_weaken)
  next
    case (SeqSendData h bs)
    then show ?thesis using sendData_evolves [OF assms(1) e, of h bs] assms(4) by (auto elim!: wp_weaken)
  next
    case (SeqDeleteCon h)
    then show ?thesis using deleteCon_evolves [OF assms(1) e, of h] by (auto elim!: wp_weaken)
  next
    case (SeqSetTimeout n)
    then show ?thesis using evolves_trans [OF e evolves_tick(2) [OF evolvesD(1) [OF e]]]
      by (simp add: sdoseq_setTimeout_def)
  qed (use assms(3) in simp_all)
  then show ?thesis by (auto simp: wp_def)
qed

lemma api_run_evolves:
  assumes "env_ok E" and "seq_ok s" and "list_all (\<lambda>x. api_op (snd x) \<and> seq_op_ok (snd x)) xs"
  shows "\<exists>s'. run_steps (seq_step E) xs s = Some s' \<and> evolves s s'"
  using assms(2,3)
proof (induction xs arbitrary: s)
  case Nil
  then show ?case by (simp add: evolves_refl)
next
  case (Cons x xs)
  obtain tick y where x: "x = (tick, y)" by fastforce
  from api_evolves [OF assms(1) Cons.prems(1), of y tick] Cons.prems(2) x
  obtain s1 where s1: "seq_step E x s = Some s1" "evolves s s1" by auto
  from Cons.IH [OF evolvesD(1) [OF s1(2)]] Cons.prems(2) s1(1) show ?case
    using evolves_trans [OF s1(2)] by auto
qed

text \<open>
  A command layer that answers callbacks with calls of this module (whose own callbacks it
  answers in turn as in \<open>E\<close>) is an admissible environment.
\<close>

lemma calling_env_ok:
  assumes "env_ok E" and "\<And>c s. list_all (\<lambda>x. api_op (snd x) \<and> seq_op_ok (snd x)) (calls c s)"
  shows "env_ok (E\<lparr>reaction := \<lambda>c s. run_steps (seq_step E) (calls c s) s\<rparr>)"
  using assms api_run_evolves by (auto simp: env_ok_def)

lemma receiveOnce_ok:
  assumes "env_ok E" and "seq_ok s"
  shows "\<exists>r s'. receiveOnce E h fr n s = Some (r, s') \<and> seq_ok s' \<and> (r = kErrorRetry \<longrightarrow> act s' \<subset> act s)"
proof -
  have step: "wp (do {
        (ret, s) \<leftarrow> deleteAckedFrameFromHistory i (recvSeqNumCon fr AND SEQ_NUM_MASK) s';
        (if ret \<noteq> kErrorOk then Some (ret, s)
         else processState E (word_of_nat i) n None (Some fr) kSdoSeqEventFrameRec s)
      }) (handled kSdoSeqEventFrameRec s)"
    if e: "evolves s s'" and i: "i < CONFIG_SDO_MAX_CONNECTION_SEQ" for i s'
  proof -
    obtain s1 where s1: "deleteAckedFrameFromHistory i (recvSeqNumCon fr AND SEQ_NUM_MASK) s' = Some (kErrorOk, s1)"
      "evolves s' s1" using deleteAckedFrameFromHistory_ok [OF evolvesD(1) [OF e] i] by blast
    have "act s1 \<subseteq> act s" using evolvesD(2) [OF evolves_trans [OF e s1(2)]] .
    then have "handled kSdoSeqEventFrameRec s1 x \<Longrightarrow> handled kSdoSeqEventFrameRec s x" for x
      by (auto simp: handled_def)
    then show ?thesis
      using s1(1) processState_ok [OF assms(1) evolvesD(1) [OF s1(2)] i, of kSdoSeqEventFrameRec "Some fr" None n]
      by (auto elim!: wp_weaken)
  qed
  have claim: "evolves s (claimCon i h s)" if "i < CONFIG_SDO_MAX_CONNECTION_SEQ" for i
    using evolves_numbers(8) [OF assms(2) that] .
  have "wp (receiveOnce E h fr n s) (handled kSdoSeqEventFrameRec s)"
  proof (cases "findCon h s")
    case (Some i)
    then have "i < CONFIG_SDO_MAX_CONNECTION_SEQ" by (auto simp: findCon_def find_Some_iff)
    from step [OF evolves_refl [OF assms(2)] this] Some show ?thesis by (simp only: receiveOnce_def option.case prod.case)
  next
    case None
    show ?thesis
    proof (cases "find (\<lambda>i. conHandle (con i s) = 0) [0..<CONFIG_SDO_MAX_CONNECTION_SEQ]")
      case (Some i)
      then have i: "i < CONFIG_SDO_MAX_CONNECTION_SEQ" by (auto simp: find_Some_iff)
      from step [OF claim [OF i] i] Some None show ?thesis
        by (simp only: receiveOnce_def option.case option.map prod.case)
    next
      case free: None
      show ?thesis using None free assms(2) by (simp add: receiveOnce_def handled_def)
    qed
  qed
  then show ?thesis by (auto simp: wp_def handled_def)
qed

lemma receiveCb_ok:
  assumes "env_ok E" and "seq_ok s"
  shows "\<exists>r s'. receiveCb E h fr n s = Some (r, s') \<and> seq_ok s' \<and> r \<noteq> kErrorRetry"
  using assms(2)
proof (induction "card (act s)" arbitrary: s rule: less_induct)
  case less
  obtain r s' where r: "receiveOnce E h fr n s = Some (r, s')" "seq_ok s'"
    "r = kErrorRetry \<longrightarrow> act s' \<subset> act s" using receiveOnce_ok [OF assms(1) less.prems] by blast
  show ?case
  proof (cases "r = kErrorRetry")
    case False
    then show ?thesis using r by (subst receiveCb.simps) simp
  next
    case True
    have "finite (act s)" by (simp add: act_def)
    then have "card (act s') < card (act s)" using r(3) True by (simp add: psubset_card_mono)
    moreover have "receiveCb E h fr n s = receiveCb E h fr n s'"
      using r(1) True by (subst receiveCb.simps) simp
    ultimately show ?thesis using less.hyps r(2) by simp
  qed
qed


lemma expired_timer:
  assumes "seq_ok s" and "timeru_process tick (seqTimers s) = (ev, t)"
  shows "seq_ok (s\<lparr>seqTimers := t\<rparr>)"
    and "ev = Some (kEventSinkSdoAsySeq, h, v) \<Longrightarrow>
      \<exists>i<CONFIG_SDO_MAX_CONNECTION_SEQ. v = i + 1 \<and> timerHandle (con i s) = h \<and> h \<noteq> 0"
proof -
  show "seq_ok (s\<lparr>seqTimers := t\<rparr>)"
  proof (cases "timerList (seqTimers s)")
    case Nil
    then have "t = seqTimers s" using assms(2) by (simp add: timeru_process_def)
    then show ?thesis using assms(1) by simp
  next
    case (Cons ed rest)
    have t: "t = seqTimers s \<or> t = (seqTimers s)\<lparr>timerList := rest,
        startTimeInMs := wrap32 (startTimeInMs (seqTimers s) + snd ed)\<rparr>"
      using assms(2) Cons by (cases ed) (auto simp: timeru_process_def Let_def split: if_splits)
    have "handles_ok (\<lambda>i. timerHandle (con i s)) ((seqTimers s)\<lparr>timerList := rest, startTimeInMs := x\<rparr>)" for x
      using seq_okD(5) [OF assms(1)] Cons unfolding handles_ok_def by auto
    then have "handles_ok (\<lambda>i. timerHandle (con i s)) t" using t seq_okD(5) [OF assms(1)] by blast
    then show ?thesis using seq_okD [OF assms(1)] by (simp add: seq_ok_def hist_def)
  qed
  assume ev: "ev = Some (kEventSinkSdoAsySeq, h, v)"
  show "\<exists>i<CONFIG_SDO_MAX_CONNECTION_SEQ. v = i + 1 \<and> timerHandle (con i s) = h \<and> h \<noteq> 0"
  proof (cases "timerList (seqTimers s)")
    case Nil
    then show ?thesis using assms(2) ev by (simp add: timeru_process_def)
  next
    case (Cons ed rest)
    obtain e d where ed: "ed = (e, d)" by fastforce
    have e: "timerSink (timerArgs (seqTimers s) e) = kEventSinkSdoAsySeq" "h = e + 1"
      "v = timerValue (timerArgs (seqTimers s) e)"
      using assms(2) ev Cons ed by (auto simp: timeru_process_def Let_def split: if_splits)
    moreover have "e \<in> fst ` set (timerList (seqTimers s))" using Cons ed by simp
    ultimately show ?thesis using seq_okD(5) [OF assms(1)] by (auto simp: handles_ok_def)
  qed
qed

lemma poll_ok:
  assumes "env_ok E" and "seq_ok s"
  shows "\<exists>s'. seq_step E (tick, SeqPoll) s = Some s' \<and> seq_ok s'"
proof -
  obtain ev t where ev: "timeru_process tick (seqTimers s) = (ev, t)" by fastforce
  let ?s = "s\<lparr>seqTick := tick, seqTimers := t\<rparr>"
  have "?s = (s\<lparr>seqTimers := t\<rparr>)\<lparr>seqTick := tick\<rparr>" by simp
  then have ok: "seq_ok ?s"
    using evolvesD(1) [OF evolves_tick(1) [OF expired_timer(1) [OF assms(2) ev]]] by (simp only:)
  show ?thesis
  proof (cases "\<exists>h v. ev = Some (kEventSinkSdoAsySeq, h, v)")
    case False
    have "seq_step E (tick, SeqPoll) s = Some ?s"
    proof (cases ev)
      case None
      then show ?thesis using ev by (simp add: Let_def)
    next
      case (Some x)
      obtain sink h v where x: "x = (sink, h, v)" by (cases x) auto
      then have "sink \<noteq> kEventSinkSdoAsySeq" using False Some by blast
      then show ?thesis using ev Some x by (cases sink) (simp_all add: Let_def)
    qed
    then show ?thesis using ok by blast
  next
    case True
    then obtain h v where hv: "ev = Some (kEventSinkSdoAsySeq, h, v)" by blast
    from expired_timer(2) [OF assms(2) ev hv] obtain i where
      i: "i < CONFIG_SDO_MAX_CONNECTION_SEQ" "v = i + 1" "timerHandle (con i s) = h" by blast
    let ?ev = "\<lparr>eventType = kEventTypeTimer, eventSink = kEventSinkSdoAsySeq, netTime = 0,
      pEventArg = ArgTimerValue h v\<rparr>"
    have "wp (deleteTimer i ?s) (\<lambda>s'. wp (processState E (word_of_nat i) 0 None None kSdoSeqEventTimeout s')
        (\<lambda>(_, s'). evolves ?s s'))"
      by (rule deleteTimer_wp [OF evolves_refl [OF ok] i(1)])
        (auto intro!: processState_other [OF assms(1)] i(1))
    then have "wp (sdoseq_processEvent E (Some ?ev) ?s) (\<lambda>(_, s'). evolves ?s s')"
      using i by (simp add: sdoseq_processEvent_def)
    moreover have "seq_step E (tick, SeqPoll) s = map_option snd (sdoseq_processEvent E (Some ?ev) ?s)"
      using ev hv by (simp add: Let_def)
    ultimately show ?thesis using evolvesD(1) by (fastforce simp: wp_def)
  qed
qed

lemma seq_step_ok:
  assumes "env_ok E" and "seq_ok s" and "seq_op_ok (snd x)"
  shows "\<exists>s'. seq_step E x s = Some s' \<and> seq_ok s'"
proof -
  obtain tick y where x: "x = (tick, y)" by fastforce
  note tick = evolvesD(1) [OF evolves_tick(1) [OF assms(2), of tick]]
  show ?thesis
  proof (cases "api_op y")
    case True
    then show ?thesis using api_evolves [OF assms(1,2) True, of tick] assms(3) x evolvesD(1) by auto
  next
    case False
    then show ?thesis using poll_ok [OF assms(1,2), of tick] receiveCb_ok [OF assms(1) tick] x
      by (cases y) fastforce+
  qed
qed

interpretation seq_machine: safe_machine "seq_step E" "\<lambda>x. seq_op_ok (snd x)" "\<lambda>s. env_ok E \<and> seq_ok s" for E
  by unfold_locales (use seq_step_ok in blast)

lemma seq_ok_init:
  assumes "sdoseq_init E True True s = (kErrorOk, s')"
    and "distinct (map fst (timerList (seqTimers s)) @ freeList (seqTimers s))"
    and "\<forall>(e, d)\<in>set (timerList (seqTimers s)). timerSink (timerArgs (seqTimers s) e) \<noteq> kEventSinkSdoAsySeq"
  shows "seq_ok s'"
proof -
  let ?cons = "replicate CONFIG_SDO_MAX_CONNECTION_SEQ zero_con"
  have s': "s' = s\<lparr>pfnSdoComRecvCb := True, pfnSdoComConCb := True, aSdoSeqCon := ?cons,
      sdoSeqTimeout := SDO_SEQ_DEFAULT_TIMEOUT\<rparr>"
    using assms(1) by (auto simp: sdoseq_init_def sdoseq_addInstance_def Let_def split: if_splits)
  have con: "con i s' = zero_con" if "i < CONFIG_SDO_MAX_CONNECTION_SEQ" for i
    using that nth_replicate [of i CONFIG_SDO_MAX_CONNECTION_SEQ zero_con] by (simp add: s' con_def)
  have z: "timerHandle zero_con = 0" by (simp add: zero_con_def)
  have "handles_ok (\<lambda>i. timerHandle (con i s')) (seqTimers s')"
    using assms(2,3) con z by (auto simp: handles_ok_def s' simp del: replicate.simps)
  then show ?thesis using con hist_ok_zero by (simp add: seq_ok_def hist_def s')
qed

end
