(* ===== verification/Sdo_Link.thy ===== *)
theory Sdo_Link
  imports Sdo_Seq "HOL-Library.Sublist"
begin

text \<open>
  Two instances of the SDO sequence layer (\<open>Sdo_Seq\<close>) connected by a network that loses, repeats
  and reorders frames: sequence numbers, the handshake, and what the receiver delivers.
\<close>

unbundle bit_operations_syntax

section \<open>Sequence numbers\<close>

text \<open>The number of a frame is in the upper six bits of the byte, the connection bits in the lower two.\<close>

definition seq_num :: "byte \<Rightarrow> nat" where
  "seq_num x = unat x div 4"

lemma byte_eqI:
  assumes "\<And>n. n \<in> {0, 1, 2, 3, 4, 5, 6, 7} \<Longrightarrow> bit x n = bit y n"
  shows "x = (y :: byte)"
proof (rule bit_word_eqI)
  fix n :: nat
  assume "n < LENGTH(8)"
  then have "n \<in> {0, 1, 2, 3, 4, 5, 6, 7}" by auto
  then show "bit x n = bit y n" by (rule assms)
qed

lemma masked_num:
  fixes x :: byte
  shows "(x OR 0x03) AND SEQ_NUM_MASK = x AND SEQ_NUM_MASK" "(x OR 0x03) AND SDO_CON_MASK = 3"
    "(x AND NOT 0x01) AND SEQ_NUM_MASK = x AND SEQ_NUM_MASK"
  by (rule byte_eqI; auto simp: bit_simps)+

lemma seq_num_mask: "unat (x AND SEQ_NUM_MASK) = 4 * seq_num x"
proof -
  have "x AND SEQ_NUM_MASK = push_bit 2 (drop_bit 2 x)"
    by (rule byte_eqI) (auto simp: bit_simps numeral_2_eq_2 [symmetric] numeral_3_eq_3 [symmetric])
  then have "unat (x AND SEQ_NUM_MASK) = unat (4 * (x div 4))"
    by (simp add: push_bit_eq_mult drop_bit_eq_div mult.commute)
  also have "\<dots> = 4 * (unat x div 4) mod 256" by (simp add: unat_word_ariths unat_div mod_mult_right_eq)
  also have "\<dots> = 4 * (unat x div 4)" using unsigned_less [of x, where ?'a = nat] by simp
  finally show ?thesis by (simp add: seq_num_def)
qed

lemma con_bits: "unat (x AND SDO_CON_MASK) = unat (x :: byte) mod 4"
proof -
  have "x AND SDO_CON_MASK = take_bit 2 x" by (rule byte_eqI) (auto simp: bit_simps)
  then show ?thesis by (simp add: take_bit_eq_mod unat_mod)
qed

lemma seq_num_eq: "x AND SEQ_NUM_MASK = y AND SEQ_NUM_MASK \<longleftrightarrow> seq_num x = seq_num y"
proof -
  have "x AND SEQ_NUM_MASK = y AND SEQ_NUM_MASK \<longleftrightarrow> unat (x AND SEQ_NUM_MASK) = unat (y AND SEQ_NUM_MASK)"
    by (simp only: word_unat_eq_iff)
  then show ?thesis by (simp add: seq_num_mask)
qed

lemma seq_num_masked [simp]:
  "seq_num (x OR 0x03) = seq_num x" "seq_num (x AND NOT 0x01) = seq_num x" "seq_num (x AND - 2) = seq_num x"
  using seq_num_eq masked_num(1,3) masked_num(3) [simplified] by blast+

lemma mod_256_div_4: "(n mod 256) div 4 = (n div 4) mod (64 :: nat)"
  using mod_mult2_eq [of n 4 64] by simp

lemma seq_num_less: "seq_num x < 64"
  using unsigned_less [of x, where ?'a = nat] by (simp add: seq_num_def)

lemma byte_next: "unat ((x :: byte) + 4) = (unat x + 4) mod 256"
  by (simp add: unat_word_ariths)

lemma seq_num_next: "seq_num (x + 4) = (seq_num x + 1) mod 64"
  unfolding seq_num_def byte_next mod_256_div_4 by (simp add: div_add_self2)

lemma con_bits_next: "(x + 4) AND SDO_CON_MASK = (x :: byte) AND SDO_CON_MASK"
proof -
  have "unat (x + 4) mod 4 = unat x mod 4" unfolding byte_next by (simp add: mod_mod_cancel)
  then have "unat ((x + 4) AND SDO_CON_MASK) = unat (x AND SDO_CON_MASK)" by (simp only: con_bits)
  then show ?thesis by (simp only: word_unat_eq_iff)
qed

text \<open>A number with the bits 3 is sent where one with the bits 2 is meant, and put back after.\<close>

lemma ack_request:
  assumes "x AND SDO_CON_MASK = (2 :: byte)"
  shows "(x AND SEQ_NUM_MASK) OR 0x02 = x" "(x OR 0x03) - 1 = x"
proof -
  have b: "bit (x AND 3) n = bit (2 :: byte) n" for n using assms by simp
  from b [of 0] b [of 1] have b2: "\<not> bit x 0" "bit x 1" by (simp_all add: bit_simps)
  then show "(x AND SEQ_NUM_MASK) OR 0x02 = x"
    by (intro byte_eqI) (auto simp: bit_simps numeral_2_eq_2 [symmetric] numeral_3_eq_3 [symmetric])
  from b2 have "x OR 3 = x OR 1"
    by (intro byte_eqI) (auto simp: bit_simps numeral_2_eq_2 [symmetric] numeral_3_eq_3 [symmetric])
  also have "\<dots> = x + 1" using b2 by (simp add: or_one_eq bit_0)
  finally show "(x OR 0x03) - 1 = x" by simp
qed

lemma without_request:
  assumes "x AND SDO_CON_MASK = 2 \<or> x AND SDO_CON_MASK = (3 :: byte)"
  shows "(x AND NOT 0x01) AND SDO_CON_MASK = 2"
proof -
  have "bit (x AND 3) 1"
    using assms by (elim disjE) (simp_all only: bit_numeral_simps, simp_all add: bit_simps)
  then have "bit x 1" by (simp add: bit_simps)
  then show ?thesis by (intro byte_eqI) (auto simp: bit_simps)
qed

section \<open>A connection over a network that always sends\<close>

text \<open>
  \<open>quiet\<close>: the transport accepts all frames, and the command layer does not call back.
  \<open>connection E i s\<close>: entry \<open>i\<close> has a handle of a transport that is compiled in.
\<close>

definition quiet :: "seq_env \<Rightarrow> bool" where
  "quiet E \<longleftrightarrow> (\<forall>outs. lowerSend E outs = kErrorOk) \<and> (\<forall>call s. reaction E call s = Some s)"

definition connection :: "seq_env \<Rightarrow> nat \<Rightarrow> sdoseq_system \<Rightarrow> bool" where
  "connection E i s \<longleftrightarrow> seq_ok s \<and> i < CONFIG_SDO_MAX_CONNECTION_SEQ \<and>
     (let t = conHandle (con i s) AND SDO_ASY_HANDLE_MASK
      in t = SDO_UDP_HANDLE \<and> includeUdp E \<or> t = SDO_ASND_HANDLE \<and> includeAsnd E)"

fun sent :: "seq_out list \<Rightarrow> tAsySdoSeq list" where
  "sent [] = []"
| "sent (SeqSent h fr n # outs) = fr # sent outs"
| "sent (_ # outs) = sent outs"

fun delivered :: "u32 \<Rightarrow> seq_out list \<Rightarrow> byte list list" where
  "delivered h [] = []"
| "delivered h (SeqRecvCb h' bs n # outs) = (if h' = h then [take n bs] else []) @ delivered h outs"
| "delivered h (_ # outs) = delivered h outs"

lemma sent_append [simp]: "sent (xs @ ys) = sent xs @ sent ys"
  by (induction xs rule: sent.induct) simp_all

lemma delivered_append [simp]: "delivered h (xs @ ys) = delivered h xs @ delivered h ys"
  by (induction h xs rule: delivered.induct) simp_all

lemma quiet_env_ok: "quiet E \<Longrightarrow> env_ok E"
  using evolves_refl by (auto simp: quiet_def env_ok_def)

lemma connectionD:
  assumes "connection E i s"
  shows "seq_ok s" "i < CONFIG_SDO_MAX_CONNECTION_SEQ" "i < length (aSdoSeqCon s)"
  using assms seq_okD(1) by (auto simp: connection_def)

lemma quiet_callbacks:
  assumes "quiet E" and "seq_ok s"
  shows "conCb E i st s = Some (seq_call (SeqConCb (seq_handle i) st) s)"
    "recvCb E i fr n s =
      Some (seq_call (SeqRecvCb (seq_handle i) (sdoSeqPayload fr) (n - SDO_SEQ_HEADER_SIZE)) s)"
  using assms(1) seq_okD(3,4) [OF assms(2)] by (simp_all add: quiet_def conCb_def recvCb_def Let_def)

lemma quiet_lower:
  assumes "quiet E" and "connection E i s"
  shows "sendToLowerLayer E i n fr s = (kErrorOk, seq_call (SeqSent (conHandle (con i s)) fr n) s)"
  using assms by (auto simp: sendToLowerLayer_def connection_def quiet_def Let_def)

lemma quiet_sendEmpty:
  assumes "quiet E" and "connection E i s"
  shows "sendFrame E i 0 None False s = Some (kErrorOk,
     seq_call (SeqSent (conHandle (con i s)) \<lparr>recvSeqNumCon = sendSeqNum (con i s),
       sendSeqNumCon = recvSeqNum (con i s), sdoSeqPayload = []\<rparr> SDO_SEQ_HEADER_SIZE) s)"
  using quiet_lower [OF assms] by (simp add: sendFrame_def Let_def)

text \<open>What changes on the way does not touch the transport handle.\<close>

lemma connection_keeps:
  assumes "connection E i s" and "seq_ok s'" and "conHandle (con i s') = conHandle (con i s)"
  shows "connection E i s'"
  using assms by (simp add: connection_def)


lemma upd_hist_con [simp]:
  "i < length (aSdoSeqCon s) \<Longrightarrow>
     con j (upd_hist i f s) =
       (if j = i then (con i s)\<lparr>sdoSeqConHistory := f (sdoSeqConHistory (con i s))\<rparr> else con j s)"
  by (simp add: upd_hist_def)

lemma upd_hist_fields [simp]:
  "length (aSdoSeqCon (upd_hist i f s)) = length (aSdoSeqCon s)" "seqOuts (upd_hist i f s) = seqOuts s"
  "sdoSeqTimeout (upd_hist i f s) = sdoSeqTimeout s"
  by (simp_all add: upd_hist_def)

lemma with_timer_fields [simp]:
  "length (aSdoSeqCon (with_timer i h t s)) = length (aSdoSeqCon s)"
  "seqOuts (with_timer i h t s) = seqOuts s" "sdoSeqTimeout (with_timer i h t s) = sdoSeqTimeout s"
  by (simp_all add: with_timer_def)

lemma deleteAcked_hist:
  assumes "seq_ok s" and "i < CONFIG_SDO_MAX_CONNECTION_SEQ"
  shows "\<exists>f. deleteAckedFrameFromHistory i q s = Some (kErrorOk, upd_hist i f s)"
proof (cases "histFreeEntries (hist i s) < SDO_HISTORY_SIZE")
  case True
  with deleteAckedFrameFromHistory_ok [OF assms, of q] obtain early ack h' where
    "deleteAckedLoop q (ackIndex (hist i s)) (hist i s) = Some (early, ack, h')"
    by (auto simp: deleteAckedFrameFromHistory_def)
  with True have "deleteAckedFrameFromHistory i q s =
      Some (kErrorOk, upd_hist i (\<lambda>_. if early then h' else h'\<lparr>ackIndex := ack\<rparr>) s)"
    by (simp add: deleteAckedFrameFromHistory_def)
  then show ?thesis by blast
next
  case False
  have "upd_hist i (\<lambda>h. h) s = s"
    using seq_okD(1) [OF assms(1)] assms(2) by (simp add: upd_hist_def upd_def con_def)
  then show ?thesis using False by (metis deleteAckedFrameFromHistory_def)
qed

lemma processState_unfold:
  assumes "i < CONFIG_SDO_MAX_CONNECTION_SEQ" and "pData \<noteq> None \<or> pRecv \<noteq> None \<or> n = 0"
  shows "processState E (word_of_nat i) n pData pRecv event s =
     (case sdoSeqState (con i s) of
        kSdoSeqStateIdle \<Rightarrow> processStateIdle E i event pRecv s
      | kSdoSeqStateInit1 \<Rightarrow> processStateInit1 E i event pRecv s
      | kSdoSeqStateInit2 \<Rightarrow> processStateInit2 E i event pRecv s
      | kSdoSeqStateInit3 \<Rightarrow> processStateInit3 E i event pRecv s
      | kSdoSeqStateConnected \<Rightarrow> processStateConnected E i event pRecv n pData s
      | kSdoSeqStateWaitAck \<Rightarrow> processStateWaitAck E i event pRecv n s)"
proof -
  have "i = 0 \<or> i = 1 \<or> i = 2 \<or> i = 3 \<or> i = 4" using assms(1) by arith
  then have "unat (word_of_nat i :: u32) = i"
    "(word_of_nat i OR SDO_ASY_HANDLE) AND NOT SDO_SEQ_HANDLE_MASK \<noteq> SDO_SEQ_INVALID_HDL" by auto
  then show ?thesis using assms unfolding processState_def Let_def by (auto split: tSdoSeqState.split)
qed

text \<open>What \<^verbatim>\<open>receiveCb\<close> does first: find the connection, free acknowledged frames, set the timer.\<close>

lemma receive_start:
  assumes "seq_ok s" and "findCon h s = Some i"
  shows "\<exists>s1. i < CONFIG_SDO_MAX_CONNECTION_SEQ \<and> seq_ok s1 \<and> seqOuts s1 = seqOuts s \<and>
     (\<forall>j. conHandle (con j s1) = conHandle (con j s)) \<and> sdoSeqState (con i s1) = sdoSeqState (con i s) \<and>
     sendSeqNum (con i s1) = sendSeqNum (con i s) \<and> recvSeqNum (con i s1) = recvSeqNum (con i s) \<and>
     receiveOnce E h fr n s = processState E (word_of_nat i) n None (Some fr) kSdoSeqEventFrameRec s1"
proof -
  have i: "i < CONFIG_SDO_MAX_CONNECTION_SEQ" using assms(2) by (auto simp: findCon_def find_Some_iff)
  obtain f where f: "deleteAckedFrameFromHistory i (recvSeqNumCon fr AND SEQ_NUM_MASK) s = Some (kErrorOk, upd_hist i f s)"
    using deleteAcked_hist [OF assms(1) i] by blast
  have "seq_ok (upd_hist i f s)"
    using deleteAckedFrameFromHistory_ok [OF assms(1) i] f evolvesD(1) by (metis option.inject prod.inject)
  then show ?thesis using i f assms(2) seq_okD(1) [OF assms(1)]
    by (intro exI [of _ "upd_hist i f s"]) (auto simp: receiveOnce_def)
qed

lemma findCon_cong:
  assumes "\<forall>j. conHandle (con j s') = conHandle (con j s)"
  shows "findCon h s' = findCon h s"
  using assms by (simp add: findCon_def)

lemma receiveCb_once:
  assumes "receiveOnce E h fr n s = Some (r, s')" and "r \<noteq> kErrorRetry"
  shows "receiveCb E h fr n s = Some (r, s')"
  using assms by (subst receiveCb.simps) simp

definition next_frame :: "tAsySdoSeq \<Rightarrow> tSdoSeqCon \<Rightarrow> bool" where
  "next_frame fr c \<longleftrightarrow> seq_num (sendSeqNumCon fr) = (seq_num (sendSeqNum c) + 1) mod 64"

lemma connectedData_quiet:
  assumes "quiet E" and "connection E i s" and "scon fr = 2 \<or> scon fr = 3"
    and "sendSeqNum (con i s) AND SDO_CON_MASK = 2" and "n = SDO_SEQ_HEADER_SIZE + length (sdoSeqPayload fr)"
    and "sdoSeqPayload fr \<noteq> []" and "ret \<noteq> kErrorRetry" and "sdoSeqState (con i s) = st"
  shows "\<exists>r s'. connectedData E i fr n ret s = Some (r, s') \<and> r \<noteq> kErrorRetry \<and>
     (\<forall>j. conHandle (con j s') = conHandle (con j s)) \<and> sdoSeqState (con i s') = st \<and>
     sendSeqNum (con i s') AND SDO_CON_MASK = 2 \<and>
     (if next_frame fr (con i s) then seq_num (sendSeqNum (con i s')) = seq_num (sendSeqNumCon fr) \<and>
        delivered (seq_handle i) (seqOuts s') = delivered (seq_handle i) (seqOuts s) @ [sdoSeqPayload fr]
      else sendSeqNum (con i s') = sendSeqNum (con i s) \<and>
        delivered (seq_handle i) (seqOuts s') = delivered (seq_handle i) (seqOuts s))"
proof -
  note c = connectionD [OF assms(2)]
  let ?ack = "\<lambda>s. if scon fr = 3 then sendFrame E i 0 None False s else Some (ret, s)"
  have ack: "\<exists>r s'. ?ack s = Some (r, s') \<and> r \<noteq> kErrorRetry \<and> aSdoSeqCon s' = aSdoSeqCon s \<and>
      delivered (seq_handle i) (seqOuts s') = delivered (seq_handle i) (seqOuts s)"
    if "connection E i s" for s
    using quiet_sendEmpty [OF assms(1) that] assms(7) by auto
  have same: "con j s' = con j s" if "aSdoSeqCon s' = aSdoSeqCon s" for j s s'
    using that by (simp add: con_def)
  show ?thesis
  proof (cases "(sendSeqNum (con i s) + 4) AND SEQ_NUM_MASK = sendSeqNumCon fr AND SEQ_NUM_MASK")
    case True
    then have nf: "next_frame fr (con i s)" by (simp add: next_frame_def seq_num_eq seq_num_next)
    let ?s = "upd i (\<lambda>c. c\<lparr>sendSeqNum := sendSeqNumCon fr AND NOT 0x01\<rparr>) s"
    have ok: "seq_ok ?s" using evolvesD(1) [OF evolves_numbers(4) [OF c(1,2)]] by simp
    let ?s1 = "seq_call (SeqRecvCb (seq_handle i) (sdoSeqPayload fr) (length (sdoSeqPayload fr))) ?s"
    let ?s2 = "seq_call (SeqConCb (seq_handle i) kAsySdoConStateFrameSended) ?s1"
    have ok1: "seq_ok ?s1" "seq_ok ?s2" using ok evolvesD(1) [OF evolves_call] by blast+
    have "connection E i ?s2"
      by (rule connection_keeps [OF assms(2) ok1(2)]) (use c(3) in simp)
    from ack [OF this] obtain r s' where s': "?ack ?s2 = Some (r, s')" "r \<noteq> kErrorRetry"
      "aSdoSeqCon s' = aSdoSeqCon ?s2"
      "delivered (seq_handle i) (seqOuts s') = delivered (seq_handle i) (seqOuts ?s2)" by blast
    have "connectedData E i fr n ret s = ?ack ?s2"
      using True assms(5,6) quiet_callbacks [OF assms(1)] ok ok1(1)
      by (simp add: connectedData_def Let_def)
    moreover have "sendSeqNum (con i s') AND SDO_CON_MASK = 2"
      using same [OF s'(3)] c(3) without_request [of "sendSeqNumCon fr"] assms(3) by (simp add: scon_def)
    moreover have "seq_num (sendSeqNum (con i s')) = seq_num (sendSeqNumCon fr)"
      using same [OF s'(3)] c(3) seq_num_masked(2) by simp
    ultimately show ?thesis using s' same [OF s'(3)] c(3) nf assms(8) by simp
  next
    case False
    then have nf: "\<not> next_frame fr (con i s)" by (simp add: next_frame_def seq_num_eq seq_num_next eq_commute)
    show ?thesis
    proof (cases "(sendSeqNumCon fr - sendSeqNum (con i s) - 4) AND SEQ_NUM_MASK < SDO_SEQ_NUM_THRESHOLD")
      case gap: True
      let ?s = "upd i (\<lambda>c. c\<lparr>sendSeqNum := sendSeqNum c OR 0x03\<rparr>) s"
      have "connection E i ?s"
        by (rule connection_keeps [OF assms(2) evolvesD(1) [OF evolves_numbers(4) [OF c(1,2)]]]) (use c(3) in simp)
      from quiet_sendEmpty [OF assms(1) this] False gap
      show ?thesis using c(3) nf assms(4,8) ack_request(1) [OF assms(4)]
        by (auto simp: connectedData_def Let_def masked_num)
    next
      case old: False
      from ack [OF assms(2)] obtain r s' where s': "?ack s = Some (r, s')" "r \<noteq> kErrorRetry"
        "aSdoSeqCon s' = aSdoSeqCon s"
        "delivered (seq_handle i) (seqOuts s') = delivered (seq_handle i) (seqOuts s)" by blast
      then show ?thesis using False old nf same [OF s'(3)] assms(4,8)
        by (auto simp: connectedData_def Let_def)
    qed
  qed
qed


text \<open>
  \<open>receiver\<close>: an established connection of which \<open>m\<close> frames after the number \<open>q\<close> have been
  accepted. \<open>data_frame q k p fr\<close>: \<open>fr\<close> is the frame that carries \<open>p\<close> as number \<open>k\<close> after \<open>q\<close>.
\<close>

definition receiver :: "seq_env \<Rightarrow> nat \<Rightarrow> u32 \<Rightarrow> nat \<Rightarrow> nat \<Rightarrow> sdoseq_system \<Rightarrow> bool" where
  "receiver E j h q m s \<longleftrightarrow> connection E j s \<and> findCon h s = Some j \<and>
     sdoSeqState (con j s) = kSdoSeqStateConnected \<and> sendSeqNum (con j s) AND SDO_CON_MASK = 2 \<and>
     seq_num (sendSeqNum (con j s)) = (q + m) mod 64"

definition data_frame :: "nat \<Rightarrow> nat \<Rightarrow> byte list \<Rightarrow> tAsySdoSeq \<Rightarrow> bool" where
  "data_frame q k p fr \<longleftrightarrow> seq_num (sendSeqNumCon fr) = (q + k + 1) mod 64 \<and>
     (scon fr = 2 \<or> scon fr = 3) \<and> rcon fr = 2 \<and> sdoSeqPayload fr = p \<and> p \<noteq> []"

lemma mod_64_eq:
  assumes "m < 64" and "k < 64"
  shows "(q + m + 1) mod 64 = (q + k + 1) mod (64 :: nat) \<longleftrightarrow> m = k"
proof -
  have le: "a = b" if "a \<le> b" "b < 64" "(q + a + 1) mod 64 = (q + b + 1) mod (64 :: nat)" for a b
  proof -
    have "64 dvd (q + b + 1) - (q + a + 1)"
      using that mod_eq_dvd_iff_nat [of "q + a + 1" "q + b + 1" 64] by simp
    then have "64 dvd b - a" by simp
    then show ?thesis using that(1,2) by (cases "b - a = 0") (auto dest: dvd_imp_le)
  qed
  show ?thesis using le [of m k] le [of k m] assms by (cases "m \<le> k") auto
qed

lemma receive_step:
  assumes "quiet E" and "receiver E j h q m s" and "data_frame q k p fr" and "m < 64" and "k < 64"
  shows "\<exists>s'. seq_step E (tick, SeqReceive h fr (SDO_SEQ_HEADER_SIZE + length p)) s = Some s' \<and>
     receiver E j h q (if k = m then m + 1 else m) s' \<and>
     delivered (seq_handle j) (seqOuts s') =
       delivered (seq_handle j) (seqOuts s) @ (if k = m then [p] else [])"
proof -
  let ?s = "s\<lparr>seqTick := tick\<rparr>" and ?n = "SDO_SEQ_HEADER_SIZE + length p"
  have conn: "connection E j s" and find: "findCon h s = Some j"
    and st: "sdoSeqState (con j s) = kSdoSeqStateConnected"
    and bits: "sendSeqNum (con j s) AND SDO_CON_MASK = 2"
    and num: "seq_num (sendSeqNum (con j s)) = (q + m) mod 64"
    using assms(2) by (simp_all add: receiver_def)
  have fr: "seq_num (sendSeqNumCon fr) = (q + k + 1) mod 64" "scon fr = 2 \<or> scon fr = 3" "rcon fr = 2"
    "sdoSeqPayload fr = p" "p \<noteq> []" using assms(3) by (simp_all add: data_frame_def)
  note c = connectionD [OF conn]
  have ok: "seq_ok ?s" using evolvesD(1) [OF evolves_tick(1) [OF c(1)]] .
  from receive_start [OF ok, of h j E fr ?n] find obtain s1 where
    s1: "seq_ok s1" "seqOuts s1 = seqOuts s" "\<forall>i. conHandle (con i s1) = conHandle (con i s)"
      "sdoSeqState (con j s1) = kSdoSeqStateConnected" "sendSeqNum (con j s1) = sendSeqNum (con j s)"
      "receiveOnce E h fr ?n ?s = processState E (word_of_nat j) ?n None (Some fr) kSdoSeqEventFrameRec s1"
    using st by (auto simp: findCon_def)
  obtain ret t x where t: "setTimer j (sdoSeqTimeout s1) s1 = Some (ret, with_timer j x t s1)"
    "seq_ok (with_timer j x t s1)" "ret \<noteq> kErrorRetry"
    using setTimer_ok [OF s1(1) c(2)] evolvesD(1) by blast
  let ?s2 = "with_timer j x t s1"
  have l: "j < length (aSdoSeqCon s1)" using seq_okD(1) [OF s1(1)] c(2) by simp
  have conn2: "connection E j ?s2" by (rule connection_keeps [OF conn t(2)]) (use l s1(3) in simp)
  have nf: "next_frame fr (con j ?s2) \<longleftrightarrow> k = m"
    using l s1(5) num fr(1) mod_64_eq [OF assms(4,5), of q] by (auto simp: next_frame_def mod_Suc_eq)
  have bits2: "sendSeqNum (con j ?s2) AND SDO_CON_MASK = 2" using l s1(5) bits by simp
  have st2: "sdoSeqState (con j ?s2) = kSdoSeqStateConnected" using l s1(4) by simp
  from connectedData_quiet [OF assms(1) conn2 fr(2) bits2 _ _ t(3) st2, of ?n] fr(4,5)
  obtain r s' where s': "connectedData E j fr ?n ret ?s2 = Some (r, s')" "r \<noteq> kErrorRetry"
    "\<forall>i. conHandle (con i s') = conHandle (con i ?s2)" "sdoSeqState (con j s') = kSdoSeqStateConnected"
    "sendSeqNum (con j s') AND SDO_CON_MASK = 2"
    "if next_frame fr (con j ?s2) then seq_num (sendSeqNum (con j s')) = seq_num (sendSeqNumCon fr) \<and>
       delivered (seq_handle j) (seqOuts s') = delivered (seq_handle j) (seqOuts ?s2) @ [sdoSeqPayload fr]
     else sendSeqNum (con j s') = sendSeqNum (con j ?s2) \<and>
       delivered (seq_handle j) (seqOuts s') = delivered (seq_handle j) (seqOuts ?s2)" by auto
  have "connectedReceive E j fr ?n s1 = Some (r, s')"
    using t(1) s'(1) fr(2,3) by (auto simp: connectedReceive_def)
  then have "receiveOnce E h fr ?n ?s = Some (r, s')"
    using s1(4,6) processState_unfold [OF c(2), of None "Some fr" ?n E kSdoSeqEventFrameRec s1]
    by (simp add: processStateConnected_def)
  then have cb: "receiveCb E h fr ?n ?s = Some (r, s')" using s'(2) by (rule receiveCb_once)
  then have ok': "seq_ok s'" using receiveCb_ok [OF quiet_env_ok [OF assms(1)] ok, of h fr ?n] by auto
  have handles: "\<forall>i. conHandle (con i s') = conHandle (con i s)" using s'(3) s1(3) l by auto
  have "connection E j s'" by (rule connection_keeps [OF conn ok']) (use handles in simp)
  moreover have "findCon h s' = Some j" using find findCon_cong [OF handles] by simp
  moreover have "seq_num (sendSeqNum (con j s')) = (q + (if k = m then m + 1 else m)) mod 64"
    using s'(6) nf fr(1) l s1(5) num by (auto split: if_splits)
  ultimately have "receiver E j h q (if k = m then m + 1 else m) s'"
    using s'(4,5) by (simp add: receiver_def)
  moreover have "delivered (seq_handle j) (seqOuts s') =
      delivered (seq_handle j) (seqOuts s) @ (if k = m then [p] else [])"
    using s'(6) nf fr(4) s1(2) by (auto split: if_splits)
  ultimately show ?thesis using cb by auto
qed


fun in_order :: "nat \<Rightarrow> nat list \<Rightarrow> nat" where
  "in_order m [] = m"
| "in_order m (k # ks) = in_order (if k = m then m + 1 else m) ks"

lemma in_order_le: "m \<le> n \<Longrightarrow> set ks \<subseteq> {..<n} \<Longrightarrow> in_order m ks \<le> n"
  by (induction ks arbitrary: m) auto

lemma in_order_ge: "m \<le> in_order m ks"
proof (induction ks arbitrary: m)
  case (Cons k ks)
  from Cons [of "if k = m then m + 1 else m"] show ?case by (auto split: if_splits)
qed simp

lemma in_order_all: "subseq [m..<n] ks \<Longrightarrow> n \<le> in_order m ks"
proof (induction ks arbitrary: m)
  case Nil
  then have "[m..<n] = []" by (rule list_emb_Nil2)
  then show ?case by auto
next
  case (Cons k ks)
  show ?case
  proof (cases "m < n")
    case True
    then have "[m..<n] = m # [Suc m..<n]" by (rule upt_conv_Cons)
    with Cons.prems have "if k = m then subseq [Suc m..<n] ks else subseq [m..<n] ks"
      by (auto simp: subseq_Cons2_neq dest: subseq_Cons2')
    with Cons.IH show ?thesis by (auto split: if_splits)
  next
    case False
    then show ?thesis using in_order_ge [of m "k # ks"] by simp
  qed
qed

lemma receive_run:
  assumes "quiet E" and "\<And>k. k < length ps \<Longrightarrow> data_frame q k (ps ! k) (fs ! k)" and "length ps < 64"
  shows "receiver E j h q m s \<Longrightarrow> m \<le> length ps \<Longrightarrow> set ks \<subseteq> {..<length ps} \<Longrightarrow>
     delivered (seq_handle j) (seqOuts s) = D @ take m ps \<Longrightarrow>
     \<exists>s'. run_steps (seq_step E)
        (map (\<lambda>k. (tick, SeqReceive h (fs ! k) (SDO_SEQ_HEADER_SIZE + length (ps ! k)))) ks) s = Some s' \<and>
       receiver E j h q (in_order m ks) s' \<and>
       delivered (seq_handle j) (seqOuts s') = D @ take (in_order m ks) ps"
proof (induction ks arbitrary: m s)
  case Nil
  then show ?case by simp
next
  case (Cons k ks)
  from Cons.prems(3) have k: "k < length ps" by simp
  have "m < 64" "k < 64" using Cons.prems(2) k assms(3) by simp_all
  from receive_step [OF assms(1) Cons.prems(1) assms(2) [OF k] this, of tick] obtain s1 where
    s1: "seq_step E (tick, SeqReceive h (fs ! k) (SDO_SEQ_HEADER_SIZE + length (ps ! k))) s = Some s1"
    "receiver E j h q (if k = m then m + 1 else m) s1"
    "delivered (seq_handle j) (seqOuts s1) =
       delivered (seq_handle j) (seqOuts s) @ (if k = m then [ps ! k] else [])" by blast
  have "delivered (seq_handle j) (seqOuts s1) = D @ take (if k = m then m + 1 else m) ps"
    using s1(3) Cons.prems(4) k by (simp add: take_Suc_conv_app_nth)
  from Cons.IH [OF s1(2) _ _ this] Cons.prems(2,3) k s1(1) show ?case
    by (auto simp del: seq_step.simps split: if_splits)
qed

text \<open>\<open>sender\<close>: a connection that has sent \<open>k\<close> frames after the number \<open>q\<close> since its history was empty.\<close>

definition sender :: "seq_env \<Rightarrow> nat \<Rightarrow> nat \<Rightarrow> nat \<Rightarrow> sdoseq_system \<Rightarrow> bool" where
  "sender E i q k s \<longleftrightarrow> connection E i s \<and> histFreeEntries (hist i s) = SDO_HISTORY_SIZE - k \<and>
     sdoSeqState (con i s) = (if k < SDO_HISTORY_SIZE then kSdoSeqStateConnected else kSdoSeqStateWaitAck) \<and>
     recvSeqNum (con i s) AND SDO_CON_MASK = 2 \<and> seq_num (recvSeqNum (con i s)) = (q + k) mod 64 \<and>
     sendSeqNum (con i s) AND SDO_CON_MASK = 2"

lemma seq_handle_index:
  assumes "i < CONFIG_SDO_MAX_CONNECTION_SEQ"
  shows "seq_handle i AND NOT SDO_SEQ_HANDLE_MASK = word_of_nat i" "unat (word_of_nat i :: u32) = i"
proof -
  have "i = 0 \<or> i = 1 \<or> i = 2 \<or> i = 3 \<or> i = 4" using assms by arith
  then show "seq_handle i AND NOT SDO_SEQ_HANDLE_MASK = word_of_nat i" "unat (word_of_nat i :: u32) = i"
    by (auto simp: seq_handle_def)
qed

lemma quiet_sendData:
  assumes "quiet E" and "connection E i s" and "recvSeqNum (con i s) AND SDO_CON_MASK = 2"
    and "length p \<le> 278" and "0 < histFreeEntries (hist i s)"
  shows "\<exists>f s'. sendFrame E i (length p) (Some p) True s =
       Some (if histFreeEntries (hist i s) \<le> 1 then kErrorSdoSeqRequestAckNeeded else kErrorOk, s') \<and>
     s' = upd_hist i f (seq_call (SeqSent (conHandle (con i s))
       \<lparr>recvSeqNumCon = sendSeqNum (con i s),
        sendSeqNumCon = (if histFreeEntries (hist i s) \<le> 1 then recvSeqNum (con i s) OR 0x03 else recvSeqNum (con i s)),
        sdoSeqPayload = p\<rparr> (length p + SDO_SEQ_HEADER_SIZE)) s) \<and>
     histFreeEntries (hist i s') = histFreeEntries (hist i s) - 1"
proof -
  note c = connectionD [OF assms(2)]
  define free where "free = histFreeEntries (hist i s)"
  define x where "x = (if free \<le> 1 then recvSeqNum (con i s) OR 0x03 else recvSeqNum (con i s))"
  define fr where "fr = \<lparr>recvSeqNumCon = sendSeqNum (con i s), sendSeqNumCon = x, sdoSeqPayload = p\<rparr>"
  define sx where "sx = upd i (\<lambda>c. c\<lparr>recvSeqNum := x\<rparr>) s"
  define out where "out = SeqSent (conHandle (con i s)) fr (length p + SDO_SEQ_HEADER_SIZE)"
  have sx: "(if free \<le> 1 then upd i (\<lambda>c. c\<lparr>recvSeqNum := recvSeqNum c OR 0x03\<rparr>) s else s) = sx"
    using c(3) by (auto simp: sx_def x_def upd_def con_def)
  have okx: "seq_ok sx" using evolvesD(1) [OF evolves_numbers(3) [OF c(1,2)]] by (simp add: sx_def)
  have connx: "connection E i sx" by (rule connection_keeps [OF assms(2) okx]) (use c(3) in \<open>simp add: sx_def\<close>)
  have conx: "sendSeqNum (con i sx) = sendSeqNum (con i s)" "recvSeqNum (con i sx) = x"
    "conHandle (con i sx) = conHandle (con i s)" using c(3) by (simp_all add: sx_def)
  have restored: "(if x AND 0x03 = 0x03 then upd i (\<lambda>c. c\<lparr>recvSeqNum := recvSeqNum c - 1\<rparr>) (seq_call out sx)
      else seq_call out sx) = seq_call out s"
    using assms(3) ack_request(2) [OF assms(3)] masked_num(2) [of "recvSeqNum (con i s)"] c(3)
    by (auto simp: sx_def x_def upd_def con_def seq_call_def)
  let ?f = "\<lambda>h. h\<lparr>aHistoryFrame := (aHistoryFrame h)[writeIndex h := fr],
      aFrameSize := (aFrameSize h)[writeIndex h := length p + SDO_SEQ_HEADER_SIZE],
      histFreeEntries := histFreeEntries h - 1,
      writeIndex := (if writeIndex h + 1 = SDO_HISTORY_SIZE then 0 else writeIndex h + 1)\<rparr>"
  have hist: "hist i (seq_call out s) = hist i s" by (simp add: hist_def)
  have "hist_ok (hist i s)" using seq_okD(2) [OF c(1,2)] by (simp add: hist_def)
  then have add: "addFrameToHistory i fr (length p + SDO_SEQ_HEADER_SIZE) (seq_call out s) =
      Some (kErrorOk, upd_hist i ?f (seq_call out s))"
    using assms(4,5) by (simp add: addFrameToHistory_def hist Let_def hist_ok_def)
  have "sendFrame E i (length p) (Some p) True s =
      Some (if free \<le> 1 then kErrorSdoSeqRequestAckNeeded else kErrorOk, upd_hist i ?f (seq_call out s))"
    using quiet_lower [OF assms(1) connx, of "length p + SDO_SEQ_HEADER_SIZE" fr] conx add
    unfolding sendFrame_def option.case if_True simp_thms Let_def free_def [symmetric] sx
    by (simp add: conx restored fr_def [symmetric] out_def [symmetric])
  moreover have "histFreeEntries (hist i (upd_hist i ?f (seq_call out s))) = free - 1"
    using c(3) by (simp add: hist free_def)
  ultimately show ?thesis unfolding out_def fr_def x_def free_def by blast
qed


lemma send_step:
  assumes "quiet E" and "sender E i q k s" and "k < SDO_HISTORY_SIZE" and "p \<noteq> []" and "length p \<le> 278"
  shows "\<exists>s' fr. seq_step E (tick, SeqSendData (seq_handle i) p) s = Some s' \<and> sender E i q (k + 1) s' \<and>
     sent (seqOuts s') = sent (seqOuts s) @ [fr] \<and> data_frame q k p fr"
proof -
  let ?s = "s\<lparr>seqTick := tick\<rparr>"
  have conn: "connection E i s" and free: "histFreeEntries (hist i s) = SDO_HISTORY_SIZE - k"
    and st: "sdoSeqState (con i s) = kSdoSeqStateConnected"
    and r: "recvSeqNum (con i s) AND SDO_CON_MASK = 2" "seq_num (recvSeqNum (con i s)) = (q + k) mod 64"
    and bits: "sendSeqNum (con i s) AND SDO_CON_MASK = 2"
    using assms(2,3) by (simp_all add: sender_def)
  note c = connectionD [OF conn]
  have ok: "seq_ok ?s" using evolvesD(1) [OF evolves_tick(1) [OF c(1)]] .
  obtain ret t x where t: "setTimer i (sdoSeqTimeout s) ?s = Some (ret, with_timer i x t ?s)"
    "seq_ok (with_timer i x t ?s)" using setTimer_ok [OF ok c(2)] evolvesD(1) by blast
  define y where "y = recvSeqNum (con i s) + 4"
  define s2 where "s2 = upd i (\<lambda>c. c\<lparr>recvSeqNum := recvSeqNum c + 4\<rparr>) (with_timer i x t ?s)"
  have ok2: "seq_ok s2" using evolvesD(1) [OF evolves_numbers(3) [OF t(2) c(2)]] by (simp add: s2_def)
  have con2: "recvSeqNum (con i s2) = y" "sendSeqNum (con i s2) = sendSeqNum (con i s)"
    "conHandle (con i s2) = conHandle (con i s)" "sdoSeqState (con i s2) = sdoSeqState (con i s)"
    "hist i s2 = hist i s" "seqOuts s2 = seqOuts s"
    using c(3) by (simp_all add: s2_def y_def hist_def)
  have conn2: "connection E i s2" by (rule connection_keeps [OF conn ok2]) (simp add: con2)
  have y: "y AND SDO_CON_MASK = 2" "seq_num y = (q + k + 1) mod 64"
    using r by (simp_all add: y_def con_bits_next seq_num_next mod_Suc_eq)
  define fr where "fr = \<lparr>recvSeqNumCon = sendSeqNum (con i s), sendSeqNumCon =
      (if histFreeEntries (hist i s) \<le> 1 then y OR 0x03 else y), sdoSeqPayload = p\<rparr>"
  define out where "out = SeqSent (conHandle (con i s)) fr (length p + SDO_SEQ_HEADER_SIZE)"
  from quiet_sendData [OF assms(1) conn2 _ assms(5)] obtain f s3 where
    s3: "sendFrame E i (length p) (Some p) True s2 = Some (if histFreeEntries (hist i s) \<le> 1
        then kErrorSdoSeqRequestAckNeeded else kErrorOk, s3)"
      "s3 = upd_hist i f (seq_call out s2)" "histFreeEntries (hist i s3) = histFreeEntries (hist i s) - 1"
    using y(1) free assms(3) unfolding con2 fr_def out_def by auto
  have ok3: "seq_ok s3"
    using sendFrame_ok [OF quiet_env_ok [OF assms(1)] ok2 c(2), of "length p" "Some p" True] assms(5) s3(1) evolvesD(1)
    by auto
  have l2: "i < length (aSdoSeqCon s2)" using connectionD(3) [OF conn2] .
  have con3: "conHandle (con i s3) = conHandle (con i s)" "recvSeqNum (con i s3) = y"
    "sendSeqNum (con i s3) = sendSeqNum (con i s)" "sdoSeqState (con i s3) = kSdoSeqStateConnected"
    using l2 con2 st by (simp_all add: s3(2))
  have fr: "data_frame q k p fr"
    using y assms(4) bits masked_num(2) by (simp add: data_frame_def fr_def scon_def rcon_def)
  have sent3: "sent (seqOuts s3) = sent (seqOuts s) @ [fr]" by (simp add: s3(2) out_def con2)
  define s4 where "s4 = (if histFreeEntries (hist i s) \<le> 1 then set_state i kSdoSeqStateWaitAck s3
      else seq_call (SeqConCb (seq_handle i) kAsySdoConStateFrameSended) s3)"
  have "connectedSend E i (length p) (Some p) ?s = Some (kErrorOk, s4)"
    using t(1) s3(1) quiet_callbacks(1) [OF assms(1) ok3]
    by (simp add: connectedSend_def s2_def [symmetric] s4_def)
  then have "sdoseq_sendData E (seq_handle i) (length p) (Some p) ?s = Some (kErrorOk, s4)"
    using st c(2) processState_unfold [OF c(2), of "Some p" None "length p" E kSdoSeqEventFrameSend ?s]
    unfolding sdoseq_sendData_def Let_def seq_handle_index [OF c(2)]
    by (simp add: processStateConnected_def)
  then have step: "seq_step E (tick, SeqSendData (seq_handle i) p) s = Some s4" by simp
  have l3: "i < length (aSdoSeqCon s3)" using seq_okD(1) [OF ok3] c(2) by simp
  have ok4: "seq_ok s4"
    using set_state_ok(1) [OF ok3 c(2)] evolvesD(1) [OF evolves_call [OF ok3]] by (simp add: s4_def)
  have con4: "conHandle (con i s4) = conHandle (con i s)" "recvSeqNum (con i s4) = y"
    "sendSeqNum (con i s4) = sendSeqNum (con i s)" "hist i s4 = hist i s3"
    "sdoSeqState (con i s4) = (if histFreeEntries (hist i s) \<le> 1 then kSdoSeqStateWaitAck else kSdoSeqStateConnected)"
    using l3 con3 by (simp_all add: s4_def set_state_def hist_def)
  have "connection E i s4" by (rule connection_keeps [OF conn ok4 con4(1)])
  then have "sender E i q (k + 1) s4"
    using y bits free assms(3) s3(3) by (auto simp: sender_def con4)
  moreover have "sent (seqOuts s4) = sent (seqOuts s) @ [fr]"
    using sent3 by (simp add: s4_def set_state_def)
  ultimately show ?thesis using step fr by blast
qed

lemma send_run:
  assumes "quiet E"
  shows "sender E i q k s \<Longrightarrow> k + length ps \<le> SDO_HISTORY_SIZE \<Longrightarrow>
     \<forall>p\<in>set ps. p \<noteq> [] \<and> length p \<le> 278 \<Longrightarrow>
     \<exists>s' frs. run_steps (seq_step E) (map (\<lambda>p. (tick, SeqSendData (seq_handle i) p)) ps) s = Some s' \<and>
       sender E i q (k + length ps) s' \<and> sent (seqOuts s') = sent (seqOuts s) @ frs \<and>
       length frs = length ps \<and> (\<forall>j<length ps. data_frame q (k + j) (ps ! j) (frs ! j))"
proof (induction ps arbitrary: k s)
  case Nil
  then show ?case by simp
next
  case (Cons p ps)
  from send_step [OF assms Cons.prems(1), of p tick] Cons.prems(2,3) obtain s1 fr where
    s1: "seq_step E (tick, SeqSendData (seq_handle i) p) s = Some s1" "sender E i q (k + 1) s1"
      "sent (seqOuts s1) = sent (seqOuts s) @ [fr]" "data_frame q k p fr" by auto
  from Cons.IH [OF s1(2)] Cons.prems(2,3) obtain s' frs where
    s': "run_steps (seq_step E) (map (\<lambda>p. (tick, SeqSendData (seq_handle i) p)) ps) s1 = Some s'"
      "sender E i q (k + 1 + length ps) s'" "sent (seqOuts s') = sent (seqOuts s1) @ frs"
      "length frs = length ps" "\<forall>j<length ps. data_frame q (k + 1 + j) (ps ! j) (frs ! j)" by auto
  have "\<forall>j<length (p # ps). data_frame q (k + j) ((p # ps) ! j) ((fr # frs) ! j)"
    using s'(5) s1(4) by (auto simp: nth_Cons split: nat.split)
  then show ?case using s1(1,3) s'(1-4)
    by (intro exI [of _ s'] exI [of _ "fr # frs"]) (simp del: seq_step.simps)
qed


section \<open>The handshake\<close>

text \<open>\<open>conn_at\<close>: what a connection shows of itself, with the frames sent so far.\<close>

definition conn_at ::
  "seq_env \<Rightarrow> nat \<Rightarrow> u32 \<Rightarrow> tSdoSeqState \<Rightarrow> byte \<Rightarrow> byte \<Rightarrow> tAsySdoSeq list \<Rightarrow> sdoseq_system \<Rightarrow> bool" where
  "conn_at E i h st r n frs s \<longleftrightarrow> connection E i s \<and> findCon h s = Some i \<and> sdoSeqState (con i s) = st \<and>
     recvSeqNum (con i s) = r \<and> sendSeqNum (con i s) = n \<and> sent (seqOuts s) = frs"

lemma conn_at_change:
  assumes "conn_at E i h st r n frs s" and "seq_ok s'"
    and "\<forall>j. conHandle (con j s') = conHandle (con j s)"
  shows "conn_at E i h (sdoSeqState (con i s')) (recvSeqNum (con i s')) (sendSeqNum (con i s'))
     (sent (seqOuts s')) s'"
  using assms connection_keeps [of E i s s'] findCon_cong [OF assms(3)] by (simp add: conn_at_def)

lemma conn_atD:
  assumes "conn_at E i h st r n frs s"
  shows "connection E i s" "seq_ok s" "i < CONFIG_SDO_MAX_CONNECTION_SEQ" "i < length (aSdoSeqCon s)"
  using assms connectionD by (auto simp: conn_at_def)

lemma set_state_con [simp]:
  "i < length (aSdoSeqCon s) \<Longrightarrow>
     con j (set_state i st s) = (if j = i then (con i s)\<lparr>sdoSeqState := st\<rparr> else con j s)"
  "seqOuts (set_state i st s) = seqOuts s" "sdoSeqTimeout (set_state i st s) = sdoSeqTimeout s"
  "length (aSdoSeqCon (set_state i st s)) = length (aSdoSeqCon s)"
  by (simp_all add: set_state_def)

lemma set_state_idem:
  assumes "i < length (aSdoSeqCon s)" and "sdoSeqState (con i s) = st"
  shows "set_state i st s = s"
proof -
  have "(con i s)\<lparr>sdoSeqState := st\<rparr> = con i s" using assms(2) by (cases "con i s") simp
  then show ?thesis using assms(1) by (simp add: set_state_def upd_def con_def)
qed

lemma set_timer_at:
  assumes "conn_at E i h st r n frs s"
  shows "\<exists>ret s'. setTimer i t (set_state i st' s) = Some (ret, s') \<and> ret \<noteq> kErrorRetry \<and>
     conn_at E i h st' r n frs s' \<and> hist i s' = hist i s"
proof -
  note c = conn_atD [OF assms]
  obtain ret x u where t: "setTimer i t (set_state i st' s) = Some (ret, with_timer i x u (set_state i st' s))"
    "seq_ok (with_timer i x u (set_state i st' s))" "ret \<noteq> kErrorRetry"
    using setTimer_ok [OF set_state_ok(1) [OF c(2,3)] c(3)] evolvesD(1) by blast
  from conn_at_change [OF assms t(2)] assms c(4) t(1,3) show ?thesis
    by (simp add: conn_at_def hist_def)
qed

lemma answer_at:
  assumes "quiet E" and "conn_at E i h st r n frs s"
  shows "\<exists>s'. answerFrame E i fr s = Some (kErrorOk, s') \<and>
     conn_at E i h st (recvSeqNumCon fr + 1) (sendSeqNumCon fr)
       (frs @ [\<lparr>recvSeqNumCon = sendSeqNumCon fr, sendSeqNumCon = recvSeqNumCon fr + 1, sdoSeqPayload = []\<rparr>]) s'"
proof -
  note c = conn_atD [OF assms(2)]
  let ?s = "upd i (\<lambda>c. c\<lparr>recvSeqNum := recvSeqNum c + 1\<rparr>) (saveSeqNums i fr s)"
  have e: "evolves s (saveSeqNums i fr s)" by (rule evolves_numbers(1) [OF c(2,3)])
  have ok: "seq_ok ?s" using evolvesD(1) [OF evolves_numbers(3) [OF evolvesD(1) [OF e] c(3)]] .
  have l: "i < length (aSdoSeqCon (saveSeqNums i fr s))" using c(4) by (simp add: saveSeqNums_def)
  have con: "recvSeqNum (con i ?s) = recvSeqNumCon fr + 1" "sendSeqNum (con i ?s) = sendSeqNumCon fr"
    "sdoSeqState (con i ?s) = sdoSeqState (con i s)" "seqOuts ?s = seqOuts s"
    using l c(4) by (simp_all add: saveSeqNums_def)
  have handles: "\<forall>j. conHandle (con j ?s) = conHandle (con j s)" using l c(4) by (simp add: saveSeqNums_def)
  have conn: "connection E i ?s" by (rule connection_keeps [OF c(1) ok]) (use handles in simp)
  let ?out = "SeqSent (conHandle (con i ?s)) \<lparr>recvSeqNumCon = sendSeqNum (con i ?s),
    sendSeqNumCon = recvSeqNum (con i ?s), sdoSeqPayload = []\<rparr> SDO_SEQ_HEADER_SIZE"
  have "answerFrame E i fr s = Some (kErrorOk, seq_call ?out ?s)"
    unfolding answerFrame_def quiet_sendEmpty [OF assms(1) conn] ..
  moreover from conn_at_change [OF assms(2) evolvesD(1) [OF evolves_call [OF ok]]] handles
  have "conn_at E i h st (recvSeqNumCon fr + 1) (sendSeqNumCon fr)
      (frs @ [\<lparr>recvSeqNumCon = sendSeqNumCon fr, sendSeqNumCon = recvSeqNumCon fr + 1, sdoSeqPayload = []\<rparr>])
      (seq_call ?out ?s)"
    using con assms(2) by (simp add: conn_at_def)
  ultimately show ?thesis by blast
qed

lemma enter_at:
  assumes "quiet E" and "conn_at E i h st r n frs s"
  shows "\<exists>ret s'. enterConnected E i s = Some (ret, s') \<and> ret \<noteq> kErrorRetry \<and>
     conn_at E i h kSdoSeqStateConnected r n frs s' \<and> histFreeEntries (hist i s') = SDO_HISTORY_SIZE"
proof -
  note c = conn_atD [OF assms(2)]
  let ?s = "set_state i kSdoSeqStateConnected s"
  note ok = set_state_ok(1) [OF c(2,3), of kSdoSeqStateConnected]
  obtain s1 where s1: "initHistory i ?s = (kErrorOk, s1)" "evolves ?s s1"
    using initHistory_ok [OF ok c(3)] by blast
  have con1: "conHandle (con j s1) = conHandle (con j s)" "sdoSeqState (con i s1) = kSdoSeqStateConnected"
    "recvSeqNum (con i s1) = r" "sendSeqNum (con i s1) = n" "sent (seqOuts s1) = frs"
    "histFreeEntries (hist i s1) = SDO_HISTORY_SIZE" for j
    using s1(1) c(4) assms(2) by (auto simp: initHistory_def conn_at_def)
  have at1: "conn_at E i h kSdoSeqStateConnected r n frs s1"
    using conn_at_change [OF assms(2) evolvesD(1) [OF s1(2)]] con1 by simp
  have same: "set_state i kSdoSeqStateConnected s1 = s1"
    using con1(2) conn_atD(4) [OF at1] by (simp add: set_state_idem)
  from set_timer_at [OF at1, of "sdoSeqTimeout s1" kSdoSeqStateConnected] obtain ret s2 where
    s2: "setTimer i (sdoSeqTimeout s1) s1 = Some (ret, s2)" "ret \<noteq> kErrorRetry"
    "conn_at E i h kSdoSeqStateConnected r n frs s2" "hist i s2 = hist i s1" unfolding same by blast
  let ?s3 = "seq_call (SeqConCb (seq_handle i) kAsySdoConStateConnected) s2"
  note ok2 = conn_atD(2) [OF s2(3)]
  have "enterConnected E i s = Some (ret, ?s3)"
    using s1(1) s2(1) quiet_callbacks(1) [OF assms(1) ok2] by (simp add: enterConnected_def)
  moreover have "conn_at E i h kSdoSeqStateConnected r n frs ?s3"
    using conn_at_change [OF s2(3) evolvesD(1) [OF evolves_call [OF ok2]]] s2(3) by (simp add: conn_at_def)
  moreover have "histFreeEntries (hist i ?s3) = SDO_HISTORY_SIZE"
    using s2(4) con1(6) by (simp add: hist_def)
  ultimately show ?thesis using s2(2) by blast
qed


text \<open>The start of \<^verbatim>\<open>receiveCb\<close> on a known connection and on a new one.\<close>

lemma start_at:
  assumes "conn_at E i h st r n frs s"
  shows "\<exists>s1. conn_at E i h st r n frs s1 \<and>
     receiveOnce E h fr m s = processState E (word_of_nat i) m None (Some fr) kSdoSeqEventFrameRec s1"
proof -
  from receive_start [of s h i E fr m] conn_atD(2) [OF assms] assms obtain s1 where
    s1: "seq_ok s1" "seqOuts s1 = seqOuts s" "\<forall>j. conHandle (con j s1) = conHandle (con j s)"
    "sdoSeqState (con i s1) = sdoSeqState (con i s)" "sendSeqNum (con i s1) = sendSeqNum (con i s)"
    "recvSeqNum (con i s1) = recvSeqNum (con i s)"
    "receiveOnce E h fr m s = processState E (word_of_nat i) m None (Some fr) kSdoSeqEventFrameRec s1"
    by (auto simp: conn_at_def)
  from conn_at_change [OF assms s1(1,3)] s1 assms show ?thesis by (auto simp: conn_at_def)
qed

definition transport :: "seq_env \<Rightarrow> u32 \<Rightarrow> bool" where
  "transport E h \<longleftrightarrow> h AND SDO_ASY_HANDLE_MASK = SDO_UDP_HANDLE \<and> includeUdp E \<or>
     h AND SDO_ASY_HANDLE_MASK = SDO_ASND_HANDLE \<and> includeAsnd E"

text \<open>A free entry that \<open>find\<close> returns, and the connection that takes it.\<close>

lemma claim_at:
  assumes "seq_ok s" and "transport E h" and "findCon h s = None" and "i < CONFIG_SDO_MAX_CONNECTION_SEQ"
    and "sdoSeqState (con i s) = st"
  shows "conn_at E i h st (recvSeqNum (con i s)) (sendSeqNum (con i s)) (sent (seqOuts s)) (claimCon i h s)"
proof -
  note l = seq_okD(1) [OF assms(1)]
  have ok: "seq_ok (claimCon i h s)" using evolvesD(1) [OF evolves_numbers(8) [OF assms(1,4)]] .
  have con: "conHandle (con j (claimCon i h s)) = (if j = i then h else conHandle (con j s))"
    "sdoSeqState (con i (claimCon i h s)) = st" "recvSeqNum (con i (claimCon i h s)) = recvSeqNum (con i s)"
    "sendSeqNum (con i (claimCon i h s)) = sendSeqNum (con i s)" "seqOuts (claimCon i h s) = seqOuts s" for j
    using l assms(4,5) by (simp_all add: claimCon_def)
  have conn: "connection E i (claimCon i h s)"
    using ok assms(2,4) by (auto simp: connection_def con transport_def Let_def)
  have "conHandle (con j s) \<noteq> h" if "j < CONFIG_SDO_MAX_CONNECTION_SEQ" for j
    using assms(3) that by (auto simp: findCon_def find_None_iff)
  then have "findCon h (claimCon i h s) = Some i"
    using assms(4) unfolding findCon_def con find_Some_iff by (intro exI [of _ i]) auto
  then show ?thesis using conn con by (simp add: conn_at_def)
qed

lemma start_new:
  assumes "seq_ok s" and "transport E h" and "findCon h s = None"
    and "find (\<lambda>i. conHandle (con i s) = 0) [0..<CONFIG_SDO_MAX_CONNECTION_SEQ] = Some i"
    and "sdoSeqState (con i s) = kSdoSeqStateIdle"
  shows "\<exists>s1. conn_at E i h kSdoSeqStateIdle (recvSeqNum (con i s)) (sendSeqNum (con i s)) (sent (seqOuts s)) s1 \<and>
     receiveOnce E h fr m s = processState E (word_of_nat i) m None (Some fr) kSdoSeqEventFrameRec s1"
proof -
  have i: "i < CONFIG_SDO_MAX_CONNECTION_SEQ" using assms(4) by (auto simp: find_Some_iff)
  note c = claim_at [OF assms(1-3) i assms(5)]
  from start_at [OF c, of fr m] c assms(3,4) show ?thesis
    by (auto simp: receiveOnce_def conn_at_def simp del: upt_rec_numeral)
qed

text \<open>The steps of the handshake. A handshake frame carries the connection bits and no payload.\<close>

definition hs_frame :: "byte \<Rightarrow> byte \<Rightarrow> tAsySdoSeq" where
  "hs_frame r s = \<lparr>recvSeqNumCon = r, sendSeqNumCon = s, sdoSeqPayload = []\<rparr>"

lemma hs_frame_simps [simp]:
  "recvSeqNumCon (hs_frame r s) = r" "sendSeqNumCon (hs_frame r s) = s"
  "rcon (hs_frame r s) = r AND SDO_CON_MASK" "scon (hs_frame r s) = s AND SDO_CON_MASK"
  by (simp_all add: hs_frame_def rcon_def scon_def)

lemma tick_at: "conn_at E i h st r n frs s \<Longrightarrow> conn_at E i h st r n frs (s\<lparr>seqTick := t\<rparr>)"
  using conn_at_change [of E i h st r n frs s "s\<lparr>seqTick := t\<rparr>"] evolvesD(1) [OF evolves_tick(1)]
  by (auto simp: conn_at_def connection_def)

lemma receive_tail:
  assumes "receiveOnce E h fr m (s\<lparr>seqTick := t\<rparr>) = Some (ret, s')" and "ret \<noteq> kErrorRetry"
  shows "seq_step E (t, SeqReceive h fr m) s = Some s'"
  using receiveCb_once [OF assms] by simp

lemma open_step:
  assumes "quiet E" and "seq_ok s" and "lowerInit E ty node (seqOuts s) = (kErrorOk, h)" and "transport E h"
    and "(case ty of kSdoTypeUdp \<Rightarrow> includeUdp E | kSdoTypeAsnd \<Rightarrow> includeAsnd E | _ \<Rightarrow> False)"
    and "findCon h s = None"
    and "find (\<lambda>i. conHandle (con i s) = 0) (rev [0..<CONFIG_SDO_MAX_CONNECTION_SEQ]) = Some i"
    and "sdoSeqState (con i s) = kSdoSeqStateIdle"
  shows "\<exists>s'. seq_step E (t, SeqInitCon node ty) s = Some s' \<and>
     conn_at E i h kSdoSeqStateInit1 1 0 (sent (seqOuts s) @ [hs_frame 0 1]) s'"
proof -
  let ?s = "s\<lparr>seqTick := t\<rparr>"
  have ok: "seq_ok ?s" using evolvesD(1) [OF evolves_tick(1) [OF assms(2)]] .
  have "i \<in> set (rev [0..<CONFIG_SDO_MAX_CONNECTION_SEQ])" using assms(7) by (metis find_Some_iff nth_mem)
  then have i: "i < CONFIG_SDO_MAX_CONNECTION_SEQ" by simp
  have find: "findCon h ?s = None" using assms(6) findCon_cong [of ?s s h] by simp
  have st: "sdoSeqState (con i ?s) = kSdoSeqStateIdle" using assms(8) by simp
  note c = claim_at [OF ok assms(4) find i st]
  let ?s1 = "claimCon i h ?s" and ?s2 = "upd i (\<lambda>c. c\<lparr>recvSeqNum := 0x01, sendSeqNum := 0x00\<rparr>) (claimCon i h ?s)"
  note d = conn_atD [OF c]
  have ok2: "seq_ok ?s2" using evolvesD(1) [OF evolves_numbers(5) [OF d(2,3)]] .
  have c2: "conn_at E i h kSdoSeqStateIdle 1 0 (sent (seqOuts s)) ?s2"
    using conn_at_change [OF c ok2] d(4) c by (simp add: conn_at_def)
  note d2 = conn_atD [OF c2]
  let ?s3 = "seq_call (SeqSent (conHandle (con i ?s2)) \<lparr>recvSeqNumCon = sendSeqNum (con i ?s2),
    sendSeqNumCon = recvSeqNum (con i ?s2), sdoSeqPayload = []\<rparr> SDO_SEQ_HEADER_SIZE) ?s2"
  have "sendSeqNum (con i ?s2) = 0" "recvSeqNum (con i ?s2) = 1" using c2 by (simp_all add: conn_at_def)
  then have c3: "conn_at E i h kSdoSeqStateIdle 1 0 (sent (seqOuts s) @ [hs_frame 0 1]) ?s3"
    using conn_at_change [OF c2 evolvesD(1) [OF evolves_call [OF d2(2)]]] c2
    by (simp add: conn_at_def hs_frame_def)
  from set_timer_at [OF c3, of "sdoSeqTimeout ?s3" kSdoSeqStateInit1] obtain ret s4 where
    s4: "setTimer i (sdoSeqTimeout ?s3) (set_state i kSdoSeqStateInit1 ?s3) = Some (ret, s4)"
    "conn_at E i h kSdoSeqStateInit1 1 0 (sent (seqOuts s) @ [hs_frame 0 1]) s4" by blast
  have "processStateIdle E i kSdoSeqEventInitCon None ?s1 = Some (ret, s4)"
    unfolding processStateIdle_def tSdoSeqEvent.case quiet_sendEmpty [OF assms(1) d2(1)]
    using s4(1) by simp
  then have "processState E (word_of_nat i) 0 None None kSdoSeqEventInitCon ?s1 = Some (ret, s4)"
    using processState_unfold [OF i, of None None 0 E kSdoSeqEventInitCon ?s1] c by (simp add: conn_at_def)
  then have "sdoseq_initCon E node ty ?s = Some (ret, Some (seq_handle i), s4)"
    using assms(3,5,7) find by (simp add: sdoseq_initCon_def)
  then show ?thesis using s4(2) by auto
qed


lemma answer_timer_at:
  assumes "quiet E" and "conn_at E i h st r n frs s"
  shows "\<exists>ret s'. (do {
       (ret, s) \<leftarrow> answerFrame E i (hs_frame x y) s;
       (if ret \<noteq> kErrorOk then Some (e, s) else setTimer i (sdoSeqTimeout s) (set_state i st' s))
     }) = Some (ret, s') \<and> ret \<noteq> kErrorRetry \<and>
     conn_at E i h st' (x + 1) y (frs @ [hs_frame y (x + 1)]) s'"
proof -
  from answer_at [OF assms, of "hs_frame x y"] obtain s1 where
    "answerFrame E i (hs_frame x y) s = Some (kErrorOk, s1)"
    "conn_at E i h st (x + 1) y (frs @ [hs_frame y (x + 1)]) s1" by (auto simp: hs_frame_def)
  with set_timer_at [OF this(2), of "sdoSeqTimeout s1" st'] show ?thesis by auto
qed

lemma server_hello:
  assumes "quiet E" and "seq_ok s" and "transport E h" and "findCon h s = None"
    and "find (\<lambda>i. conHandle (con i s) = 0) [0..<CONFIG_SDO_MAX_CONNECTION_SEQ] = Some i"
    and "sdoSeqState (con i s) = kSdoSeqStateIdle"
  shows "\<exists>s'. seq_step E (t, SeqReceive h (hs_frame 0 1) SDO_SEQ_HEADER_SIZE) s = Some s' \<and>
     conn_at E i h kSdoSeqStateInit2 1 1 (sent (seqOuts s) @ [hs_frame 1 1]) s'"
proof -
  let ?s = "s\<lparr>seqTick := t\<rparr>" and ?fr = "hs_frame 0 1"
  have ok: "seq_ok ?s" using evolvesD(1) [OF evolves_tick(1) [OF assms(2)]] .
  have "findCon h ?s = None" using assms(4) findCon_cong [of ?s s h] by simp
  from start_new [OF ok assms(3) this, where i = i and m = SDO_SEQ_HEADER_SIZE and fr = ?fr] assms(5,6) obtain s1 where
    s1: "conn_at E i h kSdoSeqStateIdle (recvSeqNum (con i s)) (sendSeqNum (con i s)) (sent (seqOuts s)) s1"
    "receiveOnce E h ?fr SDO_SEQ_HEADER_SIZE ?s =
       processState E (word_of_nat i) SDO_SEQ_HEADER_SIZE None (Some ?fr) kSdoSeqEventFrameRec s1"
    by auto
  from answer_timer_at [OF assms(1) s1(1), of 0 1 kErrorOk kSdoSeqStateInit2] obtain ret s2 where
    s2: "processStateIdle E i kSdoSeqEventFrameRec (Some ?fr) s1 = Some (ret, s2)" "ret \<noteq> kErrorRetry"
    "conn_at E i h kSdoSeqStateInit2 1 1 (sent (seqOuts s) @ [hs_frame 1 1]) s2"
    by (auto simp: processStateIdle_def)
  have "processState E (word_of_nat i) SDO_SEQ_HEADER_SIZE None (Some ?fr) kSdoSeqEventFrameRec s1 = Some (ret, s2)"
    using s1(1) s2(1) conn_atD(3) [OF s1(1)] by (simp add: processState_unfold conn_at_def)
  with s1(2) s2(2,3) show ?thesis by (auto simp only: intro!: exI [of _ s2] receive_tail)
qed

lemma client_hello:
  assumes "quiet E" and "conn_at E i h kSdoSeqStateInit1 r n frs s"
  shows "\<exists>s'. seq_step E (t, SeqReceive h (hs_frame 1 1) SDO_SEQ_HEADER_SIZE) s = Some s' \<and>
     conn_at E i h kSdoSeqStateInit3 2 1 (frs @ [hs_frame 1 2]) s'"
proof -
  let ?fr = "hs_frame 1 1"
  from start_at [OF tick_at [OF assms(2)], of ?fr SDO_SEQ_HEADER_SIZE t] obtain s1 where
    s1: "conn_at E i h kSdoSeqStateInit1 r n frs s1"
    "receiveOnce E h ?fr SDO_SEQ_HEADER_SIZE (s\<lparr>seqTick := t\<rparr>) =
       processState E (word_of_nat i) SDO_SEQ_HEADER_SIZE None (Some ?fr) kSdoSeqEventFrameRec s1" by blast
  have "\<exists>ret s2. processStateInit1 E i kSdoSeqEventFrameRec (Some ?fr) s1 = Some (ret, s2) \<and> ret \<noteq> kErrorRetry \<and>
    conn_at E i h kSdoSeqStateInit3 2 1 (frs @ [hs_frame 1 2]) s2"
    using answer_at [OF assms(1) s1(1), of ?fr] set_timer_at [of E i h kSdoSeqStateInit1]
    by (fastforce simp: processStateInit1_def hs_frame_def rcon_def scon_def)
  then obtain ret s2 where
    s2: "processStateInit1 E i kSdoSeqEventFrameRec (Some ?fr) s1 = Some (ret, s2)" "ret \<noteq> kErrorRetry"
    "conn_at E i h kSdoSeqStateInit3 2 1 (frs @ [hs_frame 1 2]) s2" by blast
  have "processState E (word_of_nat i) SDO_SEQ_HEADER_SIZE None (Some ?fr) kSdoSeqEventFrameRec s1 = Some (ret, s2)"
    using s1(1) s2(1) conn_atD(3) [OF s1(1)] by (simp add: processState_unfold conn_at_def)
  with s1(2) s2(2,3) show ?thesis by (auto simp only: intro!: exI [of _ s2] receive_tail)
qed

lemma server_connects:
  assumes "quiet E" and "conn_at E i h kSdoSeqStateInit2 r n frs s"
  shows "\<exists>s'. seq_step E (t, SeqReceive h (hs_frame 1 2) SDO_SEQ_HEADER_SIZE) s = Some s' \<and>
     conn_at E i h kSdoSeqStateConnected 2 2 (frs @ [hs_frame 2 2]) s' \<and>
     histFreeEntries (hist i s') = SDO_HISTORY_SIZE"
proof -
  let ?fr = "hs_frame 1 2"
  from start_at [OF tick_at [OF assms(2)], of ?fr SDO_SEQ_HEADER_SIZE t] obtain s1 where
    s1: "conn_at E i h kSdoSeqStateInit2 r n frs s1"
    "receiveOnce E h ?fr SDO_SEQ_HEADER_SIZE (s\<lparr>seqTick := t\<rparr>) =
       processState E (word_of_nat i) SDO_SEQ_HEADER_SIZE None (Some ?fr) kSdoSeqEventFrameRec s1" by blast
  from answer_at [OF assms(1) s1(1), of ?fr] obtain s2 where
    s2: "answerFrame E i ?fr s1 = Some (kErrorOk, s2)"
    "conn_at E i h kSdoSeqStateInit2 2 2 (frs @ [hs_frame 2 2]) s2" by (auto simp: hs_frame_def)
  from enter_at [OF assms(1) s2(2)] obtain ret s3 where
    s3: "enterConnected E i s2 = Some (ret, s3)" "ret \<noteq> kErrorRetry"
    "conn_at E i h kSdoSeqStateConnected 2 2 (frs @ [hs_frame 2 2]) s3"
    "histFreeEntries (hist i s3) = SDO_HISTORY_SIZE" by blast
  have "processState E (word_of_nat i) SDO_SEQ_HEADER_SIZE None (Some ?fr) kSdoSeqEventFrameRec s1 = Some (ret, s3)"
    using s1(1) s2(1) s3(1) conn_atD(3) [OF s1(1)]
    by (simp add: processState_unfold conn_at_def processStateInit2_def)
  with s1(2) s3(2-4) show ?thesis by (auto simp only: intro!: exI [of _ s3] receive_tail)
qed

lemma client_connects:
  assumes "quiet E" and "conn_at E i h kSdoSeqStateInit3 r n frs s"
  shows "\<exists>s'. seq_step E (t, SeqReceive h (hs_frame 2 2) SDO_SEQ_HEADER_SIZE) s = Some s' \<and>
     conn_at E i h kSdoSeqStateConnected 2 2 frs s' \<and> histFreeEntries (hist i s') = SDO_HISTORY_SIZE"
proof -
  let ?fr = "hs_frame 2 2"
  from start_at [OF tick_at [OF assms(2)], of ?fr SDO_SEQ_HEADER_SIZE t] obtain s1 where
    s1: "conn_at E i h kSdoSeqStateInit3 r n frs s1"
    "receiveOnce E h ?fr SDO_SEQ_HEADER_SIZE (s\<lparr>seqTick := t\<rparr>) =
       processState E (word_of_nat i) SDO_SEQ_HEADER_SIZE None (Some ?fr) kSdoSeqEventFrameRec s1" by blast
  note d = conn_atD [OF s1(1)]
  have c: "conn_at E i h kSdoSeqStateInit3 2 2 frs (saveSeqNums i ?fr s1)"
    using conn_at_change [OF s1(1) evolvesD(1) [OF evolves_numbers(1) [OF d(2,3), of ?fr]]] d(4) s1(1)
    by (simp add: conn_at_def saveSeqNums_def)
  from enter_at [OF assms(1) c] obtain ret s3 where
    s3: "enterConnected E i (saveSeqNums i ?fr s1) = Some (ret, s3)" "ret \<noteq> kErrorRetry"
    "conn_at E i h kSdoSeqStateConnected 2 2 frs s3" "histFreeEntries (hist i s3) = SDO_HISTORY_SIZE" by blast
  have "processState E (word_of_nat i) SDO_SEQ_HEADER_SIZE None (Some ?fr) kSdoSeqEventFrameRec s1 = Some (ret, s3)"
    using s1(1) s3(1) conn_atD(3) [OF s1(1)]
    by (simp add: processState_unfold conn_at_def processStateInit3_def)
  with s1(2) s3(2-4) show ?thesis by (auto simp only: intro!: exI [of _ s3] receive_tail)
qed


section \<open>Two connected instances\<close>

text \<open>What the two ends need: the opener a transport for the node, both a free entry.\<close>

definition can_open :: "seq_env \<Rightarrow> tSdoType \<Rightarrow> nat \<Rightarrow> u32 \<Rightarrow> nat \<Rightarrow> sdoseq_system \<Rightarrow> bool" where
  "can_open E ty node h i s \<longleftrightarrow> seq_ok s \<and> transport E h \<and>
     (case ty of kSdoTypeUdp \<Rightarrow> includeUdp E | kSdoTypeAsnd \<Rightarrow> includeAsnd E | _ \<Rightarrow> False) \<and>
     lowerInit E ty node (seqOuts s) = (kErrorOk, h) \<and> findCon h s = None \<and>
     find (\<lambda>i. conHandle (con i s) = 0) (rev [0..<CONFIG_SDO_MAX_CONNECTION_SEQ]) = Some i \<and>
     sdoSeqState (con i s) = kSdoSeqStateIdle"

definition can_accept :: "seq_env \<Rightarrow> u32 \<Rightarrow> nat \<Rightarrow> sdoseq_system \<Rightarrow> bool" where
  "can_accept E h j s \<longleftrightarrow> seq_ok s \<and> transport E h \<and> findCon h s = None \<and>
     find (\<lambda>i. conHandle (con i s) = 0) [0..<CONFIG_SDO_MAX_CONNECTION_SEQ] = Some j \<and>
     sdoSeqState (con j s) = kSdoSeqStateIdle"

lemma connected_ends:
  assumes "conn_at E i h kSdoSeqStateConnected 2 2 frs s" and "histFreeEntries (hist i s) = SDO_HISTORY_SIZE"
  shows "sender E i 0 0 s" "receiver E i h 0 0 s"
  using assms by (simp_all add: conn_at_def sender_def receiver_def seq_num_def)

lemma handshake_run:
  assumes "quiet EA" and "quiet EB" and "can_open EA ty node hA i A" and "can_accept EB hB j B"
  shows "\<exists>A1 B1 A2 B2 A3.
     seq_step EA (t, SeqInitCon node ty) A = Some A1 \<and> sent (seqOuts A1) = sent (seqOuts A) @ [hs_frame 0 1] \<and>
     seq_step EB (t, SeqReceive hB (hs_frame 0 1) SDO_SEQ_HEADER_SIZE) B = Some B1 \<and>
     sent (seqOuts B1) = sent (seqOuts B) @ [hs_frame 1 1] \<and>
     seq_step EA (t, SeqReceive hA (hs_frame 1 1) SDO_SEQ_HEADER_SIZE) A1 = Some A2 \<and>
     sent (seqOuts A2) = sent (seqOuts A1) @ [hs_frame 1 2] \<and>
     seq_step EB (t, SeqReceive hB (hs_frame 1 2) SDO_SEQ_HEADER_SIZE) B1 = Some B2 \<and>
     sent (seqOuts B2) = sent (seqOuts B1) @ [hs_frame 2 2] \<and>
     seq_step EA (t, SeqReceive hA (hs_frame 2 2) SDO_SEQ_HEADER_SIZE) A2 = Some A3 \<and>
     sender EA i 0 0 A3 \<and> receiver EA i hA 0 0 A3 \<and> sender EB j 0 0 B2 \<and> receiver EB j hB 0 0 B2"
proof -
  from open_step [OF assms(1), of A ty node hA i t] assms(3) obtain A1 where
    A1: "seq_step EA (t, SeqInitCon node ty) A = Some A1"
    "conn_at EA i hA kSdoSeqStateInit1 1 0 (sent (seqOuts A) @ [hs_frame 0 1]) A1"
    by (auto simp: can_open_def)
  from server_hello [OF assms(2), of B hB j t] assms(4) obtain B1 where
    B1: "seq_step EB (t, SeqReceive hB (hs_frame 0 1) SDO_SEQ_HEADER_SIZE) B = Some B1"
    "conn_at EB j hB kSdoSeqStateInit2 1 1 (sent (seqOuts B) @ [hs_frame 1 1]) B1"
    by (auto simp: can_accept_def)
  from client_hello [OF assms(1) A1(2), of t] obtain A2 where
    A2: "seq_step EA (t, SeqReceive hA (hs_frame 1 1) SDO_SEQ_HEADER_SIZE) A1 = Some A2"
    "conn_at EA i hA kSdoSeqStateInit3 2 1 ((sent (seqOuts A) @ [hs_frame 0 1]) @ [hs_frame 1 2]) A2" by blast
  from server_connects [OF assms(2) B1(2), of t] obtain B2 where
    B2: "seq_step EB (t, SeqReceive hB (hs_frame 1 2) SDO_SEQ_HEADER_SIZE) B1 = Some B2"
    "conn_at EB j hB kSdoSeqStateConnected 2 2 ((sent (seqOuts B) @ [hs_frame 1 1]) @ [hs_frame 2 2]) B2"
    "histFreeEntries (hist j B2) = SDO_HISTORY_SIZE" by blast
  from client_connects [OF assms(1) A2(2), of t] obtain A3 where
    A3: "seq_step EA (t, SeqReceive hA (hs_frame 2 2) SDO_SEQ_HEADER_SIZE) A2 = Some A3"
    "conn_at EA i hA kSdoSeqStateConnected 2 2 ((sent (seqOuts A) @ [hs_frame 0 1]) @ [hs_frame 1 2]) A3"
    "histFreeEntries (hist i A3) = SDO_HISTORY_SIZE" by blast
  have s: "sent (seqOuts A1) = sent (seqOuts A) @ [hs_frame 0 1]" "sent (seqOuts B1) = sent (seqOuts B) @ [hs_frame 1 1]"
    "sent (seqOuts A2) = sent (seqOuts A1) @ [hs_frame 1 2]" "sent (seqOuts B2) = sent (seqOuts B1) @ [hs_frame 2 2]"
    using A1(2) B1(2) A2(2) B2(2) by (simp_all add: conn_at_def)
  show ?thesis
    using A1(1) B1(1) A2(1) B2(1) A3(1) s connected_ends [OF A3(2,3)] connected_ends [OF B2(2,3)] by blast
qed

lemma transfer_run:
  assumes "quiet EA" and "quiet EB" and "sender EA i q 0 A" and "receiver EB j hB q 0 B"
    and "length ps \<le> SDO_HISTORY_SIZE" and "\<forall>p\<in>set ps. p \<noteq> [] \<and> length p \<le> 278"
  shows "\<exists>A' frs. run_steps (seq_step EA) (map (\<lambda>p. (tA, SeqSendData (seq_handle i) p)) ps) A = Some A' \<and>
     sent (seqOuts A') = sent (seqOuts A) @ frs \<and> length frs = length ps \<and>
     (\<forall>ks. set ks \<subseteq> {..<length ps} \<longrightarrow>
       (\<exists>B'. run_steps (seq_step EB)
            (map (\<lambda>k. (tB, SeqReceive hB (frs ! k) (SDO_SEQ_HEADER_SIZE + length (ps ! k)))) ks) B = Some B' \<and>
          delivered (seq_handle j) (seqOuts B') =
            delivered (seq_handle j) (seqOuts B) @ take (in_order 0 ks) ps \<and>
          (subseq [0..<length ps] ks \<longrightarrow> in_order 0 ks = length ps)))"
proof -
  from send_run [OF assms(1,3), of ps tA] assms(5,6) obtain A' frs where
    A': "run_steps (seq_step EA) (map (\<lambda>p. (tA, SeqSendData (seq_handle i) p)) ps) A = Some A'"
    "sent (seqOuts A') = sent (seqOuts A) @ frs" "length frs = length ps"
    "\<forall>k<length ps. data_frame q k (ps ! k) (frs ! k)" by auto
  have "\<exists>B'. run_steps (seq_step EB)
        (map (\<lambda>k. (tB, SeqReceive hB (frs ! k) (SDO_SEQ_HEADER_SIZE + length (ps ! k)))) ks) B = Some B' \<and>
      delivered (seq_handle j) (seqOuts B') = delivered (seq_handle j) (seqOuts B) @ take (in_order 0 ks) ps \<and>
      (subseq [0..<length ps] ks \<longrightarrow> in_order 0 ks = length ps)"
    if ks: "set ks \<subseteq> {..<length ps}" for ks
  proof -
    have "in_order 0 ks = length ps" if "subseq [0..<length ps] ks"
      using in_order_all [OF that] in_order_le [OF _ ks, of 0] by simp
    then show ?thesis
      using receive_run [OF assms(2), of ps q frs j hB 0 B ks "delivered (seq_handle j) (seqOuts B)" tB] A'(4) assms(4,5) ks
      by auto
  qed
  with A'(1-3) show ?thesis by blast
qed

text \<open>In \<^verbatim>\<open>WaitAck\<close> a data frame is delivered whatever its number is, and its number is not noted.\<close>

lemma waitAck_delivers:
  assumes "quiet E" and "conn_at E i h kSdoSeqStateWaitAck r n frs s" and "data_frame q k p fr"
  shows "\<exists>s'. seq_step E (t, SeqReceive h fr (SDO_SEQ_HEADER_SIZE + length p)) s = Some s' \<and>
     conn_at E i h kSdoSeqStateConnected r n frs s' \<and>
     delivered (seq_handle i) (seqOuts s') = delivered (seq_handle i) (seqOuts s) @ [p]"
proof -
  let ?m = "SDO_SEQ_HEADER_SIZE + length p"
  have fr: "rcon fr = 2" "sdoSeqPayload fr = p" "p \<noteq> []" using assms(3) by (simp_all add: data_frame_def)
  have c: "conn_at E i h kSdoSeqStateWaitAck r n frs (s\<lparr>seqTick := t\<rparr>)" by (rule tick_at [OF assms(2)])
  from receive_start [OF conn_atD(2) [OF c], of h i E fr ?m] c obtain s1 where
    s1: "seq_ok s1" "seqOuts s1 = seqOuts s" "\<forall>j. conHandle (con j s1) = conHandle (con j (s\<lparr>seqTick := t\<rparr>))"
    "sdoSeqState (con i s1) = kSdoSeqStateWaitAck" "sendSeqNum (con i s1) = n" "recvSeqNum (con i s1) = r"
    "receiveOnce E h fr ?m (s\<lparr>seqTick := t\<rparr>) =
       processState E (word_of_nat i) ?m None (Some fr) kSdoSeqEventFrameRec s1" by (auto simp: conn_at_def)
  have c1: "conn_at E i h kSdoSeqStateWaitAck r n frs s1"
    using conn_at_change [OF c s1(1,3)] s1 assms(2) by (simp add: conn_at_def)
  note d = conn_atD [OF c1]
  obtain ret x u where u: "setTimer i (sdoSeqTimeout s1) s1 = Some (ret, with_timer i x u s1)"
    "seq_ok (with_timer i x u s1)" "ret \<noteq> kErrorRetry"
    using setTimer_ok [OF d(2,3)] evolvesD(1) by blast
  have c2: "conn_at E i h kSdoSeqStateWaitAck r n frs (with_timer i x u s1)"
    using conn_at_change [OF c1 u(2)] c1 d(4) by (simp add: conn_at_def)
  let ?s3 = "set_state i kSdoSeqStateConnected (with_timer i x u s1)"
  note ok3 = set_state_ok(1) [OF conn_atD(2,3) [OF c2], of kSdoSeqStateConnected]
  have c3: "conn_at E i h kSdoSeqStateConnected r n frs ?s3"
    using conn_at_change [OF c2 ok3] c2 conn_atD(4) [OF c2] by (simp add: conn_at_def)
  let ?s4 = "seq_call (SeqConCb (seq_handle i) kAsySdoConStateAckReceived) ?s3"
  have ok4: "seq_ok ?s4" using evolvesD(1) [OF evolves_call [OF ok3]] .
  let ?s5 = "seq_call (SeqRecvCb (seq_handle i) p (length p)) ?s4"
  have ok5: "seq_ok ?s5" using evolvesD(1) [OF evolves_call [OF ok4]] .
  have c5: "conn_at E i h kSdoSeqStateConnected r n frs ?s5"
    using conn_at_change [OF c3 ok5] c3 by (simp add: conn_at_def)
  have "processStateWaitAck E i kSdoSeqEventFrameRec (Some fr) ?m s1 = Some (ret, ?s5)"
    using u(1) fr quiet_callbacks [OF assms(1)] ok3 ok4
    by (simp add: processStateWaitAck_def waitAckReceive_def)
  then have "receiveOnce E h fr ?m (s\<lparr>seqTick := t\<rparr>) = Some (ret, ?s5)"
    using s1(4,7) processState_unfold [OF d(3), of None "Some fr" ?m E kSdoSeqEventFrameRec s1] by simp
  from receive_tail [OF this u(3)] c5 show ?thesis using s1(2) by (intro exI [of _ ?s5]) simp
qed

lemma repeated_frame:
  assumes "quiet E" and "conn_at E i h kSdoSeqStateWaitAck r n frs s" and "data_frame q m p fr" and "m < 64"
    and "n AND SDO_CON_MASK = 2" and "seq_num n = (q + m) mod 64"
  shows "\<exists>s'. run_steps (seq_step E) (replicate 2 (t, SeqReceive h fr (SDO_SEQ_HEADER_SIZE + length p))) s = Some s' \<and>
     delivered (seq_handle i) (seqOuts s') = delivered (seq_handle i) (seqOuts s) @ [p, p]"
proof -
  from waitAck_delivers [OF assms(1-3), of t] obtain s1 where
    s1: "seq_step E (t, SeqReceive h fr (SDO_SEQ_HEADER_SIZE + length p)) s = Some s1"
    "conn_at E i h kSdoSeqStateConnected r n frs s1"
    "delivered (seq_handle i) (seqOuts s1) = delivered (seq_handle i) (seqOuts s) @ [p]" by blast
  have "receiver E i h q m s1" using s1(2) assms(5,6) by (simp add: receiver_def conn_at_def)
  from receive_step [OF assms(1) this assms(3,4,4), of t] obtain s2 where
    "seq_step E (t, SeqReceive h fr (SDO_SEQ_HEADER_SIZE + length p)) s1 = Some s2"
    "delivered (seq_handle i) (seqOuts s2) = delivered (seq_handle i) (seqOuts s1) @ [p]" by auto
  with s1(1,3) show ?thesis by (auto simp: numeral_2_eq_2 simp del: seq_step.simps)
qed


text \<open>
  A full history cannot be told from an empty one by its indices: nothing is sent again.
\<close>

lemma full_history_not_resent:
  assumes "connection E i s" and "writeIndex (hist i s) = ackIndex (hist i s)"
    and "rcon fr = 3" and "recvSeqNumCon fr \<noteq> recvSeqNum (con i s)"
  shows "\<exists>s'. waitAckReceive E i fr n ret s = Some (kErrorOk, s') \<and> seqOuts s' = seqOuts s \<and>
     sdoSeqState (con i s') = sdoSeqState (con i s)"
proof -
  let ?s = "upd_hist i (\<lambda>h. h\<lparr>readIndex := ackIndex h\<rparr>) s"
  note l = connectionD(3) [OF assms(1)]
  have "readFromHistory i True s = Some (None, ?s)"
    using l assms(2) by (simp add: readFromHistory_def Let_def)
  moreover have "resendHistory E i None ?s = Some (kErrorOk, ?s)"
    by (subst resendHistory.simps) simp
  ultimately show ?thesis using assms(3,4) l by (simp add: waitAckReceive_def)
qed

text \<open>The timer event that is still in the queue when the connection is closed.\<close>

lemma close_frees_timer:
  assumes "quiet E" and "conn_at E i h kSdoSeqStateConnected r n frs s" and "scon fr = 0"
    and "timerHandle (con i s) = e + 1"
  shows "\<exists>s'. seq_step E (t, SeqReceive h fr m) s = Some s' \<and> i < CONFIG_SDO_MAX_CONNECTION_SEQ \<and>
     timerHandle (con i s') = 0 \<and> e \<in> set (freeList (seqTimers s'))"
proof -
  have c: "conn_at E i h kSdoSeqStateConnected r n frs (s\<lparr>seqTick := t\<rparr>)" by (rule tick_at [OF assms(2)])
  note d0 = conn_atD [OF c]
  obtain f where f: "deleteAckedFrameFromHistory i (recvSeqNumCon fr AND SEQ_NUM_MASK) (s\<lparr>seqTick := t\<rparr>) =
      Some (kErrorOk, upd_hist i f (s\<lparr>seqTick := t\<rparr>))" using deleteAcked_hist [OF d0(2,3)] by blast
  let ?s1 = "upd_hist i f (s\<lparr>seqTick := t\<rparr>)"
  have ok1: "seq_ok ?s1"
    using deleteAckedFrameFromHistory_ok [OF d0(2,3)] f evolvesD(1) by (metis option.inject prod.inject)
  have l: "i < length (aSdoSeqCon ?s1)" using d0(4) by simp
  have h1: "timerHandle (con i ?s1) = e + 1" "sdoSeqState (con i ?s1) = kSdoSeqStateConnected"
    using assms(4) d0(4) c by (simp_all add: conn_at_def)
  let ?arg = "\<lparr>timerSink = kEventSinkSdoAsySeq, timerValue = i + 1\<rparr>"
  note h = seq_okD(5) [OF ok1]
  have del: "timeru_deleteTimer (Some (e + 1)) (seqTimers ?s1) = Some (kErrorOk, Some 0, timer_freed e (seqTimers ?s1))"
    using handles_ok_delete(1) [OF h _ d0(3)] h1(1) by simp
  obtain u where u: "timeru_setTimer (seqTick ?s1) (Some 0) (sdoSeqTimeout ?s1) ?arg (timer_freed e (seqTimers ?s1)) =
      (kErrorOk, Some (e + 1), u)"
    by (simp add: timeru_setTimer_def timer_freed_def Let_def)
  have set: "setTimer i (sdoSeqTimeout ?s1) ?s1 = Some (kErrorOk, with_timer i (e + 1) u ?s1)"
    using h1(1) del u by (simp add: setTimer_def timeru_modifyTimer_def with_timer_def Let_def)
  have ok2: "seq_ok (with_timer i (e + 1) u ?s1)"
    using setTimer_ok [OF ok1 d0(3), of "sdoSeqTimeout ?s1"] set evolvesD(1) by auto
  let ?s3 = "set_state i kSdoSeqStateIdle (with_timer i (e + 1) u ?s1)"
  note ok3 = set_state_ok(1) [OF ok2 d0(3), of kSdoSeqStateIdle]
  have h3: "timerHandle (con i ?s3) = e + 1" using l by simp
  let ?s4 = "with_timer i 0 (timer_freed e (seqTimers ?s3)) ?s3"
  have del3: "deleteTimer i ?s3 = Some ?s4"
    using handles_ok_delete(1) [OF seq_okD(5) [OF ok3] _ d0(3)] h3 by (simp add: deleteTimer_def with_timer_def)
  have ok4: "seq_ok ?s4" using deleteTimer_ok [OF ok3 d0(3)] del3 evolvesD(1) by auto
  let ?s5 = "seq_call (SeqConCb (seq_handle i) kAsySdoConStateConClosed) ?s4"
  have "connectedReceive E i fr m ?s1 = Some (kErrorOk, ?s5)"
    using set del3 quiet_callbacks(1) [OF assms(1) ok4] assms(3) by (simp add: connectedReceive_def)
  then have "receiveOnce E h fr m (s\<lparr>seqTick := t\<rparr>) = Some (kErrorOk, ?s5)"
    using f c h1(2) processState_unfold [OF d0(3), of None "Some fr" m E kSdoSeqEventFrameRec ?s1]
    by (simp add: receiveOnce_def conn_at_def processStateConnected_def)
  from receive_tail [OF this] have "seq_step E (t, SeqReceive h fr m) s = Some ?s5" by simp
  moreover have "timerHandle (con i ?s5) = 0" using l by simp
  moreover have "e \<in> set (freeList (seqTimers ?s5))"
    using l by (simp add: with_timer_def timer_freed_def)
  ultimately show ?thesis using d0(3) by blast
qed

definition sdo_timer_event :: "nat \<Rightarrow> nat \<Rightarrow> tEvent" where
  "sdo_timer_event h v = \<lparr>eventType = kEventTypeTimer, eventSink = kEventSinkSdoAsySeq, netTime = 0,
     pEventArg = ArgTimerValue h v\<rparr>"

lemma late_event:
  assumes "quiet E" and "conn_at E i h kSdoSeqStateConnected r n frs s0" and "scon fr = 0"
    and "timeru_process tick (seqTimers s0) = (Some (kEventSinkSdoAsySeq, x, i + 1), u)"
  shows "\<exists>s'. seq_step E (t, SeqReceive h fr m) (s0\<lparr>seqTimers := u\<rparr>) = Some s' \<and>
     sdoseq_processEvent E (Some (sdo_timer_event x (i + 1))) s' = None"
proof -
  let ?s = "s0\<lparr>seqTimers := u\<rparr>"
  note d = conn_atD [OF assms(2)]
  note ex = expired_timer [OF d(2) assms(4)]
  have at: "conn_at E i h kSdoSeqStateConnected r n frs ?s"
    using conn_at_change [OF assms(2) ex(1)] assms(2) by (simp add: conn_at_def)
  from ex(2) [OF refl] have x: "timerHandle (con i ?s) = x" "x \<noteq> 0" by auto
  then obtain e where e: "x = e + 1" by (cases x) auto
  from close_frees_timer [OF assms(1) at assms(3), of e t m] x e obtain s' where
    s': "seq_step E (t, SeqReceive h fr m) ?s = Some s'" "timerHandle (con i s') = 0"
    "e \<in> set (freeList (seqTimers s'))" by auto
  have "sdoseq_processEvent E (Some (sdo_timer_event x (i + 1))) s' = None"
    using s'(2,3) e d(3) by (simp add: sdoseq_processEvent_def sdo_timer_event_def timeru_deleteTimer_def)
  with s'(1) show ?thesis by blast
qed


section \<open>Properties\<close>

text \<open>
  Two environments: one without calls from the command layer, and one whose command layer sends
  data as soon as a connection is established. Initial states with \<open>n\<close> free timers, and a
  connected entry.
\<close>

definition asnd_env :: seq_env where
  "asnd_env = \<lparr>includeUdp = False, includeAsnd = True, lowerAdd = \<lambda>_. kErrorOk, lowerRemove = \<lambda>_. kErrorOk,
     lowerSend = \<lambda>_. kErrorOk, lowerInit = \<lambda>_ _ _. (kErrorOk, 0x4001), lowerDel = \<lambda>_. kErrorOk,
     reaction = \<lambda>_ s. Some s\<rparr>"

fun send_hello :: "seq_out \<Rightarrow> sdoseq_system \<Rightarrow> (nat \<times> seq_op) list" where
  "send_hello (SeqConCb h kAsySdoConStateConnected) s =
     (if unat (h AND NOT SDO_SEQ_HANDLE_MASK) < CONFIG_SDO_MAX_CONNECTION_SEQ
      then [(seqTick s, SeqSendData h [1, 2, 3])] else [])"
| "send_hello _ _ = []"

definition hello_env :: seq_env where
  "hello_env = asnd_env\<lparr>reaction := \<lambda>c s. run_steps (seq_step asnd_env) (send_hello c s) s\<rparr>"

definition seq_start :: "nat \<Rightarrow> tSdoSeqCon \<Rightarrow> sdoseq_system" where
  "seq_start n c = \<lparr>aSdoSeqCon = [c, zero_con, zero_con, zero_con, zero_con], pfnSdoComRecvCb = True,
     pfnSdoComConCb = True, sdoSeqTimeout = SDO_SEQ_DEFAULT_TIMEOUT,
     seqTimers = \<lparr>timerList = [], freeList = [0..<n], timerArgs = \<lambda>_. \<lparr>timerSink = kEventSinkInvalid, timerValue = 0\<rparr>,
       startTimeInMs = 0, freeEntries = n, minFreeEntries = n\<rparr>, seqTick = 0, seqOuts = []\<rparr>"

definition connected_con :: tSdoSeqCon where
  "connected_con = zero_con\<lparr>conHandle := 0x4001, sdoSeqState := kSdoSeqStateConnected, recvSeqNum := 2,
     sendSeqNum := 2, sdoSeqConHistory := (sdoSeqConHistory zero_con)\<lparr>histFreeEntries := SDO_HISTORY_SIZE\<rparr>\<rparr>"

lemma quiet_asnd: "quiet asnd_env"
  by (simp add: quiet_def asnd_env_def)

lemma hello_env_ok: "env_ok hello_env"
  unfolding hello_env_def
proof (rule calling_env_ok [OF quiet_env_ok [OF quiet_asnd]])
  show "list_all (\<lambda>x. api_op (snd x) \<and> seq_op_ok (snd x)) (send_hello c s)" for c s
    by (cases "(c, s)" rule: send_hello.cases) simp_all
qed

lemma con_start:
  "con 0 (seq_start n c) = c" "i < 4 \<Longrightarrow> con (Suc i) (seq_start n c) = zero_con"
  by (auto simp: con_def seq_start_def nth_Cons numeral_eq_Suc less_Suc_eq)

lemma seq_ok_start:
  assumes "timerHandle c = 0" and "hist_ok (sdoSeqConHistory c)"
  shows "seq_ok (seq_start n c)"
proof -
  have con: "con i (seq_start n c) = (if i = 0 then c else zero_con)" if "i < CONFIG_SDO_MAX_CONNECTION_SEQ" for i
    using that con_start(1) [of n c] con_start(2) [where i = "i - 1" and n = n and c = c] by (cases i) auto
  have z: "timerHandle zero_con = 0" by (simp add: zero_con_def)
  have "handles_ok (\<lambda>i. timerHandle (con i (seq_start n c))) (seqTimers (seq_start n c))"
    using con assms(1) z by (auto simp: handles_ok_def seq_start_def split: if_splits)
  then show ?thesis using con assms(2) hist_ok_zero
    by (auto simp: seq_ok_def hist_def seq_start_def)
qed

lemma connection_start:
  assumes "c = connected_con\<lparr>sdoSeqState := st\<rparr>"
  shows "connection asnd_env 0 (seq_start n c)" "findCon 0x4001 (seq_start n c) = Some 0"
    "con 0 (seq_start n c) = c"
proof -
  have "seq_ok (seq_start n c)"
    using assms hist_ok_zero by (intro seq_ok_start) (simp_all add: connected_con_def zero_con_def hist_ok_def)
  then show "connection asnd_env 0 (seq_start n c)"
    using assms by (simp add: connection_def con_start connected_con_def asnd_env_def Let_def)
  show "findCon 0x4001 (seq_start n c) = Some 0"
    using assms by (simp add: findCon_def con_start connected_con_def upt_conv_Cons)
qed (rule con_start)

lemma sender_start: "sender asnd_env 0 0 0 (seq_start n connected_con)"
  "receiver asnd_env 0 0x4001 0 0 (seq_start n connected_con)"
  using connection_start [of connected_con kSdoSeqStateConnected n]
  by (simp_all add: sender_def receiver_def hist_def connected_con_def seq_num_def)

text \<open>
  C3: The sequence layer never hangs and never leaves its tables. From its initialisation, any
  sequence of calls of the command layer, of received frames with any contents, in any state of the
  connections, and of timeouts returns, and so does every reception after it, although a frame that
  reopens a connection is processed again in a loop. This holds for every transport that does not
  answer a sent frame with \<^verbatim>\<open>kErrorRetry\<close> and for every command layer that reacts to callbacks by
  calls of this module. The timers are processed when they expire, handles are valid and payloads
  have at most 278 bytes.
\<close>

theorem sdo_runs_return:
  assumes "env_ok E" and "sdoseq_init E True True s = (kErrorOk, s0)"
    and "distinct (map fst (timerList (seqTimers s)) @ freeList (seqTimers s))"
    and "\<forall>(e, d)\<in>set (timerList (seqTimers s)). timerSink (timerArgs (seqTimers s) e) \<noteq> kEventSinkSdoAsySeq"
    and "list_all (\<lambda>x. seq_op_ok (snd x)) xs"
  shows "\<exists>s'. run_steps (seq_step E) xs s0 = Some s' \<and>
     (\<forall>h fr n. \<exists>r s''. receiveCb E h fr n s' = Some (r, s'') \<and> r \<noteq> kErrorRetry)"
proof -
  have "seq_ok s0" by (rule seq_ok_init [OF assms(2-4)])
  from seq_machine.run_safe [OF conjI [OF assms(1) this] assms(5)] obtain s' where
    "run_steps (seq_step E) xs s0 = Some s'" "seq_ok s'" by blast
  then show ?thesis using receiveCb_ok [OF assms(1)] by blast
qed

theorem sdo_runs_return_witness:
  "\<exists>s0 s'. sdoseq_init hello_env True True (seq_start 2 zero_con) = (kErrorOk, s0) \<and>
     run_steps (seq_step hello_env) [(0, SeqInitCon 7 kSdoTypeAsnd), (1, SeqReceive 0x4001 (hs_frame 1 1) 4),
       (2, SeqReceive 0x4001 (hs_frame 2 2) 4), (9000, SeqPoll), (9001, SeqDeleteCon 0x8004)] s0 = Some s'"
proof -
  obtain s0 where i: "sdoseq_init hello_env True True (seq_start 2 zero_con) = (kErrorOk, s0)"
    by (simp add: sdoseq_init_def sdoseq_addInstance_def hello_env_def asnd_env_def Let_def)
  have "distinct (map fst (timerList (seqTimers (seq_start 2 zero_con))) @ freeList (seqTimers (seq_start 2 zero_con)))"
    "\<forall>(e, d)\<in>set (timerList (seqTimers (seq_start 2 zero_con))).
       timerSink (timerArgs (seqTimers (seq_start 2 zero_con)) e) \<noteq> kEventSinkSdoAsySeq"
    by (simp_all add: seq_start_def)
  from sdo_runs_return [OF hello_env_ok i this, of "[(0, SeqInitCon 7 kSdoTypeAsnd),
      (1, SeqReceive 0x4001 (hs_frame 1 1) 4), (2, SeqReceive 0x4001 (hs_frame 2 2) 4), (9000, SeqPoll),
      (9001, SeqDeleteCon 0x8004)]"] i
  show ?thesis by (auto simp del: run_steps.simps)
qed

text \<open>
  C18: The handshake connects two instances. When one opens a connection and each of the four
  frames of the handshake reaches the other side, both are connected after the fourth, with empty
  histories, and each is in step with the other: the number from which one sends is the number
  after which the other expects. Both instances have a free connection, none of them has a
  connection with the other yet, the transports accept every frame, and the command layers make
  no calls from the callbacks of the handshake.
\<close>

theorem sdo_handshake:
  assumes "quiet EA" and "quiet EB" and "can_open EA ty node hA i A" and "can_accept EB hB j B"
  shows "\<exists>A1 B1 A2 B2 A3.
     seq_step EA (t, SeqInitCon node ty) A = Some A1 \<and> sent (seqOuts A1) = sent (seqOuts A) @ [hs_frame 0 1] \<and>
     seq_step EB (t, SeqReceive hB (hs_frame 0 1) SDO_SEQ_HEADER_SIZE) B = Some B1 \<and>
     sent (seqOuts B1) = sent (seqOuts B) @ [hs_frame 1 1] \<and>
     seq_step EA (t, SeqReceive hA (hs_frame 1 1) SDO_SEQ_HEADER_SIZE) A1 = Some A2 \<and>
     sent (seqOuts A2) = sent (seqOuts A1) @ [hs_frame 1 2] \<and>
     seq_step EB (t, SeqReceive hB (hs_frame 1 2) SDO_SEQ_HEADER_SIZE) B1 = Some B2 \<and>
     sent (seqOuts B2) = sent (seqOuts B1) @ [hs_frame 2 2] \<and>
     seq_step EA (t, SeqReceive hA (hs_frame 2 2) SDO_SEQ_HEADER_SIZE) A2 = Some A3 \<and>
     sender EA i 0 0 A3 \<and> receiver EA i hA 0 0 A3 \<and> sender EB j 0 0 B2 \<and> receiver EB j hB 0 0 B2"
  using assms by (rule handshake_run)

lemma free_start: "find (\<lambda>i. conHandle (con i (seq_start n zero_con)) = 0) (rev [0..<CONFIG_SDO_MAX_CONNECTION_SEQ]) = Some 4"
  "find (\<lambda>i. conHandle (con i (seq_start n zero_con)) = 0) [0..<CONFIG_SDO_MAX_CONNECTION_SEQ] = Some 0"
  "findCon 0x4001 (seq_start n zero_con) = None" "con 4 (seq_start n zero_con) = zero_con"
  by (simp_all add: seq_start_def con_def zero_con_def findCon_def upt_conv_Cons)

theorem sdo_handshake_witness:
  "\<exists>A1 B1 A2 B2 A3.
     seq_step asnd_env (5, SeqInitCon 7 kSdoTypeAsnd) (seq_start 2 zero_con) = Some A1 \<and>
     sent (seqOuts A1) = sent (seqOuts (seq_start 2 zero_con)) @ [hs_frame 0 1] \<and>
     seq_step asnd_env (5, SeqReceive 0x4001 (hs_frame 0 1) SDO_SEQ_HEADER_SIZE) (seq_start 2 zero_con) = Some B1 \<and>
     sent (seqOuts B1) = sent (seqOuts (seq_start 2 zero_con)) @ [hs_frame 1 1] \<and>
     seq_step asnd_env (5, SeqReceive 0x4001 (hs_frame 1 1) SDO_SEQ_HEADER_SIZE) A1 = Some A2 \<and>
     sent (seqOuts A2) = sent (seqOuts A1) @ [hs_frame 1 2] \<and>
     seq_step asnd_env (5, SeqReceive 0x4001 (hs_frame 1 2) SDO_SEQ_HEADER_SIZE) B1 = Some B2 \<and>
     sent (seqOuts B2) = sent (seqOuts B1) @ [hs_frame 2 2] \<and>
     seq_step asnd_env (5, SeqReceive 0x4001 (hs_frame 2 2) SDO_SEQ_HEADER_SIZE) A2 = Some A3 \<and>
     sender asnd_env 4 0 0 A3 \<and> receiver asnd_env 4 0x4001 0 0 A3 \<and>
     sender asnd_env 0 0 0 B2 \<and> receiver asnd_env 0 0x4001 0 0 B2"
proof (rule sdo_handshake [OF quiet_asnd quiet_asnd])
  have ok: "seq_ok (seq_start 2 zero_con)"
    by (rule seq_ok_start) (simp_all add: hist_ok_zero, simp add: zero_con_def)
  have t: "transport asnd_env 0x4001" by (simp add: transport_def asnd_env_def)
  show "can_open asnd_env kSdoTypeAsnd 7 0x4001 4 (seq_start 2 zero_con)"
    using ok t free_start by (simp add: can_open_def) (simp add: asnd_env_def zero_con_def)
  show "can_accept asnd_env 0x4001 0 (seq_start 2 zero_con)"
    using ok t free_start con_start by (simp add: can_accept_def) (simp add: zero_con_def)
qed

text \<open>
  C4: Data arrives once and in order. One side of an established connection sends up to five
  payloads. Whatever the network does with the frames, which it may lose, repeat and reorder, the
  other side delivers to its command layer a prefix of the payloads, each once and in their order,
  as long as it stays connected; and it delivers all of them when the arrivals contain the frames in
  order, for example after retransmissions. The payloads have 1 to 278 bytes (the command layer
  sends no others), the transports accept every frame, and the command layers make no calls from
  their callbacks.
\<close>

theorem sdo_exactly_once:
  assumes "quiet EA" and "quiet EB" and "sender EA i q 0 A" and "receiver EB j hB q 0 B"
    and "length ps \<le> SDO_HISTORY_SIZE" and "\<forall>p\<in>set ps. p \<noteq> [] \<and> length p \<le> 278"
  shows "\<exists>A' frs. run_steps (seq_step EA) (map (\<lambda>p. (tA, SeqSendData (seq_handle i) p)) ps) A = Some A' \<and>
     sent (seqOuts A') = sent (seqOuts A) @ frs \<and> length frs = length ps \<and>
     (\<forall>ks. set ks \<subseteq> {..<length ps} \<longrightarrow>
       (\<exists>B'. run_steps (seq_step EB)
            (map (\<lambda>k. (tB, SeqReceive hB (frs ! k) (SDO_SEQ_HEADER_SIZE + length (ps ! k)))) ks) B = Some B' \<and>
          delivered (seq_handle j) (seqOuts B') =
            delivered (seq_handle j) (seqOuts B) @ take (in_order 0 ks) ps \<and>
          (subseq [0..<length ps] ks \<longrightarrow> in_order 0 ks = length ps)))"
  using assms by (rule transfer_run)

theorem sdo_exactly_once_witness:
  "\<exists>frs B'. length frs = 3 \<and> run_steps (seq_step asnd_env)
      (map (\<lambda>k. (0, SeqReceive 0x4001 (frs ! k) (4 + length ([[1], [2, 3], [4]] ! k)))) [0, 2, 0, 1, 1, 2])
      (seq_start 1 connected_con) = Some B' \<and>
    delivered (seq_handle 0) (seqOuts B') = [[1], [2, 3], [4 :: byte]]"
proof -
  let ?ps = "[[1], [2, 3], [4 :: byte]]" and ?ks = "[0, 2, 0, 1, 1, 2 :: nat]" and ?s = "seq_start 1 connected_con"
  have ps: "length ?ps \<le> SDO_HISTORY_SIZE" "\<forall>p\<in>set ?ps. p \<noteq> [] \<and> length p \<le> 278" by simp_all
  have sub: "set ?ks \<subseteq> {..<length ?ps}" by simp
  obtain frs where n: "length frs = length ?ps" and all: "\<forall>ks. set ks \<subseteq> {..<length ?ps} \<longrightarrow>
      (\<exists>B'. run_steps (seq_step asnd_env)
         (map (\<lambda>k. (0, SeqReceive 0x4001 (frs ! k) (SDO_SEQ_HEADER_SIZE + length (?ps ! k)))) ks) ?s = Some B' \<and>
       delivered (seq_handle 0) (seqOuts B') = delivered (seq_handle 0) (seqOuts ?s) @ take (in_order 0 ks) ?ps \<and>
       (subseq [0..<length ?ps] ks \<longrightarrow> in_order 0 ks = length ?ps))"
    using sdo_exactly_once [OF quiet_asnd quiet_asnd sender_start(1) [of 1] sender_start(2) [of 1] ps,
      where tA = 0 and tB = 0] by (elim exE conjE)
  obtain B' where r: "run_steps (seq_step asnd_env)
       (map (\<lambda>k. (0, SeqReceive 0x4001 (frs ! k) (SDO_SEQ_HEADER_SIZE + length (?ps ! k)))) ?ks) ?s = Some B'"
    and d: "delivered (seq_handle 0) (seqOuts B') = delivered (seq_handle 0) (seqOuts ?s) @ take (in_order 0 ?ks) ?ps"
    using all [rule_format, OF sub] by (elim exE conjE)
  have "in_order 0 ?ks = 3" "seqOuts ?s = []" by (simp_all add: seq_start_def)
  with d have e: "delivered (seq_handle 0) (seqOuts B') = ?ps" by simp
  show ?thesis using n r e by (intro exI [of _ frs] exI [of _ B'] conjI) simp_all
qed

text \<open>
  C39: While a connection waits for an acknowledge, the order and the number of the frames are not
  checked. The next frame, received twice, is delivered to the command layer twice: the first one
  ends the wait without being noted, and the second one is the expected one.
\<close>

theorem sdo_waitack_repeats:
  assumes "quiet E" and "conn_at E i h kSdoSeqStateWaitAck r n frs s" and "data_frame q m p fr" and "m < 64"
    and "n AND SDO_CON_MASK = 2" and "seq_num n = (q + m) mod 64"
  shows "\<exists>s'. run_steps (seq_step E) (replicate 2 (t, SeqReceive h fr (SDO_SEQ_HEADER_SIZE + length p))) s = Some s' \<and>
     delivered (seq_handle i) (seqOuts s') = delivered (seq_handle i) (seqOuts s) @ [p, p]"
  using assms by (rule repeated_frame)

theorem sdo_waitack_repeats_witness:
  "\<exists>s'. run_steps (seq_step asnd_env) (replicate 2 (0, SeqReceive 0x4001 \<lparr>recvSeqNumCon = 2,
       sendSeqNumCon = 6, sdoSeqPayload = [7]\<rparr> 5))
       (seq_start 1 (connected_con\<lparr>sdoSeqState := kSdoSeqStateWaitAck\<rparr>)) = Some s' \<and>
     delivered (seq_handle 0) (seqOuts s') = [[7], [7 :: byte]]"
proof -
  let ?c = "connected_con\<lparr>sdoSeqState := kSdoSeqStateWaitAck\<rparr>"
  have at: "conn_at asnd_env 0 0x4001 kSdoSeqStateWaitAck 2 2 [] (seq_start 1 ?c)"
    using connection_start [of ?c kSdoSeqStateWaitAck 1, OF refl]
    by (simp add: conn_at_def) (simp add: connected_con_def seq_start_def)
  have fr: "data_frame 0 0 [7] \<lparr>recvSeqNumCon = 2, sendSeqNumCon = 6, sdoSeqPayload = [7]\<rparr>"
    by (simp add: data_frame_def seq_num_def scon_def rcon_def)
  have "seqOuts (seq_start 1 ?c) = []" by (simp add: seq_start_def)
  with sdo_waitack_repeats [OF quiet_asnd at fr, of 0] show ?thesis
    by (simp add: seq_num_def del: run_steps.simps replicate.simps)
qed

text \<open>
  C40: A timeout that comes late corrupts the timer module. The timer of a connection expires and
  its event is in the event queue. Before it is processed the peer closes the connection, which
  frees the timer. The event then frees the timer a second time, and its entry is on the list of
  free timers twice.
\<close>

theorem sdo_late_timeout:
  assumes "quiet E" and "conn_at E i h kSdoSeqStateConnected r n frs s0" and "scon fr = 0"
    and "timeru_process tick (seqTimers s0) = (Some (kEventSinkSdoAsySeq, x, i + 1), u)"
  shows "\<exists>s'. seq_step E (t, SeqReceive h fr m) (s0\<lparr>seqTimers := u\<rparr>) = Some s' \<and>
     sdoseq_processEvent E (Some (sdo_timer_event x (i + 1))) s' = None"
  using assms by (rule late_event)

theorem sdo_late_timeout_witness:
  "\<exists>s0 u s'. timeru_process 6000 (seqTimers s0) = (Some (kEventSinkSdoAsySeq, 1, 1), u) \<and>
     seq_step asnd_env (6000, SeqReceive 0x4001 (hs_frame 0 0) 4) (s0\<lparr>seqTimers := u\<rparr>) = Some s' \<and>
     sdoseq_processEvent asnd_env (Some (sdo_timer_event 1 1)) s' = None"
proof -
  let ?c = "connected_con\<lparr>timerHandle := 1\<rparr>"
  let ?t = "\<lparr>timerList = [(0, 5000)], freeList = [], timerArgs = \<lambda>_. \<lparr>timerSink = kEventSinkSdoAsySeq, timerValue = 1\<rparr>,
       startTimeInMs = 0, freeEntries = 0, minFreeEntries = 0\<rparr>"
  let ?s = "(seq_start 0 ?c)\<lparr>seqTimers := ?t\<rparr>"
  have con: "con i ?s = (if i = 0 then ?c else zero_con)" if "i < CONFIG_SDO_MAX_CONNECTION_SEQ" for i
    using that con_start(1) [of 0 ?c] con_start(2) [where i = "i - 1" and n = 0 and c = ?c]
    by (cases i) (auto simp: con_def)
  have z: "timerHandle zero_con = 0" "hist_ok (sdoSeqConHistory connected_con)"
    using hist_ok_zero by (simp_all add: zero_con_def connected_con_def hist_ok_def)
  have "handles_ok (\<lambda>i. timerHandle (con i ?s)) (seqTimers ?s)"
    using con z by (auto simp: handles_ok_def split: if_splits)
  then have ok: "seq_ok ?s" using con z hist_ok_zero by (auto simp: seq_ok_def hist_def) (auto simp: seq_start_def)
  have at: "conn_at asnd_env 0 0x4001 kSdoSeqStateConnected 2 2 [] ?s"
    using ok con by (simp add: conn_at_def connection_def Let_def findCon_def upt_conv_Cons)
      (simp add: connected_con_def asnd_env_def seq_start_def)
  have p: "timeru_process 6000 (seqTimers ?s) = (Some (kEventSinkSdoAsySeq, 1, 0 + 1), ?t\<lparr>timerList := [], startTimeInMs := 5000\<rparr>)"
    by (simp add: timeru_process_def sub32_def wrap32_def Let_def)
  have "scon (hs_frame 0 0) = 0" by simp
  from sdo_late_timeout [OF quiet_asnd at this p, of 6000 4] obtain s' where
    "seq_step asnd_env (6000, SeqReceive 0x4001 (hs_frame 0 0) 4)
       (?s\<lparr>seqTimers := ?t\<lparr>timerList := [], startTimeInMs := 5000\<rparr>\<rparr>) = Some s'"
    "sdoseq_processEvent asnd_env (Some (sdo_timer_event 1 (0 + 1))) s' = None"
    by (elim exE conjE)
  with p show ?thesis unfolding add_0 by (intro exI conjI)
qed

end
