(* ===== verification/Ami.thy ===== *)
theory Ami
  imports Oplk_Prelude
begin

text \<open>
  The abstract memory interface for a little endian host (\<^verbatim>\<open>src/stack/src/common/ami/amile.c\<close>):
  integers of 16 to 64 bits are written to and read from frames in a given byte order.

  Every function is a sequence of byte assignments between the frame and the object
  representation of a C integer; \<^verbatim>\<open>UINT16\<close>, \<^verbatim>\<open>UINT32\<close> and \<^verbatim>\<open>UINT64\<close> objects have 2, 4 and 8 bytes,
  in the byte order of the host. A setter returns the new contents of the frame, a getter the
  value; both are \<^term>\<open>None\<close> when a byte outside the frame would be accessed.
\<close>

unbundle bit_operations_syntax

section \<open>Integers and bytes\<close>

fun bytes_le :: "nat \<Rightarrow> nat \<Rightarrow> byte list" where
  "bytes_le 0 v = []"
| "bytes_le (Suc n) v = word_of_nat v # bytes_le n (v div 256)"

fun value_le :: "byte list \<Rightarrow> nat" where
  "value_le [] = 0"
| "value_le (b # bs) = unat b + 256 * value_le bs"

fun move_bytes :: "(nat \<times> nat) list \<Rightarrow> byte list \<Rightarrow> byte list \<Rightarrow> byte list option" where
  "move_bytes [] src dst = Some dst"
| "move_bytes ((d, s) # ms) src dst =
     (if s < length src \<and> d < length dst then move_bytes ms src (dst[d := src ! s]) else None)"

lemma length_bytes_le [simp]: "length (bytes_le n v) = n"
  by (induction n arbitrary: v) simp_all

lemma value_bytes_le: "value_le (bytes_le n v) = v mod 256 ^ n"
proof (induction n arbitrary: v)
  case (Suc n)
  have "unat (word_of_nat v :: byte) = v mod 256" by (simp add: unat_of_nat)
  with Suc show ?case by (simp add: mod_mult2_eq)
qed simp

lemma bytes_value_le: "bytes_le (length bs) (value_le bs) = bs"
proof (induction bs)
  case (Cons b bs)
  have b: "unat b < 256" using unsigned_less [of b] by simp
  have "(word_of_nat (unat b + 256 * value_le bs) :: byte) = b"
  proof -
    have "(256 :: byte) = 0" by (simp add: word_unat_eq_iff)
    then have "(256 :: byte) * x = 0" for x by (simp only: mult_zero_left)
    then show ?thesis by simp
  qed
  moreover have "(unat b + 256 * value_le bs) div 256 = value_le bs" using b by simp
  ultimately show ?case using Cons by simp
qed simp

lemma value_le_less: "value_le bs < 256 ^ length bs"
  using value_bytes_le [of "length bs" "value_le bs"] bytes_value_le [of bs]
  by (metis mod_less_divisor zero_less_numeral zero_less_power)

section \<open>The contract of the accessors\<close>

text \<open>
  A field of \<open>n\<close> bytes in a byte order: a setter writes the lowest \<open>n\<close> bytes of the value in front
  of the rest of the frame, a getter reads them back.
\<close>

datatype byte_order = BigEndian | LittleEndian

definition wire :: "byte_order \<Rightarrow> nat \<Rightarrow> nat \<Rightarrow> byte list" where
  "wire ord n v = (case ord of BigEndian \<Rightarrow> rev (bytes_le n v) | LittleEndian \<Rightarrow> bytes_le n v)"

definition unwire :: "byte_order \<Rightarrow> byte list \<Rightarrow> nat" where
  "unwire ord bs = (case ord of BigEndian \<Rightarrow> value_le (rev bs) | LittleEndian \<Rightarrow> value_le bs)"

lemma length_wire [simp]: "length (wire ord n v) = n"
  by (simp add: wire_def split: byte_order.split)

lemma unwire_wire: "unwire ord (wire ord n v) = v mod 256 ^ n"
  by (simp add: wire_def unwire_def value_bytes_le split: byte_order.split)

lemma wire_unwire: "wire ord (length bs) (unwire ord bs) = bs"
  using bytes_value_le [of bs] bytes_value_le [of "rev bs"]
  by (simp add: wire_def unwire_def split: byte_order.split)

locale wire_setter =
  fixes ord :: byte_order and n :: nat and put :: "byte list \<Rightarrow> nat \<Rightarrow> byte list option"
  assumes put_wire: "n \<le> length buf \<Longrightarrow> put buf v = Some (wire ord n v @ drop n buf)"
begin

lemma put_put:
  assumes "n \<le> length buf" and "put buf v = Some buf'"
  shows "put buf' w = put buf w"
proof -
  have "buf' = wire ord n v @ drop n buf" using put_wire [OF assms(1)] assms(2) by simp
  with put_wire [of buf'] put_wire [OF assms(1)] show ?thesis by simp
qed

end

locale wire_codec = wire_setter +
  fixes get :: "byte list \<Rightarrow> nat option"
  assumes get_wire: "n \<le> length buf \<Longrightarrow> get buf = Some (unwire ord (take n buf))"
begin

lemma get_put:
  assumes "n \<le> length buf"
  shows "\<exists>buf'. put buf v = Some buf' \<and> drop n buf' = drop n buf \<and> length buf' = length buf \<and>
     get buf' = Some (v mod 256 ^ n)"
  using put_wire [OF assms] get_wire [of "wire ord n v @ drop n buf"] assms by (simp add: unwire_wire)

lemma put_get:
  assumes "n \<le> length buf" and "get buf = Some v"
  shows "put buf v = Some buf" and "v < 256 ^ n"
proof -
  have v: "v = unwire ord (take n buf)" using get_wire [OF assms(1)] assms(2) by simp
  then have "wire ord n v = take n buf" using wire_unwire [of ord "take n buf"] assms(1) by simp
  then show "put buf v = Some buf" using put_wire [OF assms(1)] by simp
  show "v < 256 ^ n" using value_le_less [of "take n buf"] value_le_less [of "rev (take n buf)"] v assms(1)
    by (simp add: unwire_def split: byte_order.splits)
qed

end

text \<open>
  \<open>moves_ok n N ms\<close>: the assignments of \<open>ms\<close> set the first \<open>n\<close> bytes of the destination, each once,
  from an object of \<open>N\<close> bytes.
\<close>

definition moves_ok :: "nat \<Rightarrow> nat \<Rightarrow> (nat \<times> nat) list \<Rightarrow> bool" where
  "moves_ok n N ms \<longleftrightarrow> distinct (map fst ms) \<and> list_all (\<lambda>(d, s). d < n \<and> s < N) ms \<and>
     list_all (\<lambda>i. i \<in> set (map fst ms)) [0..<n]"

lemma move_bytes_list:
  assumes "distinct (map fst ms)" and "list_all (\<lambda>(d, s). d < length dst \<and> s < length src) ms"
  shows "\<exists>dst'. move_bytes ms src dst = Some dst' \<and> length dst' = length dst \<and>
     (\<forall>i < length dst. dst' ! i = (case map_of ms i of Some s \<Rightarrow> src ! s | None \<Rightarrow> dst ! i))"
  using assms
proof (induction ms src dst rule: move_bytes.induct)
  case (2 d s ms src dst)
  then have "d < length dst" "s < length src" by simp_all
  with 2 obtain dst' where d: "move_bytes ms src (dst[d := src ! s]) = Some dst'" "length dst' = length dst"
    "\<forall>i < length dst. dst' ! i = (case map_of ms i of Some s \<Rightarrow> src ! s | None \<Rightarrow> dst[d := src ! s] ! i)"
    by auto
  have "map_of ms d = None" using "2.prems"(1) by (simp add: map_of_eq_None_iff)
  with d \<open>d < length dst\<close> \<open>s < length src\<close> show ?case
    by (auto simp: nth_list_update split: option.split)
qed simp

lemma move_bytes_field:
  assumes "moves_ok n (length src) ms" and "n \<le> length dst"
  shows "move_bytes ms src dst = Some (map (\<lambda>i. src ! the (map_of ms i)) [0..<n] @ drop n dst)"
proof -
  have b: "list_all (\<lambda>(d, s). d < length dst \<and> s < length src) ms"
    using assms by (auto simp: moves_ok_def list_all_iff)
  from move_bytes_list [OF _ b] assms(1) obtain dst' where
    d: "move_bytes ms src dst = Some dst'" "length dst' = length dst"
    "\<forall>i < length dst. dst' ! i = (case map_of ms i of Some s \<Rightarrow> src ! s | None \<Rightarrow> dst ! i)"
    by (auto simp: moves_ok_def)
  have "map_of ms i \<noteq> None" if "i < n" for i
    using that assms(1) by (auto simp: moves_ok_def list_all_iff map_of_eq_None_iff)
  moreover have "map_of ms i = None" if "n \<le> i" for i
    using that assms(1) by (auto simp: moves_ok_def list_all_iff map_of_eq_None_iff)
  ultimately have "dst' = map (\<lambda>i. src ! the (map_of ms i)) [0..<n] @ drop n dst"
    using d assms(2) by (intro nth_equalityI) (fastforce simp: nth_append split: option.splits)+
  with d(1) show ?thesis by simp
qed

lemma bytes_le_map: "bytes_le n v = map (\<lambda>i. word_of_nat (v div 256 ^ i)) [0..<n]"
proof (induction n arbitrary: v)
  case (Suc n)
  have "map (\<lambda>i. word_of_nat (v div 256 ^ i)) [0..<Suc n] =
      word_of_nat v # map (\<lambda>i. word_of_nat (v div 256 ^ Suc i) :: byte) [0..<n]"
    by (simp only: upt_conv_Cons map_Suc_upt [symmetric] list.map list.map_comp comp_def zero_less_Suc) simp
  also have "\<dots> = bytes_le (Suc n) v" by (simp add: Suc.IH div_mult2_eq)
  finally show ?case ..
qed simp

lemma nth_bytes_le: "i < n \<Longrightarrow> bytes_le n v ! i = word_of_nat (v div 256 ^ i)"
  by (simp add: bytes_le_map)

lemma take_map_upt: "n \<le> length xs \<Longrightarrow> take n xs = map (\<lambda>i. xs ! i) [0..<n]"
  by (rule nth_equalityI) simp_all

lemma value_le_zeros: "value_le (bs @ replicate k 0) = value_le bs"
proof (induction bs)
  case Nil
  show ?case by (induction k) simp_all
qed simp

lemma bytes_le_zero: "bytes_le n 0 = replicate n 0"
  by (induction n) simp_all

lemma put_fieldI:
  assumes "moves_ok n N ms" and "map (\<lambda>i. the (map_of ms i)) [0..<n] =
    (case ord of LittleEndian \<Rightarrow> [0..<n] | BigEndian \<Rightarrow> rev [0..<n])" and "n \<le> N" and "n \<le> length buf"
  shows "move_bytes ms (bytes_le N v) buf = Some (wire ord n v @ drop n buf)"
proof -
  let ?b = "\<lambda>i. word_of_nat (v div 256 ^ i) :: byte"
  have "map (\<lambda>i. bytes_le N v ! the (map_of ms i)) [0..<n] = map (\<lambda>j. bytes_le N v ! j) (map (\<lambda>i. the (map_of ms i)) [0..<n])"
    by simp
  also have "\<dots> = map ?b (map (\<lambda>i. the (map_of ms i)) [0..<n])"
    using assms(3) unfolding assms(2) by (intro map_cong) (auto simp: nth_bytes_le split: byte_order.splits)
  also have "\<dots> = wire ord n v"
    unfolding assms(2) wire_def bytes_le_map by (simp add: rev_map split: byte_order.split)
  finally show ?thesis using move_bytes_field [of n "bytes_le N v" ms buf] assms by simp
qed

lemma get_fieldI:
  assumes "moves_ok n (length buf) ms" and "map (\<lambda>i. the (map_of ms i)) [0..<n] =
    (case ord of LittleEndian \<Rightarrow> [0..<n] | BigEndian \<Rightarrow> rev [0..<n])" and "n \<le> N" and "n \<le> length buf"
  shows "map_option value_le (move_bytes ms buf (bytes_le N 0)) = Some (unwire ord (take n buf))"
proof -
  have "map (\<lambda>i. buf ! the (map_of ms i)) [0..<n] = map (\<lambda>j. buf ! j) (map (\<lambda>i. the (map_of ms i)) [0..<n])"
    by simp
  also have "\<dots> = (case ord of LittleEndian \<Rightarrow> take n buf | BigEndian \<Rightarrow> rev (take n buf))"
    unfolding assms(2) take_map_upt [OF assms(4)] by (simp add: rev_map split: byte_order.split)
  finally have "move_bytes ms buf (bytes_le N 0) =
      Some ((case ord of LittleEndian \<Rightarrow> take n buf | BigEndian \<Rightarrow> rev (take n buf)) @ replicate (N - n) 0)"
    using move_bytes_field [of n buf ms "bytes_le N 0"] assms(1, 3) by (simp add: bytes_le_zero)
  then show ?thesis by (simp add: unwire_def value_le_zeros split: byte_order.split)
qed

definition wire_order :: "byte_order \<Rightarrow> nat \<Rightarrow> (nat \<times> nat) list \<Rightarrow> bool" where
  "wire_order ord n ms \<longleftrightarrow> map (\<lambda>i. the (map_of ms i)) [0..<n] =
     (case ord of LittleEndian \<Rightarrow> [0..<n] | BigEndian \<Rightarrow> rev [0..<n])"

lemma wire_codecI:
  assumes "\<And>buf v. put buf v = move_bytes ps (bytes_le N v) buf"
    and "\<And>buf. get buf = map_option value_le (move_bytes gs buf (bytes_le N 0))"
    and "n \<le> N" and "moves_ok n N ps" and "wire_order ord n ps"
    and gs: "moves_ok n n gs" and "wire_order ord n gs"
  shows "wire_codec ord n put get"
proof
  fix buf :: "byte list" and v assume l: "n \<le> length buf"
  show "put buf v = Some (wire ord n v @ drop n buf)"
    unfolding assms(1) using assms(4, 5) l by (intro put_fieldI) (simp_all add: wire_order_def assms(3))
  have "moves_ok n (length buf) gs" using gs l by (auto simp: moves_ok_def list_all_iff)
  then show "get buf = Some (unwire ord (take n buf))"
    unfolding assms(2) using assms(7) l by (intro get_fieldI) (simp_all add: wire_order_def assms(3))
qed

lemmas wire_simps = moves_ok_def wire_order_def upt_rec

section \<open>The accessors\<close>

definition ami_setUint16Be :: "byte list \<Rightarrow> nat \<Rightarrow> byte list option" where
  "ami_setUint16Be buf val =
     move_bytes [(1, 0), (0, 1)] (bytes_le 2 val) buf"

definition ami_setUint16Le :: "byte list \<Rightarrow> nat \<Rightarrow> byte list option" where
  "ami_setUint16Le buf val =
     move_bytes [(0, 0), (1, 1)] (bytes_le 2 val) buf"

definition ami_getUint16Be :: "byte list \<Rightarrow> nat option" where
  "ami_getUint16Be buf =
     map_option value_le (move_bytes [(1, 0), (0, 1)] buf (bytes_le 2 0))"

definition ami_getUint16Le :: "byte list \<Rightarrow> nat option" where
  "ami_getUint16Le buf =
     map_option value_le (move_bytes [(0, 0), (1, 1)] buf (bytes_le 2 0))"

definition ami_setUint24Be :: "byte list \<Rightarrow> nat \<Rightarrow> byte list option" where
  "ami_setUint24Be buf val =
     move_bytes [(2, 0), (1, 1), (0, 2)] (bytes_le 4 val) buf"

definition ami_setUint24Le :: "byte list \<Rightarrow> nat \<Rightarrow> byte list option" where
  "ami_setUint24Le buf val =
     move_bytes [(0, 0), (1, 1), (2, 2)] (bytes_le 4 val) buf"

definition ami_getUint24Be :: "byte list \<Rightarrow> nat option" where
  "ami_getUint24Be buf =
     map_option value_le (move_bytes [(0, 2), (1, 1), (2, 0)] buf (bytes_le 4 0))"

definition ami_getUint24Le :: "byte list \<Rightarrow> nat option" where
  "ami_getUint24Le buf =
     map_option value_le (move_bytes [(0, 0), (1, 1), (2, 2)] buf (bytes_le 4 0))"

definition ami_setUint32Be :: "byte list \<Rightarrow> nat \<Rightarrow> byte list option" where
  "ami_setUint32Be buf val =
     move_bytes [(3, 0), (2, 1), (1, 2), (0, 3)] (bytes_le 4 val) buf"

definition ami_setUint32Le :: "byte list \<Rightarrow> nat \<Rightarrow> byte list option" where
  "ami_setUint32Le buf val =
     move_bytes [(0, 0), (1, 1), (2, 2), (3, 3)] (bytes_le 4 val) buf"

definition ami_getUint32Be :: "byte list \<Rightarrow> nat option" where
  "ami_getUint32Be buf =
     map_option value_le (move_bytes [(3, 0), (2, 1), (1, 2), (0, 3)] buf (bytes_le 4 0))"

definition ami_getUint32Le :: "byte list \<Rightarrow> nat option" where
  "ami_getUint32Le buf =
     map_option value_le (move_bytes [(0, 0), (1, 1), (2, 2), (3, 3)] buf (bytes_le 4 0))"

definition ami_setUint40Be :: "byte list \<Rightarrow> nat \<Rightarrow> byte list option" where
  "ami_setUint40Be buf val =
     move_bytes [(0, 4), (1, 3), (2, 2), (3, 1), (4, 0)] (bytes_le 8 val) buf"

definition ami_setUint40Le :: "byte list \<Rightarrow> nat \<Rightarrow> byte list option" where
  "ami_setUint40Le buf val =
     move_bytes [(0, 0), (1, 1), (2, 2), (3, 3), (4, 4)] (bytes_le 8 val) buf"

definition ami_getUint40Be :: "byte list \<Rightarrow> nat option" where
  "ami_getUint40Be buf =
     map_option value_le (move_bytes [(0, 4), (1, 3), (2, 2), (3, 1), (4, 0)] buf (bytes_le 8 0))"

definition ami_getUint40Le :: "byte list \<Rightarrow> nat option" where
  "ami_getUint40Le buf =
     map_option value_le (move_bytes [(0, 0), (1, 1), (2, 2), (3, 3), (4, 4)] buf (bytes_le 8 0))"

definition ami_setUint48Be :: "byte list \<Rightarrow> nat \<Rightarrow> byte list option" where
  "ami_setUint48Be buf val =
     move_bytes [(0, 5), (1, 4), (2, 3), (3, 2), (4, 1), (5, 0)] (bytes_le 8 val) buf"

definition ami_setUint48Le :: "byte list \<Rightarrow> nat \<Rightarrow> byte list option" where
  "ami_setUint48Le buf val =
     move_bytes [(0, 0), (1, 1), (2, 2), (3, 3), (4, 4), (5, 5)] (bytes_le 8 val) buf"

definition ami_getUint48Be :: "byte list \<Rightarrow> nat option" where
  "ami_getUint48Be buf =
     map_option value_le (move_bytes [(0, 5), (1, 4), (2, 3), (3, 2), (4, 1), (5, 0)] buf (bytes_le 8 0))"

definition ami_getUint48Le :: "byte list \<Rightarrow> nat option" where
  "ami_getUint48Le buf =
     map_option value_le (move_bytes [(0, 0), (1, 1), (2, 2), (3, 3), (4, 4), (5, 5)] buf (bytes_le 8 0))"

definition ami_setUint56Be :: "byte list \<Rightarrow> nat \<Rightarrow> byte list option" where
  "ami_setUint56Be buf val =
     move_bytes [(0, 6), (1, 5), (2, 4), (3, 3), (4, 2), (5, 1), (6, 0)] (bytes_le 8 val) buf"

definition ami_setUint56Le :: "byte list \<Rightarrow> nat \<Rightarrow> byte list option" where
  "ami_setUint56Le buf val =
     move_bytes [(0, 0), (1, 1), (2, 2), (3, 3), (4, 4), (5, 5), (6, 6)] (bytes_le 8 val) buf"

definition ami_getUint56Be :: "byte list \<Rightarrow> nat option" where
  "ami_getUint56Be buf =
     map_option value_le (move_bytes [(0, 6), (1, 5), (2, 4), (3, 3), (4, 2), (5, 1), (6, 0)] buf (bytes_le 8 0))"

definition ami_getUint56Le :: "byte list \<Rightarrow> nat option" where
  "ami_getUint56Le buf =
     map_option value_le (move_bytes [(0, 0), (1, 1), (2, 2), (3, 3), (4, 4), (5, 5), (6, 6)] buf (bytes_le 8 0))"

definition ami_setUint64Be :: "byte list \<Rightarrow> nat \<Rightarrow> byte list option" where
  "ami_setUint64Be buf val =
     move_bytes [(0, 7), (1, 6), (2, 5), (3, 4), (4, 3), (5, 2), (6, 1), (7, 0)] (bytes_le 8 val) buf"

definition ami_setUint64Le :: "byte list \<Rightarrow> nat \<Rightarrow> byte list option" where
  "ami_setUint64Le buf val =
     move_bytes [(0, 0), (1, 1), (2, 2), (3, 3), (4, 4), (5, 5), (6, 6), (7, 7)] (bytes_le 8 val) buf"

definition ami_getUint64Be :: "byte list \<Rightarrow> nat option" where
  "ami_getUint64Be buf =
     map_option value_le (move_bytes [(0, 7), (1, 6), (2, 5), (3, 4), (4, 3), (5, 2), (6, 1), (7, 0)] buf (bytes_le 8 0))"

definition ami_getUint64Le :: "byte list \<Rightarrow> nat option" where
  "ami_getUint64Le buf =
     map_option value_le (move_bytes [(0, 0), (1, 1), (2, 2), (3, 3), (4, 4), (5, 5), (6, 6), (7, 7)] buf (bytes_le 8 0))"

text \<open>All of them keep the contract.\<close>

interpretation u16be: wire_codec BigEndian 2 ami_setUint16Be ami_getUint16Be
  by (rule wire_codecI [OF ami_setUint16Be_def ami_getUint16Be_def]) (simp_all add: wire_simps)

interpretation u16le: wire_codec LittleEndian 2 ami_setUint16Le ami_getUint16Le
  by (rule wire_codecI [OF ami_setUint16Le_def ami_getUint16Le_def]) (simp_all add: wire_simps)

interpretation u24be: wire_codec BigEndian 3 ami_setUint24Be ami_getUint24Be
  by (rule wire_codecI [OF ami_setUint24Be_def ami_getUint24Be_def]) (simp_all add: wire_simps)

interpretation u24le: wire_codec LittleEndian 3 ami_setUint24Le ami_getUint24Le
  by (rule wire_codecI [OF ami_setUint24Le_def ami_getUint24Le_def]) (simp_all add: wire_simps)

interpretation u32be: wire_codec BigEndian 4 ami_setUint32Be ami_getUint32Be
  by (rule wire_codecI [OF ami_setUint32Be_def ami_getUint32Be_def]) (simp_all add: wire_simps)

interpretation u32le: wire_codec LittleEndian 4 ami_setUint32Le ami_getUint32Le
  by (rule wire_codecI [OF ami_setUint32Le_def ami_getUint32Le_def]) (simp_all add: wire_simps)

interpretation u40be: wire_codec BigEndian 5 ami_setUint40Be ami_getUint40Be
  by (rule wire_codecI [OF ami_setUint40Be_def ami_getUint40Be_def]) (simp_all add: wire_simps)

interpretation u40le: wire_codec LittleEndian 5 ami_setUint40Le ami_getUint40Le
  by (rule wire_codecI [OF ami_setUint40Le_def ami_getUint40Le_def]) (simp_all add: wire_simps)

interpretation u48be: wire_codec BigEndian 6 ami_setUint48Be ami_getUint48Be
  by (rule wire_codecI [OF ami_setUint48Be_def ami_getUint48Be_def]) (simp_all add: wire_simps)

interpretation u48le: wire_codec LittleEndian 6 ami_setUint48Le ami_getUint48Le
  by (rule wire_codecI [OF ami_setUint48Le_def ami_getUint48Le_def]) (simp_all add: wire_simps)

interpretation u56be: wire_codec BigEndian 7 ami_setUint56Be ami_getUint56Be
  by (rule wire_codecI [OF ami_setUint56Be_def ami_getUint56Be_def]) (simp_all add: wire_simps)

interpretation u56le: wire_codec LittleEndian 7 ami_setUint56Le ami_getUint56Le
  by (rule wire_codecI [OF ami_setUint56Le_def ami_getUint56Le_def]) (simp_all add: wire_simps)

interpretation u64be: wire_codec BigEndian 8 ami_setUint64Be ami_getUint64Be
  by (rule wire_codecI [OF ami_setUint64Be_def ami_getUint64Be_def]) (simp_all add: wire_simps)

interpretation u64le: wire_codec LittleEndian 8 ami_setUint64Le ami_getUint64Le
  by (rule wire_codecI [OF ami_setUint64Le_def ami_getUint64Le_def]) (simp_all add: wire_simps)

section \<open>Time of day\<close>

text \<open>\<^verbatim>\<open>pAddr_p + n\<close>: a call on the part of the frame that starts at an offset.\<close>

definition put_at :: "nat \<Rightarrow> (byte list \<Rightarrow> nat \<Rightarrow> byte list option) \<Rightarrow> byte list \<Rightarrow> nat \<Rightarrow> byte list option" where
  "put_at off put buf v = map_option (\<lambda>b. take off buf @ b) (put (drop off buf) v)"

record tTimeOfDay =
  msec :: nat
  days :: nat

definition ami_setTimeOfDay :: "byte list \<Rightarrow> tTimeOfDay \<Rightarrow> byte list option" where
  "ami_setTimeOfDay buf t =
     Option.bind (ami_setUint32Le buf (msec t AND 0x0FFFFFFF))
       (\<lambda>buf. put_at 4 ami_setUint16Le buf (days t))"

definition ami_getTimeOfDay :: "byte list \<Rightarrow> tTimeOfDay option" where
  "ami_getTimeOfDay buf =
     Option.bind (ami_getUint32Le buf)
       (\<lambda>ms. map_option (\<lambda>d. \<lparr>msec = ms AND 0x0FFFFFFF, days = d\<rparr>) (ami_getUint16Le (drop 4 buf)))"

lemma time_of_day_roundtrip:
  assumes "6 \<le> length buf"
  shows "\<exists>buf'. ami_setTimeOfDay buf t = Some buf' \<and> drop 6 buf' = drop 6 buf \<and>
     ami_getTimeOfDay buf' = Some \<lparr>msec = msec t mod 2 ^ 28, days = days t mod 2 ^ 16\<rparr>"
proof -
  have m: "x AND 0x0FFFFFFF = x mod 2 ^ 28" for x :: nat
    using take_bit_eq_mask [of 28 x] by (simp add: mask_eq_exp_minus_1 take_bit_eq_mod)
  let ?w4 = "wire LittleEndian 4 (msec t mod 2 ^ 28)" and ?w2 = "wire LittleEndian 2 (days t)"
  have 1: "ami_setUint32Le buf (msec t mod 2 ^ 28) = Some (?w4 @ drop 4 buf)"
    using assms by (intro u32le.put_wire) simp
  have 2: "ami_setUint16Le (drop 4 buf) (days t) = Some (?w2 @ drop 6 buf)"
    using u16le.put_wire [of "drop 4 buf"] assms by simp
  have set: "ami_setTimeOfDay buf t = Some (?w4 @ ?w2 @ drop 6 buf)"
    unfolding ami_setTimeOfDay_def m 1 by (simp add: put_at_def 2)
  have "ami_getUint32Le (?w4 @ ?w2 @ drop 6 buf) = Some (msec t mod 2 ^ 28)"
    using u32le.get_wire [of "?w4 @ ?w2 @ drop 6 buf"] by (simp add: unwire_wire)
  moreover have "ami_getUint16Le (drop 4 (?w4 @ ?w2 @ drop 6 buf)) = Some (days t mod 2 ^ 16)"
    using u16le.get_wire [of "?w2 @ drop 6 buf"] by (simp add: unwire_wire)
  ultimately have "ami_getTimeOfDay (?w4 @ ?w2 @ drop 6 buf) =
      Some \<lparr>msec = msec t mod 2 ^ 28, days = days t mod 2 ^ 16\<rparr>"
    by (simp add: ami_getTimeOfDay_def m)
  with set show ?thesis by simp
qed

end
