(* ===== verification/Sdo_Com.thy ===== *)
theory Sdo_Com
  imports Ami Oplk_Types "HOL-Library.Monad_Syntax" "HOL-Library.Code_Target_Nat"
begin

text \<open>
  The SDO command layer (\<^verbatim>\<open>src/stack/src/user/sdo/sdo-comu.c\<close>): reading and writing objects of
  another node, as a client, and serving such requests from the own object dictionary. Small
  objects travel in one frame (expedited), large ones in several (segmented).

  All functions work on one state: the connections, the memory of the application's buffers and
  of the objects, and the calls made so far. The sequence layer, the object dictionary and the
  application are an environment. The sequence layer reports \<^verbatim>\<open>kAsySdoConStateFrameSended\<close> from
  inside \<^verbatim>\<open>sdoseq_sendData\<close>, and the application may call this module from its callback: the
  functions take the reaction to a callback as their argument \<open>cb\<close>, and \<open>com_react\<close> ties the knot,
  for environments that call back at most \<open>n\<close> levels deep; the properties hold for every \<open>n\<close>.
  \<^term>\<open>None\<close> is undefined behaviour (an access outside a buffer) and nothing else.
\<close>

unbundle bit_operations_syntax

section \<open>State\<close>

datatype tSdoServiceType =
    kSdoServiceNIL | kSdoServiceWriteByIndex | kSdoServiceReadByIndex
  | kSdoServiceWriteAllByIndex | kSdoServiceReadAllByIndex | kSdoServiceWriteByName
  | kSdoServiceReadByName | kSdoServiceFileWrite | kSdoServiceFileRead
  | kSdoServiceWriteMultiByIndex | kSdoServiceReadMultiByIndex | kSdoServiceMaxSegSize

primrec service_code :: "tSdoServiceType \<Rightarrow> byte" where
  "service_code kSdoServiceNIL = 0x00"
| "service_code kSdoServiceWriteByIndex = 0x01"
| "service_code kSdoServiceReadByIndex = 0x02"
| "service_code kSdoServiceWriteAllByIndex = 0x03"
| "service_code kSdoServiceReadAllByIndex = 0x04"
| "service_code kSdoServiceWriteByName = 0x05"
| "service_code kSdoServiceReadByName = 0x06"
| "service_code kSdoServiceFileWrite = 0x20"
| "service_code kSdoServiceFileRead = 0x21"
| "service_code kSdoServiceWriteMultiByIndex = 0x31"
| "service_code kSdoServiceReadMultiByIndex = 0x32"
| "service_code kSdoServiceMaxSegSize = 0x70"

datatype tSdoAccessType = kSdoAccessTypeRead | kSdoAccessTypeWrite

datatype tSdoTransType = kSdoTransAuto | kSdoTransExpedited | kSdoTransSegmented

datatype tSdoComConState =
    kSdoComTransferNotActive | kSdoComTransferRunning | kSdoComTransferTxAborted
  | kSdoComTransferRxAborted | kSdoComTransferFinished | kSdoComTransferLowerLayerAbort

datatype tSdoComConEvent =
    kSdoComConEventSendFirst | kSdoComConEventRec | kSdoComConEventConEstablished
  | kSdoComConEventConClosed | kSdoComConEventAckReceived | kSdoComConEventFrameSended
  | kSdoComConEventInitError | kSdoComConEventTimeout | kSdoComConEventTransferAbort
  | kSdoComConEventInitCon | kSdoComConEventAbort

datatype tSdoComSendType =
    kSdoComSendTypeReq | kSdoComSendTypeAckRes | kSdoComSendTypeRes | kSdoComSendTypeAbort

datatype tSdoComState =
    kSdoComStateIdle | kSdoComStateServerSegmTrans | kSdoComStateClientWaitInit
  | kSdoComStateClientConnected | kSdoComStateClientSegmTrans

text \<open>
  A pointer to data: into a buffer of the application or the memory of an object, to a local
  variable of a running function (with its value), to the connection's own abort code, or to
  nothing that may be accessed.
\<close>

datatype com_block = UserBlock nat | ObjectBlock nat nat

type_synonym com_mem = "com_block \<Rightarrow> byte list"

datatype com_ptr = NullPtr | DataPtr com_block nat | LocalPtr nat | LastAbortPtr | DanglingPtr

record tSdoComCon =
  sdoSeqConHdl :: u32
  sdoComState :: tSdoComState
  transactionId :: byte
  comNodeId :: nat
  sdoTransferType :: tSdoTransType
  sdoServiceType :: tSdoServiceType
  sdoProtocolType :: tSdoType
  pData :: com_ptr
  transferSize :: nat
  transferredBytes :: nat
  pfnTransferFinished :: "nat option"
  pUserArg :: nat
  lastAbortCode :: nat
  targetIndex :: nat
  targetSubIndex :: nat

text \<open>The command layer part of a frame; \<open>segmentSizeLe\<close> is the value of its two bytes.\<close>

record tAsySdoCom =
  frTransactionId :: byte
  flags :: byte
  commandId :: byte
  segmentSizeLe :: nat
  aCommandData :: "byte list"

record tSdoComFinished =
  finConHdl :: nat
  finConState :: tSdoComConState
  finAbortCode :: nat
  finAccessType :: tSdoAccessType
  finNodeId :: nat
  finIndex :: nat
  finSubIndex :: nat
  finTransferredBytes :: nat
  finUserArg :: nat

record tSdoComTransParamByIndex =
  parConHdl :: nat
  parIndex :: nat
  parSubindex :: nat
  parData :: com_ptr
  parDataSize :: nat
  parAccessType :: tSdoAccessType
  parFinishedCb :: "nat option"
  parUserArg :: nat

datatype com_out =
    ComSend u32 nat "tAsySdoCom option" \<comment> \<open>\<^verbatim>\<open>sdoseq_sendData\<close>: handle, size, frame\<close>
  | ComInitCon nat tSdoType
  | ComDeleteCon u32
  | ComFinished nat tSdoComFinished \<comment> \<open>the application's callback\<close>
  | ComAccepted nat \<comment> \<open>a transfer with a callback starts on a connection (no call of the code)\<close>
  | ComSeqAddInstance
  | ComSeqDelInstance

datatype com_call = \<comment> \<open>calls of the application\<close>
    DefineConnection nat tSdoType
  | InitTransferByIndex tSdoComTransParamByIndex
  | UndefineConnection nat
  | GetState nat tSdoComFinished
  | AbortTransfer nat nat

datatype com_back = BackState u32 tAsySdoConState | BackFinished nat tSdoComFinished

record com_sys =
  sdoComCon :: "tSdoComCon list"
  comMem :: com_mem
  comOuts :: "com_out list"

type_synonym com_react = "com_back \<Rightarrow> com_sys \<Rightarrow> com_sys option"
type_synonym com_result = "(tOplkError \<times> com_sys) option"

text \<open>
  The environment. \<open>comSend\<close> answers a call of \<^verbatim>\<open>sdoseq_sendData\<close> with its result and whether the
  layer reports from inside that the frame was sent (it does so for a data frame while its history
  has room for another). \<open>comInitCon\<close> gives the result and the handle that was stored, if one was.
  \<open>obdRead\<close> is \<^verbatim>\<open>obd_readEntryToLe\<close> for a buffer size, \<open>obdWrite\<close> is \<^verbatim>\<open>obd_writeEntryFromLe\<close> from a
  source buffer. \<open>appCalls\<close> are the calls the application makes from its callback.
\<close>

record com_env =
  comAddInstance :: "com_out list \<Rightarrow> tOplkError"
  comDelInstance :: "com_out list \<Rightarrow> tOplkError"
  comInitCon :: "com_out list \<Rightarrow> tOplkError \<times> u32 option"
  comDeleteCon :: "com_out list \<Rightarrow> tOplkError"
  comSend :: "com_out list \<Rightarrow> tOplkError \<times> bool"
  obdAccess :: "nat \<Rightarrow> nat \<Rightarrow> tOplkError \<times> byte"
  obdSize :: "nat \<Rightarrow> nat \<Rightarrow> nat"
  obdPtr :: "nat \<Rightarrow> nat \<Rightarrow> com_ptr"
  obdRead :: "nat \<Rightarrow> nat \<Rightarrow> nat \<Rightarrow> com_mem \<Rightarrow> tOplkError \<times> byte list"
  obdWrite :: "nat \<Rightarrow> nat \<Rightarrow> byte list \<Rightarrow> nat \<Rightarrow> com_mem \<Rightarrow> (tOplkError \<times> com_mem) option"
  appCalls :: "nat \<Rightarrow> tSdoComFinished \<Rightarrow> com_out list \<Rightarrow> com_call list"

abbreviation (input) CONFIG_SDO_MAX_CONNECTION_COM :: nat where "CONFIG_SDO_MAX_CONNECTION_COM \<equiv> 5"
abbreviation (input) SDO_MAX_SEGMENT_SIZE :: nat where "SDO_MAX_SEGMENT_SIZE \<equiv> 256"
abbreviation (input) SDO_CMDL_HDR_FIXED_SIZE :: nat where "SDO_CMDL_HDR_FIXED_SIZE \<equiv> 8"
abbreviation (input) SDO_CMDL_HDR_VAR_SIZE :: nat where "SDO_CMDL_HDR_VAR_SIZE \<equiv> 4"
abbreviation (input) SDO_CMDL_HDR_WRITEBYINDEX_SIZE :: nat where "SDO_CMDL_HDR_WRITEBYINDEX_SIZE \<equiv> 4"
abbreviation (input) SDO_CMDL_HDR_READBYINDEX_SIZE :: nat where "SDO_CMDL_HDR_READBYINDEX_SIZE \<equiv> 4"
abbreviation (input) SDO_CMDL_FLAG_RESPONSE :: byte where "SDO_CMDL_FLAG_RESPONSE \<equiv> 0x80"
abbreviation (input) SDO_CMDL_FLAG_ABORT :: byte where "SDO_CMDL_FLAG_ABORT \<equiv> 0x40"
abbreviation (input) SDO_CMDL_FLAG_EXPEDITED :: byte where "SDO_CMDL_FLAG_EXPEDITED \<equiv> 0x00"
abbreviation (input) SDO_CMDL_FLAG_SEGMINIT :: byte where "SDO_CMDL_FLAG_SEGMINIT \<equiv> 0x10"
abbreviation (input) SDO_CMDL_FLAG_SEGMENTED :: byte where "SDO_CMDL_FLAG_SEGMENTED \<equiv> 0x20"
abbreviation (input) SDO_CMDL_FLAG_SEGMCOMPL :: byte where "SDO_CMDL_FLAG_SEGMCOMPL \<equiv> 0x30"
abbreviation (input) SDO_CMDL_FLAG_SEGM_MASK :: byte where "SDO_CMDL_FLAG_SEGM_MASK \<equiv> 0x30"
abbreviation (input) kObdAccRead :: byte where "kObdAccRead \<equiv> 0x01"
abbreviation (input) kObdAccWrite :: byte where "kObdAccWrite \<equiv> 0x02"
abbreviation (input) kObdAccConst :: byte where "kObdAccConst \<equiv> 0x04"
abbreviation (input) SDO_AC_TIME_OUT :: nat where "SDO_AC_TIME_OUT \<equiv> 0x05040000"
abbreviation (input) SDO_AC_UNKNOWN_COMMAND_SPECIFIER :: nat where "SDO_AC_UNKNOWN_COMMAND_SPECIFIER \<equiv> 0x05040001"
abbreviation (input) SDO_AC_INVALID_BLOCK_SIZE :: nat where "SDO_AC_INVALID_BLOCK_SIZE \<equiv> 0x05040002"
abbreviation (input) SDO_AC_UNSUPPORTED_ACCESS :: nat where "SDO_AC_UNSUPPORTED_ACCESS \<equiv> 0x06010000"
abbreviation (input) SDO_AC_READ_TO_WRITE_ONLY_OBJ :: nat where "SDO_AC_READ_TO_WRITE_ONLY_OBJ \<equiv> 0x06010001"
abbreviation (input) SDO_AC_WRITE_TO_READ_ONLY_OBJ :: nat where "SDO_AC_WRITE_TO_READ_ONLY_OBJ \<equiv> 0x06010002"
abbreviation (input) SDO_AC_OBJECT_NOT_EXIST :: nat where "SDO_AC_OBJECT_NOT_EXIST \<equiv> 0x06020000"
abbreviation (input) SDO_AC_DATA_TYPE_LENGTH_NOT_MATCH :: nat where "SDO_AC_DATA_TYPE_LENGTH_NOT_MATCH \<equiv> 0x06070010"
abbreviation (input) SDO_AC_DATA_TYPE_LENGTH_TOO_HIGH :: nat where "SDO_AC_DATA_TYPE_LENGTH_TOO_HIGH \<equiv> 0x06070012"
abbreviation (input) SDO_AC_SUB_INDEX_NOT_EXIST :: nat where "SDO_AC_SUB_INDEX_NOT_EXIST \<equiv> 0x06090011"
abbreviation (input) SDO_AC_VALUE_RANGE_TOO_HIGH :: nat where "SDO_AC_VALUE_RANGE_TOO_HIGH \<equiv> 0x06090031"
abbreviation (input) SDO_AC_VALUE_RANGE_TOO_LOW :: nat where "SDO_AC_VALUE_RANGE_TOO_LOW \<equiv> 0x06090032"
abbreviation (input) SDO_AC_GENERAL_ERROR :: nat where "SDO_AC_GENERAL_ERROR \<equiv> 0x08000000"

definition zero_com_con :: tSdoComCon where
  "zero_com_con = \<lparr>sdoSeqConHdl = 0, sdoComState = kSdoComStateIdle, transactionId = 0, comNodeId = 0,
     sdoTransferType = kSdoTransAuto, sdoServiceType = kSdoServiceNIL, sdoProtocolType = kSdoTypeAuto,
     pData = NullPtr, transferSize = 0, transferredBytes = 0, pfnTransferFinished = None,
     pUserArg = 0, lastAbortCode = 0, targetIndex = 0, targetSubIndex = 0\<rparr>"

definition ccon :: "nat \<Rightarrow> com_sys \<Rightarrow> tSdoComCon" where
  "ccon i s = sdoComCon s ! i"

definition cupd :: "nat \<Rightarrow> (tSdoComCon \<Rightarrow> tSdoComCon) \<Rightarrow> com_sys \<Rightarrow> com_sys" where
  "cupd i f s = s\<lparr>sdoComCon := (sdoComCon s)[i := f (ccon i s)]\<rparr>"

definition com_log :: "com_out \<Rightarrow> com_sys \<Rightarrow> com_sys" where
  "com_log out s = s\<lparr>comOuts := comOuts s @ [out]\<rparr>"

text \<open>Access through pointers. An abort code is read as a \<^verbatim>\<open>UINT32\<close> of a little endian host.\<close>

definition ptr_add :: "com_ptr \<Rightarrow> nat \<Rightarrow> com_ptr" where
  "ptr_add p n = (case p of DataPtr b off \<Rightarrow> DataPtr b (off + n) | _ \<Rightarrow> if n = 0 then p else DanglingPtr)"

definition ptr_read :: "com_ptr \<Rightarrow> nat \<Rightarrow> com_mem \<Rightarrow> byte list option" where
  "ptr_read p n m =
     (if n = 0 then Some []
      else case p of DataPtr b off \<Rightarrow> mem_read (m b) off n | _ \<Rightarrow> None)"

definition ptr_write :: "com_ptr \<Rightarrow> byte list \<Rightarrow> com_mem \<Rightarrow> com_mem option" where
  "ptr_write p bs m =
     (if bs = [] then Some m
      else case p of
        DataPtr b off \<Rightarrow> map_option (\<lambda>x. m(b := x)) (mem_write (m b) off bs)
      | _ \<Rightarrow> None)"

definition ptr_code :: "tSdoComCon \<Rightarrow> com_mem \<Rightarrow> nat option" where
  "ptr_code c m =
     (case pData c of
        LocalPtr v \<Rightarrow> Some v
      | LastAbortPtr \<Rightarrow> Some (lastAbortCode c)
      | p \<Rightarrow> map_option value_le (ptr_read p 4 m))"

text \<open>A function returns: a pointer to one of its local variables is no longer valid.\<close>

definition locals_end :: "nat \<Rightarrow> com_sys \<Rightarrow> com_sys" where
  "locals_end i = cupd i (\<lambda>c. case pData c of LocalPtr _ \<Rightarrow> c\<lparr>pData := DanglingPtr\<rparr> | _ \<Rightarrow> c)"

definition com_get :: "nat \<Rightarrow> nat \<Rightarrow> tAsySdoCom \<Rightarrow> nat option" where
  "com_get n off fr = map_option value_le (mem_read (aCommandData fr) off n)"

definition com_put :: "nat \<Rightarrow> byte list \<Rightarrow> tAsySdoCom \<Rightarrow> tAsySdoCom option" where
  "com_put off bs fr = map_option (\<lambda>d. fr\<lparr>aCommandData := d\<rparr>) (mem_write (aCommandData fr) off bs)"

section \<open>Calls to the neighbours\<close>

definition finished_info :: "nat \<Rightarrow> tSdoComConState \<Rightarrow> tSdoComCon \<Rightarrow> tSdoComFinished" where
  "finished_info i st c = \<lparr>finConHdl = i, finConState = st, finAbortCode = lastAbortCode c,
     finAccessType = (if sdoServiceType c = kSdoServiceWriteByIndex then kSdoAccessTypeWrite
                      else kSdoAccessTypeRead),
     finNodeId = comNodeId c, finIndex = targetIndex c, finSubIndex = targetSubIndex c,
     finTransferredBytes = transferredBytes c, finUserArg = pUserArg c\<rparr>"

definition transferFinished :: "com_react \<Rightarrow> nat \<Rightarrow> tSdoComConState \<Rightarrow> com_sys \<Rightarrow> com_result" where
  "transferFinished cb i st s =
     (case pfnTransferFinished (ccon i s) of
        None \<Rightarrow> Some (kErrorOk, s)
      | Some f \<Rightarrow>
          let fin = finished_info i st (ccon i s);
              s = cupd i (\<lambda>c. c\<lparr>transferredBytes := 0, transferSize := 0, pfnTransferFinished := None\<rparr>) s
          in map_option (Pair kErrorOk) (cb (BackFinished f fin) (com_log (ComFinished f fin) s)))"

definition com_sendData ::
  "com_env \<Rightarrow> com_react \<Rightarrow> nat \<Rightarrow> nat \<Rightarrow> tAsySdoCom option \<Rightarrow> com_sys \<Rightarrow> com_result" where
  "com_sendData E cb i size_p fr s =
     (let h = sdoSeqConHdl (ccon i s);
          s = com_log (ComSend h size_p fr) s;
          (ret, more) = comSend E (comOuts s)
      in if more \<and> fr \<noteq> None
         then map_option (Pair ret) (cb (BackState h kAsySdoConStateFrameSended) s)
         else Some (ret, s))"

text \<open>An empty frame: the acknowledge of the sequence layer. A data frame: from a zeroed buffer.\<close>

definition com_sendAck :: "com_env \<Rightarrow> com_react \<Rightarrow> nat \<Rightarrow> com_sys \<Rightarrow> com_result" where
  "com_sendAck E cb i = com_sendData E cb i 0 None"

definition new_frame :: "tSdoComCon \<Rightarrow> tAsySdoCom" where
  "new_frame c = \<lparr>frTransactionId = transactionId c, flags = 0,
     commandId = service_code (sdoServiceType c), segmentSizeLe = 0, aCommandData = replicate 270 0\<rparr>"

definition com_sendFrame ::
  "com_env \<Rightarrow> com_react \<Rightarrow> nat \<Rightarrow> nat \<Rightarrow> tAsySdoCom \<Rightarrow> com_sys \<Rightarrow> com_result" where
  "com_sendFrame E cb i size_p fr s =
     (if size_p \<le> SDO_CMDL_HDR_FIXED_SIZE + length (aCommandData fr) then
        com_sendData E cb i size_p
          (Some (fr\<lparr>aCommandData := take (size_p - SDO_CMDL_HDR_FIXED_SIZE) (aCommandData fr)\<rparr>)) s
      else None)"


section \<open>Server\<close>

definition sendExpedited ::
  "com_env \<Rightarrow> com_react \<Rightarrow> nat \<Rightarrow> nat \<Rightarrow> nat \<Rightarrow> tAsySdoCom \<Rightarrow> com_sys \<Rightarrow> com_result" where
  "sendExpedited E cb i index_p subIndex_p fr s =
     (case obdRead E index_p subIndex_p (transferSize (ccon i s)) (comMem s) of (ret, bs) \<Rightarrow>
        if ret \<noteq> kErrorOk then Some (ret, s)
        else do {
          fr \<leftarrow> com_put 0 bs (fr\<lparr>segmentSizeLe := length bs mod 2 ^ 16\<rparr>);
          com_sendFrame E cb i (SDO_CMDL_HDR_FIXED_SIZE + length bs) fr
            (cupd i (\<lambda>c. c\<lparr>transferredBytes := wrap32 (transferredBytes c + length bs), transferSize := 0\<rparr>) s)
        })"

text \<open>The next \<open>n\<close> bytes leave: the pointer and both counters move on.\<close>

definition advance :: "nat \<Rightarrow> nat \<Rightarrow> com_sys \<Rightarrow> com_sys" where
  "advance i n = cupd i (\<lambda>c. c\<lparr>pData := ptr_add (pData c) n, transferSize := sub32 (transferSize c) n,
     transferredBytes := wrap32 (transferredBytes c + n)\<rparr>)"

definition sendSegment ::
  "com_env \<Rightarrow> com_react \<Rightarrow> nat \<Rightarrow> tAsySdoCom \<Rightarrow> com_sys \<Rightarrow> com_result" where
  "sendSegment E cb i fr s =
     (let c = ccon i s in
      if transferredBytes c = 0 then do {
        fr \<leftarrow> com_put 0 (bytes_le 4 (wrap32 (transferSize c + SDO_CMDL_HDR_VAR_SIZE)))
          (fr\<lparr>flags := flags fr OR SDO_CMDL_FLAG_SEGMINIT, segmentSizeLe := SDO_MAX_SEGMENT_SIZE\<rparr>);
        bs \<leftarrow> ptr_read (pData c) (SDO_MAX_SEGMENT_SIZE - SDO_CMDL_HDR_VAR_SIZE) (comMem s);
        fr \<leftarrow> com_put SDO_CMDL_HDR_VAR_SIZE bs fr;
        com_sendFrame E cb i (SDO_CMDL_HDR_FIXED_SIZE + SDO_MAX_SEGMENT_SIZE) fr
          (advance i (SDO_MAX_SEGMENT_SIZE - SDO_CMDL_HDR_VAR_SIZE) s)
      }
      else if SDO_MAX_SEGMENT_SIZE < transferSize c then do {
        bs \<leftarrow> ptr_read (pData c) SDO_MAX_SEGMENT_SIZE (comMem s);
        fr \<leftarrow> com_put 0 bs
          (fr\<lparr>flags := flags fr OR SDO_CMDL_FLAG_SEGMENTED, segmentSizeLe := SDO_MAX_SEGMENT_SIZE\<rparr>);
        com_sendFrame E cb i (SDO_CMDL_HDR_FIXED_SIZE + SDO_MAX_SEGMENT_SIZE) fr
          (advance i SDO_MAX_SEGMENT_SIZE s)
      }
      else if transferSize c = 0 \<and> sdoServiceType c \<noteq> kSdoServiceWriteByIndex then Some (kErrorOk, s)
      else do {
        bs \<leftarrow> ptr_read (pData c) (transferSize c) (comMem s);
        fr \<leftarrow> com_put 0 bs
          (fr\<lparr>flags := flags fr OR SDO_CMDL_FLAG_SEGMCOMPL, segmentSizeLe := transferSize c mod 2 ^ 16\<rparr>);
        com_sendFrame E cb i (SDO_CMDL_HDR_FIXED_SIZE + transferSize c) fr (advance i (transferSize c) s)
      })"

definition sendAbort :: "com_env \<Rightarrow> com_react \<Rightarrow> nat \<Rightarrow> tAsySdoCom \<Rightarrow> com_sys \<Rightarrow> com_result" where
  "sendAbort E cb i fr s = do {
     code \<leftarrow> ptr_code (ccon i s) (comMem s);
     fr \<leftarrow> com_put 0 (bytes_le 4 code)
       (fr\<lparr>flags := flags fr OR (SDO_CMDL_FLAG_RESPONSE OR SDO_CMDL_FLAG_ABORT), segmentSizeLe := 4\<rparr>);
     com_sendFrame E cb i (SDO_CMDL_HDR_FIXED_SIZE + 4) fr
       (cupd i (\<lambda>c. c\<lparr>transferredBytes := 4, transferSize := 0\<rparr>) s)
   }"

definition serverSendFrame ::
  "com_env \<Rightarrow> com_react \<Rightarrow> nat \<Rightarrow> nat \<Rightarrow> nat \<Rightarrow> tSdoComSendType \<Rightarrow> com_sys \<Rightarrow> com_result" where
  "serverSendFrame E cb i index_p subIndex_p sendType s =
     (let fr = new_frame (ccon i s);
          response = fr\<lparr>flags := flags fr OR SDO_CMDL_FLAG_RESPONSE\<rparr>
      in case sendType of
           kSdoComSendTypeReq \<Rightarrow> Some (kErrorSdoComInvalidSendType, s)
         | kSdoComSendTypeAckRes \<Rightarrow> com_sendFrame E cb i SDO_CMDL_HDR_FIXED_SIZE response s
         | kSdoComSendTypeRes \<Rightarrow>
             (case sdoTransferType (ccon i s) of
                kSdoTransExpedited \<Rightarrow> sendExpedited E cb i index_p subIndex_p response s
              | kSdoTransSegmented \<Rightarrow> sendSegment E cb i response s
              | kSdoTransAuto \<Rightarrow> Some (kErrorOk, s))
         | kSdoComSendTypeAbort \<Rightarrow> sendAbort E cb i fr s)"

text \<open>An abort whose code is in a local variable of the caller.\<close>

definition serverAbort ::
  "com_env \<Rightarrow> com_react \<Rightarrow> nat \<Rightarrow> nat \<Rightarrow> nat \<Rightarrow> nat \<Rightarrow> com_sys \<Rightarrow> com_result" where
  "serverAbort E cb i index_p subIndex_p code s =
     map_option (\<lambda>(ret, s). (ret, locals_end i s))
       (serverSendFrame E cb i index_p subIndex_p kSdoComSendTypeAbort (cupd i (\<lambda>c. c\<lparr>pData := LocalPtr code\<rparr>) s))"

definition serverInitReadByIndex ::
  "com_env \<Rightarrow> com_react \<Rightarrow> nat \<Rightarrow> tAsySdoCom \<Rightarrow> com_sys \<Rightarrow> com_result" where
  "serverInitReadByIndex E cb i fr s = do {
     index \<leftarrow> com_get 2 0 fr;
     subindex \<leftarrow> com_get 1 2 fr;
     case obdAccess E index subindex of (ret, accessType) \<Rightarrow>
     if ret = kErrorObdSubindexNotExist then
       serverAbort E cb i index subindex SDO_AC_SUB_INDEX_NOT_EXIST s
     else if ret \<noteq> kErrorOk then
       serverAbort E cb i index subindex SDO_AC_OBJECT_NOT_EXIST s
     else if accessType AND kObdAccRead = 0 \<and> accessType AND kObdAccConst = 0 then
       serverAbort E cb i index subindex
         (if accessType AND kObdAccWrite \<noteq> 0 then SDO_AC_READ_TO_WRITE_ONLY_OBJ
          else SDO_AC_UNSUPPORTED_ACCESS) s
     else do {
       let entrySize = obdSize E index subindex;
       let s = cupd i (\<lambda>c. c\<lparr>sdoServiceType := kSdoServiceReadByIndex,
             sdoTransferType := (if SDO_MAX_SEGMENT_SIZE < entrySize then kSdoTransSegmented
                                 else kSdoTransExpedited),
             pData := (if SDO_MAX_SEGMENT_SIZE < entrySize then obdPtr E index subindex else pData c),
             transferSize := entrySize, transferredBytes := 0\<rparr>) s;
       (ret, s) \<leftarrow> serverSendFrame E cb i index subindex kSdoComSendTypeRes s;
       if ret \<noteq> kErrorOk then serverAbort E cb i index subindex SDO_AC_GENERAL_ERROR s
       else Some (ret, s)
     }
   }"

text \<open>The label \<^verbatim>\<open>Abort\<close> of \<^verbatim>\<open>serverInitWriteByIndex\<close>, with the abort code stored before the jump.\<close>

definition serverWriteAbort ::
  "com_env \<Rightarrow> com_react \<Rightarrow> nat \<Rightarrow> nat \<Rightarrow> nat \<Rightarrow> nat \<Rightarrow> com_sys \<Rightarrow> com_result" where
  "serverWriteAbort E cb i index_p subIndex_p code s =
     map_option (\<lambda>(ret, s). (ret, cupd i (\<lambda>c. c\<lparr>lastAbortCode := 0, transferSize := 0\<rparr>) s))
       (serverSendFrame E cb i index_p subIndex_p kSdoComSendTypeAbort
         (cupd i (\<lambda>c. c\<lparr>lastAbortCode := code, pData := LastAbortPtr\<rparr>) s))"

definition write_abort_code :: "tOplkError \<Rightarrow> nat" where
  "write_abort_code ret =
     (case ret of
        kErrorObdAccessViolation \<Rightarrow> SDO_AC_UNSUPPORTED_ACCESS
      | kErrorObdValueLengthError \<Rightarrow> SDO_AC_DATA_TYPE_LENGTH_NOT_MATCH
      | kErrorObdValueTooHigh \<Rightarrow> SDO_AC_VALUE_RANGE_TOO_HIGH
      | kErrorObdValueTooLow \<Rightarrow> SDO_AC_VALUE_RANGE_TOO_LOW
      | _ \<Rightarrow> SDO_AC_GENERAL_ERROR)"

text \<open>Its two branches, for data that starts at \<open>src\<close> of the received frame.\<close>

definition serverWriteExpedited ::
  "com_env \<Rightarrow> com_react \<Rightarrow> nat \<Rightarrow> nat \<Rightarrow> nat \<Rightarrow> nat \<Rightarrow> tAsySdoCom \<Rightarrow> com_sys \<Rightarrow> com_result" where
  "serverWriteExpedited E cb i index subindex src fr s = do {
     (ret, m) \<leftarrow> obdWrite E index subindex (drop src (aCommandData fr)) (transferSize (ccon i s)) (comMem s);
     let s = s\<lparr>comMem := m\<rparr>;
     if ret = kErrorOk then do {
       (ret, s) \<leftarrow> serverSendFrame E cb i 0 0 kSdoComSendTypeAckRes s;
       Some (ret, cupd i (\<lambda>c. c\<lparr>transferSize := 0\<rparr>) s)
     }
     else serverWriteAbort E cb i index subindex (write_abort_code ret) s
   }"

definition serverWriteSegmented ::
  "com_env \<Rightarrow> com_react \<Rightarrow> nat \<Rightarrow> nat \<Rightarrow> nat \<Rightarrow> nat \<Rightarrow> tAsySdoCom \<Rightarrow> com_sys \<Rightarrow> com_result" where
  "serverWriteSegmented E cb i index subindex src fr s =
     (if obdSize E index subindex < transferSize (ccon i s) then
        serverWriteAbort E cb i index subindex SDO_AC_DATA_TYPE_LENGTH_TOO_HIGH s
      else
        let bytesToTransfer = sub32 (segmentSizeLe fr)
              (SDO_CMDL_HDR_FIXED_SIZE + SDO_CMDL_HDR_VAR_SIZE + SDO_CMDL_HDR_WRITEBYINDEX_SIZE);
            s = cupd i (\<lambda>c. c\<lparr>pData := obdPtr E index subindex\<rparr>) s
        in if pData (ccon i s) = NullPtr then
             serverWriteAbort E cb i index subindex SDO_AC_GENERAL_ERROR s
           else do {
             bs \<leftarrow> mem_read (aCommandData fr) src bytesToTransfer;
             m \<leftarrow> ptr_write (pData (ccon i s)) bs (comMem s);
             com_sendAck E cb i
               (cupd i (\<lambda>c. c\<lparr>transferredBytes := bytesToTransfer,
                   transferSize := sub32 (transferSize c) bytesToTransfer,
                   pData := ptr_add (pData c) bytesToTransfer\<rparr>) (s\<lparr>comMem := m\<rparr>))
           })"

definition serverWriteChecked ::
  "com_env \<Rightarrow> com_react \<Rightarrow> nat \<Rightarrow> nat \<Rightarrow> nat \<Rightarrow> nat \<Rightarrow> tAsySdoCom \<Rightarrow> com_sys \<Rightarrow> com_result" where
  "serverWriteChecked E cb i index subindex src fr s =
     (case obdAccess E index subindex of (ret, accessType) \<Rightarrow>
      if ret = kErrorObdSubindexNotExist then
        serverWriteAbort E cb i index subindex SDO_AC_SUB_INDEX_NOT_EXIST s
      else if ret \<noteq> kErrorOk then
        serverWriteAbort E cb i index subindex SDO_AC_OBJECT_NOT_EXIST s
      else if accessType AND kObdAccWrite = 0 then
        serverWriteAbort E cb i index subindex
          (if accessType AND kObdAccRead \<noteq> 0 then SDO_AC_WRITE_TO_READ_ONLY_OBJ
           else SDO_AC_UNSUPPORTED_ACCESS) s
      else
        let s = cupd i (\<lambda>c. c\<lparr>sdoServiceType := kSdoServiceWriteByIndex, transferredBytes := 0\<rparr>) s
        in if sdoTransferType (ccon i s) = kSdoTransExpedited
           then serverWriteExpedited E cb i index subindex src fr s
           else serverWriteSegmented E cb i index subindex src fr s)"

definition serverInitWriteByIndex ::
  "com_env \<Rightarrow> com_react \<Rightarrow> nat \<Rightarrow> tAsySdoCom \<Rightarrow> com_sys \<Rightarrow> com_result" where
  "serverInitWriteByIndex E cb i fr s =
     (if flags fr AND SDO_CMDL_FLAG_SEGM_MASK = SDO_CMDL_FLAG_SEGMINIT then do {
        index \<leftarrow> com_get 2 SDO_CMDL_HDR_VAR_SIZE fr;
        subindex \<leftarrow> com_get 1 (SDO_CMDL_HDR_VAR_SIZE + 2) fr;
        size_p \<leftarrow> com_get 4 0 fr;
        let header = SDO_CMDL_HDR_VAR_SIZE + SDO_CMDL_HDR_WRITEBYINDEX_SIZE;
        serverWriteChecked E cb i index subindex header fr
          (cupd i (\<lambda>c. c\<lparr>sdoTransferType := kSdoTransSegmented, transferSize := sub32 size_p header\<rparr>) s)
      }
      else if flags fr AND SDO_CMDL_FLAG_SEGM_MASK = SDO_CMDL_FLAG_EXPEDITED then do {
        index \<leftarrow> com_get 2 0 fr;
        subindex \<leftarrow> com_get 1 2 fr;
        serverWriteChecked E cb i index subindex SDO_CMDL_HDR_WRITEBYINDEX_SIZE fr
          (cupd i (\<lambda>c. c\<lparr>sdoTransferType := kSdoTransExpedited,
             transferSize := sub32 (segmentSizeLe fr) SDO_CMDL_HDR_WRITEBYINDEX_SIZE\<rparr>) s)
      }
      else Some (kErrorOk, s))"


section \<open>Client\<close>

definition client_protocol_ok :: "tSdoComCon \<Rightarrow> bool" where
  "client_protocol_ok c \<longleftrightarrow> sdoProtocolType c = kSdoTypeAsnd \<or> sdoProtocolType c = kSdoTypeUdp"

definition clientSendFrame ::
  "com_env \<Rightarrow> com_react \<Rightarrow> nat \<Rightarrow> nat \<Rightarrow> tAsySdoCom \<Rightarrow> com_sys \<Rightarrow> com_result" where
  "clientSendFrame E cb i size_p fr s =
     (if client_protocol_ok (ccon i s) then com_sendFrame E cb i size_p fr s
      else Some (kErrorSdoComUnsupportedProt, s))"

text \<open>The object that is accessed, in the data part of a frame.\<close>

definition target_bytes :: "tSdoComCon \<Rightarrow> byte list" where
  "target_bytes c = bytes_le 2 (targetIndex c) @ bytes_le 1 (targetSubIndex c)"

definition clientSendFirst :: "com_env \<Rightarrow> com_react \<Rightarrow> nat \<Rightarrow> com_sys \<Rightarrow> com_result" where
  "clientSendFirst E cb i s =
     (let c = ccon i s; fr = new_frame c in
      case sdoServiceType c of
        kSdoServiceReadByIndex \<Rightarrow> do {
          fr \<leftarrow> com_put 0 (target_bytes c) (fr\<lparr>segmentSizeLe := SDO_CMDL_HDR_READBYINDEX_SIZE\<rparr>);
          clientSendFrame E cb i (SDO_CMDL_HDR_FIXED_SIZE + SDO_CMDL_HDR_READBYINDEX_SIZE) fr
            (cupd i (\<lambda>c. c\<lparr>sdoTransferType := kSdoTransExpedited, transferredBytes := 1\<rparr>) s)
        }
      | kSdoServiceWriteByIndex \<Rightarrow>
          if SDO_MAX_SEGMENT_SIZE - SDO_CMDL_HDR_WRITEBYINDEX_SIZE < transferSize c then do {
            let payloadSize = SDO_MAX_SEGMENT_SIZE - (SDO_CMDL_HDR_VAR_SIZE + SDO_CMDL_HDR_WRITEBYINDEX_SIZE);
            fr \<leftarrow> com_put 0 (bytes_le 4 (wrap32 (transferSize c + SDO_CMDL_HDR_FIXED_SIZE)))
              (fr\<lparr>segmentSizeLe := SDO_MAX_SEGMENT_SIZE, flags := SDO_CMDL_FLAG_SEGMINIT\<rparr>);
            fr \<leftarrow> com_put SDO_CMDL_HDR_VAR_SIZE (target_bytes c) fr;
            bs \<leftarrow> ptr_read (pData c) payloadSize (comMem s);
            fr \<leftarrow> com_put (SDO_CMDL_HDR_VAR_SIZE + 4) bs fr;
            clientSendFrame E cb i (SDO_CMDL_HDR_FIXED_SIZE + SDO_MAX_SEGMENT_SIZE) fr
              (cupd i (\<lambda>c. c\<lparr>sdoTransferType := kSdoTransSegmented, pData := ptr_add (pData c) payloadSize,
                 transferSize := transferSize c - payloadSize, transferredBytes := payloadSize\<rparr>) s)
          }
          else do {
            fr \<leftarrow> com_put 0 (target_bytes c) fr;
            bs \<leftarrow> ptr_read (pData c) (transferSize c) (comMem s);
            fr \<leftarrow> com_put 4 bs
              (fr\<lparr>segmentSizeLe := (transferSize c + SDO_CMDL_HDR_WRITEBYINDEX_SIZE) mod 2 ^ 16\<rparr>);
            clientSendFrame E cb i (SDO_CMDL_HDR_FIXED_SIZE + (transferSize c + SDO_CMDL_HDR_WRITEBYINDEX_SIZE)) fr
              (cupd i (\<lambda>c. c\<lparr>sdoTransferType := kSdoTransExpedited, transferredBytes := transferSize c,
                 transferSize := 0\<rparr>) s)
          }
      | _ \<Rightarrow> Some (kErrorSdoComInvalidServiceType, s))"

definition clientSendNext :: "com_env \<Rightarrow> com_react \<Rightarrow> nat \<Rightarrow> com_sys \<Rightarrow> com_result" where
  "clientSendNext E cb i s =
     (let c = ccon i s; fr = new_frame c in
      if sdoServiceType c = kSdoServiceWriteByIndex \<and> sdoTransferType c = kSdoTransSegmented then
        let n = (if SDO_MAX_SEGMENT_SIZE < transferSize c then SDO_MAX_SEGMENT_SIZE else transferSize c);
            flag = (if SDO_MAX_SEGMENT_SIZE < transferSize c then SDO_CMDL_FLAG_SEGMENTED
                    else SDO_CMDL_FLAG_SEGMCOMPL)
        in do {
          bs \<leftarrow> ptr_read (pData c) n (comMem s);
          fr \<leftarrow> com_put 0 bs (fr\<lparr>segmentSizeLe := n, flags := flag\<rparr>);
          clientSendFrame E cb i (SDO_CMDL_HDR_FIXED_SIZE + n) fr (advance i n s)
        }
      else Some (kErrorOk, s))"

definition clientSend :: "com_env \<Rightarrow> com_react \<Rightarrow> nat \<Rightarrow> com_sys \<Rightarrow> com_result" where
  "clientSend E cb i s =
     (if transferSize (ccon i s) = 0 then Some (kErrorOk, s)
      else if transferredBytes (ccon i s) = 0 then clientSendFirst E cb i s
      else clientSendNext E cb i s)"

definition clientSendAbort ::
  "com_env \<Rightarrow> com_react \<Rightarrow> nat \<Rightarrow> nat \<Rightarrow> com_sys \<Rightarrow> com_result" where
  "clientSendAbort E cb i abortCode s = do {
     fr \<leftarrow> com_put 0 (bytes_le 4 abortCode)
       ((new_frame (ccon i s))\<lparr>flags := SDO_CMDL_FLAG_ABORT, segmentSizeLe := 4\<rparr>);
     (ret, s) \<leftarrow> clientSendFrame E cb i (SDO_CMDL_HDR_FIXED_SIZE + 4) fr
       (cupd i (\<lambda>c. c\<lparr>transferredBytes := 4, transferSize := 0, lastAbortCode := abortCode\<rparr>) s);
     Some (if ret = kErrorSdoSeqConnectionBusy then kErrorOk else ret, s)
   }"

text \<open>Abort with a code of the client's own, as \<^verbatim>\<open>clientProcessFrame\<close> does.\<close>

definition clientAbortTransfer ::
  "com_env \<Rightarrow> com_react \<Rightarrow> nat \<Rightarrow> nat \<Rightarrow> com_sys \<Rightarrow> com_result" where
  "clientAbortTransfer E cb i code s = do {
     (_, s) \<leftarrow> clientSendAbort E cb i code (cupd i (\<lambda>c. c\<lparr>lastAbortCode := code\<rparr>) s);
     transferFinished cb i kSdoComTransferTxAborted s
   }"

text \<open>The received bytes are stored where the data pointer points.\<close>

definition store_data ::
  "nat \<Rightarrow> nat \<Rightarrow> nat \<Rightarrow> tAsySdoCom \<Rightarrow> com_sys \<Rightarrow> com_sys option" where
  "store_data i src n fr s = do {
     bs \<leftarrow> mem_read (aCommandData fr) src n;
     m \<leftarrow> ptr_write (pData (ccon i s)) bs (comMem s);
     Some (s\<lparr>comMem := m\<rparr>)
   }"

definition clientReadFrame ::
  "com_env \<Rightarrow> com_react \<Rightarrow> nat \<Rightarrow> tAsySdoCom \<Rightarrow> com_sys \<Rightarrow> com_result" where
  "clientReadFrame E cb i fr s =
     (let seg = flags fr AND SDO_CMDL_FLAG_SEGM_MASK;
          room = transferSize (ccon i s);
          segmentSize = segmentSizeLe fr
      in if seg = SDO_CMDL_FLAG_EXPEDITED then do {
           let dataSize = min segmentSize room;
           s \<leftarrow> store_data i 0 dataSize fr s;
           Some (kErrorOk, cupd i (\<lambda>c. c\<lparr>transferSize := 0, transferredBytes := dataSize\<rparr>) s)
         }
         else if seg = SDO_CMDL_FLAG_SEGMINIT then do {
           total \<leftarrow> com_get 4 0 fr;
           let total = sub32 total SDO_CMDL_HDR_VAR_SIZE;
           if room < total then clientAbortTransfer E cb i SDO_AC_DATA_TYPE_LENGTH_TOO_HIGH s
           else do {
             let segmentSize = sub32 segmentSize SDO_CMDL_HDR_VAR_SIZE;
             s \<leftarrow> store_data i SDO_CMDL_HDR_VAR_SIZE segmentSize fr s;
             Some (kErrorOk, cupd i (\<lambda>c. c\<lparr>pData := ptr_add (pData c) segmentSize,
               transferredBytes := segmentSize, transferSize := sub32 total segmentSize\<rparr>) s)
           }
         }
         else if room < segmentSize then clientAbortTransfer E cb i SDO_AC_INVALID_BLOCK_SIZE s
         else do {
           s \<leftarrow> store_data i 0 segmentSize fr s;
           let s = advance i segmentSize s;
           Some (kErrorOk,
             if seg = SDO_CMDL_FLAG_SEGMCOMPL then cupd i (\<lambda>c. c\<lparr>transferSize := 0\<rparr>) s else s)
         })"

definition clientProcessFrame ::
  "com_env \<Rightarrow> com_react \<Rightarrow> nat \<Rightarrow> tAsySdoCom \<Rightarrow> com_sys \<Rightarrow> com_result" where
  "clientProcessFrame E cb i fr s =
     (let c = ccon i s in
      if transactionId c \<noteq> frTransactionId fr \<or> service_code (sdoServiceType c) \<noteq> commandId fr then
        if transferredBytes c \<noteq> 0 \<and> transferSize c \<noteq> 0
        then clientAbortTransfer E cb i SDO_AC_GENERAL_ERROR s else Some (kErrorOk, s)
      else if sdoServiceType c = kSdoServiceReadByIndex then clientReadFrame E cb i fr s
      else Some (kErrorOk, s))"


section \<open>State machine\<close>

definition com_state :: "nat \<Rightarrow> tSdoComState \<Rightarrow> com_sys \<Rightarrow> com_sys" where
  "com_state i st = cupd i (\<lambda>c. c\<lparr>sdoComState := st\<rparr>)"

text \<open>What ends a connection: the sequence layer's handle is deleted, the entry cleared.\<close>

definition com_deleteCon :: "com_env \<Rightarrow> nat \<Rightarrow> com_sys \<Rightarrow> tOplkError \<times> com_sys" where
  "com_deleteCon E i s =
     (let s = com_log (ComDeleteCon (sdoSeqConHdl (ccon i s))) s in (comDeleteCon E (comOuts s), s))"

definition closeServer :: "com_env \<Rightarrow> nat \<Rightarrow> com_sys \<Rightarrow> com_result" where
  "closeServer E i s =
     (let (ret, s) = com_deleteCon E i s in Some (ret, cupd i (\<lambda>_. zero_com_con) s))"

text \<open>The state after a request: idle when it is done, segmented transfer otherwise.\<close>

definition server_next_state :: "nat \<Rightarrow> com_sys \<Rightarrow> com_sys" where
  "server_next_state i s =
     (if transferSize (ccon i s) = 0
      then cupd i (\<lambda>c. c\<lparr>sdoComState := kSdoComStateIdle, lastAbortCode := 0\<rparr>) s
      else com_state i kSdoComStateServerSegmTrans s)"

definition com_processStateIdle ::
  "com_env \<Rightarrow> com_react \<Rightarrow> nat \<Rightarrow> tSdoComConEvent \<Rightarrow> tAsySdoCom option \<Rightarrow> com_sys \<Rightarrow> com_result" where
  "com_processStateIdle E cb i event recvd s =
     (case event of
        kSdoComConEventInitCon \<Rightarrow> Some (kErrorOk, com_state i kSdoComStateClientWaitInit s)
      | kSdoComConEventRec \<Rightarrow> do {
          fr \<leftarrow> recvd;
          if flags fr AND SDO_CMDL_FLAG_RESPONSE = 0 then
            (if flags fr AND SDO_CMDL_FLAG_ABORT = 0 then
               let s = cupd i (\<lambda>c. c\<lparr>transactionId := frTransactionId fr\<rparr>) s in
               if commandId fr = service_code kSdoServiceNIL then com_sendAck E cb i s
               else if commandId fr = service_code kSdoServiceReadByIndex then
                 map_option (\<lambda>(_, s). (kErrorOk, server_next_state i s)) (serverInitReadByIndex E cb i fr s)
               else if commandId fr = service_code kSdoServiceWriteByIndex then
                 map_option (\<lambda>(_, s). (kErrorOk, server_next_state i s)) (serverInitWriteByIndex E cb i fr s)
               else serverAbort E cb i 0 0 SDO_AC_UNKNOWN_COMMAND_SPECIFIER s
             else Some (kErrorOk, s))
          else Some (kErrorSdoComNotResponsible, s)
        }
      | kSdoComConEventInitError \<Rightarrow> closeServer E i s
      | kSdoComConEventTimeout \<Rightarrow> closeServer E i s
      | kSdoComConEventConClosed \<Rightarrow> closeServer E i s
      | _ \<Rightarrow> Some (kErrorOk, s))"

text \<open>A segment of a write request.\<close>

definition serverSegment ::
  "com_env \<Rightarrow> com_react \<Rightarrow> nat \<Rightarrow> tAsySdoCom \<Rightarrow> com_sys \<Rightarrow> com_result" where
  "serverSegment E cb i fr s =
     (let n = segmentSizeLe fr in
      if transferSize (ccon i s) < n then
        serverSendFrame E cb i 0 0 kSdoComSendTypeAbort
          (cupd i (\<lambda>c. c\<lparr>lastAbortCode := SDO_AC_DATA_TYPE_LENGTH_TOO_HIGH\<rparr>) s)
      else do {
        s \<leftarrow> (if lastAbortCode (ccon i s) = 0 then
                map_option (cupd i (\<lambda>c. c\<lparr>pData := ptr_add (pData c) n\<rparr>)) (store_data i 0 n fr s)
              else Some s);
        let s = cupd i (\<lambda>c. c\<lparr>transferredBytes := wrap32 (transferredBytes c + n),
              transferSize := transferSize c - n\<rparr>) s;
        if flags fr AND SDO_CMDL_FLAG_SEGM_MASK = SDO_CMDL_FLAG_SEGMCOMPL then
          let s = cupd i (\<lambda>c. c\<lparr>transferSize := 0\<rparr>) s
          in if lastAbortCode (ccon i s) = 0 then do {
               (_, s) \<leftarrow> serverSendFrame E cb i 0 0 kSdoComSendTypeRes s;
               Some (kErrorOk,
                 if transferSize (ccon i s) = 0
                 then cupd i (\<lambda>c. c\<lparr>sdoComState := kSdoComStateIdle, lastAbortCode := 0\<rparr>) s else s)
             }
             else do {
               (ret, s) \<leftarrow> serverSendFrame E cb i 0 0 kSdoComSendTypeAbort
                 (cupd i (\<lambda>c. c\<lparr>pData := LastAbortPtr\<rparr>) s);
               Some (ret, cupd i (\<lambda>c. c\<lparr>lastAbortCode := 0\<rparr>) s)
             }
        else com_sendAck E cb i s
      })"

definition processStateServerSegmTrans ::
  "com_env \<Rightarrow> com_react \<Rightarrow> nat \<Rightarrow> tSdoComConEvent \<Rightarrow> tAsySdoCom option \<Rightarrow> com_sys \<Rightarrow> com_result" where
  "processStateServerSegmTrans E cb i event recvd s =
     (let next =
        (if sdoServiceType (ccon i s) = kSdoServiceReadByIndex then do {
           (_, s) \<leftarrow> serverSendFrame E cb i 0 0 kSdoComSendTypeRes s;
           Some (kErrorOk,
             if transferSize (ccon i s) = 0
             then cupd i (\<lambda>c. c\<lparr>sdoComState := kSdoComStateIdle, lastAbortCode := 0\<rparr>) s else s)
         }
         else Some (kErrorOk, s))
      in case event of
        kSdoComConEventAckReceived \<Rightarrow> next
      | kSdoComConEventFrameSended \<Rightarrow> next
      | kSdoComConEventRec \<Rightarrow> do {
          fr \<leftarrow> recvd;
          if flags fr AND SDO_CMDL_FLAG_RESPONSE = 0 \<and> frTransactionId fr = transactionId (ccon i s) then
            (if flags fr AND SDO_CMDL_FLAG_ABORT \<noteq> 0 then
               Some (kErrorOk, cupd i (\<lambda>c. c\<lparr>transferSize := 0, transferredBytes := 0,
                 sdoComState := kSdoComStateIdle, lastAbortCode := 0\<rparr>) s)
             else if sdoServiceType (ccon i s) = kSdoServiceWriteByIndex then serverSegment E cb i fr s
             else Some (kErrorOk, s))
          else Some (kErrorSdoComNotResponsible, s)
        }
      | kSdoComConEventInitError \<Rightarrow> closeServer E i s
      | kSdoComConEventTimeout \<Rightarrow> closeServer E i s
      | kSdoComConEventConClosed \<Rightarrow> closeServer E i s
      | _ \<Rightarrow> Some (kErrorOk, s))"

text \<open>
  A client whose connection is gone: the handle is marked invalid and the application informed.
  \<open>handle_invalid\<close> is the test for the mark.
\<close>

definition handle_invalid :: "tSdoComCon \<Rightarrow> bool" where
  "handle_invalid c \<longleftrightarrow> sdoSeqConHdl c AND NOT SDO_SEQ_HANDLE_MASK = SDO_SEQ_INVALID_HDL"

definition invalidate_handle :: "com_env \<Rightarrow> nat \<Rightarrow> com_sys \<Rightarrow> com_sys" where
  "invalidate_handle E i s =
     cupd i (\<lambda>c. c\<lparr>sdoSeqConHdl := sdoSeqConHdl c OR SDO_SEQ_INVALID_HDL\<rparr>) (snd (com_deleteCon E i s))"

text \<open>
  Opening the connection in the sequence layer: the handle is stored if the layer stored one.
\<close>

definition com_initCon :: "com_env \<Rightarrow> nat \<Rightarrow> com_sys \<Rightarrow> tOplkError \<times> com_sys" where
  "com_initCon E i s =
     (if client_protocol_ok (ccon i s) then
        let s = com_log (ComInitCon (comNodeId (ccon i s)) (sdoProtocolType (ccon i s))) s;
            (ret, hdl) = comInitCon E (comOuts s)
        in (ret, case hdl of None \<Rightarrow> s | Some h \<Rightarrow> cupd i (\<lambda>c. c\<lparr>sdoSeqConHdl := h\<rparr>) s)
      else (kErrorSdoComUnsupportedProt, s))"

definition clientWaitInitEvent ::
  "com_env \<Rightarrow> com_react \<Rightarrow> nat \<Rightarrow> tSdoComConEvent \<Rightarrow> com_sys \<Rightarrow> com_result" where
  "clientWaitInitEvent E cb i event s =
     (let closed = (\<lambda>code. transferFinished cb i kSdoComTransferLowerLayerAbort
            (cupd i (\<lambda>c. c\<lparr>lastAbortCode := code\<rparr>) (invalidate_handle E i s)))
      in case event of
        kSdoComConEventConEstablished \<Rightarrow>
          let c = ccon i s in
          if 0 < transferSize c \<and> targetIndex c \<noteq> 0 then
            clientSend E cb i
              (com_state i (if sdoTransferType c = kSdoTransSegmented then kSdoComStateClientSegmTrans
                            else kSdoComStateClientConnected) s)
          else Some (kErrorOk, com_state i kSdoComStateClientConnected s)
      | kSdoComConEventAbort \<Rightarrow> do {
          code \<leftarrow> ptr_code (ccon i s) (comMem s);
          transferFinished cb i kSdoComTransferTxAborted (cupd i (\<lambda>c. c\<lparr>lastAbortCode := code\<rparr>) s)
        }
      | kSdoComConEventConClosed \<Rightarrow> closed 0
      | kSdoComConEventInitError \<Rightarrow> closed 0
      | kSdoComConEventTimeout \<Rightarrow> closed SDO_AC_TIME_OUT
      | kSdoComConEventTransferAbort \<Rightarrow> closed 0
      | _ \<Rightarrow> Some (kErrorOk, s))"

definition processStateClientWaitInit ::
  "com_env \<Rightarrow> com_react \<Rightarrow> nat \<Rightarrow> tSdoComConEvent \<Rightarrow> com_sys \<Rightarrow> com_result" where
  "processStateClientWaitInit E cb i event s =
     (let (ret, s) = (if handle_invalid (ccon i s) then com_initCon E i s else (kErrorOk, s))
      in if ret \<noteq> kErrorOk then Some (ret, s) else clientWaitInitEvent E cb i event s)"

text \<open>
  What the two states of a connected client have in common: the end of a transfer, and what
  happens when the application or the lower layer ends it.
\<close>

definition client_done ::
  "com_react \<Rightarrow> nat \<Rightarrow> tSdoComConState \<Rightarrow> nat \<Rightarrow> com_sys \<Rightarrow> com_result" where
  "client_done cb i st code s =
     transferFinished cb i st
       (cupd i (\<lambda>c. c\<lparr>transactionId := transactionId c + 1, lastAbortCode := code\<rparr>) s)"

definition client_lost ::
  "com_react \<Rightarrow> nat \<Rightarrow> nat \<Rightarrow> com_sys \<Rightarrow> com_result" where
  "client_lost cb i code s =
     transferFinished cb i kSdoComTransferLowerLayerAbort
       (cupd i (\<lambda>c. c\<lparr>sdoComState := kSdoComStateClientWaitInit, lastAbortCode := code\<rparr>) s)"


definition clientAbortEvent :: "com_env \<Rightarrow> com_react \<Rightarrow> nat \<Rightarrow> com_sys \<Rightarrow> com_sys option" where
  "clientAbortEvent E cb i s = do {
     code \<leftarrow> ptr_code (ccon i s) (comMem s);
     (_, s) \<leftarrow> clientSendAbort E cb i code s;
     Some s
   }"

text \<open>A response; \<open>leave\<close> is what the state changes when the transfer is over.\<close>

definition clientResponse ::
  "com_env \<Rightarrow> com_react \<Rightarrow> nat \<Rightarrow> (com_sys \<Rightarrow> com_sys) \<Rightarrow> tAsySdoCom \<Rightarrow> com_sys \<Rightarrow> com_result" where
  "clientResponse E cb i leave fr s =
     (if flags fr AND SDO_CMDL_FLAG_ABORT \<noteq> 0 then do {
        (_, s) \<leftarrow> com_sendAck E cb i s;
        code \<leftarrow> com_get 4 0 fr;
        client_done cb i kSdoComTransferRxAborted code (leave s)
      }
      else do {
        (ret, s) \<leftarrow> clientProcessFrame E cb i fr s;
        if transferSize (ccon i s) = 0 then do {
          (_, s) \<leftarrow> com_sendAck E cb i s;
          client_done cb i kSdoComTransferFinished 0 (leave s)
        }
        else Some (ret, s)
      })"

definition is_response :: "tAsySdoCom \<Rightarrow> tSdoComCon \<Rightarrow> bool" where
  "is_response fr c \<longleftrightarrow>
     flags fr AND SDO_CMDL_FLAG_RESPONSE \<noteq> 0 \<and> frTransactionId fr = transactionId c"

definition processStateClientConnected ::
  "com_env \<Rightarrow> com_react \<Rightarrow> nat \<Rightarrow> tSdoComConEvent \<Rightarrow> tAsySdoCom option \<Rightarrow> com_sys \<Rightarrow> com_result" where
  "processStateClientConnected E cb i event recvd s =
     (let go_on = do {
        (ret, s) \<leftarrow> clientSend E cb i s;
        let c = ccon i s;
        if ret \<noteq> kErrorOk then Some (ret, s)
        else if transferSize c = 0 \<and> transferredBytes c \<noteq> 0 \<and> sdoServiceType c = kSdoServiceReadByIndex then
          client_done cb i kSdoComTransferFinished 0 s
        else if sdoTransferType c = kSdoTransSegmented then Some (ret, com_state i kSdoComStateClientSegmTrans s)
        else Some (ret, s)
      }
      in case event of
        kSdoComConEventSendFirst \<Rightarrow> go_on
      | kSdoComConEventAckReceived \<Rightarrow> go_on
      | kSdoComConEventFrameSended \<Rightarrow> go_on
      | kSdoComConEventRec \<Rightarrow> do {
          fr \<leftarrow> recvd;
          if is_response fr (ccon i s) then clientResponse E cb i id fr s
          else Some (kErrorSdoComNotResponsible, s)
        }
      | kSdoComConEventConClosed \<Rightarrow> client_lost cb i 0 (invalidate_handle E i s)
      | kSdoComConEventAbort \<Rightarrow> do {
          s \<leftarrow> clientAbortEvent E cb i s;
          code \<leftarrow> ptr_code (ccon i s) (comMem s);
          client_done cb i kSdoComTransferTxAborted code s
        }
      | kSdoComConEventInitError \<Rightarrow> client_lost cb i SDO_AC_TIME_OUT (invalidate_handle E i s)
      | kSdoComConEventTimeout \<Rightarrow> client_lost cb i SDO_AC_TIME_OUT (invalidate_handle E i s)
      | kSdoComConEventTransferAbort \<Rightarrow> client_lost cb i SDO_AC_TIME_OUT s
      | _ \<Rightarrow> Some (kErrorOk, s))"

definition processStateClientSegmTransfer ::
  "com_env \<Rightarrow> com_react \<Rightarrow> nat \<Rightarrow> tSdoComConEvent \<Rightarrow> tAsySdoCom option \<Rightarrow> com_sys \<Rightarrow> com_result" where
  "processStateClientSegmTransfer E cb i event recvd s =
     (let connected = com_state i kSdoComStateClientConnected;
          go_on = do {
            (ret, s) \<leftarrow> clientSend E cb i s;
            if ret \<noteq> kErrorOk then Some (ret, s)
            else if transferSize (ccon i s) = 0 \<and> sdoServiceType (ccon i s) = kSdoServiceReadByIndex then
              client_done cb i kSdoComTransferFinished 0 (connected s)
            else Some (ret, s)
          }
      in case event of
        kSdoComConEventSendFirst \<Rightarrow> go_on
      | kSdoComConEventAckReceived \<Rightarrow> go_on
      | kSdoComConEventFrameSended \<Rightarrow> go_on
      | kSdoComConEventRec \<Rightarrow> do {
          fr \<leftarrow> recvd;
          if is_response fr (ccon i s) then clientResponse E cb i connected fr s else Some (kErrorOk, s)
        }
      | kSdoComConEventConClosed \<Rightarrow>
          client_done cb i kSdoComTransferFinished 0
            (com_state i kSdoComStateClientWaitInit (invalidate_handle E i s))
      | kSdoComConEventAbort \<Rightarrow> do {
          s \<leftarrow> clientAbortEvent E cb i s;
          code \<leftarrow> ptr_code (ccon i s) (comMem s);
          client_done cb i kSdoComTransferTxAborted code (connected s)
        }
      | kSdoComConEventInitError \<Rightarrow> client_lost cb i SDO_AC_TIME_OUT (invalidate_handle E i s)
      | kSdoComConEventTimeout \<Rightarrow> client_lost cb i SDO_AC_TIME_OUT (invalidate_handle E i s)
      | kSdoComConEventTransferAbort \<Rightarrow> client_lost cb i SDO_AC_TIME_OUT s
      | _ \<Rightarrow> Some (kErrorOk, s))"

definition com_processState ::
  "com_env \<Rightarrow> com_react \<Rightarrow> nat \<Rightarrow> tSdoComConEvent \<Rightarrow> tAsySdoCom option \<Rightarrow> com_sys \<Rightarrow> com_result" where
  "com_processState E cb i event recvd s =
     (case sdoComState (ccon i s) of
        kSdoComStateIdle \<Rightarrow> com_processStateIdle E cb i event recvd s
      | kSdoComStateServerSegmTrans \<Rightarrow> processStateServerSegmTrans E cb i event recvd s
      | kSdoComStateClientWaitInit \<Rightarrow> processStateClientWaitInit E cb i event s
      | kSdoComStateClientConnected \<Rightarrow> processStateClientConnected E cb i event recvd s
      | kSdoComStateClientSegmTrans \<Rightarrow> processStateClientSegmTransfer E cb i event recvd s)"

section \<open>Callbacks of the sequence layer\<close>

text \<open>The loop of \<^verbatim>\<open>searchConnection\<close> over the connections that are left, with its three variables.\<close>

fun searchLoop ::
  "com_env \<Rightarrow> com_react \<Rightarrow> u32 \<Rightarrow> tSdoComConEvent \<Rightarrow> tAsySdoCom option \<Rightarrow> nat list \<Rightarrow>
     tOplkError \<Rightarrow> nat option \<Rightarrow> com_sys \<Rightarrow> (tOplkError \<times> nat option \<times> com_sys) option" where
  "searchLoop E cb hdl event recvd [] ret hdlFree s = Some (ret, hdlFree, s)"
| "searchLoop E cb hdl event recvd (i # is) ret hdlFree s =
     (if sdoSeqConHdl (ccon i s) = hdl then do {
        (ret, s) \<leftarrow> com_processState E cb i event recvd s;
        searchLoop E cb hdl event recvd is ret hdlFree s
      }
      else if sdoSeqConHdl (ccon i s) = 0 \<and> hdlFree = None
      then searchLoop E cb hdl event recvd is ret (Some i) s
      else searchLoop E cb hdl event recvd is ret hdlFree s)"

definition searchConnection ::
  "com_env \<Rightarrow> com_react \<Rightarrow> u32 \<Rightarrow> tSdoComConEvent \<Rightarrow> tAsySdoCom option \<Rightarrow> com_sys \<Rightarrow> com_result" where
  "searchConnection E cb hdl event recvd s = do {
     (ret, hdlFree, s) \<leftarrow> searchLoop E cb hdl event recvd [0..<CONFIG_SDO_MAX_CONNECTION_COM]
       kErrorSdoComNotResponsible None s;
     if ret = kErrorSdoComNotResponsible then
       (case hdlFree of
          None \<Rightarrow> Some (kErrorSdoComNoFreeHandle, s)
        | Some i \<Rightarrow> com_processState E cb i event recvd (cupd i (\<lambda>c. c\<lparr>sdoSeqConHdl := hdl\<rparr>) s))
     else Some (ret, s)
   }"

definition com_receiveCb ::
  "com_env \<Rightarrow> com_react \<Rightarrow> u32 \<Rightarrow> tAsySdoCom \<Rightarrow> com_sys \<Rightarrow> com_result" where
  "com_receiveCb E cb hdl fr = searchConnection E cb hdl kSdoComConEventRec (Some fr)"

primrec state_event :: "tAsySdoConState \<Rightarrow> tSdoComConEvent" where
  "state_event kAsySdoConStateConnected = kSdoComConEventConEstablished"
| "state_event kAsySdoConStateInitError = kSdoComConEventInitError"
| "state_event kAsySdoConStateConClosed = kSdoComConEventConClosed"
| "state_event kAsySdoConStateAckReceived = kSdoComConEventAckReceived"
| "state_event kAsySdoConStateFrameSended = kSdoComConEventFrameSended"
| "state_event kAsySdoConStateTimeout = kSdoComConEventTimeout"
| "state_event kAsySdoConStateTransferAbort = kSdoComConEventTransferAbort"

definition conStateChangeCb ::
  "com_env \<Rightarrow> com_react \<Rightarrow> u32 \<Rightarrow> tAsySdoConState \<Rightarrow> com_sys \<Rightarrow> com_result" where
  "conStateChangeCb E cb hdl st = searchConnection E cb hdl (state_event st) None"

section \<open>Calls of the application\<close>

definition sdocom_addInstance :: "com_env \<Rightarrow> com_sys \<Rightarrow> tOplkError \<times> com_sys" where
  "sdocom_addInstance E s =
     (let s = com_log ComSeqAddInstance
            (s\<lparr>sdoComCon := replicate CONFIG_SDO_MAX_CONNECTION_COM zero_com_con\<rparr>)
      in (comAddInstance E (comOuts s), s))"

definition sdocom_init :: "com_env \<Rightarrow> com_sys \<Rightarrow> tOplkError \<times> com_sys" where
  "sdocom_init E s = sdocom_addInstance E s"

definition sdocom_delInstance :: "com_env \<Rightarrow> com_sys \<Rightarrow> tOplkError \<times> com_sys" where
  "sdocom_delInstance E s =
     (let s = com_log ComSeqDelInstance s in (comDelInstance E (comOuts s), s))"

text \<open>
  The search of \<^verbatim>\<open>sdocom_defineConnection\<close> over the connections that are left: the existing one
  (\<^term>\<open>Inl\<close>) or the last free one. The test of the node ID only sets a result that is overwritten.
\<close>

fun defineSearch :: "com_sys \<Rightarrow> nat \<Rightarrow> tSdoType \<Rightarrow> nat list \<Rightarrow> nat option \<Rightarrow> nat + nat option" where
  "defineSearch s targetNodeId protType [] freeHdl = Inr freeHdl"
| "defineSearch s targetNodeId protType (i # is) freeHdl =
     (let c = ccon i s in
      if sdoSeqConHdl c = 0 then defineSearch s targetNodeId protType is (Some i)
      else if comNodeId c = targetNodeId \<and> sdoProtocolType c = protType then Inl i
      else defineSearch s targetNodeId protType is freeHdl)"

definition sdocom_defineConnection ::
  "com_env \<Rightarrow> com_react \<Rightarrow> nat \<Rightarrow> tSdoType \<Rightarrow> com_sys \<Rightarrow> (tOplkError \<times> nat option \<times> com_sys) option" where
  "sdocom_defineConnection E cb targetNodeId protType s =
     (case defineSearch s targetNodeId protType [0..<CONFIG_SDO_MAX_CONNECTION_COM] None of
        Inl i \<Rightarrow> Some (kErrorSdoComHandleExists, Some i, s)
      | Inr None \<Rightarrow> Some (kErrorSdoComNoFreeHandle, None, s)
      | Inr (Some i) \<Rightarrow>
          let (ret, s) = com_initCon E i (cupd i (\<lambda>c. c\<lparr>sdoProtocolType := protType,
                comNodeId := targetNodeId, transactionId := 0\<rparr>) s)
          in if ret \<noteq> kErrorOk then Some (ret, Some i, s)
             else map_option (\<lambda>(ret, s). (ret, Some i, s))
               (com_processState E cb i kSdoComConEventInitCon None s))"

definition sdocom_initTransferByIndex ::
  "com_env \<Rightarrow> com_react \<Rightarrow> tSdoComTransParamByIndex \<Rightarrow> com_sys \<Rightarrow> com_result" where
  "sdocom_initTransferByIndex E cb par s =
     (let i = parConHdl par in
      if 0xFF \<le> parSubindex par \<or> parIndex par = 0 \<or> 0xFFFF < parIndex par \<or>
         parData par = NullPtr \<or> parDataSize par = 0 then Some (kErrorSdoComInvalidParam, s)
      else if CONFIG_SDO_MAX_CONNECTION_COM \<le> i then Some (kErrorSdoComInvalidHandle, s)
      else if sdoSeqConHdl (ccon i s) = 0 then Some (kErrorSdoComInvalidHandle, s)
      else if 0 < wrap32 (transferredBytes (ccon i s) + transferSize (ccon i s)) then
        Some (kErrorSdoComHandleBusy, s)
      else com_processState E cb i kSdoComConEventSendFirst None
        (cupd i (\<lambda>c. c\<lparr>pfnTransferFinished := parFinishedCb par, pUserArg := parUserArg par,
           sdoServiceType := (if parAccessType par = kSdoAccessTypeRead then kSdoServiceReadByIndex
                              else kSdoServiceWriteByIndex),
           pData := parData par, transferSize := parDataSize par, transferredBytes := 0,
           lastAbortCode := 0, sdoTransferType := kSdoTransAuto,
           targetIndex := parIndex par, targetSubIndex := parSubindex par\<rparr>)
          (if parFinishedCb par = None then s else com_log (ComAccepted i) s)))"

definition sdocom_undefineConnection :: "com_env \<Rightarrow> nat \<Rightarrow> com_sys \<Rightarrow> tOplkError \<times> com_sys" where
  "sdocom_undefineConnection E i s =
     (if CONFIG_SDO_MAX_CONNECTION_COM \<le> i then (kErrorSdoComInvalidHandle, s)
      else
        let c = ccon i s;
            delete = \<not> handle_invalid c \<and> sdoSeqConHdl c \<noteq> 0
        in if delete \<and> \<not> client_protocol_ok c then (kErrorSdoComUnsupportedProt, s)
           else
             let (ret, s) = (if delete then com_deleteCon E i s else (kErrorOk, s))
             in (ret, cupd i (\<lambda>_. zero_com_con) s))"

text \<open>The state for the application; a field that is not set keeps what its structure held.\<close>

definition sdocom_getState ::
  "nat \<Rightarrow> tSdoComFinished \<Rightarrow> com_sys \<Rightarrow> tOplkError \<times> tSdoComFinished \<times> com_sys" where
  "sdocom_getState i fin s =
     (if CONFIG_SDO_MAX_CONNECTION_COM \<le> i \<or> sdoSeqConHdl (ccon i s) = 0
      then (kErrorSdoComInvalidHandle, fin, s)
      else
        let c = ccon i s;
            st = (if lastAbortCode c \<noteq> 0 then kSdoComTransferRxAborted
                  else if handle_invalid c then kSdoComTransferLowerLayerAbort
                  else if sdoComState c = kSdoComStateClientWaitInit then kSdoComTransferNotActive
                  else if transferSize c = 0 then kSdoComTransferFinished
                  else finConState fin)
        in (kErrorOk, finished_info i st c, cupd i (\<lambda>c. c\<lparr>lastAbortCode := 0\<rparr>) s))"

definition sdocom_getNodeId :: "nat \<Rightarrow> com_sys \<Rightarrow> nat" where
  "sdocom_getNodeId i s =
     (if CONFIG_SDO_MAX_CONNECTION_COM \<le> i \<or> sdoSeqConHdl (ccon i s) = 0 then 0
      else comNodeId (ccon i s))"

definition sdocom_abortTransfer ::
  "com_env \<Rightarrow> com_react \<Rightarrow> nat \<Rightarrow> nat \<Rightarrow> com_sys \<Rightarrow> com_result" where
  "sdocom_abortTransfer E cb i abortCode s =
     (if CONFIG_SDO_MAX_CONNECTION_COM \<le> i then Some (kErrorSdoComInvalidHandle, s)
      else if sdoSeqConHdl (ccon i s) = 0 then Some (kErrorSdoComInvalidHandle, s)
      else map_option (\<lambda>(ret, s). (ret, locals_end i s))
        (com_processState E cb i kSdoComConEventAbort None (cupd i (\<lambda>c. c\<lparr>pData := LocalPtr abortCode\<rparr>) s)))"

definition com_api :: "com_env \<Rightarrow> com_react \<Rightarrow> com_call \<Rightarrow> com_sys \<Rightarrow> com_sys option" where
  "com_api E cb call s =
     (case call of
        DefineConnection node prot \<Rightarrow>
          map_option (\<lambda>(_, _, s). s) (sdocom_defineConnection E cb node prot s)
      | InitTransferByIndex par \<Rightarrow> map_option snd (sdocom_initTransferByIndex E cb par s)
      | UndefineConnection i \<Rightarrow> Some (snd (sdocom_undefineConnection E i s))
      | GetState i fin \<Rightarrow> (case sdocom_getState i fin s of (_, _, s) \<Rightarrow> Some s)
      | AbortTransfer i code \<Rightarrow> map_option snd (sdocom_abortTransfer E cb i code s))"

fun com_api_run :: "com_env \<Rightarrow> com_react \<Rightarrow> com_call list \<Rightarrow> com_sys \<Rightarrow> com_sys option" where
  "com_api_run E cb [] s = Some s"
| "com_api_run E cb (call # calls) s = Option.bind (com_api E cb call s) (com_api_run E cb calls)"

text \<open>
  The reaction to a callback: a state reported by the sequence layer is handled here, the
  application's callback makes the calls of the environment. These calls lead to callbacks again.
  The number \<open>n\<close> is a bound of the environment: a callback at level \<open>n\<close> returns without a call. Every
  run of the program whose callbacks nest at most \<open>n\<close> deep is a run of the model with this \<open>n\<close>, so a
  theorem for all \<open>n\<close> covers every run that returns.
\<close>

primrec com_react :: "nat \<Rightarrow> com_env \<Rightarrow> com_react" where
  "com_react 0 E back s = Some s"
| "com_react (Suc n) E back s =
     (case back of
        BackState hdl st \<Rightarrow> map_option snd (conStateChangeCb E (com_react n E) hdl st s)
      | BackFinished f fin \<Rightarrow> com_api_run E (com_react n E) (appCalls E f fin (comOuts s)) s)"

text \<open>Everything that happens to the module: calls of the application and of the sequence layer.\<close>

datatype com_op =
    ComApi com_call
  | ComReceive u32 tAsySdoCom
  | ComConState u32 tAsySdoConState

definition com_step :: "nat \<Rightarrow> com_env \<Rightarrow> com_op \<Rightarrow> com_sys \<Rightarrow> com_sys option" where
  "com_step n E op s =
     (case op of
        ComApi call \<Rightarrow> com_api E (com_react n E) call s
      | ComReceive hdl fr \<Rightarrow> map_option snd (com_receiveCb E (com_react n E) hdl fr s)
      | ComConState hdl st \<Rightarrow> map_option snd (conStateChangeCb E (com_react n E) hdl st s))"


section \<open>Counters and reports\<close>

text \<open>
  The invariant: the counters of every connection are 32-bit numbers, and the application is
  informed at most once about each transfer it gave a callback for.
\<close>

definition reports :: "nat \<Rightarrow> com_out list \<Rightarrow> nat" where
  "reports i outs = length (filter (\<lambda>x. case x of ComFinished _ fin \<Rightarrow> finConHdl fin = i | _ \<Rightarrow> False) outs)"

definition accepted :: "nat \<Rightarrow> com_out list \<Rightarrow> nat" where
  "accepted i outs = length (filter (\<lambda>x. case x of ComAccepted j \<Rightarrow> j = i | _ \<Rightarrow> False) outs)"

definition ptr_typed :: "com_ptr \<Rightarrow> bool" where
  "ptr_typed p = (case p of LocalPtr v \<Rightarrow> v < 2 ^ 32 | _ \<Rightarrow> True)"

definition con_typed :: "tSdoComCon \<Rightarrow> bool" where
  "con_typed c \<longleftrightarrow> transferSize c < 2 ^ 32 \<and> transferredBytes c < 2 ^ 32 \<and> lastAbortCode c < 2 ^ 32 \<and>
     ptr_typed (pData c)"

definition com_inv :: "com_sys \<Rightarrow> bool" where
  "com_inv s \<longleftrightarrow> length (sdoComCon s) = CONFIG_SDO_MAX_CONNECTION_COM \<and> list_all con_typed (sdoComCon s) \<and>
     (\<forall>i < CONFIG_SDO_MAX_CONNECTION_COM.
        reports i (comOuts s) + (if pfnTransferFinished (ccon i s) = None then 0 else 1)
          \<le> accepted i (comOuts s))"

definition call_typed :: "com_call \<Rightarrow> bool" where
  "call_typed call =
     (case call of
        InitTransferByIndex par \<Rightarrow> parDataSize par < 2 ^ 32 \<and> ptr_typed (parData par)
      | AbortTransfer _ code \<Rightarrow> code < 2 ^ 32
      | _ \<Rightarrow> True)"

definition com_env_typed :: "com_env \<Rightarrow> bool" where
  "com_env_typed E \<longleftrightarrow> (\<forall>i j. obdSize E i j < 2 ^ 32 \<and> ptr_typed (obdPtr E i j)) \<and>
     (\<forall>f fin outs. list_all call_typed (appCalls E f fin outs))"

primrec op_typed :: "com_op \<Rightarrow> bool" where
  "op_typed (ComApi call) \<longleftrightarrow> call_typed call"
| "op_typed (ComReceive hdl fr) \<longleftrightarrow> segmentSizeLe fr < 2 ^ 16"
| "op_typed (ComConState hdl st) \<longleftrightarrow> True"

definition keeps :: "('a \<times> com_sys) option \<Rightarrow> bool" where
  "keeps m \<longleftrightarrow> (\<forall>x s. m = Some (x, s) \<longrightarrow> com_inv s)"

definition react_keeps :: "com_react \<Rightarrow> bool" where
  "react_keeps cb \<longleftrightarrow> (\<forall>b s s'. com_inv s \<longrightarrow> cb b s = Some s' \<longrightarrow> com_inv s')"

lemma keeps_simps [simp]: "keeps None" "keeps (Some (x, s)) \<longleftrightarrow> com_inv s"
  by (auto simp: keeps_def)

lemma keeps_bind: "keeps m \<Longrightarrow> (\<And>x s. com_inv s \<Longrightarrow> keeps (f (x, s))) \<Longrightarrow> keeps (Option.bind m f)"
  by (cases m) (auto simp: keeps_def)

lemma keeps_pure:
  fixes m :: "'x option"
  shows "(\<And>x. keeps (f x)) \<Longrightarrow> keeps (Option.bind m f)"
  by (cases m) auto

lemmas keeps_pures =
  keeps_pure [where 'x = "byte list"] keeps_pure [where 'x = nat] keeps_pure [where 'x = tAsySdoCom]
  keeps_pure [where 'x = com_mem] keeps_pure [where 'x = "tOplkError \<times> com_mem"]

lemma keeps_map: "keeps m \<Longrightarrow> (\<And>x s. com_inv s \<Longrightarrow> com_inv (snd (f (x, s)))) \<Longrightarrow> keeps (map_option f m)"
  by (cases m) (auto simp: keeps_def, metis snd_conv)

lemma keeps_react: "react_keeps cb \<Longrightarrow> com_inv s \<Longrightarrow> keeps (map_option (Pair ret) (cb b s))"
  by (cases "cb b s") (auto simp: react_keeps_def)

text \<open>Changes of one connection, and entries of the trace.\<close>

lemma ccon_cupd: "ccon j (cupd i f s) = (if j = i \<and> i < length (sdoComCon s) then f (ccon i s) else ccon j s)"
  by (cases "j = i"; cases "i < length (sdoComCon s)") (simp_all add: ccon_def cupd_def list_update_beyond)

lemma cupd_fields [simp]: "comOuts (cupd i f s) = comOuts s" "comMem (cupd i f s) = comMem s"
  "length (sdoComCon (cupd i f s)) = length (sdoComCon s)"
  by (simp_all add: cupd_def)

lemma com_log_fields [simp]: "ccon i (com_log out s) = ccon i s" "sdoComCon (com_log out s) = sdoComCon s"
  "comMem (com_log out s) = comMem s" "comOuts (com_log out s) = comOuts s @ [out]"
  by (simp_all add: com_log_def ccon_def)

lemma mem_update_fields [simp]: "ccon i (s\<lparr>comMem := m\<rparr>) = ccon i s"
  by (simp add: ccon_def)

lemma com_inv_con: "com_inv s \<Longrightarrow> i < CONFIG_SDO_MAX_CONNECTION_COM \<Longrightarrow> con_typed (ccon i s)"
  by (simp add: com_inv_def list_all_length ccon_def)

lemma com_inv_cupd:
  assumes "com_inv s"
    and "con_typed (ccon i s) \<Longrightarrow> con_typed (f (ccon i s))"
    and "pfnTransferFinished (f (ccon i s)) = None \<or> pfnTransferFinished (f (ccon i s)) = pfnTransferFinished (ccon i s)"
  shows "com_inv (cupd i f s)"
proof (cases "i < CONFIG_SDO_MAX_CONNECTION_COM")
  case True
  have typed: "con_typed (f (ccon i s))" using com_inv_con [OF assms(1) True] assms(2) by simp
  then have "list_all con_typed ((sdoComCon s)[i := f (ccon i s)])"
    using assms(1) by (auto simp: com_inv_def list_all_iff dest: set_update_subset_insert [THEN subsetD])
  moreover have "reports j (comOuts s) + (if pfnTransferFinished (ccon j (cupd i f s)) = None then 0 else 1)
      \<le> accepted j (comOuts s)" if "j < CONFIG_SDO_MAX_CONNECTION_COM" for j
  proof -
    have "reports j (comOuts s) + (if pfnTransferFinished (ccon j s) = None then 0 else 1) \<le> accepted j (comOuts s)"
      using assms(1) that by (simp add: com_inv_def)
    then show ?thesis using assms(3) by (auto simp: ccon_cupd split: if_splits)
  qed
  ultimately show ?thesis using assms(1) by (simp add: com_inv_def cupd_def [of i f s, THEN arg_cong [of _ _ sdoComCon]])
next
  case False
  then have "cupd i f s = s" using assms(1) by (simp add: com_inv_def cupd_def list_update_beyond)
  then show ?thesis using assms(1) by simp
qed


lemma word_bounds [simp]: "wrap32 n < 4294967296" "sub32 m n < 4294967296"
  using wrap32_less [of n] sub32_less [of m n] by simp_all

lemma reports_append: "reports i (outs @ [out]) =
    reports i outs + (case out of ComFinished _ fin \<Rightarrow> if finConHdl fin = i then 1 else 0 | _ \<Rightarrow> 0)"
  by (simp add: reports_def split: com_out.split)

lemma accepted_append: "accepted i (outs @ [out]) =
    accepted i outs + (case out of ComAccepted j \<Rightarrow> if j = i then 1 else 0 | _ \<Rightarrow> 0)"
  by (simp add: accepted_def split: com_out.split)

lemma com_inv_mem: "com_inv (s\<lparr>comMem := m\<rparr>) \<longleftrightarrow> com_inv s"
  by (simp add: com_inv_def ccon_def)

lemma com_inv_log:
  "(case out of ComFinished _ _ \<Rightarrow> False | _ \<Rightarrow> True) \<Longrightarrow> com_inv s \<Longrightarrow> com_inv (com_log out s)"
  by (auto simp: com_inv_def reports_append accepted_append add_increasing2 split: com_out.splits)

lemma com_inv_type:
  assumes "com_inv s" and "con_typed (ccon i s) \<Longrightarrow> con_typed (f (ccon i s))"
    and "pfnTransferFinished (f (ccon i s)) = pfnTransferFinished (ccon i s)"
  shows "com_inv (cupd i f s)"
  using assms by (intro com_inv_cupd) simp_all

lemma keeps_finished:
  assumes "react_keeps cb" and "com_inv s"
  shows "keeps (transferFinished cb i st s)"
proof (cases "pfnTransferFinished (ccon i s)")
  case (Some f)
  define s1 where "s1 = cupd i (\<lambda>c. c\<lparr>transferredBytes := 0, transferSize := 0, pfnTransferFinished := None\<rparr>) s"
  have s1: "com_inv s1" unfolding s1_def using assms(2)
    by (intro com_inv_cupd) (simp_all add: con_typed_def)
  have "com_inv (com_log (ComFinished f (finished_info i st (ccon i s))) s1)"
  proof -
    have "reports j (comOuts s) + 1 \<le> accepted j (comOuts s)" if "j = i" "i < CONFIG_SDO_MAX_CONNECTION_COM" for j
      using assms(2) that Some by (force simp: com_inv_def)
    moreover have "length (sdoComCon s) = CONFIG_SDO_MAX_CONNECTION_COM" using assms(2) by (simp add: com_inv_def)
    ultimately show ?thesis using s1
      by (auto simp: com_inv_def reports_append accepted_append finished_info_def s1_def ccon_cupd)
  qed
  then show ?thesis using Some assms(1)
    unfolding transferFinished_def by (simp add: Let_def s1_def [symmetric] keeps_react)
qed (simp add: transferFinished_def assms(2))

lemma keeps_sendData:
  "react_keeps cb \<Longrightarrow> com_inv s \<Longrightarrow> keeps (com_sendData E cb i n fr s)"
  by (simp add: com_sendData_def Let_def keeps_react com_inv_log split: prod.split)

lemma keeps_sendAck: "react_keeps cb \<Longrightarrow> com_inv s \<Longrightarrow> keeps (com_sendAck E cb i s)"
  by (simp add: com_sendAck_def keeps_sendData)

lemma keeps_sendFrame: "react_keeps cb \<Longrightarrow> com_inv s \<Longrightarrow> keeps (com_sendFrame E cb i n fr s)"
  by (simp add: com_sendFrame_def keeps_sendData)

lemma con_typed_simps [simp]:
  "con_typed (c\<lparr>sdoComState := a\<rparr>) = con_typed c" "con_typed (c\<lparr>transactionId := b\<rparr>) = con_typed c"
  "con_typed (c\<lparr>sdoTransferType := t\<rparr>) = con_typed c"
  "con_typed (c\<lparr>sdoServiceType := v\<rparr>) = con_typed c" "con_typed (c\<lparr>sdoSeqConHdl := h\<rparr>) = con_typed c"
  "con_typed zero_com_con"
  by (simp_all add: con_typed_def zero_com_con_def ptr_typed_def)

lemma ptr_typed_simps [simp]: "ptr_typed NullPtr" "ptr_typed (DataPtr b off)" "ptr_typed LastAbortPtr"
  "ptr_typed DanglingPtr" "ptr_typed (LocalPtr v) \<longleftrightarrow> v < 2 ^ 32"
  by (simp_all add: ptr_typed_def)

lemma ptr_typed_add [simp]: "ptr_typed p \<Longrightarrow> ptr_typed (ptr_add p n)"
  by (simp add: ptr_typed_def ptr_add_def split: com_ptr.splits)

lemma con_typed_ptr [simp]: "con_typed c \<Longrightarrow> con_typed (c\<lparr>pData := p\<rparr>) \<longleftrightarrow> ptr_typed p"
  by (simp add: con_typed_def)

lemma advance_inv: "com_inv s \<Longrightarrow> com_inv (advance i n s)"
  unfolding advance_def by (rule com_inv_type) (simp_all add: con_typed_def)

lemma com_state_inv: "com_inv s \<Longrightarrow> com_inv (com_state i st s)"
  unfolding com_state_def by (rule com_inv_type) simp_all

lemma locals_end_inv: "com_inv s \<Longrightarrow> com_inv (locals_end i s)"
  unfolding locals_end_def by (rule com_inv_type) (simp_all split: com_ptr.split)

lemma com_get_less: "com_get n off fr = Some v \<Longrightarrow> v < 256 ^ n"
  using value_le_less by (auto simp: com_get_def dest!: mem_read_length)

lemmas keeps_intros = keeps_bind keeps_pures keeps_map keeps_finished keeps_sendData keeps_sendAck
  keeps_sendFrame advance_inv com_state_inv locals_end_inv

lemma keeps_serverSendFrame:
  assumes "react_keeps cb" and "com_inv s"
  shows "keeps (serverSendFrame E cb i idx sub st s)"
proof -
  have expedited: "keeps (sendExpedited E cb i idx sub fr s)" for fr
    unfolding sendExpedited_def using assms
    by (auto split: prod.split intro!: keeps_pures keeps_sendFrame com_inv_type simp: con_typed_def)
  have segment: "keeps (sendSegment E cb i fr s)" for fr
    unfolding sendSegment_def Let_def using assms
    by (auto intro!: keeps_pures keeps_sendFrame advance_inv)
  have abort: "keeps (sendAbort E cb i fr s)" for fr
    unfolding sendAbort_def using assms
    by (auto intro!: keeps_pures keeps_sendFrame com_inv_type simp: con_typed_def)
  show ?thesis
    unfolding serverSendFrame_def Let_def using assms expedited segment abort
    by (auto split: tSdoComSendType.split tSdoTransType.split intro!: keeps_sendFrame)
qed

lemma keeps_serverAbort:
  "react_keeps cb \<Longrightarrow> com_inv s \<Longrightarrow> code < 2 ^ 32 \<Longrightarrow> keeps (serverAbort E cb i idx sub code s)"
  unfolding serverAbort_def
  by (auto intro!: keeps_map keeps_serverSendFrame com_inv_type locals_end_inv)

lemma keeps_serverWriteAbort:
  "react_keeps cb \<Longrightarrow> com_inv s \<Longrightarrow> code < 2 ^ 32 \<Longrightarrow> keeps (serverWriteAbort E cb i idx sub code s)"
  unfolding serverWriteAbort_def
  by (auto intro!: keeps_map keeps_serverSendFrame com_inv_type simp: con_typed_def)


lemma keeps_serverRead:
  assumes "react_keeps cb" and "com_inv s" and "com_env_typed E"
  shows "keeps (serverInitReadByIndex E cb i fr s)"
proof -
  have start: "com_inv (cupd i (\<lambda>c. c\<lparr>sdoServiceType := v, sdoTransferType := t c, pData := obdPtr E idx sub,
      transferSize := obdSize E idx sub, transferredBytes := 0\<rparr>) s)"
    "com_inv (cupd i (\<lambda>c. c\<lparr>sdoServiceType := v, sdoTransferType := t c,
      transferSize := obdSize E idx sub, transferredBytes := 0\<rparr>) s)" for v t idx sub
    using assms(2, 3) by (auto intro!: com_inv_type simp: con_typed_def com_env_typed_def)
  show ?thesis
    unfolding serverInitReadByIndex_def Let_def using assms(1, 2)
    by (auto split: prod.split intro!: keeps_pures keeps_bind keeps_serverSendFrame keeps_serverAbort start)
qed

lemma obd_typed: "com_env_typed E \<Longrightarrow> ptr_typed (obdPtr E i j)" "com_env_typed E \<Longrightarrow> obdSize E i j < 2 ^ 32"
  by (simp_all add: com_env_typed_def)

lemma keeps_serverWriteExpedited:
  "react_keeps cb \<Longrightarrow> com_inv s \<Longrightarrow> keeps (serverWriteExpedited E cb i idx sub src fr s)"
  unfolding serverWriteExpedited_def Let_def
  by (auto split: prod.split tOplkError.split intro!: keeps_pures keeps_bind keeps_serverSendFrame
      keeps_serverWriteAbort com_inv_type simp: com_inv_mem con_typed_def write_abort_code_def)

lemma keeps_serverWriteSegmented:
  assumes "react_keeps cb" and "com_inv s" and "com_env_typed E"
  shows "keeps (serverWriteSegmented E cb i idx sub src fr s)"
  unfolding serverWriteSegmented_def Let_def using assms
  by (auto intro!: keeps_pures keeps_sendAck keeps_serverWriteAbort com_inv_type
      simp: com_inv_mem con_typed_def obd_typed)

lemma keeps_serverWriteChecked:
  assumes "react_keeps cb" and "com_inv s" and "com_env_typed E"
  shows "keeps (serverWriteChecked E cb i idx sub src fr s)"
proof -
  have start: "com_inv (cupd i (\<lambda>c. c\<lparr>sdoServiceType := v, transferredBytes := 0\<rparr>) s)" for v
    using assms(2) by (intro com_inv_type) (simp_all add: con_typed_def)
  show ?thesis
    unfolding serverWriteChecked_def Let_def using assms
    by (auto split: prod.split intro!: keeps_serverWriteAbort keeps_serverWriteExpedited
        keeps_serverWriteSegmented start)
qed

lemma keeps_serverWrite:
  assumes "react_keeps cb" and "com_inv s" and "com_env_typed E"
  shows "keeps (serverInitWriteByIndex E cb i fr s)"
proof -
  have start: "com_inv (cupd i (\<lambda>c. c\<lparr>sdoTransferType := t, transferSize := sub32 x y\<rparr>) s)" for t x y
    using assms(2) by (intro com_inv_type) (simp_all add: con_typed_def)
  show ?thesis
    unfolding serverInitWriteByIndex_def Let_def using assms
    by (auto intro!: keeps_pures keeps_serverWriteChecked start)
qed

lemma keeps_clientSendFrame:
  "react_keeps cb \<Longrightarrow> com_inv s \<Longrightarrow> keeps (clientSendFrame E cb i n fr s)"
  by (simp add: clientSendFrame_def keeps_sendFrame)

lemma keeps_clientSend:
  assumes "react_keeps cb" and "com_inv s"
  shows "keeps (clientSend E cb i s)"
proof -
  have upd: "com_inv (cupd i (\<lambda>c. c\<lparr>sdoTransferType := t, transferredBytes := Suc 0\<rparr>) s)"
    "com_inv (cupd i (\<lambda>c. c\<lparr>sdoTransferType := t, pData := ptr_add (pData c) n, transferSize := transferSize c - m,
       transferredBytes := 248\<rparr>) s)"
    "com_inv (cupd i (\<lambda>c. c\<lparr>sdoTransferType := t, transferredBytes := transferSize c, transferSize := 0\<rparr>) s)"
    for t n m
    using assms(2) by (auto intro!: com_inv_type simp: con_typed_def less_imp_diff_less)
  have "keeps (clientSendFirst E cb i s)"
    unfolding clientSendFirst_def Let_def using assms
    by (auto split: tSdoServiceType.split intro!: keeps_pures keeps_clientSendFrame upd)
  moreover have "keeps (clientSendNext E cb i s)"
    unfolding clientSendNext_def Let_def using assms
    by (auto intro!: keeps_pures keeps_clientSendFrame advance_inv)
  ultimately show ?thesis using assms(2) by (simp add: clientSend_def)
qed

lemma keeps_clientSendAbort:
  assumes "react_keeps cb" and "com_inv s" and "code < 2 ^ 32"
  shows "keeps (clientSendAbort E cb i code s)"
proof -
  have "com_inv (cupd i (\<lambda>c. c\<lparr>transferredBytes := 4, transferSize := 0, lastAbortCode := code\<rparr>) s)"
    using assms(2, 3) by (intro com_inv_type) (simp_all add: con_typed_def)
  then show ?thesis
    unfolding clientSendAbort_def using assms(1)
    by (auto intro!: keeps_pures keeps_bind keeps_clientSendFrame)
qed

lemma keeps_clientAbortTransfer:
  assumes "react_keeps cb" and "com_inv s" and "code < 2 ^ 32"
  shows "keeps (clientAbortTransfer E cb i code s)"
proof -
  have "com_inv (cupd i (\<lambda>c. c\<lparr>lastAbortCode := code\<rparr>) s)"
    using assms(2, 3) by (intro com_inv_type) (simp_all add: con_typed_def)
  then show ?thesis
    unfolding clientAbortTransfer_def using assms
    by (auto intro!: keeps_bind keeps_clientSendAbort keeps_finished)
qed

lemma store_data_inv: "store_data i src n fr s = Some s' \<Longrightarrow> com_inv s \<Longrightarrow> com_inv s'"
  by (auto simp: store_data_def com_inv_mem elim!: bind_eq_Some_conv [THEN iffD1, elim_format])

lemma keeps_stored:
  "com_inv s \<Longrightarrow> (\<And>s'. com_inv s' \<Longrightarrow> keeps (f s')) \<Longrightarrow> keeps (Option.bind (store_data i src n fr s) f)"
  by (cases "store_data i src n fr s") (auto dest: store_data_inv)

lemma keeps_clientReadFrame:
  assumes "react_keeps cb" and "com_inv s" and "segmentSizeLe fr < 2 ^ 16"
  shows "keeps (clientReadFrame E cb i fr s)"
proof -
  have part: "com_inv (cupd i (\<lambda>c. c\<lparr>transferSize := 0, transferredBytes := v\<rparr>) s')"
    if "com_inv s'" "v < 2 ^ 32" for s' v
    using that by (auto intro!: com_inv_type simp: con_typed_def)
  have upd: "com_inv (cupd i (\<lambda>c. c\<lparr>pData := ptr_add (pData c) n, transferredBytes := sub32 x y, transferSize := sub32 x' y'\<rparr>) s')"
    "com_inv (cupd i (\<lambda>c. c\<lparr>transferSize := 0\<rparr>) s')"
    if "com_inv s'" for s' n x y x' y'
    using that by (auto intro!: com_inv_type simp: con_typed_def)
  show ?thesis
    unfolding clientReadFrame_def Let_def using assms
    by (auto intro!: keeps_pures keeps_stored part upd keeps_clientAbortTransfer advance_inv)
qed

lemma keeps_clientProcessFrame:
  "react_keeps cb \<Longrightarrow> com_inv s \<Longrightarrow> segmentSizeLe fr < 2 ^ 16 \<Longrightarrow> keeps (clientProcessFrame E cb i fr s)"
  unfolding clientProcessFrame_def Let_def
  by (auto intro!: keeps_clientAbortTransfer keeps_clientReadFrame)


lemma com_deleteCon_inv: "com_deleteCon E i s = (ret, s') \<Longrightarrow> com_inv s \<Longrightarrow> com_inv s'"
  by (auto simp: com_deleteCon_def Let_def intro!: com_inv_log)

lemma keeps_closeServer: "com_inv s \<Longrightarrow> keeps (closeServer E i s)"
  unfolding closeServer_def Let_def
  by (auto split: prod.split intro!: com_inv_cupd dest: com_deleteCon_inv simp: zero_com_con_def)
     (simp_all add: con_typed_def)

lemma server_next_inv: "com_inv s \<Longrightarrow> com_inv (server_next_state i s)"
  by (auto simp: server_next_state_def con_typed_def intro!: com_state_inv com_inv_type)

lemma keeps_Idle:
  assumes "react_keeps cb" and "com_inv s" and "com_env_typed E"
  shows "keeps (com_processStateIdle E cb i event recvd s)"
proof -
  have tid: "com_inv (cupd i (\<lambda>c. c\<lparr>transactionId := t\<rparr>) s)" for t
    using assms(2) by (intro com_inv_type) simp_all
  show ?thesis
    unfolding com_processStateIdle_def Let_def using assms tid
    by (auto split: tSdoComConEvent.split intro!: keeps_pures keeps_map keeps_serverRead keeps_serverWrite
        keeps_serverAbort keeps_sendAck keeps_closeServer com_state_inv server_next_inv)
qed

lemma keeps_serverSegment:
  assumes "react_keeps cb" and "com_inv s"
  shows "keeps (serverSegment E cb i fr s)"
proof -
  have upd: "com_inv (cupd i (\<lambda>c. c\<lparr>pData := ptr_add (pData c) n\<rparr>) s')"
    "com_inv (cupd i (\<lambda>c. c\<lparr>pData := LastAbortPtr\<rparr>) s')"
    "com_inv (cupd i (\<lambda>c. c\<lparr>transferSize := 0\<rparr>) s')"
    "com_inv (cupd i (\<lambda>c. c\<lparr>sdoComState := st, lastAbortCode := 0\<rparr>) s')"
    "com_inv (cupd i (\<lambda>c. c\<lparr>lastAbortCode := 0\<rparr>) s')"
    "com_inv (cupd i (\<lambda>c. c\<lparr>lastAbortCode := SDO_AC_DATA_TYPE_LENGTH_TOO_HIGH\<rparr>) s')"
    "com_inv (cupd i (\<lambda>c. c\<lparr>transferredBytes := wrap32 (v c), transferSize := transferSize c - n\<rparr>) s')"
    if "com_inv s'" for s' st v n
    using that by (auto intro!: com_inv_type simp: con_typed_def less_imp_diff_less)
  have stored: "keeps (Option.bind (map_option (cupd i (\<lambda>c. c\<lparr>pData := ptr_add (pData c) n\<rparr>))
      (store_data i 0 n fr s)) f)" if "\<And>s. com_inv s \<Longrightarrow> keeps (f s)" for n f
    using assms(2) that by (cases "store_data i 0 n fr s") (auto dest!: store_data_inv simp: upd)
  show ?thesis
    unfolding serverSegment_def Let_def using assms
    by (auto intro!: stored keeps_bind keeps_serverSendFrame keeps_sendAck upd)
qed

lemma keeps_ServerSegmTrans:
  assumes "react_keeps cb" and "com_inv s"
  shows "keeps (processStateServerSegmTrans E cb i event recvd s)"
proof -
  have upd: "com_inv (cupd i (\<lambda>c. c\<lparr>sdoComState := st, lastAbortCode := 0\<rparr>) s')"
    "com_inv (cupd i (\<lambda>c. c\<lparr>transferSize := 0, transferredBytes := 0, sdoComState := st, lastAbortCode := 0\<rparr>) s')"
    if "com_inv s'" for s' st
    using that by (auto intro!: com_inv_type simp: con_typed_def)
  show ?thesis
    unfolding processStateServerSegmTrans_def Let_def using assms
    by (auto split: tSdoComConEvent.split intro!: keeps_pures keeps_bind keeps_serverSendFrame
        keeps_serverSegment keeps_closeServer upd)
qed

lemma invalidate_handle_inv: "com_inv s \<Longrightarrow> com_inv (invalidate_handle E i s)"
  unfolding invalidate_handle_def
  by (intro com_inv_type) (auto simp: com_deleteCon_def Let_def intro!: com_inv_log)

lemma com_initCon_inv: "com_initCon E i s = (ret, s') \<Longrightarrow> com_inv s \<Longrightarrow> com_inv s'"
  unfolding com_initCon_def
  by (auto simp: Let_def split: if_splits prod.splits option.splits intro!: com_inv_type com_inv_log)

lemma ptr_code_less:
  assumes "ptr_code c m = Some v" and "con_typed c"
  shows "v < 2 ^ 32"
proof -
  have "value_le bs < 2 ^ 32" if "ptr_read p 4 m = Some bs" for p bs
    using that value_le_less [of bs]
    by (auto simp: ptr_read_def dest!: mem_read_length split: com_ptr.splits)
  then show ?thesis using assms by (auto simp: ptr_code_def con_typed_def split: com_ptr.splits)
qed


lemma keeps_client_done:
  assumes "react_keeps cb" and "com_inv s" and "code < 2 ^ 32"
  shows "keeps (client_done cb i st code s)" "keeps (client_lost cb i code s)"
proof -
  have "com_inv (cupd i (\<lambda>c. c\<lparr>transactionId := transactionId c + 1, lastAbortCode := code\<rparr>) s)"
    "com_inv (cupd i (\<lambda>c. c\<lparr>sdoComState := kSdoComStateClientWaitInit, lastAbortCode := code\<rparr>) s)"
    using assms(2, 3) by (auto intro!: com_inv_type simp: con_typed_def)
  then show "keeps (client_done cb i st code s)" "keeps (client_lost cb i code s)"
    unfolding client_done_def client_lost_def using assms(1) by (auto intro!: keeps_finished)
qed

text \<open>An abort code read through the data pointer, in a state that keeps the invariant.\<close>

lemma keeps_code:
  assumes "com_inv s" and "\<And>v. v < 2 ^ 32 \<Longrightarrow> keeps (f v)" and "i < CONFIG_SDO_MAX_CONNECTION_COM"
  shows "keeps (Option.bind (ptr_code (ccon i s) (comMem s)) f)"
  using assms(2) ptr_code_less [OF _ com_inv_con [OF assms(1, 3)]]
  by (cases "ptr_code (ccon i s) (comMem s)") auto

lemma keeps_WaitInit:
  assumes cb: "react_keeps cb" and s: "com_inv s" and i: "i < CONFIG_SDO_MAX_CONNECTION_COM"
  shows "keeps (processStateClientWaitInit E cb i event s)"
proof -
  have code: "com_inv (cupd i (\<lambda>c. c\<lparr>lastAbortCode := v\<rparr>) s')" if "com_inv s'" "v < 2 ^ 32" for s' v
    using that by (intro com_inv_type) (simp_all add: con_typed_def)
  have "keeps (clientWaitInitEvent E cb i event s')" if "com_inv s'" for s'
    unfolding clientWaitInitEvent_def Let_def using cb that i
    by (auto split: tSdoComConEvent.split
        intro!: keeps_code keeps_finished keeps_clientSend com_state_inv invalidate_handle_inv code)
  then show ?thesis
    unfolding processStateClientWaitInit_def using s
    by (auto split: prod.split dest: com_initCon_inv)
qed

lemma clientAbortEvent_inv:
  assumes "react_keeps cb" and "com_inv s" and "i < CONFIG_SDO_MAX_CONNECTION_COM"
    and "clientAbortEvent E cb i s = Some s'"
  shows "com_inv s'"
proof -
  obtain v ret where v: "ptr_code (ccon i s) (comMem s) = Some v"
      and "clientSendAbort E cb i v s = Some (ret, s')"
    using assms(4) by (auto simp: clientAbortEvent_def bind_eq_Some_conv)
  moreover have "v < 2 ^ 32" using ptr_code_less [OF v com_inv_con [OF assms(2, 3)]] .
  ultimately show ?thesis
    using keeps_clientSendAbort [OF assms(1, 2), of v E i] by (auto simp: keeps_def)
qed

lemma keeps_clientResponse:
  assumes "react_keeps cb" and "com_inv s" and "segmentSizeLe fr < 2 ^ 16"
    and "\<And>s. com_inv s \<Longrightarrow> com_inv (leave s)"
  shows "keeps (clientResponse E cb i leave fr s)"
proof -
  have code: "keeps (Option.bind (com_get 4 0 fr) f)" if "\<And>v. v < 2 ^ 32 \<Longrightarrow> keeps (f v)" for f
    using that by (cases "com_get 4 0 fr") (auto dest: com_get_less)
  then show ?thesis
    unfolding clientResponse_def using assms
    by (auto intro!: code keeps_bind keeps_sendAck keeps_client_done keeps_clientProcessFrame)
qed

lemma keeps_aborted:
  assumes "react_keeps cb" and "com_inv s" and "i < CONFIG_SDO_MAX_CONNECTION_COM"
    and "\<And>s. com_inv s \<Longrightarrow> com_inv (leave s)"
  shows "keeps (Option.bind (clientAbortEvent E cb i s) (\<lambda>s.
      Option.bind (ptr_code (ccon i s) (comMem s)) (\<lambda>code. client_done cb i st code (leave s))))"
  using clientAbortEvent_inv [OF assms(1-3)] assms
  by (cases "clientAbortEvent E cb i s") (auto intro!: keeps_code keeps_client_done)

definition recvd_typed :: "tAsySdoCom option \<Rightarrow> bool" where
  "recvd_typed recvd \<longleftrightarrow> (\<forall>fr. recvd = Some fr \<longrightarrow> segmentSizeLe fr < 2 ^ 16)"

lemma keeps_client:
  assumes "react_keeps cb" and "com_inv s" and "i < CONFIG_SDO_MAX_CONNECTION_COM" and "recvd_typed recvd"
  shows "keeps (processStateClientConnected E cb i event recvd s)"
    "keeps (processStateClientSegmTransfer E cb i event recvd s)"
proof -
  have frame: "keeps (Option.bind recvd f)" if "\<And>fr. segmentSizeLe fr < 2 ^ 16 \<Longrightarrow> keeps (f fr)" for f
    using that assms(4) by (cases recvd) (auto simp: recvd_typed_def)
  show "keeps (processStateClientConnected E cb i event recvd s)"
    unfolding processStateClientConnected_def Let_def using assms keeps_aborted [OF assms(1-3), of "\<lambda>s. s"]
    by (auto split: tSdoComConEvent.split intro!: frame keeps_bind keeps_clientSend keeps_client_done
        keeps_clientResponse invalidate_handle_inv com_state_inv)
  show "keeps (processStateClientSegmTransfer E cb i event recvd s)"
    unfolding processStateClientSegmTransfer_def Let_def using assms
    by (auto split: tSdoComConEvent.split intro!: frame keeps_bind keeps_clientSend keeps_client_done
        keeps_clientResponse invalidate_handle_inv com_state_inv keeps_aborted)
qed

lemma keeps_processState:
  assumes "react_keeps cb" and "com_inv s" and "com_env_typed E" and "recvd_typed recvd"
    and "i < CONFIG_SDO_MAX_CONNECTION_COM"
  shows "keeps (com_processState E cb i event recvd s)"
  unfolding com_processState_def
  using assms keeps_client [OF assms(1, 2, 5, 4)]
  by (auto split: tSdoComState.split intro!: keeps_Idle keeps_ServerSegmTrans keeps_WaitInit)

lemma searchLoop_inv:
  assumes "react_keeps cb" and "com_env_typed E" and "recvd_typed recvd"
  shows "com_inv s \<Longrightarrow> \<forall>i \<in> set is. i < CONFIG_SDO_MAX_CONNECTION_COM \<Longrightarrow>
     pred_option (\<lambda>i. i < CONFIG_SDO_MAX_CONNECTION_COM) hdlFree \<Longrightarrow>
     searchLoop E cb hdl event recvd is ret hdlFree s = Some (ret', hdlFree', s') \<Longrightarrow>
     com_inv s' \<and> pred_option (\<lambda>i. i < CONFIG_SDO_MAX_CONNECTION_COM) hdlFree'"
proof (induction "is" arbitrary: ret hdlFree s)
  case (Cons i "is")
  show ?case
  proof (cases "sdoSeqConHdl (ccon i s) = hdl")
    case True
    then obtain r s1 where "com_processState E cb i event recvd s = Some (r, s1)"
        and rest: "searchLoop E cb hdl event recvd is r hdlFree s1 = Some (ret', hdlFree', s')"
      using Cons.prems(4) by (auto simp: bind_eq_Some_conv)
    then have "com_inv s1"
      using keeps_processState [OF assms(1) Cons.prems(1) assms(2, 3), of i event] Cons.prems(2)
      by (auto simp: keeps_def)
    then show ?thesis using Cons.IH [OF _ _ Cons.prems(3) rest] Cons.prems(2) by simp
  next
    case False
    define free where "free = (if sdoSeqConHdl (ccon i s) = 0 \<and> hdlFree = None then Some i else hdlFree)"
    have loop: "searchLoop E cb hdl event recvd is ret free s = Some (ret', hdlFree', s')"
      using False Cons.prems(4) unfolding free_def searchLoop.simps by presburger
    have "pred_option (\<lambda>i. i < CONFIG_SDO_MAX_CONNECTION_COM) free"
      using Cons.prems(2, 3) by (simp add: free_def)
    then show ?thesis using Cons.IH [OF Cons.prems(1) _ _ loop] Cons.prems(2) by simp
  qed
qed simp

lemma keeps_searchConnection:
  assumes "react_keeps cb" and "com_inv s" and "com_env_typed E" and "recvd_typed recvd"
  shows "keeps (searchConnection E cb hdl event recvd s)"
proof (cases "searchLoop E cb hdl event recvd [0..<CONFIG_SDO_MAX_CONNECTION_COM] kErrorSdoComNotResponsible None s")
  case (Some r)
  obtain ret hdlFree s1 where r: "r = (ret, hdlFree, s1)" by (cases r)
  have s1: "com_inv s1" and free: "pred_option (\<lambda>i. i < CONFIG_SDO_MAX_CONNECTION_COM) hdlFree"
    using searchLoop_inv [OF assms(1, 3, 4, 2) _ _ Some [unfolded r]] by auto
  have "com_inv (cupd i (\<lambda>c. c\<lparr>sdoSeqConHdl := hdl\<rparr>) s1)" for i
    using s1 by (intro com_inv_type) simp_all
  then show ?thesis
    using Some s1 free assms unfolding searchConnection_def
    by (auto simp: r split: option.split intro!: keeps_processState)
qed (simp add: searchConnection_def)


lemma defineSearch_less:
  "defineSearch s node prot is free = Inr (Some i) \<Longrightarrow> \<forall>i \<in> set is. i < n \<Longrightarrow>
     pred_option (\<lambda>i. i < n) free \<Longrightarrow> i < n"
  by (induction "is" arbitrary: free) (auto simp: Let_def split: if_splits)

lemma com_define_inv:
  assumes "react_keeps cb" and "com_inv s" and "com_env_typed E"
    and "sdocom_defineConnection E cb node prot s = Some (ret, hdl, s')"
  shows "com_inv s'"
proof (cases "\<exists>i. defineSearch s node prot [0..<CONFIG_SDO_MAX_CONNECTION_COM] None = Inr (Some i)")
  case True
  then obtain i where i: "defineSearch s node prot [0..<CONFIG_SDO_MAX_CONNECTION_COM] None = Inr (Some i)" by blast
  have less: "i < CONFIG_SDO_MAX_CONNECTION_COM" using defineSearch_less [OF i] by auto
  have "com_inv (cupd i (\<lambda>c. c\<lparr>sdoProtocolType := prot, comNodeId := node, transactionId := 0\<rparr>) s)"
    using assms(2) by (intro com_inv_type) (simp_all add: con_typed_def)
  then have "com_inv s1" if "com_initCon E i (cupd i (\<lambda>c. c\<lparr>sdoProtocolType := prot, comNodeId := node,
      transactionId := 0\<rparr>) s) = (r, s1)" for r s1
    using com_initCon_inv that by blast
  moreover have "com_inv s2" if "com_inv s1"
      "com_processState E cb i kSdoComConEventInitCon None s1 = Some (r, s2)" for r s1 s2
    using keeps_processState [OF assms(1) that(1) assms(3) _ less, of None] that(2)
    by (auto simp: keeps_def recvd_typed_def)
  ultimately show ?thesis
    using assms(4) i unfolding sdocom_defineConnection_def
    by (auto simp: Let_def split: prod.splits if_splits)
next
  case False
  then show ?thesis
    using assms(2, 4) unfolding sdocom_defineConnection_def
    by (auto split: sum.splits option.splits)
qed

lemma keeps_initTransfer:
  assumes "react_keeps cb" and "com_inv s" and "com_env_typed E" and "call_typed (InitTransferByIndex par)"
  shows "keeps (sdocom_initTransferByIndex E cb par s)"
proof -
  define i where "i = parConHdl par"
  define start where "start = cupd i (\<lambda>c. c\<lparr>pfnTransferFinished := parFinishedCb par, pUserArg := parUserArg par,
     sdoServiceType := (if parAccessType par = kSdoAccessTypeRead then kSdoServiceReadByIndex
                        else kSdoServiceWriteByIndex),
     pData := parData par, transferSize := parDataSize par, transferredBytes := 0,
     lastAbortCode := 0, sdoTransferType := kSdoTransAuto,
     targetIndex := parIndex par, targetSubIndex := parSubindex par\<rparr>)
    (if parFinishedCb par = None then s else com_log (ComAccepted i) s)"
  have "com_inv start" if i: "i < CONFIG_SDO_MAX_CONNECTION_COM"
  proof (cases "parFinishedCb par")
    case None
    then show ?thesis unfolding start_def using assms(2, 4)
      by (intro com_inv_cupd) (simp_all add: con_typed_def call_typed_def)
  next
    case (Some f)
    have "list_all con_typed (sdoComCon start)"
      using assms(2, 4) unfolding start_def cupd_def
      by (auto simp: com_inv_def list_all_iff con_typed_def call_typed_def
          dest: set_update_subset_insert [THEN subsetD])
    moreover have "reports j (comOuts start) + (if pfnTransferFinished (ccon j start) = None then 0 else 1)
        \<le> accepted j (comOuts start)" if "j < CONFIG_SDO_MAX_CONNECTION_COM" for j
    proof -
      have "reports j (comOuts s) + (if pfnTransferFinished (ccon j s) = None then 0 else 1)
          \<le> accepted j (comOuts s)" using assms(2) that by (simp add: com_inv_def)
      then show ?thesis using Some i assms(2)
        by (auto simp: start_def ccon_cupd reports_append accepted_append com_inv_def split: if_splits)
    qed
    ultimately show ?thesis using assms(2) Some by (simp add: com_inv_def start_def)
  qed
  then show ?thesis
    using assms(1-3) unfolding sdocom_initTransferByIndex_def Let_def
    by (auto simp: start_def i_def recvd_typed_def intro!: keeps_processState)
qed

lemma com_api_inv:
  assumes "react_keeps cb" and "com_inv s" and "com_env_typed E" and "call_typed call"
    and "com_api E cb call s = Some s'"
  shows "com_inv s'"
proof (cases call)
  case (DefineConnection node prot)
  then show ?thesis using assms com_define_inv by (auto simp: com_api_def)
next
  case (InitTransferByIndex par)
  then show ?thesis
    using assms keeps_initTransfer [OF assms(1-3), of par] by (auto simp: com_api_def keeps_def)
next
  case (UndefineConnection i)
  have "com_inv s1 \<Longrightarrow> com_inv (cupd i (\<lambda>_. zero_com_con) s1)" for s1
    by (intro com_inv_cupd) (simp_all add: zero_com_con_def con_typed_def)
  moreover have "com_inv (com_log (ComDeleteCon h) s)" for h using assms(2) by (intro com_inv_log) simp_all
  ultimately have "com_inv (snd (sdocom_undefineConnection E i s))"
    using assms(2) by (simp add: sdocom_undefineConnection_def Let_def com_deleteCon_def split: prod.split)
  then show ?thesis using UndefineConnection assms(5) by (simp add: com_api_def)
next
  case (GetState i fin)
  have "com_inv (cupd i (\<lambda>c. c\<lparr>lastAbortCode := 0\<rparr>) s)"
    using assms(2) by (intro com_inv_type) (simp_all add: con_typed_def)
  then show ?thesis
    using GetState assms by (auto simp: com_api_def sdocom_getState_def Let_def split: if_splits)
next
  case (AbortTransfer i code)
  have "com_inv (cupd i (\<lambda>c. c\<lparr>pData := LocalPtr code\<rparr>) s)"
    using assms(2, 4) AbortTransfer by (intro com_inv_type) (simp_all add: con_typed_def call_typed_def)
  then have "keeps (sdocom_abortTransfer E cb i code s)"
    unfolding sdocom_abortTransfer_def using assms
    by (auto simp: recvd_typed_def intro!: keeps_map keeps_processState locals_end_inv)
  then show ?thesis using AbortTransfer assms(5) by (auto simp: com_api_def keeps_def)
qed

lemma com_api_run_inv:
  assumes "react_keeps cb" and "com_env_typed E"
  shows "list_all call_typed calls \<Longrightarrow> com_inv s \<Longrightarrow> com_api_run E cb calls s = Some s' \<Longrightarrow> com_inv s'"
  using com_api_inv [OF assms(1) _ assms(2)]
  by (induction calls arbitrary: s) (auto simp: bind_eq_Some_conv)

lemma keeps_receive:
  "react_keeps cb \<Longrightarrow> com_env_typed E \<Longrightarrow> com_inv s \<Longrightarrow> segmentSizeLe fr < 2 ^ 16 \<Longrightarrow>
     keeps (com_receiveCb E cb hdl fr s)"
  "react_keeps cb \<Longrightarrow> com_env_typed E \<Longrightarrow> com_inv s \<Longrightarrow> keeps (conStateChangeCb E cb hdl st s)"
  by (simp_all add: com_receiveCb_def conStateChangeCb_def keeps_searchConnection recvd_typed_def)

lemma com_react_keeps: "com_env_typed E \<Longrightarrow> react_keeps (com_react n E)"
proof (induction n)
  case (Suc n)
  have "com_inv s'" if "com_inv s" "com_react (Suc n) E b s = Some s'" for b s s'
  proof (cases b)
    case (BackState hdl st)
    then show ?thesis
      using that keeps_receive(2) [OF Suc.IH [OF Suc.prems] Suc.prems that(1), of hdl st]
      by (auto simp: keeps_def)
  next
    case (BackFinished f fin)
    moreover have "list_all call_typed (appCalls E f fin (comOuts s))"
      using Suc.prems by (simp add: com_env_typed_def)
    ultimately show ?thesis
      using that com_api_run_inv [OF Suc.IH [OF Suc.prems] Suc.prems _ that(1)] by simp
  qed
  then show ?case by (auto simp: react_keeps_def)
qed (simp add: react_keeps_def)

lemma com_step_inv:
  assumes "com_env_typed E" and "op_typed op" and "com_inv s" and "com_step n E op s = Some s'"
  shows "com_inv s'"
  using assms com_api_inv [OF com_react_keeps [OF assms(1)] assms(3, 1)]
    keeps_receive [OF com_react_keeps [OF assms(1)] assms(1, 3)]
  by (cases op) (auto simp: com_step_def keeps_def)

lemma com_run_inv:
  assumes "com_env_typed E"
  shows "list_all op_typed ops \<Longrightarrow> com_inv s \<Longrightarrow> run_steps (com_step n E) ops s = Some s' \<Longrightarrow> com_inv s'"
proof (induction ops arbitrary: s)
  case (Cons op ops)
  then obtain s1 where "com_step n E op s = Some s1" and "run_steps (com_step n E) ops s1 = Some s'"
    by (auto split: option.splits)
  then show ?case using Cons com_step_inv [OF assms, of op s n s1] by simp
qed simp

lemma com_init_inv:
  assumes "comOuts s = []"
  shows "com_inv (snd (sdocom_init E s))"
proof -
  have zero: "ccon i (s\<lparr>sdoComCon := replicate 5 zero_com_con\<rparr>) = zero_com_con" if "i < 5" for i
    using that by (simp add: ccon_def)
  moreover have "pfnTransferFinished zero_com_con = None" by (simp add: zero_com_con_def)
  ultimately show ?thesis
    using assms by (auto simp: sdocom_init_def sdocom_addInstance_def Let_def com_inv_def reports_def
        accepted_def list_all_iff)
qed


section \<open>Properties\<close>

text \<open>
  An environment for the witnesses: everything succeeds, there is one object 0x2000/0 of 300 bytes
  that can be read and written, the application makes no calls from its callback.
\<close>

definition com_example :: com_env where
  "com_example = \<lparr>comAddInstance = \<lambda>_. kErrorOk, comDelInstance = \<lambda>_. kErrorOk,
     comInitCon = \<lambda>_. (kErrorOk, Some 0x8000), comDeleteCon = \<lambda>_. kErrorOk,
     comSend = \<lambda>_. (kErrorOk, False),
     obdAccess = \<lambda>i j. (if i = 0x2000 \<and> j = 0 then (kErrorOk, 0x03)
                       else (kErrorObdSubindexNotExist, 0)),
     obdSize = \<lambda>i j. if i = 0x2000 \<and> j = 0 then 300 else 0,
     obdPtr = \<lambda>i j. if i = 0x2000 \<and> j = 0 then DataPtr (ObjectBlock i j) 0 else NullPtr,
     obdRead = \<lambda>i j n m. (kErrorOk, take n (m (ObjectBlock i j))),
     obdWrite = \<lambda>i j src n m. if n \<le> 8 \<and> n \<le> length src
       then Some (kErrorOk, m(ObjectBlock i j := take n src)) else Some (kErrorObdValueLengthError, m),
     appCalls = \<lambda>_ _ _. []\<rparr>"

definition com_blank :: com_sys where
  "com_blank = \<lparr>sdoComCon = [], comMem = (\<lambda>b. replicate 300 0), comOuts = []\<rparr>"

lemma com_example_typed: "com_env_typed com_example"
  by (simp add: com_env_typed_def com_example_def)

text \<open>
  C23: In every run without undefined behaviour (C24 shows an access outside a buffer, after which
  nothing can be said), whatever calls the application makes, whatever frames and states the
  sequence layer delivers, whatever the lower layers and the dictionary answer, and to whatever
  depth \<open>n\<close> the callbacks nest, the module never reports more transfers of a connection to the
  application than the application started there with a callback: a transfer is reported at most
  once. (Sizes and abort codes passed in are 32-bit numbers, as their types say.)
\<close>

theorem sdo_reported_once:
  assumes "com_env_typed E" and "comOuts s = []" and "list_all op_typed ops"
    and "run_steps (com_step n E) ops (snd (sdocom_init E s)) = Some s'"
    and "i < CONFIG_SDO_MAX_CONNECTION_COM"
  shows "reports i (comOuts s') \<le> accepted i (comOuts s')"
proof -
  have "reports i (comOuts s') + (if pfnTransferFinished (ccon i s') = None then 0 else 1)
      \<le> accepted i (comOuts s')"
    using com_run_inv [OF assms(1, 3) com_init_inv [OF assms(2)] assms(4)] assms(5)
    by (simp add: com_inv_def)
  then show ?thesis by (simp split: if_splits)
qed

definition read_op :: com_op where
  "read_op = ComApi (InitTransferByIndex \<lparr>parConHdl = 4, parIndex = 0x2000, parSubindex = 0,
     parData = DataPtr (UserBlock 0) 0, parDataSize = 300, parAccessType = kSdoAccessTypeRead,
     parFinishedCb = Some 7, parUserArg = 0\<rparr>)"

text \<open>The application connects, starts a read, and the peer closes the connection twice.\<close>

definition read_ops :: "com_op list" where
  "read_ops = [ComApi (DefineConnection 1 kSdoTypeAsnd), read_op,
     ComConState 0x8000 kAsySdoConStateConnected, ComConState 0x8000 kAsySdoConStateConClosed,
     ComConState 0x8000 kAsySdoConStateConClosed]"

lemma read_ops_run: "\<exists>s. run_steps (com_step 3 com_example) read_ops (snd (sdocom_init com_example com_blank)) = Some s \<and>
    reports 4 (comOuts s) = 1 \<and> length (sdoComCon s) = 5"
proof -
  have "case run_steps (com_step 3 com_example) read_ops (snd (sdocom_init com_example com_blank)) of
      None \<Rightarrow> False | Some s \<Rightarrow> reports 4 (comOuts s) = 1 \<and> length (sdoComCon s) = 5"
    by code_simp
  then show ?thesis by (auto split: option.splits)
qed

lemma read_ops_typed: "list_all op_typed read_ops"
  by (simp add: read_ops_def read_op_def call_typed_def)

lemma sdo_reported_once_witness:
  "\<exists>s. run_steps (com_step 3 com_example) read_ops (snd (sdocom_init com_example com_blank)) = Some s \<and>
     reports 4 (comOuts s) = 1 \<and> reports 4 (comOuts s) \<le> accepted 4 (comOuts s)"
proof -
  obtain s where s: "run_steps (com_step 3 com_example) read_ops (snd (sdocom_init com_example com_blank)) = Some s"
      and one: "reports 4 (comOuts s) = 1"
    using read_ops_run by (elim exE conjE)
  have "reports 4 (comOuts s) \<le> accepted 4 (comOuts s)"
    by (rule sdo_reported_once [OF com_example_typed _ read_ops_typed s]) (simp_all add: com_blank_def)
  with s one show ?thesis by (intro exI conjI)
qed

text \<open>
  C24: A node that sends the first segment of a write request makes the server access memory outside
  the object or the frame: the size of the segment is neither checked against the size of the
  object nor against the headers that are subtracted from it. It happens for every segment size
  below 16 and for every one above the size of the object plus 16.
\<close>

theorem sdo_write_segment_unchecked:
  assumes "sdoComState (ccon i s) = kSdoComStateIdle" and "i < length (sdoComCon s)"
    and "flags fr = SDO_CMDL_FLAG_SEGMINIT" and "commandId fr = service_code kSdoServiceWriteByIndex"
    and "com_get 2 4 fr = Some idx" and "com_get 1 6 fr = Some sub"
    and "com_get 4 0 fr = Some announced" and "8 \<le> announced" and "announced < 2 ^ 32" and "announced - 8 \<le> obdSize E idx sub"
    and "obdAccess E idx sub = (kErrorOk, access)" and "access AND kObdAccWrite \<noteq> 0"
    and "obdPtr E idx sub = DataPtr b 0" and "length (comMem s b) = obdSize E idx sub"
    and "segmentSizeLe fr < 16 \<or> obdSize E idx sub + 16 < segmentSizeLe fr"
    and "segmentSizeLe fr < 2 ^ 16" and "length (aCommandData fr) < 2 ^ 16"
  shows "com_processState E cb i kSdoComConEventRec (Some fr) s = None"
proof -
  define n where "n = sub32 (segmentSizeLe fr) 16"
  have n: "obdSize E idx sub < n \<or> length (aCommandData fr) < n"
  proof (cases "segmentSizeLe fr < 16")
    case True
    then have "n = 2 ^ 32 - 16 + segmentSizeLe fr" by (simp add: n_def sub32_def wrap32_def)
    then show ?thesis using assms(17) by simp
  next
    case False
    then have "obdSize E idx sub < n" using assms(15, 16) by (simp add: n_def sub32_eq)
    then show ?thesis ..
  qed
  have bs: "mem_read (aCommandData fr) 8 n = None \<or>
      (\<exists>bs. mem_read (aCommandData fr) 8 n = Some bs \<and> length bs = n \<and> obdSize E idx sub < n)"
    using n by (auto simp: mem_read_def)
  have announced: "sub32 announced 8 = announced - 8" using assms(8, 9) by (simp add: sub32_eq)
  have "serverInitWriteByIndex E cb i fr s' = None" if "ccon i s' = c" "comMem s' = comMem s"
      "length (sdoComCon s') = length (sdoComCon s)" for s' c
    using assms bs that
    by (auto simp: serverInitWriteByIndex_def serverWriteChecked_def serverWriteSegmented_def ccon_cupd announced
        n_def [symmetric] ptr_write_def mem_write_def Let_def)
  then show ?thesis
    using assms(1-4) by (simp add: com_processState_def com_processStateIdle_def)
qed

definition long_segment :: tAsySdoCom where
  "long_segment = \<lparr>frTransactionId = 1, flags = 0x10, commandId = 0x01, segmentSizeLe = 400,
     aCommandData = [0x2C, 0x01, 0x00, 0x00, 0x00, 0x20, 0x00, 0x00] @ replicate 500 0xFF\<rparr>"

lemma sdo_write_segment_unchecked_witness:
  "com_processState com_example (com_react 2 com_example) 0 kSdoComConEventRec (Some long_segment)
     (snd (sdocom_init com_example com_blank)) = None"
proof (rule sdo_write_segment_unchecked [where access = 3])
  show "(3 :: byte) AND kObdAccWrite \<noteq> 0" by code_simp
  show "com_get 2 4 long_segment = Some 0x2000" "com_get 1 6 long_segment = Some 0"
    "com_get 4 0 long_segment = Some 300"
    by (simp_all add: com_get_def mem_read_def long_segment_def)
qed (simp_all add: com_example_def sdocom_init_def sdocom_addInstance_def ccon_def com_blank_def
    zero_com_con_def long_segment_def Let_def com_log_def)

end
