(* ===== verification/Sdo_Transfer.thy ===== *)
theory Sdo_Transfer
  imports Sdo_Com
begin

text \<open>
  Whole transfers between two instances of the command layer (\<open>Sdo_Com\<close>), a client and a server,
  over a sequence layer that delivers every frame once and in order (\<open>Sdo_Link\<close> shows that it
  does) and that reports progress and acknowledges at any time.
\<close>

section \<open>The link\<close>

text \<open>
  The frames an instance has handed to the sequence layer, in order. A link is the two instances
  and how many frames of each were delivered to the other one. A move delivers the next frame or
  reports an acknowledge; behind a data frame the receiving sequence layer reports
  \<^verbatim>\<open>kAsySdoConStateFrameSended\<close> or, in its state \<^verbatim>\<open>WaitAck\<close>, does not (the flag of the move).
\<close>

fun sent_frames :: "com_out list \<Rightarrow> tAsySdoCom option list" where
  "sent_frames [] = []"
| "sent_frames (ComSend _ _ fr # outs) = fr # sent_frames outs"
| "sent_frames (_ # outs) = sent_frames outs"

record sdo_link =
  lnkClient :: com_sys
  lnkServer :: com_sys
  lnkToServer :: nat
  lnkToClient :: nat

record link_env =
  envClient :: com_env
  envServer :: com_env
  hdlClient :: u32
  hdlServer :: u32
  envDepth :: nat

datatype link_move = ToServer bool | ToClient bool | AckServer | AckClient

definition com_deliver ::
  "nat \<Rightarrow> com_env \<Rightarrow> u32 \<Rightarrow> bool \<Rightarrow> tAsySdoCom option \<Rightarrow> com_sys \<Rightarrow> com_sys option" where
  "com_deliver n E hdl sended fr s =
     (case fr of
        None \<Rightarrow> com_step n E (ComConState hdl kAsySdoConStateAckReceived) s
      | Some fr \<Rightarrow> do {
          s \<leftarrow> com_step n E (ComReceive hdl fr) s;
          if sended then com_step n E (ComConState hdl kAsySdoConStateFrameSended) s else Some s
        })"

definition link_move :: "link_env \<Rightarrow> link_move \<Rightarrow> sdo_link \<Rightarrow> sdo_link option" where
  "link_move L move l =
     (case move of
        ToServer sended \<Rightarrow>
          let frames = sent_frames (comOuts (lnkClient l)) in
          if lnkToServer l < length frames then
            map_option (\<lambda>s. l\<lparr>lnkServer := s, lnkToServer := lnkToServer l + 1\<rparr>)
              (com_deliver (envDepth L) (envServer L) (hdlServer L) sended (frames ! lnkToServer l) (lnkServer l))
          else Some l
      | ToClient sended \<Rightarrow>
          let frames = sent_frames (comOuts (lnkServer l)) in
          if lnkToClient l < length frames then
            map_option (\<lambda>s. l\<lparr>lnkClient := s, lnkToClient := lnkToClient l + 1\<rparr>)
              (com_deliver (envDepth L) (envClient L) (hdlClient L) sended (frames ! lnkToClient l) (lnkClient l))
          else Some l
      | AckServer \<Rightarrow>
          map_option (\<lambda>s. l\<lparr>lnkServer := s\<rparr>)
            (com_step (envDepth L) (envServer L) (ComConState (hdlServer L) kAsySdoConStateAckReceived) (lnkServer l))
      | AckClient \<Rightarrow>
          map_option (\<lambda>s. l\<lparr>lnkClient := s\<rparr>)
            (com_step (envDepth L) (envClient L) (ComConState (hdlClient L) kAsySdoConStateAckReceived) (lnkClient l)))"

lemma sent_frames_append [simp]: "sent_frames (xs @ ys) = sent_frames xs @ sent_frames ys"
  by (induction xs rule: sent_frames.induct) simp_all

section \<open>Segments\<close>

text \<open>
  Data of \<open>N\<close> bytes is cut into a first segment of \<open>F\<close> bytes and further ones of up to 256:
  \<open>seg_off F N m\<close> is what the first \<open>m\<close> of the \<open>seg_count F N\<close> segments hold.
\<close>

definition seg_off :: "nat \<Rightarrow> nat \<Rightarrow> nat \<Rightarrow> nat" where
  "seg_off F N m = (if m = 0 then 0 else min N (F + 256 * (m - 1)))"

definition seg_count :: "nat \<Rightarrow> nat \<Rightarrow> nat" where
  "seg_count F N = 1 + (N - F + 255) div 256"

text \<open>
  Frame \<open>m\<close> of a segmented transfer of the data \<open>d\<close>. The first one carries \<open>hdr\<close> in front, \<open>resp\<close> is
  the direction flag.
\<close>

definition seg_frame :: "byte \<Rightarrow> byte \<Rightarrow> byte \<Rightarrow> byte list \<Rightarrow> byte list \<Rightarrow> nat \<Rightarrow> tAsySdoCom" where
  "seg_frame tid cmd resp hdr d m =
     (let F = 256 - length hdr; rest = length d - seg_off F (length d) m in
      if m = 0 then \<lparr>frTransactionId = tid, flags = resp OR SDO_CMDL_FLAG_SEGMINIT, commandId = cmd,
        segmentSizeLe = 256, aCommandData = hdr @ take F d\<rparr>
      else \<lparr>frTransactionId = tid,
        flags = resp OR (if 256 < rest then SDO_CMDL_FLAG_SEGMENTED else SDO_CMDL_FLAG_SEGMCOMPL),
        commandId = cmd, segmentSizeLe = min 256 rest,
        aCommandData = take 256 (drop (seg_off F (length d) m) d)\<rparr>)"

lemma seg_off_simps [simp]: "seg_off F N 0 = 0" "F \<le> N \<Longrightarrow> seg_off F N (Suc 0) = F"
  by (simp_all add: seg_off_def)

lemma seg_off_le: "seg_off F N m \<le> N"
  by (simp add: seg_off_def)

lemma seg_off_Suc: "seg_off F N (Suc (Suc m)) = min N (seg_off F N (Suc m) + 256)"
  by (simp add: seg_off_def)

lemma seg_off_less:
  assumes "F < N"
  shows "seg_off F N m < N \<longleftrightarrow> m < seg_count F N"
proof (cases m)
  case (Suc k)
  have "k < (N - F + 255) div 256 \<longleftrightarrow> Suc k * 256 \<le> N - F + 255"
    using less_eq_div_iff_mult_less_eq [of 256 "Suc k" "N - F + 255"] by (simp add: Suc_le_eq)
  also have "\<dots> \<longleftrightarrow> F + 256 * k < N" using assms by auto
  finally have "Suc k < seg_count F N \<longleftrightarrow> F + 256 * k < N" by (simp add: seg_count_def)
  then show ?thesis by (simp add: Suc seg_off_def min_less_iff_disj)
qed (use assms in \<open>simp add: seg_count_def\<close>)

lemma seg_off_count: "F < N \<Longrightarrow> seg_off F N (seg_count F N) = N"
  using seg_off_less [of F N "seg_count F N"] seg_off_le [of F N "seg_count F N"] by simp

lemma seg_count_gt: "F < N \<Longrightarrow> 1 < seg_count F N"
  by (simp add: seg_count_def)

lemma seg_off_mono: "seg_off F N m \<le> seg_off F N (Suc m)"
  by (cases m) (simp_all add: seg_off_def)

text \<open>Bytes written over a part of a memory block.\<close>

definition overlay :: "byte list \<Rightarrow> nat \<Rightarrow> byte list \<Rightarrow> byte list" where
  "overlay old off bs = take off old @ bs @ drop (off + length bs) old"

lemma overlay_Nil [simp]: "overlay old off [] = old"
  by (simp add: overlay_def)

lemma length_overlay [simp]: "off + length bs \<le> length old \<Longrightarrow> length (overlay old off bs) = length old"
  by (simp add: overlay_def)

lemma overlay_append:
  assumes "off + length a + length b \<le> length old"
  shows "mem_write (overlay old off a) (off + length a) b = Some (overlay old off (a @ b))"
  using assms by (simp add: mem_write_def overlay_def add.commute add.left_commute)

lemma take_drop_segment: "take (k + n) xs = take k xs @ take n (drop k xs)"
  by (simp add: take_add)

section \<open>An instance with one active connection\<close>

text \<open>
  The state of an instance during a transfer: the connections of \<open>s\<close> with \<open>c\<close> at \<open>i\<close>, the memory
  \<open>m\<close>, and the calls \<open>outs\<close> behind those of \<open>s\<close>.
\<close>

definition cst :: "com_sys \<Rightarrow> nat \<Rightarrow> tSdoComCon \<Rightarrow> com_out list \<Rightarrow> com_mem \<Rightarrow> com_sys" where
  "cst s i c outs m = \<lparr>sdoComCon = (sdoComCon s)[i := c], comMem = m, comOuts = comOuts s @ outs\<rparr>"

definition alone :: "u32 \<Rightarrow> nat \<Rightarrow> com_sys \<Rightarrow> bool" where
  "alone hdl i s \<longleftrightarrow> i < CONFIG_SDO_MAX_CONNECTION_COM \<and> length (sdoComCon s) = CONFIG_SDO_MAX_CONNECTION_COM \<and>
     (\<forall>j < CONFIG_SDO_MAX_CONNECTION_COM. sdoSeqConHdl (ccon j s) = hdl \<longleftrightarrow> j = i)"

lemma alone_length: "alone hdl i s \<Longrightarrow> i < length (sdoComCon s)"
  by (simp add: alone_def)

lemma cst_simps [simp]:
  "i < length (sdoComCon s) \<Longrightarrow> ccon i (cst s i c outs m) = c"
  "i < length (sdoComCon s) \<Longrightarrow> cupd i f (cst s i c outs m) = cst s i (f c) outs m"
  "com_log out (cst s i c outs m) = cst s i c (outs @ [out]) m"
  "comMem (cst s i c outs m) = m" "comOuts (cst s i c outs m) = comOuts s @ outs"
  "(cst s i c outs m)\<lparr>comMem := m'\<rparr> = cst s i c outs m'"
  by (simp_all add: cst_def ccon_def cupd_def com_log_def)

lemma cst_self: "i < length (sdoComCon s) \<Longrightarrow> cst s i (ccon i s) [] (comMem s) = s"
  by (simp add: cst_def ccon_def)

lemma searchLoop_others:
  "\<forall>j \<in> set js. sdoSeqConHdl (ccon j s) \<noteq> hdl \<Longrightarrow>
     \<exists>free'. searchLoop E cb hdl event recvd js ret free s = Some (ret, free', s)"
  by (induction js arbitrary: free) auto

lemma searchLoop_append:
  "searchLoop E cb hdl event recvd (xs @ ys) ret free s =
     Option.bind (searchLoop E cb hdl event recvd xs ret free s)
       (\<lambda>(ret, free, s). searchLoop E cb hdl event recvd ys ret free s)"
  by (induction xs arbitrary: ret free s) (auto intro!: arg_cong2 [of _ _ _ _ Option.bind])

lemma search_alone:
  assumes "alone hdl i s" and c: "sdoSeqConHdl c = hdl"
    and step: "com_processState E cb i event recvd (cst s i c outs m) = Some (ret, cst s i c' outs' m')"
    and ret: "ret \<noteq> kErrorSdoComNotResponsible"
  shows "searchConnection E cb hdl event recvd (cst s i c outs m) = Some (ret, cst s i c' outs' m')"
proof -
  have i: "i < 5" and len: "length (sdoComCon s) = 5" using assms(1) by (simp_all add: alone_def)
  have other: "sdoSeqConHdl (ccon j (cst s i x y z)) \<noteq> hdl" if "j \<noteq> i" "j < 5" for j x y z
    using assms(1) that by (simp add: alone_def cst_def ccon_def)
  have split: "[0..<5] = [0..<i] @ i # [Suc i..<5]"
    using i upt_conv_Cons [of i 5] upt_add_eq_append [of 0 i "5 - i"] by simp
  obtain f1 where f1: "searchLoop E cb hdl event recvd [0..<i] kErrorSdoComNotResponsible None (cst s i c outs m)
      = Some (kErrorSdoComNotResponsible, f1, cst s i c outs m)"
    using searchLoop_others [of "[0..<i]" "cst s i c outs m" hdl] other i by fastforce
  obtain f2 where f2: "searchLoop E cb hdl event recvd [Suc i..<5] ret f1 (cst s i c' outs' m')
      = Some (ret, f2, cst s i c' outs' m')"
    using searchLoop_others [of "[Suc i..<5]" "cst s i c' outs' m'" hdl] other by fastforce
  have "searchLoop E cb hdl event recvd [0..<5] kErrorSdoComNotResponsible None (cst s i c outs m)
      = Some (ret, f2, cst s i c' outs' m')"
    unfolding split searchLoop_append f1 using c step f2 i len by simp
  then show ?thesis using ret by (simp add: searchConnection_def)
qed


text \<open>Reading a part of a block, and filling a zeroed frame.\<close>

lemma mem_read_part:
  "mem_read m off N = Some d \<Longrightarrow> k + n \<le> N \<Longrightarrow> mem_read m (off + k) n = Some (take n (drop k d))"
  by (auto simp: mem_read_def drop_take min_def add.commute split: if_splits)

section \<open>A client that writes\<close>

definition write_con ::
  "tSdoComCon \<Rightarrow> tSdoComState \<Rightarrow> com_block \<Rightarrow> nat \<Rightarrow> nat \<Rightarrow> nat \<Rightarrow> tSdoComCon" where
  "write_con c st b off N m = c\<lparr>sdoComState := st,
     sdoTransferType := (if m = 0 then kSdoTransAuto else kSdoTransSegmented),
     pData := DataPtr b (off + seg_off 248 N m), transferSize := N - seg_off 248 N m,
     transferredBytes := seg_off 248 N m\<rparr>"

definition write_hdr :: "tSdoComCon \<Rightarrow> nat \<Rightarrow> byte list" where
  "write_hdr c N = bytes_le 4 (N + 8) @ target_bytes c @ [0]"

definition write_frame :: "tSdoComCon \<Rightarrow> byte list \<Rightarrow> nat \<Rightarrow> tAsySdoCom" where
  "write_frame c d m = seg_frame (transactionId c) (service_code kSdoServiceWriteByIndex) 0
     (write_hdr c (length d)) d m"

definition data_send :: "u32 \<Rightarrow> tAsySdoCom \<Rightarrow> com_out" where
  "data_send hdl fr = ComSend hdl (8 + length (aCommandData fr)) (Some fr)"

lemma length_headers [simp]: "length (target_bytes c) = 3" "length (write_hdr c N) = 8"
  by (simp_all add: target_bytes_def write_hdr_def)

definition writes :: "tSdoComCon \<Rightarrow> com_mem \<Rightarrow> com_block \<Rightarrow> nat \<Rightarrow> byte list \<Rightarrow> bool" where
  "writes c m b off d \<longleftrightarrow> sdoServiceType c = kSdoServiceWriteByIndex \<and> client_protocol_ok c \<and>
     252 < length d \<and> length d + 8 < 2 ^ 32 \<and> mem_read (m b) off (length d) = Some d"

lemma clientSend_first:
  assumes "writes c m b off d" and "i < length (sdoComCon s)"
  shows "clientSend E cb i (cst s i (write_con c st b off (length d) 0) outs m) =
    com_sendData E cb i (8 + length (aCommandData (write_frame c d 0))) (Some (write_frame c d 0))
      (cst s i (write_con c st b off (length d) 1) outs m)"
proof -
  have bs: "mem_read (m b) off 248 = Some (take 248 d)"
    using assms(1) mem_read_part [of "m b" off "length d" d 0 248] by (simp add: writes_def)
  have "d \<noteq> []" using assms(1) by (auto simp: writes_def)
  show ?thesis
    using assms bs \<open>d \<noteq> []\<close>
    by (simp add: clientSend_def clientSendFirst_def write_con_def Let_def com_put_def mem_write_def new_frame_def
        ptr_read_def clientSendFrame_def com_sendFrame_def client_protocol_ok_def writes_def write_frame_def
        seg_frame_def ptr_add_def write_hdr_def target_bytes_def)
qed


declare com_react.simps [simp del]

lemma react_state [simp]: "com_react (Suc n) E (BackState hdl st) s =
    map_option snd (conStateChangeCb E (com_react n E) hdl st s)"
  by (simp add: com_react.simps)

lemma clientSend_next:
  assumes "writes c m b off d" and "i < length (sdoComCon s)"
    and k: "0 < k" "k < seg_count 248 (length d)"
  shows "clientSend E cb i (cst s i (write_con c st b off (length d) k) outs m) =
    com_sendData E cb i (8 + length (aCommandData (write_frame c d k))) (Some (write_frame c d k))
      (cst s i (write_con c st b off (length d) (Suc k)) outs m)"
proof -
  define p where "p = seg_off 248 (length d) k"
  obtain k' where k': "k = Suc k'" using k(1) by (cases k) simp_all
  have p: "p < length d" "0 < p" "length d < 2 ^ 32"
    using k assms(1) seg_off_less [of 248 "length d" k]
    by (auto simp: p_def writes_def k' seg_off_def)
  define n where "n = min 256 (length d - p)"
  have next_off: "seg_off 248 (length d) (Suc k) = p + n"
    using p(1) unfolding k' seg_off_Suc n_def by (simp add: p_def k' min_def, linarith)
  have bs: "mem_read (m b) (off + p) n = Some (take n (drop p d))"
    using assms(1) p by (intro mem_read_part) (auto simp: writes_def n_def)
  have frame: "write_frame c d k = \<lparr>frTransactionId = transactionId c,
      flags = (if 256 < length d - p then SDO_CMDL_FLAG_SEGMENTED else SDO_CMDL_FLAG_SEGMCOMPL),
      commandId = 1, segmentSizeLe = n, aCommandData = take n (drop p d)\<rparr>"
    using k(1) by (simp add: write_frame_def seg_frame_def Let_def p_def n_def min_def)
  have n: "n \<le> 256" "n \<le> length d - p" "0 < n" "(if 256 < length d - p then 256 else length d - p) = n"
    using p by (auto simp: n_def)
  have p_less: "p + n < 2 ^ 32" "length d - p < 2 ^ 32" using p n by auto
  have cond: "(256 < length d - p \<and> n = 256) \<or> (\<not> 256 < length d - p \<and> length d - p = n)"
    by (auto simp: n_def)
  then show ?thesis
    using assms(1, 2) k(1) p n(1-3) bs p_less
    unfolding clientSend_def clientSendNext_def frame write_con_def next_off p_def [symmetric]
    by (elim disjE conjE)
      (simp_all add: Let_def com_put_def mem_write_def new_frame_def
        ptr_read_def clientSendFrame_def com_sendFrame_def client_protocol_ok_def writes_def
        ptr_add_def advance_def sub32_eq diff_diff_add [symmetric] add.assoc del: diff_diff_left)
qed

text \<open>The lower layer accepts every frame; the application makes no calls from its callback.\<close>

definition sends_ok :: "com_env \<Rightarrow> bool" where
  "sends_ok E \<longleftrightarrow> (\<forall>outs. fst (comSend E outs) = kErrorOk)"

definition silent :: "com_env \<Rightarrow> bool" where
  "silent E \<longleftrightarrow> (\<forall>f fin outs. appCalls E f fin outs = [])"

lemma com_sendData_cases:
  assumes "sends_ok E" and "i < length (sdoComCon s)"
  shows "com_sendData E cb i n fr (cst s i c outs m) =
      Some (kErrorOk, cst s i c (outs @ [ComSend (sdoSeqConHdl c) n fr]) m) \<or>
    (fr \<noteq> None \<and> com_sendData E cb i n fr (cst s i c outs m) = map_option (Pair kErrorOk)
      (cb (BackState (sdoSeqConHdl c) kAsySdoConStateFrameSended) (cst s i c (outs @ [ComSend (sdoSeqConHdl c) n fr]) m)))"
proof -
  obtain ret sended where r: "comSend E (comOuts s @ outs @ [ComSend (sdoSeqConHdl c) n fr]) = (ret, sended)"
    by (cases "comSend E (comOuts s @ outs @ [ComSend (sdoSeqConHdl c) n fr])")
  moreover have "ret = kErrorOk" using assms(1) r by (metis sends_ok_def fst_conv)
  ultimately show ?thesis using assms(2) by (simp add: com_sendData_def Let_def)
qed

lemma com_sendAck_alone:
  "sends_ok E \<Longrightarrow> i < length (sdoComCon s) \<Longrightarrow> com_sendAck E cb i (cst s i c outs m) =
     Some (kErrorOk, cst s i c (outs @ [ComSend (sdoSeqConHdl c) 0 None]) m)"
  using com_sendData_cases [of E i s cb 0 None c outs m] by (simp add: com_sendAck_def)

definition is_progress :: "tSdoComConEvent \<Rightarrow> bool" where
  "is_progress event \<longleftrightarrow> event \<in> {kSdoComConEventSendFirst, kSdoComConEventAckReceived, kSdoComConEventFrameSended}"

definition write_sends :: "tSdoComCon \<Rightarrow> byte list \<Rightarrow> nat \<Rightarrow> nat \<Rightarrow> com_out list" where
  "write_sends c d k k' = map (\<lambda>j. data_send (sdoSeqConHdl c) (write_frame c d j)) [k..<k']"

lemma write_sends_simps [simp]: "write_sends c d k k = []"
  "k < k' \<Longrightarrow> data_send (sdoSeqConHdl c) (write_frame c d k) # write_sends c d (Suc k) k' = write_sends c d k k'"
  by (simp_all add: write_sends_def upt_conv_Cons)

definition sending :: "tSdoComState \<Rightarrow> bool" where
  "sending st \<longleftrightarrow> st = kSdoComStateClientConnected \<or> st = kSdoComStateClientSegmTrans"

lemma write_con_simps [simp]: "sdoSeqConHdl (write_con c st b off N k) = sdoSeqConHdl c"
  "sdoComState (write_con c st b off N k) = st" "sdoServiceType (write_con c st b off N k) = sdoServiceType c"
  "transferSize (write_con c st b off N k) = N - seg_off 248 N k"
  "transferredBytes (write_con c st b off N k) = seg_off 248 N k"
  "transactionId (write_con c st b off N k) = transactionId c"
  "(write_con c st b off N k)\<lparr>sdoComState := st'\<rparr> = write_con c st' b off N k"
  "0 < k \<Longrightarrow> sdoTransferType (write_con c st b off N k) = kSdoTransSegmented"
  by (simp_all add: write_con_def)

lemma write_go_on_step:
  assumes "clientSend E cb i (cst s i (write_con c st b off N k) outs m) =
      Some (kErrorOk, cst s i (write_con c st' b off N k') outs' m)"
    and "0 < k'" and "sending st" and "st = kSdoComStateClientSegmTrans \<Longrightarrow> st' = kSdoComStateClientSegmTrans"
    and "is_progress event" and "i < length (sdoComCon s)" and "sdoServiceType c = kSdoServiceWriteByIndex"
  shows "com_processState E cb i event None (cst s i (write_con c st b off N k) outs m) =
      Some (kErrorOk, cst s i (write_con c kSdoComStateClientSegmTrans b off N k') outs' m)"
proof -
  have "st = kSdoComStateClientConnected \<or> st = kSdoComStateClientSegmTrans \<and> st' = kSdoComStateClientSegmTrans"
    using assms(3, 4) by (auto simp: sending_def)
  then show ?thesis
    using assms unfolding is_progress_def
    by (auto simp: com_processState_def processStateClientConnected_def processStateClientSegmTransfer_def
        com_state_def Let_def)
qed

lemma write_all_sent:
  assumes w: "writes c m b off d" and al: "alone (sdoSeqConHdl c) i s" and "sending st" and "is_progress event"
  defines "K \<equiv> seg_count 248 (length d)"
  shows "com_processState E cb i event None (cst s i (write_con c st b off (length d) K) outs m) =
      Some (kErrorOk, cst s i (write_con c kSdoComStateClientSegmTrans b off (length d) K) outs m)"
proof -
  have service: "sdoServiceType c = kSdoServiceWriteByIndex" and big: "248 < length d"
    using w by (simp_all add: writes_def)
  have "clientSend E cb i (cst s i (write_con c st b off (length d) K) outs m) =
      Some (kErrorOk, cst s i (write_con c st b off (length d) K) outs m)"
    using alone_length [OF al] seg_off_count [OF big] by (simp add: clientSend_def K_def)
  from write_go_on_step [OF this _ assms(3) _ assms(4) alone_length [OF al] service] show ?thesis
    using seg_count_gt [OF big] by (simp add: K_def)
qed

lemma write_go_on:
  assumes w: "writes c m b off d" and al: "alone (sdoSeqConHdl c) i s" and ok: "sends_ok E"
  shows "0 < k \<Longrightarrow> k \<le> seg_count 248 (length d) \<Longrightarrow> seg_count 248 (length d) - k \<le> n \<Longrightarrow>
    sending st \<Longrightarrow> is_progress event \<Longrightarrow>
    \<exists>k'. com_processState E (com_react n E) i event None (cst s i (write_con c st b off (length d) k) outs m) =
        Some (kErrorOk, cst s i (write_con c kSdoComStateClientSegmTrans b off (length d) k')
          (outs @ write_sends c d k k') m) \<and>
      k \<le> k' \<and> k' \<le> seg_count 248 (length d) \<and> (k < seg_count 248 (length d) \<longrightarrow> k < k')"
proof (induction n arbitrary: k st event outs)
  case 0
  then have "k = seg_count 248 (length d)" by simp
  then show ?case using write_all_sent [OF w al 0(4, 5)] by (intro exI [of _ k]) simp
next
  case (Suc n)
  note len = alone_length [OF al]
  have service: "sdoServiceType c = kSdoServiceWriteByIndex" using w by (simp add: writes_def)
  show ?case
  proof (cases "k = seg_count 248 (length d)")
    case False
    then have k: "k < seg_count 248 (length d)" using Suc.prems(2) by simp
    let ?c = "\<lambda>st k. write_con c st b off (length d) k"
    let ?outs = "outs @ write_sends c d k (Suc k)"
    have send: "clientSend E (com_react (Suc n) E) i (cst s i (?c st k) outs m) =
        com_sendData E (com_react (Suc n) E) i (8 + length (aCommandData (write_frame c d k)))
          (Some (write_frame c d k)) (cst s i (?c st (Suc k)) outs m)"
      by (rule clientSend_next [OF w len Suc.prems(1) k])
    consider (full) "clientSend E (com_react (Suc n) E) i (cst s i (?c st k) outs m) =
          Some (kErrorOk, cst s i (?c st (Suc k)) ?outs m)"
      | (room) "clientSend E (com_react (Suc n) E) i (cst s i (?c st k) outs m) =
          map_option (Pair kErrorOk) (com_react (Suc n) E
            (BackState (sdoSeqConHdl c) kAsySdoConStateFrameSended) (cst s i (?c st (Suc k)) ?outs m))"
      using com_sendData_cases [OF ok len, of "com_react (Suc n) E" "8 + length (aCommandData (write_frame c d k))"
          "Some (write_frame c d k)" "?c st (Suc k)" outs m]
      unfolding send by (auto simp: write_sends_def data_send_def)
    then show ?thesis
    proof cases
      case full
      from write_go_on_step [OF full _ Suc.prems(4) _ Suc.prems(5) len service] show ?thesis
        using k by (intro exI [of _ "Suc k"]) simp
    next
      case room
      obtain k' where k': "com_processState E (com_react n E) i kSdoComConEventFrameSended None
          (cst s i (?c st (Suc k)) ?outs m) = Some (kErrorOk, cst s i (?c kSdoComStateClientSegmTrans k')
            (?outs @ write_sends c d (Suc k) k') m)"
          and le: "Suc k \<le> k'" "k' \<le> seg_count 248 (length d)"
      proof -
        have "seg_count 248 (length d) - Suc k \<le> n" using Suc.prems(3) by simp
        from Suc.IH [OF _ _ this Suc.prems(4), of kSdoComConEventFrameSended ?outs] show ?thesis
          using that k by (auto simp: is_progress_def)
      qed
      have outs': "write_sends c d k (Suc k) @ write_sends c d (Suc k) k' = write_sends c d k k'"
        using le by (simp add: write_sends_def upt_conv_Cons)
      have "com_react (Suc n) E (BackState (sdoSeqConHdl c) kAsySdoConStateFrameSended)
          (cst s i (?c st (Suc k)) ?outs m) =
          Some (cst s i (?c kSdoComStateClientSegmTrans k') (outs @ write_sends c d k k') m)"
        using search_alone [OF al _ k'] by (simp add: conStateChangeCb_def outs')
      then have "clientSend E (com_react (Suc n) E) i (cst s i (?c st k) outs m) =
          Some (kErrorOk, cst s i (?c kSdoComStateClientSegmTrans k') (outs @ write_sends c d k k') m)"
        unfolding room by simp
      from write_go_on_step [OF this _ Suc.prems(4) _ Suc.prems(5) len service] show ?thesis
        using le by (intro exI [of _ k']) simp
    qed
  next
    case True
    then show ?thesis using write_all_sent [OF w al Suc.prems(4, 5)] by (intro exI [of _ k]) simp
  qed
qed


section \<open>A server that is written to\<close>

text \<open>
  What arrives in the object: the server takes 240 bytes of the first segment, which carries 248
  (\<open>received\<close> is the data without the 8 bytes in between).
\<close>

definition received :: "byte list \<Rightarrow> byte list" where
  "received d = take 240 d @ drop 248 d"

definition stored_in :: "com_mem \<Rightarrow> com_block \<Rightarrow> nat \<Rightarrow> byte list \<Rightarrow> com_mem" where
  "stored_in m b off bs = m(b := overlay (m b) off bs)"

definition serve_off :: "nat \<Rightarrow> nat \<Rightarrow> nat" where
  "serve_off N j = seg_off 248 N j - 8"

definition serve_con ::
  "tSdoComCon \<Rightarrow> byte \<Rightarrow> com_block \<Rightarrow> nat \<Rightarrow> nat \<Rightarrow> nat \<Rightarrow> tSdoComCon" where
  "serve_con c tid b off N j = c\<lparr>transactionId := tid,
     sdoComState := (if j = seg_count 248 N then kSdoComStateIdle else kSdoComStateServerSegmTrans),
     sdoTransferType := kSdoTransSegmented, sdoServiceType := kSdoServiceWriteByIndex,
     pData := DataPtr b (off + serve_off N j),
     transferSize := (if j = seg_count 248 N then 0 else N - serve_off N j),
     transferredBytes := serve_off N j\<rparr>"

definition writable :: "com_env \<Rightarrow> com_mem \<Rightarrow> tSdoComCon \<Rightarrow> com_block \<Rightarrow> nat \<Rightarrow> nat \<Rightarrow> bool" where
  "writable E m c b off N \<longleftrightarrow> targetIndex c < 2 ^ 16 \<and> targetSubIndex c < 2 ^ 8 \<and>
     (\<exists>access. obdAccess E (targetIndex c) (targetSubIndex c) = (kErrorOk, access) \<and> access AND kObdAccWrite \<noteq> 0) \<and>
     N \<le> obdSize E (targetIndex c) (targetSubIndex c) \<and>
     obdPtr E (targetIndex c) (targetSubIndex c) = DataPtr b off \<and> off + N \<le> length (m b)"

lemma mem_read_middle: "length a = off \<Longrightarrow> length b = n \<Longrightarrow> mem_read (a @ b @ c) off n = Some b"
  by (auto simp: mem_read_def)

lemma write_frame_first:
  assumes "248 \<le> length d"
  shows "write_frame c d 0 = \<lparr>frTransactionId = transactionId c, flags = SDO_CMDL_FLAG_SEGMINIT, commandId = 1,
     segmentSizeLe = 256, aCommandData = bytes_le 4 (length d + 8) @ bytes_le 2 (targetIndex c) @
       bytes_le 1 (targetSubIndex c) @ 0 # take 248 d\<rparr>"
  by (simp add: write_frame_def seg_frame_def write_hdr_def target_bytes_def)

lemma first_fields:
  assumes "writes c m b off d" and "targetIndex c < 2 ^ 16" and "targetSubIndex c < 2 ^ 8"
  shows "com_get 4 0 (write_frame c d 0) = Some (length d + 8)"
    "com_get 2 4 (write_frame c d 0) = Some (targetIndex c)"
    "com_get 1 6 (write_frame c d 0) = Some (targetSubIndex c)"
    "mem_read (aCommandData (write_frame c d 0)) 8 240 = Some (take 240 d)"
proof -
  have d: "248 \<le> length d" "length d + 8 < 2 ^ 32" using assms(1) by (simp_all add: writes_def)
  show "com_get 4 0 (write_frame c d 0) = Some (length d + 8)"
    using d mem_read_middle [of "[]" 0 "bytes_le 4 (length d + 8)" 4]
    by (simp add: write_frame_first com_get_def value_bytes_le)
  show "com_get 2 4 (write_frame c d 0) = Some (targetIndex c)"
    using d assms(2) mem_read_middle [of "bytes_le 4 (length d + 8)" 4 "bytes_le 2 (targetIndex c)" 2]
    by (simp add: write_frame_first com_get_def value_bytes_le)
  show "com_get 1 6 (write_frame c d 0) = Some (targetSubIndex c)"
    using d assms(3) mem_read_middle [of "bytes_le 4 (length d + 8) @ bytes_le 2 (targetIndex c)" 6
        "bytes_le 1 (targetSubIndex c)" 1]
    by (simp add: write_frame_first com_get_def value_bytes_le unat_of_nat)
  have "take 248 d = take 240 d @ take 8 (drop 240 d)" using take_add [of 240 8 d] by simp
  then show "mem_read (aCommandData (write_frame c d 0)) 8 240 = Some (take 240 d)"
    using d mem_read_middle [of "bytes_le 4 (length d + 8) @ bytes_le 2 (targetIndex c) @
        bytes_le 1 (targetSubIndex c) @ [0]" 8 "take 240 d" 240]
    by (simp add: write_frame_first)
qed

lemma serve_idle:
  assumes "j < CONFIG_SDO_MAX_CONNECTION_COM" and "j < length (sdoComCon s)"
    and "sdoComState c = kSdoComStateIdle \<or>
      sdoComState c = kSdoComStateServerSegmTrans \<and> sdoServiceType c = kSdoServiceWriteByIndex"
    and "event = kSdoComConEventAckReceived \<or> event = kSdoComConEventFrameSended"
  shows "com_processState E cb j event None (cst s j c outs m) = Some (kErrorOk, cst s j c outs m)"
  using assms
  by (auto simp: com_processState_def com_processStateIdle_def processStateServerSegmTrans_def)

lemma serve_off_simps: "248 < N \<Longrightarrow> serve_off N (Suc 0) = 240"
  by (simp add: serve_off_def)

lemma serve_first:
  assumes w: "writes c m0 b0 off0 d" and ok: "sends_ok E" and wr: "writable E m c b off (length d)"
    and j: "j < length (sdoComCon s)" and idle: "sdoComState c' = kSdoComStateIdle" "lastAbortCode c' = 0"
  shows "com_processState E cb j kSdoComConEventRec (Some (write_frame c d 0)) (cst s j c' outs m) =
    Some (kErrorOk, cst s j (serve_con c' (transactionId c) b off (length d) 1)
      (outs @ [ComSend (sdoSeqConHdl c') 0 None]) (stored_in m b off (take 240 d)))"
proof -
  have d: "252 < length d" "length d + 8 < 2 ^ 32" using w by (simp_all add: writes_def)
  obtain access where access: "obdAccess E (targetIndex c) (targetSubIndex c) = (kErrorOk, access)"
      "access AND kObdAccWrite \<noteq> 0"
    using wr by (auto simp: writable_def)
  have fields: "flags (write_frame c d 0) = SDO_CMDL_FLAG_SEGMINIT" "commandId (write_frame c d 0) = 1"
    "frTransactionId (write_frame c d 0) = transactionId c" "segmentSizeLe (write_frame c d 0) = 256"
    using d by (simp_all add: write_frame_first)
  have "1 \<noteq> seg_count 248 (length d)" using seg_count_gt [of 248 "length d"] d by simp
  moreover have "mem_write (m b) off (take 240 d) = Some (overlay (m b) off (take 240 d))"
    using wr d by (auto simp: mem_write_def overlay_def writable_def)
  moreover have "take 240 d \<noteq> []" using d by auto
  moreover have "sub32 256 16 = 240" "sub32 (length d + 8) 8 = length d" "sub32 (length d) 240 = length d - 240"
    using d by (simp_all add: sub32_eq)
  ultimately show ?thesis
    using first_fields [OF w] wr access fields d idle j com_sendAck_alone [OF ok j]
    by (cases c') (simp add: com_processState_def com_processStateIdle_def serverInitWriteByIndex_def serverWriteChecked_def
        serverWriteSegmented_def Let_def writable_def ptr_write_def ptr_add_def server_next_state_def com_state_def
        stored_in_def serve_con_def serve_off_simps)
qed

lemma serve_off_Suc:
  assumes "248 < length d" and "0 < j" and "j < seg_count 248 (length d)"
  defines "p \<equiv> seg_off 248 (length d) j" and "n \<equiv> min 256 (length d - seg_off 248 (length d) j)"
  shows "serve_off (length d) (Suc j) = serve_off (length d) j + n" "240 \<le> serve_off (length d) j"
    "serve_off (length d) j = p - 8" "248 \<le> p" "p < length d"
    "take (serve_off (length d) (Suc j)) (received d) =
       take (serve_off (length d) j) (received d) @ take 256 (drop p d)"
    "Suc j = seg_count 248 (length d) \<longleftrightarrow> length d - p \<le> 256"
proof -
  obtain k where k: "j = Suc k" using assms(2) by (cases j) simp_all
  show p: "p < length d" using assms(1, 3) seg_off_less [of 248 "length d" j] by (simp add: p_def)
  show p': "248 \<le> p" using assms(1) by (simp add: p_def k seg_off_def)
  show w: "serve_off (length d) j = p - 8" by (simp add: serve_off_def p_def)
  show "240 \<le> serve_off (length d) j" using p' w by simp
  have Suc: "seg_off 248 (length d) (Suc j) = p + n"
    using p unfolding k seg_off_Suc n_def by (simp add: p_def k min_def, linarith)
  then show S: "serve_off (length d) (Suc j) = serve_off (length d) j + n"
    using p' w by (simp add: serve_off_def)
  have "drop (p - 8) (received d) = drop p d"
    using p p' assms(1) by (simp add: received_def)
  moreover have "take n (drop p d) = take 256 (drop p d)" using p by (simp add: n_def p_def min_def)
  ultimately show "take (serve_off (length d) (Suc j)) (received d) =
       take (serve_off (length d) j) (received d) @ take 256 (drop p d)"
    unfolding S take_add w by simp
  have "Suc j = seg_count 248 (length d) \<longleftrightarrow> \<not> p + n < length d"
    using Suc seg_off_less [OF assms(1), of "Suc j"] assms(3) by auto
  then show "Suc j = seg_count 248 (length d) \<longleftrightarrow> length d - p \<le> 256"
    using p by (auto simp: n_def p_def)
qed


definition write_response :: "byte \<Rightarrow> tAsySdoCom" where
  "write_response tid = \<lparr>frTransactionId = tid, flags = SDO_CMDL_FLAG_RESPONSE OR SDO_CMDL_FLAG_SEGMCOMPL,
     commandId = 1, segmentSizeLe = 0, aCommandData = []\<rparr>"

definition serve_send :: "u32 \<Rightarrow> byte \<Rightarrow> nat \<Rightarrow> nat \<Rightarrow> com_out" where
  "serve_send hdl tid N j =
     (if Suc j = seg_count 248 N then data_send hdl (write_response tid) else ComSend hdl 0 None)"

lemma stored_in_append:
  assumes "off + length bs + length bs' \<le> length (m b)" and "bs' \<noteq> []"
  shows "ptr_write (DataPtr b (off + length bs)) bs' (stored_in m b off bs) = Some (stored_in m b off (bs @ bs'))"
  using assms by (simp add: ptr_write_def stored_in_def overlay_append)

lemma serve_next:
  assumes w: "writes c m0 b0 off0 d" and ok: "sends_ok E" and wr: "writable E m c b off (length d)"
    and al: "alone (sdoSeqConHdl c') i s" and idle: "lastAbortCode c' = 0"
    and j: "0 < j" "j < seg_count 248 (length d)"
  shows "com_processState E (com_react (Suc n) E) i kSdoComConEventRec (Some (write_frame c d j))
      (cst s i (serve_con c' (transactionId c) b off (length d) j) outs
        (stored_in m b off (take (serve_off (length d) j) (received d)))) =
    Some (kErrorOk, cst s i (serve_con c' (transactionId c) b off (length d) (Suc j))
      (outs @ [serve_send (sdoSeqConHdl c') (transactionId c) (length d) j])
      (stored_in m b off (take (serve_off (length d) (Suc j)) (received d))))"
proof -
  have big: "248 < length d" "length d < 2 ^ 32" using w by (simp_all add: writes_def)
  define p where "p = seg_off 248 (length d) j"
  define v where "v = serve_off (length d) j"
  define bs where "bs = take 256 (drop p d)"
  note off = serve_off_Suc [OF big(1) j, folded p_def v_def bs_def]
  have len: "length bs = min 256 (length d - p)" "bs \<noteq> []" using off(5) by (simp_all add: bs_def min_def)
  have frame: "write_frame c d j = \<lparr>frTransactionId = transactionId c,
      flags = (if 256 < length d - p then SDO_CMDL_FLAG_SEGMENTED else SDO_CMDL_FLAG_SEGMCOMPL),
      commandId = 1, segmentSizeLe = length bs, aCommandData = bs\<rparr>"
    using j(1) len by (simp add: write_frame_def seg_frame_def Let_def p_def bs_def)
  have lv: "length (take v (received d)) = v"
    using off(3-5) by (simp add: received_def)
  have put: "ptr_write (DataPtr b (off + v)) bs (stored_in m b off (take v (received d))) =
      Some (stored_in m b off (take (serve_off (length d) (Suc j)) (received d)))"
    unfolding off(6) using stored_in_append [of off "take v (received d)" bs m b] lv wr off(3-5) len
    by (auto simp: writable_def)
  have room: "length bs \<le> length d - v" "wrap32 (v + length bs) = serve_off (length d) (Suc j)"
    using len off(1, 3-5) big by auto
  have i: "i < length (sdoComCon s)" "i < CONFIG_SDO_MAX_CONNECTION_COM"
    using al by (simp_all add: alone_def)
  let ?c = "serve_con c' (transactionId c) b off (length d)"
  have fields: "sdoComState (?c j) = kSdoComStateServerSegmTrans" "transactionId (?c j) = transactionId c"
    "sdoServiceType (?c j) = kSdoServiceWriteByIndex" "transferSize (?c j) = length d - v"
    "lastAbortCode (?c j) = 0" "pData (?c j) = DataPtr b (off + v)" "transferredBytes (?c j) = v"
    using j idle by (auto simp: serve_con_def v_def)
  show ?thesis
  proof (cases "256 < length d - p")
    case True
    then have last: "Suc j \<noteq> seg_count 248 (length d)" using off(7) by simp
    then show ?thesis
      using True i fields put room com_sendAck_alone [OF ok i(1)] off(1) len
      by (cases c') (simp add: com_processState_def processStateServerSegmTrans_def frame serverSegment_def Let_def
          store_data_def mem_read_def serve_send_def ptr_add_def serve_con_def add.assoc)
  next
    case False
    then have last: "Suc j = seg_count 248 (length d)" using off(7) by simp
    define D where "D = (?c (Suc j))\<lparr>sdoComState := kSdoComStateServerSegmTrans\<rparr>"
    define m' where "m' = stored_in m b off (take (serve_off (length d) (Suc j)) (received d))"
    have D: "sdoComState D = kSdoComStateServerSegmTrans" "sdoServiceType D = kSdoServiceWriteByIndex"
      "sdoSeqConHdl D = sdoSeqConHdl c'" "transferSize D = 0" "sdoTransferType D = kSdoTransSegmented"
      "transferredBytes D = v + length bs" "pData D = DataPtr b (off + (v + length bs))"
      "transactionId D = transactionId c" "lastAbortCode D = 0"
      using off(1) len idle last by (simp_all add: D_def serve_con_def)
    have noop: "com_processState E (com_react n E) i kSdoComConEventFrameSended None (cst s i D o1 m') =
        Some (kErrorOk, cst s i D o1 m')" for o1
      using serve_idle [OF i(2, 1), of D] D(1, 2) by simp
    have sent: "com_sendData E (com_react (Suc n) E) i 8 (Some (write_response (transactionId c)))
        (cst s i D outs m') = Some (kErrorOk, cst s i D (outs @ [data_send (sdoSeqConHdl c')
          (write_response (transactionId c))]) m')"
      using com_sendData_cases [OF ok i(1), of "com_react (Suc n) E" 8 "Some (write_response (transactionId c))" D outs m']
        search_alone [OF al _ noop] D(3)
      by (auto simp: conStateChangeCb_def data_send_def write_response_def)
    have "advance i 0 (cst s i D outs m') = cst s i D outs m'"
      using i D room(2) off(1) len by (cases D) (simp add: advance_def ptr_add_def sub32_eq)
    then have "serverSendFrame E (com_react (Suc n) E) i 0 0 kSdoComSendTypeRes (cst s i D outs m') =
        Some (kErrorOk, cst s i D (outs @ [data_send (sdoSeqConHdl c') (write_response (transactionId c))]) m')"
      using D off(2) sent i
      by (simp add: serverSendFrame_def sendSegment_def new_frame_def Let_def ptr_read_def com_put_def mem_write_def
          com_sendFrame_def write_response_def)
    moreover have "cupd i (\<lambda>c. c\<lparr>transferSize := 0\<rparr>) (cupd i (\<lambda>c. c\<lparr>transferredBytes := wrap32 (transferredBytes c + length bs),
        transferSize := transferSize c - length bs\<rparr>) (cst s i ((?c j)\<lparr>pData := ptr_add (pData (?c j)) (length bs)\<rparr>)
          outs m')) = cst s i D outs m'"
      using i fields room(2) off(1) len
      by (cases c') (simp add: D_def serve_con_def ptr_add_def add.assoc last j)
    moreover have "D\<lparr>sdoComState := kSdoComStateIdle, lastAbortCode := 0\<rparr> = ?c (Suc j)"
      using last idle by (cases c') (simp add: D_def serve_con_def)
    ultimately show ?thesis
      using False i fields put room(1) D(4, 9) last
      by (simp add: com_processState_def processStateServerSegmTrans_def frame serverSegment_def Let_def
          store_data_def mem_read_def serve_send_def m'_def v_def [symmetric])
  qed
qed


section \<open>The end of a write\<close>

lemma react_finished: "silent E \<Longrightarrow> com_react (Suc n) E (BackFinished f fin) s = Some s"
  by (simp add: com_react.simps silent_def)

definition done_con :: "tSdoComCon \<Rightarrow> tSdoComState \<Rightarrow> tSdoComCon" where
  "done_con c st = c\<lparr>transactionId := transactionId c + 1, lastAbortCode := 0,
     transferredBytes := 0, transferSize := 0, pfnTransferFinished := None, sdoComState := st\<rparr>"

text \<open>What the application is told.\<close>

definition finished_ok :: "nat \<Rightarrow> tSdoComCon \<Rightarrow> nat \<Rightarrow> tSdoComFinished" where
  "finished_ok i c N =
     (finished_info i kSdoComTransferFinished c)\<lparr>finAbortCode := 0, finTransferredBytes := N\<rparr>"

lemma client_done_alone:
  assumes "silent E" and "i < length (sdoComCon s)" and "pfnTransferFinished c = Some f"
  shows "client_done (com_react (Suc n) E) i kSdoComTransferFinished 0 (cst s i c outs m) =
    Some (kErrorOk, cst s i (done_con c (sdoComState c))
      (outs @ [ComFinished f (finished_ok i c (transferredBytes c))]) m)"
  using assms
  by (cases c) (simp add: client_done_def transferFinished_def react_finished done_con_def finished_info_def
      finished_ok_def)

lemma write_finished:
  assumes w: "writes c m b off d" and ok: "sends_ok E" "silent E" and i: "i < length (sdoComCon s)"
    and f: "pfnTransferFinished c = Some f"
  defines "K \<equiv> seg_count 248 (length d)"
  shows "com_processState E (com_react (Suc n) E) i kSdoComConEventRec (Some (write_response (transactionId c)))
      (cst s i (write_con c kSdoComStateClientSegmTrans b off (length d) K) outs m) =
    Some (kErrorOk, cst s i (done_con (write_con c kSdoComStateClientConnected b off (length d) K) kSdoComStateClientConnected)
      (outs @ [ComSend (sdoSeqConHdl c) 0 None, ComFinished f (finished_ok i c (length d))]) m)"
proof -
  let ?c = "write_con c kSdoComStateClientConnected b off (length d) K"
  have w': "sdoServiceType c = kSdoServiceWriteByIndex" and big: "248 < length d"
    using w by (simp_all add: writes_def)
  have off: "seg_off 248 (length d) K = length d" using seg_off_count [OF big] by (simp add: K_def)
  have fin: "finished_ok i ?c (length d) = finished_ok i c (length d)"
    by (simp add: finished_ok_def finished_info_def write_con_def)
  have fc: "pfnTransferFinished ?c = Some f" using f by (simp add: write_con_def)
  have flags: "flags (write_response (transactionId c)) AND SDO_CMDL_FLAG_RESPONSE \<noteq> 0"
      "flags (write_response (transactionId c)) AND SDO_CMDL_FLAG_ABORT = 0"
    by (simp_all add: write_response_def)
  have process: "clientProcessFrame E (com_react (Suc n) E) i (write_response (transactionId c))
      (cst s i (write_con c kSdoComStateClientSegmTrans b off (length d) K) outs m) =
      Some (kErrorOk, cst s i (write_con c kSdoComStateClientSegmTrans b off (length d) K) outs m)"
    using i w' by (simp add: clientProcessFrame_def write_response_def)
  have resp: "is_response (write_response (transactionId c)) (write_con c kSdoComStateClientSegmTrans b off (length d) K)"
    using flags by (simp add: is_response_def write_response_def)
  show ?thesis
    using resp flags process off i com_sendAck_alone [OF ok(1) i] client_done_alone [OF ok(2) i fc, of n]
    by (simp add: com_processState_def processStateClientSegmTransfer_def clientResponse_def Let_def com_state_def fin)
qed

text \<open>Behind the end, an acknowledge or a sent frame changes at most the state.\<close>

lemma done_idle:
  assumes "i < length (sdoComCon s)" and "sending st" and "event = kSdoComConEventAckReceived \<or> event = kSdoComConEventFrameSended"
    and "sdoServiceType c = kSdoServiceWriteByIndex \<or> st = kSdoComStateClientConnected"
  obtains st' where "sending st'" and "sdoTransferType c \<noteq> kSdoTransSegmented \<Longrightarrow> st' = st"
    and "com_processState E cb i event None (cst s i (done_con c st) outs m) =
      Some (kErrorOk, cst s i (done_con c st') outs m)"
proof
  let ?st = "if sdoTransferType c = kSdoTransSegmented then kSdoComStateClientSegmTrans else st"
  show "sending ?st" using assms(2) by (simp add: sending_def)
  show "?st = st" if "sdoTransferType c \<noteq> kSdoTransSegmented" using that by simp
  have event: "is_progress event" "event \<noteq> kSdoComConEventRec" using assms(3) by (auto simp: is_progress_def)
  show "com_processState E cb i event None (cst s i (done_con c st) outs m) =
      Some (kErrorOk, cst s i (done_con c ?st) outs m)"
    using assms event unfolding is_progress_def sending_def
    by (elim disjE) (auto simp: com_processState_def processStateClientConnected_def processStateClientSegmTransfer_def
        clientSend_def Let_def com_state_def done_con_def)
qed


section \<open>Requests and deliveries\<close>

lemma step_alone:
  assumes "alone hdl i s" and "sdoSeqConHdl c = hdl"
  shows "com_processState E (com_react n E) i kSdoComConEventRec (Some fr) (cst s i c outs m) =
      Some (kErrorOk, cst s i c' outs' m') \<Longrightarrow>
    com_step n E (ComReceive hdl fr) (cst s i c outs m) = Some (cst s i c' outs' m')"
  and "com_processState E (com_react n E) i (state_event st) None (cst s i c outs m) =
      Some (kErrorOk, cst s i c' outs' m') \<Longrightarrow>
    com_step n E (ComConState hdl st) (cst s i c outs m) = Some (cst s i c' outs' m')"
  using search_alone [OF assms]
  by (simp_all add: com_step_def com_receiveCb_def conStateChangeCb_def)

definition client_ready :: "u32 \<Rightarrow> nat \<Rightarrow> com_sys \<Rightarrow> bool" where
  "client_ready hdl i s \<longleftrightarrow> alone hdl i s \<and> hdl \<noteq> 0 \<and> sdoComState (ccon i s) = kSdoComStateClientConnected \<and>
     client_protocol_ok (ccon i s) \<and> transferSize (ccon i s) = 0 \<and> transferredBytes (ccon i s) = 0"

definition server_ready :: "u32 \<Rightarrow> nat \<Rightarrow> com_sys \<Rightarrow> bool" where
  "server_ready hdl i s \<longleftrightarrow> alone hdl i s \<and> sdoComState (ccon i s) = kSdoComStateIdle \<and> lastAbortCode (ccon i s) = 0"

text \<open>A request of the application for the buffer of \<open>N\<close> bytes at \<open>off\<close> of the block \<open>b\<close>.\<close>

definition request ::
  "tSdoComTransParamByIndex \<Rightarrow> nat \<Rightarrow> tSdoAccessType \<Rightarrow> com_block \<Rightarrow> nat \<Rightarrow> nat \<Rightarrow> nat \<Rightarrow> bool" where
  "request par i access b off N f \<longleftrightarrow> parConHdl par = i \<and> parAccessType par = access \<and>
     parData par = DataPtr b off \<and> parDataSize par = N \<and> 0 < N \<and> N + 8 < 2 ^ 32 \<and> parFinishedCb par = Some f \<and>
     0 < parIndex par \<and> parIndex par \<le> 0xFFFF \<and> parSubindex par < 0xFF"

definition request_con :: "tSdoComTransParamByIndex \<Rightarrow> tSdoComCon \<Rightarrow> tSdoComCon" where
  "request_con par c = c\<lparr>pfnTransferFinished := parFinishedCb par, pUserArg := parUserArg par,
     sdoServiceType := (if parAccessType par = kSdoAccessTypeRead then kSdoServiceReadByIndex
                        else kSdoServiceWriteByIndex),
     pData := parData par, transferSize := parDataSize par, transferredBytes := 0,
     lastAbortCode := 0, sdoTransferType := kSdoTransAuto,
     targetIndex := parIndex par, targetSubIndex := parSubindex par\<rparr>"

lemma request_starts:
  assumes "client_ready hdl i s" and "request par i access b off N f"
  shows "sdocom_initTransferByIndex E cb par s =
    processStateClientConnected E cb i kSdoComConEventSendFirst None
      (cst s i (request_con par (ccon i s)) [ComAccepted i] (comMem s))"
proof -
  have i: "i < CONFIG_SDO_MAX_CONNECTION_COM" "i < length (sdoComCon s)" "sdoSeqConHdl (ccon i s) \<noteq> 0"
    using assms(1) by (auto simp: client_ready_def alone_def)
  have "cupd i (request_con par) (com_log (ComAccepted i) s) =
      cst s i (request_con par (ccon i s)) [ComAccepted i] (comMem s)"
    by (simp add: cupd_def com_log_def cst_def ccon_def)
  then show ?thesis
    using assms i
    by (simp add: sdocom_initTransferByIndex_def request_def client_ready_def com_processState_def
        request_con_def [abs_def] Let_def wrap32_def)
qed

lemma request_con_fields [simp]:
  "sdoSeqConHdl (request_con par c) = sdoSeqConHdl c" "transactionId (request_con par c) = transactionId c"
  "targetIndex (request_con par c) = parIndex par" "targetSubIndex (request_con par c) = parSubindex par"
  "pfnTransferFinished (request_con par c) = parFinishedCb par" "sdoComState (request_con par c) = sdoComState c"
  "client_protocol_ok (request_con par c) = client_protocol_ok c"
  by (simp_all add: request_con_def client_protocol_ok_def)

lemma write_first_sent:
  assumes w: "writes c m b off d" and al: "alone (sdoSeqConHdl c) i s" and ok: "sends_ok E"
    and n: "seg_count 248 (length d) \<le> n"
  obtains k st where "0 < k" and "k \<le> seg_count 248 (length d)" and
    "clientSend E (com_react n E) i (cst s i (write_con c kSdoComStateClientConnected b off (length d) 0) outs m) =
      Some (kErrorOk, cst s i (write_con c st b off (length d) k) (outs @ write_sends c d 0 k) m)"
proof -
  note len = alone_length [OF al]
  let ?c = "\<lambda>st k. write_con c st b off (length d) k"
  let ?st = kSdoComStateClientConnected
  let ?outs = "outs @ write_sends c d 0 1"
  have K: "1 < seg_count 248 (length d)" using w seg_count_gt [of 248 "length d"] by (simp add: writes_def)
  then obtain n' where n': "n = Suc n'" using n by (cases n) simp_all
  consider (full) "clientSend E (com_react n E) i (cst s i (?c ?st 0) outs m) =
        Some (kErrorOk, cst s i (?c ?st 1) ?outs m)"
    | (room) "clientSend E (com_react n E) i (cst s i (?c ?st 0) outs m) = map_option (Pair kErrorOk)
        (com_react n E (BackState (sdoSeqConHdl c) kAsySdoConStateFrameSended) (cst s i (?c ?st 1) ?outs m))"
    using com_sendData_cases [OF ok len, of "com_react n E" "8 + length (aCommandData (write_frame c d 0))"
        "Some (write_frame c d 0)" "?c ?st 1" outs m]
    unfolding clientSend_first [OF w len] by (auto simp: write_sends_def data_send_def)
  then show ?thesis
  proof cases
    case full
    then show ?thesis using K by (intro that [of 1 ?st]) simp_all
  next
    case room
    have "seg_count 248 (length d) - 1 \<le> n'" using n n' by simp
    then obtain k where k: "com_processState E (com_react n' E) i kSdoComConEventFrameSended None
        (cst s i (?c ?st 1) ?outs m) =
        Some (kErrorOk, cst s i (?c kSdoComStateClientSegmTrans k) (?outs @ write_sends c d 1 k) m)"
        and le: "1 \<le> k" "k \<le> seg_count 248 (length d)"
      using write_go_on [OF w al ok, of 1 n' ?st kSdoComConEventFrameSended ?outs] K
      by (auto simp: sending_def is_progress_def)
    have "write_sends c d 0 1 @ write_sends c d 1 k = write_sends c d 0 k"
      using le by (simp add: write_sends_def upt_conv_Cons)
    then have "com_react n E (BackState (sdoSeqConHdl c) kAsySdoConStateFrameSended) (cst s i (?c ?st 1) ?outs m) =
        Some (cst s i (?c kSdoComStateClientSegmTrans k) (outs @ write_sends c d 0 k) m)"
      using search_alone [OF al _ k] by (simp add: conStateChangeCb_def n')
    then show ?thesis using room le by (intro that [of k kSdoComStateClientSegmTrans]) simp_all
  qed
qed

lemma write_starts:
  assumes ready: "client_ready hdl i s" and req: "request par i kSdoAccessTypeWrite b off (length d) f"
    and d: "252 < length d" "mem_read (comMem s b) off (length d) = Some d" and ok: "sends_ok E"
    and n: "seg_count 248 (length d) \<le> n"
    and c: "c = request_con par (ccon i s)"
  obtains k where "writes c (comMem s) b off d" and "sdoSeqConHdl c = hdl" and "0 < k" and "k \<le> seg_count 248 (length d)"
    and "sdocom_initTransferByIndex E (com_react n E) par s =
        Some (kErrorOk, cst s i (write_con c kSdoComStateClientSegmTrans b off (length d) k)
          (ComAccepted i # write_sends c d 0 k) (comMem s))"
proof -
  have al: "alone hdl i s" and st: "sdoComState (ccon i s) = kSdoComStateClientConnected"
      and prot: "client_protocol_ok (ccon i s)"
    using ready by (simp_all add: client_ready_def)
  have hdl: "sdoSeqConHdl c = hdl" using al by (simp add: alone_def c)
  have w: "writes c (comMem s) b off d"
    using req d prot by (simp add: writes_def request_def c) (simp add: request_con_def)
  have c0: "write_con c kSdoComStateClientConnected b off (length d) 0 = c"
    using req st by (cases "ccon i s") (simp add: c request_con_def write_con_def request_def)
  obtain k st' where k: "0 < k" "k \<le> seg_count 248 (length d)" and sent: "clientSend E (com_react n E) i
      (cst s i (write_con c kSdoComStateClientConnected b off (length d) 0) [ComAccepted i] (comMem s)) =
      Some (kErrorOk, cst s i (write_con c st' b off (length d) k) ([ComAccepted i] @ write_sends c d 0 k) (comMem s))"
    using write_first_sent [OF w _ ok n] al hdl by blast
  have "com_processState E (com_react n E) i kSdoComConEventSendFirst None (cst s i c [ComAccepted i] (comMem s)) =
      Some (kErrorOk, cst s i (write_con c kSdoComStateClientSegmTrans b off (length d) k)
        (ComAccepted i # write_sends c d 0 k) (comMem s))"
    using write_go_on_step [OF sent k(1) _ _ _ alone_length [OF al], of kSdoComConEventSendFirst] w
    unfolding c0 by (simp add: sending_def is_progress_def writes_def)
  moreover have "sdoComState c = kSdoComStateClientConnected" using st by (simp add: c)
  ultimately have "sdocom_initTransferByIndex E (com_react n E) par s =
      Some (kErrorOk, cst s i (write_con c kSdoComStateClientSegmTrans b off (length d) k)
        (ComAccepted i # write_sends c d 0 k) (comMem s))"
    using request_starts [OF ready req, of E "com_react n E"] alone_length [OF al]
    by (simp add: com_processState_def c)
  then show ?thesis using that w hdl k by blast
qed


section \<open>The whole write\<close>

record write_run =
  wrLink :: link_env
  wrClient :: com_sys \<comment> \<open>the client before the request\<close>
  wrClientCon :: nat
  wrRequest :: tSdoComCon
  wrBlock :: com_block \<comment> \<open>where the data is read\<close>
  wrOff :: nat
  wrData :: "byte list"
  wrCallback :: nat
  wrServer :: com_sys
  wrServerCon :: nat
  wrObject :: com_block \<comment> \<open>where it is written\<close>
  wrObjectOff :: nat

definition wr_count :: "write_run \<Rightarrow> nat" where
  "wr_count R = seg_count 248 (length (wrData R))"

definition write_setup :: "write_run \<Rightarrow> bool" where
  "write_setup R \<longleftrightarrow> (let L = wrLink R; c = wrRequest R; d = wrData R in
     sends_ok (envClient L) \<and> silent (envClient L) \<and> sends_ok (envServer L) \<and>
     alone (hdlClient L) (wrClientCon R) (wrClient R) \<and> sdoSeqConHdl c = hdlClient L \<and>
     writes c (comMem (wrClient R)) (wrBlock R) (wrOff R) d \<and> pfnTransferFinished c = Some (wrCallback R) \<and>
     server_ready (hdlServer L) (wrServerCon R) (wrServer R) \<and>
     writable (envServer L) (comMem (wrServer R)) c (wrObject R) (wrObjectOff R) (length d) \<and>
     wr_count R \<le> envDepth L)"

definition wr_client :: "write_run \<Rightarrow> nat \<Rightarrow> com_sys" where
  "wr_client R m = cst (wrClient R) (wrClientCon R)
     (write_con (wrRequest R) kSdoComStateClientSegmTrans (wrBlock R) (wrOff R) (length (wrData R)) m)
     (ComAccepted (wrClientCon R) # write_sends (wrRequest R) (wrData R) 0 m) (comMem (wrClient R))"

definition wr_report :: "write_run \<Rightarrow> com_out" where
  "wr_report R = ComFinished (wrCallback R) (finished_ok (wrClientCon R) (wrRequest R) (length (wrData R)))"

definition wr_done :: "write_run \<Rightarrow> tSdoComState \<Rightarrow> com_sys" where
  "wr_done R st = cst (wrClient R) (wrClientCon R)
     (done_con (write_con (wrRequest R) kSdoComStateClientConnected (wrBlock R) (wrOff R)
        (length (wrData R)) (wr_count R)) st)
     (ComAccepted (wrClientCon R) # write_sends (wrRequest R) (wrData R) 0 (wr_count R) @
        [ComSend (hdlClient (wrLink R)) 0 None, wr_report R])
     (comMem (wrClient R))"

definition wr_server :: "write_run \<Rightarrow> nat \<Rightarrow> com_sys" where
  "wr_server R j = (let c = ccon (wrServerCon R) (wrServer R); N = length (wrData R); tid = transactionId (wrRequest R) in
     if j = 0 then cst (wrServer R) (wrServerCon R) c [] (comMem (wrServer R))
     else cst (wrServer R) (wrServerCon R) (serve_con c tid (wrObject R) (wrObjectOff R) N j)
       (map (serve_send (sdoSeqConHdl c) tid N) [0..<j])
       (stored_in (comMem (wrServer R)) (wrObject R) (wrObjectOff R) (take (serve_off N j) (received (wrData R)))))"

lemma write_setupD:
  assumes "write_setup R"
  shows "sends_ok (envClient (wrLink R))" "silent (envClient (wrLink R))" "sends_ok (envServer (wrLink R))"
    "alone (hdlClient (wrLink R)) (wrClientCon R) (wrClient R)"
    "sdoSeqConHdl (wrRequest R) = hdlClient (wrLink R)"
    "writes (wrRequest R) (comMem (wrClient R)) (wrBlock R) (wrOff R) (wrData R)"
    "pfnTransferFinished (wrRequest R) = Some (wrCallback R)"
    "server_ready (hdlServer (wrLink R)) (wrServerCon R) (wrServer R)"
    "alone (hdlServer (wrLink R)) (wrServerCon R) (wrServer R)"
    "sdoSeqConHdl (ccon (wrServerCon R) (wrServer R)) = hdlServer (wrLink R)"
    "writable (envServer (wrLink R)) (comMem (wrServer R)) (wrRequest R) (wrObject R) (wrObjectOff R) (length (wrData R))"
    "wr_count R \<le> envDepth (wrLink R)" "1 < wr_count R" "248 < length (wrData R)"
  using assms seg_count_gt [of 248 "length (wrData R)"]
  by (simp_all add: write_setup_def Let_def server_ready_def alone_def wr_count_def writes_def)

lemma wr_depth: "write_setup R \<Longrightarrow> \<exists>n. envDepth (wrLink R) = Suc n"
  using write_setupD(12, 13) [of R] by (intro exI [of _ "envDepth (wrLink R) - 1"]) simp

lemma wr_client_goes_on:
  assumes "write_setup R" and m: "0 < m" "m \<le> wr_count R"
    and st: "st = kAsySdoConStateAckReceived \<or> st = kAsySdoConStateFrameSended"
  obtains m' where "m \<le> m'" and "m' \<le> wr_count R" and "m < wr_count R \<Longrightarrow> m < m'"
    and "com_step (envDepth (wrLink R)) (envClient (wrLink R)) (ComConState (hdlClient (wrLink R)) st) (wr_client R m) =
      Some (wr_client R m')"
proof -
  note S = write_setupD [OF assms(1)]
  have "wr_count R - m \<le> envDepth (wrLink R)" using S(12) by simp
  with write_go_on [OF S(6) S(4) [folded S(5)] S(1) m(1) m(2) [unfolded wr_count_def], of "envDepth (wrLink R)"
      kSdoComStateClientSegmTrans "state_event st" "ComAccepted (wrClientCon R) # write_sends (wrRequest R) (wrData R) 0 m"]
  obtain m' where m': "com_processState (envClient (wrLink R)) (com_react (envDepth (wrLink R)) (envClient (wrLink R)))
      (wrClientCon R) (state_event st) None (wr_client R m) =
      Some (kErrorOk, cst (wrClient R) (wrClientCon R)
        (write_con (wrRequest R) kSdoComStateClientSegmTrans (wrBlock R) (wrOff R) (length (wrData R)) m')
        ((ComAccepted (wrClientCon R) # write_sends (wrRequest R) (wrData R) 0 m) @
          write_sends (wrRequest R) (wrData R) m m') (comMem (wrClient R)))"
      and le: "m \<le> m'" "m' \<le> wr_count R" "m < wr_count R \<Longrightarrow> m < m'"
    using st by (auto simp: wr_count_def wr_client_def sending_def is_progress_def)
  have "write_sends (wrRequest R) (wrData R) 0 m @ write_sends (wrRequest R) (wrData R) m m' =
      write_sends (wrRequest R) (wrData R) 0 m'"
    using upt_add_eq_append [of 0 m "m' - m"] le by (simp add: write_sends_def)
  then have "com_step (envDepth (wrLink R)) (envClient (wrLink R)) (ComConState (hdlClient (wrLink R)) st) (wr_client R m) =
      Some (wr_client R m')"
    using step_alone(2) [OF S(4) _ m' [unfolded wr_client_def]] S(5) by (simp add: wr_client_def)
  then show ?thesis using that le by blast
qed

lemma wr_client_finishes:
  assumes "write_setup R"
  shows "com_step (envDepth (wrLink R)) (envClient (wrLink R))
      (ComReceive (hdlClient (wrLink R)) (write_response (transactionId (wrRequest R)))) (wr_client R (wr_count R)) =
    Some (wr_done R kSdoComStateClientConnected)"
proof -
  note S = write_setupD [OF assms]
  obtain n where n: "envDepth (wrLink R) = Suc n" using wr_depth [OF assms] ..
  show ?thesis
    using step_alone(1) [OF S(4) _ write_finished [OF S(6, 1, 2) alone_length [OF S(4)] S(7)]] S(5)
    by (simp add: wr_client_def wr_done_def wr_count_def wr_report_def n)
qed

lemma wr_client_idles:
  assumes "write_setup R" and "sending st" and ev: "ev = kAsySdoConStateAckReceived \<or> ev = kAsySdoConStateFrameSended"
  obtains st' where "sending st'" and "com_step (envDepth (wrLink R)) (envClient (wrLink R))
    (ComConState (hdlClient (wrLink R)) ev) (wr_done R st) = Some (wr_done R st')"
proof -
  note S = write_setupD [OF assms(1)]
  have service: "sdoServiceType (write_con (wrRequest R) st' b off N k) = kSdoServiceWriteByIndex" for st' b off N k
    using S(6) by (simp add: writes_def)
  have hdl: "sdoSeqConHdl (done_con (write_con (wrRequest R) st1 b off N k) st2) = hdlClient (wrLink R)" for st1 b off N k st2
    using S(5) by (simp add: done_con_def)
  have ev': "state_event ev = kSdoComConEventAckReceived \<or> state_event ev = kSdoComConEventFrameSended"
    using ev by auto
  show ?thesis
  proof (rule done_idle [OF alone_length [OF S(4)] assms(2) ev' disjI1 [OF service]])
    fix st'
    assume "sending st'" and step: "com_processState (envClient (wrLink R))
      (com_react (envDepth (wrLink R)) (envClient (wrLink R))) (wrClientCon R) (state_event ev) None
      (cst (wrClient R) (wrClientCon R) (done_con (write_con (wrRequest R) kSdoComStateClientConnected (wrBlock R)
        (wrOff R) (length (wrData R)) (wr_count R)) st)
      (ComAccepted (wrClientCon R) # write_sends (wrRequest R) (wrData R) 0 (wr_count R) @
        [ComSend (hdlClient (wrLink R)) 0 None, wr_report R]) (comMem (wrClient R))) =
      Some (kErrorOk, cst (wrClient R) (wrClientCon R) (done_con (write_con (wrRequest R) kSdoComStateClientConnected (wrBlock R)
        (wrOff R) (length (wrData R)) (wr_count R)) st')
      (ComAccepted (wrClientCon R) # write_sends (wrRequest R) (wrData R) 0 (wr_count R) @
        [ComSend (hdlClient (wrLink R)) 0 None, wr_report R]) (comMem (wrClient R)))"
    then show thesis
      using that step_alone(2) [OF S(4) hdl step] by (simp add: wr_done_def)
  qed
qed


lemma wr_server_takes:
  assumes "write_setup R" and j: "j < wr_count R"
  shows "com_step (envDepth (wrLink R)) (envServer (wrLink R))
      (ComReceive (hdlServer (wrLink R)) (write_frame (wrRequest R) (wrData R) j)) (wr_server R j) =
    Some (wr_server R (Suc j))"
proof -
  note S = write_setupD [OF assms(1)]
  obtain n where n: "envDepth (wrLink R) = Suc n" using wr_depth [OF assms(1)] ..
  let ?c = "ccon (wrServerCon R) (wrServer R)"
  have idle: "sdoComState ?c = kSdoComStateIdle" "lastAbortCode ?c = 0"
    using S(8) by (simp_all add: server_ready_def)
  show ?thesis
  proof (cases "j = 0")
    case True
    have "take (serve_off (length (wrData R)) (Suc 0)) (received (wrData R)) = take 240 (wrData R)"
      using S(14) by (simp add: serve_off_simps received_def)
    then show ?thesis
      using step_alone(1) [OF S(9, 10) serve_first [OF S(6, 3, 11) alone_length [OF S(9)] idle, of "com_react (envDepth (wrLink R)) (envServer (wrLink R))"]]
        True S(10, 13) by (simp add: wr_server_def Let_def serve_send_def wr_count_def)
  next
    case False
    have "sdoSeqConHdl (serve_con ?c t b off N k) = hdlServer (wrLink R)" for t b off N k
      using S(10) by (simp add: serve_con_def)
    then show ?thesis
      using step_alone(1) [OF S(9) _ serve_next [OF S(6, 3, 11) S(9) [folded S(10)] idle(2) _ j [unfolded wr_count_def]]] False
      by (simp add: wr_server_def Let_def n)
  qed
qed

lemma wr_server_ignores:
  assumes "write_setup R" and st: "st = kAsySdoConStateAckReceived \<or> st = kAsySdoConStateFrameSended"
  shows "com_step (envDepth (wrLink R)) (envServer (wrLink R)) (ComConState (hdlServer (wrLink R)) st) (wr_server R j) =
    Some (wr_server R j)"
proof -
  note S = write_setupD [OF assms(1)]
  let ?c = "ccon (wrServerCon R) (wrServer R)"
  have hdl: "sdoSeqConHdl (serve_con ?c t b off N k) = hdlServer (wrLink R)" for t b off N k
    using S(10) by (simp add: serve_con_def)
  have state: "sdoComState (serve_con ?c t b off N k) = kSdoComStateIdle \<or>
      sdoComState (serve_con ?c t b off N k) = kSdoComStateServerSegmTrans \<and>
      sdoServiceType (serve_con ?c t b off N k) = kSdoServiceWriteByIndex" for t b off N k
    by (simp add: serve_con_def)
  have i: "wrServerCon R < CONFIG_SDO_MAX_CONNECTION_COM" "wrServerCon R < length (sdoComCon (wrServer R))"
    using S(9) by (simp_all add: alone_def)
  have ev: "state_event st = kSdoComConEventAckReceived \<or> state_event st = kSdoComConEventFrameSended"
    using st by auto
  have idle: "sdoComState ?c = kSdoComStateIdle" using S(8) by (simp add: server_ready_def)
  show ?thesis
    using step_alone(2) [OF S(9) S(10) serve_idle [OF i disjI1 [OF idle] ev]]
      step_alone(2) [OF S(9) hdl serve_idle [OF i state ev]]
    by (simp add: wr_server_def Let_def)
qed

lemma sent_writes: "sent_frames (write_sends c d k k') = map (\<lambda>j. Some (write_frame c d j)) [k..<k']"
proof -
  have "sent_frames (map (\<lambda>j. data_send h (write_frame c d j)) js) = map (\<lambda>j. Some (write_frame c d j)) js" for h js
    by (induction js) (simp_all add: data_send_def)
  then show ?thesis by (simp add: write_sends_def)
qed

definition serve_frame :: "byte \<Rightarrow> nat \<Rightarrow> nat \<Rightarrow> tAsySdoCom option" where
  "serve_frame tid N j = (if Suc j = seg_count 248 N then Some (write_response tid) else None)"

lemma sent_serves: "sent_frames (map (serve_send hdl tid N) js) = map (serve_frame tid N) js"
  by (induction js) (simp_all add: serve_send_def serve_frame_def data_send_def)

lemma wr_sent:
  "sent_frames (comOuts (wr_client R m)) = sent_frames (comOuts (wrClient R)) @
     map (\<lambda>j. Some (write_frame (wrRequest R) (wrData R) j)) [0..<m]"
  "sent_frames (comOuts (wr_done R st)) = sent_frames (comOuts (wrClient R)) @
     map (\<lambda>j. Some (write_frame (wrRequest R) (wrData R) j)) [0..<wr_count R] @ [None]"
  "sent_frames (comOuts (wr_server R j)) = sent_frames (comOuts (wrServer R)) @
     map (serve_frame (transactionId (wrRequest R)) (length (wrData R))) [0..<j]"
  by (simp_all add: wr_client_def wr_done_def wr_server_def Let_def sent_writes sent_serves wr_report_def)

definition wr_link :: "write_run \<Rightarrow> com_sys \<Rightarrow> nat \<Rightarrow> nat \<Rightarrow> nat \<Rightarrow> sdo_link" where
  "wr_link R client j k a = \<lparr>lnkClient = client, lnkServer = wr_server R j,
     lnkToServer = length (sent_frames (comOuts (wrClient R))) + k,
     lnkToClient = length (sent_frames (comOuts (wrServer R))) + a\<rparr>"

definition write_inv :: "write_run \<Rightarrow> sdo_link \<Rightarrow> bool" where
  "write_inv R l \<longleftrightarrow>
     (\<exists>m j a. 0 < m \<and> m \<le> wr_count R \<and> j \<le> m \<and> a \<le> j \<and> a < wr_count R \<and> min (wr_count R) (a + 1) \<le> m \<and>
        l = wr_link R (wr_client R m) j j a) \<or>
     (\<exists>st k. sending st \<and> wr_count R \<le> k \<and> k \<le> wr_count R + 1 \<and>
        l = wr_link R (wr_done R st) (wr_count R) k (wr_count R))"

lemma write_inv_run:
  "0 < m \<Longrightarrow> m \<le> wr_count R \<Longrightarrow> j \<le> m \<Longrightarrow> a \<le> j \<Longrightarrow> a < wr_count R \<Longrightarrow> min (wr_count R) (a + 1) \<le> m \<Longrightarrow>
    write_inv R (wr_link R (wr_client R m) j j a)"
  unfolding write_inv_def by blast

lemma write_inv_over:
  "sending st \<Longrightarrow> wr_count R \<le> k \<Longrightarrow> k \<le> wr_count R + 1 \<Longrightarrow>
    write_inv R (wr_link R (wr_done R st) (wr_count R) k (wr_count R))"
  unfolding write_inv_def by blast

lemma link_move_fields [simp]:
  "lnkClient (wr_link R c j k a) = c" "lnkServer (wr_link R c j k a) = wr_server R j"
  "lnkToServer (wr_link R c j k a) = length (sent_frames (comOuts (wrClient R))) + k"
  "lnkToClient (wr_link R c j k a) = length (sent_frames (comOuts (wrServer R))) + a"
  "(wr_link R c j k a)\<lparr>lnkClient := c'\<rparr> = wr_link R c' j k a"
  "(wr_link R c j k a)\<lparr>lnkServer := wr_server R j'\<rparr> = wr_link R c j' k a"
  "(wr_link R c j k a)\<lparr>lnkToServer := Suc (length (sent_frames (comOuts (wrClient R))) + k)\<rparr> = wr_link R c j (Suc k) a"
  "(wr_link R c j k a)\<lparr>lnkToClient := Suc (length (sent_frames (comOuts (wrServer R))) + a)\<rparr> = wr_link R c j k (Suc a)"
  by (simp_all add: wr_link_def)

lemma write_inv_step:
  assumes "write_setup R" and "write_inv R l"
  shows "\<exists>l'. link_move (wrLink R) move l = Some l' \<and> write_inv R l'"
proof -
  note S = write_setupD [OF assms(1)]
  note takes = wr_server_takes [OF assms(1)] and ignores = wr_server_ignores [OF assms(1)]
  let ?K = "wr_count R"
  consider (run) m j a where "0 < m" "m \<le> ?K" "j \<le> m" "a \<le> j" "a < ?K" "min ?K (a + 1) \<le> m"
      "l = wr_link R (wr_client R m) j j a"
    | (over) st k where "sending st" "?K \<le> k" "k \<le> ?K + 1" "l = wr_link R (wr_done R st) ?K k ?K"
    using assms(2) by (auto simp: write_inv_def)
  then show ?thesis
  proof cases
    case run
    have running: "write_inv R (wr_link R (wr_client R m') j' j' a')"
      if "0 < m'" "m' \<le> ?K" "j' \<le> m'" "a' \<le> j'" "a' < ?K" "min ?K (a' + 1) \<le> m'" for m' j' a'
      using that by (rule write_inv_run)
    have ended: "write_inv R (wr_link R (wr_done R st) ?K ?K ?K)" if "sending st" for st
      using write_inv_over [OF that, of R ?K] by simp
    obtain m' where m': "m \<le> m'" "m' \<le> ?K" "m < ?K \<Longrightarrow> m < m'"
        and acked: "com_step (envDepth (wrLink R)) (envClient (wrLink R))
          (ComConState (hdlClient (wrLink R)) kAsySdoConStateAckReceived) (wr_client R m) = Some (wr_client R m')"
      using wr_client_goes_on [OF assms(1) run(1, 2)] by blast
    show ?thesis
    proof (cases move)
      case (ToServer sended)
      show ?thesis
      proof (cases "j < m")
        case True
        then have "com_deliver (envDepth (wrLink R)) (envServer (wrLink R)) (hdlServer (wrLink R)) sended
            (Some (write_frame (wrRequest R) (wrData R) j)) (wr_server R j) = Some (wr_server R (Suc j))"
          using takes [of j] ignores [of kAsySdoConStateFrameSended "Suc j"] run(2) by (simp add: com_deliver_def)
        then show ?thesis
          using ToServer True run running [of m "Suc j" a]
          by (simp add: link_move_def Let_def wr_sent nth_append)
      next
        case False
        then show ?thesis using ToServer run assms(2) by (simp add: link_move_def Let_def wr_sent)
      qed
    next
      case (ToClient sended)
      show ?thesis
      proof (cases "a < j")
        case in_flight: True
        show ?thesis
        proof (cases "Suc a = ?K")
          case False
          then have "com_deliver (envDepth (wrLink R)) (envClient (wrLink R)) (hdlClient (wrLink R)) sended
              (serve_frame (transactionId (wrRequest R)) (length (wrData R)) a) (wr_client R m) = Some (wr_client R m')"
            using acked by (simp add: com_deliver_def serve_frame_def wr_count_def)
          moreover have "min ?K (Suc a + 1) \<le> m'"
            using in_flight run(2, 3) m' by (cases "m < ?K") auto
          then have "write_inv R (wr_link R (wr_client R m') j j (Suc a))"
            using in_flight False run m' by (intro running) auto
          ultimately show ?thesis
            using ToClient in_flight run(7) by (simp add: link_move_def Let_def wr_sent nth_append)
        next
          case True
          then have all: "m = ?K" "j = ?K" using in_flight run(2, 3) by simp_all
          obtain st where st: "sending st" and idle: "com_step (envDepth (wrLink R)) (envClient (wrLink R))
              (ComConState (hdlClient (wrLink R)) kAsySdoConStateFrameSended) (wr_done R kSdoComStateClientConnected) =
              Some (wr_done R st)"
            using wr_client_idles [OF assms(1), of kSdoComStateClientConnected kAsySdoConStateFrameSended]
            by (auto simp: sending_def)
          have "\<exists>st. sending st \<and> com_deliver (envDepth (wrLink R)) (envClient (wrLink R)) (hdlClient (wrLink R)) sended
              (serve_frame (transactionId (wrRequest R)) (length (wrData R)) a) (wr_client R m) = Some (wr_done R st)"
            using wr_client_finishes [OF assms(1)] idle st True all
            by (auto simp: com_deliver_def serve_frame_def wr_count_def sending_def)
          then show ?thesis
            using ToClient in_flight all True ended run(7)
            by (auto simp: link_move_def Let_def wr_sent nth_append)
        qed
      next
        case False
        then show ?thesis using ToClient run assms(2) by (simp add: link_move_def Let_def wr_sent)
      qed
    next
      case AckServer
      then show ?thesis using ignores [of kAsySdoConStateAckReceived j] run(7) assms(2) by (simp add: link_move_def)
    next
      case AckClient
      then show ?thesis using acked m' run running [of m' j a] by (simp add: link_move_def)
    qed
  next
    case over
    have ended: "write_inv R (wr_link R (wr_done R st') ?K k' ?K)" if "sending st'" "?K \<le> k'" "k' \<le> ?K + 1" for st' k'
      using that by (rule write_inv_over)
    have ack: "com_step (envDepth (wrLink R)) (envServer (wrLink R)) (ComConState (hdlServer (wrLink R)) kAsySdoConStateAckReceived)
        (wr_server R ?K) = Some (wr_server R ?K)" by (rule ignores) simp
    obtain st' where st': "sending st'" and idle: "com_step (envDepth (wrLink R)) (envClient (wrLink R))
        (ComConState (hdlClient (wrLink R)) kAsySdoConStateAckReceived) (wr_done R st) = Some (wr_done R st')"
      using wr_client_idles [OF assms(1) over(1), of kAsySdoConStateAckReceived] by auto
    show ?thesis
    proof (cases move)
      case (ToServer sended)
      show ?thesis
      proof (cases "k = ?K")
        case True
        then show ?thesis
          using ToServer over ack ended [of st "Suc k"]
          by (simp add: link_move_def Let_def wr_sent nth_append com_deliver_def)
      next
        case False
        then show ?thesis using ToServer over assms(2) by (simp add: link_move_def Let_def wr_sent)
      qed
    next
      case (ToClient sended)
      then show ?thesis using over assms(2) by (simp add: link_move_def Let_def wr_sent)
    next
      case AckServer
      then show ?thesis using ack over(4) assms(2) by (simp add: link_move_def)
    next
      case AckClient
      then show ?thesis using idle st' over ended [of st' k] by (simp add: link_move_def)
    qed
  qed
qed


lemma write_inv_run_steps:
  assumes "write_setup R"
  shows "write_inv R l \<Longrightarrow> \<exists>l'. run_steps (link_move (wrLink R)) moves l = Some l' \<and> write_inv R l'"
proof (induction moves arbitrary: l)
  case (Cons move moves)
  obtain l1 where "link_move (wrLink R) move l = Some l1" and "write_inv R l1"
    using write_inv_step [OF assms Cons.prems] by blast
  then show ?case using Cons.IH [of l1] by simp
qed simp

text \<open>A frame of one of the instances has not been delivered yet.\<close>

definition in_flight :: "sdo_link \<Rightarrow> bool" where
  "in_flight l \<longleftrightarrow> lnkToServer l < length (sent_frames (comOuts (lnkClient l))) \<or>
     lnkToClient l < length (sent_frames (comOuts (lnkServer l)))"

lemma write_inv_result:
  assumes "write_setup R" and "write_inv R l"
  shows "lnkToServer l + lnkToClient l \<le> length (sent_frames (comOuts (wrClient R))) +
      length (sent_frames (comOuts (wrServer R))) + 2 * wr_count R + 1"
    and "in_flight l \<or>
      (\<exists>outs. comOuts (lnkClient l) = comOuts (wrClient R) @ outs @ [wr_report R]) \<and>
      comMem (lnkServer l) = stored_in (comMem (wrServer R)) (wrObject R) (wrObjectOff R) (received (wrData R))"
proof -
  note S = write_setupD [OF assms(1)]
  have all: "take (serve_off (length (wrData R)) (wr_count R)) (received (wrData R)) = received (wrData R)"
    using S(14) by (simp add: serve_off_def wr_count_def seg_off_count received_def)
  have told: "\<exists>outs. comOuts (wr_done R st) = comOuts (wrClient R) @ outs @ [wr_report R]" for st
    by (simp add: wr_done_def)
  have "comMem (wr_server R (wr_count R)) =
      stored_in (comMem (wrServer R)) (wrObject R) (wrObjectOff R) (received (wrData R))"
    using S(13) all by (auto simp: wr_server_def Let_def)
  with told assms(2) show "lnkToServer l + lnkToClient l \<le> length (sent_frames (comOuts (wrClient R))) +
      length (sent_frames (comOuts (wrServer R))) + 2 * wr_count R + 1"
    "in_flight l \<or>
      (\<exists>outs. comOuts (lnkClient l) = comOuts (wrClient R) @ outs @ [wr_report R]) \<and>
      comMem (lnkServer l) = stored_in (comMem (wrServer R)) (wrObject R) (wrObjectOff R) (received (wrData R))"
    by (auto simp: write_inv_def in_flight_def wr_sent)
qed

text \<open>A link whose instances have sent nothing that is still to be delivered but the frames after \<open>client\<close>.\<close>

definition link_from :: "com_sys \<Rightarrow> com_sys \<Rightarrow> com_sys \<Rightarrow> sdo_link" where
  "link_from client client' server = \<lparr>lnkClient = client', lnkServer = server,
     lnkToServer = length (sent_frames (comOuts client)), lnkToClient = length (sent_frames (comOuts server))\<rparr>"

text \<open>
  C5: A segmented write between a client and a server that are ready for it, however the frames,
  the acknowledges and the reports of progress of the sequence layer interleave: every delivery is
  defined, at most \<open>2 * n + 1\<close> frames are exchanged for \<open>n\<close> segments, and as soon as no
  frame is in flight the application of the client was told that all bytes were transferred while
  the object holds the data without its bytes 240 to 247. The client puts 248 bytes into the first
  segment, the server takes 16 bytes off the size of that segment instead of the 8 of the
  header.
\<close>

theorem sdo_segmented_write:
  assumes "client_ready (hdlClient L) i client" and "server_ready (hdlServer L) j server"
    and "request par i kSdoAccessTypeWrite b off (length d) f" and "252 < length d"
    and "mem_read (comMem client b) off (length d) = Some d"
    and "writable (envServer L) (comMem server) (request_con par (ccon i client)) ob ooff (length d)"
    and "sends_ok (envClient L)" and "silent (envClient L)" and "sends_ok (envServer L)"
    and "seg_count 248 (length d) \<le> envDepth L"
  shows "\<exists>client'. sdocom_initTransferByIndex (envClient L) (com_react (envDepth L) (envClient L)) par client =
      Some (kErrorOk, client') \<and>
    (\<forall>moves. \<exists>l. run_steps (link_move L) moves (link_from client client' server) = Some l \<and>
       lnkToServer l + lnkToClient l \<le> length (sent_frames (comOuts client)) +
         length (sent_frames (comOuts server)) + 2 * seg_count 248 (length d) + 1 \<and>
       (in_flight l \<or>
        (\<exists>outs fin. comOuts (lnkClient l) = comOuts client @ outs @ [ComFinished f fin] \<and> finConHdl fin = i \<and>
           finConState fin = kSdoComTransferFinished \<and> finTransferredBytes fin = length d \<and> finAbortCode fin = 0) \<and>
        comMem (lnkServer l) = (comMem server)(ob := overlay (comMem server ob) ooff (take 240 d @ drop 248 d))))"
proof -
  define R where "R = \<lparr>wrLink = L, wrClient = client, wrClientCon = i, wrRequest = request_con par (ccon i client),
    wrBlock = b, wrOff = off, wrData = d, wrCallback = f, wrServer = server, wrServerCon = j,
    wrObject = ob, wrObjectOff = ooff\<rparr>"
  obtain k where w: "writes (wrRequest R) (comMem client) b off d" and hdl: "sdoSeqConHdl (wrRequest R) = hdlClient L"
      and k: "0 < k" "k \<le> wr_count R"
      and init: "sdocom_initTransferByIndex (envClient L) (com_react (envDepth L) (envClient L)) par client =
        Some (kErrorOk, wr_client R k)"
    by (rule write_starts [OF assms(1, 3, 4, 5, 7, 10) refl]) (auto simp: R_def wr_count_def wr_client_def)
  have ready: "write_setup R"
    using assms w hdl by (simp add: write_setup_def R_def Let_def wr_count_def client_ready_def request_def)
  have start: "link_from client (wr_client R k) server = wr_link R (wr_client R k) 0 0 0"
    using assms(2) cst_self [OF alone_length, of "hdlServer L" j server]
    by (simp add: link_from_def wr_link_def R_def wr_server_def Let_def server_ready_def)
  have "write_inv R (link_from client (wr_client R k) server)"
    unfolding start using k by (intro write_inv_run) auto
  then have "\<exists>l. run_steps (link_move L) moves (link_from client (wr_client R k) server) = Some l \<and> write_inv R l" for moves
    using write_inv_run_steps [OF ready] by (simp add: R_def)
  moreover have "lnkToServer l + lnkToClient l \<le> length (sent_frames (comOuts client)) +
         length (sent_frames (comOuts server)) + 2 * seg_count 248 (length d) + 1 \<and>
       (in_flight l \<or>
        (\<exists>outs fin. comOuts (lnkClient l) = comOuts client @ outs @ [ComFinished f fin] \<and> finConHdl fin = i \<and>
           finConState fin = kSdoComTransferFinished \<and> finTransferredBytes fin = length d \<and> finAbortCode fin = 0) \<and>
        comMem (lnkServer l) = (comMem server)(ob := overlay (comMem server ob) ooff (take 240 d @ drop 248 d)))"
    if "write_inv R l" for l
    using write_inv_result [OF ready that]
    by (auto simp: R_def wr_count_def wr_report_def finished_ok_def finished_info_def stored_in_def received_def)
  ultimately show ?thesis using init by blast
qed

text \<open>A client and a server that are connected, and an object of 300 bytes.\<close>

definition example_con :: tSdoComCon where
  "example_con = zero_com_con\<lparr>sdoSeqConHdl := 0x8000, sdoProtocolType := kSdoTypeAsnd\<rparr>"

definition example_client :: com_sys where
  "example_client = \<lparr>sdoComCon = replicate 4 zero_com_con @ [example_con\<lparr>sdoComState := kSdoComStateClientConnected\<rparr>],
     comMem = (\<lambda>b. map word_of_nat [0..<300]), comOuts = []\<rparr>"

definition example_server :: com_sys where
  "example_server = \<lparr>sdoComCon = example_con # replicate 4 zero_com_con,
     comMem = (\<lambda>b. replicate 300 0), comOuts = []\<rparr>"

definition example_link :: link_env where
  "example_link = \<lparr>envClient = com_example, envServer = com_example, hdlClient = 0x8000, hdlServer = 0x8000,
     envDepth = 3\<rparr>"

definition example_write :: tSdoComTransParamByIndex where
  "example_write = \<lparr>parConHdl = 4, parIndex = 0x2000, parSubindex = 0, parData = DataPtr (UserBlock 0) 0,
     parDataSize = 300, parAccessType = kSdoAccessTypeWrite, parFinishedCb = Some 7, parUserArg = 0\<rparr>"

lemma less_5: "i < 5 \<Longrightarrow> i = 0 \<or> i = 1 \<or> i = 2 \<or> i = 3 \<or> i = (4 :: nat)"
  by arith

lemma example_ready:
  "client_ready (hdlClient example_link) 4 example_client" "server_ready (hdlServer example_link) 0 example_server"
  by (auto simp: client_ready_def server_ready_def alone_def example_link_def example_client_def example_server_def
      example_con_def zero_com_con_def ccon_def client_protocol_ok_def nth_append
      dest!: less_5)

lemma example_writable:
  "writable com_example (comMem example_server) (request_con example_write c) (ObjectBlock 0x2000 0) 0 300"
proof -
  have "(3 :: byte) AND kObdAccWrite \<noteq> 0" by code_simp
  then show ?thesis by (simp add: writable_def com_example_def example_write_def example_server_def)
qed

lemma sdo_segmented_write_witness:
  "\<exists>client'. sdocom_initTransferByIndex com_example (com_react 3 com_example) example_write example_client =
      Some (kErrorOk, client') \<and>
    (\<forall>moves. \<exists>l. run_steps (link_move example_link) moves (link_from example_client client' example_server) = Some l \<and>
       lnkToServer l + lnkToClient l \<le> 5 \<and>
       (in_flight l \<or>
        (\<exists>outs fin. comOuts (lnkClient l) = outs @ [ComFinished 7 fin] \<and> finTransferredBytes fin = 300) \<and>
        comMem (lnkServer l) (ObjectBlock 0x2000 0) =
          map word_of_nat [0..<240] @ map word_of_nat [248..<300] @ replicate 8 0))"
proof -
  let ?d = "map word_of_nat [0..<300] :: byte list"
  have env: "envClient example_link = com_example" "envServer example_link = com_example" "envDepth example_link = 3"
    by (simp_all add: example_link_def)
  have len: "length ?d = 300" by simp
  have none: "comOuts example_client = []" "sent_frames (comOuts example_server) = []" "comMem example_server (ObjectBlock 0x2000 0) = replicate 300 0"
    by (simp_all add: example_client_def example_server_def)
  have segs: "seg_count 248 300 = 2" by (simp add: seg_count_def)
  have off: "drop 292 (replicate 300 (0 :: byte)) = replicate 8 0" by simp
  have data: "take 240 ?d @ drop 248 ?d = map word_of_nat [0..<240] @ map word_of_nat [248..<300]"
    by (simp add: take_map drop_map)
  have object: "overlay (replicate 300 0) 0 (take 240 ?d @ drop 248 ?d) =
      map word_of_nat [0..<240] @ map word_of_nat [248..<300] @ replicate 8 0"
    unfolding data by (simp add: overlay_def)
  have req: "request example_write 4 kSdoAccessTypeWrite (UserBlock 0) 0 (length ?d) 7"
    by (simp add: request_def example_write_def)
  have mem: "mem_read (comMem example_client (UserBlock 0)) 0 (length ?d) = Some ?d"
    by (simp add: mem_read_def example_client_def)
  have ok: "sends_ok com_example" "silent com_example"
    by (simp_all add: sends_ok_def silent_def com_example_def)
  obtain client' where client': "sdocom_initTransferByIndex com_example (com_react 3 com_example) example_write example_client =
      Some (kErrorOk, client')"
    and runs: "\<And>moves. \<exists>l. run_steps (link_move example_link) moves (link_from example_client client' example_server) = Some l \<and>
       lnkToServer l + lnkToClient l \<le> length (sent_frames (comOuts example_client)) +
         length (sent_frames (comOuts example_server)) + 2 * seg_count 248 (length ?d) + 1 \<and>
       (in_flight l \<or>
        (\<exists>outs fin. comOuts (lnkClient l) = comOuts example_client @ outs @ [ComFinished 7 fin] \<and> finConHdl fin = 4 \<and>
           finConState fin = kSdoComTransferFinished \<and> finTransferredBytes fin = length ?d \<and> finAbortCode fin = 0) \<and>
        comMem (lnkServer l) = (comMem example_server)(ObjectBlock 0x2000 0 :=
          overlay (comMem example_server (ObjectBlock 0x2000 0)) 0 (take 240 ?d @ drop 248 ?d)))"
    using sdo_segmented_write [OF example_ready req _ mem, of "ObjectBlock 0x2000 0" 0]
      example_writable ok unfolding env len segs by auto
  have "\<exists>l. run_steps (link_move example_link) moves (link_from example_client client' example_server) = Some l \<and>
       lnkToServer l + lnkToClient l \<le> 5 \<and>
       (in_flight l \<or>
        (\<exists>outs fin. comOuts (lnkClient l) = outs @ [ComFinished 7 fin] \<and> finTransferredBytes fin = 300) \<and>
        comMem (lnkServer l) (ObjectBlock 0x2000 0) =
          map word_of_nat [0..<240] @ map word_of_nat [248..<300] @ replicate 8 0)" for moves
    using runs [of moves] unfolding none len segs object by auto
  with client' show ?thesis by blast
qed

end
