(* ===== verification/Ledu.thy ===== *)
theory Ledu
  imports Oplk_Prelude Oplk_Types Timeru
begin

text \<open>
  The user LED module (\<^verbatim>\<open>src/stack/src/user/ledu.c\<close>): the status LED shows the NMT state by a
  flash pattern, which the module produces with one timer of the user timer module (\<open>Timeru\<close>);
  the error LED follows the NMT events.

  The state of a run is the module's instance with the timer module it calls. The callback of the
  application is a function of the calls made so far, which are recorded with the tick at which
  they happen. \<open>tick\<close> is the value of \<^verbatim>\<open>getTickCount\<close> during a call. A function returns
  \<^term>\<open>None\<close> where the timer module would corrupt its free list.
\<close>

section \<open>State\<close>

datatype tLedType = kLedTypeStatus | kLedTypeError

datatype tLeduMode =
    kLeduModeInit | kLeduModeOff | kLeduModeOn | kLeduModeFlickering | kLeduModeBlinking
  | kLeduModeSingleFlash | kLeduModeDoubleFlash | kLeduModeTripleFlash

type_synonym led_calls = "(nat \<times> tLedType \<times> bool) list"

record tLeduInstance =
  timerHdlLedBlink :: nat
  timerArg :: nat
  pfnCbStateChange :: "(led_calls \<Rightarrow> tOplkError) option"
  statusLedMode :: tLeduMode
  statusLedState :: nat

record led_system = tLeduInstance +
  ledTimers :: tTimeruInstance
  ledCalls :: led_calls
  ledOthers :: "nat list" \<comment> \<open>the handles of the timers that other modules hold\<close>

abbreviation LEDU_DURATION_FLICKERING :: nat where "LEDU_DURATION_FLICKERING \<equiv> 50"
abbreviation LEDU_DURATION_BLINKING :: nat where "LEDU_DURATION_BLINKING \<equiv> 200"
abbreviation LEDU_DURATION_FLASH_ON :: nat where "LEDU_DURATION_FLASH_ON \<equiv> 200"
abbreviation LEDU_DURATION_FLASH_OFF :: nat where "LEDU_DURATION_FLASH_OFF \<equiv> 1000"

section \<open>Operations\<close>

definition callStateChanged ::
  "nat \<Rightarrow> tLedType \<Rightarrow> bool \<Rightarrow> led_system \<Rightarrow> tOplkError \<times> led_system" where
  "callStateChanged tick ledType fOn s =
     (case pfnCbStateChange s of
        None \<Rightarrow> (kErrorOk, s)
      | Some f \<Rightarrow>
          let s = s\<lparr>ledCalls := ledCalls s @ [(tick, ledType, fOn)]\<rparr> in (f (ledCalls s), s))"

text \<open>The calls of the timer module, on the handle of the instance.\<close>

definition led_deleteTimer :: "led_system \<Rightarrow> (tOplkError \<times> led_system) option" where
  "led_deleteTimer s =
     (case timeru_deleteTimer (Some (timerHdlLedBlink s)) (ledTimers s) of
        None \<Rightarrow> None
      | Some (ret, hdl, t) \<Rightarrow> Some (ret, s\<lparr>timerHdlLedBlink := the hdl, ledTimers := t\<rparr>))"

definition led_modifyTimer ::
  "nat \<Rightarrow> nat \<Rightarrow> tTimerArg \<Rightarrow> led_system \<Rightarrow> (tOplkError \<times> led_system) option" where
  "led_modifyTimer tick timeout arg s =
     (case timeru_modifyTimer tick (Some (timerHdlLedBlink s)) timeout arg (ledTimers s) of
        None \<Rightarrow> None
      | Some (ret, hdl, t) \<Rightarrow> Some (ret, s\<lparr>timerHdlLedBlink := the hdl, ledTimers := t\<rparr>))"

text \<open>
  \<open>restartTimer\<close> is the end of \<^verbatim>\<open>changeMode\<close> and of \<^verbatim>\<open>ledu_processEvent\<close>: a new argument, the
  timer, then the callback, whose result replaces that of the timer module.
\<close>

definition restartTimer ::
  "nat \<Rightarrow> nat \<Rightarrow> bool \<Rightarrow> led_system \<Rightarrow> (tOplkError \<times> led_system) option" where
  "restartTimer tick timeout fLedOn s =
     (let s = s\<lparr>timerArg := wrap32 (timerArg s + 1)\<rparr>
      in case led_modifyTimer tick timeout
             \<lparr>timerSink = kEventSinkLedu, timerValue = timerArg s\<rparr> s of
           None \<Rightarrow> None
         | Some (ret, s) \<Rightarrow> Some (callStateChanged tick kLedTypeStatus fLedOn s))"

definition changeMode :: "nat \<Rightarrow> tLeduMode \<Rightarrow> led_system \<Rightarrow> (tOplkError \<times> led_system) option" where
  "changeMode tick newMode s =
     (let oldMode = statusLedMode s
      in if oldMode = newMode then Some (kErrorOk, s)
      else
        let s = s\<lparr>statusLedMode := newMode\<rparr>
        in if oldMode \<noteq> kLeduModeOff \<and> oldMode \<noteq> kLeduModeOn then Some (kErrorOk, s)
        else
          let fLedOn = (oldMode = kLeduModeOff);
              s = s\<lparr>statusLedState := (if fLedOn then 0xFF else 0)\<rparr>
          in (case newMode of
                kLeduModeFlickering \<Rightarrow> restartTimer tick LEDU_DURATION_FLICKERING fLedOn s
              | kLeduModeBlinking \<Rightarrow> restartTimer tick LEDU_DURATION_BLINKING fLedOn s
              | kLeduModeInit \<Rightarrow> Some (kErrorOk, s)
              | kLeduModeOff \<Rightarrow> Some (kErrorOk, s)
              | kLeduModeOn \<Rightarrow> Some (kErrorOk, s)
              | _ \<Rightarrow> restartTimer tick
                  (if fLedOn then LEDU_DURATION_FLASH_ON else LEDU_DURATION_FLASH_OFF) fLedOn s))"

definition ledu_init :: "(led_calls \<Rightarrow> tOplkError) option \<Rightarrow> led_system \<Rightarrow> tOplkError \<times> led_system" where
  "ledu_init cb s =
     (kErrorOk, s\<lparr>timerHdlLedBlink := 0, timerArg := 0, pfnCbStateChange := cb,
        statusLedMode := kLeduModeInit, statusLedState := 0\<rparr>)"

definition ledu_exit :: "led_system \<Rightarrow> (tOplkError \<times> led_system) option" where
  "ledu_exit s =
     (case led_deleteTimer s of
        None \<Rightarrow> None
      | Some (ret, s) \<Rightarrow> Some (ret, s\<lparr>timerHdlLedBlink := 0, timerArg := 0,
          pfnCbStateChange := None, statusLedMode := kLeduModeInit, statusLedState := 0\<rparr>))"

text \<open>The status LED is switched off or on: the timer is deleted, the callback called.\<close>

definition steadyMode ::
  "nat \<Rightarrow> tLeduMode \<Rightarrow> bool \<Rightarrow> led_system \<Rightarrow> (tOplkError \<times> led_system) option" where
  "steadyMode tick mode fOn s =
     (if statusLedMode s = mode then Some (kErrorOk, s)
      else
        case led_deleteTimer (s\<lparr>statusLedMode := mode\<rparr>) of
          None \<Rightarrow> None
        | Some (ret, s) \<Rightarrow> Some (callStateChanged tick kLedTypeStatus fOn s))"

text \<open>The two switches of \<^verbatim>\<open>ledu_cbNmtStateChange\<close>.\<close>

fun statusLed :: "nat \<Rightarrow> tNmtState \<Rightarrow> led_system \<Rightarrow> (tOplkError \<times> led_system) option" where
  "statusLed tick kNmtGsOff s = steadyMode tick kLeduModeOff False s"
| "statusLed tick kNmtGsInitialising s = steadyMode tick kLeduModeOff False s"
| "statusLed tick kNmtGsResetApplication s = steadyMode tick kLeduModeOff False s"
| "statusLed tick kNmtGsResetCommunication s = steadyMode tick kLeduModeOff False s"
| "statusLed tick kNmtGsResetConfiguration s = steadyMode tick kLeduModeOff False s"
| "statusLed tick kNmtCsNotActive s = steadyMode tick kLeduModeOff False s"
| "statusLed tick kNmtMsNotActive s = steadyMode tick kLeduModeOff False s"
| "statusLed tick kNmtCsPreOperational1 s = changeMode tick kLeduModeSingleFlash s"
| "statusLed tick kNmtMsPreOperational1 s = changeMode tick kLeduModeSingleFlash s"
| "statusLed tick kNmtCsPreOperational2 s = changeMode tick kLeduModeDoubleFlash s"
| "statusLed tick kNmtMsPreOperational2 s = changeMode tick kLeduModeDoubleFlash s"
| "statusLed tick kNmtCsReadyToOperate s = changeMode tick kLeduModeTripleFlash s"
| "statusLed tick kNmtMsReadyToOperate s = changeMode tick kLeduModeTripleFlash s"
| "statusLed tick kNmtCsOperational s = steadyMode tick kLeduModeOn True s"
| "statusLed tick kNmtMsOperational s = steadyMode tick kLeduModeOn True s"
| "statusLed tick kNmtCsStopped s = changeMode tick kLeduModeBlinking s"
| "statusLed tick kNmtCsBasicEthernet s = changeMode tick kLeduModeFlickering s"
| "statusLed tick kNmtMsBasicEthernet s = changeMode tick kLeduModeFlickering s"

definition errorLed ::
  "nat \<Rightarrow> tNmtEvent \<Rightarrow> tOplkError \<times> led_system \<Rightarrow> tOplkError \<times> led_system" where
  "errorLed tick e rs =
     (if e \<in> {kNmtEventSwReset, kNmtEventStartNode, kNmtEventTimerBasicEthernet,
            kNmtEventEnterMsOperational}
      then callStateChanged tick kLedTypeError False (snd rs)
      else if e \<in> {kNmtEventNmtCycleError, kNmtEventInternComError}
      then callStateChanged tick kLedTypeError True (snd rs)
      else rs)"

definition ledu_cbNmtStateChange ::
  "nat \<Rightarrow> tEventNmtStateChange \<Rightarrow> led_system \<Rightarrow> (tOplkError \<times> led_system) option" where
  "ledu_cbNmtStateChange tick c s =
     map_option (errorLed tick (nmtEvent c)) (statusLed tick (newNmtState c) s)"

text \<open>The timeout and the LED of a flashing mode with \<open>n\<close> phases, and the reset of the phase.\<close>

definition flashPhase :: "nat \<Rightarrow> nat \<Rightarrow> led_system \<Rightarrow> nat \<times> bool \<times> led_system" where
  "flashPhase n timeoutOff s =
     (if n \<le> statusLedState s then (timeoutOff, False, s\<lparr>statusLedState := 0\<rparr>)
      else (LEDU_DURATION_FLASH_ON, odd (statusLedState s), s))"

definition ledu_processEvent :: "nat \<Rightarrow> tEvent \<Rightarrow> led_system \<Rightarrow> (tOplkError \<times> led_system) option" where
  "ledu_processEvent tick ev s =
     (case (eventType ev, pEventArg ev) of
        (kEventTypeTimer, ArgTimerValue hdl value) \<Rightarrow>
          if value \<noteq> timerArg s then Some (kErrorOk, s)
          else
            let s = s\<lparr>statusLedState := wrap32 (statusLedState s + 1)\<rparr>;
                go = (\<lambda>(timeout, fLedOn, s). restartTimer tick timeout fLedOn s)
            in (case statusLedMode s of
                  kLeduModeInit \<Rightarrow> Some (kErrorOk, s)
                | kLeduModeOn \<Rightarrow> Some (kErrorOk, s)
                | kLeduModeOff \<Rightarrow> Some (kErrorOk, s)
                | kLeduModeFlickering \<Rightarrow>
                    go (if 2 \<le> statusLedState s
                        then (LEDU_DURATION_FLICKERING, False, s\<lparr>statusLedState := 0\<rparr>)
                        else (LEDU_DURATION_FLICKERING, True, s))
                | kLeduModeBlinking \<Rightarrow>
                    go (if 2 \<le> statusLedState s
                        then (LEDU_DURATION_BLINKING, False, s\<lparr>statusLedState := 0\<rparr>)
                        else (LEDU_DURATION_BLINKING, True, s))
                | kLeduModeSingleFlash \<Rightarrow> go (flashPhase 2 LEDU_DURATION_FLASH_OFF s)
                | kLeduModeDoubleFlash \<Rightarrow> go (flashPhase 4 LEDU_DURATION_FLASH_OFF s)
                | kLeduModeTripleFlash \<Rightarrow> go (flashPhase 6 LEDU_DURATION_FLASH_OFF s))
      | (kEventTypeTimer, _) \<Rightarrow> None
      | _ \<Rightarrow> Some (kErrorNmtInvalidEvent, s))"

section \<open>The LED with its timer\<close>

text \<open>
  A run: NMT state changes, polls of the timer module, which put the events for this module into
  its event queue, deliveries of the oldest of these events, and other modules that set and delete
  timers. \<open>others_ok\<close> is what the module relies on in them, since all share one table of \<open>N\<close> timers: they
  hold less than \<open>N\<close> timers, and delete only their own.
\<close>

datatype led_op =
    LedNmt nat tEventNmtStateChange
  | LedPoll nat
  | LedDeliver nat
  | LedOtherSet nat nat tTimerArg
  | LedOtherDelete nat

type_synonym led_world = "led_system \<times> (nat \<times> nat) list"

definition led_event :: "nat \<times> nat \<Rightarrow> tEvent" where
  "led_event hv = \<lparr>eventType = kEventTypeTimer, eventSink = kEventSinkLedu, netTime = 0,
     pEventArg = ArgTimerValue (fst hv) (snd hv)\<rparr>"

fun led_step :: "led_op \<Rightarrow> led_world \<Rightarrow> led_world option" where
  "led_step (LedNmt tick c) (s, q) = map_option (\<lambda>rs. (snd rs, q)) (ledu_cbNmtStateChange tick c s)"
| "led_step (LedPoll tick) (s, q) =
     (case timeru_process tick (ledTimers s) of
        (None, t) \<Rightarrow> Some (s\<lparr>ledTimers := t\<rparr>, q)
      | (Some (sink, h, v), t) \<Rightarrow>
          Some (s\<lparr>ledTimers := t\<rparr>, if sink = kEventSinkLedu then q @ [(h, v)] else q))"
| "led_step (LedDeliver tick) (s, q) =
     (case q of
        [] \<Rightarrow> Some (s, q)
      | hv # q' \<Rightarrow> map_option (\<lambda>rs. (snd rs, q')) (ledu_processEvent tick (led_event hv) s))"
| "led_step (LedOtherSet tick time arg) (s, q) =
     (case timeru_setTimer tick (Some 0) time arg (ledTimers s) of
        (ret, hdl, t) \<Rightarrow>
          Some (s\<lparr>ledTimers := t, ledOthers := (if ret = kErrorOk then the hdl # ledOthers s else ledOthers s)\<rparr>, q))"
| "led_step (LedOtherDelete h) (s, q) =
     map_option (\<lambda>rt. (s\<lparr>ledTimers := snd (snd rt), ledOthers := remove1 h (ledOthers s)\<rparr>, q))
       (timeru_deleteTimer (Some h) (ledTimers s))"

definition others_ok :: "nat \<Rightarrow> led_op \<Rightarrow> led_world \<Rightarrow> bool" where
  "others_ok N opn w =
     (case opn of
        LedOtherSet tick time arg \<Rightarrow> length (ledOthers (fst w)) + 1 < N
      | LedOtherDelete h \<Rightarrow> h \<in> set (ledOthers (fst w))
      | _ \<Rightarrow> True)"

definition flashing :: "tLeduMode \<Rightarrow> bool" where
  "flashing m \<longleftrightarrow> m \<notin> {kLeduModeInit, kLeduModeOff, kLeduModeOn}"

text \<open>
  The module owns at most one timer entry, and owns it exactly while the LED flashes; then the
  timer is running with the current argument or its event is in the queue.
\<close>

definition led_owner :: "led_system \<Rightarrow> bool" where
  "led_owner s \<longleftrightarrow>
     distinct (map fst (timerList (ledTimers s)) @ freeList (ledTimers s)) \<and>
     (if timerHdlLedBlink s = 0 then freeList (ledTimers s) \<noteq> []
      else timerHdlLedBlink s - 1 \<notin> set (freeList (ledTimers s)))"

definition led_armed :: "led_world \<Rightarrow> bool" where
  "led_armed w = (case w of (s, q) \<Rightarrow>
     timerHdlLedBlink s \<noteq> 0 \<and>
     timerArgs (ledTimers s) (timerHdlLedBlink s - 1) =
       \<lparr>timerSink = kEventSinkLedu, timerValue = timerArg s\<rparr> \<and>
     (timerHdlLedBlink s - 1 \<in> fst ` set (timerList (ledTimers s)) \<or>
      (timerHdlLedBlink s, timerArg s) \<in> set q))"

definition led_ok :: "led_world \<Rightarrow> bool" where
  "led_ok w = (case w of (s, q) \<Rightarrow>
     led_owner s \<and> statusLedMode s \<noteq> kLeduModeInit \<and>
     (if flashing (statusLedMode s) then led_armed w else timerHdlLedBlink s = 0))"

lemma callStateChanged_simps [simp]:
  "timerHdlLedBlink (snd (callStateChanged t l b s)) = timerHdlLedBlink s"
  "timerArg (snd (callStateChanged t l b s)) = timerArg s"
  "statusLedMode (snd (callStateChanged t l b s)) = statusLedMode s"
  "statusLedState (snd (callStateChanged t l b s)) = statusLedState s"
  "ledTimers (snd (callStateChanged t l b s)) = ledTimers s"
  "pfnCbStateChange (snd (callStateChanged t l b s)) = pfnCbStateChange s"
  by (simp_all add: callStateChanged_def Let_def split: option.split)

lemma led_ok_call [simp]: "led_ok (snd (callStateChanged t l b s), q) = led_ok (s, q)"
  by (simp add: led_ok_def led_owner_def led_armed_def)

lemma led_ok_errorLed: "led_ok (snd (errorLed t e rs), q) = led_ok (snd rs, q)"
  by (simp add: errorLed_def)

lemma led_delete_owner:
  assumes "led_owner s"
  shows "\<exists>ret s'. led_deleteTimer s = Some (ret, s') \<and> led_owner s' \<and> timerHdlLedBlink s' = 0 \<and>
     statusLedMode s' = statusLedMode s"
proof (cases "timerHdlLedBlink s = 0")
  case True
  with assms show ?thesis
    by (simp add: led_deleteTimer_def timeru_deleteTimer_def led_owner_def)
next
  case False
  with assms show ?thesis
    by (simp add: led_deleteTimer_def timeru_deleteTimer_def led_owner_def removeTimer_keys Let_def)
      blast
qed

lemma led_set_armed:
  assumes "distinct (map fst (timerList t) @ freeList t)" and "freeList t \<noteq> []"
  shows "\<exists>e s'. timeru_setTimer tick (Some 0) time arg t = (kErrorOk, Some (e + 1), s') \<and>
     distinct (map fst (timerList s') @ freeList s') \<and> e \<notin> set (freeList s') \<and>
     e \<in> fst ` set (timerList s') \<and> timerArgs s' e = arg"
proof -
  obtain e rest where "freeList t = e # rest" using assms(2) by (cases "freeList t") auto
  with assms(1) show ?thesis
    by (auto simp: timeru_setTimer_def Let_def insertTimer_entries)
qed

lemma setTimer_handle:
  "timeru_setTimer tick (Some h) time arg t = (kErrorOk, Some (e + 1), s') \<longleftrightarrow>
   timeru_setTimer tick (Some 0) time arg t = (kErrorOk, Some (e + 1), s')"
  by (auto simp: timeru_setTimer_def Let_def split: list.splits)

lemma led_modify_armed:
  assumes "led_owner s"
  shows "\<exists>s'. led_modifyTimer tick time \<lparr>timerSink = kEventSinkLedu, timerValue = timerArg s\<rparr> s = Some (kErrorOk, s') \<and>
     led_owner s' \<and> led_armed (s', q) \<and> statusLedMode s' = statusLedMode s"
proof -
  obtain ret s1 where d: "led_deleteTimer s = Some (ret, s1)" "led_owner s1" "timerHdlLedBlink s1 = 0"
    using led_delete_owner [OF assms] by blast
  then obtain t where t: "timeru_deleteTimer (Some (timerHdlLedBlink s)) (ledTimers s) = Some (kErrorOk, Some 0, t)"
    "ledTimers s1 = t"
    by (auto simp: led_deleteTimer_def timeru_deleteTimer_def Let_def split: if_splits)
  have "distinct (map fst (timerList t) @ freeList t)" "freeList t \<noteq> []"
    using d(2,3) t(2) by (auto simp: led_owner_def)
  from led_set_armed [OF this, of tick time "\<lparr>timerSink = kEventSinkLedu, timerValue = timerArg s\<rparr>"]
  obtain e t' where e: "timeru_setTimer tick (Some 0) time \<lparr>timerSink = kEventSinkLedu, timerValue = timerArg s\<rparr> t =
      (kErrorOk, Some (e + 1), t')" "distinct (map fst (timerList t') @ freeList t')"
    "e \<notin> set (freeList t')" "e \<in> fst ` set (timerList t')"
    "timerArgs t' e = \<lparr>timerSink = kEventSinkLedu, timerValue = timerArg s\<rparr>" by blast
  from t e(1) have "led_modifyTimer tick time \<lparr>timerSink = kEventSinkLedu, timerValue = timerArg s\<rparr> s =
      Some (kErrorOk, s\<lparr>timerHdlLedBlink := e + 1, ledTimers := t'\<rparr>)"
    by (simp add: led_modifyTimer_def timeru_modifyTimer_def)
  moreover have "led_owner (s\<lparr>timerHdlLedBlink := e + 1, ledTimers := t'\<rparr>)"
    using e by (simp add: led_owner_def)
  moreover have "led_armed (s\<lparr>timerHdlLedBlink := e + 1, ledTimers := t'\<rparr>, q)"
    using e by (simp add: led_armed_def)
  moreover have "statusLedMode (s\<lparr>timerHdlLedBlink := e + 1, ledTimers := t'\<rparr>) = statusLedMode s" by simp
  ultimately show ?thesis by blast
qed

lemma restartTimer_ok:
  assumes "led_owner s" and "flashing (statusLedMode s)"
  shows "\<exists>r s'. restartTimer tick time b s = Some (r, s') \<and> led_ok (s', q) \<and>
     statusLedMode s' = statusLedMode s"
proof -
  let ?s = "s\<lparr>timerArg := wrap32 (timerArg s + 1)\<rparr>"
  have "led_owner ?s" using assms(1) by (auto simp: led_owner_def)
  from led_modify_armed [OF this, of tick time q] obtain s' where
    "led_modifyTimer tick time \<lparr>timerSink = kEventSinkLedu, timerValue = timerArg ?s\<rparr> ?s = Some (kErrorOk, s')"
    "led_owner s'" "led_armed (s', q)" "statusLedMode s' = statusLedMode s" by auto
  note m = this
  with assms(2) have "led_ok (s', q)" by (auto simp: led_ok_def flashing_def)
  then have "led_ok (snd (callStateChanged tick kLedTypeStatus b s'), q)" by simp
  moreover from m(1) have "restartTimer tick time b s = Some (callStateChanged tick kLedTypeStatus b s')"
    by (simp add: restartTimer_def Let_def)
  ultimately show ?thesis using m(4) by (metis callStateChanged_simps(3) prod.collapse)
qed

text \<open>A state the handlers start from: the timer is owned, and running where the LED flashes.\<close>

lemma led_okD:
  assumes "led_ok (s, q)"
  shows "led_owner s" "statusLedMode s \<noteq> kLeduModeInit"
    "flashing (statusLedMode s) \<Longrightarrow> led_armed (s, q)"
    "\<not> flashing (statusLedMode s) \<Longrightarrow> timerHdlLedBlink s = 0"
  using assms by (simp_all add: led_ok_def)

lemma led_owner_update [simp]:
  "led_owner (s\<lparr>statusLedMode := m\<rparr>) = led_owner s"
  "led_owner (s\<lparr>statusLedState := n\<rparr>) = led_owner s"
  by (simp_all add: led_owner_def)

lemma steadyMode_ok:
  assumes "led_ok (s, q)" and "m \<in> {kLeduModeOff, kLeduModeOn}"
  shows "\<exists>r s'. steadyMode tick m b s = Some (r, s') \<and> led_ok (s', q) \<and> statusLedMode s' = m"
proof (cases "statusLedMode s = m")
  case True
  with assms show ?thesis by (simp add: steadyMode_def)
next
  case False
  have "led_owner (s\<lparr>statusLedMode := m\<rparr>)" using led_okD(1) [OF assms(1)] by simp
  from led_delete_owner [OF this] obtain r s' where
    "led_deleteTimer (s\<lparr>statusLedMode := m\<rparr>) = Some (r, s')" "led_owner s'" "timerHdlLedBlink s' = 0"
    "statusLedMode s' = m" by auto
  note d = this
  obtain r' s'' where c: "callStateChanged tick kLedTypeStatus b s' = (r', s'')" by fastforce
  have "led_ok (s', q)" using d(2-4) assms(2) by (auto simp: led_ok_def flashing_def)
  then have "led_ok (s'', q)" using led_ok_call [of tick kLedTypeStatus b s' q] c by simp
  moreover have "statusLedMode s'' = m"
    using callStateChanged_simps(3) [of tick kLedTypeStatus b s'] c d(4) by simp
  ultimately show ?thesis using False d(1) c by (simp add: steadyMode_def)
qed

text \<open>
  The pattern of a flashing mode as phases: on and off in turn, the last phase long. \<open>led_phase m n\<close>
  is the phase that the counter \<open>n\<close> starts: its duration, the LED and the counter it leaves.
\<close>

fun led_phases :: "tLeduMode \<Rightarrow> nat" where
  "led_phases kLeduModeDoubleFlash = 4"
| "led_phases kLeduModeTripleFlash = 6"
| "led_phases _ = 2"

fun led_on_time :: "tLeduMode \<Rightarrow> nat" where
  "led_on_time kLeduModeFlickering = 50"
| "led_on_time _ = 200"

fun led_off_time :: "tLeduMode \<Rightarrow> nat" where
  "led_off_time kLeduModeFlickering = 50"
| "led_off_time kLeduModeBlinking = 200"
| "led_off_time _ = 1000"

definition led_phase :: "tLeduMode \<Rightarrow> nat \<Rightarrow> nat \<times> bool \<times> nat" where
  "led_phase m n =
     (if led_phases m \<le> n then (led_off_time m, False, 0)
      else (led_on_time m, m \<in> {kLeduModeFlickering, kLeduModeBlinking} \<or> odd n, n))"

lemma changeMode_starts:
  assumes "flashing m" and "statusLedMode s \<in> {kLeduModeOff, kLeduModeOn}"
  shows "changeMode tick m s =
     (let b = (statusLedMode s = kLeduModeOff)
      in restartTimer tick (if b then led_on_time m else led_off_time m) b
           (s\<lparr>statusLedMode := m, statusLedState := (if b then 255 else 0)\<rparr>))"
  using assms(1)
  by (cases "statusLedMode s = kLeduModeOff"; cases m)
    (use assms(2) in \<open>simp_all add: changeMode_def flashing_def Let_def\<close>)

lemma changeMode_goes_on:
  assumes "flashing (statusLedMode s)"
  shows "changeMode tick m s = Some (kErrorOk, s\<lparr>statusLedMode := m\<rparr>)"
  using assms by (auto simp: changeMode_def flashing_def Let_def)

lemma process_zombie:
  "snd hv \<noteq> timerArg s \<Longrightarrow> ledu_processEvent tick (led_event hv) s = Some (kErrorOk, s)"
  by (simp add: ledu_processEvent_def led_event_def)

lemma process_steady:
  assumes "snd hv = timerArg s" and "\<not> flashing (statusLedMode s)"
  shows "ledu_processEvent tick (led_event hv) s =
     Some (kErrorOk, s\<lparr>statusLedState := wrap32 (statusLedState s + 1)\<rparr>)"
  using assms by (cases "statusLedMode s") (simp_all add: ledu_processEvent_def led_event_def flashing_def)

lemma process_flash:
  assumes "snd hv = timerArg s" and "flashing (statusLedMode s)"
    and "led_phase (statusLedMode s) (wrap32 (statusLedState s + 1)) = (time, b, k)"
  shows "ledu_processEvent tick (led_event hv) s =
     restartTimer tick time b (s\<lparr>statusLedState := k\<rparr>)"
  using assms
  by (cases "statusLedMode s")
    (auto simp: ledu_processEvent_def led_event_def flashing_def flashPhase_def led_phase_def Let_def
      split: if_splits)

lemma changeMode_ok:
  assumes "led_ok (s, q)" and "flashing m"
  shows "\<exists>r s'. changeMode tick m s = Some (r, s') \<and> led_ok (s', q) \<and> statusLedMode s' = m"
proof (cases "flashing (statusLedMode s)")
  case True
  moreover from this have "led_ok (s\<lparr>statusLedMode := m\<rparr>, q)"
    using assms by (simp add: led_ok_def led_armed_def) (auto simp: flashing_def)
  ultimately show ?thesis by (simp add: changeMode_goes_on)
next
  case False
  then have "statusLedMode s \<in> {kLeduModeOff, kLeduModeOn}"
    using led_okD(2) [OF assms(1)] by (auto simp: flashing_def)
  moreover have "led_owner (s\<lparr>statusLedMode := m, statusLedState := n\<rparr>)" for n
    using led_okD(1) [OF assms(1)] by simp
  ultimately show ?thesis
    using restartTimer_ok [of "s\<lparr>statusLedMode := m, statusLedState := n\<rparr>" for n] assms(2)
    by (simp add: changeMode_starts Let_def)
qed

lemma statusLed_ok:
  assumes "led_ok (s, q)"
  shows "\<exists>r s'. statusLed tick st s = Some (r, s') \<and> led_ok (s', q)"
proof -
  have f: "flashing m" if "m \<in> {kLeduModeFlickering, kLeduModeBlinking, kLeduModeSingleFlash,
      kLeduModeDoubleFlash, kLeduModeTripleFlash}" for m
    using that by (auto simp: flashing_def)
  show ?thesis
    using steadyMode_ok [OF assms] changeMode_ok [OF assms f]
    by (cases st) (simp_all, blast+)
qed

lemma led_nmt_ok:
  assumes "led_ok (s, q)"
  shows "\<exists>rs. ledu_cbNmtStateChange tick c s = Some rs \<and> led_ok (snd rs, q)"
  using statusLed_ok [OF assms, of tick "newNmtState c"] led_ok_errorLed [of tick "nmtEvent c" _ q]
  by (fastforce simp: ledu_cbNmtStateChange_def)

text \<open>An event of the queue: an old one is dropped, the current one starts the timer again.\<close>

lemma led_armed_tl:
  assumes "led_armed (s, hv # q)" and "snd hv \<noteq> timerArg s"
  shows "led_armed (s, q)"
  using assms by (cases hv) (auto simp: led_armed_def)

lemma led_deliver_ok:
  assumes ok: "led_ok (s, hv # q)"
  shows "\<exists>rs. ledu_processEvent tick (led_event hv) s = Some rs \<and> led_ok (snd rs, q)"
proof -
  consider "snd hv \<noteq> timerArg s" | "snd hv = timerArg s" "\<not> flashing (statusLedMode s)"
    | "snd hv = timerArg s" "flashing (statusLedMode s)" by blast
  then show ?thesis
  proof cases
    case 1
    then have "led_ok (s, q)" using ok led_armed_tl [of s hv q] by (auto simp: led_ok_def)
    with 1 show ?thesis by (simp add: process_zombie)
  next
    case 2
    then have "led_ok (s\<lparr>statusLedState := wrap32 (statusLedState s + 1)\<rparr>, q)"
      using ok by (simp add: led_ok_def)
    with 2 show ?thesis by (simp add: process_steady)
  next
    case 3
    obtain time b k where p: "led_phase (statusLedMode s) (wrap32 (statusLedState s + 1)) = (time, b, k)"
      by (metis prod_cases3)
    have "led_owner (s\<lparr>statusLedState := k\<rparr>)" using led_okD(1) [OF ok] by simp
    from restartTimer_ok [OF this, of tick time b q] 3 process_flash [OF 3 p] show ?thesis by auto
  qed
qed

lemma led_poll_ok:
  assumes "led_ok (s, q)"
  shows "\<exists>w. led_step (LedPoll tick) (s, q) = Some w \<and> led_ok w"
proof (cases "timeru_process tick (ledTimers s)")
  case (Pair ev t)
  show ?thesis
  proof (cases ev)
    case None
    then have "t = ledTimers s" using Pair by (auto simp: timeru_process_def Let_def split: list.splits if_splits)
    with None Pair assms show ?thesis by simp
  next
    case (Some x)
    then obtain e d rest where l: "timerList (ledTimers s) = (e, d) # rest"
      "x = (timerSink (timerArgs (ledTimers s) e), e + 1, timerValue (timerArgs (ledTimers s) e))"
      "t = (ledTimers s)\<lparr>timerList := rest, startTimeInMs := wrap32 (startTimeInMs (ledTimers s) + d)\<rparr>"
      using Pair by (auto simp: timeru_process_def Let_def split: list.splits if_splits)
    let ?q = "if fst x = kEventSinkLedu then q @ [snd x] else q"
    have "led_owner (s\<lparr>ledTimers := t\<rparr>)" using led_okD(1) [OF assms] l by (auto simp: led_owner_def)
    moreover have "led_armed (s\<lparr>ledTimers := t\<rparr>, ?q)" if "led_armed (s, q)"
      using that l by (auto simp: led_armed_def)
    ultimately have "led_ok (s\<lparr>ledTimers := t\<rparr>, ?q)" using assms by (auto simp: led_ok_def)
    with Pair Some l(2) show ?thesis by (cases "fst x = kEventSinkLedu") simp_all
  qed
qed

text \<open>
  The entries that the LED holds or could get, and the table shared with the others: no operation of
  the module changes the entries that the others hold.
\<close>

definition led_entries :: "led_system \<Rightarrow> nat list" where
  "led_entries s = (if timerHdlLedBlink s = 0 then [] else [timerHdlLedBlink s - 1]) @ freeList (ledTimers s)"

definition led_frame :: "led_system \<Rightarrow> led_system \<Rightarrow> bool" where
  "led_frame s s' \<longleftrightarrow> ledOthers s' = ledOthers s \<and> led_entries s' = led_entries s"

definition led_shared :: "nat \<Rightarrow> led_system \<Rightarrow> bool" where
  "led_shared N s \<longleftrightarrow> distinct (ledOthers s) \<and> (\<forall>h\<in>set (ledOthers s). h \<noteq> 0 \<and> h - 1 \<notin> set (led_entries s)) \<and>
     length (ledOthers s) + length (led_entries s) = N"

lemma led_frame_shared: "led_frame s s' \<Longrightarrow> led_shared N s' = led_shared N s"
  by (simp add: led_frame_def led_shared_def)

lemma led_frame_trans: "led_frame s s' \<Longrightarrow> led_frame s' s'' \<Longrightarrow> led_frame s s''"
  by (simp add: led_frame_def)

lemma led_frame_updates [simp]:
  "led_frame (s\<lparr>statusLedMode := m\<rparr>) s' = led_frame s s'" "led_frame (s\<lparr>statusLedState := n\<rparr>) s' = led_frame s s'"
  "led_frame (s\<lparr>timerArg := n\<rparr>) s' = led_frame s s'"
  "led_frame s (s'\<lparr>statusLedMode := m\<rparr>) = led_frame s s'" "led_frame s (s'\<lparr>statusLedState := n\<rparr>) = led_frame s s'"
  "led_frame s (s'\<lparr>timerArg := n\<rparr>) = led_frame s s'" "led_frame s s"
  "led_frame s (snd (callStateChanged t l b s')) = led_frame s s'"
  by (simp_all add: led_frame_def led_entries_def callStateChanged_def Let_def split: option.split)

lemma led_frame_delete: "led_deleteTimer s = Some (r, s') \<Longrightarrow> led_frame s s' \<and> timerHdlLedBlink s' = 0"
  by (auto simp: led_deleteTimer_def timeru_deleteTimer_def led_frame_def led_entries_def Let_def split: if_splits)

lemma led_frame_modify: "led_modifyTimer tick time arg s = Some (r, s') \<Longrightarrow> led_frame s s'"
  by (auto simp: led_modifyTimer_def timeru_modifyTimer_def timeru_deleteTimer_def timeru_setTimer_def led_frame_def
      led_entries_def Let_def split: if_splits list.splits)

lemma led_frame_restart: "restartTimer tick time b s = Some rs \<Longrightarrow> led_frame s (snd rs)"
  by (auto simp: restartTimer_def Let_def split: option.splits dest!: led_frame_modify)

lemma led_frame_steady: "steadyMode tick m b s = Some rs \<Longrightarrow> led_frame s (snd rs)"
  by (auto simp: steadyMode_def split: if_splits option.splits dest!: led_frame_delete)

lemma led_frame_change: "changeMode tick m s = Some rs \<Longrightarrow> led_frame s (snd rs)"
  by (cases m) (auto simp: changeMode_def Let_def split: if_splits dest!: led_frame_restart)

lemma led_frame_nmt: "ledu_cbNmtStateChange tick c s = Some rs \<Longrightarrow> led_frame s (snd rs)"
proof -
  assume "ledu_cbNmtStateChange tick c s = Some rs"
  then obtain r where r: "statusLed tick (newNmtState c) s = Some r" "rs = errorLed tick (nmtEvent c) r"
    by (auto simp: ledu_cbNmtStateChange_def)
  have "led_frame s (snd r)"
    using r(1) by (cases "newNmtState c") (auto dest: led_frame_steady led_frame_change)
  then show ?thesis by (simp add: r(2) errorLed_def)
qed

lemma led_frame_deliver: "ledu_processEvent tick (led_event hv) s = Some rs \<Longrightarrow> led_frame s (snd rs)"
proof -
  assume r: "ledu_processEvent tick (led_event hv) s = Some rs"
  consider "snd hv \<noteq> timerArg s" | "snd hv = timerArg s" "\<not> flashing (statusLedMode s)"
    | "snd hv = timerArg s" "flashing (statusLedMode s)" by blast
  then show ?thesis
  proof cases
    case 3
    obtain time b k where "led_phase (statusLedMode s) (wrap32 (statusLedState s + 1)) = (time, b, k)"
      by (metis prod_cases3)
    from process_flash [OF 3 this] r show ?thesis using led_frame_restart by fastforce
  qed (use r in \<open>auto simp: process_zombie process_steady\<close>)
qed

lemma led_frame_poll: "led_step (LedPoll tick) (s, q) = Some w \<Longrightarrow> led_frame s (fst w)"
  by (auto simp: timeru_process_def led_frame_def led_entries_def Let_def split: list.splits if_splits)

lemma led_other_set_ok:
  assumes "led_ok (s, q)" and "led_shared N s" and "length (ledOthers s) + 1 < N"
  shows "\<exists>s'. led_step (LedOtherSet tick time arg) (s, q) = Some (s', q) \<and> led_ok (s', q) \<and> led_shared N s'"
proof -
  let ?t = "ledTimers s"
  have o: "led_owner s" using assms(1) by (rule led_okD)
  have two: "2 \<le> length (led_entries s)" using assms(2,3) by (simp add: led_shared_def)
  then obtain e rest where Cons: "freeList ?t = e # rest"
    by (cases "freeList ?t") (auto simp: led_entries_def split: if_splits)
  have room: "timerHdlLedBlink s = 0 \<Longrightarrow> rest \<noteq> []" using two Cons by (auto simp: led_entries_def)
  define t' where "t' = snd (snd (timeru_setTimer tick (Some 0) time arg ?t))"
  have t': "freeList t' = rest" "timerArgs t' = (timerArgs ?t)(e := arg)"
    "fst ` set (timerList t') = insert e (fst ` set (timerList ?t))"
    "distinct (map fst (timerList t') @ freeList t')"
    using Cons o by (auto simp: timeru_setTimer_def Let_def insertTimer_entries led_owner_def t'_def)
  have r: "timeru_setTimer tick (Some 0) time arg ?t = (kErrorOk, Some (e + 1), t')"
    using Cons by (simp add: timeru_setTimer_def Let_def t'_def)
  let ?s' = "s\<lparr>ledTimers := t', ledOthers := (e + 1) # ledOthers s\<rparr>"
  have "led_owner ?s'" using t' o room Cons by (auto simp: led_owner_def)
  moreover have "led_armed (?s', q)" if "led_armed (s, q)"
    using that t' o Cons by (auto simp: led_armed_def led_owner_def)
  ultimately have ok: "led_ok (?s', q)" using assms(1) by (auto simp: led_ok_def)
  have "distinct (led_entries s)" using o by (auto simp: led_owner_def led_entries_def)
  moreover have "e \<in> set (led_entries s)" using Cons by (simp add: led_entries_def)
  ultimately have "led_shared N ?s'" using assms(2) Cons t'(1)
    by (auto simp: led_shared_def led_entries_def split: if_splits)
  moreover have "led_step (LedOtherSet tick time arg) (s, q) = Some (?s', q)" using r by simp
  ultimately show ?thesis using ok by blast
qed

lemma led_other_delete_ok:
  assumes "led_ok (s, q)" and "led_shared N s" and "h \<in> set (ledOthers s)"
  shows "\<exists>s'. led_step (LedOtherDelete h) (s, q) = Some (s', q) \<and> led_ok (s', q) \<and> led_shared N s'"
proof -
  let ?t = "ledTimers s"
  have o: "led_owner s" using assms(1) by (rule led_okD)
  have h: "h \<noteq> 0" "h - 1 \<notin> set (led_entries s)" using assms(2,3) by (auto simp: led_shared_def)
  then have h': "h - 1 \<notin> set (freeList ?t)" "timerHdlLedBlink s \<noteq> 0 \<longrightarrow> h \<noteq> timerHdlLedBlink s"
    by (auto simp: led_entries_def)
  let ?t' = "?t\<lparr>timerList := removeTimer (h - 1) (timerList ?t), freeList := (h - 1) # freeList ?t,
    freeEntries := freeEntries ?t + 1\<rparr>"
  let ?s' = "s\<lparr>ledTimers := ?t', ledOthers := remove1 h (ledOthers s)\<rparr>"
  have k: "distinct (map fst (timerList ?t))" using o by (simp add: led_owner_def)
  have "led_owner ?s'"
    unfolding led_owner_def
  proof (intro conjI)
    show "distinct (map fst (timerList (ledTimers ?s')) @ freeList (ledTimers ?s'))"
      using o h' removeTimer_keys [OF k, of "h - 1"] unfolding led_owner_def
      by (simp only: distinct_append set_map) auto
    show "if timerHdlLedBlink ?s' = 0 then freeList (ledTimers ?s') \<noteq> []
      else timerHdlLedBlink ?s' - 1 \<notin> set (freeList (ledTimers ?s'))"
      using o h h' unfolding led_owner_def by (cases "timerHdlLedBlink s = 0") auto
  qed
  moreover have "led_armed (?s', q)" if "led_armed (s, q)"
    using that h h' by (simp add: led_armed_def removeTimer_keys [OF k]) auto
  ultimately have ok: "led_ok (?s', q)" using assms(1) by (auto simp: led_ok_def)
  have "led_shared N ?s'"
    unfolding led_shared_def
  proof (intro conjI ballI)
    show "distinct (ledOthers ?s')" using assms(2) by (simp add: led_shared_def)
    show "length (ledOthers ?s') + length (led_entries ?s') = N"
      using assms(2,3) length_pos_if_in_set [OF assms(3)]
      by (simp add: led_shared_def led_entries_def length_remove1) auto
  next
    fix g assume "g \<in> set (ledOthers ?s')"
    then have g: "g \<in> set (ledOthers s)" "g \<noteq> h" using assms(2) by (auto simp: led_shared_def)
    then have "g \<noteq> 0" "g - 1 \<notin> set (led_entries s)" using assms(2) by (auto simp: led_shared_def)
    then show "g \<noteq> 0" "g - 1 \<notin> set (led_entries ?s')" using g(2) h(1) by (auto simp: led_entries_def split: if_splits)
  qed
  moreover have "led_step (LedOtherDelete h) (s, q) = Some (?s', q)"
    using h h' by (simp add: timeru_deleteTimer_def Let_def)
  ultimately show ?thesis using ok by blast
qed

definition led_inv :: "nat \<Rightarrow> led_world \<Rightarrow> bool" where
  "led_inv N w \<longleftrightarrow> led_ok w \<and> led_shared N (fst w)"

lemma led_step_ok: "led_inv N w \<Longrightarrow> others_ok N e w \<Longrightarrow> \<exists>w'. led_step e w = Some w' \<and> led_inv N w'"
proof (cases w)
  case (Pair s q)
  moreover assume "led_inv N w" and "others_ok N e w"
  ultimately have ok: "led_ok (s, q)" "led_shared N s" and oth: "others_ok N e (s, q)" by (simp_all add: led_inv_def)
  have "\<exists>w'. led_step e (s, q) = Some w' \<and> led_inv N w'"
  proof (cases e)
    case (LedNmt tick c)
    with led_nmt_ok [OF ok(1), of tick c] led_frame_nmt [of tick c s] led_frame_shared ok(2) show ?thesis
      by (fastforce simp: led_inv_def)
  next
    case (LedPoll tick)
    from led_poll_ok [OF ok(1), of tick] obtain w' where "led_step (LedPoll tick) (s, q) = Some w'" "led_ok w'" by blast
    with led_frame_poll [OF this(1)] led_frame_shared ok(2) LedPoll show ?thesis by (auto simp: led_inv_def)
  next
    case (LedDeliver tick)
    show ?thesis
    proof (cases q)
      case (Cons hv q')
      with ok(1) led_deliver_ok [of s hv q' tick] obtain rs where
        "ledu_processEvent tick (led_event hv) s = Some rs" "led_ok (snd rs, q')" by blast
      with led_frame_deliver [OF this(1)] led_frame_shared ok(2) Cons LedDeliver show ?thesis by (auto simp: led_inv_def)
    qed (use ok LedDeliver in \<open>simp add: led_inv_def\<close>)
  next
    case (LedOtherSet tick time arg)
    with led_other_set_ok [OF ok, of tick time arg] oth show ?thesis by (auto simp: led_inv_def others_ok_def)
  next
    case (LedOtherDelete h)
    with led_other_delete_ok [OF ok, of h] oth show ?thesis by (auto simp: led_inv_def others_ok_def)
  qed
  with Pair show ?thesis by simp
qed

interpretation led_machine: guarded_machine led_step "others_ok N" "led_inv N" for N
  by unfold_locales (rule led_step_ok)

section \<open>The pattern in time\<close>

text \<open>
  The specification of the patterns: the phases of one cycle, each with the LED and its duration in
  milliseconds, and the calls that a list of phases makes from the time \<open>T\<close> on.
\<close>

fun led_cycle :: "tLeduMode \<Rightarrow> (bool \<times> nat) list" where
  "led_cycle kLeduModeFlickering = [(True, 50), (False, 50)]"
| "led_cycle kLeduModeBlinking = [(True, 200), (False, 200)]"
| "led_cycle kLeduModeSingleFlash = [(True, 200), (False, 1000)]"
| "led_cycle kLeduModeDoubleFlash = [(True, 200), (False, 200), (True, 200), (False, 1000)]"
| "led_cycle kLeduModeTripleFlash =
     [(True, 200), (False, 200), (True, 200), (False, 200), (True, 200), (False, 1000)]"
| "led_cycle _ = []"

fun led_stamps :: "nat \<Rightarrow> (bool \<times> nat) list \<Rightarrow> led_calls" where
  "led_stamps T [] = []"
| "led_stamps T ((b, d) # ps) = (wrap32 T, kLedTypeStatus, b) # led_stamps (T + d) ps"

text \<open>The polls of the timer module, one in each millisecond after \<open>T\<close>, with the event loop.\<close>

fun led_ticks :: "nat \<Rightarrow> nat \<Rightarrow> led_op list" where
  "led_ticks T 0 = []"
| "led_ticks T (Suc n) = LedPoll (wrap32 (T + 1)) # LedDeliver (wrap32 (T + 1)) # led_ticks (T + 1) n"

lemma led_ticks_add: "led_ticks T (m + n) = led_ticks T m @ led_ticks (T + m) n"
  by (induction m arbitrary: T) simp_all

fun led_seq :: "tLeduMode \<Rightarrow> nat \<Rightarrow> nat \<Rightarrow> (bool \<times> nat) list" where
  "led_seq m k 0 = []"
| "led_seq m k (Suc n) = (case led_phase m (k + 1) of (d, b, k') \<Rightarrow> (b, d) # led_seq m k' n)"

lemma led_seq_cycle: "flashing m \<Longrightarrow> led_seq m 0 (n * led_phases m) = concat (replicate n (led_cycle m))"
proof (induction n)
  case (Suc n)
  from Suc.prems have "led_seq m 0 (led_phases m + j) = led_cycle m @ led_seq m 0 j" for j
    by (cases m) (simp_all add: led_phase_def flashing_def numeral_eq_Suc, simp_all add: numeral_2_eq_2 [symmetric])
  with Suc show ?case by simp
qed simp

text \<open>
  \<open>waving s m k T d\<close>: at the time \<open>T\<close> the LED flashes in mode \<open>m\<close>, its counter is \<open>k\<close>, its timer is
  the only one and will expire in \<open>d\<close> milliseconds.
\<close>

definition waving :: "led_system \<Rightarrow> tLeduMode \<Rightarrow> nat \<Rightarrow> nat \<Rightarrow> nat \<Rightarrow> bool" where
  "waving s m k T d \<longleftrightarrow>
     led_owner s \<and> flashing m \<and> statusLedMode s = m \<and> statusLedState s = k \<and> pfnCbStateChange s \<noteq> None \<and>
     (\<exists>e x. timerHdlLedBlink s = e + 1 \<and> timerList (ledTimers s) = [(e, x)] \<and>
        timerArgs (ledTimers s) e = \<lparr>timerSink = kEventSinkLedu, timerValue = timerArg s\<rparr> \<and>
        d \<le> x \<and> x < 2 ^ 32 \<and> wrap32 (startTimeInMs (ledTimers s) + (x - d)) = wrap32 T)"

lemma sub32_since:
  assumes "wrap32 (st + y) = wrap32 T" and "y + i < 2 ^ 32"
  shows "sub32 (wrap32 (T + i)) st = y + i"
proof -
  have "wrap32 (T + i) = wrap32 (st + (y + i))"
    using assms(1) by (metis add.assoc mod_add_left_eq wrap32_def)
  then have "sub32 (wrap32 (T + i)) st = sub32 (wrap32 (st + (y + i))) (wrap32 st)"
    by (simp add: sub32_def wrap32_def)
  also have "\<dots> = y + i" using sub32_wrap [of st "st + (y + i)"] assms(2) by simp
  finally show ?thesis .
qed

lemma waving_wait:
  assumes "waving s m k T d" and "1 < d"
  shows "run_steps led_step (led_ticks T 1) (s, []) = Some (s, [])" "waving s m k (T + 1) (d - 1)"
proof -
  from assms(1) obtain e x where w: "timerHdlLedBlink s = e + 1" "timerList (ledTimers s) = [(e, x)]"
    "d \<le> x" "x < 2 ^ 32" "wrap32 (startTimeInMs (ledTimers s) + (x - d)) = wrap32 T"
    "timerArgs (ledTimers s) e = \<lparr>timerSink = kEventSinkLedu, timerValue = timerArg s\<rparr>"
    unfolding waving_def by blast
  have "sub32 (wrap32 (T + 1)) (startTimeInMs (ledTimers s)) = x - d + 1"
    using w assms(2) by (intro sub32_since) simp_all
  then have "timeru_process (wrap32 (T + 1)) (ledTimers s) = (None, ledTimers s)"
    using w(2, 3) assms(2) by (simp add: timeru_process_def Let_def)
  then show "run_steps led_step (led_ticks T 1) (s, []) = Some (s, [])" by simp
  have "x - (d - 1) = x - d + 1" using w(3) assms(2) by simp
  then have "wrap32 (startTimeInMs (ledTimers s) + (x - (d - 1))) = wrap32 (T + 1)"
    using w(5) unfolding wrap32_def by (metis add.assoc mod_add_left_eq)
  with assms w show "waving s m k (T + 1) (d - 1)" unfolding waving_def by fastforce
qed

lemma wrap32_since: "wrap32 (st + sub32 a st) = wrap32 a"
proof -
  have "wrap32 (st + sub32 a st) = wrap32 (wrap32 st + (a + (2 ^ 32 - wrap32 st)))"
    unfolding sub32_def wrap32_def by (simp only: mod_add_eq mod_add_left_eq mod_add_right_eq)
  also have "wrap32 st + (a + (2 ^ 32 - wrap32 st)) = a + 2 ^ 32"
    using wrap32_less [of st] by linarith
  finally show ?thesis by (simp add: wrap32_def)
qed

lemma set_empty_list:
  assumes "timerList t = []" and "distinct (freeList t)" and "freeList t \<noteq> []"
  shows "\<exists>e t'. timeru_setTimer tick (Some 0) d arg t = (kErrorOk, Some (e + 1), t') \<and>
     timerList t' = [(e, wrap32 (sub32 tick (startTimeInMs t) + d))] \<and> timerArgs t' e = arg \<and>
     startTimeInMs t' = startTimeInMs t \<and> distinct (map fst (timerList t') @ freeList t') \<and>
     e \<notin> set (freeList t')"
proof -
  obtain e rest where "freeList t = e # rest" using assms(3) by (cases "freeList t") auto
  with assms show ?thesis by (auto simp: timeru_setTimer_def Let_def)
qed

lemma restart_waves:
  assumes own: "led_owner s" and "timerList (ledTimers s) = []" and "pfnCbStateChange s \<noteq> None"
    and "flashing (statusLedMode s)" and range: "sub32 (wrap32 T) (startTimeInMs (ledTimers s)) + d < 2 ^ 32"
  shows "\<exists>r s'. restartTimer (wrap32 T) d b s = Some (r, s') \<and>
     waving s' (statusLedMode s) (statusLedState s) T d \<and>
     ledCalls s' = ledCalls s @ [(wrap32 T, kLedTypeStatus, b)]"
proof -
  let ?a = "wrap32 (timerArg s + 1)"
  let ?arg = "\<lparr>timerSink = kEventSinkLedu, timerValue = ?a\<rparr>"
  obtain t where t: "timeru_deleteTimer (Some (timerHdlLedBlink s)) (ledTimers s) = Some (kErrorOk, Some 0, t)"
    and l: "timerList t = []" "distinct (freeList t)" "freeList t \<noteq> []"
      "startTimeInMs t = startTimeInMs (ledTimers s)"
  proof (cases "timerHdlLedBlink s = 0")
    case True
    with own assms(2) that [of "ledTimers s"] show ?thesis by (auto simp: led_owner_def timeru_deleteTimer_def)
  next
    case False
    with own assms(2) that show ?thesis
      by (force simp: led_owner_def timeru_deleteTimer_def Let_def)
  qed
  from set_empty_list [OF l(1-3), of "wrap32 T" d ?arg] l(4) obtain e t' where
    e: "timeru_setTimer (wrap32 T) (Some 0) d ?arg t = (kErrorOk, Some (e + 1), t')"
    and t': "timerList t' = [(e, wrap32 (sub32 (wrap32 T) (startTimeInMs (ledTimers s)) + d))]"
      "timerArgs t' e = ?arg" "startTimeInMs t' = startTimeInMs (ledTimers s)"
      "distinct (map fst (timerList t') @ freeList t')" "e \<notin> set (freeList t')" by auto
  let ?s = "s\<lparr>timerArg := ?a, timerHdlLedBlink := e + 1, ledTimers := t',
    ledCalls := ledCalls s @ [(wrap32 T, kLedTypeStatus, b)]\<rparr>"
  obtain r where r: "restartTimer (wrap32 T) d b s = Some (r, ?s)"
    using t e assms(3)
    by (auto simp: restartTimer_def led_modifyTimer_def timeru_modifyTimer_def Let_def callStateChanged_def)
  have "waving ?s (statusLedMode s) (statusLedState s) T d"
    using assms t' wrap32_since [of "startTimeInMs (ledTimers s)" "wrap32 T"]
    unfolding waving_def by (simp add: led_owner_def wrap32_def)
  with r show ?thesis by auto
qed

lemma waving_fires:
  assumes w: "waving s m k T 1" and p: "led_phase m (k + 1) = (d, b, k')" and k: "k < 256"
  shows "\<exists>s'. run_steps led_step (led_ticks T 1) (s, []) = Some (s', []) \<and> waving s' m k' (T + 1) d \<and>
     ledCalls s' = ledCalls s @ [(wrap32 (T + 1), kLedTypeStatus, b)]"
proof -
  from w obtain e x where e: "timerHdlLedBlink s = e + 1" "timerList (ledTimers s) = [(e, x)]"
    "1 \<le> x" "x < 2 ^ 32" "wrap32 (startTimeInMs (ledTimers s) + (x - 1)) = wrap32 T"
    "timerArgs (ledTimers s) e = \<lparr>timerSink = kEventSinkLedu, timerValue = timerArg s\<rparr>"
    unfolding waving_def by blast
  have w': "led_owner s" "flashing m" "statusLedMode s = m" "statusLedState s = k" "pfnCbStateChange s \<noteq> None"
    using w unfolding waving_def by simp_all
  let ?t = "(ledTimers s)\<lparr>timerList := [], startTimeInMs := wrap32 (startTimeInMs (ledTimers s) + x)\<rparr>"
  have "sub32 (wrap32 (T + 1)) (startTimeInMs (ledTimers s)) = x - 1 + 1"
    using e by (intro sub32_since) simp_all
  then have poll: "led_step (LedPoll (wrap32 (T + 1))) (s, []) =
      Some (s\<lparr>ledTimers := ?t\<rparr>, [(e + 1, timerArg s)])"
    using e by (simp add: timeru_process_def Let_def)
  let ?s = "s\<lparr>ledTimers := ?t, statusLedState := k'\<rparr>"
  have deliver: "ledu_processEvent (wrap32 (T + 1)) (led_event (e + 1, timerArg s)) (s\<lparr>ledTimers := ?t\<rparr>) =
      restartTimer (wrap32 (T + 1)) d b ?s"
    using process_flash [of "(e + 1, timerArg s)" "s\<lparr>ledTimers := ?t\<rparr>" d b k'] w'(2-4) p k by simp
  have "wrap32 (startTimeInMs (ledTimers s) + x) = wrap32 (T + 1)"
    using e(3, 5) unfolding wrap32_def by (metis add.assoc le_add_diff_inverse2 mod_add_left_eq)
  moreover have "sub32 (wrap32 (T + 1)) (wrap32 (T + 1)) = 0" using sub32_wrap [of "T + 1" "T + 1"] by simp
  moreover have "d \<le> 1000" using p by (cases m) (auto simp: led_phase_def split: if_splits)
  ultimately have range: "sub32 (wrap32 (T + 1)) (startTimeInMs (ledTimers ?s)) + d < 2 ^ 32" by simp
  have own: "led_owner ?s" using w'(1) e(2) by (auto simp: led_owner_def)
  have "\<exists>r s'. restartTimer (wrap32 (T + 1)) d b ?s = Some (r, s') \<and>
     waving s' (statusLedMode ?s) (statusLedState ?s) (T + 1) d \<and>
     ledCalls s' = ledCalls ?s @ [(wrap32 (T + 1), kLedTypeStatus, b)]"
    by (rule restart_waves [OF own _ _ _ range]) (use w' in simp_all)
  with poll deliver w'(3) show ?thesis by auto
qed

lemma waving_waits:
  assumes "waving s m k T d" and "n < d"
  shows "run_steps led_step (led_ticks T n) (s, []) = Some (s, []) \<and> waving s m k (T + n) (d - n)"
  using assms(2)
proof (induction n)
  case 0
  with assms(1) show ?case by simp
next
  case (Suc n)
  then have w: "waving s m k (T + n) (d - n)" "1 < d - n"
    "run_steps led_step (led_ticks T n) (s, []) = Some (s, [])" by simp_all
  from waving_wait [OF w(1, 2)] w(3) show ?case
    using led_ticks_add [of T n 1] by (simp add: run_steps_append)
qed

lemma waving_phases:
  assumes "waving s m k T d" and "0 < d" and "k < 256"
  shows "\<exists>s'. run_steps led_step (led_ticks T (d + sum_list (map snd (led_seq m k n)) - 1)) (s, []) = Some (s', []) \<and>
     ledCalls s' = ledCalls s @ led_stamps (T + d) (led_seq m k n)"
  using assms
proof (induction n arbitrary: s k T d)
  case 0
  then show ?case using waving_waits [of s m k T d "d - 1"] by simp
next
  case (Suc n)
  obtain d' b k' where p: "led_phase m (k + 1) = (d', b, k')" by (metis prod_cases3)
  have pos: "0 < d'" "k' < 256" using p by (cases m; auto simp: led_phase_def split: if_splits)+
  from waving_waits [OF Suc.prems(1), of "d - 1"] Suc.prems(2)
  have w: "run_steps led_step (led_ticks T (d - 1)) (s, []) = Some (s, [])" "waving s m k (T + (d - 1)) 1"
    by simp_all
  from waving_fires [OF w(2) p Suc.prems(3)] Suc.prems(2) obtain s1 where
    f: "run_steps led_step (led_ticks (T + (d - 1)) 1) (s, []) = Some (s1, [])" "waving s1 m k' (T + d) d'"
    "ledCalls s1 = ledCalls s @ [(wrap32 (T + d), kLedTypeStatus, b)]" by auto
  let ?N = "d' + sum_list (map snd (led_seq m k' n)) - 1"
  from Suc.IH [OF f(2) pos] obtain s' where
    r: "run_steps led_step (led_ticks (T + d) ?N) (s1, []) = Some (s', [])"
    "ledCalls s' = ledCalls s1 @ led_stamps (T + d + d') (led_seq m k' n)" by blast
  have "d + sum_list (map snd (led_seq m k (Suc n))) - 1 = (d - 1) + (1 + ?N)"
    using Suc.prems(2) pos p by simp
  then have "led_ticks T (d + sum_list (map snd (led_seq m k (Suc n))) - 1) =
      led_ticks T (d - 1) @ led_ticks (T + (d - 1)) 1 @ led_ticks (T + d) ?N"
    using Suc.prems(2) by (simp only: led_ticks_add) (simp del: led_ticks.simps)
  with w(1) f(1) r(1) have "run_steps led_step
      (led_ticks T (d + sum_list (map snd (led_seq m k (Suc n))) - 1)) (s, []) = Some (s', [])"
    by (simp add: run_steps_append del: led_ticks.simps)
  moreover have "ledCalls s' = ledCalls s @ led_stamps (T + d) (led_seq m k (Suc n))"
    using r(2) f(3) p by simp
  ultimately show ?case by blast
qed

text \<open>The mode that shows an NMT state.\<close>

fun led_mode :: "tNmtState \<Rightarrow> tLeduMode" where
  "led_mode kNmtCsPreOperational1 = kLeduModeSingleFlash"
| "led_mode kNmtMsPreOperational1 = kLeduModeSingleFlash"
| "led_mode kNmtCsPreOperational2 = kLeduModeDoubleFlash"
| "led_mode kNmtMsPreOperational2 = kLeduModeDoubleFlash"
| "led_mode kNmtCsReadyToOperate = kLeduModeTripleFlash"
| "led_mode kNmtMsReadyToOperate = kLeduModeTripleFlash"
| "led_mode kNmtCsOperational = kLeduModeOn"
| "led_mode kNmtMsOperational = kLeduModeOn"
| "led_mode kNmtCsStopped = kLeduModeBlinking"
| "led_mode kNmtCsBasicEthernet = kLeduModeFlickering"
| "led_mode kNmtMsBasicEthernet = kLeduModeFlickering"
| "led_mode _ = kLeduModeOff"

definition status_calls :: "led_system \<Rightarrow> led_calls" where
  "status_calls s = filter (\<lambda>c. fst (snd c) = kLedTypeStatus) (ledCalls s)"

lemma statusLed_flashing:
  "flashing (led_mode st) \<Longrightarrow> statusLed tick st s = changeMode tick (led_mode st) s"
  by (cases st) (simp_all add: flashing_def)

lemma statusLed_steady:
  "led_mode st = kLeduModeOff \<Longrightarrow> statusLed tick st s = steadyMode tick kLeduModeOff False s"
  "led_mode st = kLeduModeOn \<Longrightarrow> statusLed tick st s = steadyMode tick kLeduModeOn True s"
  by (cases st; simp)+

lemma waving_call [simp]: "waving (snd (callStateChanged t l b s)) = waving s"
  by (simp add: waving_def led_owner_def fun_eq_iff)

lemma errorLed_waving:
  "waving (snd (errorLed tick e rs)) = waving (snd rs)"
  "status_calls (snd (errorLed tick e rs)) = status_calls (snd rs)"
proof -
  show "waving (snd (errorLed tick e rs)) = waving (snd rs)" by (simp add: errorLed_def)
  have "status_calls (snd (callStateChanged tick kLedTypeError b s)) = status_calls s" for b s
    by (simp add: callStateChanged_def status_calls_def Let_def split: option.split)
  then show "status_calls (snd (errorLed tick e rs)) = status_calls (snd rs)" by (simp add: errorLed_def)
qed

lemma status_calls_stamps: "filter (\<lambda>c. fst (snd c) = kLedTypeStatus) (led_stamps T ps) = led_stamps T ps"
  by (induction T ps rule: led_stamps.induct) simp_all

text \<open>The phases from a change of the NMT state on: from a dark LED first one flash.\<close>

definition led_wave :: "tLeduMode \<Rightarrow> tLeduMode \<Rightarrow> nat \<Rightarrow> (bool \<times> nat) list" where
  "led_wave from m n = (if from = kLeduModeOff then [(True, led_on_time m)] else []) @
     [(False, led_off_time m)] @ concat (replicate n (led_cycle m))"

lemma led_seq_first:
  assumes "flashing m"
  shows "led_seq m 255 (1 + n * led_phases m) = (False, led_off_time m) # concat (replicate n (led_cycle m))"
proof -
  have "led_phase m (255 + 1) = (led_off_time m, False, 0)" by (cases m) (simp_all add: led_phase_def)
  then show ?thesis using led_seq_cycle [OF assms] by simp
qed

lemma led_wave_run:
  assumes "led_owner s" and "timerList (ledTimers s) = []" and "pfnCbStateChange s \<noteq> None"
    and "statusLedMode s \<in> {kLeduModeOff, kLeduModeOn}" and fl: "flashing (led_mode (newNmtState c))"
    and range: "sub32 (wrap32 T) (startTimeInMs (ledTimers s)) + 1000 < 2 ^ 32"
    and wave: "wave = led_wave (statusLedMode s) (led_mode (newNmtState c)) n"
  shows "\<exists>s'. run_steps led_step
       (LedNmt (wrap32 T) c # led_ticks T (sum_list (map snd wave) - 1)) (s, []) = Some (s', []) \<and>
     status_calls s' = status_calls s @ led_stamps T wave"
proof -
  let ?m = "led_mode (newNmtState c)" and ?off = "statusLedMode s = kLeduModeOff"
  let ?d = "if ?off then led_on_time ?m else led_off_time ?m"
  let ?k = "if ?off then 255 else 0 :: nat"
  let ?s = "s\<lparr>statusLedMode := ?m, statusLedState := ?k\<rparr>"
  let ?n = "if ?off then 1 + n * led_phases ?m else n * led_phases ?m"
  have d: "0 < ?d" "?d \<le> 1000" by (cases ?m; simp)+
  have seq: "wave = (?off, ?d) # led_seq ?m ?k ?n"
    unfolding wave led_wave_def using led_seq_first [OF fl] led_seq_cycle [OF fl] by simp
  have "\<exists>r s'. restartTimer (wrap32 T) ?d ?off ?s = Some (r, s') \<and>
      waving s' (statusLedMode ?s) (statusLedState ?s) T ?d \<and>
      ledCalls s' = ledCalls ?s @ [(wrap32 T, kLedTypeStatus, ?off)]"
    using assms(1-3) fl range d by (intro restart_waves) auto
  then obtain r s1 where s1: "restartTimer (wrap32 T) ?d ?off ?s = Some (r, s1)"
    "waving s1 ?m ?k T ?d" "ledCalls s1 = ledCalls s @ [(wrap32 T, kLedTypeStatus, ?off)]" by auto
  let ?e = "errorLed (wrap32 T) (nmtEvent c) (r, s1)"
  have nmt: "ledu_cbNmtStateChange (wrap32 T) c s = Some ?e"
    using s1(1) changeMode_starts [OF fl assms(4)] statusLed_flashing [OF fl]
    by (simp add: ledu_cbNmtStateChange_def Let_def)
  have w: "waving (snd ?e) ?m ?k T ?d" using s1(2) by (simp add: errorLed_waving)
  have "?k < 256" by simp
  from waving_phases [OF w d(1) this, of ?n] obtain s' where
    r: "run_steps led_step (led_ticks T (?d + sum_list (map snd (led_seq ?m ?k ?n)) - 1)) (snd ?e, []) = Some (s', [])"
    "ledCalls s' = ledCalls (snd ?e) @ led_stamps (T + ?d) (led_seq ?m ?k ?n)" by blast
  have "status_calls s' = status_calls (snd ?e) @ led_stamps (T + ?d) (led_seq ?m ?k ?n)"
    using r(2) by (simp add: status_calls_def status_calls_stamps)
  also have "status_calls (snd ?e) = status_calls s @ [(wrap32 T, kLedTypeStatus, ?off)]"
    using s1(3) by (simp add: errorLed_waving) (simp add: status_calls_def)
  finally have "status_calls s' = status_calls s @ led_stamps T wave" unfolding seq by simp
  with nmt r(1) show ?thesis unfolding seq by auto
qed

section \<open>Properties\<close>

definition led_example :: led_system where
  "led_example = \<lparr>timerHdlLedBlink = 0, timerArg = 0, pfnCbStateChange = Some (\<lambda>_. kErrorOk),
     statusLedMode = kLeduModeOff, statusLedState = 0, ledTimers = timer_example, ledCalls = [], ledOthers = []\<rparr>"

definition state_change :: "tNmtState \<Rightarrow> tNmtState \<Rightarrow> tNmtEvent \<Rightarrow> tEventNmtStateChange" where
  "state_change old new e = \<lparr>newNmtState = new, oldNmtState = old, nmtEvent = e\<rparr>"

text \<open>
  C13: The status LED shows the pattern of the NMT state in real time. The application has registered
  a callback, no event is waiting for the module, no timer of another module is running (each poll
  posts one expired timer only, so others would delay the LED), and the last expiry of a timer is not
  nearly \<open>2^32\<close> milliseconds ago. When the NMT state then changes from one with a steady LED to one with
  a flashing LED, and the timer module is polled once in every millisecond, the callback switches the
  LED at exactly the times of the pattern (after one flash when it was dark, and the long pause), for
  any number of cycles, across the wrap-around of the tick counter.
\<close>

theorem status_led_waveform:
  assumes "led_ok (s, [])" and "timerList (ledTimers s) = []" and "pfnCbStateChange s \<noteq> None"
    and "statusLedMode s \<in> {kLeduModeOff, kLeduModeOn}" and "flashing (led_mode (newNmtState c))"
    and "sub32 (wrap32 T) (startTimeInMs (ledTimers s)) + 1000 < 2 ^ 32"
    and "wave = led_wave (statusLedMode s) (led_mode (newNmtState c)) n"
  shows "\<exists>s'. run_steps led_step
       (LedNmt (wrap32 T) c # led_ticks T (sum_list (map snd wave) - 1)) (s, []) = Some (s', []) \<and>
     status_calls s' = status_calls s @ led_stamps T wave"
  using led_wave_run [OF led_okD(1) [OF assms(1)] assms(2-7)] .

theorem status_led_waveform_witness:
  "\<exists>s'. run_steps led_step
       (LedNmt 300 (state_change kNmtCsNotActive kNmtCsPreOperational2 kNmtEventEnterPreOperational2) #
        led_ticks 300 2799) (led_example, []) = Some (s', []) \<and>
     status_calls s' =
       [(300, kLedTypeStatus, True), (500, kLedTypeStatus, False), (1500, kLedTypeStatus, True),
        (1700, kLedTypeStatus, False), (1900, kLedTypeStatus, True), (2100, kLedTypeStatus, False)]"
proof -
  let ?c = "state_change kNmtCsNotActive kNmtCsPreOperational2 kNmtEventEnterPreOperational2"
  have ok: "led_ok (led_example, [])"
    by (simp add: led_ok_def led_owner_def led_example_def timer_example_def flashing_def)
  have w: "led_wave kLeduModeOff kLeduModeDoubleFlash 1 =
      [(True, 200), (False, 1000), (True, 200), (False, 200), (True, 200), (False, 1000)]"
    by (simp add: led_wave_def)
  obtain s' where r: "run_steps led_step (LedNmt (wrap32 300) ?c # led_ticks 300
       (sum_list (map snd [(True, 200), (False, 1000), (True, 200), (False, 200), (True, 200), (False, 1000 :: nat)]) - 1))
       (led_example, []) = Some (s', [])"
    "status_calls s' = status_calls led_example @ led_stamps 300
       [(True, 200), (False, 1000), (True, 200), (False, 200), (True, 200), (False, 1000)]"
    using status_led_waveform [OF ok, of ?c 300 _ 1] w
    by (auto simp: led_example_def timer_example_def state_change_def flashing_def sub32_def wrap32_def
        simp del: led_ticks.simps run_steps.simps)
  have n: "sum_list (map snd [(True, 200), (False, 1000), (True, 200), (False, 200), (True, 200), (False, 1000 :: nat)]) - 1 = 2799"
    "wrap32 300 = 300" by simp_all
  have "status_calls led_example = []" by (simp add: status_calls_def led_example_def)
  with r show ?thesis unfolding n by (intro exI conjI) (assumption, simp)
qed

text \<open>
  C34: The LED never gets stuck and never corrupts the timer module, as long as there is a timer for it.
  The timer module has \<open>N\<close> timers, which are never freed on expiry. From the initialisation of the
  timer module and of the LED module and a first NMT state with a dark LED, through any sequence of
  NMT state changes, polls, events (old ones too) and timers of other modules, which hold at most
  \<open>N - 1\<close> timers at a time and delete only their own: while the mode is a flashing one the LED's timer
  is running with the current argument or its event is queued; in the other modes the module holds
  no timer.
\<close>

theorem status_led_alive:
  assumes "timeru_init N True t0 = (kErrorOk, t)" and "0 < N"
    and "led_mode (newNmtState c) = kLeduModeOff" and "ledOthers s = []"
    and "admissible_run led_step (others_ok N) (LedNmt tick c # ops) (snd (ledu_init cb (s\<lparr>ledTimers := t\<rparr>)), [])"
  shows "\<exists>s' q'. run_steps led_step (LedNmt tick c # ops) (snd (ledu_init cb (s\<lparr>ledTimers := t\<rparr>)), []) = Some (s', q') \<and>
     (if flashing (statusLedMode s') then led_armed (s', q') else timerHdlLedBlink s' = 0)"
proof -
  let ?s = "snd (ledu_init cb (s\<lparr>ledTimers := t\<rparr>))"
  have t: "timerList t = []" "freeList t = [0..<N]"
    using assms(1) by (auto simp: timeru_init_def timeru_addInstance_def split: if_splits)
  let ?o = "?s\<lparr>statusLedMode := kLeduModeOff\<rparr>"
  let ?rs = "errorLed tick (nmtEvent c) (callStateChanged tick kLedTypeStatus False ?o)"
  have "led_ok (?o, [])"
    using t assms(2) by (simp add: ledu_init_def led_ok_def led_owner_def flashing_def)
  then have ok: "led_ok (snd ?rs, [])" by (simp add: led_ok_errorLed)
  have "led_deleteTimer ?o = Some (kErrorOk, ?o)"
    by (simp add: led_deleteTimer_def timeru_deleteTimer_def ledu_init_def)
  then have "statusLed tick (newNmtState c) ?s = Some (callStateChanged tick kLedTypeStatus False ?o)"
    using statusLed_steady(1) [OF assms(3)] by (simp add: steadyMode_def) (simp add: ledu_init_def)
  then have nmt: "ledu_cbNmtStateChange tick c ?s = Some ?rs" by (simp add: ledu_cbNmtStateChange_def)
  have "led_shared N ?s" using t(2) assms(4) by (simp add: led_shared_def led_entries_def ledu_init_def)
  then have "led_inv N (snd ?rs, [])"
    using ok led_frame_shared [OF led_frame_nmt [OF nmt], of N] by (simp add: led_inv_def)
  moreover have step: "led_step (LedNmt tick c) (?s, []) = Some (snd ?rs, [])" using nmt by simp
  moreover have "admissible_run led_step (others_ok N) ops (snd ?rs, [])"
    using assms(5) unfolding admissible_run.simps(2) step by simp
  ultimately obtain s' q' where "run_steps led_step (LedNmt tick c # ops) (?s, []) = Some (s', q')" "led_inv N (s', q')"
    using led_machine.guarded_run_safe [of N "(snd ?rs, [])" ops] by fastforce
  then show ?thesis by (auto simp: led_inv_def led_ok_def)
qed

theorem status_led_alive_witness:
  "\<exists>s' q'. run_steps led_step [LedNmt 7 (state_change kNmtGsOff kNmtGsInitialising kNmtEventSwReset),
       LedNmt 9 (state_change kNmtCsNotActive kNmtCsPreOperational1 kNmtEventEnterCsNotActive),
       LedOtherSet 10 30 (sdo_arg 1), LedPoll 209, LedOtherDelete 2, LedPoll 210, LedDeliver 211]
       (snd (ledu_init None (led_example\<lparr>ledTimers := timer_example\<rparr>)), []) = Some (s', q') \<and>
     (if flashing (statusLedMode s') then led_armed (s', q') else timerHdlLedBlink s' = 0)"
proof (rule status_led_alive [OF timer_example_init])
  show "admissible_run led_step (others_ok 3) [LedNmt 7 (state_change kNmtGsOff kNmtGsInitialising kNmtEventSwReset),
       LedNmt 9 (state_change kNmtCsNotActive kNmtCsPreOperational1 kNmtEventEnterCsNotActive),
       LedOtherSet 10 30 (sdo_arg 1), LedPoll 209, LedOtherDelete 2, LedPoll 210, LedDeliver 211]
       (snd (ledu_init None (led_example\<lparr>ledTimers := timer_example\<rparr>)), [])"
    by (simp add: others_ok_def ledu_cbNmtStateChange_def steadyMode_def changeMode_def led_deleteTimer_def
        restartTimer_def led_modifyTimer_def timeru_modifyTimer_def timeru_deleteTimer_def timeru_setTimer_def
        timeru_process_def callStateChanged_def errorLed_def ledu_init_def led_example_def timer_example_def
        state_change_def sub32_def wrap32_def Let_def split: option.split)
qed (simp_all add: state_change_def led_example_def)

text \<open>
  Started from the mode in which the initialisation leaves it, the module gets stuck. When
  the first NMT state it sees has a flashing LED, the mode is stored but no timer is started, and
  every later change between flashing states leaves the LED as it is.
\<close>

theorem status_led_lost_after_init:
  assumes "flashing (led_mode (newNmtState c))" and "flashing (led_mode (newNmtState c'))"
  shows "\<exists>s'. run_steps led_step [LedNmt tick c, LedNmt tick' c', LedPoll tick'', LedDeliver tick'']
       (snd (ledu_init cb (s\<lparr>ledTimers := timer_example\<rparr>)), []) = Some (s', []) \<and>
     flashing (statusLedMode s') \<and> timerHdlLedBlink s' = 0 \<and> status_calls s' = status_calls s"
proof -
  let ?s = "snd (ledu_init cb (s\<lparr>ledTimers := timer_example\<rparr>))"
  let ?m = "led_mode (newNmtState c)" and ?m' = "led_mode (newNmtState c')"
  let ?r = "errorLed tick (nmtEvent c) (kErrorOk, ?s\<lparr>statusLedMode := ?m\<rparr>)"
  have "changeMode tick ?m ?s = Some (kErrorOk, ?s\<lparr>statusLedMode := ?m\<rparr>)"
    using assms(1) by (auto simp: changeMode_def ledu_init_def flashing_def Let_def)
  then have 1: "led_step (LedNmt tick c) (?s, []) = Some (snd ?r, [])"
    using statusLed_flashing [OF assms(1)] by (simp add: ledu_cbNmtStateChange_def)
  have err: "statusLedMode (snd (errorLed t e rs)) = statusLedMode (snd rs)"
    "timerHdlLedBlink (snd (errorLed t e rs)) = timerHdlLedBlink (snd rs)"
    "ledTimers (snd (errorLed t e rs)) = ledTimers (snd rs)" for t e rs
    by (simp_all add: errorLed_def)
  let ?s2 = "snd ?r\<lparr>statusLedMode := ?m'\<rparr>"
  let ?r2 = "errorLed tick' (nmtEvent c') (kErrorOk, ?s2)"
  have "changeMode tick' ?m' (snd ?r) = Some (kErrorOk, ?s2)"
    using assms(1) by (intro changeMode_goes_on) (simp add: err)
  then have 2: "led_step (LedNmt tick' c') (snd ?r, []) = Some (snd ?r2, [])"
    using statusLed_flashing [OF assms(2)] by (simp add: ledu_cbNmtStateChange_def)
  have t: "ledTimers (snd ?r2) = timer_example" by (simp add: err ledu_init_def)
  then have 3: "led_step (LedPoll tick'') (snd ?r2, []) = Some (snd ?r2, [])"
    by (simp add: timeru_process_def timer_example_def Let_def)
  have 4: "led_step (LedDeliver tick'') (snd ?r2, []) = Some (snd ?r2, [])" by simp
  have "run_steps led_step [LedNmt tick c, LedNmt tick' c', LedPoll tick'', LedDeliver tick''] (?s, []) =
      Some (snd ?r2, [])" by (simp only: run_steps.simps option.case 1 2 3 4)
  moreover have "status_calls (snd ?r2) = status_calls s"
    by (simp add: errorLed_waving(2)) (simp add: status_calls_def ledu_init_def errorLed_waving(2) [unfolded status_calls_def])
  moreover have "flashing (statusLedMode (snd ?r2))" using assms(2) by (simp add: err)
  moreover have "timerHdlLedBlink (snd ?r2) = 0" by (simp add: err) (simp add: ledu_init_def)
  ultimately show ?thesis by blast
qed

theorem status_led_lost_after_init_witness:
  "\<exists>s'. run_steps led_step [LedNmt 5 (state_change kNmtGsOff kNmtCsBasicEthernet kNmtEventTimerBasicEthernet),
       LedNmt 6 (state_change kNmtCsBasicEthernet kNmtCsPreOperational1 kNmtEventDllCeSoc),
       LedPoll 400, LedDeliver 400]
       (snd (ledu_init None (led_example\<lparr>ledTimers := timer_example\<rparr>)), []) = Some (s', []) \<and>
     flashing (statusLedMode s') \<and> timerHdlLedBlink s' = 0 \<and> status_calls s' = status_calls led_example"
  by (rule status_led_lost_after_init) (simp_all add: state_change_def flashing_def)

end
