(* ===== verification/Dllcal_Queue.thy ===== *)
theory Dllcal_Queue
  imports Oplk_Types Circbuf "HOL-Library.Monad_Syntax"
begin

text \<open>
  The queues between the user and the kernel part of the DLL, behind one table of functions
  (\<^verbatim>\<open>tDllCalFuncIntf\<close> of \<^verbatim>\<open>stack/include/common/dllcal.h\<close>): the implementation by a circular buffer
  (\<^verbatim>\<open>stack/src/kernel/dll/dllkcal-circbuf.c\<close>, functions \<open>circ_...\<close>) and the one by a single
  shared frame buffer (\<^verbatim>\<open>stack/src/common/dll/dllcal-direct.c\<close>, functions \<open>direct_...\<close>). The locale
  \<open>dllcal_queue\<close> is what both promise.

  A handle is an optional instance; \<^term>\<open>None\<close> is the \<^verbatim>\<open>NULL\<close> that the functions check for.
\<close>

section \<open>Queues in circular buffers\<close>

datatype tDllCalQueue = kDllCalQueueTxNmt | kDllCalQueueTxGen | kDllCalQueueTxSync

record tDllCalCircBufInstance =
  circQueue :: tDllCalQueue
  pCircBufInstance :: tCircBufInstance

abbreviation (input) CIRCBUF_DLLCAL_TXGEN :: nat where "CIRCBUF_DLLCAL_TXGEN \<equiv> 4"
abbreviation (input) CIRCBUF_DLLCAL_TXNMT :: nat where "CIRCBUF_DLLCAL_TXNMT \<equiv> 5"
abbreviation (input) CIRCBUF_DLLCAL_TXSYNC :: nat where "CIRCBUF_DLLCAL_TXSYNC \<equiv> 6"
abbreviation (input) CONFIG_DLLCAL_BUFFER_SIZE_TX_NMT :: nat where "CONFIG_DLLCAL_BUFFER_SIZE_TX_NMT \<equiv> 32767"
abbreviation (input) CONFIG_DLLCAL_BUFFER_SIZE_TX_GEN :: nat where "CONFIG_DLLCAL_BUFFER_SIZE_TX_GEN \<equiv> 32767"
abbreviation (input) CONFIG_DLLCAL_BUFFER_SIZE_TX_SYNC :: nat where "CONFIG_DLLCAL_BUFFER_SIZE_TX_SYNC \<equiv> 8192"

text \<open>\<open>mallocOk\<close>: there is memory for the instance; \<open>heap\<close> is the memory for the buffer.\<close>

definition circ_addInstance ::
  "bool \<Rightarrow> (nat \<Rightarrow> byte list option) \<Rightarrow> tDllCalQueue \<Rightarrow> tOplkError \<times> tDllCalCircBufInstance option" where
  "circ_addInstance mallocOk heap dllCalQueue =
     (if \<not> mallocOk then (kErrorNoResource, None)
      else
        let (err, cb) =
          (case dllCalQueue of
             kDllCalQueueTxGen \<Rightarrow> circbuf_alloc CIRCBUF_DLLCAL_TXGEN CONFIG_DLLCAL_BUFFER_SIZE_TX_GEN heap
           | kDllCalQueueTxNmt \<Rightarrow> circbuf_alloc CIRCBUF_DLLCAL_TXNMT CONFIG_DLLCAL_BUFFER_SIZE_TX_NMT heap
           | kDllCalQueueTxSync \<Rightarrow> circbuf_alloc CIRCBUF_DLLCAL_TXSYNC CONFIG_DLLCAL_BUFFER_SIZE_TX_SYNC heap)
        in if err \<noteq> kCircBufOk then (kErrorNoResource, None)
           else (kErrorOk, map_option (\<lambda>cb. \<lparr>circQueue = dllCalQueue, pCircBufInstance = cb\<rparr>) cb))"

definition circ_delInstance :: "tDllCalCircBufInstance option \<Rightarrow> tOplkError option" where
  "circ_delInstance q = (case q of None \<Rightarrow> None | Some _ \<Rightarrow> Some kErrorOk)"

definition circ_insertDataBlock ::
  "tDllCalCircBufInstance option \<Rightarrow> byte list \<Rightarrow> (tOplkError \<times> tDllCalCircBufInstance option) option" where
  "circ_insertDataBlock q pData =
     (case q of
        None \<Rightarrow> Some (kErrorInvalidInstanceParam, q)
      | Some i \<Rightarrow> do {
          (err, cb) \<leftarrow> circbuf_writeData (pCircBufInstance i) (Some pData);
          Some (case err of
                  kCircBufOk \<Rightarrow> kErrorOk
                | kCircBufExceedDataSizeLimit \<Rightarrow> kErrorDllAsyncTxBufferFull
                | kCircBufBufferFull \<Rightarrow> kErrorDllAsyncTxBufferFull
                | _ \<Rightarrow> kErrorNoResource,
                Some (i\<lparr>pCircBufInstance := cb\<rparr>))
        })"

text \<open>Reading gets the caller's memory and returns it with the size of the block.\<close>

definition circ_getDataBlock ::
  "tDllCalCircBufInstance option \<Rightarrow> byte list \<Rightarrow>
     (tOplkError \<times> tDllCalCircBufInstance option \<times> byte list \<times> nat) option" where
  "circ_getDataBlock q pData =
     (case q of
        None \<Rightarrow> Some (kErrorInvalidInstanceParam, q, pData, length pData)
      | Some i \<Rightarrow> do {
          (err, cb, dst, actualDataSize) \<leftarrow> circbuf_readData (pCircBufInstance i) (Some pData);
          pData \<leftarrow> dst;
          (if err \<noteq> kCircBufOk then
             Some (if err = kCircBufNoReadableData then kErrorDllAsyncTxBufferEmpty else kErrorNoResource,
               Some (i\<lparr>pCircBufInstance := cb\<rparr>), pData, length pData)
           else do {
             size \<leftarrow> actualDataSize;
             Some (kErrorOk, Some (i\<lparr>pCircBufInstance := cb\<rparr>), pData, size)
           })
        })"

definition circ_getDataBlockCount :: "tDllCalCircBufInstance option \<Rightarrow> tOplkError \<times> nat option" where
  "circ_getDataBlockCount q =
     (case q of
        None \<Rightarrow> (kErrorInvalidInstanceParam, None)
      | Some i \<Rightarrow> (kErrorOk, Some (circbuf_getDataCount (pCircBufInstance i))))"

definition circ_resetDataBlockQueue ::
  "tDllCalCircBufInstance option \<Rightarrow> tOplkError \<times> tDllCalCircBufInstance option" where
  "circ_resetDataBlockQueue q =
     (case q of
        None \<Rightarrow> (kErrorInvalidInstanceParam, q)
      | Some i \<Rightarrow> (kErrorOk, Some (i\<lparr>pCircBufInstance := circbuf_reset (pCircBufInstance i)\<rparr>)))"

section \<open>Queues of one frame\<close>

text \<open>
  The instances form a list, which \<open>direct_addInstance\<close> searches for an instance of the same
  queue; a handle is the queue. The memory of a new instance is \<open>mem\<close>, of unspecified contents.
\<close>

record tDllCalDirectInstance =
  dirQueue :: tDllCalQueue
  frameSize :: nat
  aFrameBuffer :: "byte list"

abbreviation (input) DLLCALDIRECT_TXBUF_SIZE :: nat where "DLLCALDIRECT_TXBUF_SIZE \<equiv> 1518"
abbreviation (input) DLLCALDIRECT_TXBUF_EMPTY :: nat where "DLLCALDIRECT_TXBUF_EMPTY \<equiv> 0"
abbreviation (input) DLLCALDIRECT_TXBUF_FILLING :: nat where "DLLCALDIRECT_TXBUF_FILLING \<equiv> 1"

definition direct_addInstance ::
  "byte list option \<Rightarrow> tDllCalQueue \<Rightarrow> tDllCalDirectInstance list \<Rightarrow>
     tOplkError \<times> tDllCalQueue option \<times> tDllCalDirectInstance list" where
  "direct_addInstance mem dllCalQueue qs =
     (case find (\<lambda>i. dirQueue i = dllCalQueue) qs of
        Some _ \<Rightarrow> (kErrorOk, Some dllCalQueue, qs)
      | None \<Rightarrow>
          (case mem of
             None \<Rightarrow> (kErrorNoResource, None, qs)
           | Some bs \<Rightarrow>
               (kErrorOk, Some dllCalQueue,
                qs @ [\<lparr>dirQueue = dllCalQueue, frameSize = DLLCALDIRECT_TXBUF_EMPTY, aFrameBuffer = bs\<rparr>])))"

definition direct_delInstance ::
  "tDllCalQueue option \<Rightarrow> tDllCalDirectInstance list \<Rightarrow> tOplkError \<times> tDllCalDirectInstance list" where
  "direct_delInstance h qs = (kErrorOk, filter (\<lambda>i. Some (dirQueue i) \<noteq> h) qs)"

definition direct_insertDataBlock ::
  "tDllCalDirectInstance option \<Rightarrow> byte list \<Rightarrow> (tOplkError \<times> tDllCalDirectInstance option) option" where
  "direct_insertDataBlock q pData =
     (case q of
        None \<Rightarrow> Some (kErrorInvalidInstanceParam, q)
      | Some i \<Rightarrow>
          if frameSize i \<noteq> DLLCALDIRECT_TXBUF_EMPTY then Some (kErrorDllAsyncTxBufferFull, q)
          else do {
            buf \<leftarrow> mem_write (aFrameBuffer (i\<lparr>frameSize := DLLCALDIRECT_TXBUF_FILLING\<rparr>)) 0 pData;
            Some (kErrorOk, Some (i\<lparr>aFrameBuffer := buf, frameSize := length pData\<rparr>))
          })"

definition direct_getDataBlock ::
  "tDllCalDirectInstance option \<Rightarrow> byte list \<Rightarrow>
     (tOplkError \<times> tDllCalDirectInstance option \<times> byte list \<times> nat) option" where
  "direct_getDataBlock q pData =
     (case q of
        None \<Rightarrow> Some (kErrorInvalidInstanceParam, q, pData, length pData)
      | Some i \<Rightarrow>
          if frameSize i = DLLCALDIRECT_TXBUF_EMPTY \<or> frameSize i = DLLCALDIRECT_TXBUF_FILLING then
            Some (kErrorDllAsyncTxBufferEmpty, q, pData, length pData)
          else if length pData < frameSize i then Some (kErrorNoResource, q, pData, length pData)
          else do {
            bs \<leftarrow> mem_read (aFrameBuffer i) 0 (frameSize i);
            dst \<leftarrow> mem_write pData 0 bs;
            Some (kErrorOk, Some (i\<lparr>frameSize := DLLCALDIRECT_TXBUF_EMPTY\<rparr>), dst, frameSize i)
          })"

definition direct_getDataBlockCount :: "tDllCalDirectInstance option \<Rightarrow> tOplkError \<times> nat option" where
  "direct_getDataBlockCount q =
     (case q of
        None \<Rightarrow> (kErrorInvalidInstanceParam, None)
      | Some i \<Rightarrow>
          (kErrorOk, Some (if frameSize i = DLLCALDIRECT_TXBUF_EMPTY \<or>
                              frameSize i = DLLCALDIRECT_TXBUF_FILLING then 0 else 1)))"

definition direct_resetDataBlockQueue ::
  "tDllCalDirectInstance option \<Rightarrow> tOplkError \<times> tDllCalDirectInstance option" where
  "direct_resetDataBlockQueue q =
     (case q of
        None \<Rightarrow> (kErrorInvalidInstanceParam, q)
      | Some i \<Rightarrow> (kErrorOk, Some (i\<lparr>frameSize := DLLCALDIRECT_TXBUF_EMPTY\<rparr>)))"

section \<open>Runs of a queue\<close>

text \<open>What a client does with a queue, through the table of functions, and what it sees.\<close>

datatype q_op = QInsert "byte list" | QGet nat | QCount | QReset

datatype q_out = QRet tOplkError | QBlock tOplkError "byte list" | QCounted tOplkError "nat option"

definition q_step ::
  "('q \<Rightarrow> byte list \<Rightarrow> (tOplkError \<times> 'q) option) \<Rightarrow>
   ('q \<Rightarrow> byte list \<Rightarrow> (tOplkError \<times> 'q \<times> byte list \<times> nat) option) \<Rightarrow>
   ('q \<Rightarrow> tOplkError \<times> nat option) \<Rightarrow> ('q \<Rightarrow> tOplkError \<times> 'q) \<Rightarrow> q_op \<Rightarrow> 'q \<Rightarrow> (q_out \<times> 'q) option" where
  "q_step ins get cnt rst opn q =
     (case opn of
        QInsert x \<Rightarrow> map_option (\<lambda>(r, q). (QRet r, q)) (ins q x)
      | QGet n \<Rightarrow>
          map_option (\<lambda>(r, q, dst, k). (QBlock r (if r = kErrorOk then take k dst else []), q))
            (get q (replicate n 0))
      | QCount \<Rightarrow> (case cnt q of (r, n) \<Rightarrow> Some (QCounted r n, q))
      | QReset \<Rightarrow> (case rst q of (r, q) \<Rightarrow> Some (QRet r, q)))"

text \<open>The unbounded queue, and the operations without a refused block.\<close>

fun q_spec :: "q_op \<Rightarrow> byte list list \<Rightarrow> q_out \<times> byte list list" where
  "q_spec (QInsert x) xs = (QRet kErrorOk, xs @ [x])"
| "q_spec (QGet n) [] = (QBlock kErrorDllAsyncTxBufferEmpty [], [])"
| "q_spec (QGet n) (x # xs) =
     (if length x \<le> n then (QBlock kErrorOk x, xs) else (QBlock kErrorNoResource [], x # xs))"
| "q_spec QCount xs = (QCounted kErrorOk (Some (length xs)), xs)"
| "q_spec QReset xs = (QRet kErrorOk, [])"

fun q_op_ok :: "(byte list \<Rightarrow> bool) \<Rightarrow> q_op \<Rightarrow> bool" where
  "q_op_ok block (QInsert x) \<longleftrightarrow> block x"
| "q_op_ok block (QGet n) \<longleftrightarrow> 0 < n"
| "q_op_ok block opn \<longleftrightarrow> True"

fun refused :: "q_out \<Rightarrow> bool" where
  "refused (QRet r) \<longleftrightarrow> r \<noteq> kErrorOk"
| "refused _ \<longleftrightarrow> False"

section \<open>The common contract\<close>

text \<open>
  \<open>holds q xs\<close>: the queue contains the blocks \<open>xs\<close>, oldest first; \<open>block\<close> are the blocks that may
  be inserted. A refused block and an unsuccessful read leave the queue as it is.
\<close>

locale dllcal_queue =
  fixes insertBlock :: "'q \<Rightarrow> byte list \<Rightarrow> (tOplkError \<times> 'q) option"
    and getBlock :: "'q \<Rightarrow> byte list \<Rightarrow> (tOplkError \<times> 'q \<times> byte list \<times> nat) option"
    and blockCount :: "'q \<Rightarrow> tOplkError \<times> nat option"
    and resetQueue :: "'q \<Rightarrow> tOplkError \<times> 'q"
    and queue :: "'q \<Rightarrow> byte list list \<Rightarrow> bool"
    and block :: "byte list \<Rightarrow> bool"
  assumes insert_block: "queue q xs \<Longrightarrow> block x \<Longrightarrow> \<exists>r q'. insertBlock q x = Some (r, q') \<and>
       (r = kErrorOk \<and> queue q' (xs @ [x]) \<or> r \<noteq> kErrorOk \<and> q' = q)"
    and get_block: "queue q (x # xs) \<Longrightarrow> length x \<le> length dst \<Longrightarrow>
       \<exists>q'. getBlock q dst = Some (kErrorOk, q', x @ drop (length x) dst, length x) \<and> queue q' xs"
    and get_small: "queue q (x # xs) \<Longrightarrow> dst \<noteq> [] \<Longrightarrow> length dst < length x \<Longrightarrow>
       getBlock q dst = Some (kErrorNoResource, q, dst, length dst)"
    and get_empty: "queue q [] \<Longrightarrow> dst \<noteq> [] \<Longrightarrow>
       getBlock q dst = Some (kErrorDllAsyncTxBufferEmpty, q, dst, length dst)"
    and count_blocks: "queue q xs \<Longrightarrow> blockCount q = (kErrorOk, Some (length xs))"
    and reset_queue: "queue q xs \<Longrightarrow> \<exists>q'. resetQueue q = (kErrorOk, q') \<and> queue q' []"
    and blocks: "queue q xs \<Longrightarrow> list_all block xs"
begin

text \<open>As a channel: what \<open>fifo_channel\<close> says of batches of messages holds for both queues.\<close>

definition put :: "'q \<Rightarrow> byte list \<Rightarrow> 'q option" where
  "put q x = (case insertBlock q x of
        Some (r, q') \<Rightarrow> if r = kErrorOk then Some q' else None | None \<Rightarrow> None)"

definition get :: "nat \<Rightarrow> 'q \<Rightarrow> (byte list \<times> 'q) option" where
  "get n q =
     (case getBlock q (replicate (Suc n) 0) of
        Some (r, q', dst, k) \<Rightarrow> if r = kErrorOk then Some (take k dst, q') else None
      | None \<Rightarrow> None)"

lemma put_queue:
  assumes "queue q xs" and "block x" and "put q x = Some q'"
  shows "queue q' (xs @ [x])"
  using insert_block [OF assms(1,2)] assms(3) by (auto simp: put_def)

lemma get_queue:
  assumes "queue q (x # xs)" and "length x \<le> n"
  shows "\<exists>q'. get n q = Some (x, q') \<and> queue q' xs"
  using get_block [OF assms(1), of "replicate (Suc n) 0"] assms(2) by (auto simp: get_def)

lemma get_none: "queue q [] \<Longrightarrow> get n q = None"
  using get_empty [of q "replicate (Suc n) 0"] by (simp add: get_def)

abbreviation step :: "q_op \<Rightarrow> 'q \<Rightarrow> (q_out \<times> 'q) option" where
  "step \<equiv> q_step insertBlock getBlock blockCount resetQueue"

lemma step_spec:
  assumes "queue q xs" and "q_op_ok block opn"
  shows "\<exists>out q'. step opn q = Some (out, q') \<and> (\<exists>ys. queue q' ys) \<and>
     (\<not> refused out \<longrightarrow> out = fst (q_spec opn xs) \<and> queue q' (snd (q_spec opn xs)))"
proof (cases opn)
  case (QInsert x)
  then show ?thesis using insert_block [OF assms(1), of x] assms by (auto simp: q_step_def)
next
  case (QGet n)
  show ?thesis
  proof (cases xs)
    case Nil
    then show ?thesis using get_empty [of q "replicate n 0"] assms QGet by (auto simp: q_step_def)
  next
    case (Cons x ys)
    then show ?thesis
      using get_block [of q x ys "replicate n 0"] get_small [of q x ys "replicate n 0"] assms QGet
      by (cases "length x \<le> n") (auto simp: q_step_def)
  qed
next
  case QCount
  then show ?thesis using count_blocks [OF assms(1)] assms(1) by (auto simp: q_step_def)
next
  case QReset
  then show ?thesis using reset_queue [OF assms(1)] by (auto simp: q_step_def)
qed

lemma run_spec:
  assumes "queue q xs" and "list_all (q_op_ok block) ops"
  shows "\<exists>outs q'. run_out step ops q = Some (outs, q') \<and>
     ((\<forall>out\<in>set outs. \<not> refused out) \<longrightarrow>
        (\<exists>ys. run_out (\<lambda>opn xs. Some (q_spec opn xs)) ops xs = Some (outs, ys) \<and> queue q' ys))"
  using assms
proof (induction ops arbitrary: q xs)
  case Nil
  then show ?case by auto
next
  case (Cons opn ops)
  from step_spec [OF Cons.prems(1), of opn] Cons.prems(2) obtain out q1 ys where
    s: "step opn q = Some (out, q1)" "queue q1 ys"
      "\<not> refused out \<longrightarrow> out = fst (q_spec opn xs) \<and> queue q1 (snd (q_spec opn xs))" by auto
  show ?case
  proof (cases "refused out")
    case True
    with Cons.IH [OF s(2)] Cons.prems(2) s(1) show ?thesis by auto
  next
    case False
    then have q1: "queue q1 (snd (q_spec opn xs))" and out: "out = fst (q_spec opn xs)" using s(3) by simp_all
    from Cons.IH [OF q1] Cons.prems(2) obtain outs q' where r: "run_out step ops q1 = Some (outs, q')"
      and sp: "(\<forall>out\<in>set outs. \<not> refused out) \<longrightarrow>
        (\<exists>zs. run_out (\<lambda>opn xs. Some (q_spec opn xs)) ops (snd (q_spec opn xs)) = Some (outs, zs) \<and> queue q' zs)"
      by auto
    show ?thesis
      using r sp s(1) out by (intro exI [of _ "out # outs"] exI [of _ q']) (auto simp: split_beta)
  qed
qed

lemma one_block:
  assumes "queue q []" and "block x" and "insertBlock q x = Some (kErrorOk, q1)" and "length x \<le> n" and "x \<noteq> []"
  shows "\<exists>outs q'. run_out step [QInsert x, QCount, QGet n, QGet n] q = Some (outs, q') \<and>
     (\<forall>out\<in>set outs. \<not> refused out)"
proof -
  have q1: "queue q1 [x]" using insert_block [OF assms(1,2)] assms(3) by auto
  obtain q2 where q2: "getBlock q1 (replicate n 0) = Some (kErrorOk, q2, x @ drop (length x) (replicate n 0), length x)"
    "queue q2 []" using get_block [OF q1, of "replicate n 0"] assms(4) by auto
  have "n \<noteq> 0" using assms(4,5) by (cases x) auto
  then have "getBlock q2 (replicate n 0) = Some (kErrorDllAsyncTxBufferEmpty, q2, replicate n 0, n)"
    using get_empty [OF q2(2), of "replicate n 0"] by simp
  with assms(3) count_blocks [OF q1] q2(1) show ?thesis by (simp add: q_step_def)
qed

end

sublocale dllcal_queue \<subseteq> channel: fifo_channel put "get n"
    "\<lambda>q xs. queue q xs \<and> (\<forall>x\<in>set xs. length x \<le> n)" "\<lambda>x. block x \<and> length x \<le> n" for n
  by unfold_locales (auto intro: put_queue get_none dest: get_queue)


section \<open>The two providers\<close>

definition circ_queue :: "tDllCalCircBufInstance option \<Rightarrow> byte list list \<Rightarrow> bool" where
  "circ_queue q xs \<longleftrightarrow> (\<exists>i. q = Some i \<and> holds (pCircBufInstance i) xs)"

definition circ_block :: "byte list \<Rightarrow> bool" where
  "circ_block x \<longleftrightarrow> x \<noteq> [] \<and> length x \<le> 2 ^ 31"

lemma circ_insert:
  assumes "circ_queue q xs" and "circ_block x"
  shows "frame_len x \<le> freeSize (pCircBufInstance (the q)) \<Longrightarrow>
      \<exists>q'. circ_insertDataBlock q x = Some (kErrorOk, q') \<and> circ_queue q' (xs @ [x])"
    and "freeSize (pCircBufInstance (the q)) < frame_len x \<Longrightarrow>
      circ_insertDataBlock q x = Some (kErrorNoResource, q)"
proof -
  obtain i where i: "q = Some i" "holds (pCircBufInstance i) xs"
    using assms(1) by (auto simp: circ_queue_def)
  have x: "x \<noteq> []" "length x \<le> 2 ^ 31" using assms(2) by (simp_all add: circ_block_def)
  note w = writeData_holds [OF i(2) x]
  show "\<exists>q'. circ_insertDataBlock q x = Some (kErrorOk, q') \<and> circ_queue q' (xs @ [x])"
    if fits: "frame_len x \<le> freeSize (pCircBufInstance (the q))"
  proof -
    obtain q' where "circbuf_writeData (pCircBufInstance i) (Some x) = Some (kCircBufOk, q')"
      "holds q' (xs @ [x])" using w(1) fits i(1) by auto
    then show ?thesis using i(1) by (simp add: circ_insertDataBlock_def circ_queue_def)
  qed
  have "cb_inv (pCircBufInstance i)" using i(2) by (simp add: holds_def)
  from writeData_full [OF this x] show "circ_insertDataBlock q x = Some (kErrorNoResource, q)"
    if "freeSize (pCircBufInstance (the q)) < frame_len x"
    using that i(1) by (simp add: circ_insertDataBlock_def)
qed

lemma circ_queueE:
  assumes "circ_queue q xs"
  obtains i where "q = Some i" and "holds (pCircBufInstance i) xs"
  using assms by (auto simp: circ_queue_def)

interpretation circ: dllcal_queue circ_insertDataBlock circ_getDataBlock circ_getDataBlockCount
    circ_resetDataBlockQueue circ_queue circ_block
proof unfold_locales
  fix q :: "tDllCalCircBufInstance option" and xs :: "byte list list" and x :: "byte list"
  assume h: "circ_queue q xs"
  show "\<exists>r q'. circ_insertDataBlock q x = Some (r, q') \<and>
      (r = kErrorOk \<and> circ_queue q' (xs @ [x]) \<or> r \<noteq> kErrorOk \<and> q' = q)" if "circ_block x"
    using circ_insert [OF h that]
    by (cases "frame_len x \<le> freeSize (pCircBufInstance (the q))") auto
  from h obtain i where i: "q = Some i" "holds (pCircBufInstance i) xs" by (rule circ_queueE)
  then show "circ_getDataBlockCount q = (kErrorOk, Some (length xs))"
    by (simp add: circ_getDataBlockCount_def circbuf_getDataCount_def holds_def)
  show "\<exists>q'. circ_resetDataBlockQueue q = (kErrorOk, q') \<and> circ_queue q' []"
    using i circbuf_reset_holds by (auto simp: circ_resetDataBlockQueue_def circ_queue_def)
  show "list_all circ_block xs"
    using i(2) by (auto simp: holds_def circ_block_def list_all_iff)
next
  fix q :: "tDllCalCircBufInstance option" and xs :: "byte list list" and x dst :: "byte list"
  assume h: "circ_queue q (x # xs)"
  then obtain i where i: "q = Some i" "holds (pCircBufInstance i) (x # xs)" by (rule circ_queueE)
  show "\<exists>q'. circ_getDataBlock q dst = Some (kErrorOk, q', x @ drop (length x) dst, length x) \<and> circ_queue q' xs"
    if "length x \<le> length dst"
    using readData_ok [OF i(2) that] after_read_holds [OF i(2)] i(1)
    by (simp add: circ_getDataBlock_def circ_queue_def)
  show "circ_getDataBlock q dst = Some (kErrorNoResource, q, dst, length dst)"
    if "dst \<noteq> []" and "length dst < length x"
    using readData_small [OF i(2) that] i(1) by (simp add: circ_getDataBlock_def)
next
  fix q :: "tDllCalCircBufInstance option" and dst :: "byte list"
  assume h: "circ_queue q []" and "dst \<noteq> []"
  from h obtain i where i: "q = Some i" "holds (pCircBufInstance i) []" by (rule circ_queueE)
  show "circ_getDataBlock q dst = Some (kErrorDllAsyncTxBufferEmpty, q, dst, length dst)"
    using readData_empty [OF i(2) \<open>dst \<noteq> []\<close>] i(1) by (simp add: circ_getDataBlock_def)
qed

definition direct_queue :: "tDllCalDirectInstance option \<Rightarrow> byte list list \<Rightarrow> bool" where
  "direct_queue q xs \<longleftrightarrow> (\<exists>i. q = Some i \<and> length (aFrameBuffer i) = DLLCALDIRECT_TXBUF_SIZE \<and>
     frameSize i \<le> DLLCALDIRECT_TXBUF_SIZE \<and> frameSize i \<noteq> DLLCALDIRECT_TXBUF_FILLING \<and>
     xs = (if frameSize i = DLLCALDIRECT_TXBUF_EMPTY then [] else [take (frameSize i) (aFrameBuffer i)]))"

lemma direct_queue_Some:
  "direct_queue (Some i) xs \<longleftrightarrow> length (aFrameBuffer i) = DLLCALDIRECT_TXBUF_SIZE \<and>
     frameSize i \<le> DLLCALDIRECT_TXBUF_SIZE \<and> frameSize i \<noteq> DLLCALDIRECT_TXBUF_FILLING \<and>
     xs = (if frameSize i = DLLCALDIRECT_TXBUF_EMPTY then [] else [take (frameSize i) (aFrameBuffer i)])"
  "\<not> direct_queue None xs"
  by (auto simp: direct_queue_def)

definition direct_block :: "byte list \<Rightarrow> bool" where
  "direct_block x \<longleftrightarrow> DLLCALDIRECT_TXBUF_FILLING < length x \<and> length x \<le> DLLCALDIRECT_TXBUF_SIZE"

interpretation direct: dllcal_queue direct_insertDataBlock direct_getDataBlock direct_getDataBlockCount
    direct_resetDataBlockQueue direct_queue direct_block
proof unfold_locales
  fix q :: "tDllCalDirectInstance option" and xs :: "byte list list" and x :: "byte list"
  assume h: "direct_queue q xs"
  then show "\<exists>r q'. direct_insertDataBlock q x = Some (r, q') \<and>
      (r = kErrorOk \<and> direct_queue q' (xs @ [x]) \<or> r \<noteq> kErrorOk \<and> q' = q)" if "direct_block x"
    using that
    by (cases q) (auto simp: direct_queue_Some direct_block_def direct_insertDataBlock_def mem_write_def)
  show "direct_getDataBlockCount q = (kErrorOk, Some (length xs))"
    using h by (auto simp: direct_queue_def direct_getDataBlockCount_def)
  show "\<exists>q'. direct_resetDataBlockQueue q = (kErrorOk, q') \<and> direct_queue q' []"
    using h by (cases q) (auto simp: direct_queue_Some direct_resetDataBlockQueue_def)
  show "list_all direct_block xs"
    using h by (auto simp: direct_queue_def direct_block_def)
next
  fix q :: "tDllCalDirectInstance option" and xs :: "byte list list" and x dst :: "byte list"
  assume h: "direct_queue q (x # xs)"
  then obtain i where i: "q = Some i" "frameSize i \<noteq> DLLCALDIRECT_TXBUF_EMPTY"
    "frameSize i \<noteq> DLLCALDIRECT_TXBUF_FILLING" "x = take (frameSize i) (aFrameBuffer i)" "xs = []"
    "length x = frameSize i" "frameSize i \<le> length (aFrameBuffer i)" "length (aFrameBuffer i) = DLLCALDIRECT_TXBUF_SIZE"
    by (auto simp: direct_queue_def split: if_splits)
  show "\<exists>q'. direct_getDataBlock q dst = Some (kErrorOk, q', x @ drop (length x) dst, length x) \<and> direct_queue q' xs"
    if "length x \<le> length dst"
    using i that by (simp add: direct_getDataBlock_def mem_read_def mem_write_def direct_queue_def)
  show "direct_getDataBlock q dst = Some (kErrorNoResource, q, dst, length dst)"
    if "dst \<noteq> []" and "length dst < length x"
    using i that by (simp add: direct_getDataBlock_def)
next
  fix q :: "tDllCalDirectInstance option" and dst :: "byte list"
  assume h: "direct_queue q []" and "dst \<noteq> []"
  then show "direct_getDataBlock q dst = Some (kErrorDllAsyncTxBufferEmpty, q, dst, length dst)"
    by (auto simp: direct_queue_def direct_getDataBlock_def split: if_splits)
qed


section \<open>Properties\<close>

text \<open>
  C30: The two implementations of the queues are interchangeable for frames of the sizes that
  Ethernet has. Through the same table of functions, starting empty, any sequence of insertions of
  blocks of 2 to 1518 bytes, reads into buffers of at least one byte, counts and resets gives the
  same answers, read blocks included, from the queue in a circular buffer and from the single frame
  buffer, as long as neither refuses a block for lack of room. Outside these sizes they differ: the
  frame buffer takes a block of one byte, which cannot be read and blocks it.
\<close>

theorem dllcal_queues_agree:
  assumes "circ_queue c []" and "direct_queue d []" and "list_all (q_op_ok direct_block) ops"
    and "run_out (q_step circ_insertDataBlock circ_getDataBlock circ_getDataBlockCount
           circ_resetDataBlockQueue) ops c = Some (outs, c')" and "\<forall>out\<in>set outs. \<not> refused out"
    and "run_out (q_step direct_insertDataBlock direct_getDataBlock direct_getDataBlockCount
           direct_resetDataBlockQueue) ops d = Some (outs', d')" and "\<forall>out\<in>set outs'. \<not> refused out"
  shows "outs = outs'"
proof -
  have "q_op_ok circ_block opn" if "q_op_ok direct_block opn" for opn
    using that by (cases opn) (auto simp: circ_block_def direct_block_def)
  then have "list_all (q_op_ok circ_block) ops" using assms(3) by (auto simp: list_all_iff)
  from circ.run_spec [OF assms(1) this] direct.run_spec [OF assms(2,3)] assms(4-7) show ?thesis by auto
qed

lemma circ_example: "\<exists>c. circ_addInstance True cb_heap kDllCalQueueTxSync = (kErrorOk, c) \<and> circ_queue c [] \<and>
     freeSize (pCircBufInstance (the c)) = 8192"
proof -
  obtain q where q: "circbuf_alloc CIRCBUF_DLLCAL_TXSYNC CONFIG_DLLCAL_BUFFER_SIZE_TX_SYNC cb_heap = (kCircBufOk, Some q)"
    by (simp add: circbuf_alloc_def cb_heap_def Let_def)
  from circbuf_alloc_holds [OF this] have "holds q []" by (simp add: cb_heap_def)
  moreover have "freeSize q = 8192" using q by (auto simp: circbuf_alloc_def cb_heap_def align_block_def)
  ultimately show ?thesis using q by (simp add: circ_addInstance_def circ_queue_def)
qed

lemma direct_example:
  "\<exists>d. direct_addInstance (Some (replicate 1518 0)) kDllCalQueueTxSync [] = (kErrorOk, Some kDllCalQueueTxSync, [d]) \<and>
     direct_queue (Some d) []"
  by (simp add: direct_addInstance_def direct_queue_Some)

theorem dllcal_queues_agree_witness:
  "\<exists>c d outs c' d'. circ_queue c [] \<and> direct_queue d [] \<and>
     run_out (q_step circ_insertDataBlock circ_getDataBlock circ_getDataBlockCount
           circ_resetDataBlockQueue) [QInsert [1, 2], QCount, QGet 4, QGet 4] c = Some (outs, c') \<and>
     run_out (q_step direct_insertDataBlock direct_getDataBlock direct_getDataBlockCount
           direct_resetDataBlockQueue) [QInsert [1, 2], QCount, QGet 4, QGet 4] d = Some (outs, d')"
proof -
  obtain c where c: "circ_queue c []" "freeSize (pCircBufInstance (the c)) = 8192" using circ_example by blast
  obtain d where d: "direct_queue (Some d) []" using direct_example by blast
  have ops: "list_all (q_op_ok direct_block) [QInsert [1, 2], QCount, QGet 4, QGet 4]" by (simp add: direct_block_def)
  have "frame_len [1, 2] \<le> 8192" using frame_len_bounds(4) [of "[1, 2]"] by simp
  then obtain c1 where c1: "circ_insertDataBlock c [1, 2] = Some (kErrorOk, c1)"
    using circ_insert(1) [OF c(1), of "[1, 2]"] c(2) by (auto simp: circ_block_def)
  obtain outs c' where rc: "run_out circ.step [QInsert [1, 2], QCount, QGet 4, QGet 4] c = Some (outs, c')"
    "\<forall>out\<in>set outs. \<not> refused out" using circ.one_block [OF c(1) _ c1, of 4] by (auto simp: circ_block_def)
  obtain d1 where d1: "direct_insertDataBlock (Some d) [1, 2] = Some (kErrorOk, d1)"
    using d by (auto simp: direct_insertDataBlock_def direct_queue_Some mem_write_def split: if_splits)
  obtain outs' d' where rd: "run_out direct.step [QInsert [1, 2], QCount, QGet 4, QGet 4] (Some d) = Some (outs', d')"
    "\<forall>out\<in>set outs'. \<not> refused out" using direct.one_block [OF d _ d1, of 4] by (auto simp: direct_block_def)
  from dllcal_queues_agree [OF c(1) d ops rc rd] c(1) d rc(1) rd(1) show ?thesis by blast
qed

text \<open>
  A full queue is reported as a lack of resources: the circular buffer answers a block that
  does not fit with \<^verbatim>\<open>kCircBufOutOfMem\<close>, which the queue does not translate into
  \<^verbatim>\<open>kErrorDllAsyncTxBufferFull\<close>, the only error that the sender over ASnd knows how to handle; the
  direct queue does return that error.
\<close>

lemma full_queue_is_no_resource:
  assumes "circ_queue c xs" and "circ_block x" and "freeSize (pCircBufInstance (the c)) < frame_len x"
    and "direct_queue d (y # ys)"
  shows "circ_insertDataBlock c x = Some (kErrorNoResource, c)"
    and "direct_insertDataBlock d x = Some (kErrorDllAsyncTxBufferFull, d)"
  using circ_insert(2) [OF assms(1-3)] assms(4)
  by (cases d; auto simp: direct_queue_Some direct_insertDataBlock_def split: if_splits)+

end
