(* ===== verification/Dllk_Cal.thy ===== *)
theory Dllk_Cal
  imports Dllcal_Queue
begin

text \<open>
  The kernel part of the DLL abstraction layer (\<^verbatim>\<open>stack/src/kernel/dll/dllkcal.c\<close>): the queues of
  asynchronous frames to send, and on the managing node the scheduler that decides which node the
  next SoA invites. \<open>tDllkCalInstance\<close> is the record of the C instance, with the queues in
  circular buffers (\<open>Dllcal_Queue\<close>, \<open>Circbuf\<close>); \<^term>\<open>None\<close> stands for a \<^verbatim>\<open>NULL\<close> in it.

  Calls of the DLL and of the event module are recorded in \<open>cal_outs\<close> and answered by an
  environment. A result \<^term>\<open>None\<close> is undefined behaviour: a queue that is \<^verbatim>\<open>NULL\<close>, a node ID
  outside the tables. The argument \<open>mn\<close> is \<^verbatim>\<open>CONFIG_INCLUDE_NMT_MN\<close>, \<open>deferred\<close> is
  \<^verbatim>\<open>CONFIG_DLL_DEFERRED_RXFRAME_RELEASE_ASYNC\<close>.
\<close>

unbundle bit_operations_syntax

section \<open>State\<close>

record tDllkCalStatistics =
  curTxFrameCountGen :: nat
  curTxFrameCountNmt :: nat
  curRxFrameCount :: nat
  maxTxFrameCountGen :: nat
  maxTxFrameCountNmt :: nat
  maxRxFrameCount :: nat

text \<open>The fields of the SoA payload that this module writes.\<close>

record tSyncRequest =
  syncControlLe :: u32
  presTimeFirstLe :: u32
  presFallBackTimeoutLe :: u32
  aDestMacAddress :: "byte list"

datatype dllkcal_out =
    CalSetServFilter nat tDllAsndFilter   \<comment> \<open>\<^verbatim>\<open>dllk_setAsndServiceIdFilter\<close>\<close>
  | CalConfigNode tDllNodeInfo            \<comment> \<open>\<^verbatim>\<open>dllk_configNode\<close>\<close>
  | CalAddNode tDllNodeOpParam            \<comment> \<open>\<^verbatim>\<open>dllk_addNode\<close>\<close>
  | CalDeleteNode tDllNodeOpParam         \<comment> \<open>\<^verbatim>\<open>dllk_deleteNode\<close>\<close>
  | CalSetIdentity nat "byte list"        \<comment> \<open>\<^verbatim>\<open>dllk_setIdentity\<close>\<close>
  | CalConfig nat "byte list"             \<comment> \<open>\<^verbatim>\<open>dllk_config\<close>\<close>
  | CalReleaseRx "byte list"              \<comment> \<open>\<^verbatim>\<open>dllk_releaseRxFrame\<close>\<close>
  | CalSetFlag1 nat byte                  \<comment> \<open>\<^verbatim>\<open>dllk_setFlag1OfNode\<close>\<close>
  | CalGetMac nat                         \<comment> \<open>\<^verbatim>\<open>dllk_getCnMacAddress\<close>\<close>
  | CalPost tEvent                        \<comment> \<open>\<^verbatim>\<open>eventk_postEvent\<close>\<close>

record tDllkCalInstance =
  dllCalQueueTxNmt :: "tDllCalCircBufInstance option"
  dllCalQueueTxGen :: "tDllCalCircBufInstance option"
  dllCalQueueTxSync :: "tDllCalCircBufInstance option"
  statistics :: tDllkCalStatistics
  pQueueIdentReq :: "tCircBufInstance option"
  pQueueStatusReq :: "tCircBufInstance option"
  pQueueCnRequestNmt :: "tCircBufInstance option"
  aCnRequestCntNmt :: "nat list"
  pQueueCnRequestGen :: "tCircBufInstance option"
  aCnRequestCntGen :: "nat list"
  nextRequestQueue :: nat
  cal_outs :: "dllkcal_out list"

text \<open>
  The environment: results of the calls, the MAC address that \<^verbatim>\<open>dllk_getCnMacAddress\<close> stores, and
  what the code leaves uninitialised: the bytes of a local \<^verbatim>\<open>tDllSyncRequest\<close>, the \<^verbatim>\<open>netTime\<close> of
  an event.
\<close>

record dllkcal_env =
  cal_ret :: "dllkcal_out list \<Rightarrow> tOplkError"
  cal_mac :: "nat \<Rightarrow> byte list"
  cal_stack :: "byte list"
  cal_netTime :: nat

abbreviation (input) CIRCBUF_DLLCAL_CN_REQ_NMT :: nat where "CIRCBUF_DLLCAL_CN_REQ_NMT \<equiv> 7"
abbreviation (input) CIRCBUF_DLLCAL_CN_REQ_GEN :: nat where "CIRCBUF_DLLCAL_CN_REQ_GEN \<equiv> 8"
abbreviation (input) CIRCBUF_DLLCAL_CN_REQ_IDENT :: nat where "CIRCBUF_DLLCAL_CN_REQ_IDENT \<equiv> 9"
abbreviation (input) CIRCBUF_DLLCAL_CN_REQ_STATUS :: nat where "CIRCBUF_DLLCAL_CN_REQ_STATUS \<equiv> 10"
abbreviation (input) CONFIG_DLLCAL_SIZE_CIRCBUF_CN_REQ_NMT :: nat where
  "CONFIG_DLLCAL_SIZE_CIRCBUF_CN_REQ_NMT \<equiv> 2048"
abbreviation (input) CONFIG_DLLCAL_SIZE_CIRCBUF_CN_REQ_GEN :: nat where
  "CONFIG_DLLCAL_SIZE_CIRCBUF_CN_REQ_GEN \<equiv> 2048"
abbreviation (input) CONFIG_DLLCAL_SIZE_CIRCBUF_REQ_IDENT :: nat where
  "CONFIG_DLLCAL_SIZE_CIRCBUF_REQ_IDENT \<equiv> 256"
abbreviation (input) CONFIG_DLLCAL_SIZE_CIRCBUF_REQ_STATUS :: nat where
  "CONFIG_DLLCAL_SIZE_CIRCBUF_REQ_STATUS \<equiv> 256"
abbreviation (input) DLLKCAL_MAX_QUEUES :: nat where "DLLKCAL_MAX_QUEUES \<equiv> 6"
abbreviation (input) C_ADR_INVALID :: nat where "C_ADR_INVALID \<equiv> 0"
abbreviation (input) PLK_SYNC_DEST_MAC_ADDRESS_VALID :: u32 where "PLK_SYNC_DEST_MAC_ADDRESS_VALID \<equiv> 0x20"
abbreviation (input) PLK_SYNC_PRES_MODE_RESET :: u32 where "PLK_SYNC_PRES_MODE_RESET \<equiv> 0x40000000"
abbreviation (input) PLK_SYNC_PRES_MODE_SET :: u32 where "PLK_SYNC_PRES_MODE_SET \<equiv> 0x80000000"

definition cal_call :: "dllkcal_env \<Rightarrow> dllkcal_out \<Rightarrow> tDllkCalInstance \<Rightarrow> tOplkError \<times> tDllkCalInstance" where
  "cal_call env out s = (cal_ret env (cal_outs s @ [out]), s\<lparr>cal_outs := cal_outs s @ [out]\<rparr>)"

definition zero_cal :: "dllkcal_out list \<Rightarrow> tDllkCalInstance" where
  "zero_cal outs = \<lparr>dllCalQueueTxNmt = None, dllCalQueueTxGen = None, dllCalQueueTxSync = None,
     statistics = \<lparr>curTxFrameCountGen = 0, curTxFrameCountNmt = 0, curRxFrameCount = 0,
       maxTxFrameCountGen = 0, maxTxFrameCountNmt = 0, maxRxFrameCount = 0\<rparr>,
     pQueueIdentReq = None, pQueueStatusReq = None, pQueueCnRequestNmt = None,
     aCnRequestCntNmt = replicate 254 0, pQueueCnRequestGen = None, aCnRequestCntGen = replicate 254 0,
     nextRequestQueue = 0, cal_outs = outs\<rparr>"

section \<open>Initialisation\<close>

text \<open>The queues of the scheduler; a failed allocation ends the function without an error.\<close>

definition allocRequestQueues ::
  "(nat \<Rightarrow> nat \<Rightarrow> byte list option) \<Rightarrow> tDllkCalInstance \<Rightarrow> tOplkError \<times> tDllkCalInstance" where
  "allocRequestQueues heap s =
     (let (err, q) = circbuf_alloc CIRCBUF_DLLCAL_CN_REQ_NMT CONFIG_DLLCAL_SIZE_CIRCBUF_CN_REQ_NMT
            (heap CIRCBUF_DLLCAL_CN_REQ_NMT);
          s = s\<lparr>pQueueCnRequestNmt := q\<rparr>
      in if err \<noteq> kCircBufOk then (kErrorOk, s)
      else let (err, q) = circbuf_alloc CIRCBUF_DLLCAL_CN_REQ_GEN CONFIG_DLLCAL_SIZE_CIRCBUF_CN_REQ_GEN
            (heap CIRCBUF_DLLCAL_CN_REQ_GEN);
          s = s\<lparr>pQueueCnRequestGen := q\<rparr>
      in if err \<noteq> kCircBufOk then (kErrorOk, s)
      else let (err, q) = circbuf_alloc CIRCBUF_DLLCAL_CN_REQ_IDENT CONFIG_DLLCAL_SIZE_CIRCBUF_REQ_IDENT
            (heap CIRCBUF_DLLCAL_CN_REQ_IDENT);
          s = s\<lparr>pQueueIdentReq := q\<rparr>
      in if err \<noteq> kCircBufOk then (kErrorOk, s)
      else let (err, q) = circbuf_alloc CIRCBUF_DLLCAL_CN_REQ_STATUS CONFIG_DLLCAL_SIZE_CIRCBUF_REQ_STATUS
            (heap CIRCBUF_DLLCAL_CN_REQ_STATUS);
          s = s\<lparr>pQueueStatusReq := q\<rparr>
      in (kErrorOk, s))"

definition dllkcal_init ::
  "bool \<Rightarrow> (tDllCalQueue \<Rightarrow> bool) \<Rightarrow> (nat \<Rightarrow> nat \<Rightarrow> byte list option) \<Rightarrow> tDllkCalInstance \<Rightarrow>
     tOplkError \<times> tDllkCalInstance" where
  "dllkcal_init mn mallocOk heap s =
     (let s = zero_cal (cal_outs s);
          (ret, q) = circ_addInstance (mallocOk kDllCalQueueTxNmt) (heap CIRCBUF_DLLCAL_TXNMT) kDllCalQueueTxNmt;
          s = s\<lparr>dllCalQueueTxNmt := q\<rparr>
      in if ret \<noteq> kErrorOk then (ret, s)
      else let (ret, q) = circ_addInstance (mallocOk kDllCalQueueTxGen) (heap CIRCBUF_DLLCAL_TXGEN) kDllCalQueueTxGen;
          s = s\<lparr>dllCalQueueTxGen := q\<rparr>
      in if ret \<noteq> kErrorOk \<or> \<not> mn then (ret, s)
      else let (ret, q) = circ_addInstance (mallocOk kDllCalQueueTxSync) (heap CIRCBUF_DLLCAL_TXSYNC) kDllCalQueueTxSync;
          s = s\<lparr>dllCalQueueTxSync := q\<rparr>
      in if ret \<noteq> kErrorOk then (ret, s) else allocRequestQueues heap s)"

definition dllkcal_exit :: "bool \<Rightarrow> tDllkCalInstance \<Rightarrow> (tOplkError \<times> tDllkCalInstance) option" where
  "dllkcal_exit mn s =
     (if mn \<and> (pQueueCnRequestGen s = None \<or> pQueueCnRequestNmt s = None \<or> pQueueIdentReq s = None \<or>
                pQueueStatusReq s = None) then None
      else do {
        _ \<leftarrow> circ_delInstance (dllCalQueueTxNmt s);
        _ \<leftarrow> circ_delInstance (dllCalQueueTxGen s);
        _ \<leftarrow> (if mn then circ_delInstance (dllCalQueueTxSync s) else Some kErrorOk);
        Some (kErrorOk, zero_cal (cal_outs s))
      })"

section \<open>Frames\<close>

definition dllkcal_getAsyncTxCount ::
  "tDllkCalInstance \<Rightarrow> tOplkError \<times> (tDllAsyncReqPriority \<times> nat) option \<times> tDllkCalInstance" where
  "dllkcal_getAsyncTxCount s =
     (case circ_getDataBlockCount (dllCalQueueTxNmt s) of
        (ret, None) \<Rightarrow> (ret, None, s)
      | (ret, Some frameCount) \<Rightarrow>
          let s = (if maxTxFrameCountNmt (statistics s) < frameCount
                   then s\<lparr>statistics := (statistics s)\<lparr>maxTxFrameCountNmt := frameCount\<rparr>\<rparr> else s)
          in if frameCount \<noteq> 0 then (ret, Some (kDllAsyncReqPrioNmt, frameCount), s)
             else
               (case circ_getDataBlockCount (dllCalQueueTxGen s) of
                  (ret, None) \<Rightarrow> (ret, None, s)
                | (ret, Some frameCount) \<Rightarrow>
                    let s = (if maxTxFrameCountGen (statistics s) < frameCount
                             then s\<lparr>statistics := (statistics s)\<lparr>maxTxFrameCountGen := frameCount\<rparr>\<rparr> else s)
                    in (ret, Some (kDllAsyncReqPrioGeneric, frameCount), s)))"

definition dllkcal_getAsyncTxFrame ::
  "byte list \<Rightarrow> tDllAsyncReqPriority \<Rightarrow> tDllkCalInstance \<Rightarrow>
     (tOplkError \<times> byte list \<times> nat \<times> tDllkCalInstance) option" where
  "dllkcal_getAsyncTxFrame pFrame priority s =
     (case priority of
        kDllAsyncReqPrioNmt \<Rightarrow>
          map_option (\<lambda>(ret, q, frame, size). (ret, frame, size, s\<lparr>dllCalQueueTxNmt := q\<rparr>))
            (circ_getDataBlock (dllCalQueueTxNmt s) pFrame)
      | _ \<Rightarrow>
          map_option (\<lambda>(ret, q, frame, size). (ret, frame, size, s\<lparr>dllCalQueueTxGen := q\<rparr>))
            (circ_getDataBlock (dllCalQueueTxGen s) pFrame))"

definition dllkcal_asyncFrameReceived ::
  "bool \<Rightarrow> dllkcal_env \<Rightarrow> byte list \<Rightarrow> tDllkCalInstance \<Rightarrow> tOplkError \<times> tDllkCalInstance" where
  "dllkcal_asyncFrameReceived deferred env frame s =
     (let event = \<lparr>eventType = kEventTypeAsndRx, eventSink = kEventSinkDlluCal, netTime = cal_netTime env,
            pEventArg = ArgFrame frame\<rparr>;
          (ret, s) = cal_call env (CalPost event) s;
          st = statistics s
      in if ret \<noteq> kErrorOk then
           (ret, s\<lparr>statistics := st\<lparr>curRxFrameCount := wrap32 (curRxFrameCount st + 1)\<rparr>\<rparr>)
         else
           (if deferred then kErrorReject else ret,
            s\<lparr>statistics := st\<lparr>maxRxFrameCount := wrap32 (maxRxFrameCount st + 1)\<rparr>\<rparr>))"

text \<open>Both senders store a frame in the queue of its priority.\<close>

definition dllkcal_writeAsyncFrame ::
  "bool \<Rightarrow> byte list \<Rightarrow> tDllCalQueue \<Rightarrow> tDllkCalInstance \<Rightarrow> (tOplkError \<times> tDllkCalInstance) option" where
  "dllkcal_writeAsyncFrame mn frame dllQueue s =
     (case dllQueue of
        kDllCalQueueTxNmt \<Rightarrow>
          map_option (\<lambda>(ret, q). (ret, s\<lparr>dllCalQueueTxNmt := q\<rparr>)) (circ_insertDataBlock (dllCalQueueTxNmt s) frame)
      | kDllCalQueueTxGen \<Rightarrow>
          map_option (\<lambda>(ret, q). (ret, s\<lparr>dllCalQueueTxGen := q\<rparr>)) (circ_insertDataBlock (dllCalQueueTxGen s) frame)
      | kDllCalQueueTxSync \<Rightarrow>
          if mn then
            map_option (\<lambda>(ret, q). (ret, s\<lparr>dllCalQueueTxSync := q\<rparr>)) (circ_insertDataBlock (dllCalQueueTxSync s) frame)
          else Some (kErrorOk, s))"

definition dllkcal_sendAsyncFrame ::
  "dllkcal_env \<Rightarrow> byte list \<Rightarrow> tDllAsyncReqPriority \<Rightarrow> tDllkCalInstance \<Rightarrow>
     (tOplkError \<times> tDllkCalInstance) option" where
  "dllkcal_sendAsyncFrame env frame priority s = do {
     (ret, s) \<leftarrow>
       (case priority of
          kDllAsyncReqPrioNmt \<Rightarrow>
            map_option (\<lambda>(ret, q). (ret, s\<lparr>dllCalQueueTxNmt := q\<rparr>)) (circ_insertDataBlock (dllCalQueueTxNmt s) frame)
        | _ \<Rightarrow>
            map_option (\<lambda>(ret, q). (ret, s\<lparr>dllCalQueueTxGen := q\<rparr>)) (circ_insertDataBlock (dllCalQueueTxGen s) frame));
     Some (if ret \<noteq> kErrorOk then (ret, s)
       else cal_call env (CalPost \<lparr>eventType = kEventTypeDllkFillTx, eventSink = kEventSinkDllk, netTime = 0,
              pEventArg = ArgPriority priority\<rparr>) s)
   }"

definition dllkcal_clearAsyncBuffer :: "tDllkCalInstance \<Rightarrow> tOplkError \<times> tDllkCalInstance" where
  "dllkcal_clearAsyncBuffer s =
     (let (_, q) = circ_resetDataBlockQueue (dllCalQueueTxNmt s);
          (ret, q') = circ_resetDataBlockQueue (dllCalQueueTxGen s)
      in (ret, s\<lparr>dllCalQueueTxNmt := q, dllCalQueueTxGen := q'\<rparr>))"

definition dllkcal_clearAsyncQueues :: "tDllkCalInstance \<Rightarrow> (tOplkError \<times> tDllkCalInstance) option" where
  "dllkcal_clearAsyncQueues s =
     (let (ret, q) = circ_resetDataBlockQueue (dllCalQueueTxSync s)
      in do {
        gen \<leftarrow> pQueueCnRequestGen s;
        nmt \<leftarrow> pQueueCnRequestNmt s;
        ident \<leftarrow> pQueueIdentReq s;
        status \<leftarrow> pQueueStatusReq s;
        Some (ret, s\<lparr>dllCalQueueTxSync := q, nextRequestQueue := 0,
          pQueueCnRequestGen := Some (circbuf_reset gen), pQueueCnRequestNmt := Some (circbuf_reset nmt),
          pQueueIdentReq := Some (circbuf_reset ident), pQueueStatusReq := Some (circbuf_reset status)\<rparr>)
      })"

definition dllkcal_getStatistics :: "tDllkCalInstance \<Rightarrow> tOplkError \<times> tDllkCalStatistics \<times> tDllkCalInstance" where
  "dllkcal_getStatistics s =
     (let (_, nmt) = circ_getDataBlockCount (dllCalQueueTxNmt s);
          (ret, gen) = circ_getDataBlockCount (dllCalQueueTxGen s);
          st = statistics s;
          st = (case nmt of None \<Rightarrow> st | Some n \<Rightarrow> st\<lparr>curTxFrameCountNmt := n\<rparr>);
          st = (case gen of None \<Rightarrow> st | Some n \<Rightarrow> st\<lparr>curTxFrameCountGen := n\<rparr>)
      in (ret, st, s\<lparr>statistics := st\<rparr>))"

section \<open>Requests\<close>

definition dllkcal_issueRequest ::
  "dllkcal_env \<Rightarrow> tDllReqServiceId \<Rightarrow> nat \<Rightarrow> byte \<Rightarrow> tDllkCalInstance \<Rightarrow>
     (tOplkError \<times> tDllkCalInstance) option" where
  "dllkcal_issueRequest env service nodeId soaFlag1 s =
     (let (ret, s) = (if soaFlag1 \<noteq> 0xFF then cal_call env (CalSetFlag1 nodeId soaFlag1) s else (kErrorOk, s))
      in if ret \<noteq> kErrorOk then Some (ret, s)
      else
        (case service of
           kDllReqServiceIdent \<Rightarrow> do {
             q \<leftarrow> pQueueIdentReq s;
             (err, q) \<leftarrow> circbuf_writeData q (Some (u32_bytes nodeId));
             Some (if err \<noteq> kCircBufOk then kErrorDllAsyncTxBufferFull else ret, s\<lparr>pQueueIdentReq := Some q\<rparr>)
           }
         | kDllReqServiceStatus \<Rightarrow> do {
             q \<leftarrow> pQueueStatusReq s;
             (err, q) \<leftarrow> circbuf_writeData q (Some (u32_bytes nodeId));
             Some (if err \<noteq> kCircBufOk then kErrorDllAsyncTxBufferFull else ret, s\<lparr>pQueueStatusReq := Some q\<rparr>)
           }
         | _ \<Rightarrow> Some (kErrorDllInvalidParam, s)))"

text \<open>The queue and the counters of a priority are reached through pointers, and stored with \<open>setRequests\<close>.\<close>

definition setRequests :: "bool \<Rightarrow> tCircBufInstance option \<Rightarrow> nat list \<Rightarrow> tDllkCalInstance \<Rightarrow> tDllkCalInstance" where
  "setRequests nmt q cnts s =
     (if nmt then s\<lparr>pQueueCnRequestNmt := q, aCnRequestCntNmt := cnts\<rparr>
      else s\<lparr>pQueueCnRequestGen := q, aCnRequestCntGen := cnts\<rparr>)"

definition dllkcal_setAsyncPendingRequests ::
  "nat \<Rightarrow> tDllAsyncReqPriority \<Rightarrow> nat \<Rightarrow> tDllkCalInstance \<Rightarrow> (tOplkError \<times> tDllkCalInstance) option" where
  "dllkcal_setAsyncPendingRequests nodeId asyncReqPrio count_p s =
     (if nodeId = 0 \<or> 254 < nodeId then None
      else
        let nmt = (asyncReqPrio = kDllAsyncReqPrioNmt);
            requestCnts = (if nmt then aCnRequestCntNmt s else aCnRequestCntGen s);
            targetQueue = (if nmt then pQueueCnRequestNmt s else pQueueCnRequestGen s);
            localRequestCnt = requestCnts ! (nodeId - 1)
        in if localRequestCnt < count_p then do {
             q \<leftarrow> targetQueue;
             (err, q) \<leftarrow> circbuf_writeData q (Some (u32_bytes nodeId));
             Some (kErrorOk, setRequests nmt (Some q)
               (if err = kCircBufOk then requestCnts[nodeId - 1 := localRequestCnt + 1] else requestCnts) s)
           }
           else Some (kErrorOk, setRequests nmt targetQueue (requestCnts[nodeId - 1 := count_p]) s))"

section \<open>The request of the next SoA\<close>

text \<open>
  \<open>readNodeId\<close> reads an entry of a queue into a local variable (whose bytes are 0 before). The
  functions take and return the request and its node, with whether they found one.
\<close>

definition readNodeId :: "tCircBufInstance \<Rightarrow> (tCircBufError \<times> nat \<times> tCircBufInstance) option" where
  "readNodeId q = do {
     (err, q, dst, _) \<leftarrow> circbuf_readData q (Some (replicate 4 0));
     bs \<leftarrow> dst;
     Some (err, bytes_u32 bs, q)
   }"

definition getCnGenRequest ::
  "tDllReqServiceId \<times> nat \<Rightarrow> tDllkCalInstance \<Rightarrow> (bool \<times> (tDllReqServiceId \<times> nat) \<times> tDllkCalInstance) option" where
  "getCnGenRequest r s = do {
     q \<leftarrow> pQueueCnRequestGen s;
     (err, rxNodeId, q) \<leftarrow> readNodeId q;
     (let s = s\<lparr>nextRequestQueue := 1, pQueueCnRequestGen := Some q\<rparr>
      in if err \<noteq> kCircBufOk then Some (False, r, s)
      else if rxNodeId = 0 \<or> 254 < rxNodeId then None
      else if 0 < aCnRequestCntGen s ! (rxNodeId - 1) then
        Some (True, (kDllReqServiceUnspecified, rxNodeId),
          s\<lparr>aCnRequestCntGen := (aCnRequestCntGen s)[rxNodeId - 1 := aCnRequestCntGen s ! (rxNodeId - 1) - 1]\<rparr>)
      else Some (False, r, s))
   }"

definition getCnNmtRequest ::
  "tDllReqServiceId \<times> nat \<Rightarrow> tDllkCalInstance \<Rightarrow> (bool \<times> (tDllReqServiceId \<times> nat) \<times> tDllkCalInstance) option" where
  "getCnNmtRequest r s = do {
     q \<leftarrow> pQueueCnRequestNmt s;
     (err, rxNodeId, q) \<leftarrow> readNodeId q;
     (let s = s\<lparr>nextRequestQueue := 2, pQueueCnRequestNmt := Some q\<rparr>
      in if err \<noteq> kCircBufOk then Some (False, r, s)
      else if rxNodeId = 0 \<or> 254 < rxNodeId then None
      else if 0 < aCnRequestCntNmt s ! (rxNodeId - 1) then
        Some (True, (kDllReqServiceNmtRequest, rxNodeId),
          s\<lparr>aCnRequestCntNmt := (aCnRequestCntNmt s)[rxNodeId - 1 := aCnRequestCntNmt s ! (rxNodeId - 1) - 1]\<rparr>)
      else Some (False, r, s))
   }"

definition getMnGenNmtRequest ::
  "tDllReqServiceId \<times> nat \<Rightarrow> tDllkCalInstance \<Rightarrow> bool \<times> (tDllReqServiceId \<times> nat) \<times> tDllkCalInstance" where
  "getMnGenNmtRequest r s =
     (let s = s\<lparr>nextRequestQueue := 3\<rparr>
      in if fst r \<noteq> kDllReqServiceNo then (True, (fst r, C_ADR_INVALID), s) else (False, r, s))"

definition getMnIdentRequest ::
  "tDllReqServiceId \<times> nat \<Rightarrow> tDllkCalInstance \<Rightarrow> (bool \<times> (tDllReqServiceId \<times> nat) \<times> tDllkCalInstance) option" where
  "getMnIdentRequest r s = do {
     q \<leftarrow> pQueueIdentReq s;
     (err, rxNodeId, q) \<leftarrow> readNodeId q;
     (let s = s\<lparr>nextRequestQueue := 4, pQueueIdentReq := Some q\<rparr>
      in Some (if err = kCircBufOk then (True, (kDllReqServiceIdent, rxNodeId), s) else (False, r, s)))
   }"

definition getMnStatusRequest ::
  "tDllReqServiceId \<times> nat \<Rightarrow> tDllkCalInstance \<Rightarrow> (bool \<times> (tDllReqServiceId \<times> nat) \<times> tDllkCalInstance) option" where
  "getMnStatusRequest r s = do {
     q \<leftarrow> pQueueStatusReq s;
     (err, rxNodeId, q) \<leftarrow> readNodeId q;
     (let s = s\<lparr>nextRequestQueue := 5, pQueueStatusReq := Some q\<rparr>
      in Some (if err = kCircBufOk then (True, (kDllReqServiceStatus, rxNodeId), s) else (False, r, s)))
   }"


text \<open>
  The synchronisation request: \<open>putSyncRequest\<close> puts the received bytes, of which the first \<open>syncReqSize\<close>
  were stored, into the payload and makes the calls; on an error it leaves the request as it is.
\<close>

definition syncField :: "byte list \<Rightarrow> nat \<Rightarrow> u32" where
  "syncField m k = word_of_nat (bytes_u32 (take 4 (drop (4 * k) m)))"

definition putSyncRequest ::
  "dllkcal_env \<Rightarrow> nat \<Rightarrow> byte list \<Rightarrow> tDllReqServiceId \<times> nat \<Rightarrow> tSyncRequest \<Rightarrow> dllkcal_out list \<Rightarrow>
     (tDllReqServiceId \<times> nat) \<times> tSyncRequest \<times> dllkcal_out list" where
  "putSyncRequest env syncReqSize m r pl outs =
     (let nodeId = unat (syncField m 0);
          syncControl = syncField m 1;
          param = \<lparr>opNodeId = nodeId, opNodeType = kDllNodeOpTypeIsochronous\<rparr>;
          add = (4 < syncReqSize \<and> syncControl AND PLK_SYNC_PRES_MODE_SET \<noteq> 0);
          del = (4 < syncReqSize \<and> syncControl AND PLK_SYNC_PRES_MODE_RESET \<noteq> 0);
          mac = (syncControl AND PLK_SYNC_DEST_MAC_ADDRESS_VALID \<noteq> 0);
          pl = (if 4 < syncReqSize then pl\<lparr>syncControlLe := syncControl\<rparr> else pl);
          outs = (if add then outs @ [CalAddNode param] else outs)
      in if add \<and> cal_ret env outs \<noteq> kErrorOk then (r, pl, outs)
      else
        let outs = (if del then outs @ [CalDeleteNode param] else outs)
        in if del \<and> cal_ret env outs \<noteq> kErrorOk then (r, pl, outs)
        else
          let pl = (if 8 < syncReqSize then pl\<lparr>presTimeFirstLe := syncField m 2\<rparr> else pl);
              pl = (if 12 < syncReqSize then pl\<lparr>presFallBackTimeoutLe := syncField m 3\<rparr> else pl);
              outs = (if mac then outs @ [CalGetMac nodeId] else outs)
          in if mac \<and> cal_ret env outs \<noteq> kErrorOk then (r, pl, outs)
          else ((kDllReqServiceSync, nodeId),
                if mac then pl\<lparr>aDestMacAddress := cal_mac env nodeId\<rparr> else pl, outs))"

definition getMnSyncRequest ::
  "dllkcal_env \<Rightarrow> tDllReqServiceId \<times> nat \<Rightarrow> tSyncRequest \<Rightarrow> tDllkCalInstance \<Rightarrow>
     (bool \<times> (tDllReqServiceId \<times> nat) \<times> tSyncRequest \<times> tDllkCalInstance) option" where
  "getMnSyncRequest env r pl s =
     (let s = s\<lparr>nextRequestQueue := 0\<rparr>
      in case circ_getDataBlockCount (dllCalQueueTxSync s) of
           (_, None) \<Rightarrow> Some (True, r, pl, s)
         | (_, Some syncReqCount) \<Rightarrow>
             if 0 < syncReqCount then do {
               (ret, q, m, syncReqSize) \<leftarrow> circ_getDataBlock (dllCalQueueTxSync s) (cal_stack env);
               (let s = s\<lparr>dllCalQueueTxSync := q\<rparr>
                in if ret \<noteq> kErrorOk then Some (True, r, pl, s)
                else
                  let (r, pl, outs) = putSyncRequest env syncReqSize m r pl (cal_outs s)
                  in Some (True, r, pl, s\<lparr>cal_outs := outs\<rparr>))
             }
             else Some (False, r, pl, s))"

text \<open>One turn of the loop over the queues, and the loop.\<close>

definition tryRequestQueue ::
  "dllkcal_env \<Rightarrow> tDllReqServiceId \<times> nat \<Rightarrow> tSyncRequest \<Rightarrow> tDllkCalInstance \<Rightarrow>
     (bool \<times> (tDllReqServiceId \<times> nat) \<times> tSyncRequest \<times> tDllkCalInstance) option" where
  "tryRequestQueue env r pl s =
     (if nextRequestQueue s = 0 then map_option (\<lambda>(found, r, s). (found, r, pl, s)) (getCnGenRequest r s)
      else if nextRequestQueue s = 1 then map_option (\<lambda>(found, r, s). (found, r, pl, s)) (getCnNmtRequest r s)
      else if nextRequestQueue s = 2 then (case getMnGenNmtRequest r s of (found, r, s) \<Rightarrow> Some (found, r, pl, s))
      else if nextRequestQueue s = 3 then map_option (\<lambda>(found, r, s). (found, r, pl, s)) (getMnIdentRequest r s)
      else if nextRequestQueue s = 4 then map_option (\<lambda>(found, r, s). (found, r, pl, s)) (getMnStatusRequest r s)
      else if nextRequestQueue s = 5 then getMnSyncRequest env r pl s
      else Some (False, r, pl, s))"

fun soaRequestLoop ::
  "nat \<Rightarrow> dllkcal_env \<Rightarrow> tDllReqServiceId \<times> nat \<Rightarrow> tSyncRequest \<Rightarrow> tDllkCalInstance \<Rightarrow>
     ((tDllReqServiceId \<times> nat) \<times> tSyncRequest \<times> tDllkCalInstance) option" where
  "soaRequestLoop 0 env r pl s = Some (r, pl, s)"
| "soaRequestLoop (Suc count) env r pl s =
     (case tryRequestQueue env r pl s of
        None \<Rightarrow> None
      | Some (found, r, pl, s) \<Rightarrow> if found then Some (r, pl, s) else soaRequestLoop count env r pl s)"

definition dllkcal_getSoaRequest ::
  "dllkcal_env \<Rightarrow> tDllReqServiceId \<Rightarrow> nat \<Rightarrow> tSyncRequest \<Rightarrow> tDllkCalInstance \<Rightarrow>
     (tOplkError \<times> tDllReqServiceId \<times> nat \<times> tSyncRequest \<times> tDllkCalInstance) option" where
  "dllkcal_getSoaRequest env reqServiceId nodeId payload s =
     map_option (\<lambda>((reqServiceId, nodeId), payload, s). (kErrorOk, reqServiceId, nodeId, payload, s))
       (soaRequestLoop DLLKCAL_MAX_QUEUES env (reqServiceId, nodeId) payload s)"

section \<open>Events\<close>

text \<open>An event argument of another kind than the type announces would be read as something else.\<close>

definition dllkcal_process ::
  "bool \<Rightarrow> bool \<Rightarrow> dllkcal_env \<Rightarrow> tEvent \<Rightarrow> tDllkCalInstance \<Rightarrow> (tOplkError \<times> tDllkCalInstance) option" where
  "dllkcal_process mn deferred env event s =
     (case eventType event of
        kEventTypeDllkServFilter \<Rightarrow>
          (case pEventArg event of ArgServFilter i f \<Rightarrow> Some (cal_call env (CalSetServFilter i f) s) | _ \<Rightarrow> None)
      | kEventTypeDllkIssueReq \<Rightarrow>
          if mn then
            (case pEventArg event of ArgIssueReq svc n flag \<Rightarrow> dllkcal_issueRequest env svc n flag s | _ \<Rightarrow> None)
          else Some (kErrorInvalidEvent, s)
      | kEventTypeDllkConfigNode \<Rightarrow>
          (case pEventArg event of ArgNodeInfo i \<Rightarrow> Some (cal_call env (CalConfigNode i) s) | _ \<Rightarrow> None)
      | kEventTypeDllkAddNode \<Rightarrow>
          (case pEventArg event of ArgNodeOp p \<Rightarrow> Some (cal_call env (CalAddNode p) s) | _ \<Rightarrow> None)
      | kEventTypeDllkDelNode \<Rightarrow>
          (case pEventArg event of ArgNodeOp p \<Rightarrow> Some (cal_call env (CalDeleteNode p) s) | _ \<Rightarrow> None)
      | kEventTypeDllkIdentity \<Rightarrow>
          (case pEventArg event of
             ArgParam n bs \<Rightarrow> Some (cal_call env (CalSetIdentity (min n (4 + length bs)) bs) s) | _ \<Rightarrow> None)
      | kEventTypeDllkConfig \<Rightarrow>
          (case pEventArg event of
             ArgParam n bs \<Rightarrow> Some (cal_call env (CalConfig (min n (4 + length bs)) bs) s) | _ \<Rightarrow> None)
      | kEventTypeReleaseRxFrame \<Rightarrow>
          if deferred then
            (case pEventArg event of ArgFrame fr \<Rightarrow> Some (cal_call env (CalReleaseRx fr) s) | _ \<Rightarrow> None)
          else Some (kErrorInvalidEvent, s)
      | _ \<Rightarrow> Some (kErrorInvalidEvent, s))"

section \<open>The scheduler as lists of nodes\<close>

text \<open>
  The specification of the scheduler: queues 0 and 1 hold the nodes with generic and NMT requests,
  3 and 4 those to identify and to ask for their status, the synchronisation requests are blocks.
  Queue 2 is the managing node itself. \<open>sch_cap\<close> are the capacities.
\<close>

record soa_sched =
  sch_nodes :: "nat \<Rightarrow> nat list"
  sch_cnt :: "nat \<Rightarrow> nat \<Rightarrow> nat"
  sch_sync :: "byte list list"
  sch_next :: nat
  sch_outs :: "dllkcal_out list"

definition sch_cap :: "nat \<Rightarrow> nat" where
  "sch_cap k = (if k < 2 then 256 else 32)"

definition sch_service :: "nat \<Rightarrow> tDllReqServiceId" where
  "sch_service k = (if k = 0 then kDllReqServiceUnspecified else if k = 1 then kDllReqServiceNmtRequest
     else if k = 3 then kDllReqServiceIdent else kDllReqServiceStatus)"

definition sch_set :: "nat \<Rightarrow> nat list \<Rightarrow> soa_sched \<Rightarrow> soa_sched" where
  "sch_set k ns a = a\<lparr>sch_nodes := (sch_nodes a)(k := ns)\<rparr>"

definition sch_count :: "nat \<Rightarrow> nat \<Rightarrow> nat \<Rightarrow> soa_sched \<Rightarrow> soa_sched" where
  "sch_count k n c a = a\<lparr>sch_cnt := (sch_cnt a)(k := (sch_cnt a k)(n := c))\<rparr>"

definition prio_queue :: "tDllAsyncReqPriority \<Rightarrow> nat" where
  "prio_queue p = (if p = kDllAsyncReqPrioNmt then 1 else 0)"

definition spec_report :: "nat \<Rightarrow> tDllAsyncReqPriority \<Rightarrow> nat \<Rightarrow> soa_sched \<Rightarrow> soa_sched" where
  "spec_report n p c a =
     (let k = prio_queue p; ns = sch_nodes a k
      in if sch_cnt a k n < c then
           (if length ns < sch_cap k then sch_count k n (sch_cnt a k n + 1) (sch_set k (ns @ [n]) a) else a)
         else sch_count k n c a)"

definition spec_issue ::
  "dllkcal_env \<Rightarrow> tDllReqServiceId \<Rightarrow> nat \<Rightarrow> byte \<Rightarrow> soa_sched \<Rightarrow> tOplkError \<times> soa_sched" where
  "spec_issue env service n flag a =
     (let outs = sch_outs a @ [CalSetFlag1 n flag];
          a = (if flag \<noteq> 0xFF then a\<lparr>sch_outs := outs\<rparr> else a);
          k = (if service = kDllReqServiceIdent then 3 else 4)
      in if flag \<noteq> 0xFF \<and> cal_ret env outs \<noteq> kErrorOk then (cal_ret env outs, a)
      else if service \<noteq> kDllReqServiceIdent \<and> service \<noteq> kDllReqServiceStatus then (kErrorDllInvalidParam, a)
      else if length (sch_nodes a k) < sch_cap k then (kErrorOk, sch_set k (sch_nodes a k @ [n]) a)
      else (kErrorDllAsyncTxBufferFull, a))"

definition spec_sync :: "byte list \<Rightarrow> soa_sched \<Rightarrow> tOplkError \<times> soa_sched" where
  "spec_sync b a =
     (if used (sch_sync a) + frame_len b \<le> 8192 then (kErrorOk, a\<lparr>sch_sync := sch_sync a @ [b]\<rparr>)
      else (kErrorNoResource, a))"

text \<open>Clearing: the queues are empty, the counters keep their values.\<close>

definition spec_clear :: "soa_sched \<Rightarrow> soa_sched" where
  "spec_clear a = a\<lparr>sch_nodes := (sch_nodes a)(0 := [], 1 := [], 3 := [], 4 := []), sch_sync := [], sch_next := 0\<rparr>"

definition spec_try ::
  "dllkcal_env \<Rightarrow> tDllReqServiceId \<times> nat \<Rightarrow> tSyncRequest \<Rightarrow> soa_sched \<Rightarrow>
     bool \<times> (tDllReqServiceId \<times> nat) \<times> tSyncRequest \<times> soa_sched" where
  "spec_try env r pl a =
     (let k = sch_next a; a = a\<lparr>sch_next := (k + 1) mod 6\<rparr>
      in if k = 2 then
           (if fst r \<noteq> kDllReqServiceNo then (True, (fst r, C_ADR_INVALID), pl, a) else (False, r, pl, a))
         else if k = 5 then
           (case sch_sync a of
              [] \<Rightarrow> (False, r, pl, a)
            | b # bs \<Rightarrow>
                let (r, pl, outs) = putSyncRequest env (length b) (b @ drop (length b) (cal_stack env)) r pl (sch_outs a)
                in (True, r, pl, a\<lparr>sch_sync := bs, sch_outs := outs\<rparr>))
         else
           (case sch_nodes a k of
              [] \<Rightarrow> (False, r, pl, a)
            | n # ns \<Rightarrow>
                let a = sch_set k ns a
                in if 2 < k then (True, (sch_service k, n), pl, a)
                   else if 0 < sch_cnt a k n then
                     (True, (sch_service k, n), pl, sch_count k n (sch_cnt a k n - 1) a)
                   else (False, r, pl, a)))"

fun spec_loop ::
  "nat \<Rightarrow> dllkcal_env \<Rightarrow> tDllReqServiceId \<times> nat \<Rightarrow> tSyncRequest \<Rightarrow> soa_sched \<Rightarrow>
     (tDllReqServiceId \<times> nat) \<times> tSyncRequest \<times> soa_sched" where
  "spec_loop 0 env r pl a = (r, pl, a)"
| "spec_loop (Suc count) env r pl a =
     (case spec_try env r pl a of
        (found, r, pl, a) \<Rightarrow> if found then (r, pl, a) else spec_loop count env r pl a)"


section \<open>The queues of node IDs\<close>

definition node_queue :: "nat \<Rightarrow> tCircBufInstance option \<Rightarrow> nat list \<Rightarrow> bool" where
  "node_queue cap q ns \<longleftrightarrow> (\<exists>cb. q = Some cb \<and> holds cb (map u32_bytes ns) \<and> bufferSize cb = 8 * cap \<and>
     (\<forall>n\<in>set ns. n < 2 ^ 32))"

lemma frame_len_u32 [simp]: "frame_len (u32_bytes n) = 8"
  using frame_len_bounds [of "u32_bytes n"] by (simp add: frame_len_def align_block_def)

lemma used_u32 [simp]: "used (map u32_bytes ns) = 8 * length ns"
  by (induction ns) simp_all

lemma u32_bytes_not_Nil [simp]: "u32_bytes n \<noteq> []"
  by (simp add: u32_bytes_def)

lemma node_queueE:
  assumes "node_queue cap q ns"
  obtains cb where "q = Some cb" and "holds cb (map u32_bytes ns)" and "bufferSize cb = 8 * cap"
    and "freeSize cb = 8 * cap - 8 * length ns" and "length ns \<le> cap" and "\<forall>n\<in>set ns. n < 2 ^ 32"
  using assms by (force simp: node_queue_def holds_def)

text \<open>Writing and reading an entry.\<close>

lemma node_write:
  assumes "node_queue cap q ns" and "n < 2 ^ 32"
  obtains cb cb' where "q = Some cb"
    and "circbuf_writeData cb (Some (u32_bytes n)) =
      Some (if length ns < cap then kCircBufOk else kCircBufOutOfMem, cb')"
    and "node_queue cap (Some cb') (if length ns < cap then ns @ [n] else ns)"
proof -
  obtain cb where cb: "q = Some cb" "holds cb (map u32_bytes ns)" "bufferSize cb = 8 * cap"
    "freeSize cb = 8 * cap - 8 * length ns" "length ns \<le> cap" "\<forall>n\<in>set ns. n < 2 ^ 32"
    using assms(1) by (rule node_queueE)
  have x: "u32_bytes n \<noteq> []" "length (u32_bytes n) \<le> 2 ^ 31" by simp_all
  show thesis
  proof (cases "length ns < cap")
    case True
    then have "frame_len (u32_bytes n) \<le> freeSize cb" using cb(4) by simp
    from writeData_holds(1) [OF cb(2) x this] obtain cb' where
      w: "circbuf_writeData cb (Some (u32_bytes n)) = Some (kCircBufOk, cb')"
        "holds cb' (map u32_bytes ns @ [u32_bytes n])" by (elim exE conjE)
    moreover have "bufferSize cb' = bufferSize cb" using write_simulates [OF cb(2) x(2)] w(1) by auto
    ultimately have "node_queue cap (Some cb') (ns @ [n])" using cb assms(2) by (auto simp: node_queue_def)
    with that [OF cb(1), of cb'] w(1) True show thesis by simp
  next
    case False
    then have "freeSize cb < frame_len (u32_bytes n)" using cb(4,5) by simp
    moreover have "cb_inv cb" using cb(2) by (simp add: holds_def)
    ultimately have "circbuf_writeData cb (Some (u32_bytes n)) = Some (kCircBufOutOfMem, cb)"
      by (intro writeData_full x)
    with that [OF cb(1), of cb] False assms(1) cb(1) show thesis by simp
  qed
qed

lemma node_read_empty:
  assumes "node_queue cap q []"
  obtains cb where "q = Some cb" and "readNodeId cb = Some (kCircBufNoReadableData, 0, cb)"
proof -
  obtain cb where cb: "q = Some cb" "holds cb []" using assms by (auto elim: node_queueE)
  with readData_empty [OF cb(2), of "replicate 4 0"] show thesis
    by (intro that [OF cb(1)]) (simp add: readNodeId_def bytes_u32_def)
qed

lemma node_read:
  assumes "node_queue cap q (n # ns)"
  obtains cb cb' where "q = Some cb" and "readNodeId cb = Some (kCircBufOk, n, cb')"
    and "node_queue cap (Some cb') ns"
proof -
  obtain cb where cb: "q = Some cb" "holds cb (u32_bytes n # map u32_bytes ns)" "bufferSize cb = 8 * cap"
    "\<forall>m\<in>set (n # ns). m < 2 ^ 32" using assms by (auto elim: node_queueE)
  have r: "circbuf_readData cb (Some (replicate 4 0)) =
      Some (kCircBufOk, after_read (u32_bytes n) cb, Some (u32_bytes n), Some 4)"
    using readData_ok [OF cb(2), of "replicate 4 0"] by simp
  have "node_queue cap (Some (after_read (u32_bytes n) cb)) ns"
    using after_read_holds [OF cb(2)] cb(3,4) by (simp add: node_queue_def after_read_def)
  moreover have "readNodeId cb = Some (kCircBufOk, n, after_read (u32_bytes n) cb)"
    using r cb(4) by (simp add: readNodeId_def)
  ultimately show thesis using that [OF cb(1)] by blast
qed

section \<open>The code implements the scheduler\<close>

definition counts :: "nat list \<Rightarrow> (nat \<Rightarrow> nat) \<Rightarrow> bool" where
  "counts cs f \<longleftrightarrow> length cs = 254 \<and> (\<forall>n. 0 < n \<and> n \<le> 254 \<longrightarrow> cs ! (n - 1) = f n)"

definition is_cn :: "nat \<Rightarrow> bool" where
  "is_cn n \<longleftrightarrow> 0 < n \<and> n \<le> 254"

definition sched_of :: "tDllkCalInstance \<Rightarrow> soa_sched \<Rightarrow> bool" where
  "sched_of s a \<longleftrightarrow>
     node_queue 256 (pQueueCnRequestGen s) (sch_nodes a 0) \<and> counts (aCnRequestCntGen s) (sch_cnt a 0) \<and>
     node_queue 256 (pQueueCnRequestNmt s) (sch_nodes a 1) \<and> counts (aCnRequestCntNmt s) (sch_cnt a 1) \<and>
     node_queue 32 (pQueueIdentReq s) (sch_nodes a 3) \<and> node_queue 32 (pQueueStatusReq s) (sch_nodes a 4) \<and>
     (\<forall>n\<in>set (sch_nodes a 0) \<union> set (sch_nodes a 1). is_cn n) \<and>
     circ_queue (dllCalQueueTxSync s) (sch_sync a) \<and> (\<forall>b\<in>set (sch_sync a). length b \<le> 16) \<and>
     bufferSize (pCircBufInstance (the (dllCalQueueTxSync s))) = 8192 \<and>
     nextRequestQueue s = sch_next a \<and> sch_next a < 6 \<and> cal_outs s = sch_outs a"

lemma counts_upd: "counts cs f \<Longrightarrow> is_cn n \<Longrightarrow> counts (cs[n - 1 := c]) (f(n := c))"
  by (auto simp: counts_def is_cn_def nth_list_update)

lemma counts_nth: "counts cs f \<Longrightarrow> is_cn n \<Longrightarrow> cs ! (n - Suc 0) = f n"
  by (simp add: counts_def is_cn_def)

lemma sched_simps [simp]:
  "sch_nodes (sch_set k ns a) = (sch_nodes a)(k := ns)" "sch_cnt (sch_set k ns a) = sch_cnt a"
  "sch_sync (sch_set k ns a) = sch_sync a" "sch_next (sch_set k ns a) = sch_next a"
  "sch_outs (sch_set k ns a) = sch_outs a"
  "sch_nodes (sch_count k n c a) = sch_nodes a" "sch_cnt (sch_count k n c a) = (sch_cnt a)(k := (sch_cnt a k)(n := c))"
  "sch_sync (sch_count k n c a) = sch_sync a" "sch_next (sch_count k n c a) = sch_next a"
  "sch_outs (sch_count k n c a) = sch_outs a"
  by (simp_all add: sch_set_def sch_count_def)

lemma is_cnD: "is_cn n \<Longrightarrow> n < 2 ^ 32" "is_cn n \<Longrightarrow> n \<noteq> 0" "is_cn n \<Longrightarrow> \<not> 254 < n"
  by (simp_all add: is_cn_def)

text \<open>What a change of one queue and its counters does to the correspondence.\<close>

lemma sched_gen:
  assumes "sched_of s a" and "node_queue 256 q ns" and "counts cs f" and "\<forall>n\<in>set ns. is_cn n"
  shows "sched_of (s\<lparr>pQueueCnRequestGen := q, aCnRequestCntGen := cs\<rparr>)
     (a\<lparr>sch_nodes := (sch_nodes a)(0 := ns), sch_cnt := (sch_cnt a)(0 := f)\<rparr>)"
  using assms by (simp add: sched_of_def ball_Un)

lemma sched_nmt:
  assumes "sched_of s a" and "node_queue 256 q ns" and "counts cs f" and "\<forall>n\<in>set ns. is_cn n"
  shows "sched_of (s\<lparr>pQueueCnRequestNmt := q, aCnRequestCntNmt := cs\<rparr>)
     (a\<lparr>sch_nodes := (sch_nodes a)(1 := ns), sch_cnt := (sch_cnt a)(1 := f)\<rparr>)"
  using assms by (simp add: sched_of_def ball_Un)

lemma sched_next:
  "sched_of s a \<Longrightarrow> k < 6 \<Longrightarrow> sched_of (s\<lparr>nextRequestQueue := k\<rparr>) (a\<lparr>sch_next := k\<rparr>)"
  by (simp add: sched_of_def)

lemma sched_ofD:
  assumes "sched_of s a"
  shows "node_queue 256 (pQueueCnRequestGen s) (sch_nodes a 0)" "counts (aCnRequestCntGen s) (sch_cnt a 0)"
    "node_queue 256 (pQueueCnRequestNmt s) (sch_nodes a 1)" "counts (aCnRequestCntNmt s) (sch_cnt a 1)"
    "node_queue 32 (pQueueIdentReq s) (sch_nodes a 3)" "node_queue 32 (pQueueStatusReq s) (sch_nodes a 4)"
    "\<forall>n\<in>set (sch_nodes a 0). is_cn n" "\<forall>n\<in>set (sch_nodes a 1). is_cn n"
    "nextRequestQueue s = sch_next a" "sch_next a < 6" "cal_outs s = sch_outs a"
  using assms by (simp_all add: sched_of_def)

lemma spec_report_eq:
  "spec_report n p c a =
     (let k = prio_queue p; ns = sch_nodes a k; f = sch_cnt a k; room = length ns < sch_cap k
      in a\<lparr>sch_nodes := (sch_nodes a)(k := if f n < c \<and> room then ns @ [n] else ns),
           sch_cnt := (sch_cnt a)(k := if f n < c then (if room then f(n := f n + 1) else f) else f(n := c))\<rparr>)"
  by (simp add: spec_report_def Let_def sch_set_def sch_count_def fun_upd_idem)

lemma report_sim:
  assumes "sched_of s a" and "is_cn n"
  shows "\<exists>s'. dllkcal_setAsyncPendingRequests n p c s = Some (kErrorOk, s') \<and> sched_of s' (spec_report n p c a)"
proof -
  define nmt where "nmt \<longleftrightarrow> p = kDllAsyncReqPrioNmt"
  define cs where "cs = (if nmt then aCnRequestCntNmt s else aCnRequestCntGen s)"
  define q where "q = (if nmt then pQueueCnRequestNmt s else pQueueCnRequestGen s)"
  define store where "store q' cs' = setRequests nmt q' cs' s" for q' cs'
  define k where "k = prio_queue p"
  let ?ns = "sch_nodes a k" and ?f = "sch_cnt a k"
  have d: "node_queue 256 q ?ns" "counts cs ?f" "\<forall>n\<in>set ?ns. is_cn n"
    using sched_ofD [OF assms(1)] by (simp_all add: q_def cs_def k_def nmt_def prio_queue_def)
  have st: "sched_of (store q' cs') (a\<lparr>sch_nodes := (sch_nodes a)(k := ns), sch_cnt := (sch_cnt a)(k := f)\<rparr>)"
    if "node_queue 256 q' ns" "counts cs' f" "\<forall>n\<in>set ns. is_cn n" for q' cs' ns f
    using sched_gen [OF assms(1) that] sched_nmt [OF assms(1) that]
    by (simp add: store_def setRequests_def k_def nmt_def prio_queue_def)
  have cap: "sch_cap k = 256" by (simp add: k_def prio_queue_def sch_cap_def)
  have e: "cs ! (n - 1) = ?f n" using counts_nth [OF d(2) assms(2)] by simp
  have eq: "dllkcal_setAsyncPendingRequests n p c s =
     (if ?f n < c then do {
        q \<leftarrow> q;
        (err, q) \<leftarrow> circbuf_writeData q (Some (u32_bytes n));
        Some (kErrorOk, store (Some q) (if err = kCircBufOk then cs[n - 1 := ?f n + 1] else cs))
      }
      else Some (kErrorOk, store q (cs[n - 1 := c])))"
    unfolding dllkcal_setAsyncPendingRequests_def Let_def nmt_def [symmetric] cs_def [symmetric] q_def [symmetric]
      store_def [symmetric] e
    using is_cnD(2,3) [OF assms(2)] by simp
  note up = counts_upd [OF d(2) assms(2)]
  obtain cb cb' where w: "q = Some cb" "circbuf_writeData cb (Some (u32_bytes n)) =
      Some (if length ?ns < 256 then kCircBufOk else kCircBufOutOfMem, cb')"
    "node_queue 256 (Some cb') (if length ?ns < 256 then ?ns @ [n] else ?ns)"
    using node_write [OF d(1) is_cnD(1) [OF assms(2)]] .
  consider "\<not> ?f n < c" | "?f n < c" "length ?ns < 256" | "?f n < c" "\<not> length ?ns < 256" by blast
  then show ?thesis
  proof cases
    case 1
    then show ?thesis using st [OF d(1) up d(3), of c] cap eq
      by (simp add: spec_report_eq k_def [symmetric] Let_def)
  next
    case 2
    then have "\<forall>m\<in>set (?ns @ [n]). is_cn m" "node_queue 256 (Some cb') (?ns @ [n])" using d(3) assms(2) w(3) by simp_all
    from st [OF this(2) up this(1), of "?f n + 1"] show ?thesis using 2 w(1,2) cap eq
      by (simp add: spec_report_eq k_def [symmetric] Let_def)
  next
    case 3
    then have "node_queue 256 (Some cb') ?ns" using w(3) by simp
    from st [OF this d(2,3)] show ?thesis using 3 w(1,2) cap eq
      by (simp add: spec_report_eq k_def [symmetric] Let_def)
  qed
qed


definition try_sim :: "dllkcal_env \<Rightarrow> tDllReqServiceId \<times> nat \<Rightarrow> tSyncRequest \<Rightarrow> tDllkCalInstance \<Rightarrow> soa_sched \<Rightarrow> bool" where
  "try_sim env r pl s a \<longleftrightarrow>
     (case spec_try env r pl a of (f, r', pl', a') \<Rightarrow>
        \<exists>s'. tryRequestQueue env r pl s = Some (f, r', pl', s') \<and> sched_of s' a')"

lemma try_gen:
  assumes "sched_of s a" and "sch_next a = 0"
  shows "try_sim env r pl s a"
proof -
  note d = sched_ofD [OF assms(1)]
  have nx: "sched_of (s\<lparr>nextRequestQueue := 1\<rparr>) (a\<lparr>sch_next := 1\<rparr>)"
    using sched_next [OF assms(1), of 1] by simp
  show ?thesis
  proof (cases "sch_nodes a 0")
    case Nil
    then obtain cb where "pQueueCnRequestGen s = Some cb" "readNodeId cb = Some (kCircBufNoReadableData, 0, cb)"
      using d(1) node_read_empty by metis
    then show ?thesis using Nil assms(2) sched_gen [OF nx d(1,2,7)] d(9)
      by (simp add: try_sim_def spec_try_def tryRequestQueue_def getCnGenRequest_def fun_upd_idem)
  next
    case (Cons n ns)
    then obtain cb cb' where c: "pQueueCnRequestGen s = Some cb" "readNodeId cb = Some (kCircBufOk, n, cb')"
      "node_queue 256 (Some cb') ns" using d(1) node_read by metis
    have n: "is_cn n" "\<forall>m\<in>set ns. is_cn m" using d(7) Cons by simp_all
    note cnt = counts_nth [OF d(2) n(1)]
    show ?thesis
    proof (cases "0 < sch_cnt a 0 n")
      case True
      with sched_gen [OF nx c(3) counts_upd [OF d(2) n(1)] n(2), of "sch_cnt a 0 n - 1"] show ?thesis
        using Cons assms(2) c(1,2) d(9) cnt is_cnD(2,3) [OF n(1)]
        by (simp add: try_sim_def spec_try_def tryRequestQueue_def getCnGenRequest_def Let_def sch_service_def
            sch_set_def sch_count_def)
    next
      case False
      with sched_gen [OF nx c(3) d(2) n(2)] show ?thesis
        using Cons assms(2) c(1,2) d(9) cnt is_cnD(2,3) [OF n(1)]
        by (simp add: try_sim_def spec_try_def tryRequestQueue_def getCnGenRequest_def Let_def sch_set_def)
    qed
  qed
qed

lemma try_nmt:
  assumes "sched_of s a" and "sch_next a = 1"
  shows "try_sim env r pl s a"
proof -
  note d = sched_ofD [OF assms(1)]
  have nx: "sched_of (s\<lparr>nextRequestQueue := 2\<rparr>) (a\<lparr>sch_next := 2\<rparr>)"
    using sched_next [OF assms(1), of 2] by simp
  show ?thesis
  proof (cases "sch_nodes a 1")
    case Nil
    then obtain cb where "pQueueCnRequestNmt s = Some cb" "readNodeId cb = Some (kCircBufNoReadableData, 0, cb)"
      using d(3) node_read_empty by metis
    then show ?thesis using Nil assms(2) sched_nmt [OF nx d(3,4,8)] d(9)
      by (simp add: try_sim_def spec_try_def tryRequestQueue_def getCnNmtRequest_def fun_upd_idem numeral_2_eq_2)
  next
    case (Cons n ns)
    then obtain cb cb' where c: "pQueueCnRequestNmt s = Some cb" "readNodeId cb = Some (kCircBufOk, n, cb')"
      "node_queue 256 (Some cb') ns" using d(3) node_read by metis
    have n: "is_cn n" "\<forall>m\<in>set ns. is_cn m" using d(8) Cons by simp_all
    note cnt = counts_nth [OF d(4) n(1)]
    show ?thesis
    proof (cases "0 < sch_cnt a 1 n")
      case True
      with sched_nmt [OF nx c(3) counts_upd [OF d(4) n(1)] n(2), of "sch_cnt a 1 n - 1"] show ?thesis
        using Cons assms(2) c(1,2) d(9) cnt is_cnD(2,3) [OF n(1)]
        by (simp add: try_sim_def spec_try_def tryRequestQueue_def getCnNmtRequest_def Let_def sch_service_def
            sch_set_def sch_count_def numeral_2_eq_2)
    next
      case False
      with sched_nmt [OF nx c(3) d(4) n(2)] show ?thesis
        using Cons assms(2) c(1,2) d(9) cnt is_cnD(2,3) [OF n(1)]
        by (simp add: try_sim_def spec_try_def tryRequestQueue_def getCnNmtRequest_def Let_def sch_set_def numeral_2_eq_2)
    qed
  qed
qed

lemma sched_ident:
  "sched_of s a \<Longrightarrow> node_queue 32 q ns \<Longrightarrow>
     sched_of (s\<lparr>pQueueIdentReq := q\<rparr>) (a\<lparr>sch_nodes := (sch_nodes a)(3 := ns)\<rparr>)"
  by (simp add: sched_of_def)

lemma sched_status:
  "sched_of s a \<Longrightarrow> node_queue 32 q ns \<Longrightarrow>
     sched_of (s\<lparr>pQueueStatusReq := q\<rparr>) (a\<lparr>sch_nodes := (sch_nodes a)(4 := ns)\<rparr>)"
  by (simp add: sched_of_def)

lemma try_ident:
  assumes "sched_of s a" and "sch_next a = 3"
  shows "try_sim env r pl s a"
proof -
  note d = sched_ofD [OF assms(1)]
  have nx: "sched_of (s\<lparr>nextRequestQueue := 4\<rparr>) (a\<lparr>sch_next := 4\<rparr>)"
    using sched_next [OF assms(1), of 4] by simp
  show ?thesis
  proof (cases "sch_nodes a 3")
    case Nil
    then obtain cb where "pQueueIdentReq s = Some cb" "readNodeId cb = Some (kCircBufNoReadableData, 0, cb)"
      using d(5) node_read_empty by metis
    then show ?thesis using Nil assms(2) sched_ident [OF nx d(5)] d(9)
      by (simp add: try_sim_def spec_try_def tryRequestQueue_def getMnIdentRequest_def fun_upd_idem)
  next
    case (Cons n ns)
    then obtain cb cb' where c: "pQueueIdentReq s = Some cb" "readNodeId cb = Some (kCircBufOk, n, cb')"
      "node_queue 32 (Some cb') ns" using d(5) node_read by metis
    with sched_ident [OF nx c(3)] show ?thesis using Cons assms(2) d(9)
      by (simp add: try_sim_def spec_try_def tryRequestQueue_def getMnIdentRequest_def sch_set_def sch_service_def)
  qed
qed

lemma try_status:
  assumes "sched_of s a" and "sch_next a = 4"
  shows "try_sim env r pl s a"
proof -
  note d = sched_ofD [OF assms(1)]
  have nx: "sched_of (s\<lparr>nextRequestQueue := 5\<rparr>) (a\<lparr>sch_next := 5\<rparr>)"
    using sched_next [OF assms(1), of 5] by simp
  show ?thesis
  proof (cases "sch_nodes a 4")
    case Nil
    then obtain cb where "pQueueStatusReq s = Some cb" "readNodeId cb = Some (kCircBufNoReadableData, 0, cb)"
      using d(6) node_read_empty by metis
    then show ?thesis using Nil assms(2) sched_status [OF nx d(6)] d(9)
      by (simp add: try_sim_def spec_try_def tryRequestQueue_def getMnStatusRequest_def fun_upd_idem)
  next
    case (Cons n ns)
    then obtain cb cb' where c: "pQueueStatusReq s = Some cb" "readNodeId cb = Some (kCircBufOk, n, cb')"
      "node_queue 32 (Some cb') ns" using d(6) node_read by metis
    with sched_status [OF nx c(3)] show ?thesis using Cons assms(2) d(9)
      by (simp add: try_sim_def spec_try_def tryRequestQueue_def getMnStatusRequest_def sch_set_def sch_service_def)
  qed
qed

lemma try_mn:
  assumes "sched_of s a" and "sch_next a = 2"
  shows "try_sim env r pl s a"
  using assms sched_next [OF assms(1), of 3] sched_ofD(9) [OF assms(1)]
  by (simp add: try_sim_def spec_try_def tryRequestQueue_def getMnGenNmtRequest_def Let_def)

lemma buffer_kept:
  assumes "circ_queue q (x # xs)" and "length x \<le> length dst"
    and "circ_getDataBlock q dst = Some (ret, q', d, n)"
  shows "bufferSize (pCircBufInstance (the q')) = bufferSize (pCircBufInstance (the q))"
proof -
  obtain i where i: "q = Some i" "holds (pCircBufInstance i) (x # xs)" using assms(1) by (rule circ_queueE)
  from readData_ok [OF i(2) assms(2)] assms(3) i(1) show ?thesis
    by (auto simp: circ_getDataBlock_def after_read_def)
qed

lemma try_sync:
  assumes "sched_of s a" and "sch_next a = 5" and "length (cal_stack env) = 16"
  shows "try_sim env r pl s a"
proof -
  note d = sched_ofD [OF assms(1)]
  have q: "circ_queue (dllCalQueueTxSync s) (sch_sync a)" using assms(1) by (simp add: sched_of_def)
  have nx: "sched_of (s\<lparr>nextRequestQueue := 0\<rparr>) (a\<lparr>sch_next := 0\<rparr>)"
    using sched_next [OF assms(1), of 0] by simp
  show ?thesis
  proof (cases "sch_sync a")
    case Nil
    then show ?thesis using circ.count_blocks [OF q] assms(2) d(9) nx
      by (simp add: try_sim_def spec_try_def tryRequestQueue_def getMnSyncRequest_def)
  next
    case (Cons b bs)
    then have len: "length b \<le> length (cal_stack env)" using assms by (simp add: sched_of_def)
    from circ.get_block [OF q [unfolded Cons] len] obtain q' where g:
      "circ_getDataBlock (dllCalQueueTxSync s) (cal_stack env) =
         Some (kErrorOk, q', b @ drop (length b) (cal_stack env), length b)" "circ_queue q' bs" by blast
    have "sched_of (s\<lparr>nextRequestQueue := 0, dllCalQueueTxSync := q', cal_outs := outs\<rparr>)
        (a\<lparr>sch_next := 0, sch_sync := bs, sch_outs := outs\<rparr>)" for outs
      using nx g(2) Cons buffer_kept [OF q [unfolded Cons] _ g(1)] len by (simp add: sched_of_def)
    then show ?thesis using Cons circ.count_blocks [OF q] assms(2) d(9,11) g(1)
      by (simp add: try_sim_def spec_try_def tryRequestQueue_def getMnSyncRequest_def split: prod.split)
  qed
qed

lemma try_simulates:
  assumes "sched_of s a" and "length (cal_stack env) = 16"
  shows "try_sim env r pl s a"
proof -
  have "sch_next a < 6" using assms(1) by (simp add: sched_of_def)
  then consider "sch_next a = 0" | "sch_next a = 1" | "sch_next a = 2" | "sch_next a = 3" | "sch_next a = 4"
    | "sch_next a = 5" by linarith
  then show ?thesis
    using try_gen [OF assms(1)] try_nmt [OF assms(1)] try_mn [OF assms(1)] try_ident [OF assms(1)]
      try_status [OF assms(1)] try_sync [OF assms(1) _ assms(2)] by cases auto
qed


lemma loop_simulates:
  assumes "sched_of s a" and "length (cal_stack env) = 16"
  shows "case spec_loop n env r pl a of (r', pl', a') \<Rightarrow>
     \<exists>s'. soaRequestLoop n env r pl s = Some (r', pl', s') \<and> sched_of s' a'"
  using assms(1)
proof (induction n arbitrary: r pl s a)
  case 0
  then show ?case by simp
next
  case (Suc n)
  obtain f r1 pl1 a1 where t: "spec_try env r pl a = (f, r1, pl1, a1)" by (cases "spec_try env r pl a")
  with try_simulates [OF Suc.prems assms(2), of r pl] obtain s1 where
    "tryRequestQueue env r pl s = Some (f, r1, pl1, s1)" "sched_of s1 a1" by (auto simp: try_sim_def)
  with t Suc.IH [of s1 a1 r1 pl1] show ?case by simp
qed

lemma issue_simulates:
  assumes "sched_of s a" and "n < 2 ^ 32"
  shows "case spec_issue env service n flag a of (ret, a') \<Rightarrow>
     \<exists>s'. dllkcal_issueRequest env service n flag s = Some (ret, s') \<and> sched_of s' a'"
proof -
  define s1 where "s1 = (if flag \<noteq> 0xFF then s\<lparr>cal_outs := cal_outs s @ [CalSetFlag1 n flag]\<rparr> else s)"
  define a1 where "a1 = (if flag \<noteq> 0xFF then a\<lparr>sch_outs := sch_outs a @ [CalSetFlag1 n flag]\<rparr> else a)"
  have s1: "sched_of s1 a1" using assms(1) by (simp add: s1_def a1_def sched_of_def)
  note d = sched_ofD [OF s1]
  have outs: "cal_outs s = sch_outs a" using assms(1) by (simp add: sched_of_def)
  show ?thesis
  proof (cases "flag \<noteq> 0xFF \<and> cal_ret env (sch_outs a @ [CalSetFlag1 n flag]) \<noteq> kErrorOk")
    case True
    then show ?thesis using s1 outs
      by (simp add: spec_issue_def dllkcal_issueRequest_def cal_call_def s1_def a1_def Let_def)
  next
    case False
    then have conc: "dllkcal_issueRequest env service n flag s = dllkcal_issueRequest env service n 0xFF s1"
      using outs [symmetric] by (cases service) (auto simp: dllkcal_issueRequest_def cal_call_def s1_def cong: if_cong)
    from False have abs: "spec_issue env service n flag a = spec_issue env service n 0xFF a1"
      by (cases service) (auto simp: spec_issue_def a1_def Let_def)
    consider (i) "service = kDllReqServiceIdent" | (t) "service = kDllReqServiceStatus"
      | (o) "service \<noteq> kDllReqServiceIdent" "service \<noteq> kDllReqServiceStatus" by blast
    then show ?thesis
    proof cases
      case i
      obtain cb cb' where "pQueueIdentReq s1 = Some cb"
        "circbuf_writeData cb (Some (u32_bytes n)) =
          Some (if length (sch_nodes a1 3) < 32 then kCircBufOk else kCircBufOutOfMem, cb')"
        "node_queue 32 (Some cb') (if length (sch_nodes a1 3) < 32 then sch_nodes a1 3 @ [n] else sch_nodes a1 3)"
        using node_write [OF d(5) assms(2)] .
      with i sched_ident [OF s1 this(3)] show ?thesis
        unfolding conc abs by (auto simp: spec_issue_def dllkcal_issueRequest_def sch_cap_def sch_set_def)
    next
      case t
      obtain cb cb' where "pQueueStatusReq s1 = Some cb"
        "circbuf_writeData cb (Some (u32_bytes n)) =
          Some (if length (sch_nodes a1 4) < 32 then kCircBufOk else kCircBufOutOfMem, cb')"
        "node_queue 32 (Some cb') (if length (sch_nodes a1 4) < 32 then sch_nodes a1 4 @ [n] else sch_nodes a1 4)"
        using node_write [OF d(6) assms(2)] .
      with t sched_status [OF s1 this(3)] show ?thesis
        unfolding conc abs by (auto simp: spec_issue_def dllkcal_issueRequest_def sch_cap_def sch_set_def)
    next
      case o
      then show ?thesis
        unfolding conc abs using s1
        by (cases service) (simp_all add: spec_issue_def dllkcal_issueRequest_def)
    qed
  qed
qed

lemma sync_simulates:
  assumes "sched_of s a" and "b \<noteq> []" and "length b \<le> 16"
  shows "case spec_sync b a of (ret, a') \<Rightarrow>
     \<exists>s'. dllkcal_writeAsyncFrame True b kDllCalQueueTxSync s = Some (ret, s') \<and> sched_of s' a'"
proof -
  have q: "circ_queue (dllCalQueueTxSync s) (sch_sync a)" using assms(1) by (simp add: sched_of_def)
  then obtain i where i: "dllCalQueueTxSync s = Some i" "holds (pCircBufInstance i) (sch_sync a)" by (rule circ_queueE)
  have size: "bufferSize (pCircBufInstance i) = 8192" using assms(1) i(1) by (simp add: sched_of_def)
  then have free: "freeSize (pCircBufInstance i) = 8192 - used (sch_sync a)" "used (sch_sync a) \<le> 8192"
    using i(2) by (simp_all add: holds_def)
  have b: "circ_block b" using assms(2,3) by (simp add: circ_block_def)
  show ?thesis
  proof (cases "used (sch_sync a) + frame_len b \<le> 8192")
    case True
    then have "frame_len b \<le> freeSize (pCircBufInstance (the (dllCalQueueTxSync s)))" using i(1) free by simp
    from circ_insert(1) [OF q b this] obtain q' where q': "circ_insertDataBlock (dllCalQueueTxSync s) b = Some (kErrorOk, q')"
      "circ_queue q' (sch_sync a @ [b])" by blast
    have "length b \<le> 2 ^ 31" using assms(3) by simp
    from write_simulates [OF i(2) this] q'(1) i(1) have "bufferSize (pCircBufInstance (the q')) = 8192"
      using size by (auto simp: circ_insertDataBlock_def)
    with q' True assms show ?thesis
      by (simp add: spec_sync_def dllkcal_writeAsyncFrame_def sched_of_def)
  next
    case False
    then have "freeSize (pCircBufInstance (the (dllCalQueueTxSync s))) < frame_len b" using i(1) free by simp
    from circ_insert(2) [OF q b this] False assms(1) show ?thesis
      by (simp add: spec_sync_def dllkcal_writeAsyncFrame_def)
  qed
qed

section \<open>Runs\<close>

text \<open>
  What happens between two SoA frames of the managing node: reports of the nodes on their pending
  frames, issued requests, synchronisation requests, the SoA itself with the managing node's own
  request, and the clearing of all queues at the start of the reduced cycle. Each returns what the
  caller sees.
\<close>

datatype cal_op =
    CalReport nat tDllAsyncReqPriority nat
  | CalIssue tDllReqServiceId nat byte
  | CalSync "byte list"
  | CalSoa tDllReqServiceId nat tSyncRequest
  | CalClear

datatype cal_res = ResRet tOplkError | ResSoa tDllReqServiceId nat tSyncRequest

fun cal_step :: "dllkcal_env \<Rightarrow> cal_op \<Rightarrow> tDllkCalInstance \<Rightarrow> (cal_res \<times> tDllkCalInstance) option" where
  "cal_step env (CalReport n p c) s =
     map_option (\<lambda>(ret, s). (ResRet ret, s)) (dllkcal_setAsyncPendingRequests n p c s)"
| "cal_step env (CalIssue svc n flag) s =
     map_option (\<lambda>(ret, s). (ResRet ret, s)) (dllkcal_issueRequest env svc n flag s)"
| "cal_step env (CalSync b) s =
     map_option (\<lambda>(ret, s). (ResRet ret, s)) (dllkcal_writeAsyncFrame True b kDllCalQueueTxSync s)"
| "cal_step env (CalSoa svc n pl) s =
     map_option (\<lambda>(ret, svc, n, pl, s). (ResSoa svc n pl, s)) (dllkcal_getSoaRequest env svc n pl s)"
| "cal_step env CalClear s = map_option (\<lambda>(ret, s). (ResRet ret, s)) (dllkcal_clearAsyncQueues s)"

fun sched_step :: "dllkcal_env \<Rightarrow> cal_op \<Rightarrow> soa_sched \<Rightarrow> cal_res \<times> soa_sched" where
  "sched_step env (CalReport n p c) a = (ResRet kErrorOk, spec_report n p c a)"
| "sched_step env (CalIssue svc n flag) a = (case spec_issue env svc n flag a of (ret, a) \<Rightarrow> (ResRet ret, a))"
| "sched_step env (CalSync b) a = (case spec_sync b a of (ret, a) \<Rightarrow> (ResRet ret, a))"
| "sched_step env (CalSoa svc n pl) a =
     (case spec_loop 6 env (svc, n) pl a of ((svc, n), pl, a) \<Rightarrow> (ResSoa svc n pl, a))"
| "sched_step env CalClear a = (ResRet kErrorOk, spec_clear a)"

text \<open>
  The types of the arguments: a node ID of a request is a 32-bit number, and a synchronisation
  request is at most the 16 bytes of a \<^verbatim>\<open>tDllSyncRequest\<close>. \<open>report_in_tables\<close>: the node that reports
  has an entry in the tables of counters, which the code does not check.
\<close>

fun cal_op_typed :: "cal_op \<Rightarrow> bool" where
  "cal_op_typed (CalIssue svc n flag) \<longleftrightarrow> n < 2 ^ 32"
| "cal_op_typed (CalSync b) \<longleftrightarrow> b \<noteq> [] \<and> length b \<le> 16"
| "cal_op_typed _ \<longleftrightarrow> True"

fun report_in_tables :: "cal_op \<Rightarrow> bool" where
  "report_in_tables (CalReport n p c) \<longleftrightarrow> is_cn n"
| "report_in_tables _ \<longleftrightarrow> True"

definition cal_op_ok :: "cal_op \<Rightarrow> bool" where
  "cal_op_ok opn \<longleftrightarrow> cal_op_typed opn \<and> report_in_tables opn"

lemma cal_op_ok_simps [simp]:
  "cal_op_ok (CalReport n p c) \<longleftrightarrow> is_cn n"
  "cal_op_ok (CalIssue svc n flag) \<longleftrightarrow> n < 2 ^ 32"
  "cal_op_ok (CalSync b) \<longleftrightarrow> b \<noteq> [] \<and> length b \<le> 16"
  "cal_op_ok (CalSoa svc n pl)" "cal_op_ok CalClear"
  by (simp_all add: cal_op_ok_def)

lemma node_queue_reset:
  "node_queue cap q ns \<Longrightarrow> \<exists>cb. q = Some cb \<and> node_queue cap (Some (circbuf_reset cb)) []"
  using circbuf_reset_holds by (fastforce simp: node_queue_def circbuf_reset_def)

lemma clear_simulates:
  assumes "sched_of s a"
  shows "\<exists>s'. dllkcal_clearAsyncQueues s = Some (kErrorOk, s') \<and> sched_of s' (spec_clear a)"
proof -
  note d = sched_ofD [OF assms]
  obtain gen nmt ident status where q: "pQueueCnRequestGen s = Some gen" "node_queue 256 (Some (circbuf_reset gen)) []"
    "pQueueCnRequestNmt s = Some nmt" "node_queue 256 (Some (circbuf_reset nmt)) []"
    "pQueueIdentReq s = Some ident" "node_queue 32 (Some (circbuf_reset ident)) []"
    "pQueueStatusReq s = Some status" "node_queue 32 (Some (circbuf_reset status)) []"
    using d(1,3,5,6) [THEN node_queue_reset] by blast
  have sync: "circ_queue (dllCalQueueTxSync s) (sch_sync a)" using assms by (simp add: sched_of_def)
  then obtain q' where r: "circ_resetDataBlockQueue (dllCalQueueTxSync s) = (kErrorOk, q')" "circ_queue q' []"
    using circ.reset_queue by blast
  have "bufferSize (pCircBufInstance (the q')) = bufferSize (pCircBufInstance (the (dllCalQueueTxSync s)))"
    using r(1) sync by (auto simp: circ_resetDataBlockQueue_def circbuf_reset_def split: option.splits elim: circ_queueE)
  then show ?thesis using assms q r
    by (simp add: dllkcal_clearAsyncQueues_def spec_clear_def sched_of_def)
qed

lemma step_simulates:
  assumes "sched_of s a" and "cal_op_ok opn" and "length (cal_stack env) = 16"
  shows "\<exists>s'. cal_step env opn s = Some (fst (sched_step env opn a), s') \<and> sched_of s' (snd (sched_step env opn a))"
proof (cases opn)
  case (CalReport n p c)
  then show ?thesis using report_sim [OF assms(1), of n p c] assms(2) by auto
next
  case (CalIssue svc n flag)
  then show ?thesis using issue_simulates [OF assms(1), of n env svc flag] assms(2) by (auto split: prod.splits)
next
  case (CalSync b)
  then show ?thesis using sync_simulates [OF assms(1), of b] assms(2) by (auto split: prod.splits)
next
  case (CalSoa svc n pl)
  then show ?thesis using loop_simulates [OF assms(1,3), of 6 "(svc, n)" pl]
    by (auto simp: dllkcal_getSoaRequest_def split: prod.splits)
next
  case CalClear
  then show ?thesis using clear_simulates [OF assms(1)] by auto
qed

lemma run_simulates:
  assumes "sched_of s a" and "list_all cal_op_ok ops" and "length (cal_stack env) = 16"
    and "run_out (\<lambda>opn a. Some (sched_step env opn a)) ops a = Some (rs, a')"
  shows "\<exists>s'. run_out (cal_step env) ops s = Some (rs, s') \<and> sched_of s' a'"
  using assms(1,2,4)
proof (induction ops arbitrary: s a rs)
  case Nil
  then show ?case by auto
next
  case (Cons opn ops)
  obtain s1 where s1: "cal_step env opn s = Some (fst (sched_step env opn a), s1)"
    "sched_of s1 (snd (sched_step env opn a))"
    using step_simulates [OF Cons.prems(1) _ assms(3), of opn] Cons.prems(2) by auto
  obtain rs' where "run_out (\<lambda>opn a. Some (sched_step env opn a)) ops (snd (sched_step env opn a)) = Some (rs', a')"
    "rs = fst (sched_step env opn a) # rs'" using Cons.prems(3) by (auto simp: split_beta split: option.splits)
  with Cons.IH [OF s1(2)] Cons.prems(2) s1(1) show ?case by auto
qed

lemma run_outside_tables:
  assumes "sched_of s a" and "list_all cal_op_typed ops" and "\<not> list_all report_in_tables ops"
    and "length (cal_stack env) = 16"
  shows "run_out (cal_step env) ops s = None"
  using assms(1-3)
proof (induction ops arbitrary: s a)
  case (Cons opn ops)
  show ?case
  proof (cases "report_in_tables opn")
    case True
    then have "cal_op_ok opn" using Cons.prems(2) by (simp add: cal_op_ok_def)
    from step_simulates [OF Cons.prems(1) this assms(4)] obtain s1 where
      "cal_step env opn s = Some (fst (sched_step env opn a), s1)" "sched_of s1 (snd (sched_step env opn a))" by blast
    with Cons.IH [OF this(2)] Cons.prems True show ?thesis by simp
  next
    case False
    then obtain n p c where "opn = CalReport n p c" "\<not> is_cn n" by (cases opn) auto
    then have "n = 0 \<or> 254 < n" by (auto simp: is_cn_def)
    then have "dllkcal_setAsyncPendingRequests n p c s = None" by (simp add: dllkcal_setAsyncPendingRequests_def)
    with \<open>opn = CalReport n p c\<close> show ?thesis by simp
  qed
qed simp

lemma sched_total: "\<exists>rs a'. run_out (\<lambda>opn a. Some (sched_step env opn a)) ops a = Some (rs, a') \<and> length rs = length ops"
proof (induction ops arbitrary: a)
  case Nil
  then show ?case by simp
next
  case (Cons opn ops)
  from Cons [of "snd (sched_step env opn a)"] show ?case by (auto simp: split_beta)
qed

text \<open>After the initialisation all queues are empty.\<close>

definition sched_init :: "dllkcal_out list \<Rightarrow> soa_sched" where
  "sched_init outs = \<lparr>sch_nodes = \<lambda>_. [], sch_cnt = \<lambda>_ _. 0, sch_sync = [], sch_next = 0, sch_outs = outs\<rparr>"

lemma node_queue_alloc:
  assumes "circbuf_alloc bufId (8 * cap) heap = (kCircBufOk, q)" and "cap \<le> 256"
    and "\<And>n mem. heap n = Some mem \<Longrightarrow> length mem = n"
  shows "node_queue cap q []"
proof -
  obtain cb where q: "q = Some cb" using assms(1) by (auto simp: circbuf_alloc_def Let_def split: if_splits option.splits)
  have "align_block (8 * cap) = 8 * cap" using assms(2) by (simp add: align_block_def)
  with circbuf_alloc_holds [of bufId "8 * cap" heap cb] assms q show ?thesis by (simp add: node_queue_def)
qed

lemma sync_queue_alloc:
  assumes "circ_addInstance m heap kDllCalQueueTxSync = (kErrorOk, q)"
    and "\<And>n mem. heap n = Some mem \<Longrightarrow> length mem = n"
  shows "circ_queue q [] \<and> bufferSize (pCircBufInstance (the q)) = 8192"
proof -
  obtain cb where cb: "circbuf_alloc 6 8192 heap = (kCircBufOk, Some cb)"
    "q = Some \<lparr>circQueue = kDllCalQueueTxSync, pCircBufInstance = cb\<rparr>"
    using assms(1)
    by (auto simp: circ_addInstance_def circbuf_alloc_def Let_def split: if_splits option.splits)
  have "align_block 8192 = 8192" by (simp add: align_block_def)
  with circbuf_alloc_holds [OF cb(1)] assms(2) cb(2) show ?thesis by (simp add: circ_queue_def)
qed

lemma init_sched:
  assumes "dllkcal_init True mallocOk heap s = (kErrorOk, s0)" and "pQueueStatusReq s0 \<noteq> None"
    and "\<And>i n mem. heap i n = Some mem \<Longrightarrow> length mem = n"
  shows "sched_of s0 (sched_init (cal_outs s))"
proof -
  obtain e1 q1 where a1: "circbuf_alloc 7 2048 (heap 7) = (e1, q1)" by fastforce
  obtain e2 q2 where a2: "circbuf_alloc 8 2048 (heap 8) = (e2, q2)" by fastforce
  obtain e3 q3 where a3: "circbuf_alloc 9 256 (heap 9) = (e3, q3)" by fastforce
  obtain e4 q4 where a4: "circbuf_alloc 10 256 (heap 10) = (e4, q4)" by fastforce
  obtain r5 q5 where a5: "circ_addInstance (mallocOk kDllCalQueueTxSync) (heap 6) kDllCalQueueTxSync = (r5, q5)" by fastforce
  have e4: "e4 = kCircBufOk \<longleftrightarrow> q4 \<noteq> None"
    using a4 by (auto simp: circbuf_alloc_def Let_def split: if_splits option.splits)
  have s0: "e1 = kCircBufOk" "e2 = kCircBufOk" "e3 = kCircBufOk" "e4 = kCircBufOk" "r5 = kErrorOk"
    "pQueueCnRequestNmt s0 = q1" "pQueueCnRequestGen s0 = q2" "pQueueIdentReq s0 = q3" "pQueueStatusReq s0 = q4"
    "dllCalQueueTxSync s0 = q5" "aCnRequestCntNmt s0 = replicate 254 0" "aCnRequestCntGen s0 = replicate 254 0"
    "nextRequestQueue s0 = 0" "cal_outs s0 = cal_outs s"
    using assms(1,2) a1 a2 a3 a4 a5 e4
    by (auto simp: dllkcal_init_def allocRequestQueues_def zero_cal_def Let_def split: prod.splits if_splits)
  have q: "node_queue 256 q1 []" "node_queue 256 q2 []" "node_queue 32 q3 []" "node_queue 32 q4 []"
    using node_queue_alloc [of 7 256 "heap 7" q1] node_queue_alloc [of 8 256 "heap 8" q2]
      node_queue_alloc [of 9 32 "heap 9" q3] node_queue_alloc [of 10 32 "heap 10" q4] a1 a2 a3 a4 s0(1-4) assms(3)
    by simp_all
  have "counts (replicate 254 0) (\<lambda>_. 0)" by (auto simp: counts_def)
  with q s0 sync_queue_alloc [of _ "heap 6" q5] a5 assms(3) show ?thesis by (simp add: sched_of_def sched_init_def)
qed


section \<open>Fairness of the scheduler\<close>

text \<open>
  \<open>wanted k n a\<close>: queue \<open>k\<close> will lead to an invitation of node \<open>n\<close>. \<open>soa_rank\<close> bounds the number of
  SoA frames until then: six for each entry before the node's, and the queues before the node's in
  the next turn. \<open>backed\<close>: the counters never exceed the entries.
\<close>

definition wanted :: "nat \<Rightarrow> nat \<Rightarrow> soa_sched \<Rightarrow> bool" where
  "wanted k n a \<longleftrightarrow> n \<in> set (sch_nodes a k) \<and> (k < 2 \<longrightarrow> 0 < sch_cnt a k n)"

definition soa_rank :: "nat \<Rightarrow> nat \<Rightarrow> soa_sched \<Rightarrow> nat" where
  "soa_rank k n a = 6 * length (takeWhile (\<lambda>m. m \<noteq> n) (sch_nodes a k)) + (k + 6 - sch_next a) mod 6"

definition backed :: "soa_sched \<Rightarrow> bool" where
  "backed a \<longleftrightarrow> (\<forall>k<2. \<forall>n. sch_cnt a k n \<le> count_list (sch_nodes a k) n)"

definition node_list_queue :: "nat \<Rightarrow> bool" where
  "node_list_queue k \<longleftrightarrow> k = 0 \<or> k = 1 \<or> k = 3 \<or> k = 4"

lemma turn_less: "k < 6 \<Longrightarrow> i < 6 \<Longrightarrow> i \<noteq> k \<Longrightarrow> (k + 6 - (i + 1) mod 6) mod 6 < (k + 6 - i) mod (6 :: nat)"
proof (cases "i < k")
  case True
  assume "k < 6"
  moreover obtain d where "k = i + 1 + d" using True less_iff_Suc_add by auto
  ultimately have "(i + 1) mod 6 = i + 1" "k + 6 - (i + 1) = d + 6" "k + 6 - i = Suc d + 6" "Suc d < 6" by simp_all
  then show ?thesis by (simp only: mod_add_self2) simp
next
  case False
  assume "k < 6" "i < 6" "i \<noteq> k"
  with False show ?thesis by (cases "i = 5") simp_all
qed

text \<open>A turn at another queue, and a turn at the node's queue.\<close>

lemma try_other:
  assumes "spec_try env r pl a = (f, r', pl', a')" and "sch_next a \<noteq> k" and "node_list_queue k"
  shows "sch_nodes a' k = sch_nodes a k" "sch_cnt a' k = sch_cnt a k" "sch_next a' = (sch_next a + 1) mod 6"
  using assms
  by (auto simp: spec_try_def node_list_queue_def Let_def sch_set_def sch_count_def split: if_splits list.splits prod.splits)

lemma try_own:
  assumes "spec_try env r pl a = (f, r', pl', a')" and "sch_next a = k" and "node_list_queue k"
    and "sch_nodes a k = m # ns"
  shows "sch_nodes a' k = ns" "sch_next a' = (k + 1) mod 6"
    "k < 2 \<longrightarrow> sch_cnt a' k = (sch_cnt a k)(m := sch_cnt a k m - 1)"
    "f \<longleftrightarrow> \<not> k < 2 \<or> 0 < sch_cnt a k m" "f \<Longrightarrow> r' = (sch_service k, m)"
  using assms
  by (auto simp: spec_try_def node_list_queue_def Let_def sch_set_def sch_count_def fun_eq_iff split: if_splits)

lemma try_rank:
  assumes "spec_try env r pl a = (f, r', pl', a')" and "wanted k n a" and "node_list_queue k" and "sch_next a < 6"
  shows "f \<and> r' = (sch_service k, n) \<or> wanted k n a' \<and> soa_rank k n a' < soa_rank k n a"
proof (cases "sch_next a = k")
  case False
  have "k < 6" using assms(3) by (auto simp: node_list_queue_def)
  from try_other [OF assms(1) False assms(3)] turn_less [OF this assms(4) False] assms(2) show ?thesis
    by (simp add: wanted_def soa_rank_def)
next
  case True
  obtain m ns where q: "sch_nodes a k = m # ns" using assms(2) by (cases "sch_nodes a k") (auto simp: wanted_def)
  note o = try_own [OF assms(1) True assms(3) q]
  have k: "(k + 6 - (k + 1) mod 6) mod 6 \<le> 5" by simp
  show ?thesis
  proof (cases "m = n")
    case True
    then show ?thesis using o(4,5) assms(2) by (auto simp: wanted_def)
  next
    case f: False
    then have "wanted k n a'" using o(1,3) assms(2) q by (auto simp: wanted_def)
    moreover have "soa_rank k n a' < soa_rank k n a"
      using f q o(1,2) True k by (simp add: soa_rank_def)
    ultimately show ?thesis by blast
  qed
qed

lemma spec_try_next: "sch_next a < 6 \<Longrightarrow> spec_try env r pl a = (f, r', pl', a') \<Longrightarrow> sch_next a' < 6"
  by (auto simp: spec_try_def Let_def split: if_splits list.splits prod.splits)

lemma spec_loop_next: "sch_next a < 6 \<Longrightarrow> spec_loop c env r pl a = (r', pl', a') \<Longrightarrow> sch_next a' < 6"
  by (induction c arbitrary: r pl a) (auto split: prod.splits if_splits dest: spec_try_next)

lemma loop_rank:
  assumes "spec_loop c env r pl a = (r', pl', a')" and "wanted k n a" and "node_list_queue k" and "sch_next a < 6"
  shows "r' = (sch_service k, n) \<or> wanted k n a' \<and> soa_rank k n a' + min c 1 \<le> soa_rank k n a"
  using assms(1,2,4)
proof (induction c arbitrary: r pl a)
  case 0
  then show ?case by simp
next
  case (Suc c)
  obtain f r1 pl1 a1 where t: "spec_try env r pl a = (f, r1, pl1, a1)" by (cases "spec_try env r pl a")
  note tr = try_rank [OF t Suc.prems(2) assms(3) Suc.prems(3)]
  show ?case
  proof (cases f)
    case True
    with Suc.prems(1) t tr show ?thesis by auto
  next
    case False
    with tr have "wanted k n a1" "soa_rank k n a1 < soa_rank k n a" by simp_all
    with Suc.IH [of r1 pl1 a1] False t Suc.prems(1) spec_try_next [OF Suc.prems(3) t] show ?thesis by fastforce
  qed
qed

text \<open>The other operations of a run.\<close>

definition keeps_asking :: "nat \<Rightarrow> nat \<Rightarrow> cal_op \<Rightarrow> bool" where
  "keeps_asking k n opn \<longleftrightarrow> (case opn of CalReport m p c \<Rightarrow> m = n \<longrightarrow> prio_queue p = k \<longrightarrow> 0 < c | _ \<Rightarrow> True)"

fun is_soa :: "cal_op \<Rightarrow> bool" where
  "is_soa (CalSoa _ _ _) \<longleftrightarrow> True"
| "is_soa _ \<longleftrightarrow> False"

lemma takeWhile_later: "n \<in> set xs \<Longrightarrow> takeWhile (\<lambda>m. m \<noteq> n) (xs @ ys) = takeWhile (\<lambda>m. m \<noteq> n) xs"
  by (induction xs) auto

lemma other_rank:
  assumes "\<not> is_soa opn" and "keeps_asking k n opn" and "wanted k n a" and "opn \<noteq> CalClear"
  shows "wanted k n (snd (sched_step env opn a)) \<and> soa_rank k n (snd (sched_step env opn a)) = soa_rank k n a"
proof (cases opn)
  case (CalReport m p c)
  then show ?thesis using assms takeWhile_later [of n "sch_nodes a k"]
    by (auto simp: keeps_asking_def spec_report_def wanted_def soa_rank_def Let_def prio_queue_def split: if_splits)
next
  case (CalIssue svc m flag)
  then show ?thesis using assms takeWhile_later [of n "sch_nodes a k"]
    by (auto simp: spec_issue_def wanted_def soa_rank_def Let_def)
next
  case (CalSync b)
  then show ?thesis using assms by (simp add: spec_sync_def wanted_def soa_rank_def)
next
  case (CalSoa svc m pl)
  then show ?thesis using assms(1) by simp
next
  case CalClear
  then show ?thesis using assms(4) by simp
qed

lemma sched_step_next: "sch_next a < 6 \<Longrightarrow> sch_next (snd (sched_step env opn a)) < 6"
proof (cases opn)
  case (CalSoa svc n pl)
  assume "sch_next a < 6"
  then show ?thesis using spec_loop_next [of a 6 env "(svc, n)" pl] CalSoa by (auto split: prod.splits)
qed (auto simp: spec_report_def spec_issue_def spec_sync_def spec_clear_def Let_def split: prod.splits)

lemma sched_run_fair:
  assumes "run_out (\<lambda>opn a. Some (sched_step env opn a)) ops a = Some (rs, a')"
    and "wanted k n a" and "node_list_queue k" and "sch_next a < 6" and "list_all (keeps_asking k n) ops"
    and "soa_rank k n a < length (filter is_soa ops)" and "CalClear \<notin> set ops"
  shows "\<exists>pl. ResSoa (sch_service k) n pl \<in> set rs"
  using assms(1,2,4-7)
proof (induction ops arbitrary: a rs)
  case Nil
  then show ?case by simp
next
  case (Cons opn ops)
  let ?a = "snd (sched_step env opn a)"
  obtain rs' where r: "run_out (\<lambda>opn a. Some (sched_step env opn a)) ops ?a = Some (rs', a')"
    "rs = fst (sched_step env opn a) # rs'" using Cons.prems(1) by (auto simp: split_beta split: option.splits)
  note nx = sched_step_next [OF Cons.prems(3), of env opn]
  show ?case
  proof (cases "is_soa opn")
    case False
    with other_rank [OF this _ Cons.prems(2), of env] Cons.prems(4-6) Cons.IH [OF r(1) _ nx] r(2) show ?thesis by auto
  next
    case True
    then obtain svc m pl where o: "opn = CalSoa svc m pl" by (cases opn) auto
    obtain r1 pl1 a1 where l: "spec_loop 6 env (svc, m) pl a = (r1, pl1, a1)" by (cases "spec_loop 6 env (svc, m) pl a")
    with o have s: "sched_step env opn a = (ResSoa (fst r1) (snd r1) pl1, a1)" by (cases r1) simp
    from loop_rank [OF l Cons.prems(2) assms(3) Cons.prems(3)] show ?thesis
    proof
      assume "r1 = (sch_service k, n)"
      then show ?thesis using s r(2) by auto
    next
      assume "wanted k n a1 \<and> soa_rank k n a1 + min 6 1 \<le> soa_rank k n a"
      then show ?thesis using s r Cons.prems(4-6) o nx Cons.IH [of a1 rs'] by auto
    qed
  qed
qed


text \<open>The counters stay backed by entries.\<close>

lemma backed_try:
  assumes "backed a" and "spec_try env r pl a = (f, r', pl', a')"
  shows "backed a'"
proof -
  have "sch_cnt a' k n \<le> count_list (sch_nodes a' k) n" if k: "k < 2" for k n
  proof -
    have q: "node_list_queue k" using k by (auto simp: node_list_queue_def less_Suc_eq numeral_2_eq_2)
    have b: "sch_cnt a k m \<le> count_list (sch_nodes a k) m" for m using assms(1) k by (simp add: backed_def)
    show ?thesis
    proof (cases "sch_next a = k \<and> sch_nodes a k \<noteq> []")
      case True
      then obtain m ns where "sch_nodes a k = m # ns" by (cases "sch_nodes a k") auto
      with try_own [OF assms(2) _ q this] True k b [of n] show ?thesis by (auto split: if_splits)
    next
      case False
      then have "sch_nodes a' k = sch_nodes a k \<and> sch_cnt a' k = sch_cnt a k"
        using try_other [OF assms(2) _ q] assms(2) k by (cases "sch_next a = k") (auto simp: spec_try_def Let_def)
      then show ?thesis using b by simp
    qed
  qed
  then show ?thesis by (simp add: backed_def)
qed

lemma backed_loop: "backed a \<Longrightarrow> spec_loop c env r pl a = (r', pl', a') \<Longrightarrow> backed a'"
  by (induction c arbitrary: r pl a) (auto split: prod.splits if_splits dest: backed_try)

lemma count_list_append1: "count_list (xs @ [x]) n = count_list xs n + (if x = n then 1 else 0)"
  by (induction xs) auto

lemma backed_step: "backed a \<Longrightarrow> opn \<noteq> CalClear \<Longrightarrow> backed (snd (sched_step env opn a))"
proof (cases opn)
  case (CalReport n p c)
  assume b: "backed a"
  have "sch_cnt (spec_report n p c a) k m \<le> count_list (sch_nodes (spec_report n p c a) k) m" if "k < 2" for k m
  proof -
    have "sch_cnt a k m \<le> count_list (sch_nodes a k) m" using b that by (simp add: backed_def)
    then show ?thesis by (auto simp: spec_report_def Let_def count_list_append1)
  qed
  then show ?thesis using CalReport by (simp add: backed_def)
next
  case (CalIssue svc n flag)
  assume "backed a"
  then show ?thesis using CalIssue by (auto simp: spec_issue_def Let_def backed_def)
next
  case (CalSync b)
  assume "backed a"
  then show ?thesis using CalSync by (simp add: spec_sync_def backed_def)
next
  case (CalSoa svc n pl)
  assume "backed a"
  then show ?thesis using CalSoa backed_loop by (auto split: prod.splits)
qed simp

lemma sched_run_ok:
  assumes "run_out (\<lambda>opn a. Some (sched_step env opn a)) ops a = Some (rs, a')" and "backed a" and "sch_next a < 6"
    and "CalClear \<notin> set ops"
  shows "backed a' \<and> sch_next a' < 6"
  using assms
proof (induction ops arbitrary: a rs)
  case Nil
  then show ?case by simp
next
  case (Cons opn ops)
  then obtain rs' where "run_out (\<lambda>opn a. Some (sched_step env opn a)) ops (snd (sched_step env opn a)) = Some (rs', a')"
    by (auto simp: split_beta split: option.splits)
  from Cons.IH [OF this backed_step [OF Cons.prems(2)] sched_step_next [OF Cons.prems(3)]] Cons.prems(4) show ?case by auto
qed

text \<open>Before the first report all counters are zero, whatever is cleared.\<close>

fun is_report :: "cal_op \<Rightarrow> bool" where
  "is_report (CalReport _ _ _) \<longleftrightarrow> True"
| "is_report _ \<longleftrightarrow> False"

definition uncounted :: "soa_sched \<Rightarrow> bool" where
  "uncounted a \<longleftrightarrow> (\<forall>k n. sch_cnt a k n = 0) \<and> sch_next a < 6"

lemma uncounted_try: "uncounted a \<Longrightarrow> spec_try env r pl a = (f, r', pl', a') \<Longrightarrow> uncounted a'"
  by (auto simp: uncounted_def spec_try_def sch_set_def Let_def split: if_splits list.splits prod.splits)

lemma uncounted_loop: "uncounted a \<Longrightarrow> spec_loop c env r pl a = (r', pl', a') \<Longrightarrow> uncounted a'"
  by (induction c arbitrary: r pl a) (auto split: prod.splits if_splits dest: uncounted_try)

lemma uncounted_step: "uncounted a \<Longrightarrow> \<not> is_report opn \<Longrightarrow> uncounted (snd (sched_step env opn a))"
proof (cases opn)
  case (CalSoa svc n pl)
  assume "uncounted a"
  then show ?thesis using CalSoa uncounted_loop by (auto split: prod.splits)
qed (auto simp: uncounted_def spec_issue_def spec_sync_def spec_clear_def Let_def)

lemma uncounted_run:
  "run_out (\<lambda>opn a. Some (sched_step env opn a)) ops a = Some (rs, a') \<Longrightarrow> uncounted a \<Longrightarrow>
     list_all (\<lambda>opn. \<not> is_report opn) ops \<Longrightarrow> uncounted a'"
proof (induction ops arbitrary: a rs)
  case (Cons opn ops)
  then obtain rs' where "run_out (\<lambda>opn a. Some (sched_step env opn a)) ops (snd (sched_step env opn a)) = Some (rs', a')"
    by (auto simp: split_beta split: option.splits)
  from Cons.IH [OF this uncounted_step [OF Cons.prems(2)]] Cons.prems(3) show ?case by simp
qed simp

lemma uncounted_backed: "uncounted a \<Longrightarrow> backed a \<and> sch_next a < 6"
  by (simp add: uncounted_def backed_def)

lemma init_uncounted: "uncounted (sched_init outs)"
  by (simp add: uncounted_def sched_init_def)

text \<open>Runs from the initialisation. \<open>heap_ok\<close>: the heap gives as many bytes as are asked for.\<close>

definition heap_ok :: "(nat \<Rightarrow> nat \<Rightarrow> byte list option) \<Rightarrow> bool" where
  "heap_ok heap \<longleftrightarrow> (\<forall>i n mem. heap i n = Some mem \<longrightarrow> length mem = n)"

lemma cal_run:
  assumes "dllkcal_init True mallocOk heap s = (kErrorOk, s0)" and "pQueueStatusReq s0 \<noteq> None"
    and "heap_ok heap" and "list_all cal_op_ok ops" and "length (cal_stack env) = 16"
  obtains rs s' a' where "run_out (cal_step env) ops s0 = Some (rs, s')"
    and "run_out (\<lambda>opn a. Some (sched_step env opn a)) ops (sched_init (cal_outs s)) = Some (rs, a')"
    and "sched_of s' a'"
proof -
  obtain rs a' where r: "run_out (\<lambda>opn a. Some (sched_step env opn a)) ops (sched_init (cal_outs s)) = Some (rs, a')"
    using sched_total by blast
  have "sched_of s0 (sched_init (cal_outs s))"
    using assms(3) by (intro init_sched [OF assms(1,2)]) (simp add: heap_ok_def)
  from run_simulates [OF this assms(4,5) r] r that
  show thesis by blast
qed

lemma cal_run_from:
  assumes "sched_of s a" and "list_all cal_op_ok ops" and "length (cal_stack env) = 16"
    and "run_out (cal_step env) ops s = Some (rs, s')"
  obtains a' where "run_out (\<lambda>opn a. Some (sched_step env opn a)) ops a = Some (rs, a')" and "sched_of s' a'"
proof -
  obtain rs' a' where r: "run_out (\<lambda>opn a. Some (sched_step env opn a)) ops a = Some (rs', a')"
    using sched_total by blast
  from run_simulates [OF assms(1-3) r] assms(4) r that show thesis by auto
qed

lemma wanted_counted: "backed a \<Longrightarrow> k < 2 \<Longrightarrow> 0 < sch_cnt a k n \<Longrightarrow> wanted k n a"
proof -
  assume b: "backed a" and k: "k < 2" and n: "0 < sch_cnt a k n"
  then have "0 < count_list (sch_nodes a k) n" by (metis backed_def less_le_trans)
  then show ?thesis using n by (metis wanted_def count_notin less_numeral_extra(3))
qed

lemma takeWhile_before: "n \<in> set xs \<Longrightarrow> length (takeWhile (\<lambda>m. m \<noteq> n) xs) < length xs"
  by (induction xs) auto

lemma rank_less: "wanted k n a \<Longrightarrow> soa_rank k n a < 6 * length (sch_nodes a k)"
proof -
  assume "wanted k n a"
  then have "length (takeWhile (\<lambda>m. m \<noteq> n) (sch_nodes a k)) < length (sch_nodes a k)"
    by (simp add: wanted_def takeWhile_before)
  moreover have "(k + 6 - sch_next a) mod 6 \<le> 5" by simp
  ultimately show ?thesis by (simp add: soa_rank_def)
qed

definition requestQueue :: "tDllAsyncReqPriority \<Rightarrow> tDllkCalInstance \<Rightarrow> tCircBufInstance option" where
  "requestQueue p s = (if p = kDllAsyncReqPrioNmt then pQueueCnRequestNmt s else pQueueCnRequestGen s)"

definition requestCnt :: "tDllAsyncReqPriority \<Rightarrow> nat \<Rightarrow> tDllkCalInstance \<Rightarrow> nat" where
  "requestCnt p n s = (if p = kDllAsyncReqPrioNmt then aCnRequestCntNmt s else aCnRequestCntGen s) ! (n - 1)"

definition requestService :: "tDllAsyncReqPriority \<Rightarrow> tDllReqServiceId" where
  "requestService p = (if p = kDllAsyncReqPrioNmt then kDllReqServiceNmtRequest else kDllReqServiceUnspecified)"

lemma requests_of:
  assumes "sched_of s a" and "is_cn n"
  shows "requestCnt p n s = sch_cnt a (prio_queue p) n"
    "dataCount (the (requestQueue p s)) = length (sch_nodes a (prio_queue p))"
    "requestService p = sch_service (prio_queue p)"
proof -
  note d = sched_ofD [OF assms(1)]
  show "requestCnt p n s = sch_cnt a (prio_queue p) n"
    using counts_nth [OF d(2) assms(2)] counts_nth [OF d(4) assms(2)] by (simp add: requestCnt_def prio_queue_def)
  show "dataCount (the (requestQueue p s)) = length (sch_nodes a (prio_queue p))"
    using d(1,3) by (auto simp: requestQueue_def prio_queue_def node_queue_def holds_def)
qed (simp add: requestService_def prio_queue_def sch_service_def)

text \<open>
  A node without an entry whose counter stays as it is: \<open>repeats_report\<close> says that its reports give the
  number of the counter, and that the managing node has no request of its own.
\<close>

definition forgotten :: "nat \<Rightarrow> nat \<Rightarrow> nat \<Rightarrow> soa_sched \<Rightarrow> bool" where
  "forgotten k n c a \<longleftrightarrow> n \<notin> set (sch_nodes a k) \<and> sch_cnt a k n = c"

fun repeats_report :: "nat \<Rightarrow> nat \<Rightarrow> nat \<Rightarrow> cal_op \<Rightarrow> bool" where
  "repeats_report k n c (CalReport m p count) \<longleftrightarrow> (m = n \<longrightarrow> prio_queue p = k \<longrightarrow> count = c)"
| "repeats_report k n c (CalSoa svc m pl) \<longleftrightarrow> svc = kDllReqServiceNo"
| "repeats_report k n c _ \<longleftrightarrow> True"

lemma putSyncRequest_service:
  "putSyncRequest env z m r pl outs = (r', pl', outs') \<Longrightarrow> r' = r \<or> fst r' = kDllReqServiceSync"
  by (auto simp: putSyncRequest_def Let_def split: if_splits)

lemma forgotten_try:
  assumes t: "spec_try env r pl a = (f, r', pl', a')" and fg: "forgotten k n c a" and k: "k < 2"
    and r: "fst r = kDllReqServiceNo"
  shows "forgotten k n c a' \<and> r' \<noteq> (sch_service k, n) \<and> (\<not> f \<longrightarrow> r' = r)"
proof -
  have svc: "sch_service k \<notin> {kDllReqServiceNo, kDllReqServiceSync}" "j \<noteq> k \<Longrightarrow> sch_service j \<noteq> sch_service k" for j
    using k by (auto simp: sch_service_def)
  consider "sch_next a = 2" | "sch_next a = 5" | "sch_next a \<noteq> 2" "sch_next a \<noteq> 5" "sch_nodes a (sch_next a) = []"
    | m ns where "sch_next a \<noteq> 2" "sch_next a \<noteq> 5" "sch_nodes a (sch_next a) = m # ns"
    by (cases "sch_nodes a (sch_next a)") auto
  then show ?thesis
  proof cases
    case 2
    then show ?thesis using t fg r svc(1) by (auto simp: spec_try_def forgotten_def Let_def split: list.splits prod.splits
        dest!: putSyncRequest_service)
  next
    case 4
    then have "n = m \<Longrightarrow> sch_next a \<noteq> k" using fg by (auto simp: forgotten_def)
    then show ?thesis using 4 t fg r svc by (auto simp: spec_try_def forgotten_def sch_set_def sch_count_def Let_def split: if_splits)
  qed (use t fg r svc(1) in \<open>auto simp: spec_try_def forgotten_def Let_def\<close>)
qed

lemma forgotten_loop:
  "spec_loop j env r pl a = (r', pl', a') \<Longrightarrow> forgotten k n c a \<Longrightarrow> k < 2 \<Longrightarrow> fst r = kDllReqServiceNo \<Longrightarrow>
     forgotten k n c a' \<and> r' \<noteq> (sch_service k, n)"
proof (induction j arbitrary: r pl a)
  case 0
  then show ?case by (auto simp: sch_service_def less_2_cases_iff)
next
  case (Suc j)
  obtain f r1 pl1 a1 where t: "spec_try env r pl a = (f, r1, pl1, a1)" by (cases "spec_try env r pl a")
  from forgotten_try [OF t Suc.prems(2-4)] Suc.IH [of r1 pl1 a1] Suc.prems t show ?case by (auto split: if_splits)
qed

lemma forgotten_step:
  assumes "forgotten k n c a" and "k < 2" and "repeats_report k n c opn"
  shows "forgotten k n c (snd (sched_step env opn a)) \<and>
     (\<forall>payload. fst (sched_step env opn a) \<noteq> ResSoa (sch_service k) n payload)"
proof (cases opn)
  case (CalSoa svc m pl)
  obtain r1 pl1 a1 where l: "spec_loop 6 env (svc, m) pl a = (r1, pl1, a1)" by (cases "spec_loop 6 env (svc, m) pl a")
  from forgotten_loop [OF l assms(1,2)] assms(3) CalSoa l show ?thesis by (cases r1) auto
next
  case (CalReport m p count)
  then show ?thesis using assms by (auto simp: forgotten_def spec_report_eq Let_def)
next
  case (CalIssue svc m flag)
  have "k \<noteq> 3" "k \<noteq> 4" using assms(2) by simp_all
  then have "forgotten k n c (snd (spec_issue env svc m flag a))"
    using assms(1) by (auto simp: forgotten_def spec_issue_def Let_def)
  then show ?thesis using CalIssue by (simp add: split_beta)
next
  case (CalSync b)
  have "forgotten k n c (snd (spec_sync b a))" using assms(1) by (simp add: forgotten_def spec_sync_def)
  then show ?thesis using CalSync by (simp add: split_beta)
next
  case CalClear
  then show ?thesis using assms(1) by (simp add: forgotten_def spec_clear_def)
qed

lemma forgotten_run:
  "run_out (\<lambda>opn a. Some (sched_step env opn a)) ops a = Some (rs, a') \<Longrightarrow> forgotten k n c a \<Longrightarrow>
     list_all (repeats_report k n c) ops \<Longrightarrow> k < 2 \<Longrightarrow>
     forgotten k n c a' \<and> (\<forall>payload. ResSoa (sch_service k) n payload \<notin> set rs)"
proof (induction ops arbitrary: a rs)
  case (Cons opn ops)
  then obtain rs' where r: "run_out (\<lambda>opn a. Some (sched_step env opn a)) ops (snd (sched_step env opn a)) = Some (rs', a')"
    "rs = fst (sched_step env opn a) # rs'" by (auto simp: split_beta split: option.splits)
  have rep: "repeats_report k n c opn" "list_all (repeats_report k n c) ops" using Cons.prems(3) by simp_all
  note f = forgotten_step [OF Cons.prems(2,4) rep(1), of env]
  from Cons.IH [OF r(1) f [THEN conjunct1] rep(2) Cons.prems(4)] f r(2) show ?case by (metis set_ConsD)
qed simp

section \<open>Properties\<close>

text \<open>
  C10: The asynchronous scheduler of the managing node implements fair queues of nodes. From a
  successful initialisation, any sequence of reports of nodes 1 to 254, issued requests,
  synchronisation requests of at most 16 bytes, SoA frames and clearings of the queues is executed
  without undefined behaviour, and gives exactly the answers of the specification, in which the
  queues are lists of node IDs, although the code keeps them as bytes in circular buffers and turns
  over six queues. A sequence with a report of another node ID (0 or 255, which a frame may carry)
  reaches undefined behaviour: the code accesses the tables of counters without a check.
\<close>

theorem soa_scheduler_refines:
  assumes "dllkcal_init True mallocOk heap s = (kErrorOk, s0)" and "pQueueStatusReq s0 \<noteq> None"
    and "heap_ok heap" and "list_all cal_op_typed ops" and "length (cal_stack env) = 16"
  shows "if list_all report_in_tables ops
     then \<exists>rs s' a'. run_out (cal_step env) ops s0 = Some (rs, s') \<and>
       run_out (\<lambda>opn a. Some (sched_step env opn a)) ops (sched_init (cal_outs s)) = Some (rs, a') \<and> sched_of s' a'
     else run_out (cal_step env) ops s0 = None"
proof (cases "list_all report_in_tables ops")
  case True
  then have "list_all cal_op_ok ops" using assms(4) by (auto simp: cal_op_ok_def list_all_iff)
  from cal_run [OF assms(1-3) this assms(5)] True show ?thesis by metis
next
  case False
  have "sched_of s0 (sched_init (cal_outs s))"
    using assms(3) by (intro init_sched [OF assms(1,2)]) (simp add: heap_ok_def)
  from run_outside_tables [OF this assms(4) False assms(5)] False show ?thesis by simp
qed

definition cal_env :: dllkcal_env where
  "cal_env = \<lparr>cal_ret = \<lambda>_. kErrorOk, cal_mac = \<lambda>_. replicate 6 0, cal_stack = replicate 16 0, cal_netTime = 0\<rparr>"

definition cal_heap :: "nat \<Rightarrow> nat \<Rightarrow> byte list option" where
  "cal_heap i n = Some (replicate n 0)"

definition no_payload :: tSyncRequest where
  "no_payload = \<lparr>syncControlLe = 0, presTimeFirstLe = 0, presFallBackTimeoutLe = 0, aDestMacAddress = replicate 6 0\<rparr>"

lemma cal_heap_ok: "heap_ok cal_heap"
  by (simp add: heap_ok_def cal_heap_def)

lemma cal_example: "\<exists>s0. dllkcal_init True (\<lambda>_. True) cal_heap (zero_cal []) = (kErrorOk, s0) \<and> pQueueStatusReq s0 \<noteq> None"
proof -
  have ok: "\<exists>q. circbuf_alloc i n (cal_heap j) = (kCircBufOk, Some q)" if "n \<noteq> 0" "i < 20" for i n j
    using that by (simp add: circbuf_alloc_def cal_heap_def Let_def)
  obtain q1 q2 q3 q4 q5 q6 q7 where "circbuf_alloc 4 32767 (cal_heap 4) = (kCircBufOk, Some q1)"
    "circbuf_alloc 5 32767 (cal_heap 5) = (kCircBufOk, Some q2)" "circbuf_alloc 6 8192 (cal_heap 6) = (kCircBufOk, Some q3)"
    "circbuf_alloc 7 2048 (cal_heap 7) = (kCircBufOk, Some q4)" "circbuf_alloc 8 2048 (cal_heap 8) = (kCircBufOk, Some q5)"
    "circbuf_alloc 9 256 (cal_heap 9) = (kCircBufOk, Some q6)" "circbuf_alloc 10 256 (cal_heap 10) = (kCircBufOk, Some q7)"
    using ok [of 32767 4 4] ok [of 32767 5 5] ok [of 8192 6 6] ok [of 2048 7 7] ok [of 2048 8 8] ok [of 256 9 9]
      ok [of 256 10 10] by auto
  then show ?thesis by (simp add: dllkcal_init_def allocRequestQueues_def circ_addInstance_def Let_def)
qed

lemma loop6: "spec_loop 6 = spec_loop (Suc (Suc (Suc (Suc (Suc (Suc 0))))))"
  by (simp add: numeral_eq_Suc)

theorem soa_scheduler_refines_witness:
  "\<exists>s0 rs s' a'. dllkcal_init True (\<lambda>_. True) cal_heap (zero_cal []) = (kErrorOk, s0) \<and>
     run_out (cal_step cal_env) [CalClear, CalReport 5 kDllAsyncReqPrioGeneric 2, CalIssue kDllReqServiceIdent 7 0xFF,
       CalSoa kDllReqServiceNo 0 no_payload, CalSoa kDllReqServiceNo 0 no_payload] s0 = Some (rs, s') \<and>
     sched_of s' a' \<and> ResSoa kDllReqServiceUnspecified 5 no_payload \<in> set rs \<and>
     ResSoa kDllReqServiceIdent 7 no_payload \<in> set rs \<and>
     run_out (cal_step cal_env) [CalReport 255 kDllAsyncReqPrioGeneric 1] s0 = None"
proof -
  let ?ops = "[CalClear, CalReport 5 kDllAsyncReqPrioGeneric 2, CalIssue kDllReqServiceIdent 7 0xFF,
       CalSoa kDllReqServiceNo 0 no_payload, CalSoa kDllReqServiceNo 0 no_payload]"
  obtain s0 where s0: "dllkcal_init True (\<lambda>_. True) cal_heap (zero_cal []) = (kErrorOk, s0)" "pQueueStatusReq s0 \<noteq> None"
    using cal_example by blast
  have ops: "list_all cal_op_typed ?ops" "list_all report_in_tables ?ops" and st: "length (cal_stack cal_env) = 16"
    and bad: "list_all cal_op_typed [CalReport 255 kDllAsyncReqPrioGeneric 1]"
      "\<not> list_all report_in_tables [CalReport 255 kDllAsyncReqPrioGeneric 1]"
    by (simp_all add: is_cn_def cal_env_def)
  from soa_scheduler_refines [OF s0 cal_heap_ok ops(1) st] ops(2) obtain rs s' a' where
    r: "run_out (cal_step cal_env) ?ops s0 = Some (rs, s')" "sched_of s' a'"
    and sp: "run_out (\<lambda>opn a. Some (sched_step cal_env opn a)) ?ops (sched_init (cal_outs (zero_cal []))) = Some (rs, a')"
    by (simp only: if_True) blast
  from sp have "ResSoa kDllReqServiceUnspecified 5 no_payload \<in> set rs \<and> ResSoa kDllReqServiceIdent 7 no_payload \<in> set rs"
    by (auto simp: sched_init_def spec_clear_def spec_report_def spec_issue_def prio_queue_def sch_cap_def sch_set_def
        sch_count_def Let_def loop6 spec_try_def sch_service_def)
  moreover from soa_scheduler_refines [OF s0 cal_heap_ok bad(1) st] bad(2) have
    "run_out (cal_step cal_env) [CalReport 255 kDllAsyncReqPrioGeneric 1] s0 = None" by (simp only: if_False)
  ultimately show ?thesis using s0(1) r by (intro exI conjI) blast+
qed

text \<open>
  C9: No node starves while the queues are not cleared. From the initialisation, with any clearing of
  the queues (as at the first start of the reduced cycle) before the first report of a node, a node
  whose counter of pending requests is positive is invited by one of the next SoA frames, at the
  latest by the one that is six times the number of entries in the queue of that priority, whatever
  is reported (by nodes 1 to 254), issued (synchronisation requests have at most 16 bytes) and
  served meanwhile, as long as the node itself reports pending frames when it reports and the queues
  are not cleared after the first report.
\<close>

theorem soa_no_starvation:
  assumes "dllkcal_init True mallocOk heap s = (kErrorOk, s0)" and "pQueueStatusReq s0 \<noteq> None"
    and "heap_ok heap" and "length (cal_stack env) = 16" and "list_all cal_op_ok (ops0 @ ops1 @ ops2)"
    and "list_all (\<lambda>opn. \<not> is_report opn) ops0" and "CalClear \<notin> set (ops1 @ ops2)"
    and "run_out (cal_step env) (ops0 @ ops1) s0 = Some (rs1, s1)" and "run_out (cal_step env) ops2 s1 = Some (rs2, s2)"
    and "is_cn n" and "0 < requestCnt p n s1" and "list_all (keeps_asking (prio_queue p) n) ops2"
    and "6 * dataCount (the (requestQueue p s1)) \<le> length (filter is_soa ops2)"
  shows "\<exists>payload. ResSoa (requestService p) n payload \<in> set rs2"
proof -
  have ops: "list_all cal_op_ok ops0" "list_all cal_op_ok ops1" "list_all cal_op_ok ops2" using assms(5) by simp_all
  obtain rs0 s01 a0 where r0: "run_out (cal_step env) ops0 s0 = Some (rs0, s01)"
    "run_out (\<lambda>opn a. Some (sched_step env opn a)) ops0 (sched_init (cal_outs s)) = Some (rs0, a0)" "sched_of s01 a0"
    using cal_run [OF assms(1-3) ops(1) assms(4)] by blast
  have a0: "backed a0" "sch_next a0 < 6"
    using uncounted_run [OF r0(2) init_uncounted assms(6)] uncounted_backed by blast+
  obtain rs01 where r1: "run_out (cal_step env) ops1 s01 = Some (rs01, s1)"
    using assms(8) r0(1) by (auto simp: run_out_append split: option.splits)
  obtain a1 where a1: "run_out (\<lambda>opn a. Some (sched_step env opn a)) ops1 a0 = Some (rs01, a1)" "sched_of s1 a1"
    using cal_run_from [OF r0(3) ops(2) assms(4) r1] by blast
  have b1: "backed a1" "sch_next a1 < 6" using sched_run_ok [OF a1(1) a0] assms(7) by auto
  obtain a2 where r2: "run_out (\<lambda>opn a. Some (sched_step env opn a)) ops2 a1 = Some (rs2, a2)"
    using cal_run_from [OF a1(2) ops(3) assms(4, 9)] by blast
  note r = requests_of [OF a1(2) assms(10)]
  have k: "prio_queue p < 2" "node_list_queue (prio_queue p)" by (simp_all add: prio_queue_def node_list_queue_def)
  have w: "wanted (prio_queue p) n a1" using wanted_counted [OF b1(1) k(1)] assms(11) r(1) by simp
  have "soa_rank (prio_queue p) n a1 < length (filter is_soa ops2)"
    using rank_less [OF w] assms(13) by (simp add: r(2))
  from sched_run_fair [OF r2 w k(2) b1(2) assms(12) this] assms(7) show ?thesis by (auto simp: r(3))
qed

theorem soa_no_starvation_witness:
  "\<exists>s0 rs1 s1 rs2 s2 payload. dllkcal_init True (\<lambda>_. True) cal_heap (zero_cal []) = (kErrorOk, s0) \<and>
     run_out (cal_step cal_env) ([CalClear] @ [CalReport 5 kDllAsyncReqPrioGeneric 2]) s0 = Some (rs1, s1) \<and>
     run_out (cal_step cal_env) (replicate 6 (CalSoa kDllReqServiceNo 0 no_payload)) s1 = Some (rs2, s2) \<and>
     ResSoa kDllReqServiceUnspecified 5 payload \<in> set rs2"
proof -
  let ?ops0 = "[CalClear]" and ?ops1 = "[CalReport 5 kDllAsyncReqPrioGeneric 2]"
    and ?ops2 = "replicate 6 (CalSoa kDllReqServiceNo 0 no_payload)"
  obtain s0 where s0: "dllkcal_init True (\<lambda>_. True) cal_heap (zero_cal []) = (kErrorOk, s0)" "pQueueStatusReq s0 \<noteq> None"
    using cal_example by blast
  have ops: "list_all cal_op_ok (?ops0 @ ?ops1)" "list_all cal_op_ok ?ops2" "list_all cal_op_ok (?ops0 @ ?ops1 @ ?ops2)"
    and st: "length (cal_stack cal_env) = 16" and n: "is_cn 5"
    and quiet: "list_all (\<lambda>opn. \<not> is_report opn) ?ops0" "CalClear \<notin> set (?ops1 @ ?ops2)"
    by (simp_all add: is_cn_def cal_env_def list_all_iff)
  obtain rs1 s1 a1 where r1: "run_out (cal_step cal_env) (?ops0 @ ?ops1) s0 = Some (rs1, s1)" "sched_of s1 a1"
    and sp: "run_out (\<lambda>opn a. Some (sched_step cal_env opn a)) (?ops0 @ ?ops1) (sched_init (cal_outs (zero_cal []))) = Some (rs1, a1)"
    using cal_run [OF s0 cal_heap_ok ops(1) st] by metis
  have a1: "sch_cnt a1 0 5 = 1" "sch_nodes a1 0 = [5]"
    using sp by (auto simp: sched_init_def spec_clear_def spec_report_def prio_queue_def sch_cap_def sch_set_def sch_count_def Let_def)
  note q = requests_of [OF r1(2) n, of kDllAsyncReqPrioGeneric]
  have c: "0 < requestCnt kDllAsyncReqPrioGeneric 5 s1"
    "6 * dataCount (the (requestQueue kDllAsyncReqPrioGeneric s1)) \<le> length (filter is_soa ?ops2)"
    unfolding q by (simp_all add: a1 prio_queue_def)
  have k: "list_all (keeps_asking (prio_queue kDllAsyncReqPrioGeneric) 5) ?ops2" by (simp add: list_all_iff keeps_asking_def)
  obtain rs2 a2 where r2: "run_out (\<lambda>opn a. Some (sched_step cal_env opn a)) ?ops2 a1 = Some (rs2, a2)"
    using sched_total by blast
  from run_simulates [OF r1(2) ops(2) st r2] obtain s2 where s2: "run_out (cal_step cal_env) ?ops2 s1 = Some (rs2, s2)" by blast
  from soa_no_starvation [OF s0 cal_heap_ok st ops(3) quiet r1(1) s2 n c(1) k c(2)] obtain pl where
    "ResSoa kDllReqServiceUnspecified 5 pl \<in> set rs2" by (auto simp: requestService_def)
  with s0(1) r1(1) s2 show ?thesis by (intro exI conjI)
qed



lemma loopc6: "soaRequestLoop 6 = soaRequestLoop (Suc (Suc (Suc (Suc (Suc (Suc 0))))))"
  by (simp add: numeral_eq_Suc)

text \<open>
  C32: A failed allocation goes unnoticed. When there is no memory for the queue of generic requests
  of the scheduler, and for all others there is, the initialisation still reports success, and the next SoA or the clearing of the
  queues reads through a \<^verbatim>\<open>NULL\<close> pointer.
\<close>

theorem cal_init_hides_failure:
  assumes "\<forall>i n. heap i n = None \<longleftrightarrow> i = CIRCBUF_DLLCAL_CN_REQ_GEN" and "\<forall>q. mallocOk q"
  shows "\<exists>s0. dllkcal_init True mallocOk heap s = (kErrorOk, s0) \<and>
     dllkcal_getSoaRequest env service n payload s0 = None \<and> dllkcal_clearAsyncQueues s0 = None"
proof -
  have ok: "\<exists>q. circbuf_alloc i n (heap j) = (kCircBufOk, Some q)" if t: "n \<noteq> 0" "i < 20" "j \<noteq> 8" for i n j
  proof -
    obtain mem where "heap j (align_block n) = Some mem" using assms(1) t(3) by (metis option.exhaust)
    then show ?thesis using t(1,2) by (simp add: circbuf_alloc_def Let_def)
  qed
  have no: "circbuf_alloc 8 2048 (heap 8) = (kCircBufNoResource, None)"
    using assms(1) by (auto simp: circbuf_alloc_def Let_def split: option.split)
  obtain q1 q2 q3 q4 where "circbuf_alloc 4 32767 (heap 4) = (kCircBufOk, Some q1)"
    "circbuf_alloc 5 32767 (heap 5) = (kCircBufOk, Some q2)" "circbuf_alloc 6 8192 (heap 6) = (kCircBufOk, Some q3)"
    "circbuf_alloc 7 2048 (heap 7) = (kCircBufOk, Some q4)"
    using ok [of 32767 4 4] ok [of 32767 5 5] ok [of 8192 6 6] ok [of 2048 7 7] by auto
  then show ?thesis
    using no assms(2)
    by (simp add: dllkcal_init_def allocRequestQueues_def circ_addInstance_def zero_cal_def dllkcal_getSoaRequest_def
        tryRequestQueue_def getCnGenRequest_def dllkcal_clearAsyncQueues_def loopc6)
qed

theorem cal_init_hides_failure_witness:
  "\<exists>s0. dllkcal_init True (\<lambda>_. True) (\<lambda>i n. if i = 8 then None else Some (replicate n 0)) (zero_cal []) = (kErrorOk, s0) \<and>
     dllkcal_getSoaRequest cal_env kDllReqServiceNo 0 no_payload s0 = None \<and> dllkcal_clearAsyncQueues s0 = None"
  by (rule cal_init_hides_failure) simp_all

end
