(* ===== verification/Ami_Hosts.thy ===== *)
theory Ami_Hosts
  imports Ami
begin

text \<open>
  The abstract memory interface for a big endian host (\<^verbatim>\<open>src/stack/src/common/ami/amibe.c\<close>, the
  functions \<open>amibe_...\<close>) and for the x86, which accesses the frame by casts
  (\<^verbatim>\<open>src/stack/src/common/ami/amix86.c\<close>, the functions \<open>amix86_...\<close>), compared with those of
  \<open>Ami\<close>. All three files declare the same functions.
\<close>

unbundle bit_operations_syntax

section \<open>Big endian host\<close>

definition bytes_be :: "nat \<Rightarrow> nat \<Rightarrow> byte list" where
  "bytes_be n v = rev (bytes_le n v)"

definition value_be :: "byte list \<Rightarrow> nat" where
  "value_be bs = value_le (rev bs)"

definition amibe_setUint16Be :: "byte list \<Rightarrow> nat \<Rightarrow> byte list option" where
  "amibe_setUint16Be buf val =
     move_bytes [(0, 0), (1, 1)] (bytes_be 2 val) buf"

definition amibe_setUint16Le :: "byte list \<Rightarrow> nat \<Rightarrow> byte list option" where
  "amibe_setUint16Le buf val =
     move_bytes [(1, 0), (0, 1)] (bytes_be 2 val) buf"

definition amibe_getUint16Be :: "byte list \<Rightarrow> nat option" where
  "amibe_getUint16Be buf =
     map_option value_be (move_bytes [(0, 0), (1, 1)] buf (bytes_be 2 0))"

definition amibe_getUint16Le :: "byte list \<Rightarrow> nat option" where
  "amibe_getUint16Le buf =
     map_option value_be (move_bytes [(1, 0), (0, 1)] buf (bytes_be 2 0))"

definition amibe_setUint24Be :: "byte list \<Rightarrow> nat \<Rightarrow> byte list option" where
  "amibe_setUint24Be buf val =
     move_bytes [(0, 1), (1, 2), (2, 3)] (bytes_be 4 val) buf"

definition amibe_setUint24Le :: "byte list \<Rightarrow> nat \<Rightarrow> byte list option" where
  "amibe_setUint24Le buf val =
     move_bytes [(0, 3), (1, 2), (2, 1)] (bytes_be 4 val) buf"

definition amibe_getUint24Be :: "byte list \<Rightarrow> nat option" where
  "amibe_getUint24Be buf =
     map_option value_be (move_bytes [(0, 1), (1, 2), (2, 3)] buf (bytes_be 4 0))"

definition amibe_getUint24Le :: "byte list \<Rightarrow> nat option" where
  "amibe_getUint24Le buf =
     map_option value_be (move_bytes [(0, 3), (1, 2), (2, 1)] buf (bytes_be 4 0))"

definition amibe_setUint32Be :: "byte list \<Rightarrow> nat \<Rightarrow> byte list option" where
  "amibe_setUint32Be buf val =
     move_bytes [(0, 0), (1, 1), (2, 2), (3, 3)] (bytes_be 4 val) buf"

definition amibe_setUint32Le :: "byte list \<Rightarrow> nat \<Rightarrow> byte list option" where
  "amibe_setUint32Le buf val =
     move_bytes [(3, 0), (2, 1), (1, 2), (0, 3)] (bytes_be 4 val) buf"

definition amibe_getUint32Be :: "byte list \<Rightarrow> nat option" where
  "amibe_getUint32Be buf =
     map_option value_be (move_bytes [(0, 0), (1, 1), (2, 2), (3, 3)] buf (bytes_be 4 0))"

definition amibe_getUint32Le :: "byte list \<Rightarrow> nat option" where
  "amibe_getUint32Le buf =
     map_option value_be (move_bytes [(3, 0), (2, 1), (1, 2), (0, 3)] buf (bytes_be 4 0))"

definition amibe_setUint40Be :: "byte list \<Rightarrow> nat \<Rightarrow> byte list option" where
  "amibe_setUint40Be buf val =
     move_bytes [(0, 3), (1, 4), (2, 5), (3, 6), (4, 7)] (bytes_be 8 val) buf"

definition amibe_setUint40Le :: "byte list \<Rightarrow> nat \<Rightarrow> byte list option" where
  "amibe_setUint40Le buf val =
     move_bytes [(0, 7), (1, 6), (2, 5), (3, 4), (4, 3)] (bytes_be 8 val) buf"

definition amibe_getUint40Be :: "byte list \<Rightarrow> nat option" where
  "amibe_getUint40Be buf =
     map_option value_be (move_bytes [(0, 3), (1, 4), (2, 5), (3, 6), (4, 7)] buf (bytes_be 8 0))"

definition amibe_getUint40Le :: "byte list \<Rightarrow> nat option" where
  "amibe_getUint40Le buf =
     map_option value_be (move_bytes [(0, 7), (1, 6), (2, 5), (3, 4), (4, 3)] buf (bytes_be 8 0))"

definition amibe_setUint48Be :: "byte list \<Rightarrow> nat \<Rightarrow> byte list option" where
  "amibe_setUint48Be buf val =
     move_bytes [(0, 2), (1, 3), (2, 4), (3, 5), (4, 6), (5, 7)] (bytes_be 8 val) buf"

definition amibe_setUint48Le :: "byte list \<Rightarrow> nat \<Rightarrow> byte list option" where
  "amibe_setUint48Le buf val =
     move_bytes [(0, 7), (1, 6), (2, 5), (3, 4), (4, 3), (5, 2)] (bytes_be 8 val) buf"

definition amibe_getUint48Be :: "byte list \<Rightarrow> nat option" where
  "amibe_getUint48Be buf =
     map_option value_be (move_bytes [(0, 2), (1, 3), (2, 4), (3, 5), (4, 6), (5, 7)] buf (bytes_be 8 0))"

definition amibe_getUint48Le :: "byte list \<Rightarrow> nat option" where
  "amibe_getUint48Le buf =
     map_option value_be (move_bytes [(0, 7), (1, 6), (2, 5), (3, 4), (4, 3), (5, 2)] buf (bytes_be 8 0))"

definition amibe_setUint56Be :: "byte list \<Rightarrow> nat \<Rightarrow> byte list option" where
  "amibe_setUint56Be buf val =
     move_bytes [(0, 1), (1, 2), (2, 3), (3, 4), (4, 5), (5, 6), (6, 7)] (bytes_be 8 val) buf"

definition amibe_setUint56Le :: "byte list \<Rightarrow> nat \<Rightarrow> byte list option" where
  "amibe_setUint56Le buf val =
     move_bytes [(0, 7), (1, 6), (2, 5), (3, 4), (4, 3), (5, 2), (6, 1)] (bytes_be 8 val) buf"

definition amibe_getUint56Be :: "byte list \<Rightarrow> nat option" where
  "amibe_getUint56Be buf =
     map_option value_be (move_bytes [(0, 1), (1, 2), (2, 3), (3, 4), (4, 5), (5, 6), (6, 7)] buf (bytes_be 8 0))"

definition amibe_getUint56Le :: "byte list \<Rightarrow> nat option" where
  "amibe_getUint56Le buf =
     map_option value_be (move_bytes [(0, 7), (1, 6), (2, 5), (3, 4), (4, 3), (5, 2), (6, 1)] buf (bytes_be 8 0))"

definition amibe_setUint64Be :: "byte list \<Rightarrow> nat \<Rightarrow> byte list option" where
  "amibe_setUint64Be buf val =
     move_bytes [(0, 0), (1, 1), (2, 2), (3, 3), (4, 4), (5, 5), (6, 6), (7, 7)] (bytes_be 8 val) buf"

definition amibe_setUint64Le :: "byte list \<Rightarrow> nat \<Rightarrow> byte list option" where
  "amibe_setUint64Le buf val =
     move_bytes [(7, 0), (6, 1), (5, 2), (4, 3), (3, 4), (2, 5), (1, 6), (0, 7)] (bytes_be 8 val) buf"

definition amibe_getUint64Be :: "byte list \<Rightarrow> nat option" where
  "amibe_getUint64Be buf =
     map_option value_be (move_bytes [(0, 0), (1, 1), (2, 2), (3, 3), (4, 4), (5, 5), (6, 6), (7, 7)] buf (bytes_be 8 0))"

definition amibe_getUint64Le :: "byte list \<Rightarrow> nat option" where
  "amibe_getUint64Le buf =
     map_option value_be (move_bytes [(7, 0), (6, 1), (5, 2), (4, 3), (3, 4), (2, 5), (1, 6), (0, 7)] buf (bytes_be 8 0))"

section \<open>x86\<close>

text \<open>
  Two or four bytes moved at once are written as moves of the single bytes; the host is little
  endian. The little endian getters of 24, 40, 48 and 56 bits clear the other bytes of the C
  integer in the frame itself (\<^verbatim>\<open>*pVal &= mask\<close>) before they return it: \<open>mask_in_place\<close> gives the
  value and the frame.
\<close>

definition mask_in_place :: "nat \<Rightarrow> nat \<Rightarrow> byte list \<Rightarrow> (nat \<times> byte list) option" where
  "mask_in_place n m buf =
     (if n \<le> length buf then
        let val = value_le (take n buf) AND m in Some (val, bytes_le n val @ drop n buf)
      else None)"

definition amix86_setUint16Be :: "byte list \<Rightarrow> nat \<Rightarrow> byte list option" where
  "amix86_setUint16Be buf val =
     move_bytes [(1, 0), (0, 1)] (bytes_le 2 val) buf"

definition amix86_setUint16Le :: "byte list \<Rightarrow> nat \<Rightarrow> byte list option" where
  "amix86_setUint16Le buf val =
     move_bytes [(0, 0), (1, 1)] (bytes_le 2 val) buf"

definition amix86_getUint16Be :: "byte list \<Rightarrow> nat option" where
  "amix86_getUint16Be buf =
     map_option value_le (move_bytes [(1, 0), (0, 1)] buf (bytes_le 2 0))"

definition amix86_getUint16Le :: "byte list \<Rightarrow> nat option" where
  "amix86_getUint16Le buf =
     map_option value_le (move_bytes [(0, 0), (1, 1)] buf (bytes_le 2 0))"

definition amix86_setUint24Be :: "byte list \<Rightarrow> nat \<Rightarrow> byte list option" where
  "amix86_setUint24Be buf val =
     move_bytes [(0, 2), (1, 1), (2, 0)] (bytes_le 4 val) buf"

definition amix86_setUint24Le :: "byte list \<Rightarrow> nat \<Rightarrow> byte list option" where
  "amix86_setUint24Le buf val =
     move_bytes [(0, 0), (1, 1), (2, 2)] (bytes_le 4 val) buf"

definition amix86_getUint24Be :: "byte list \<Rightarrow> nat option" where
  "amix86_getUint24Be buf =
     map_option value_le (move_bytes [(0, 2), (1, 1), (2, 0)] buf (bytes_le 4 0))"

definition amix86_getUint24Le :: "byte list \<Rightarrow> (nat \<times> byte list) option" where
  "amix86_getUint24Le buf = mask_in_place 4 0x00FFFFFF buf"

definition amix86_setUint32Be :: "byte list \<Rightarrow> nat \<Rightarrow> byte list option" where
  "amix86_setUint32Be buf val =
     move_bytes [(0, 3), (1, 2), (2, 1), (3, 0)] (bytes_le 4 val) buf"

definition amix86_setUint32Le :: "byte list \<Rightarrow> nat \<Rightarrow> byte list option" where
  "amix86_setUint32Le buf val =
     move_bytes [(0, 0), (1, 1), (2, 2), (3, 3)] (bytes_le 4 val) buf"

definition amix86_getUint32Be :: "byte list \<Rightarrow> nat option" where
  "amix86_getUint32Be buf =
     map_option value_le (move_bytes [(0, 3), (1, 2), (2, 1), (3, 0)] buf (bytes_le 4 0))"

definition amix86_getUint32Le :: "byte list \<Rightarrow> nat option" where
  "amix86_getUint32Le buf =
     map_option value_le (move_bytes [(0, 0), (1, 1), (2, 2), (3, 3)] buf (bytes_le 4 0))"

definition amix86_setUint40Be :: "byte list \<Rightarrow> nat \<Rightarrow> byte list option" where
  "amix86_setUint40Be buf val =
     move_bytes [(0, 4), (1, 3), (2, 2), (3, 1), (4, 0)] (bytes_le 8 val) buf"

definition amix86_setUint40Le :: "byte list \<Rightarrow> nat \<Rightarrow> byte list option" where
  "amix86_setUint40Le buf val =
     move_bytes [(0, 0), (1, 1), (2, 2), (3, 3), (4, 4)] (bytes_le 8 val) buf"

definition amix86_getUint40Be :: "byte list \<Rightarrow> nat option" where
  "amix86_getUint40Be buf =
     map_option value_le (move_bytes [(0, 4), (1, 3), (2, 2), (3, 1), (4, 0)] buf (bytes_le 8 0))"

definition amix86_getUint40Le :: "byte list \<Rightarrow> (nat \<times> byte list) option" where
  "amix86_getUint40Le buf = mask_in_place 8 0x000000FFFFFFFFFF buf"

definition amix86_setUint48Be :: "byte list \<Rightarrow> nat \<Rightarrow> byte list option" where
  "amix86_setUint48Be buf val =
     move_bytes [(0, 5), (1, 4), (2, 3), (3, 2), (4, 1), (5, 0)] (bytes_le 8 val) buf"

definition amix86_setUint48Le :: "byte list \<Rightarrow> nat \<Rightarrow> byte list option" where
  "amix86_setUint48Le buf val =
     move_bytes [(0, 0), (1, 1), (2, 2), (3, 3), (4, 4), (5, 5)] (bytes_le 8 val) buf"

definition amix86_getUint48Be :: "byte list \<Rightarrow> nat option" where
  "amix86_getUint48Be buf =
     map_option value_le (move_bytes [(0, 5), (1, 4), (2, 3), (3, 2), (4, 1), (5, 0)] buf (bytes_le 8 0))"

definition amix86_getUint48Le :: "byte list \<Rightarrow> (nat \<times> byte list) option" where
  "amix86_getUint48Le buf = mask_in_place 8 0x0000FFFFFFFFFFFF buf"

definition amix86_setUint56Be :: "byte list \<Rightarrow> nat \<Rightarrow> byte list option" where
  "amix86_setUint56Be buf val =
     move_bytes [(0, 6), (1, 5), (2, 4), (3, 3), (4, 2), (5, 1), (6, 0)] (bytes_le 8 val) buf"

definition amix86_setUint56Le :: "byte list \<Rightarrow> nat \<Rightarrow> byte list option" where
  "amix86_setUint56Le buf val =
     move_bytes [(0, 0), (1, 1), (2, 2), (3, 3), (4, 4), (5, 5), (6, 6)] (bytes_le 8 val) buf"

definition amix86_getUint56Be :: "byte list \<Rightarrow> nat option" where
  "amix86_getUint56Be buf =
     map_option value_le (move_bytes [(0, 6), (1, 5), (2, 4), (3, 3), (4, 2), (5, 1), (6, 0)] buf (bytes_le 8 0))"

definition amix86_getUint56Le :: "byte list \<Rightarrow> (nat \<times> byte list) option" where
  "amix86_getUint56Le buf = mask_in_place 8 0x00FFFFFFFFFFFFFF buf"

definition amix86_setUint64Be :: "byte list \<Rightarrow> nat \<Rightarrow> byte list option" where
  "amix86_setUint64Be buf val =
     move_bytes [(0, 7), (1, 6), (2, 5), (3, 4), (4, 3), (5, 2), (6, 1), (7, 0)] (bytes_le 8 val) buf"

definition amix86_setUint64Le :: "byte list \<Rightarrow> nat \<Rightarrow> byte list option" where
  "amix86_setUint64Le buf val =
     move_bytes [(0, 0), (1, 1), (2, 2), (3, 3), (4, 4), (5, 5), (6, 6), (7, 7)] (bytes_le 8 val) buf"

definition amix86_getUint64Be :: "byte list \<Rightarrow> nat option" where
  "amix86_getUint64Be buf =
     map_option value_le (move_bytes [(0, 7), (1, 6), (2, 5), (3, 4), (4, 3), (5, 2), (6, 1), (7, 0)] buf (bytes_le 8 0))"

definition amix86_getUint64Le :: "byte list \<Rightarrow> nat option" where
  "amix86_getUint64Le buf =
     map_option value_le (move_bytes [(0, 0), (1, 1), (2, 2), (3, 3), (4, 4), (5, 5), (6, 6), (7, 7)] buf (bytes_le 8 0))"

section \<open>The contracts\<close>

definition mirror :: "nat \<Rightarrow> (nat \<times> nat) list \<Rightarrow> (nat \<times> nat) list" where
  "mirror N ms = map (\<lambda>(d, s). (d, N - 1 - s)) ms"

lemma move_bytes_rev:
  assumes "list_all (\<lambda>(d, s). s < length src) ms"
  shows "move_bytes ms (rev src) dst = move_bytes (mirror (length src) ms) src dst"
  using assms by (induction ms arbitrary: dst) (auto simp: mirror_def rev_nth)

lemma wire_setterI:
  assumes "\<And>buf v. put buf v = move_bytes ps (bytes_le N v) buf"
    and "n \<le> N" and "moves_ok n N ps" and "wire_order ord n ps"
  shows "wire_setter ord n put"
proof
  fix buf :: "byte list" and v assume l: "n \<le> length buf"
  then show "put buf v = Some (wire ord n v @ drop n buf)"
    unfolding assms(1) using assms(2-4) by (intro put_fieldI) (simp_all add: wire_order_def)
qed

lemma wire_setter_beI:
  assumes "\<And>buf v. put buf v = move_bytes ps (bytes_be N v) buf"
    and "n \<le> N" and "list_all (\<lambda>(d, s). s < N) ps"
    and "moves_ok n N (mirror N ps)" and "wire_order ord n (mirror N ps)"
  shows "wire_setter ord n put"
proof (rule wire_setterI)
  show "put buf v = move_bytes (mirror N ps) (bytes_le N v) buf" for buf v
    using move_bytes_rev [of "bytes_le N v" ps buf] assms(1, 3) by (simp add: bytes_be_def)
qed (use assms in simp_all)

definition other_order :: "byte_order \<Rightarrow> byte_order" where
  "other_order ord = (case ord of LittleEndian \<Rightarrow> BigEndian | BigEndian \<Rightarrow> LittleEndian)"

lemma get_field_beI:
  assumes "moves_ok n (length buf) gs" and "wire_order (other_order ord) n gs" and "n \<le> length buf"
  shows "map_option value_be (move_bytes gs buf (bytes_be n 0)) = Some (unwire ord (take n buf))"
proof -
  have "move_bytes gs buf (bytes_be n 0) = move_bytes gs buf (bytes_le n 0)"
    by (simp add: bytes_be_def bytes_le_zero)
  moreover obtain r where r: "move_bytes gs buf (bytes_le n 0) = Some r" "length r = n"
    using move_bytes_field [OF assms(1), of "bytes_le n 0"] by simp
  moreover have "map (\<lambda>i. buf ! the (map_of gs i)) [0..<n] = (case other_order ord of LittleEndian \<Rightarrow> take n buf | BigEndian \<Rightarrow> rev (take n buf))"
  proof -
    have "map (\<lambda>i. buf ! the (map_of gs i)) [0..<n] = map (\<lambda>j. buf ! j) (map (\<lambda>i. the (map_of gs i)) [0..<n])" by simp
    then show ?thesis using assms(2) unfolding wire_order_def take_map_upt [OF assms(3)]
      by (simp add: rev_map split: byte_order.split)
  qed
  ultimately show ?thesis using move_bytes_field [OF assms(1), of "bytes_le n 0"]
    by (cases ord) (auto simp: value_be_def unwire_def other_order_def)
qed

lemma wire_codec_beI:
  assumes "\<And>buf v. put buf v = move_bytes ps (bytes_be n v) buf"
    and "\<And>buf. get buf = map_option value_be (move_bytes gs buf (bytes_be n 0))"
    and "list_all (\<lambda>(d, s). s < n) ps" and "moves_ok n n (mirror n ps)" and "wire_order ord n (mirror n ps)"
    and gs: "moves_ok n n gs" and "wire_order (other_order ord) n gs"
  shows "wire_codec ord n put get"
proof (intro wire_codec.intro wire_setter_beI [OF assms(1)] wire_codec_axioms.intro)
  fix buf :: "byte list" assume l: "n \<le> length buf"
  have "moves_ok n (length buf) gs" using gs l by (auto simp: moves_ok_def list_all_iff)
  then show "get buf = Some (unwire ord (take n buf))"
    unfolding assms(2) using assms(7) l by (rule get_field_beI)
qed (use assms in simp_all)

lemmas host_simps = wire_simps mirror_def other_order_def

interpretation be_u16be: wire_codec BigEndian 2 amibe_setUint16Be amibe_getUint16Be
  by (rule wire_codec_beI [OF amibe_setUint16Be_def amibe_getUint16Be_def]) (simp_all add: host_simps)

interpretation be_u16le: wire_codec LittleEndian 2 amibe_setUint16Le amibe_getUint16Le
  by (rule wire_codec_beI [OF amibe_setUint16Le_def amibe_getUint16Le_def]) (simp_all add: host_simps)

interpretation be_u24be: wire_setter BigEndian 3 amibe_setUint24Be
  by (rule wire_setter_beI [OF amibe_setUint24Be_def]) (simp_all add: host_simps)

interpretation be_u24le: wire_setter LittleEndian 3 amibe_setUint24Le
  by (rule wire_setter_beI [OF amibe_setUint24Le_def]) (simp_all add: host_simps)

interpretation be_u32be: wire_codec BigEndian 4 amibe_setUint32Be amibe_getUint32Be
  by (rule wire_codec_beI [OF amibe_setUint32Be_def amibe_getUint32Be_def]) (simp_all add: host_simps)

interpretation be_u32le: wire_codec LittleEndian 4 amibe_setUint32Le amibe_getUint32Le
  by (rule wire_codec_beI [OF amibe_setUint32Le_def amibe_getUint32Le_def]) (simp_all add: host_simps)

interpretation be_u40be: wire_setter BigEndian 5 amibe_setUint40Be
  by (rule wire_setter_beI [OF amibe_setUint40Be_def]) (simp_all add: host_simps)

interpretation be_u40le: wire_setter LittleEndian 5 amibe_setUint40Le
  by (rule wire_setter_beI [OF amibe_setUint40Le_def]) (simp_all add: host_simps)

interpretation be_u48be: wire_setter BigEndian 6 amibe_setUint48Be
  by (rule wire_setter_beI [OF amibe_setUint48Be_def]) (simp_all add: host_simps)

interpretation be_u48le: wire_setter LittleEndian 6 amibe_setUint48Le
  by (rule wire_setter_beI [OF amibe_setUint48Le_def]) (simp_all add: host_simps)

interpretation be_u56be: wire_setter BigEndian 7 amibe_setUint56Be
  by (rule wire_setter_beI [OF amibe_setUint56Be_def]) (simp_all add: host_simps)

interpretation be_u56le: wire_setter LittleEndian 7 amibe_setUint56Le
  by (rule wire_setter_beI [OF amibe_setUint56Le_def]) (simp_all add: host_simps)

interpretation be_u64be: wire_codec BigEndian 8 amibe_setUint64Be amibe_getUint64Be
  by (rule wire_codec_beI [OF amibe_setUint64Be_def amibe_getUint64Be_def]) (simp_all add: host_simps)

interpretation be_u64le: wire_codec LittleEndian 8 amibe_setUint64Le amibe_getUint64Le
  by (rule wire_codec_beI [OF amibe_setUint64Le_def amibe_getUint64Le_def]) (simp_all add: host_simps)

interpretation x86_u16be: wire_codec BigEndian 2 amix86_setUint16Be amix86_getUint16Be
  by (rule wire_codecI [OF amix86_setUint16Be_def amix86_getUint16Be_def]) (simp_all add: wire_simps)

interpretation x86_u16le: wire_codec LittleEndian 2 amix86_setUint16Le amix86_getUint16Le
  by (rule wire_codecI [OF amix86_setUint16Le_def amix86_getUint16Le_def]) (simp_all add: wire_simps)

interpretation x86_u24be: wire_codec BigEndian 3 amix86_setUint24Be amix86_getUint24Be
  by (rule wire_codecI [OF amix86_setUint24Be_def amix86_getUint24Be_def]) (simp_all add: wire_simps)

interpretation x86_u24le: wire_setter LittleEndian 3 amix86_setUint24Le
  by (rule wire_setterI [OF amix86_setUint24Le_def]) (simp_all add: wire_simps)

interpretation x86_u32be: wire_codec BigEndian 4 amix86_setUint32Be amix86_getUint32Be
  by (rule wire_codecI [OF amix86_setUint32Be_def amix86_getUint32Be_def]) (simp_all add: wire_simps)

interpretation x86_u32le: wire_codec LittleEndian 4 amix86_setUint32Le amix86_getUint32Le
  by (rule wire_codecI [OF amix86_setUint32Le_def amix86_getUint32Le_def]) (simp_all add: wire_simps)

interpretation x86_u40be: wire_codec BigEndian 5 amix86_setUint40Be amix86_getUint40Be
  by (rule wire_codecI [OF amix86_setUint40Be_def amix86_getUint40Be_def]) (simp_all add: wire_simps)

interpretation x86_u40le: wire_setter LittleEndian 5 amix86_setUint40Le
  by (rule wire_setterI [OF amix86_setUint40Le_def]) (simp_all add: wire_simps)

interpretation x86_u48be: wire_codec BigEndian 6 amix86_setUint48Be amix86_getUint48Be
  by (rule wire_codecI [OF amix86_setUint48Be_def amix86_getUint48Be_def]) (simp_all add: wire_simps)

interpretation x86_u48le: wire_setter LittleEndian 6 amix86_setUint48Le
  by (rule wire_setterI [OF amix86_setUint48Le_def]) (simp_all add: wire_simps)

interpretation x86_u56be: wire_codec BigEndian 7 amix86_setUint56Be amix86_getUint56Be
  by (rule wire_codecI [OF amix86_setUint56Be_def amix86_getUint56Be_def]) (simp_all add: wire_simps)

interpretation x86_u56le: wire_setter LittleEndian 7 amix86_setUint56Le
  by (rule wire_setterI [OF amix86_setUint56Le_def]) (simp_all add: wire_simps)

interpretation x86_u64be: wire_codec BigEndian 8 amix86_setUint64Be amix86_getUint64Be
  by (rule wire_codecI [OF amix86_setUint64Be_def amix86_getUint64Be_def]) (simp_all add: wire_simps)

interpretation x86_u64le: wire_codec LittleEndian 8 amix86_setUint64Le amix86_getUint64Le
  by (rule wire_codecI [OF amix86_setUint64Le_def amix86_getUint64Le_def]) (simp_all add: wire_simps)

section \<open>Properties\<close>

definition ami_codecs ::
  "(byte_order \<times> nat \<times> (byte list \<Rightarrow> nat \<Rightarrow> byte list option) \<times> (byte list \<Rightarrow> nat option)) list" where
  "ami_codecs = [
     (BigEndian, 2, ami_setUint16Be, ami_getUint16Be),
     (LittleEndian, 2, ami_setUint16Le, ami_getUint16Le),
     (BigEndian, 3, ami_setUint24Be, ami_getUint24Be),
     (LittleEndian, 3, ami_setUint24Le, ami_getUint24Le),
     (BigEndian, 4, ami_setUint32Be, ami_getUint32Be),
     (LittleEndian, 4, ami_setUint32Le, ami_getUint32Le),
     (BigEndian, 5, ami_setUint40Be, ami_getUint40Be),
     (LittleEndian, 5, ami_setUint40Le, ami_getUint40Le),
     (BigEndian, 6, ami_setUint48Be, ami_getUint48Be),
     (LittleEndian, 6, ami_setUint48Le, ami_getUint48Le),
     (BigEndian, 7, ami_setUint56Be, ami_getUint56Be),
     (LittleEndian, 7, ami_setUint56Le, ami_getUint56Le),
     (BigEndian, 8, ami_setUint64Be, ami_getUint64Be),
     (LittleEndian, 8, ami_setUint64Le, ami_getUint64Le),
     (BigEndian, 2, amibe_setUint16Be, amibe_getUint16Be),
     (LittleEndian, 2, amibe_setUint16Le, amibe_getUint16Le),
     (BigEndian, 4, amibe_setUint32Be, amibe_getUint32Be),
     (LittleEndian, 4, amibe_setUint32Le, amibe_getUint32Le),
     (BigEndian, 8, amibe_setUint64Be, amibe_getUint64Be),
     (LittleEndian, 8, amibe_setUint64Le, amibe_getUint64Le),
     (BigEndian, 2, amix86_setUint16Be, amix86_getUint16Be),
     (LittleEndian, 2, amix86_setUint16Le, amix86_getUint16Le),
     (BigEndian, 3, amix86_setUint24Be, amix86_getUint24Be),
     (BigEndian, 4, amix86_setUint32Be, amix86_getUint32Be),
     (LittleEndian, 4, amix86_setUint32Le, amix86_getUint32Le),
     (BigEndian, 5, amix86_setUint40Be, amix86_getUint40Be),
     (BigEndian, 6, amix86_setUint48Be, amix86_getUint48Be),
     (BigEndian, 7, amix86_setUint56Be, amix86_getUint56Be),
     (BigEndian, 8, amix86_setUint64Be, amix86_getUint64Be),
     (LittleEndian, 8, amix86_setUint64Le, amix86_getUint64Le)]"

definition ami_setters ::
  "(nat \<times> (byte list \<Rightarrow> nat \<Rightarrow> byte list option) \<times> (byte list \<Rightarrow> nat \<Rightarrow> byte list option) \<times>
    (byte list \<Rightarrow> nat \<Rightarrow> byte list option)) list" where
  "ami_setters = [
     (2, ami_setUint16Be, amibe_setUint16Be, amix86_setUint16Be),
     (2, ami_setUint16Le, amibe_setUint16Le, amix86_setUint16Le),
     (3, ami_setUint24Be, amibe_setUint24Be, amix86_setUint24Be),
     (3, ami_setUint24Le, amibe_setUint24Le, amix86_setUint24Le),
     (4, ami_setUint32Be, amibe_setUint32Be, amix86_setUint32Be),
     (4, ami_setUint32Le, amibe_setUint32Le, amix86_setUint32Le),
     (5, ami_setUint40Be, amibe_setUint40Be, amix86_setUint40Be),
     (5, ami_setUint40Le, amibe_setUint40Le, amix86_setUint40Le),
     (6, ami_setUint48Be, amibe_setUint48Be, amix86_setUint48Be),
     (6, ami_setUint48Le, amibe_setUint48Le, amix86_setUint48Le),
     (7, ami_setUint56Be, amibe_setUint56Be, amix86_setUint56Be),
     (7, ami_setUint56Le, amibe_setUint56Le, amix86_setUint56Le),
     (8, ami_setUint64Be, amibe_setUint64Be, amix86_setUint64Be),
     (8, ami_setUint64Le, amibe_setUint64Le, amix86_setUint64Le)]"

definition amibe_odd_getters :: "(byte_order \<times> nat \<times> nat \<times> (byte list \<Rightarrow> nat option)) list" where
  "amibe_odd_getters = [
     (BigEndian, 3, 4, amibe_getUint24Be),
     (LittleEndian, 3, 4, amibe_getUint24Le),
     (BigEndian, 5, 8, amibe_getUint40Be),
     (LittleEndian, 5, 8, amibe_getUint40Le),
     (BigEndian, 6, 8, amibe_getUint48Be),
     (LittleEndian, 6, 8, amibe_getUint48Le),
     (BigEndian, 7, 8, amibe_getUint56Be),
     (LittleEndian, 7, 8, amibe_getUint56Le)]"

definition amix86_odd_getters :: "(nat \<times> nat \<times> (byte list \<Rightarrow> (nat \<times> byte list) option)) list" where
  "amix86_odd_getters = [
     (3, 4, amix86_getUint24Le),
     (5, 8, amix86_getUint40Le),
     (6, 8, amix86_getUint48Le),
     (7, 8, amix86_getUint56Le)]"

lemmas ami_codec_axioms =
   u16be.wire_codec_axioms u16le.wire_codec_axioms u24be.wire_codec_axioms
   u24le.wire_codec_axioms u32be.wire_codec_axioms u32le.wire_codec_axioms
   u40be.wire_codec_axioms u40le.wire_codec_axioms u48be.wire_codec_axioms
   u48le.wire_codec_axioms u56be.wire_codec_axioms u56le.wire_codec_axioms
   u64be.wire_codec_axioms u64le.wire_codec_axioms be_u16be.wire_codec_axioms
   be_u16le.wire_codec_axioms be_u32be.wire_codec_axioms be_u32le.wire_codec_axioms
   be_u64be.wire_codec_axioms be_u64le.wire_codec_axioms x86_u16be.wire_codec_axioms
   x86_u16le.wire_codec_axioms x86_u24be.wire_codec_axioms x86_u32be.wire_codec_axioms
   x86_u32le.wire_codec_axioms x86_u40be.wire_codec_axioms x86_u48be.wire_codec_axioms
   x86_u56be.wire_codec_axioms x86_u64be.wire_codec_axioms x86_u64le.wire_codec_axioms

lemmas ami_setter_axioms =
   u16be.wire_setter_axioms be_u16be.wire_setter_axioms x86_u16be.wire_setter_axioms
   u16le.wire_setter_axioms be_u16le.wire_setter_axioms x86_u16le.wire_setter_axioms
   u24be.wire_setter_axioms be_u24be.wire_setter_axioms x86_u24be.wire_setter_axioms
   u24le.wire_setter_axioms be_u24le.wire_setter_axioms x86_u24le.wire_setter_axioms
   u32be.wire_setter_axioms be_u32be.wire_setter_axioms x86_u32be.wire_setter_axioms
   u32le.wire_setter_axioms be_u32le.wire_setter_axioms x86_u32le.wire_setter_axioms
   u40be.wire_setter_axioms be_u40be.wire_setter_axioms x86_u40be.wire_setter_axioms
   u40le.wire_setter_axioms be_u40le.wire_setter_axioms x86_u40le.wire_setter_axioms
   u48be.wire_setter_axioms be_u48be.wire_setter_axioms x86_u48be.wire_setter_axioms
   u48le.wire_setter_axioms be_u48le.wire_setter_axioms x86_u48le.wire_setter_axioms
   u56be.wire_setter_axioms be_u56be.wire_setter_axioms x86_u56be.wire_setter_axioms
   u56le.wire_setter_axioms be_u56le.wire_setter_axioms x86_u56le.wire_setter_axioms
   u64be.wire_setter_axioms be_u64be.wire_setter_axioms x86_u64be.wire_setter_axioms
   u64le.wire_setter_axioms be_u64le.wire_setter_axioms x86_u64le.wire_setter_axioms

lemma ami_codecs_ok: "(ord, n, put, get) \<in> set ami_codecs \<Longrightarrow> wire_codec ord n put get"
  unfolding ami_codecs_def by (auto intro: ami_codec_axioms)

lemma ami_setters_ok:
  assumes "(n, put, put_be, put_x) \<in> set ami_setters"
  shows "\<exists>ord. wire_setter ord n put \<and> wire_setter ord n put_be \<and> wire_setter ord n put_x"
  using assms unfolding ami_setters_def by (auto intro: ami_setter_axioms)

lemma move_bytes_out:
  "(d, s) \<in> set ms \<Longrightarrow> length src \<le> s \<Longrightarrow> move_bytes ms src dst = None"
  by (induction ms src dst rule: move_bytes.induct) auto

lemma move_bytes_shift:
  "k \<le> length src \<Longrightarrow>
     move_bytes (map (\<lambda>(d, s). (d, s + k)) ms) src dst = move_bytes ms (drop k src) dst"
  by (induction ms arbitrary: dst) (auto simp: add.commute)

lemma value_le_append: "value_le (xs @ ys) = value_le xs + 256 ^ length xs * value_le ys"
  by (induction xs) (simp_all add: algebra_simps)

lemma odd_getter_beI:
  assumes g: "get buf = map_option value_be (move_bytes (map (\<lambda>(d, s). (d, s + k)) gs) buf (bytes_be (n + k) 0))"
    and ok: "moves_ok n n gs" and ord: "wire_order (other_order ord) n gs" and n: "0 < n"
  shows "get buf = (if n + k \<le> length buf then Some (256 ^ k * unwire ord (take n (drop k buf))) else None)"
proof (cases "n + k \<le> length buf")
  case True
  let ?b = "drop k buf"
  have m: "moves_ok n (length ?b) gs" using ok True by (auto simp: moves_ok_def list_all_iff)
  have "map (\<lambda>i. ?b ! the (map_of gs i)) [0..<n] = map (\<lambda>j. ?b ! j) (map (\<lambda>i. the (map_of gs i)) [0..<n])" by simp
  then have r: "map (\<lambda>i. ?b ! the (map_of gs i)) [0..<n] =
      (case other_order ord of LittleEndian \<Rightarrow> take n ?b | BigEndian \<Rightarrow> rev (take n ?b))"
    using ord True unfolding wire_order_def by (simp add: take_map_upt rev_map split: byte_order.split)
  have "move_bytes (map (\<lambda>(d, s). (d, s + k)) gs) buf (bytes_be (n + k) 0) =
      Some (map (\<lambda>i. ?b ! the (map_of gs i)) [0..<n] @ drop n (bytes_be (n + k) 0))"
    using move_bytes_shift [of k buf gs "bytes_be (n + k) 0"] move_bytes_field [OF m, of "bytes_be (n + k) 0"] True
    by (simp add: bytes_be_def)
  also have "drop n (bytes_be (n + k) 0) = replicate k 0" by (simp add: bytes_be_def bytes_le_zero)
  finally have "get buf = Some (256 ^ k * value_be (map (\<lambda>i. ?b ! the (map_of gs i)) [0..<n]))"
    using g value_le_zeros [of "[]" k] by (simp add: value_be_def value_le_append)
  also have "value_be (map (\<lambda>i. ?b ! the (map_of gs i)) [0..<n]) = unwire ord (take n ?b)"
    unfolding r by (simp add: value_be_def unwire_def other_order_def split: byte_order.split)
  finally show ?thesis using True by simp
next
  case False
  have w: "map (\<lambda>i. the (map_of gs i)) [0..<n] = (case other_order ord of LittleEndian \<Rightarrow> [0..<n] | BigEndian \<Rightarrow> rev [0..<n])"
    using ord by (simp add: wire_order_def)
  have "n - 1 \<in> set (map (\<lambda>i. the (map_of gs i)) [0..<n])" using n unfolding w by (simp split: byte_order.split)
  then obtain i where i: "i < n" "the (map_of gs i) = n - 1" by auto
  moreover have "map_of gs i \<noteq> None" using i(1) ok by (auto simp: moves_ok_def list_all_iff map_of_eq_None_iff)
  ultimately have "(i, n - 1) \<in> set gs" by (auto dest: map_of_SomeD)
  then have "(i, n - 1 + k) \<in> set (map (\<lambda>(d, s). (d, s + k)) gs)" by force
  moreover have "length buf \<le> n - 1 + k" using False n by linarith
  ultimately show ?thesis using False g move_bytes_out by fastforce
qed

lemma bytes_le_add: "bytes_le (n + k) v = bytes_le n v @ bytes_le k (v div 256 ^ n)"
  by (induction n arbitrary: v) (simp_all add: div_mult2_eq)

lemma bytes_le_pad: "length bs = n \<Longrightarrow> bytes_le (n + k) (value_le bs) = bs @ replicate k 0"
  using bytes_value_le [of bs] value_le_less [of bs] by (simp add: bytes_le_add bytes_le_zero)

lemma mask_in_place_field:
  assumes "m = 256 ^ n - 1" and "n \<le> N"
  shows "mask_in_place N m buf = (if N \<le> length buf
     then Some (value_le (take n buf), take n buf @ replicate (N - n) 0 @ drop N buf) else None)"
proof (cases "N \<le> length buf")
  case True
  have "(256 :: nat) ^ n = 2 ^ (8 * n)" by (simp add: power_mult)
  then have m: "m = mask (8 * n)" using assms(1) by (simp add: mask_eq_exp_minus_1)
  have l: "length (take n buf) = n" using True assms(2) by simp
  have "value_le (take N buf) = value_le (take n buf @ drop n (take N buf))"
    using assms(2) by (metis append_take_drop_id min.absorb1 take_take)
  also have "\<dots> = value_le (take n buf) + 256 ^ n * value_le (drop n (take N buf))"
    using l by (simp add: value_le_append)
  finally have "value_le (take N buf) mod 256 ^ n = value_le (take n buf)"
    using value_le_less [of "take n buf"] l by simp
  then have "and (value_le (take N buf)) m = value_le (take n buf)"
    using m \<open>256 ^ n = 2 ^ (8 * n)\<close> by (simp add: take_bit_eq_mask [symmetric] take_bit_eq_mod)
  moreover have "bytes_le N (value_le (take n buf)) = take n buf @ replicate (N - n) 0"
    using bytes_le_pad [OF l, of "N - n"] assms(2) by simp
  ultimately show ?thesis using True by (simp add: mask_in_place_def Let_def)
qed (simp add: mask_in_place_def)

lemma amibe_odd_ok:
  assumes "(ord, n, N, get) \<in> set amibe_odd_getters"
  shows "get buf = (if N \<le> length buf then Some (256 ^ (N - n) * unwire ord (take n (drop (N - n) buf))) else None)"
proof -
  have be24: "amibe_getUint24Be buf = (if 3 + 1 \<le> length buf then Some (256 ^ 1 * unwire BigEndian (take 3 (drop 1 buf))) else None)"
    by (rule odd_getter_beI [where gs = "[(0, 0), (1, 1), (2, 2)]"])
      (simp_all del: move_bytes.simps add: amibe_getUint24Be_def host_simps numeral_eq_Suc)
  have be25: "amibe_getUint24Le buf = (if 3 + 1 \<le> length buf then Some (256 ^ 1 * unwire LittleEndian (take 3 (drop 1 buf))) else None)"
    by (rule odd_getter_beI [where gs = "[(0, 2), (1, 1), (2, 0)]"])
      (simp_all del: move_bytes.simps add: amibe_getUint24Le_def host_simps numeral_eq_Suc)
  have be40: "amibe_getUint40Be buf = (if 5 + 3 \<le> length buf then Some (256 ^ 3 * unwire BigEndian (take 5 (drop 3 buf))) else None)"
    by (rule odd_getter_beI [where gs = "[(0, 0), (1, 1), (2, 2), (3, 3), (4, 4)]"])
      (simp_all del: move_bytes.simps add: amibe_getUint40Be_def host_simps)
  have be41: "amibe_getUint40Le buf = (if 5 + 3 \<le> length buf then Some (256 ^ 3 * unwire LittleEndian (take 5 (drop 3 buf))) else None)"
    by (rule odd_getter_beI [where gs = "[(0, 4), (1, 3), (2, 2), (3, 1), (4, 0)]"])
      (simp_all del: move_bytes.simps add: amibe_getUint40Le_def host_simps)
  have be48: "amibe_getUint48Be buf = (if 6 + 2 \<le> length buf then Some (256 ^ 2 * unwire BigEndian (take 6 (drop 2 buf))) else None)"
    by (rule odd_getter_beI [where gs = "[(0, 0), (1, 1), (2, 2), (3, 3), (4, 4), (5, 5)]"])
      (simp_all del: move_bytes.simps add: amibe_getUint48Be_def host_simps numeral_eq_Suc)
  have be49: "amibe_getUint48Le buf = (if 6 + 2 \<le> length buf then Some (256 ^ 2 * unwire LittleEndian (take 6 (drop 2 buf))) else None)"
    by (rule odd_getter_beI [where gs = "[(0, 5), (1, 4), (2, 3), (3, 2), (4, 1), (5, 0)]"])
      (simp_all del: move_bytes.simps add: amibe_getUint48Le_def host_simps numeral_eq_Suc)
  have be56: "amibe_getUint56Be buf = (if 7 + 1 \<le> length buf then Some (256 ^ 1 * unwire BigEndian (take 7 (drop 1 buf))) else None)"
    by (rule odd_getter_beI [where gs = "[(0, 0), (1, 1), (2, 2), (3, 3), (4, 4), (5, 5), (6, 6)]"])
      (simp_all del: move_bytes.simps add: amibe_getUint56Be_def host_simps numeral_eq_Suc)
  have be57: "amibe_getUint56Le buf = (if 7 + 1 \<le> length buf then Some (256 ^ 1 * unwire LittleEndian (take 7 (drop 1 buf))) else None)"
    by (rule odd_getter_beI [where gs = "[(0, 6), (1, 5), (2, 4), (3, 3), (4, 2), (5, 1), (6, 0)]"])
      (simp_all del: move_bytes.simps add: amibe_getUint56Le_def host_simps numeral_eq_Suc)
  show ?thesis
    using assms unfolding amibe_odd_getters_def
    by (simp only: list.set insert_iff empty_iff prod.inject simp_thms)
      (elim disjE conjE; simp add: be24 be25 be40 be41 be48 be49 be56 be57)
qed

lemma amix86_odd_ok:
  assumes "(n, N, get) \<in> set amix86_odd_getters"
  shows "get buf = (if N \<le> length buf
     then Some (value_le (take n buf), take n buf @ replicate (N - n) 0 @ drop N buf) else None)"
proof -
  have m: "(0x00FFFFFF :: nat) = 256 ^ 3 - 1" "(0x000000FFFFFFFFFF :: nat) = 256 ^ 5 - 1"
    "(0x0000FFFFFFFFFFFF :: nat) = 256 ^ 6 - 1" "(0x00FFFFFFFFFFFFFF :: nat) = 256 ^ 7 - 1" by simp_all
  consider "n = 3" "N = 4" "get = amix86_getUint24Le" | "n = 5" "N = 8" "get = amix86_getUint40Le"
    | "n = 6" "N = 8" "get = amix86_getUint48Le" | "n = 7" "N = 8" "get = amix86_getUint56Le"
    using assms by (auto simp: amix86_odd_getters_def)
  then show ?thesis
  proof cases
    case 1
    then show ?thesis using mask_in_place_field [OF m(1), of 4 buf] by (simp add: amix86_getUint24Le_def)
  next
    case 2
    then show ?thesis using mask_in_place_field [OF m(2), of 8 buf] by (simp add: amix86_getUint40Le_def)
  next
    case 3
    then show ?thesis using mask_in_place_field [OF m(3), of 8 buf] by (simp add: amix86_getUint48Le_def)
  next
    case 4
    then show ?thesis using mask_in_place_field [OF m(4), of 8 buf] by (simp add: amix86_getUint56Le_def)
  qed
qed

text \<open>
  C14: Integers survive the frame. For each of the formats (16 to 64 bits, both byte orders) the
  getter returns what the setter of the same file wrote, reduced to the field's width, the bytes
  of the frame behind the field stay, and writing back a value that was read changes nothing;
  on the little endian host for all formats, on the big endian host for the widths of C types, on
  the x86 for all but the little endian fields of 24, 40, 48 and 56 bits.
\<close>

theorem ami_roundtrip:
  assumes "(ord, n, put, get) \<in> set ami_codecs" and "n \<le> length buf"
  shows "\<exists>buf' w. put buf v = Some buf' \<and> get buf' = Some (v mod 256 ^ n) \<and> drop n buf' = drop n buf \<and>
     get buf = Some w \<and> put buf w = Some buf"
proof -
  have c: "wire_codec ord n put get" using assms(1) by (rule ami_codecs_ok)
  from wire_codec.get_put [OF c assms(2)] obtain buf' where
    "put buf v = Some buf'" "get buf' = Some (v mod 256 ^ n)" "drop n buf' = drop n buf" by blast
  moreover obtain w where "get buf = Some w" using wire_codec.get_wire [OF c assms(2)] by blast
  ultimately show ?thesis using wire_codec.put_get(1) [OF c assms(2)] by blast
qed

theorem ami_roundtrip_witness:
  "\<exists>buf' w. amibe_setUint32Le [1, 2, 3, 4, 5] 0x11223344 = Some buf' \<and>
     amibe_getUint32Le buf' = Some 0x11223344 \<and> drop 4 buf' = [5] \<and>
     amibe_getUint32Le [1, 2, 3, 4, 5] = Some w \<and> amibe_setUint32Le [1, 2, 3, 4, 5] w = Some [1, 2, 3, 4, 5]"
  using ami_roundtrip [where n = 4 and put = amibe_setUint32Le and get = amibe_getUint32Le
    and ord = LittleEndian and buf = "[1, 2, 3, 4, 5]" and v = "0x11223344"]
  by (simp add: ami_codecs_def)

text \<open>
  C35: The frames do not depend on the host. For each of the fourteen formats the three
  implementations of the setter write the same bytes.
\<close>

theorem ami_hosts_agree:
  assumes "(n, put, put_be, put_x) \<in> set ami_setters" and "n \<le> length buf"
  shows "put_be buf v = put buf v \<and> put_x buf v = put buf v"
proof -
  from ami_setters_ok [OF assms(1)] obtain ord where
    w: "wire_setter ord n put" "wire_setter ord n put_be" "wire_setter ord n put_x" by blast
  note p = wire_setter.put_wire [OF w(1) assms(2)]
  show ?thesis
    by (simp only: p wire_setter.put_wire [OF w(2) assms(2)] wire_setter.put_wire [OF w(3) assms(2)])
qed

theorem ami_hosts_agree_witness:
  "amibe_setUint24Be [0, 0, 0, 9] 0x112233 = ami_setUint24Be [0, 0, 0, 9] 0x112233 \<and>
   amix86_setUint24Be [0, 0, 0, 9] 0x112233 = ami_setUint24Be [0, 0, 0, 9] 0x112233"
  using ami_hosts_agree [where n = 3 and put = ami_setUint24Be and put_be = amibe_setUint24Be
    and put_x = amix86_setUint24Be and buf = "[0, 0, 0, 9]" and v = "0x112233"]
  by (simp add: ami_setters_def)

text \<open>
  C36: The getters of 24, 40, 48 and 56 bits do not read the field on two of the hosts. On the big
  endian host they read the \<open>n\<close> bytes that start \<open>N - n\<close> bytes behind it (where \<open>N\<close> is the size of the C
  integer), scaled, and so leave a buffer of the field's length; on the x86 the little endian ones
  return the field but overwrite the \<open>N - n\<close> bytes behind it with zeros.
\<close>

theorem ami_odd_getters:
  assumes "(ord, n, N, get) \<in> set amibe_odd_getters" and "(m, M, getx) \<in> set amix86_odd_getters"
  shows "get buf = (if N \<le> length buf
       then Some (256 ^ (N - n) * unwire ord (take n (drop (N - n) buf))) else None) \<and>
     getx buf = (if M \<le> length buf
       then Some (value_le (take m buf), take m buf @ replicate (M - m) 0 @ drop M buf) else None)"
  using amibe_odd_ok [OF assms(1), of buf] amix86_odd_ok [OF assms(2), of buf] by blast

theorem ami_odd_getters_witness:
  "amibe_getUint24Be [0x11, 0x22, 0x33] = None \<and>
   amibe_getUint24Be [0x11, 0x22, 0x33, 0x44] = Some 0x22334400 \<and>
   amix86_getUint24Le [0x11, 0x22, 0x33, 0x44] = Some (0x332211, [0x11, 0x22, 0x33, 0])"
proof -
  have a: "(BigEndian, 3, 4, amibe_getUint24Be) \<in> set amibe_odd_getters"
    and b: "(3, 4, amix86_getUint24Le) \<in> set amix86_odd_getters"
    by (simp_all add: amibe_odd_getters_def amix86_odd_getters_def)
  from ami_odd_getters [OF a b, of "[0x11, 0x22, 0x33]"] ami_odd_getters [OF a b, of "[0x11, 0x22, 0x33, 0x44]"]
  show ?thesis by (simp add: unwire_def)
qed

end
