(* ===== verification/Pdo_TripleBuf.thy ===== *)
theory Pdo_TripleBuf
  imports Oplk_Prelude Oplk_Types
begin

text \<open>
  The exchange of process data between the kernel and the user layer in shared memory
  (\<^verbatim>\<open>src/stack/src/kernel/pdo/pdokcal-triplebufshm.c\<close> and
  \<^verbatim>\<open>src/stack/src/user/pdo/pdoucal-triplebufshm.c\<close>).

  Every PDO channel has its own slot in each of three buffers. The writer of the channel owns one
  of them, the reader another, and the third one is passed between them by an atomic exchange of
  indexes. The kernel writes the received PDOs (direction \<open>Rx\<close>) and reads those to transmit (\<open>Tx\<close>);
  for the user layer it is the other way round.
\<close>

section \<open>The shared memory region\<close>

record tPdoBufferInfo =
  channelOffset :: nat
  readBuf :: nat
  writeBuf :: nat
  cleanBuf :: nat
  newData :: bool

record tPdoMemRegion =
  pdoMemSize :: nat
  rxChannelInfo :: "tPdoBufferInfo list"
  txChannelInfo :: "tPdoBufferInfo list"
  pTripleBuf :: "byte list list"

datatype pdo_dir = Rx | Tx

definition infos :: "pdo_dir \<Rightarrow> tPdoMemRegion \<Rightarrow> tPdoBufferInfo list" where
  "infos d m = (case d of Rx \<Rightarrow> rxChannelInfo m | Tx \<Rightarrow> txChannelInfo m)"

definition set_info :: "pdo_dir \<Rightarrow> nat \<Rightarrow> tPdoBufferInfo \<Rightarrow> tPdoMemRegion \<Rightarrow> tPdoMemRegion" where
  "set_info d ch i m =
     (case d of
        Rx \<Rightarrow> m\<lparr>rxChannelInfo := (rxChannelInfo m)[ch := i]\<rparr>
      | Tx \<Rightarrow> m\<lparr>txChannelInfo := (txChannelInfo m)[ch := i]\<rparr>)"

text \<open>The two loops of \<^verbatim>\<open>setupPdoMemInfo\<close>; they return the next free offset.\<close>

fun setup_channels :: "nat \<Rightarrow> nat list \<Rightarrow> tPdoBufferInfo list \<times> nat" where
  "setup_channels offset [] = ([], offset)"
| "setup_channels offset (pdoSize # sizes) =
     (let (is, next) = setup_channels (offset + pdoSize) sizes
      in (\<lparr>channelOffset = offset, readBuf = 0, writeBuf = 1, cleanBuf = 2, newData = False\<rparr> # is, next))"

definition setupPdoMemInfo :: "nat list \<Rightarrow> nat list \<Rightarrow> tPdoMemRegion \<Rightarrow> tPdoMemRegion" where
  "setupPdoMemInfo rxSizes txSizes m =
     (let (rx, offset) = setup_channels 0 rxSizes;
          (tx, offset) = setup_channels offset txSizes
      in m\<lparr>rxChannelInfo := rx, txChannelInfo := tx, pdoMemSize := offset\<rparr>)"

text \<open>
  \<open>alloc\<close> says whether the platform provides the memory. The channels are given by their sizes.
\<close>

definition pdokcal_initPdoMem ::
  "bool \<Rightarrow> nat list \<Rightarrow> nat list \<Rightarrow> nat \<Rightarrow> nat \<Rightarrow> tOplkError \<times> tPdoMemRegion option" where
  "pdokcal_initPdoMem alloc rxSizes txSizes rxPdoMemSize txPdoMemSize =
     (let pdoMemSize = txPdoMemSize + rxPdoMemSize
      in if \<not> alloc then (kErrorNoResource, None)
      else
        (kErrorOk,
         Some (setupPdoMemInfo rxSizes txSizes
           \<lparr>pdoMemSize = 0, rxChannelInfo = [], txChannelInfo = [],
            pTripleBuf = replicate 3 (replicate pdoMemSize 0)\<rparr>)))"

section \<open>Operations\<close>

text \<open>
  The steps that the functions of both layers are made of: storing bytes in the slot of the writer,
  the exchange of the writer, the exchange of the reader and the flag. The exchange sets
  \<^verbatim>\<open>cleanBuf\<close> and returns its old value in one atomic operation.
\<close>

definition store :: "pdo_dir \<Rightarrow> nat \<Rightarrow> nat \<Rightarrow> byte list \<Rightarrow> tPdoMemRegion \<Rightarrow> tPdoMemRegion option" where
  "store d ch pos bs m =
     (if ch < length (infos d m) \<and> writeBuf (infos d m ! ch) < length (pTripleBuf m) then
        let i = infos d m ! ch
        in map_option (\<lambda>b. m\<lparr>pTripleBuf := (pTripleBuf m)[writeBuf i := b]\<rparr>)
             (mem_write (pTripleBuf m ! writeBuf i) (channelOffset i + pos) bs)
      else None)"

definition exchangeWrite :: "pdo_dir \<Rightarrow> nat \<Rightarrow> tPdoMemRegion \<Rightarrow> tPdoMemRegion option" where
  "exchangeWrite d ch m =
     (if ch < length (infos d m) then
        let i = infos d m ! ch;
            temp = writeBuf i
        in Some (set_info d ch (i\<lparr>writeBuf := cleanBuf i, cleanBuf := temp\<rparr>) m)
      else None)"

definition exchangeRead :: "pdo_dir \<Rightarrow> nat \<Rightarrow> tPdoMemRegion \<Rightarrow> tPdoMemRegion option" where
  "exchangeRead d ch m =
     (if ch < length (infos d m) then
        let i = infos d m ! ch;
            temp = readBuf i
        in Some (set_info d ch (i\<lparr>readBuf := cleanBuf i, cleanBuf := temp\<rparr>) m)
      else None)"

definition setNewData :: "pdo_dir \<Rightarrow> nat \<Rightarrow> bool \<Rightarrow> tPdoMemRegion \<Rightarrow> tPdoMemRegion option" where
  "setNewData d ch b m =
     (if ch < length (infos d m) then Some (set_info d ch ((infos d m ! ch)\<lparr>newData := b\<rparr>) m) else None)"

definition load :: "pdo_dir \<Rightarrow> nat \<Rightarrow> nat \<Rightarrow> tPdoMemRegion \<Rightarrow> byte list option" where
  "load d ch n m =
     (if ch < length (infos d m) \<and> readBuf (infos d m ! ch) < length (pTripleBuf m) then
        let i = infos d m ! ch in mem_read (pTripleBuf m ! readBuf i) (channelOffset i) n
      else None)"

definition fetchNewData :: "pdo_dir \<Rightarrow> nat \<Rightarrow> tPdoMemRegion \<Rightarrow> tPdoMemRegion option" where
  "fetchNewData d ch m =
     (if ch < length (infos d m) then
        if newData (infos d m ! ch)
        then Option.bind (exchangeRead d ch m) (setNewData d ch False)
        else Some m
      else None)"

definition pdokcal_writeRxPdo :: "nat \<Rightarrow> byte list \<Rightarrow> tPdoMemRegion \<Rightarrow> tPdoMemRegion option" where
  "pdokcal_writeRxPdo channelId payload m =
     Option.bind (store Rx channelId 0 payload m)
       (\<lambda>m. Option.bind (exchangeWrite Rx channelId m) (setNewData Rx channelId True))"

definition pdokcal_readTxPdo :: "nat \<Rightarrow> nat \<Rightarrow> tPdoMemRegion \<Rightarrow> (byte list \<times> tPdoMemRegion) option" where
  "pdokcal_readTxPdo channelId pdoSize m =
     Option.bind (fetchNewData Tx channelId m)
       (\<lambda>m. map_option (\<lambda>bs. (bs, m)) (load Tx channelId pdoSize m))"

text \<open>
  The user layer hands out addresses: the buffer and the offset in it. The PDO module writes and
  reads the process variables there.
\<close>

definition pdoucal_getTxPdoAdrs :: "nat \<Rightarrow> tPdoMemRegion \<Rightarrow> (nat \<times> nat) option" where
  "pdoucal_getTxPdoAdrs channelId m =
     (if channelId < length (txChannelInfo m) then
        let i = txChannelInfo m ! channelId in Some (writeBuf i, channelOffset i)
      else None)"

definition pdoucal_setTxPdo :: "nat \<Rightarrow> tPdoMemRegion \<Rightarrow> tPdoMemRegion option" where
  "pdoucal_setTxPdo channelId m =
     Option.bind (exchangeWrite Tx channelId m) (setNewData Tx channelId True)"

definition pdoucal_getRxPdo :: "nat \<Rightarrow> tPdoMemRegion \<Rightarrow> ((nat \<times> nat) \<times> tPdoMemRegion) option" where
  "pdoucal_getRxPdo channelId m =
     map_option (\<lambda>m. ((readBuf (rxChannelInfo m ! channelId), channelOffset (rxChannelInfo m ! channelId)), m))
       (fetchNewData Rx channelId m)"

text \<open>Access through such an address.\<close>

definition write_at :: "nat \<times> nat \<Rightarrow> byte list \<Rightarrow> tPdoMemRegion \<Rightarrow> tPdoMemRegion option" where
  "write_at a bs m =
     (if fst a < length (pTripleBuf m)
      then map_option (\<lambda>b. m\<lparr>pTripleBuf := (pTripleBuf m)[fst a := b]\<rparr>)
        (mem_write (pTripleBuf m ! fst a) (snd a) bs)
      else None)"

definition read_at :: "nat \<times> nat \<Rightarrow> nat \<Rightarrow> tPdoMemRegion \<Rightarrow> byte list option" where
  "read_at a n m =
     (if fst a < length (pTripleBuf m) then mem_read (pTripleBuf m ! fst a) (snd a) n else None)"

section \<open>Layout\<close>

text \<open>The sizes of the channels, of both directions, and where the slots are.\<close>

type_synonym pdo_conf = "nat list \<times> nat list"

definition chan_sizes :: "pdo_conf \<Rightarrow> pdo_dir \<Rightarrow> nat list" where
  "chan_sizes c d = (case d of Rx \<Rightarrow> fst c | Tx \<Rightarrow> snd c)"

definition chan_off :: "pdo_conf \<Rightarrow> pdo_dir \<Rightarrow> nat \<Rightarrow> nat" where
  "chan_off c d ch = (case d of Rx \<Rightarrow> sum_list (take ch (fst c))
     | Tx \<Rightarrow> sum_list (fst c) + sum_list (take ch (snd c)))"

definition total_size :: "pdo_conf \<Rightarrow> nat" where
  "total_size c = sum_list (fst c) + sum_list (snd c)"

lemma sum_take_mono: "i \<le> j \<Longrightarrow> sum_list (take i xs) \<le> sum_list (take j (xs :: nat list))"
  by (metis le_add1 le_add_diff_inverse sum_list.append take_add)

lemma sum_take_next:
  fixes xs :: "nat list"
  assumes "i < j" and "i < length xs"
  shows "sum_list (take i xs) + xs ! i \<le> sum_list (take j xs)"
  using sum_take_mono [of "Suc i" j xs] assms by (simp add: take_Suc_conv_app_nth)

lemma chan_inside:
  assumes "ch < length (chan_sizes c d)"
  shows "chan_off c d ch + chan_sizes c d ! ch \<le> total_size c"
  using assms sum_take_next [of ch "length (chan_sizes c d)" "chan_sizes c d"]
  by (cases d) (simp_all add: chan_off_def chan_sizes_def total_size_def)

lemma chan_disjoint:
  assumes "ch < length (chan_sizes c d)" and "ch' < length (chan_sizes c d')" and "(d, ch) \<noteq> (d', ch')"
  shows "chan_off c d ch + chan_sizes c d ! ch \<le> chan_off c d' ch' \<or>
     chan_off c d' ch' + chan_sizes c d' ! ch' \<le> chan_off c d ch"
proof (cases "d = d'")
  case True
  with assms have "ch < ch' \<or> ch' < ch" by auto
  with assms True show ?thesis
    using sum_take_next [of ch ch' "chan_sizes c d"] sum_take_next [of ch' ch "chan_sizes c d"]
    by (cases d') (auto simp: chan_off_def chan_sizes_def)
next
  case False
  with assms show ?thesis
    using sum_take_next [of ch "length (fst c)" "fst c"] sum_take_next [of ch' "length (fst c)" "fst c"]
    by (cases d; cases d') (auto simp: chan_off_def chan_sizes_def)
qed

lemma setup_channels_spec:
  "setup_channels off sizes =
     (map (\<lambda>ch. \<lparr>channelOffset = off + sum_list (take ch sizes), readBuf = 0, writeBuf = 1,
        cleanBuf = 2, newData = False\<rparr>) [0..<length sizes], off + sum_list sizes)"
proof (induction off sizes rule: setup_channels.induct)
  case (2 off n sizes)
  have "[0..<length (n # sizes)] = 0 # map Suc [0..<length sizes]"
    by (simp only: upt_conv_Cons map_Suc_upt list.size zero_less_Suc add_Suc_right) simp
  with 2 show ?case by (simp add: comp_def add.assoc)
qed simp

section \<open>The invariant\<close>

definition perm3 :: "tPdoBufferInfo \<Rightarrow> bool" where
  "perm3 i \<longleftrightarrow> {readBuf i, writeBuf i, cleanBuf i} = {0, 1, 2}"

lemma perm3D:
  assumes "perm3 i"
  shows "readBuf i < 3" "writeBuf i < 3" "cleanBuf i < 3"
    "readBuf i \<noteq> writeBuf i" "readBuf i \<noteq> cleanBuf i" "writeBuf i \<noteq> cleanBuf i"
proof -
  have s: "{readBuf i, writeBuf i, cleanBuf i} = {0, 1, 2}" using assms by (simp add: perm3_def)
  then have "readBuf i \<in> {0, 1, 2}" "writeBuf i \<in> {0, 1, 2}" "cleanBuf i \<in> {0, 1, 2}" by blast+
  then show "readBuf i < 3" "writeBuf i < 3" "cleanBuf i < 3" by auto
  have "card {readBuf i, writeBuf i, cleanBuf i} = 3" unfolding s by simp
  then show "readBuf i \<noteq> writeBuf i" "readBuf i \<noteq> cleanBuf i" "writeBuf i \<noteq> cleanBuf i"
    by (auto simp: card_insert_if split: if_splits)
qed

lemma perm3_exchange [simp]:
  "perm3 (i\<lparr>writeBuf := cleanBuf i, cleanBuf := writeBuf i\<rparr>) = perm3 i"
  "perm3 (i\<lparr>readBuf := cleanBuf i, cleanBuf := readBuf i\<rparr>) = perm3 i"
  "perm3 (i\<lparr>newData := b\<rparr>) = perm3 i"
  by (simp_all add: perm3_def insert_commute)

definition region_ok :: "pdo_conf \<Rightarrow> tPdoMemRegion \<Rightarrow> bool" where
  "region_ok c m \<longleftrightarrow>
     length (pTripleBuf m) = 3 \<and> (\<forall>b < 3. total_size c \<le> length (pTripleBuf m ! b)) \<and>
     (\<forall>d. length (infos d m) = length (chan_sizes c d)) \<and>
     (\<forall>d. \<forall>ch < length (chan_sizes c d).
        channelOffset (infos d m ! ch) = chan_off c d ch \<and> perm3 (infos d m ! ch))"

definition slot :: "pdo_conf \<Rightarrow> pdo_dir \<Rightarrow> nat \<Rightarrow> nat \<Rightarrow> tPdoMemRegion \<Rightarrow> byte list" where
  "slot c d ch b m = take (chan_sizes c d ! ch) (drop (chan_off c d ch) (pTripleBuf m ! b))"

lemma infos_set_info [simp]:
  "infos d' (set_info d ch i m) = (if d' = d then (infos d m)[ch := i] else infos d' m)"
  "pTripleBuf (set_info d ch i m) = pTripleBuf m"
  by (cases d; cases d'; simp add: set_info_def infos_def)+

lemma infos_buf [simp]: "infos d (m\<lparr>pTripleBuf := bs\<rparr>) = infos d m"
  by (cases d) (simp_all add: infos_def)

lemma slot_set_info [simp]: "slot c d ch b (set_info d' ch' i m) = slot c d ch b m"
  by (simp add: slot_def)

lemma length_slot:
  assumes "region_ok c m" and "ch < length (chan_sizes c d)" and "b < 3"
  shows "length (slot c d ch b m) = chan_sizes c d ! ch"
proof -
  have "chan_off c d ch + chan_sizes c d ! ch \<le> length (pTripleBuf m ! b)"
    using assms(1, 3) chan_inside [OF assms(2)] by (fastforce simp: region_ok_def)
  then show ?thesis by (simp add: slot_def)
qed

text \<open>An update of the indexes of one channel that keeps them a permutation.\<close>

lemma region_ok_set_info:
  assumes "region_ok c m" and "perm3 i" and "channelOffset i = channelOffset (infos d m ! ch)"
  shows "region_ok c (set_info d ch i m)"
proof -
  have "channelOffset ((infos d m)[ch := i] ! k) = channelOffset (infos d m ! k) \<and>
      (perm3 (infos d m ! k) \<longrightarrow> perm3 ((infos d m)[ch := i] ! k))" if "k < length (infos d m)" for k
    using that assms(2, 3) by (cases "k = ch") auto
  with assms(1) show ?thesis by (auto simp: region_ok_def)
qed

lemma region_ok_init:
  assumes "total_size (rxs, txs) \<le> rxSize + txSize"
    and "pdokcal_initPdoMem alloc rxs txs rxSize txSize = (ret, Some m)"
  shows "region_ok (rxs, txs) m" and "\<And>d ch b. ch < length (chan_sizes (rxs, txs) d) \<Longrightarrow> b < 3 \<Longrightarrow>
     slot (rxs, txs) d ch b m = replicate (chan_sizes (rxs, txs) d ! ch) 0"
    and "\<And>d ch. ch < length (chan_sizes (rxs, txs) d) \<Longrightarrow> \<not> newData (infos d m ! ch)"
proof -
  have m: "m = \<lparr>pdoMemSize = sum_list rxs + sum_list txs,
      rxChannelInfo = fst (setup_channels 0 rxs), txChannelInfo = fst (setup_channels (sum_list rxs) txs),
      pTripleBuf = replicate 3 (replicate (txSize + rxSize) 0)\<rparr>"
    using assms(2)
    by (simp add: pdokcal_initPdoMem_def setupPdoMemInfo_def setup_channels_spec Let_def split: if_splits)
  have i: "infos d m ! ch = \<lparr>channelOffset = chan_off (rxs, txs) d ch, readBuf = 0, writeBuf = 1, cleanBuf = 2, newData = False\<rparr>"
    if "ch < length (chan_sizes (rxs, txs) d)" for d ch
    using that by (cases d) (simp_all add: m infos_def chan_sizes_def chan_off_def setup_channels_spec)
  have l: "length (infos d m) = length (chan_sizes (rxs, txs) d)" for d
    by (cases d) (simp_all add: m infos_def chan_sizes_def setup_channels_spec)
  have b: "pTripleBuf m ! b = replicate (txSize + rxSize) 0" if "b < 3" for b using that by (simp add: m)
  show "region_ok (rxs, txs) m"
    unfolding region_ok_def using assms(1) by (auto simp: l i b perm3_def) (simp add: m)
  show "slot (rxs, txs) d ch b m = replicate (chan_sizes (rxs, txs) d ! ch) 0"
    if "ch < length (chan_sizes (rxs, txs) d)" "b < 3" for d ch b
    using chan_inside [OF that(1)] assms(1) by (simp add: slot_def b [OF that(2)] min_def)
  show "\<not> newData (infos d m ! ch)" if "ch < length (chan_sizes (rxs, txs) d)" for d ch
    using i [OF that] by simp
qed

section \<open>What the steps do\<close>

lemma region_okD:
  assumes "region_ok c m" and "ch < length (chan_sizes c d)"
  shows "ch < length (infos d m)" "channelOffset (infos d m ! ch) = chan_off c d ch" "perm3 (infos d m ! ch)"
    "length (pTripleBuf m) = 3" "b < 3 \<Longrightarrow> total_size c \<le> length (pTripleBuf m ! b)"
  using assms by (simp_all add: region_ok_def)

lemma mem_write_part:
  assumes "mem_write mem (off + pos) bs = Some mem'" and "pos + length bs \<le> n" and "off + n \<le> length mem"
  shows "take n (drop off mem') = take pos (take n (drop off mem)) @ bs @ drop (pos + length bs) (take n (drop off mem))"
    and "off2 + n2 \<le> off \<or> off + n \<le> off2 \<Longrightarrow> take n2 (drop off2 mem') = take n2 (drop off2 mem)"
proof -
  have l: "length mem' = length mem" using assms(1) by (rule mem_write_length)
  have nth: "mem' ! i = (if off + pos \<le> i \<and> i < off + pos + length bs then bs ! (i - (off + pos)) else mem ! i)"
    if "i < length mem" for i using mem_write_nth [OF assms(1) that] by simp
  show "take n (drop off mem') = take pos (take n (drop off mem)) @ bs @ drop (pos + length bs) (take n (drop off mem))"
  proof -
    have "mem' = take (off + pos) mem @ bs @ drop (off + pos + length bs) mem"
      using assms(1) by (simp add: mem_write_def split: if_splits)
    then have "drop off mem' = take pos (drop off mem) @ bs @ drop (pos + length bs) (drop off mem)"
      using assms(2, 3) by (simp add: drop_take ac_simps)
    moreover have "min (length mem - off) pos = pos" "min n pos = pos" "min pos n = pos" using assms(2, 3) by auto
    moreover have "length bs \<le> n - pos" using assms(2) by simp
    ultimately show ?thesis by (simp add: drop_take)
  qed
  show "take n2 (drop off2 mem') = take n2 (drop off2 mem)" if "off2 + n2 \<le> off \<or> off + n \<le> off2"
    using that assms(2) by (intro nth_equalityI) (auto simp: l nth)
qed

text \<open>A write inside a slot changes this slot and no other.\<close>

lemma write_slot:
  assumes ok: "region_ok c m" and ch: "ch < length (chan_sizes c d)" and b: "b < 3"
    and n: "pos + length bs \<le> chan_sizes c d ! ch"
  shows "\<exists>m'. write_at (b, chan_off c d ch + pos) bs m = Some m' \<and> region_ok c m' \<and> (\<forall>d. infos d m' = infos d m) \<and>
     slot c d ch b m' = take pos (slot c d ch b m) @ bs @ drop (pos + length bs) (slot c d ch b m) \<and>
     (\<forall>d' ch' b'. ch' < length (chan_sizes c d') \<longrightarrow> (d', ch', b') \<noteq> (d, ch, b) \<longrightarrow>
        slot c d' ch' b' m' = slot c d' ch' b' m)"
proof -
  note R = region_okD [OF ok ch]
  have fit: "chan_off c d ch + chan_sizes c d ! ch \<le> length (pTripleBuf m ! b)"
    using R(5) [OF b] chan_inside [OF ch] by linarith
  then obtain mem' where mem': "mem_write (pTripleBuf m ! b) (chan_off c d ch + pos) bs = Some mem'"
    using n by (auto simp: mem_write_def)
  let ?m = "m\<lparr>pTripleBuf := (pTripleBuf m)[b := mem']\<rparr>"
  have st: "write_at (b, chan_off c d ch + pos) bs m = Some ?m"
    using R(4) mem' b by (simp add: write_at_def)
  have "length mem' = length (pTripleBuf m ! b)" using mem' by (rule mem_write_length)
  then have "region_ok c ?m"
    using ok b R(4) by (auto simp: region_ok_def nth_list_update)
  moreover have "slot c d ch b ?m = take pos (slot c d ch b m) @ bs @ drop (pos + length bs) (slot c d ch b m)"
    using mem_write_part(1) [OF mem' n fit] b R(4) by (simp add: slot_def)
  moreover have "slot c d' ch' b' ?m = slot c d' ch' b' m"
    if "ch' < length (chan_sizes c d')" "(d', ch', b') \<noteq> (d, ch, b)" for d' ch' b'
  proof (cases "b' = b")
    case True
    with that(2) have "(d, ch) \<noteq> (d', ch')" by auto
    from chan_disjoint [OF ch that(1) this] mem_write_part(2) [OF mem' n fit] True b R(4)
    show ?thesis by (auto simp: slot_def)
  qed (simp add: slot_def)
  ultimately show ?thesis using st by auto
qed

lemma store_ok:
  assumes ok: "region_ok c m" and ch: "ch < length (chan_sizes c d)" and n: "pos + length bs \<le> chan_sizes c d ! ch"
  defines "w \<equiv> writeBuf (infos d m ! ch)"
  shows "\<exists>m'. store d ch pos bs m = Some m' \<and> region_ok c m' \<and> (\<forall>d. infos d m' = infos d m) \<and>
     slot c d ch w m' = take pos (slot c d ch w m) @ bs @ drop (pos + length bs) (slot c d ch w m) \<and>
     (\<forall>d' ch' b. ch' < length (chan_sizes c d') \<longrightarrow> (d', ch', b) \<noteq> (d, ch, w) \<longrightarrow>
        slot c d' ch' b m' = slot c d' ch' b m)"
proof -
  note R = region_okD [OF ok ch]
  have w: "w < 3" using perm3D [OF R(3)] by (simp add: w_def)
  have "store d ch pos bs m = write_at (w, chan_off c d ch + pos) bs m"
    using R w by (simp add: store_def write_at_def w_def Let_def)
  with write_slot [OF ok ch w n] show ?thesis by simp
qed

lemma index_steps:
  assumes ok: "region_ok c m" and ch: "ch < length (chan_sizes c d)"
  shows "exchangeWrite d ch m = Some (set_info d ch ((infos d m ! ch)\<lparr>writeBuf := cleanBuf (infos d m ! ch), cleanBuf := writeBuf (infos d m ! ch)\<rparr>) m)"
    and "exchangeRead d ch m = Some (set_info d ch ((infos d m ! ch)\<lparr>readBuf := cleanBuf (infos d m ! ch), cleanBuf := readBuf (infos d m ! ch)\<rparr>) m)"
    and "setNewData d ch b m = Some (set_info d ch ((infos d m ! ch)\<lparr>newData := b\<rparr>) m)"
    and "region_ok c (set_info d ch ((infos d m ! ch)\<lparr>writeBuf := cleanBuf (infos d m ! ch), cleanBuf := writeBuf (infos d m ! ch)\<rparr>) m)"
    and "region_ok c (set_info d ch ((infos d m ! ch)\<lparr>readBuf := cleanBuf (infos d m ! ch), cleanBuf := readBuf (infos d m ! ch)\<rparr>) m)"
    and "region_ok c (set_info d ch ((infos d m ! ch)\<lparr>newData := b\<rparr>) m)"
proof -
  note R = region_okD [OF ok ch]
  show "exchangeWrite d ch m = Some (set_info d ch ((infos d m ! ch)\<lparr>writeBuf := cleanBuf (infos d m ! ch), cleanBuf := writeBuf (infos d m ! ch)\<rparr>) m)"
    "exchangeRead d ch m = Some (set_info d ch ((infos d m ! ch)\<lparr>readBuf := cleanBuf (infos d m ! ch), cleanBuf := readBuf (infos d m ! ch)\<rparr>) m)"
    "setNewData d ch b m = Some (set_info d ch ((infos d m ! ch)\<lparr>newData := b\<rparr>) m)"
    using R(1) by (simp_all add: exchangeWrite_def exchangeRead_def setNewData_def Let_def)
  show "region_ok c (set_info d ch ((infos d m ! ch)\<lparr>writeBuf := cleanBuf (infos d m ! ch), cleanBuf := writeBuf (infos d m ! ch)\<rparr>) m)"
    "region_ok c (set_info d ch ((infos d m ! ch)\<lparr>readBuf := cleanBuf (infos d m ! ch), cleanBuf := readBuf (infos d m ! ch)\<rparr>) m)"
    "region_ok c (set_info d ch ((infos d m ! ch)\<lparr>newData := b\<rparr>) m)"
    using R(3) by (intro region_ok_set_info [OF ok], simp, simp)+
qed

section \<open>Complete calls\<close>

text \<open>
  The value of a channel is that of the slot which the next reader gets. Calls that do not overlap
  implement one register for each channel.
\<close>

definition channel_value :: "pdo_conf \<Rightarrow> pdo_dir \<Rightarrow> nat \<Rightarrow> tPdoMemRegion \<Rightarrow> byte list" where
  "channel_value c d ch m =
     (let i = infos d m ! ch in slot c d ch (if newData i then cleanBuf i else readBuf i) m)"

definition holds_values :: "pdo_conf \<Rightarrow> (pdo_dir \<times> nat \<Rightarrow> byte list) \<Rightarrow> tPdoMemRegion \<Rightarrow> bool" where
  "holds_values c reg m \<longleftrightarrow> region_ok c m \<and>
     (\<forall>d. \<forall>ch < length (chan_sizes c d). channel_value c d ch m = reg (d, ch))"

definition writeChannel :: "pdo_dir \<Rightarrow> nat \<Rightarrow> byte list \<Rightarrow> tPdoMemRegion \<Rightarrow> tPdoMemRegion option" where
  "writeChannel d ch bs m =
     Option.bind (store d ch 0 bs m) (\<lambda>m. Option.bind (exchangeWrite d ch m) (setNewData d ch True))"

definition readChannel :: "pdo_dir \<Rightarrow> nat \<Rightarrow> nat \<Rightarrow> tPdoMemRegion \<Rightarrow> (byte list \<times> tPdoMemRegion) option" where
  "readChannel d ch n m =
     Option.bind (fetchNewData d ch m) (\<lambda>m. map_option (\<lambda>bs. (bs, m)) (load d ch n m))"

lemma rx_write: "pdokcal_writeRxPdo = writeChannel Rx"
  by (simp add: fun_eq_iff pdokcal_writeRxPdo_def writeChannel_def)

lemma tx_read: "pdokcal_readTxPdo = readChannel Tx"
  by (simp add: fun_eq_iff pdokcal_readTxPdo_def readChannel_def)

lemma tx_write:
  "Option.bind (pdoucal_getTxPdoAdrs ch m) (\<lambda>a. Option.bind (write_at a bs m) (pdoucal_setTxPdo ch)) =
   writeChannel Tx ch bs m"
proof -
  have "Option.bind (pdoucal_getTxPdoAdrs ch m) (\<lambda>a. write_at a bs m) = store Tx ch 0 bs m"
    by (simp add: pdoucal_getTxPdoAdrs_def write_at_def store_def infos_def Let_def)
  moreover have "pdoucal_setTxPdo ch = (\<lambda>m. Option.bind (exchangeWrite Tx ch m) (setNewData Tx ch True))"
    by (simp add: pdoucal_setTxPdo_def fun_eq_iff)
  ultimately show ?thesis by (cases "pdoucal_getTxPdoAdrs ch m") (auto simp: writeChannel_def)
qed

lemma rx_read:
  "Option.bind (pdoucal_getRxPdo ch m) (\<lambda>(a, m). map_option (\<lambda>bs. (bs, m)) (read_at a n m)) =
   readChannel Rx ch n m"
proof (cases "fetchNewData Rx ch m")
  case (Some m')
  then have "ch < length (infos Rx m')"
    by (auto simp: fetchNewData_def exchangeRead_def setNewData_def Let_def split: if_splits)
  with Some show ?thesis
    by (simp add: pdoucal_getRxPdo_def readChannel_def read_at_def load_def infos_def Let_def)
qed (simp add: pdoucal_getRxPdo_def readChannel_def)

lemma channel_value_other:
  assumes "\<And>b. slot c d ch b m' = slot c d ch b m" and "infos d m' ! ch = infos d m ! ch"
  shows "channel_value c d ch m' = channel_value c d ch m"
  using assms by (simp add: channel_value_def)

text \<open>
  The exchange of the writer and its flag, after any stores to the slot of the writer: the channel
  has the contents of this slot.
\<close>

lemma publish_holds:
  assumes "holds_values c reg m" and ch: "ch < length (chan_sizes c d)"
    and ok1: "region_ok c m1" and i1: "\<And>d. infos d m1 = infos d m"
    and o1: "\<And>d' ch' b. ch' < length (chan_sizes c d') \<Longrightarrow> (d', ch', b) \<noteq> (d, ch, writeBuf (infos d m ! ch)) \<Longrightarrow>
        slot c d' ch' b m1 = slot c d' ch' b m"
  shows "\<exists>m'. Option.bind (exchangeWrite d ch m1) (setNewData d ch True) = Some m' \<and>
     holds_values c (reg((d, ch) := slot c d ch (writeBuf (infos d m ! ch)) m1)) m'"
proof -
  have ok: "region_ok c m" using assms(1) by (simp add: holds_values_def)
  let ?bs = "slot c d ch (writeBuf (infos d m ! ch)) m1"
  let ?i = "(infos d m1 ! ch)\<lparr>writeBuf := cleanBuf (infos d m1 ! ch), cleanBuf := writeBuf (infos d m1 ! ch)\<rparr>"
  let ?m2 = "set_info d ch ?i m1"
  note x = index_steps(1, 4) [OF ok1 ch]
  let ?m3 = "set_info d ch ((infos d ?m2 ! ch)\<lparr>newData := True\<rparr>) ?m2"
  note f = index_steps(3, 6) [OF x(2) ch, of True]
  have w: "Option.bind (exchangeWrite d ch m1) (setNewData d ch True) = Some ?m3"
    by (simp only: x(1) f(1) bind.simps)
  have l: "ch < length (infos d m)" using region_okD(1) [OF ok ch] .
  have "channel_value c d ch ?m3 = ?bs"
    using l by (simp add: channel_value_def Let_def i1)
  moreover have "channel_value c d' ch' ?m3 = reg (d', ch')"
    if "ch' < length (chan_sizes c d')" "(d', ch') \<noteq> (d, ch)" for d' ch'
  proof -
    have "infos d' ?m3 ! ch' = infos d' m ! ch'" using that(2) by (auto simp: i1)
    moreover have "slot c d' ch' b ?m3 = slot c d' ch' b m" for b using o1 [OF that(1), of b] that(2) by auto
    ultimately have "channel_value c d' ch' ?m3 = channel_value c d' ch' m" by (intro channel_value_other)
    then show ?thesis using assms(1) that(1) by (simp add: holds_values_def)
  qed
  ultimately have "holds_values c (reg((d, ch) := ?bs)) ?m3"
    unfolding holds_values_def using f(2) by (auto simp del: infos_set_info)
  with w show ?thesis by blast
qed

lemma write_holds:
  assumes "holds_values c reg m" and ch: "ch < length (chan_sizes c d)" and n: "length bs = chan_sizes c d ! ch"
  shows "\<exists>m'. writeChannel d ch bs m = Some m' \<and> holds_values c (reg((d, ch) := bs)) m'"
proof -
  have ok: "region_ok c m" using assms(1) by (simp add: holds_values_def)
  let ?w = "writeBuf (infos d m ! ch)"
  from store_ok [OF ok ch, of 0 bs] n obtain m1 where st: "store d ch 0 bs m = Some m1" and ok1: "region_ok c m1"
    and i1: "\<And>d. infos d m1 = infos d m" and s1: "slot c d ch ?w m1 = bs"
    and o1: "\<And>d' ch' b. ch' < length (chan_sizes c d') \<Longrightarrow> (d', ch', b) \<noteq> (d, ch, ?w) \<Longrightarrow>
        slot c d' ch' b m1 = slot c d' ch' b m"
    using length_slot [OF ok ch, of ?w] perm3D(2) [OF region_okD(3) [OF ok ch]] by auto
  have "writeChannel d ch bs m = Option.bind (exchangeWrite d ch m1) (setNewData d ch True)"
    by (simp add: writeChannel_def st)
  with publish_holds [OF assms(1) ch ok1 i1 o1] s1 show ?thesis by simp
qed

lemma fetch_holds:
  assumes "holds_values c reg m" and ch: "ch < length (chan_sizes c d)"
  shows "\<exists>m'. fetchNewData d ch m = Some m' \<and> holds_values c reg m' \<and> \<not> newData (infos d m' ! ch)"
proof -
  have ok: "region_ok c m" using assms(1) by (simp add: holds_values_def)
  have l: "ch < length (infos d m)" using region_okD(1) [OF ok ch] .
  show ?thesis
  proof (cases "newData (infos d m ! ch)")
    case False
    with assms(1) l show ?thesis by (auto simp: fetchNewData_def)
  next
    case True
    let ?i = "(infos d m ! ch)\<lparr>readBuf := cleanBuf (infos d m ! ch), cleanBuf := readBuf (infos d m ! ch)\<rparr>"
    let ?m2 = "set_info d ch ?i m"
    note x = index_steps(2, 5) [OF ok ch]
    let ?m3 = "set_info d ch ((infos d ?m2 ! ch)\<lparr>newData := False\<rparr>) ?m2"
    note f = index_steps(3, 6) [OF x(2) ch, of False]
    have r: "fetchNewData d ch m = Some ?m3" using l True by (simp only: fetchNewData_def x(1) f(1) bind.simps if_True)
    have "channel_value c d' ch' ?m3 = channel_value c d' ch' m" for d' ch'
    proof (cases "(d', ch') = (d, ch)")
      case True
      with l \<open>newData (infos d m ! ch)\<close> show ?thesis by (simp add: channel_value_def Let_def)
    next
      case False
      then show ?thesis by (intro channel_value_other) auto
    qed
    then have "holds_values c reg ?m3" using assms(1) f(2) by (simp only: holds_values_def) blast
    moreover have "\<not> newData (infos d ?m3 ! ch)" using l by simp
    ultimately show ?thesis using r by blast
  qed
qed

lemma read_holds:
  assumes "holds_values c reg m" and ch: "ch < length (chan_sizes c d)"
  shows "\<exists>m'. readChannel d ch (chan_sizes c d ! ch) m = Some (reg (d, ch), m') \<and> holds_values c reg m'"
proof -
  from fetch_holds [OF assms] obtain m' where m': "fetchNewData d ch m = Some m'" "holds_values c reg m'"
    "\<not> newData (infos d m' ! ch)" by blast
  then have ok: "region_ok c m'" by (simp add: holds_values_def)
  note R = region_okD [OF ok ch]
  have r: "readBuf (infos d m' ! ch) < 3" using perm3D(1) [OF R(3)] .
  have "load d ch (chan_sizes c d ! ch) m' = Some (slot c d ch (readBuf (infos d m' ! ch)) m')"
    using R(1, 2, 4) r le_trans [OF chan_inside [OF ch] R(5) [OF r]]
    by (simp add: load_def mem_read_def slot_def Let_def)
  moreover have "slot c d ch (readBuf (infos d m' ! ch)) m' = reg (d, ch)"
  proof -
    have "channel_value c d ch m' = reg (d, ch)" using m'(2) ch by (simp add: holds_values_def)
    with m'(3) show ?thesis by (simp add: channel_value_def Let_def)
  qed
  ultimately show ?thesis using m' by (simp add: readChannel_def)
qed

text \<open>
  A write and a read of a channel as the two layers perform them; the specification has one
  register for each channel and is defined for whole PDOs of existing channels.
\<close>

datatype pdo_op = PdoWrite pdo_dir nat "byte list" | PdoRead pdo_dir nat nat

fun pdo_step :: "pdo_op \<Rightarrow> tPdoMemRegion \<Rightarrow> (byte list option \<times> tPdoMemRegion) option" where
  "pdo_step (PdoWrite Rx ch bs) m = map_option (\<lambda>m. (None, m)) (pdokcal_writeRxPdo ch bs m)"
| "pdo_step (PdoWrite Tx ch bs) m =
     map_option (\<lambda>m. (None, m))
       (Option.bind (pdoucal_getTxPdoAdrs ch m) (\<lambda>a. Option.bind (write_at a bs m) (pdoucal_setTxPdo ch)))"
| "pdo_step (PdoRead Rx ch n) m =
     map_option (\<lambda>(bs, m). (Some bs, m))
       (Option.bind (pdoucal_getRxPdo ch m) (\<lambda>(a, m). map_option (\<lambda>bs. (bs, m)) (read_at a n m)))"
| "pdo_step (PdoRead Tx ch n) m = map_option (\<lambda>(bs, m). (Some bs, m)) (pdokcal_readTxPdo ch n m)"

fun register_step :: "pdo_conf \<Rightarrow> pdo_op \<Rightarrow> (pdo_dir \<times> nat \<Rightarrow> byte list) \<Rightarrow>
    (byte list option \<times> (pdo_dir \<times> nat \<Rightarrow> byte list)) option" where
  "register_step c (PdoWrite d ch bs) reg =
     (if ch < length (chan_sizes c d) \<and> length bs = chan_sizes c d ! ch
      then Some (None, reg((d, ch) := bs)) else None)"
| "register_step c (PdoRead d ch n) reg =
     (if ch < length (chan_sizes c d) \<and> n = chan_sizes c d ! ch then Some (Some (reg (d, ch)), reg) else None)"

definition zero_registers :: "pdo_conf \<Rightarrow> pdo_dir \<times> nat \<Rightarrow> byte list" where
  "zero_registers c dc = replicate (chan_sizes c (fst dc) ! snd dc) 0"

lemma pdo_step_simps:
  "pdo_step (PdoWrite d ch bs) m = map_option (\<lambda>m. (None, m)) (writeChannel d ch bs m)"
  "pdo_step (PdoRead d ch n) m = map_option (\<lambda>(bs, m). (Some bs, m)) (readChannel d ch n m)"
  by (cases d; simp add: rx_write tx_write rx_read tx_read)+

lemma register_step_holds:
  assumes "holds_values c reg m" and "register_step c opn reg = Some (r, reg')"
  shows "\<exists>m'. pdo_step opn m = Some (r, m') \<and> holds_values c reg' m'"
proof (cases opn)
  case (PdoWrite d ch bs)
  with assms(2) have w: "ch < length (chan_sizes c d)" "length bs = chan_sizes c d ! ch" "r = None"
    "reg' = reg((d, ch) := bs)" by (auto split: if_splits)
  from write_holds [OF assms(1) w(1, 2)] w(3, 4) PdoWrite show ?thesis by (auto simp: pdo_step_simps)
next
  case (PdoRead d ch n)
  with assms(2) have w: "ch < length (chan_sizes c d)" "n = chan_sizes c d ! ch" "r = Some (reg (d, ch))"
    "reg' = reg" by (auto split: if_splits)
  from read_holds [OF assms(1) w(1)] w PdoRead show ?thesis by (auto simp: pdo_step_simps)
qed

lemma register_run_holds:
  "holds_values c reg m \<Longrightarrow> run_out (register_step c) ops reg = Some (outs, reg') \<Longrightarrow>
     \<exists>m'. run_out pdo_step ops m = Some (outs, m') \<and> holds_values c reg' m'"
proof (induction ops arbitrary: m reg outs)
  case (Cons opn ops)
  from Cons.prems(2) obtain r reg1 rs where s: "register_step c opn reg = Some (r, reg1)"
    "run_out (register_step c) ops reg1 = Some (rs, reg')" "outs = r # rs"
    by (auto split: option.splits prod.splits)
  from register_step_holds [OF Cons.prems(1) s(1)] obtain m1 where
    "pdo_step opn m = Some (r, m1)" "holds_values c reg1 m1" by blast
  with Cons.IH [OF _ s(2)] s(3) show ?case by fastforce
qed simp

lemma init_holds:
  assumes "total_size (rxs, txs) \<le> rxSize + txSize"
    and "pdokcal_initPdoMem alloc rxs txs rxSize txSize = (ret, Some m)"
  shows "holds_values (rxs, txs) (zero_registers (rxs, txs)) m"
  using region_ok_init [OF assms]
  by (simp add: holds_values_def channel_value_def zero_registers_def Let_def perm3D(1) region_okD(3))

section \<open>Overlapping calls\<close>

text \<open>
  The two sides of a channel run at the same time. A step is one access to the shared memory: a
  byte of the writer (in any order, several times), its exchange, its flag; the reader's test of the
  flag, its exchange, and its reset of the flag. Each side follows its program: \<open>flagging\<close> is true
  between the exchange and the flag of the writer, \<open>phase\<close> is where the reader is; a step that is
  not the next one of its side leaves the state as it is. \<open>published\<close> records the PDOs that the
  writer has completed.
\<close>

datatype reader_phase = RIdle | RSeen | RFetched

record pdo_world =
  region :: tPdoMemRegion
  flagging :: "pdo_dir \<times> nat \<Rightarrow> bool"
  phase :: "pdo_dir \<times> nat \<Rightarrow> reader_phase"
  published :: "pdo_dir \<times> nat \<Rightarrow> byte list list"

datatype pdo_micro =
    MStore pdo_dir nat nat byte
  | MPublish pdo_dir nat
  | MFlag pdo_dir nat
  | MTest pdo_dir nat
  | MFetch pdo_dir nat
  | MClear pdo_dir nat

definition on_region :: "(tPdoMemRegion \<Rightarrow> tPdoMemRegion option) \<Rightarrow> pdo_world \<Rightarrow> pdo_world option" where
  "on_region f w = map_option (\<lambda>m. w\<lparr>region := m\<rparr>) (f (region w))"

definition own_slot :: "pdo_conf \<Rightarrow> pdo_dir \<Rightarrow> nat \<Rightarrow> pdo_world \<Rightarrow> byte list" where
  "own_slot c d ch w = slot c d ch (writeBuf (infos d (region w) ! ch)) (region w)"

definition reader_slot :: "pdo_conf \<Rightarrow> pdo_dir \<Rightarrow> nat \<Rightarrow> pdo_world \<Rightarrow> byte list" where
  "reader_slot c d ch w = slot c d ch (readBuf (infos d (region w) ! ch)) (region w)"

fun pdo_conc :: "pdo_conf \<Rightarrow> pdo_micro \<Rightarrow> pdo_world \<Rightarrow> pdo_world option" where
  "pdo_conc c (MStore d ch pos b) w =
     (if flagging w (d, ch) then Some w else on_region (store d ch pos [b]) w)"
| "pdo_conc c (MPublish d ch) w =
     (if flagging w (d, ch) then Some w
      else on_region (exchangeWrite d ch)
        (w\<lparr>flagging := (flagging w)((d, ch) := True),
           published := (published w)((d, ch) := published w (d, ch) @ [own_slot c d ch w])\<rparr>))"
| "pdo_conc c (MFlag d ch) w =
     (if flagging w (d, ch)
      then on_region (setNewData d ch True) (w\<lparr>flagging := (flagging w)((d, ch) := False)\<rparr>)
      else Some w)"
| "pdo_conc c (MTest d ch) w =
     (if phase w (d, ch) = RIdle \<and> newData (infos d (region w) ! ch)
      then Some (w\<lparr>phase := (phase w)((d, ch) := RSeen)\<rparr>) else Some w)"
| "pdo_conc c (MFetch d ch) w =
     (if phase w (d, ch) = RSeen
      then on_region (exchangeRead d ch) (w\<lparr>phase := (phase w)((d, ch) := RFetched)\<rparr>) else Some w)"
| "pdo_conc c (MClear d ch) w =
     (if phase w (d, ch) = RFetched
      then on_region (setNewData d ch False) (w\<lparr>phase := (phase w)((d, ch) := RIdle)\<rparr>) else Some w)"

fun micro_ok :: "pdo_conf \<Rightarrow> pdo_micro \<Rightarrow> bool" where
  "micro_ok c (MStore d ch pos b) \<longleftrightarrow> ch < length (chan_sizes c d) \<and> pos < chan_sizes c d ! ch"
| "micro_ok c (MPublish d ch) \<longleftrightarrow> ch < length (chan_sizes c d)"
| "micro_ok c (MFlag d ch) \<longleftrightarrow> ch < length (chan_sizes c d)"
| "micro_ok c (MTest d ch) \<longleftrightarrow> ch < length (chan_sizes c d)"
| "micro_ok c (MFetch d ch) \<longleftrightarrow> ch < length (chan_sizes c d)"
| "micro_ok c (MClear d ch) \<longleftrightarrow> ch < length (chan_sizes c d)"

definition whole :: "pdo_conf \<Rightarrow> pdo_dir \<Rightarrow> nat \<Rightarrow> pdo_world \<Rightarrow> byte list \<Rightarrow> bool" where
  "whole c d ch w bs \<longleftrightarrow> bs = zero_registers c (d, ch) \<or> bs \<in> set (published w (d, ch))"

definition world_ok :: "pdo_conf \<Rightarrow> pdo_world \<Rightarrow> bool" where
  "world_ok c w \<longleftrightarrow> region_ok c (region w) \<and>
     (\<forall>d. \<forall>ch < length (chan_sizes c d).
        whole c d ch w (reader_slot c d ch w) \<and>
        whole c d ch w (slot c d ch (cleanBuf (infos d (region w) ! ch)) (region w)))"

lemma world_ok_regionD: "world_ok c w \<Longrightarrow> region_ok c (region w)"
  by (simp add: world_ok_def)

text \<open>What a step does to the slot of a reader.\<close>

definition keeps_reader :: "pdo_conf \<Rightarrow> pdo_micro \<Rightarrow> pdo_world \<Rightarrow> pdo_world \<Rightarrow> bool" where
  "keeps_reader c e w w' \<longleftrightarrow>
     (\<forall>d. \<forall>ch < length (chan_sizes c d). e \<noteq> MFetch d ch \<longrightarrow>
        readBuf (infos d (region w') ! ch) = readBuf (infos d (region w) ! ch) \<and>
        reader_slot c d ch w' = reader_slot c d ch w)"

lemma store_step:
  assumes ok: "world_ok c w" and e: "micro_ok c (MStore d ch pos b)"
  shows "\<exists>w'. pdo_conc c (MStore d ch pos b) w = Some w' \<and> world_ok c w' \<and> keeps_reader c (MStore d ch pos b) w w'"
proof (cases "flagging w (d, ch)")
  case True
  with ok show ?thesis by (simp add: keeps_reader_def)
next
  case False
  have c: "ch < length (chan_sizes c d)" "pos + length [b] \<le> chan_sizes c d ! ch" using e by simp_all
  note r = world_ok_regionD [OF ok]
  from store_ok [OF r c] obtain m' where m': "store d ch pos [b] (region w) = Some m'" "region_ok c m'"
    "\<And>d. infos d m' = infos d (region w)"
    "\<And>d' ch' b. ch' < length (chan_sizes c d') \<Longrightarrow> (d', ch', b) \<noteq> (d, ch, writeBuf (infos d (region w) ! ch)) \<Longrightarrow>
        slot c d' ch' b m' = slot c d' ch' b (region w)" by blast
  have other: "slot c d' ch' x m' = slot c d' ch' x (region w)"
    if "ch' < length (chan_sizes c d')" "x \<in> {readBuf (infos d' (region w) ! ch'), cleanBuf (infos d' (region w) ! ch')}" for d' ch' x
    using m'(4) [OF that(1), of x] that perm3D(4, 6) [OF region_okD(3) [OF r that(1)]] by fastforce
  have "world_ok c (w\<lparr>region := m'\<rparr>)"
    using ok m'(2) other by (simp add: world_ok_def reader_slot_def whole_def m'(3))
  moreover have "keeps_reader c (MStore d ch pos b) w (w\<lparr>region := m'\<rparr>)"
    using other by (simp add: keeps_reader_def reader_slot_def m'(3))
  ultimately show ?thesis using m'(1) False by (simp add: on_region_def)
qed

lemma index_step:
  assumes ok: "world_ok c w" and ch: "ch < length (chan_sizes c d)"
    and w': "region w' = set_info d ch i (region w)" and i: "perm3 i"
      "channelOffset i = channelOffset (infos d (region w) ! ch)"
    and pub: "\<And>dc. set (published w dc) \<subseteq> set (published w' dc)"
    and slots: "whole c d ch w' (slot c d ch (readBuf i) (region w))" "whole c d ch w' (slot c d ch (cleanBuf i) (region w))"
    and read: "e = MFetch d ch \<or> readBuf i = readBuf (infos d (region w) ! ch)"
  shows "world_ok c w' \<and> keeps_reader c e w w'"
proof -
  have l: "ch < length (infos d (region w))" using region_okD(1) [OF world_ok_regionD [OF ok] ch] .
  have mono: "whole c d' ch' w' bs" if "whole c d' ch' w bs" for d' ch' bs
    using that pub by (auto simp: whole_def)
  have at: "infos d' (region w') ! ch' = (if (d', ch') = (d, ch) then i else infos d' (region w) ! ch')" for d' ch'
    using l by (auto simp: w')
  have "region_ok c (region w')" unfolding w' using world_ok_regionD [OF ok] i by (rule region_ok_set_info)
  moreover have "whole c d' ch' w' (reader_slot c d' ch' w') \<and>
      whole c d' ch' w' (slot c d' ch' (cleanBuf (infos d' (region w') ! ch')) (region w'))"
    if "ch' < length (chan_sizes c d')" for d' ch'
  proof (cases "(d', ch') = (d, ch)")
    case True
    with slots show ?thesis unfolding reader_slot_def at by (simp add: w')
  next
    case False
    with ok that mono show ?thesis unfolding reader_slot_def at world_ok_def by (auto simp: w' reader_slot_def)
  qed
  ultimately have "world_ok c w'" by (simp add: world_ok_def)
  moreover have "keeps_reader c e w w'"
    unfolding keeps_reader_def reader_slot_def at using read by (auto simp: w')
  ultimately show ?thesis ..
qed

lemma world_slots:
  assumes "world_ok c w" and "ch < length (chan_sizes c d)"
  shows "whole c d ch w (slot c d ch (readBuf (infos d (region w) ! ch)) (region w))"
    "whole c d ch w (slot c d ch (cleanBuf (infos d (region w) ! ch)) (region w))"
  using assms by (auto simp: world_ok_def reader_slot_def)

lemma conc_step:
  assumes ok: "world_ok c w" and e: "micro_ok c e"
  shows "\<exists>w'. pdo_conc c e w = Some w' \<and> world_ok c w' \<and> keeps_reader c e w w'"
proof -
  note r = world_ok_regionD [OF ok]
  have stay: "world_ok c w \<and> keeps_reader c e w w" using ok by (simp add: keeps_reader_def)
  show ?thesis
  proof (cases e)
    case (MStore d ch pos b)
    with store_step [OF ok] e show ?thesis by blast
  next
    case (MPublish d ch)
    with e have ch: "ch < length (chan_sizes c d)" by simp
    note p = region_okD(3) [OF r ch] and s = world_slots [OF ok ch]
    let ?i = "infos d (region w) ! ch"
    let ?w = "w\<lparr>flagging := (flagging w)((d, ch) := True),
        published := (published w)((d, ch) := published w (d, ch) @ [own_slot c d ch w]),
        region := set_info d ch (?i\<lparr>writeBuf := cleanBuf ?i, cleanBuf := writeBuf ?i\<rparr>) (region w)\<rparr>"
    have "world_ok c ?w \<and> keeps_reader c e w ?w"
      by (rule index_step [OF ok ch, where i = "?i\<lparr>writeBuf := cleanBuf ?i, cleanBuf := writeBuf ?i\<rparr>"]) (use p s in \<open>auto simp: whole_def own_slot_def\<close>)
    with stay MPublish index_steps(1) [OF r ch] show ?thesis by (simp add: on_region_def)
  next
    case (MFlag d ch)
    with e have ch: "ch < length (chan_sizes c d)" by simp
    note p = region_okD(3) [OF r ch] and s = world_slots [OF ok ch]
    let ?w = "w\<lparr>flagging := (flagging w)((d, ch) := False),
        region := set_info d ch ((infos d (region w) ! ch)\<lparr>newData := True\<rparr>) (region w)\<rparr>"
    have "world_ok c ?w \<and> keeps_reader c e w ?w"
      by (rule index_step [OF ok ch, where i = "(infos d (region w) ! ch)\<lparr>newData := True\<rparr>"]) (use p s in \<open>auto simp: whole_def\<close>)
    with stay MFlag index_steps(3) [OF r ch] show ?thesis by (simp add: on_region_def)
  next
    case (MTest d ch)
    then show ?thesis using ok
      by (auto simp: keeps_reader_def world_ok_def reader_slot_def whole_def)
  next
    case (MFetch d ch)
    with e have ch: "ch < length (chan_sizes c d)" by simp
    note p = region_okD(3) [OF r ch] and s = world_slots [OF ok ch]
    let ?i = "infos d (region w) ! ch"
    let ?w = "w\<lparr>phase := (phase w)((d, ch) := RFetched),
        region := set_info d ch (?i\<lparr>readBuf := cleanBuf ?i, cleanBuf := readBuf ?i\<rparr>) (region w)\<rparr>"
    have "world_ok c ?w \<and> keeps_reader c e w ?w"
      by (rule index_step [OF ok ch, where i = "?i\<lparr>readBuf := cleanBuf ?i, cleanBuf := readBuf ?i\<rparr>"]) (use p s MFetch in \<open>auto simp: whole_def\<close>)
    with stay MFetch index_steps(2) [OF r ch] show ?thesis by (simp add: on_region_def)
  next
    case (MClear d ch)
    with e have ch: "ch < length (chan_sizes c d)" by simp
    note p = region_okD(3) [OF r ch] and s = world_slots [OF ok ch]
    let ?w = "w\<lparr>phase := (phase w)((d, ch) := RIdle),
        region := set_info d ch ((infos d (region w) ! ch)\<lparr>newData := False\<rparr>) (region w)\<rparr>"
    have "world_ok c ?w \<and> keeps_reader c e w ?w"
      by (rule index_step [OF ok ch, where i = "(infos d (region w) ! ch)\<lparr>newData := False\<rparr>"]) (use p s in \<open>auto simp: whole_def\<close>)
    with stay MClear index_steps(3) [OF r ch] show ?thesis by (simp add: on_region_def)
  qed
qed

interpretation pdo_machine: safe_machine "pdo_conc c" "micro_ok c" "world_ok c" for c
  by unfold_locales (use conc_step in blast)

definition start_world :: "tPdoMemRegion \<Rightarrow> pdo_world" where
  "start_world m = \<lparr>region = m, flagging = (\<lambda>_. False), phase = (\<lambda>_. RIdle), published = (\<lambda>_. [])\<rparr>"

lemma start_world_ok:
  assumes "total_size (rxs, txs) \<le> rxSize + txSize"
    and "pdokcal_initPdoMem alloc rxs txs rxSize txSize = (ret, Some m)"
  shows "world_ok (rxs, txs) (start_world m)"
proof -
  note i = region_ok_init [OF assms]
  show ?thesis
    using i(1, 2) perm3D(1, 3) [OF region_okD(3) [OF i(1)]]
    by (simp add: world_ok_def start_world_def reader_slot_def whole_def zero_registers_def)
qed

section \<open>Properties\<close>

definition pdo_example :: tPdoMemRegion where
  "pdo_example = \<lparr>pdoMemSize = 1,
     rxChannelInfo = [\<lparr>channelOffset = 0, readBuf = 0, writeBuf = 1, cleanBuf = 2, newData = False\<rparr>],
     txChannelInfo = [], pTripleBuf = [[0], [0], [0]]\<rparr>"

lemma pdo_example_init: "pdokcal_initPdoMem True [1] [] 1 0 = (kErrorOk, Some pdo_example)"
  by (simp add: pdokcal_initPdoMem_def setupPdoMemInfo_def pdo_example_def numeral_eq_Suc)

lemmas conc_eval = pdo_example_def start_world_def on_region_def store_def exchangeWrite_def
  exchangeRead_def setNewData_def own_slot_def reader_slot_def slot_def chan_sizes_def chan_off_def
  infos_def set_info_def mem_write_def

text \<open>
  C16: The triple buffers implement one register for each PDO channel. From the initialisation,
  calls of the kernel and of the user layer on any channels, one after the other, in both
  directions, never access memory outside the buffers, and every read returns the PDO last written
  to the same channel (zeros before the first).
\<close>

theorem pdo_channels_are_registers:
  assumes "pdokcal_initPdoMem alloc rxs txs rxSize txSize = (ret, Some m)"
    and "sum_list rxs + sum_list txs \<le> rxSize + txSize"
    and "run_out (register_step (rxs, txs)) ops (zero_registers (rxs, txs)) = Some (outs, reg)"
  shows "\<exists>m'. run_out pdo_step ops m = Some (outs, m')"
proof -
  have "holds_values (rxs, txs) (zero_registers (rxs, txs)) m"
    using init_holds assms(1, 2) by (simp add: total_size_def)
  from register_run_holds [OF this assms(3)] show ?thesis by blast
qed

theorem pdo_channels_are_registers_witness:
  "\<exists>m m'. pdokcal_initPdoMem True [2, 1] [1] 3 1 = (kErrorOk, Some m) \<and>
     run_out pdo_step
       [PdoRead Rx 0 2, PdoWrite Rx 1 [7], PdoWrite Rx 0 [1, 2], PdoWrite Tx 0 [9], PdoWrite Rx 0 [3, 4],
        PdoRead Rx 0 2, PdoRead Tx 0 1, PdoRead Rx 1 1] m =
     Some ([Some [0, 0], None, None, None, None, Some [3, 4], Some [9], Some [7]], m')"
proof -
  obtain m where m: "pdokcal_initPdoMem True [2, 1] [1] 3 1 = (kErrorOk, Some m)"
    by (simp add: pdokcal_initPdoMem_def)
  let ?ops = "[PdoRead Rx 0 2, PdoWrite Rx 1 [7], PdoWrite Rx 0 [1, 2], PdoWrite Tx 0 [9], PdoWrite Rx 0 [3, 4],
        PdoRead Rx 0 2, PdoRead Tx 0 1, PdoRead Rx 1 1]"
  obtain reg where "run_out (register_step ([2, 1], [1])) ?ops (zero_registers ([2, 1], [1])) =
      Some ([Some [0, 0], None, None, None, None, Some [3, 4], Some [9], Some [7]], reg)"
    by (simp add: chan_sizes_def zero_registers_def numeral_eq_Suc)
  from pdo_channels_are_registers [OF m _ this] m show ?thesis by auto
qed

text \<open>
  C15: A reader never sees a torn PDO. However the memory accesses of writers and readers of all
  channels interleave, none leaves the buffers, the three indexes of a channel stay a permutation,
  the slot of a reader always holds a whole PDO that the writer has published (or the initial
  zeros), and no step but the exchange of this reader itself changes the slot or its contents.
\<close>

theorem pdo_never_torn:
  assumes "pdokcal_initPdoMem alloc rxs txs rxSize txSize = (ret, Some m)"
    and "sum_list rxs + sum_list txs \<le> rxSize + txSize"
    and "list_all (micro_ok (rxs, txs)) (es @ [e])" and "ch < length (chan_sizes (rxs, txs) d)"
  shows "\<exists>w w'. run_steps (pdo_conc (rxs, txs)) es (start_world m) = Some w \<and>
     pdo_conc (rxs, txs) e w = Some w' \<and> perm3 (infos d (region w) ! ch) \<and>
     whole (rxs, txs) d ch w (reader_slot (rxs, txs) d ch w) \<and>
     (e \<noteq> MFetch d ch \<longrightarrow> reader_slot (rxs, txs) d ch w' = reader_slot (rxs, txs) d ch w)"
proof -
  have "world_ok (rxs, txs) (start_world m)"
    using start_world_ok assms(1, 2) by (simp add: total_size_def)
  with pdo_machine.run_safe [of "(rxs, txs)" "start_world m" es] assms(3) obtain w where
    w: "run_steps (pdo_conc (rxs, txs)) es (start_world m) = Some w" "world_ok (rxs, txs) w" by auto
  from conc_step [OF w(2), of e] assms(3) obtain w' where
    w': "pdo_conc (rxs, txs) e w = Some w'" "keeps_reader (rxs, txs) e w w'" by auto
  have "perm3 (infos d (region w) ! ch)"
    using region_okD(3) [OF world_ok_regionD [OF w(2)] assms(4)] .
  moreover have "whole (rxs, txs) d ch w (reader_slot (rxs, txs) d ch w)"
    using w(2) assms(4) by (simp add: world_ok_def)
  ultimately show ?thesis using w w' assms(4) by (auto simp: keeps_reader_def)
qed

theorem pdo_never_torn_witness:
  "\<exists>w w'. run_steps (pdo_conc ([1], [])) [MStore Rx 0 0 5, MPublish Rx 0, MStore Rx 0 0 6] (start_world pdo_example) = Some w \<and>
     pdo_conc ([1], []) (MFlag Rx 0) w = Some w' \<and> perm3 (infos Rx (region w) ! 0) \<and>
     whole ([1], []) Rx 0 w (reader_slot ([1], []) Rx 0 w) \<and>
     (MFlag Rx 0 \<noteq> MFetch Rx 0 \<longrightarrow> reader_slot ([1], []) Rx 0 w' = reader_slot ([1], []) Rx 0 w)"
  by (rule pdo_never_torn [OF pdo_example_init]) (simp_all add: chan_sizes_def)

text \<open>
  The flag is not part of the exchange, and the value of a channel can go back or be missed.
  When the reader fetches between the exchange and the flag of a second write, it gets the second
  PDO, and at its next call the flag makes it fetch again: it returns to the older data. When the
  second write is completed between the fetch of the reader and its reset of the flag, the flag
  is lost: the reader does not see the second PDO before a third one is written.
\<close>

theorem pdo_reader_steps_back:
  "(\<exists>w w'. run_steps (pdo_conc ([1], []))
       [MStore Rx 0 0 x, MPublish Rx 0, MFlag Rx 0, MStore Rx 0 0 y, MPublish Rx 0,
        MTest Rx 0, MFetch Rx 0, MClear Rx 0] (start_world pdo_example) = Some w \<and>
     reader_slot ([1], []) Rx 0 w = [y] \<and>
     run_steps (pdo_conc ([1], [])) [MFlag Rx 0, MTest Rx 0, MFetch Rx 0, MClear Rx 0] w = Some w' \<and>
     reader_slot ([1], []) Rx 0 w' = [0]) \<and>
   (\<exists>w. run_steps (pdo_conc ([1], []))
       [MStore Rx 0 0 x, MPublish Rx 0, MFlag Rx 0, MTest Rx 0, MFetch Rx 0,
        MStore Rx 0 0 y, MPublish Rx 0, MFlag Rx 0, MClear Rx 0, MTest Rx 0, MFetch Rx 0, MClear Rx 0]
       (start_world pdo_example) = Some w \<and>
     published w (Rx, 0) = [[x], [y]] \<and> reader_slot ([1], []) Rx 0 w = [x])"
  by (simp add: conc_eval)

end
