(* ===== verification/Pdok.thy ===== *)
theory Pdok
  imports Pdo_TripleBuf Ami "HOL-Library.Monad_Syntax"
begin

text \<open>
  The kernel part of the process data exchange (\<^verbatim>\<open>src/stack/src/kernel/pdo/pdok.c\<close> and
  \<^verbatim>\<open>pdokcal.c\<close>): the channel tables that the user layer configures by events, and the two
  callbacks of the DLL, which fill the PDO of a frame to send and take that of a received one.

  The shared memory is that of \<open>Pdo_TripleBuf\<close>. The node administration of the DLL and the
  platform are an environment, whose calls are recorded. A frame is a byte list with the layout of
  \<^verbatim>\<open>tPlkFrame\<close>. The builds are those with \<^verbatim>\<open>NMT_MAX_NODE_ID\<close> above 0.
\<close>

unbundle bit_operations_syntax

section \<open>State\<close>

text \<open>The field \<^verbatim>\<open>pVar\<close> of a channel is not used by the code.\<close>

record tPdoChannel =
  chNodeId :: nat
  pdoSize :: nat
  mappingVersion :: byte
  mappObjectCount :: nat

record tPdoChannelConf =
  confChannelId :: nat
  confTx :: bool
  confChannel :: tPdoChannel

record tPdoChannelSetup =
  rxPdoChannelCount :: nat
  txPdoChannelCount :: nat
  pRxPdoChannel :: "tPdoChannel list option" \<comment> \<open>\<^term>\<open>None\<close> is \<^verbatim>\<open>NULL\<close>\<close>
  pTxPdoChannel :: "tPdoChannel list option"

abbreviation (input) PDO_INVALID_NODE_ID :: nat where "PDO_INVALID_NODE_ID \<equiv> 0xFF"
abbreviation (input) PDO_PREQ_NODE_ID :: nat where "PDO_PREQ_NODE_ID \<equiv> 0"
abbreviation (input) PDO_PRES_NODE_ID :: nat where "PDO_PRES_NODE_ID \<equiv> 0"
abbreviation (input) C_ADR_BROADCAST :: nat where "C_ADR_BROADCAST \<equiv> 0xFF"
abbreviation (input) kMsgTypePreq :: byte where "kMsgTypePreq \<equiv> 0x03"
abbreviation (input) kMsgTypePres :: byte where "kMsgTypePres \<equiv> 0x04"
abbreviation (input) PLK_FRAME_FLAG1_RD :: byte where "PLK_FRAME_FLAG1_RD \<equiv> 0x01"
abbreviation (input) PLK_VERSION_MAIN :: byte where "PLK_VERSION_MAIN \<equiv> 0xF0"
abbreviation (input) PLK_FRAME_OFFSET_PDO_PAYLOAD :: nat where "PLK_FRAME_OFFSET_PDO_PAYLOAD \<equiv> 24"

text \<open>Offsets in \<^verbatim>\<open>tPlkFrame\<close>; the fields of the PDO are those of \<^verbatim>\<open>tPresFrame\<close>.\<close>

abbreviation (input) OFFSET_MESSAGE_TYPE :: nat where "OFFSET_MESSAGE_TYPE \<equiv> 14"
abbreviation (input) OFFSET_DST_NODE_ID :: nat where "OFFSET_DST_NODE_ID \<equiv> 15"
abbreviation (input) OFFSET_SRC_NODE_ID :: nat where "OFFSET_SRC_NODE_ID \<equiv> 16"
abbreviation (input) OFFSET_FLAG1 :: nat where "OFFSET_FLAG1 \<equiv> 18"
abbreviation (input) OFFSET_PDO_VERSION :: nat where "OFFSET_PDO_VERSION \<equiv> 20"
abbreviation (input) OFFSET_PDO_SIZE :: nat where "OFFSET_PDO_SIZE \<equiv> 22"

datatype pdok_out =
    DllkDeleteNode nat \<comment> \<open>a filter for PRes frames of a node\<close>
  | DllkAddNode nat
  | DllkRegRpdoHandler bool
  | DllkRegTpdoHandler bool
  | DllkReleaseRxFrame
  | PdokOpenMem | PdokInitSync | PdokExitSync | PdokCloseMem
  | PdokFreeMem
  | PdokSendSyncEvent
  | PdokCalControlSync bool
  | EventkPostPdoRx nat \<comment> \<open>the size of the argument\<close>

record tPdokInstance =
  pdokChannels :: tPdoChannelSetup
  pdokRunning :: bool
  pdoMem :: "tPdoMemRegion option" \<comment> \<open>\<^verbatim>\<open>pPdoMem_l\<close>, shared with the user layer\<close>
  pdokOuts :: "pdok_out list"

text \<open>
  The environment: the result of a call, given the calls so far (the last one is answered), and the
  memory that an allocation for \<open>n\<close> channels returns, with whatever it contains. When the shared
  memory cannot be allocated again, the pointer to the old one is as good as \<^verbatim>\<open>NULL\<close>.
\<close>

record pdok_env =
  pdokAnswer :: "pdok_out list \<Rightarrow> tOplkError"
  pdokMalloc :: "nat \<Rightarrow> tPdoChannel list option"
  pdokAllocMem :: bool

definition pdok_log :: "pdok_out \<Rightarrow> tPdokInstance \<Rightarrow> tPdokInstance" where
  "pdok_log out s = s\<lparr>pdokOuts := pdokOuts s @ [out]\<rparr>"

definition pdok_call :: "pdok_env \<Rightarrow> pdok_out \<Rightarrow> tPdokInstance \<Rightarrow> tOplkError \<times> tPdokInstance" where
  "pdok_call E out s = (pdokAnswer E (pdokOuts (pdok_log out s)), pdok_log out s)"

section \<open>Channel tables\<close>

text \<open>The two directions of a setup.\<close>

definition setup_count :: "pdo_dir \<Rightarrow> tPdoChannelSetup \<Rightarrow> nat" where
  "setup_count d c = (case d of Rx \<Rightarrow> rxPdoChannelCount c | Tx \<Rightarrow> txPdoChannelCount c)"

definition setup_table :: "pdo_dir \<Rightarrow> tPdoChannelSetup \<Rightarrow> tPdoChannel list option" where
  "setup_table d c = (case d of Rx \<Rightarrow> pRxPdoChannel c | Tx \<Rightarrow> pTxPdoChannel c)"

definition set_count :: "pdo_dir \<Rightarrow> nat \<Rightarrow> tPdoChannelSetup \<Rightarrow> tPdoChannelSetup" where
  "set_count d n c = (case d of Rx \<Rightarrow> c\<lparr>rxPdoChannelCount := n\<rparr> | Tx \<Rightarrow> c\<lparr>txPdoChannelCount := n\<rparr>)"

definition set_table ::
  "pdo_dir \<Rightarrow> tPdoChannel list option \<Rightarrow> tPdoChannelSetup \<Rightarrow> tPdoChannelSetup" where
  "set_table d t c = (case d of Rx \<Rightarrow> c\<lparr>pRxPdoChannel := t\<rparr> | Tx \<Rightarrow> c\<lparr>pTxPdoChannel := t\<rparr>)"

text \<open>The channel \<open>ch\<close> of a table; \<^term>\<open>None\<close> when there is no table or it has no such entry.\<close>

definition get_channel :: "pdo_dir \<Rightarrow> nat \<Rightarrow> tPdoChannelSetup \<Rightarrow> tPdoChannel option" where
  "get_channel d ch c =
     Option.bind (setup_table d c) (\<lambda>t. if ch < length t then Some (t ! ch) else None)"

definition put_channel ::
  "pdo_dir \<Rightarrow> nat \<Rightarrow> tPdoChannel \<Rightarrow> tPdoChannelSetup \<Rightarrow> tPdoChannelSetup option" where
  "put_channel d ch x c =
     Option.bind (setup_table d c)
       (\<lambda>t. if ch < length t then Some (set_table d (Some (t[ch := x])) c) else None)"

definition zero_setup :: tPdoChannelSetup where
  "zero_setup = \<lparr>rxPdoChannelCount = 0, txPdoChannelCount = 0, pRxPdoChannel = None, pTxPdoChannel = None\<rparr>"

text \<open>
  The allocation of one direction, in which both layers agree up to the further table of the user
  layer: nothing happens when the number stays the same.
\<close>

definition allocChannels ::
  "(nat \<Rightarrow> tPdoChannel list option) \<Rightarrow> pdo_dir \<Rightarrow> nat \<Rightarrow> tPdoChannelSetup \<Rightarrow> tOplkError \<times> tPdoChannelSetup" where
  "allocChannels alloc d n c =
     (if setup_count d c \<noteq> n then
        let c = set_table d None (set_count d n c)
        in if n = 0 then (kErrorOk, c)
           else (case alloc n of
               None \<Rightarrow> (kErrorPdoInitError, c)
             | Some t \<Rightarrow> (kErrorOk, set_table d (Some t) c))
      else (kErrorOk, c))"

definition disablePdoChannels :: "pdo_dir \<Rightarrow> nat \<Rightarrow> tPdoChannelSetup \<Rightarrow> tPdoChannelSetup option" where
  "disablePdoChannels d n c =
     (if n = 0 then Some c
      else Option.bind (setup_table d c)
        (\<lambda>t. if n \<le> length t
             then Some (set_table d (Some (map (\<lambda>x. x\<lparr>chNodeId := PDO_INVALID_NODE_ID\<rparr>) (take n t) @ drop n t)) c)
             else None))"

section \<open>Operations\<close>

definition pdokcal_init :: "pdok_env \<Rightarrow> tPdokInstance \<Rightarrow> tOplkError \<times> tPdokInstance" where
  "pdokcal_init E s =
     (let (ret, s) = pdok_call E PdokOpenMem s in
      if ret \<noteq> kErrorOk then (ret, s)
      else let (ret, s) = pdok_call E PdokInitSync s in
           if ret \<noteq> kErrorOk then (ret, s)
           else (ret, pdok_log (DllkRegRpdoHandler True) s))"

definition pdok_init :: "pdok_env \<Rightarrow> tPdokInstance \<Rightarrow> tOplkError \<times> tPdokInstance" where
  "pdok_init E s =
     (let (ret, s) = pdokcal_init E (s\<lparr>pdokChannels := zero_setup, pdokRunning := False\<rparr>) in
      if ret \<noteq> kErrorOk then (ret, s)
      else (ret, pdok_log (DllkRegTpdoHandler True) s))"

definition deAllocChannels :: "pdo_dir \<Rightarrow> tPdoChannelSetup \<Rightarrow> tPdoChannelSetup" where
  "deAllocChannels d c = (if setup_count d c \<noteq> 0 then set_table d None (set_count d 0 c) else c)"

definition pdok_deAllocChannelMem :: "pdok_env \<Rightarrow> tPdokInstance \<Rightarrow> tOplkError \<times> tPdokInstance" where
  "pdok_deAllocChannelMem E s =
     (let (ret, s) = pdok_call E (DllkDeleteNode C_ADR_BROADCAST) s in
      if ret \<noteq> kErrorOk then (ret, s)
      else (ret, s\<lparr>pdokChannels := deAllocChannels Tx (deAllocChannels Rx (pdokChannels s))\<rparr>))"

definition pdokcal_cleanupPdoMem :: "tPdokInstance \<Rightarrow> tPdokInstance" where
  "pdokcal_cleanupPdoMem s =
     (if pdoMem s = None then s else (pdok_log PdokFreeMem s)\<lparr>pdoMem := None\<rparr>)"

definition pdok_exit :: "pdok_env \<Rightarrow> tPdokInstance \<Rightarrow> tOplkError \<times> tPdokInstance" where
  "pdok_exit E s =
     (let (_, s) = pdok_deAllocChannelMem E (pdok_log (DllkRegTpdoHandler False) (s\<lparr>pdokRunning := False\<rparr>))
      in (kErrorOk, pdok_log PdokCloseMem (pdok_log PdokExitSync (pdokcal_cleanupPdoMem s))))"

definition pdok_allocChannelMem ::
  "pdok_env \<Rightarrow> nat \<Rightarrow> nat \<Rightarrow> tPdokInstance \<Rightarrow> (tOplkError \<times> tPdokInstance) option" where
  "pdok_allocChannelMem E rxCount txCount s =
     (let (ret, s) = pdok_call E (DllkDeleteNode C_ADR_BROADCAST) s in
      if ret \<noteq> kErrorOk then Some (ret, s)
      else
        let (ret, c) = allocChannels (pdokMalloc E) Rx rxCount (pdokChannels s) in
        if ret \<noteq> kErrorOk then Some (ret, s\<lparr>pdokChannels := c\<rparr>)
        else do {
          c \<leftarrow> disablePdoChannels Rx (setup_count Rx c) c;
          let (ret, c) = allocChannels (pdokMalloc E) Tx txCount c;
          if ret \<noteq> kErrorOk then Some (ret, s\<lparr>pdokChannels := c\<rparr>)
          else do {
            c \<leftarrow> disablePdoChannels Tx (setup_count Tx c) c;
            Some (ret, s\<lparr>pdokChannels := c\<rparr>)
          }
        })"

text \<open>The filter for the PRes frames of a channel's node in the DLL.\<close>

definition has_filter :: "tPdoChannel \<Rightarrow> bool" where
  "has_filter x \<longleftrightarrow> chNodeId x \<noteq> PDO_INVALID_NODE_ID \<and> chNodeId x \<noteq> PDO_PREQ_NODE_ID"

definition pdok_configureChannel ::
  "pdok_env \<Rightarrow> tPdoChannelConf \<Rightarrow> tPdokInstance \<Rightarrow> (tOplkError \<times> tPdokInstance) option" where
  "pdok_configureChannel E conf s =
     (let ch = confChannelId conf; new = confChannel conf in
      if \<not> confTx conf then
        if setup_count Rx (pdokChannels s) \<le> ch then Some (kErrorPdoNotExist, s)
        else do {
          old \<leftarrow> get_channel Rx ch (pdokChannels s);
          let (ret, s) = (if has_filter old then pdok_call E (DllkDeleteNode (chNodeId old)) s else (kErrorOk, s));
          if ret \<noteq> kErrorOk then Some (ret, s)
          else do {
            c \<leftarrow> put_channel Rx ch new (pdokChannels s);
            let s = s\<lparr>pdokChannels := c\<rparr>;
            let (ret, s) = (if has_filter new then pdok_call E (DllkAddNode (chNodeId new)) s else (kErrorOk, s));
            if ret \<noteq> kErrorOk then Some (ret, s)
            else Some (ret, s\<lparr>pdokRunning := False\<rparr>)
          }
        }
      else if setup_count Tx (pdokChannels s) \<le> ch then Some (kErrorPdoNotExist, s)
      else do {
        c \<leftarrow> put_channel Tx ch new (pdokChannels s);
        Some (kErrorOk, s\<lparr>pdokChannels := c, pdokRunning := False\<rparr>)
      })"

text \<open>The search of both callbacks: the first channel of a node.\<close>

definition find_channel :: "pdo_dir \<Rightarrow> nat \<Rightarrow> tPdoChannelSetup \<Rightarrow> nat option option" where
  "find_channel d node c =
     (if setup_count d c = 0 then Some None
      else Option.bind (setup_table d c)
        (\<lambda>t. if setup_count d c \<le> length t
             then Some (find (\<lambda>ch. chNodeId (t ! ch) = node) [0..<setup_count d c]) else None))"

definition frame_byte :: "nat \<Rightarrow> byte list \<Rightarrow> byte option" where
  "frame_byte off frame = (if off < length frame then Some (frame ! off) else None)"

definition set_frame_byte :: "nat \<Rightarrow> byte \<Rightarrow> byte list \<Rightarrow> byte list option" where
  "set_frame_byte off b frame = (if off < length frame then Some (frame[off := b]) else None)"

text \<open>The RPDO of a frame goes to its channel, unless the frame is not valid for it.\<close>

definition storeRxPdo :: "byte list \<Rightarrow> nat \<Rightarrow> nat \<Rightarrow> tPdokInstance \<Rightarrow> tPdokInstance option" where
  "storeRxPdo frame frameSize channelId s = do {
     x \<leftarrow> get_channel Rx channelId (pdokChannels s);
     version \<leftarrow> frame_byte OFFSET_PDO_VERSION frame;
     if mappingVersion x AND PLK_VERSION_MAIN \<noteq> version AND PLK_VERSION_MAIN then Some s
     else if frameSize < pdoSize x + PLK_FRAME_OFFSET_PDO_PAYLOAD then Some s
     else do {
       payload \<leftarrow> mem_read frame PLK_FRAME_OFFSET_PDO_PAYLOAD (pdoSize x);
       m \<leftarrow> pdoMem s;
       m \<leftarrow> pdokcal_writeRxPdo channelId payload m;
       Some (s\<lparr>pdoMem := Some m\<rparr>)
     }
   }"

text \<open>\<open>deferred\<close> is \<^verbatim>\<open>CONFIG_DLL_DEFERRED_RXFRAME_RELEASE_SYNC\<close>.\<close>

definition pdok_processRxPdo ::
  "bool \<Rightarrow> byte list \<Rightarrow> nat \<Rightarrow> tPdokInstance \<Rightarrow> (tOplkError \<times> tPdokInstance) option" where
  "pdok_processRxPdo deferred frame frameSize s = do {
     flag1 \<leftarrow> frame_byte OFFSET_FLAG1 frame;
     s \<leftarrow> (if flag1 AND PLK_FRAME_FLAG1_RD = 0 then Some s
       else do {
         msgType \<leftarrow> frame_byte OFFSET_MESSAGE_TYPE frame;
         node \<leftarrow> (if msgType = kMsgTypePreq then Some PDO_PREQ_NODE_ID
                  else map_option unat (frame_byte OFFSET_SRC_NODE_ID frame));
         if pdokRunning s then do {
           found \<leftarrow> find_channel Rx node (pdokChannels s);
           case found of None \<Rightarrow> Some s | Some ch \<Rightarrow> storeRxPdo frame frameSize ch s
         }
         else Some s
       });
     Some (kErrorOk, if deferred then pdok_log DllkReleaseRxFrame s else s)
   }"

text \<open>The sizes of the channels of a setup, which give the layout of the shared memory.\<close>

definition channel_sizes :: "pdo_dir \<Rightarrow> tPdoChannelSetup \<Rightarrow> nat list option" where
  "channel_sizes d c =
     (if setup_count d c = 0 then Some []
      else Option.bind (setup_table d c)
        (\<lambda>t. if setup_count d c \<le> length t then Some (map pdoSize (take (setup_count d c) t)) else None))"

definition pdok_setupPdoBuffers ::
  "pdok_env \<Rightarrow> nat \<Rightarrow> nat \<Rightarrow> tPdokInstance \<Rightarrow> (tOplkError \<times> tPdokInstance) option" where
  "pdok_setupPdoBuffers E rxPdoMemSize txPdoMemSize s = do {
     let s = (if pdoMem s = None then s else pdok_log PdokFreeMem s);
     rxSizes \<leftarrow> channel_sizes Rx (pdokChannels s);
     txSizes \<leftarrow> channel_sizes Tx (pdokChannels s);
     case pdokcal_initPdoMem (pdokAllocMem E) rxSizes txSizes rxPdoMemSize txPdoMemSize of (ret, m) \<Rightarrow>
     if ret \<noteq> kErrorOk then Some (ret, s\<lparr>pdoMem := None\<rparr>)
     else Some (kErrorOk, s\<lparr>pdoMem := m, pdokRunning := True\<rparr>)
   }"

definition pdok_sendSyncEvent :: "tPdokInstance \<Rightarrow> tOplkError \<times> tPdokInstance" where
  "pdok_sendSyncEvent s = (kErrorOk, pdok_log PdokSendSyncEvent s)"

text \<open>The TPDO of a frame that is going to be sent: the payload of a channel, or nothing.\<close>

definition fillTxPdo ::
  "byte list \<Rightarrow> nat \<Rightarrow> byte \<Rightarrow> bool \<Rightarrow> tPdokInstance \<Rightarrow> (byte list \<times> tPdokInstance) option" where
  "fillTxPdo frame channelId flag1 ready s = do {
     x \<leftarrow> get_channel Tx channelId (pdokChannels s);
     frame \<leftarrow> set_frame_byte OFFSET_PDO_VERSION (mappingVersion x) frame;
     m \<leftarrow> pdoMem s;
     (payload, m) \<leftarrow> pdokcal_readTxPdo channelId (pdoSize x) m;
     frame \<leftarrow> mem_write frame PLK_FRAME_OFFSET_PDO_PAYLOAD payload;
     frame \<leftarrow> put_at OFFSET_PDO_SIZE ami_setUint16Le frame (pdoSize x);
     frame \<leftarrow> (if ready then set_frame_byte OFFSET_FLAG1 (flag1 OR PLK_FRAME_FLAG1_RD) frame else Some frame);
     Some (frame, s\<lparr>pdoMem := Some m\<rparr>)
   }"

definition emptyTxPdo :: "byte list \<Rightarrow> byte \<Rightarrow> bool \<Rightarrow> byte list option" where
  "emptyTxPdo frame flag1 ready = do {
     frame \<leftarrow> put_at OFFSET_PDO_SIZE ami_setUint16Le frame 0;
     if ready then set_frame_byte OFFSET_FLAG1 (flag1 OR PLK_FRAME_FLAG1_RD) frame else Some frame
   }"

definition copyTxPdo ::
  "byte list \<Rightarrow> nat \<Rightarrow> bool \<Rightarrow> tPdokInstance \<Rightarrow> (byte list \<times> tPdokInstance) option" where
  "copyTxPdo frame frameSize ready s = do {
     flag1 \<leftarrow> frame_byte OFFSET_FLAG1 frame;
     frame \<leftarrow> set_frame_byte OFFSET_FLAG1 (flag1 AND NOT PLK_FRAME_FLAG1_RD) frame;
     msgType \<leftarrow> frame_byte OFFSET_MESSAGE_TYPE frame;
     node \<leftarrow> (if msgType = kMsgTypePres then Some PDO_PRES_NODE_ID
              else map_option unat (frame_byte OFFSET_DST_NODE_ID frame));
     found \<leftarrow> (if pdokRunning s then find_channel Tx node (pdokChannels s) else Some None);
     case found of
       None \<Rightarrow> map_option (\<lambda>frame. (frame, s)) (emptyTxPdo frame flag1 ready)
     | Some ch \<Rightarrow> do {
         x \<leftarrow> get_channel Tx ch (pdokChannels s);
         if frameSize < pdoSize x + 24
         then map_option (\<lambda>frame. (frame, s)) (emptyTxPdo frame flag1 ready)
         else fillTxPdo frame ch flag1 ready s
       }
   }"

definition cbProcessTpdo ::
  "byte list \<Rightarrow> nat \<Rightarrow> bool \<Rightarrow> tPdokInstance \<Rightarrow> (byte list \<times> tPdokInstance) option" where
  "cbProcessTpdo frame frameSize ready s = copyTxPdo frame frameSize ready s"

text \<open>
  A received frame is posted to the event queue: the frame information, or the bytes of the frame
  up to the end of the PDO.
\<close>

definition cbProcessRpdo ::
  "pdok_env \<Rightarrow> bool \<Rightarrow> nat \<Rightarrow> byte list \<Rightarrow> tPdokInstance \<Rightarrow> (tOplkError \<times> tPdokInstance) option" where
  "cbProcessRpdo E deferred frameInfoSize frame s = do {
     argSize \<leftarrow> (if deferred then Some frameInfoSize
       else map_option (\<lambda>n. n + PLK_FRAME_OFFSET_PDO_PAYLOAD) (ami_getUint16Le (drop OFFSET_PDO_SIZE frame)));
     let (ret, s) = pdok_call E (EventkPostPdoRx argSize) s;
     Some (if deferred \<and> ret = kErrorOk then kErrorReject else ret, s)
   }"

text \<open>The events that the module handles; any other event is an error.\<close>

datatype pdok_event =
    PdokAlloc nat nat
  | PdokConfig tPdoChannelConf
  | PdokSetupPdoBuf nat nat
  | PdoRx "byte list" nat
  | PdokControlSync bool
  | PdokOther

definition pdokcal_process ::
  "pdok_env \<Rightarrow> bool \<Rightarrow> pdok_event \<Rightarrow> tPdokInstance \<Rightarrow> (tOplkError \<times> tPdokInstance) option" where
  "pdokcal_process E deferred event s =
     (case event of
        PdokAlloc rxCount txCount \<Rightarrow> pdok_allocChannelMem E rxCount txCount s
      | PdokConfig conf \<Rightarrow> pdok_configureChannel E conf s
      | PdokSetupPdoBuf rxSize txSize \<Rightarrow> pdok_setupPdoBuffers E rxSize txSize s
      | PdoRx frame frameSize \<Rightarrow> pdok_processRxPdo deferred frame frameSize s
      | PdokControlSync enable \<Rightarrow> Some (pdok_call E (PdokCalControlSync enable) s)
      | PdokOther \<Rightarrow> Some (kErrorInvalidEvent, s))"

end
