(* ===== verification/Pdou.thy ===== *)
theory Pdou
  imports Pdok
begin

text \<open>
  The user part of the process data exchange (\<^verbatim>\<open>src/stack/src/user/pdo/pdou.c\<close> and
  \<^verbatim>\<open>pdoucal.c\<close>): it reads the mapping of the PDOs from the object dictionary, checks it, configures
  the channels of both layers, and copies the mapped variables to and from the shared buffers.

  The variables are one byte memory, and a mapping object holds the address of its variable in it.
  The object dictionary is an argument (\<open>pdou_od\<close>), a function of index and sub-index that may be
  another one at the next call. The host is little endian.
\<close>

unbundle bit_operations_syntax

section \<open>Types of objects\<close>

datatype tObdType =
    kObdTypeBool | kObdTypeInt8 | kObdTypeInt16 | kObdTypeInt32 | kObdTypeUInt8 | kObdTypeUInt16
  | kObdTypeUInt32 | kObdTypeReal32 | kObdTypeVString | kObdTypeOString | kObdTypeTimeOfDay
  | kObdTypeTimeDiff | kObdTypeDomain | kObdTypeInt24 | kObdTypeReal64 | kObdTypeInt40
  | kObdTypeInt48 | kObdTypeInt56 | kObdTypeInt64 | kObdTypeUInt24 | kObdTypeUInt40
  | kObdTypeUInt48 | kObdTypeUInt56 | kObdTypeUInt64

primrec obd_type_code :: "tObdType \<Rightarrow> nat" where
  "obd_type_code kObdTypeBool = 0x01"
| "obd_type_code kObdTypeInt8 = 0x02"
| "obd_type_code kObdTypeInt16 = 0x03"
| "obd_type_code kObdTypeInt32 = 0x04"
| "obd_type_code kObdTypeUInt8 = 0x05"
| "obd_type_code kObdTypeUInt16 = 0x06"
| "obd_type_code kObdTypeUInt32 = 0x07"
| "obd_type_code kObdTypeReal32 = 0x08"
| "obd_type_code kObdTypeVString = 0x09"
| "obd_type_code kObdTypeOString = 0x0A"
| "obd_type_code kObdTypeTimeOfDay = 0x0C"
| "obd_type_code kObdTypeTimeDiff = 0x0D"
| "obd_type_code kObdTypeDomain = 0x0F"
| "obd_type_code kObdTypeInt24 = 0x10"
| "obd_type_code kObdTypeReal64 = 0x11"
| "obd_type_code kObdTypeInt40 = 0x12"
| "obd_type_code kObdTypeInt48 = 0x13"
| "obd_type_code kObdTypeInt56 = 0x14"
| "obd_type_code kObdTypeInt64 = 0x15"
| "obd_type_code kObdTypeUInt24 = 0x16"
| "obd_type_code kObdTypeUInt40 = 0x18"
| "obd_type_code kObdTypeUInt48 = 0x19"
| "obd_type_code kObdTypeUInt56 = 0x1A"
| "obd_type_code kObdTypeUInt64 = 0x1B"

text \<open>The enumeration value as a type again; \<^term>\<open>None\<close> is the \<^verbatim>\<open>default\<close> of a \<^verbatim>\<open>switch\<close>.\<close>

definition obd_type_of :: "nat \<Rightarrow> tObdType option" where
  "obd_type_of code = find (\<lambda>t. obd_type_code t = code)
     [kObdTypeBool, kObdTypeInt8, kObdTypeInt16, kObdTypeInt32, kObdTypeUInt8, kObdTypeUInt16,
      kObdTypeUInt32, kObdTypeReal32, kObdTypeVString, kObdTypeOString, kObdTypeTimeOfDay,
      kObdTypeTimeDiff, kObdTypeDomain, kObdTypeInt24, kObdTypeReal64, kObdTypeInt40,
      kObdTypeInt48, kObdTypeInt56, kObdTypeInt64, kObdTypeUInt24, kObdTypeUInt40,
      kObdTypeUInt48, kObdTypeUInt56, kObdTypeUInt64]"

definition is_string_type :: "tObdType \<Rightarrow> bool" where
  "is_string_type t \<longleftrightarrow> t = kObdTypeVString \<or> t = kObdTypeOString \<or> t = kObdTypeDomain"

section \<open>State\<close>

record tPdoMappObject =
  mapVar :: nat \<comment> \<open>\<^verbatim>\<open>pVar\<close>\<close>
  bitOffset :: nat
  byteSizeOrType :: nat

record tPdoEventPdoChange =
  chgActivated :: bool
  chgTx :: bool
  chgNodeId :: nat
  chgMappParamIndex :: nat
  chgMappObjectCount :: nat

datatype pdou_out =
    PdoucalInit | PdoucalCleanupPdoMem | PdoucalExit
  | PostPdok pdok_event \<comment> \<open>an event for the kernel module\<close>
  | PdoChange tPdoEventPdoChange \<comment> \<open>the callback of the application\<close>
  | TargetMsleep nat
  | PdoucalInitPdoMem nat nat

record tPdouInstance =
  aPdoIdToChannelIdRx :: "nat list"
  aPdoIdToChannelIdTx :: "nat list"
  pdouChannels :: tPdoChannelSetup
  paRxObject :: "tPdoMappObject list option"
  paTxObject :: "tPdoMappObject list option"
  fAllocated :: bool
  pdouRunning :: bool
  pfnCbEventPdoChange :: bool \<comment> \<open>a callback is registered\<close>
  pdouOuts :: "pdou_out list"

record pdou_env =
  pdouAnswer :: "pdou_out list \<Rightarrow> tOplkError"
  mallocChannels :: "nat \<Rightarrow> tPdoChannel list option"
  mallocObjects :: "nat \<Rightarrow> tPdoMappObject list option"

record pdou_od =
  odRead :: "nat \<Rightarrow> nat \<Rightarrow> tOplkError \<times> nat" \<comment> \<open>\<^verbatim>\<open>obd_readEntry\<close> of a numerical entry\<close>
  odType :: "nat \<Rightarrow> nat \<Rightarrow> tOplkError \<times> tObdType"
  odAccess :: "nat \<Rightarrow> nat \<Rightarrow> tOplkError \<times> byte"
  odDataSize :: "nat \<Rightarrow> nat \<Rightarrow> nat"
  odNumerical :: "nat \<Rightarrow> nat \<Rightarrow> tOplkError \<times> bool"
  odDataPtr :: "nat \<Rightarrow> nat \<Rightarrow> nat option"

abbreviation (input) PDOU_OBD_IDX_RX_COMM_PARAM :: nat where "PDOU_OBD_IDX_RX_COMM_PARAM \<equiv> 0x1400"
abbreviation (input) PDOU_OBD_IDX_RX_MAPP_PARAM :: nat where "PDOU_OBD_IDX_RX_MAPP_PARAM \<equiv> 0x1600"
abbreviation (input) PDOU_OBD_IDX_TX_COMM_PARAM :: nat where "PDOU_OBD_IDX_TX_COMM_PARAM \<equiv> 0x1800"
abbreviation (input) PDOU_OBD_IDX_TX_MAPP_PARAM :: nat where "PDOU_OBD_IDX_TX_MAPP_PARAM \<equiv> 0x1A00"
abbreviation (input) PDOU_OBD_IDX_MAPP_PARAM :: nat where "PDOU_OBD_IDX_MAPP_PARAM \<equiv> 0x0200"
abbreviation (input) PDOU_OBD_IDX_MASK :: nat where "PDOU_OBD_IDX_MASK \<equiv> 0xFF00"
abbreviation (input) PDOU_PDO_ID_MASK :: nat where "PDOU_PDO_ID_MASK \<equiv> 0x00FF"
abbreviation (input) PDOU_MAX_PDO_OBJECTS :: nat where "PDOU_MAX_PDO_OBJECTS \<equiv> 256"
abbreviation (input) D_PDO_ChannelObjects :: nat where "D_PDO_ChannelObjects \<equiv> 254"
abbreviation (input) D_PDO_RPDOChannels_U16 :: nat where "D_PDO_RPDOChannels_U16 \<equiv> 256"
abbreviation (input) PDO_COMMUNICATION_PROFILE_START :: nat where "PDO_COMMUNICATION_PROFILE_START \<equiv> 0x1000"
abbreviation (input) kObdAccRead :: byte where "kObdAccRead \<equiv> 0x01"
abbreviation (input) kObdAccWrite :: byte where "kObdAccWrite \<equiv> 0x02"
abbreviation (input) kObdAccPdo :: byte where "kObdAccPdo \<equiv> 0x08"
abbreviation (input) SDO_AC_OBJECT_NOT_EXIST :: nat where "SDO_AC_OBJECT_NOT_EXIST \<equiv> 0x06020000"
abbreviation (input) SDO_AC_OBJECT_NOT_MAPPABLE :: nat where "SDO_AC_OBJECT_NOT_MAPPABLE \<equiv> 0x06040041"
abbreviation (input) SDO_AC_PDO_LENGTH_EXCEEDED :: nat where "SDO_AC_PDO_LENGTH_EXCEEDED \<equiv> 0x06040042"
abbreviation (input) SDO_AC_GEN_PARAM_INCOMPATIBILITY :: nat where "SDO_AC_GEN_PARAM_INCOMPATIBILITY \<equiv> 0x06040043"
abbreviation (input) SDO_AC_GEN_INTERNAL_INCOMPATIBILITY :: nat where "SDO_AC_GEN_INTERNAL_INCOMPATIBILITY \<equiv> 0x06040047"
abbreviation (input) SDO_AC_VALUE_RANGE_EXCEEDED :: nat where "SDO_AC_VALUE_RANGE_EXCEEDED \<equiv> 0x06090030"
abbreviation (input) SDO_AC_GENERAL_ERROR :: nat where "SDO_AC_GENERAL_ERROR \<equiv> 0x08000000"
abbreviation (input) SDO_AC_DATA_NOT_TRANSF_DUE_LOCAL_CONTROL :: nat where
  "SDO_AC_DATA_NOT_TRANSF_DUE_LOCAL_CONTROL \<equiv> 0x08000021"

text \<open>The number of TPDOs: a controlled node has one.\<close>

definition D_PDO_TPDOChannels_U16 :: "bool \<Rightarrow> nat" where
  "D_PDO_TPDOChannels_U16 mn = (if mn then 256 else 1)"

definition pdou_log :: "pdou_out \<Rightarrow> tPdouInstance \<Rightarrow> tPdouInstance" where
  "pdou_log out s = s\<lparr>pdouOuts := pdouOuts s @ [out]\<rparr>"

definition pdou_call :: "pdou_env \<Rightarrow> pdou_out \<Rightarrow> tPdouInstance \<Rightarrow> tOplkError \<times> tPdouInstance" where
  "pdou_call E out s = (pdouAnswer E (pdouOuts (pdou_log out s)), pdou_log out s)"

text \<open>The tables of mapping objects.\<close>

definition objects :: "pdo_dir \<Rightarrow> tPdouInstance \<Rightarrow> tPdoMappObject list option" where
  "objects d s = (case d of Rx \<Rightarrow> paRxObject s | Tx \<Rightarrow> paTxObject s)"

definition set_objects :: "pdo_dir \<Rightarrow> tPdoMappObject list option \<Rightarrow> tPdouInstance \<Rightarrow> tPdouInstance" where
  "set_objects d t s = (case d of Rx \<Rightarrow> s\<lparr>paRxObject := t\<rparr> | Tx \<Rightarrow> s\<lparr>paTxObject := t\<rparr>)"

section \<open>Checking a mapping\<close>

definition decodeObjectMapping :: "u64 \<Rightarrow> nat \<times> nat \<times> nat \<times> nat" where
  "decodeObjectMapping objectMapping =
     (unat (objectMapping AND 0x000000000000FFFF),
      unat (drop_bit 16 (objectMapping AND 0x0000000000FF0000)),
      unat (drop_bit 32 (objectMapping AND 0x0000FFFF00000000)),
      unat (drop_bit 48 (objectMapping AND 0xFFFF000000000000)))"

definition mapp_object :: "nat \<Rightarrow> nat \<Rightarrow> tObdType \<Rightarrow> nat \<Rightarrow> tPdoMappObject" where
  "mapp_object var off t byteSize = \<lparr>mapVar = var, bitOffset = off mod 2 ^ 16,
     byteSizeOrType = (if is_string_type t then (byteSize + PDO_COMMUNICATION_PROFILE_START) mod 2 ^ 16
                       else obd_type_code t)\<rparr>"

text \<open>
  The result of a check: the error, the abort code, and the mapping object with the size that it
  needs in the PDO (\<^term>\<open>None\<close> where the code stores no object: on an error, or for an empty
  mapping, with the size 0).
\<close>

definition checkAndSetObjectMapping ::
  "pdou_od \<Rightarrow> u64 \<Rightarrow> byte \<Rightarrow> nat \<Rightarrow> tOplkError \<times> nat \<times> (tPdoMappObject \<times> nat) option" where
  "checkAndSetObjectMapping OD objectMapping neededAccess abortCode =
     (if objectMapping = 0 then (kErrorOk, abortCode, None)
      else
        let (index, subIndex, off, bitSize) = decodeObjectMapping objectMapping;
            (typeErr, t) = odType OD index subIndex;
            (accessErr, access) = odAccess OD index subIndex;
            byteSize = (if t = kObdTypeBool then 1 else bitSize div 8);
            size_o = odDataSize OD index subIndex;
            abort = (if size_o < byteSize then SDO_AC_GENERAL_ERROR else abortCode);
            (numErr, numerical) = odNumerical OD index subIndex
        in if off AND 7 \<noteq> 0 then (kErrorPdoGranularityMismatch, SDO_AC_GENERAL_ERROR, None)
        else if typeErr \<noteq> kErrorOk then (kErrorPdoVarNotFound, SDO_AC_OBJECT_NOT_EXIST, None)
        else if bitSize AND 7 \<noteq> 0 \<and> (bitSize \<noteq> 1 \<or> t \<noteq> kObdTypeBool)
        then (kErrorPdoGranularityMismatch, SDO_AC_GENERAL_ERROR, None)
        else if accessErr \<noteq> kErrorOk then (kErrorPdoVarNotFound, SDO_AC_OBJECT_NOT_EXIST, None)
        else if access AND kObdAccPdo = 0 then (kErrorPdoVarNotMappable, SDO_AC_OBJECT_NOT_MAPPABLE, None)
        else if access AND neededAccess = 0 then (kErrorPdoVarNotMappable, SDO_AC_OBJECT_NOT_MAPPABLE, None)
        else if numErr \<noteq> kErrorOk then (numErr, SDO_AC_OBJECT_NOT_EXIST, None)
        else if numerical \<and> byteSize \<noteq> size_o then (kErrorPdoVarNotFound, SDO_AC_GENERAL_ERROR, None)
        else (case odDataPtr OD index subIndex of
            None \<Rightarrow> (kErrorPdoVarNotFound, SDO_AC_OBJECT_NOT_EXIST, None)
          | Some var \<Rightarrow> (kErrorOk, abort, Some (mapp_object var off t byteSize, off div 8 + byteSize))))"

text \<open>
  The loop over the sub-indexes that are left. \<open>pos\<close> is where the next object is stored, \<open>calc\<close> the
  size of the PDO so far and \<open>count\<close> the number of objects.
\<close>

fun setupMappingLoop ::
  "pdou_od \<Rightarrow> nat \<Rightarrow> nat \<Rightarrow> nat list \<Rightarrow> nat \<Rightarrow> tPdoMappObject list \<Rightarrow> nat \<Rightarrow> nat \<Rightarrow> nat \<Rightarrow> tOplkError \<Rightarrow>
     (tOplkError \<times> nat \<times> tPdoMappObject list \<times> nat \<times> nat) option" where
  "setupMappingLoop OD mappParamIndex maxPdoSize [] pos tbl abortCode calc count ret =
     Some (ret, abortCode, tbl, calc, count)"
| "setupMappingLoop OD mappParamIndex maxPdoSize (mappSubindex # subs) pos tbl abortCode calc count ret =
     (let (ret, objectMapping) = odRead OD mappParamIndex mappSubindex in
      if ret \<noteq> kErrorOk then Some (ret, SDO_AC_GENERAL_ERROR, tbl, calc, count)
      else
        let neededAccess = (if PDOU_OBD_IDX_TX_MAPP_PARAM \<le> mappParamIndex then kObdAccRead else kObdAccWrite);
            (ret, abortCode, res) = checkAndSetObjectMapping OD (word_of_nat objectMapping) neededAccess abortCode
        in if ret \<noteq> kErrorOk then Some (ret, abortCode, tbl, calc, count)
        else (case res of
            None \<Rightarrow> setupMappingLoop OD mappParamIndex maxPdoSize subs pos tbl abortCode calc count ret
          | Some (obj, curPdoSize) \<Rightarrow>
              if length tbl \<le> pos then None
              else
                let tbl = tbl[pos := obj] in
                if curPdoSize = 0 then setupMappingLoop OD mappParamIndex maxPdoSize subs pos tbl abortCode calc count ret
                else if maxPdoSize < curPdoSize then
                  Some (kErrorPdoLengthExceeded, SDO_AC_PDO_LENGTH_EXCEEDED, tbl, calc, count)
                else setupMappingLoop OD mappParamIndex maxPdoSize subs (pos + 1) tbl abortCode
                  (if calc < curPdoSize then curPdoSize mod 2 ^ 16 else calc) (count + 1) ret))"

definition setupMappingObjects ::
  "pdou_od \<Rightarrow> nat \<Rightarrow> nat \<Rightarrow> nat \<Rightarrow> nat \<Rightarrow> tPdoMappObject list \<Rightarrow> nat \<Rightarrow>
     (tOplkError \<times> nat \<times> tPdoMappObject list \<times> nat \<times> nat) option" where
  "setupMappingObjects OD mappParamIndex objectCount maxPdoSize pos tbl abortCode =
     setupMappingLoop OD mappParamIndex maxPdoSize [1..<objectCount + 1] pos tbl abortCode 0 0 kErrorOk"

definition getMaxPdoSize :: "pdou_od \<Rightarrow> nat \<Rightarrow> bool \<Rightarrow> nat \<Rightarrow> tOplkError \<times> nat \<times> nat" where
  "getMaxPdoSize OD nodeId fTxPdo abortCode =
     (let common = (nodeId = (if fTxPdo then PDO_PRES_NODE_ID else PDO_PREQ_NODE_ID));
          index = (if common then 0x1F98 else if fTxPdo then 0x1F8B else 0x1F8D);
          subIndex = (if common then (if fTxPdo then 0x05 else 0x04) else nodeId);
          (ret, subIndexCount) = (if common then (kErrorOk, subIndex) else odRead OD index 0)
      in if ret \<noteq> kErrorOk then (ret, SDO_AC_GENERAL_ERROR, 0)
      else if subIndexCount < subIndex then (kErrorPdoLengthExceeded, SDO_AC_GEN_PARAM_INCOMPATIBILITY, 0)
      else let (ret, maxPdoSize) = odRead OD index subIndex
           in if ret \<noteq> kErrorOk then (ret, SDO_AC_GENERAL_ERROR, 0) else (ret, abortCode, maxPdoSize))"

definition checkPdoValidity :: "pdou_od \<Rightarrow> nat \<Rightarrow> nat \<Rightarrow> tPdouInstance \<Rightarrow> tOplkError \<times> nat" where
  "checkPdoValidity OD mappParamIndex abortCode s =
     (if pdouRunning s then
        let (ret, objectCount) = odRead OD mappParamIndex 0 in
        if ret \<noteq> kErrorOk then (ret, SDO_AC_GEN_INTERNAL_INCOMPATIBILITY)
        else if objectCount \<noteq> 0 then (kErrorPdoConfWhileEnabled, SDO_AC_GEN_PARAM_INCOMPATIBILITY)
        else (ret, abortCode)
      else (kErrorOk, abortCode))"

section \<open>Configuration\<close>

definition getPdoChannelId :: "bool \<Rightarrow> nat \<Rightarrow> bool \<Rightarrow> tPdouInstance \<Rightarrow> nat option" where
  "getPdoChannelId mn pdoId fTxPdo s =
     (if fTxPdo \<and> \<not> mn then Some 0
      else let tbl = (if fTxPdo then aPdoIdToChannelIdTx s else aPdoIdToChannelIdRx s)
           in if pdoId < length tbl then Some (tbl ! pdoId) else None)"

definition pdoucal_postConfigureChannel ::
  "pdou_env \<Rightarrow> tPdoChannelConf \<Rightarrow> tPdouInstance \<Rightarrow> tOplkError \<times> tPdouInstance" where
  "pdoucal_postConfigureChannel E conf = pdou_call E (PostPdok (PdokConfig conf))"

definition configurePdoChannel ::
  "pdou_env \<Rightarrow> tPdoChannelConf \<Rightarrow> tPdouInstance \<Rightarrow> (tOplkError \<times> tPdouInstance) option" where
  "configurePdoChannel E conf s =
     (if fAllocated s then do {
        c \<leftarrow> put_channel (if confTx conf then Tx else Rx) (confChannelId conf) (confChannel conf) (pdouChannels s);
        Some (pdoucal_postConfigureChannel E conf (s\<lparr>pdouChannels := c\<rparr>))
      }
      else Some (kErrorOk, s))"

definition callPdoChangeCb ::
  "pdou_env \<Rightarrow> pdou_od \<Rightarrow> bool \<Rightarrow> nat \<Rightarrow> nat \<Rightarrow> nat \<Rightarrow> bool \<Rightarrow> tPdouInstance \<Rightarrow> tOplkError \<times> tPdouInstance" where
  "callPdoChangeCb E OD fActivated nodeId mappParamIndex objectCount fTx s =
     (let (ret, count) = (if fActivated then (kErrorOk, objectCount) else odRead OD mappParamIndex 0) in
      if ret \<noteq> kErrorOk then (ret, s)
      else if \<not> fActivated \<and> count = 0 then (ret, s)
      else pdou_call E (PdoChange \<lparr>chgActivated = fActivated, chgTx = fTx, chgNodeId = nodeId,
             chgMappParamIndex = mappParamIndex, chgMappObjectCount = count\<rparr>) s)"

text \<open>The callback at the end of \<^verbatim>\<open>checkAndConfigurePdo\<close>, if there is one.\<close>

definition reportPdoChange ::
  "pdou_env \<Rightarrow> pdou_od \<Rightarrow> bool \<Rightarrow> nat \<Rightarrow> nat \<Rightarrow> nat \<Rightarrow> bool \<Rightarrow> tOplkError \<Rightarrow> nat \<Rightarrow> tPdouInstance \<Rightarrow>
     tOplkError \<times> nat \<times> tPdouInstance" where
  "reportPdoChange E OD fActivated nodeId mappParamIndex objectCount fTx ret abortCode s =
     (if fAllocated s \<and> pfnCbEventPdoChange s then
        let (ret, s) = callPdoChangeCb E OD fActivated nodeId mappParamIndex objectCount fTx s
        in (ret, if ret \<noteq> kErrorOk then SDO_AC_DATA_NOT_TRANSF_DUE_LOCAL_CONTROL else abortCode, s)
      else (ret, abortCode, s))"

text \<open>The PDO is disabled: no mapping objects.\<close>

definition disablePdo ::
  "pdou_env \<Rightarrow> pdou_od \<Rightarrow> nat \<Rightarrow> nat \<Rightarrow> bool \<Rightarrow> nat \<Rightarrow> byte \<Rightarrow> nat \<Rightarrow> tPdouInstance \<Rightarrow>
     (tOplkError \<times> nat \<times> tPdouInstance) option" where
  "disablePdo E OD nodeId mappParamIndex fTxPdo channelId version abortCode s = do {
     (ret, s) \<leftarrow> configurePdoChannel E \<lparr>confChannelId = channelId, confTx = fTxPdo,
       confChannel = \<lparr>chNodeId = PDO_INVALID_NODE_ID, pdoSize = 0, mappingVersion = version, mappObjectCount = 0\<rparr>\<rparr>
       (s\<lparr>pdouRunning := False\<rparr>);
     Some (reportPdoChange E OD False nodeId mappParamIndex 0 fTxPdo ret abortCode s)
   }"

definition enablePdo ::
  "pdou_env \<Rightarrow> pdou_od \<Rightarrow> nat \<Rightarrow> nat \<Rightarrow> bool \<Rightarrow> nat \<Rightarrow> nat \<Rightarrow> nat \<Rightarrow> tPdouInstance \<Rightarrow>
     (tOplkError \<times> nat \<times> tPdouInstance) option" where
  "enablePdo E OD nodeId mappParamIndex fTxPdo channelId objectCount abortCode s =
     (let commParamIndex = mappParamIndex AND (0xFFFF - PDOU_OBD_IDX_MAPP_PARAM);
          d = (if fTxPdo then Tx else Rx);
          (ret, abortCode) = checkPdoValidity OD mappParamIndex abortCode s
      in if ret \<noteq> kErrorOk then Some (ret, abortCode, s)
      else let (ret, version) = odRead OD commParamIndex 0x02 in
        if ret \<noteq> kErrorOk then Some (ret, abortCode, s)
        else let (ret, abortCode, maxPdoSize) = getMaxPdoSize OD nodeId fTxPdo abortCode in
          if ret \<noteq> kErrorOk then Some (ret, abortCode, s)
          else do {
            tbl \<leftarrow> objects d s;
            (ret, abortCode, tbl, calcPdoSize, count) \<leftarrow>
              setupMappingObjects OD mappParamIndex objectCount maxPdoSize (channelId * D_PDO_ChannelObjects) tbl abortCode;
            let s = set_objects d (Some tbl) s;
            if ret \<noteq> kErrorOk then Some (ret, abortCode, s)
            else do {
              (ret, s) \<leftarrow> configurePdoChannel E \<lparr>confChannelId = channelId, confTx = fTxPdo,
                confChannel = \<lparr>chNodeId = nodeId, pdoSize = calcPdoSize, mappingVersion = word_of_nat version,
                  mappObjectCount = count\<rparr>\<rparr> s;
              if ret \<noteq> kErrorOk then Some (ret, SDO_AC_GENERAL_ERROR, s)
              else Some (reportPdoChange E OD True nodeId mappParamIndex objectCount fTxPdo ret abortCode s)
            }
          })"

text \<open>\<open>junk\<close> is the mapping version of a disabled PDO, a field that is not set.\<close>

definition checkAndConfigurePdo ::
  "bool \<Rightarrow> pdou_env \<Rightarrow> pdou_od \<Rightarrow> byte \<Rightarrow> nat \<Rightarrow> nat \<Rightarrow> nat \<Rightarrow> tPdouInstance \<Rightarrow>
     (tOplkError \<times> nat \<times> tPdouInstance) option" where
  "checkAndConfigurePdo mn E OD junk mappParamIndex objectCount abortCode s =
     (let pdoId = mappParamIndex AND PDOU_PDO_ID_MASK;
          commParamIndex = mappParamIndex AND (0xFFFF - PDOU_OBD_IDX_MAPP_PARAM);
          fTxPdo = (PDOU_OBD_IDX_TX_MAPP_PARAM \<le> mappParamIndex)
      in if D_PDO_ChannelObjects < objectCount then
           Some (kErrorObdValueTooHigh, SDO_AC_VALUE_RANGE_EXCEEDED, s)
      else do {
        channelId \<leftarrow> getPdoChannelId mn pdoId fTxPdo s;
        let (ret, nodeId) = odRead OD commParamIndex 0x01;
        if ret \<noteq> kErrorOk then Some (ret, abortCode, s)
        else if objectCount = 0 then disablePdo E OD nodeId mappParamIndex fTxPdo channelId junk abortCode s
        else if \<not> fAllocated s then Some (ret, abortCode, s)
        else enablePdo E OD nodeId mappParamIndex fTxPdo channelId objectCount abortCode s
      })"


text \<open>
  The scan of \<^verbatim>\<open>setupRxPdoChannelTables\<close> and \<^verbatim>\<open>setupTxPdoChannelTables\<close> over the PDOs that are left:
  the table from PDO to channel (a controlled node keeps none for its TPDO), and the PDOs of the
  channels in their order.
\<close>

fun scanPdos ::
  "pdou_od \<Rightarrow> nat \<Rightarrow> nat \<Rightarrow> tOplkError \<Rightarrow> nat list \<Rightarrow> nat list \<Rightarrow> nat list \<Rightarrow> tOplkError \<times> nat list \<times> nat list" where
  "scanPdos OD base limit tooMany [] toChannel toPdo = (kErrorOk, toChannel, toPdo)"
| "scanPdos OD base limit tooMany (pdoId # pdoIds) toChannel toPdo =
     (let (ret, nodeId) = odRead OD (base + pdoId) 0x01 in
      if ret \<in> {kErrorObdIndexNotExist, kErrorObdSubindexNotExist, kErrorObdIllegalPart}
      then scanPdos OD base limit tooMany pdoIds toChannel toPdo
      else if ret \<noteq> kErrorOk then (ret, toChannel, toPdo)
      else if limit < length toPdo + 1 then (tooMany, toChannel, toPdo)
      else scanPdos OD base limit tooMany pdoIds
             (toChannel[pdoId := length toPdo]) (toPdo @ [pdoId]))"

definition setupRxPdoChannelTables :: "pdou_od \<Rightarrow> tPdouInstance \<Rightarrow> tOplkError \<times> nat list \<times> tPdouInstance" where
  "setupRxPdoChannelTables OD s =
     (let (ret, toChannel, toPdo) = scanPdos OD PDOU_OBD_IDX_RX_COMM_PARAM D_PDO_RPDOChannels_U16
            kErrorPdoTooManyPdos [0..<PDOU_MAX_PDO_OBJECTS] (replicate (PDOU_PDO_ID_MASK + 1) 0) []
      in (ret, toPdo, s\<lparr>aPdoIdToChannelIdRx := toChannel\<rparr>))"

definition setupTxPdoChannelTables ::
  "bool \<Rightarrow> pdou_od \<Rightarrow> tPdouInstance \<Rightarrow> tOplkError \<times> nat list \<times> tPdouInstance" where
  "setupTxPdoChannelTables mn OD s =
     (let (ret, toChannel, toPdo) = scanPdos OD PDOU_OBD_IDX_TX_COMM_PARAM (D_PDO_TPDOChannels_U16 mn)
            kErrorPdoTooManyTxPdos [0..<PDOU_MAX_PDO_OBJECTS] (replicate (PDOU_PDO_ID_MASK + 1) 0) []
      in (ret, toPdo, if mn then s\<lparr>aPdoIdToChannelIdTx := toChannel\<rparr> else s))"

text \<open>The tables of one direction. An allocation that fails leaves the new number behind.\<close>

definition allocateDirection ::
  "pdou_env \<Rightarrow> pdo_dir \<Rightarrow> nat \<Rightarrow> tPdouInstance \<Rightarrow> (tOplkError \<times> tPdouInstance) option" where
  "allocateDirection E d n s = do {
     let (ret, s) =
       (if setup_count d (pdouChannels s) \<noteq> n then
          let (ret, c) = allocChannels (mallocChannels E) d n (pdouChannels s);
              s = set_objects d None (s\<lparr>pdouChannels := c\<rparr>)
          in if ret \<noteq> kErrorOk \<or> n = 0 then (ret, s)
             else (case mallocObjects E (n * D_PDO_ChannelObjects) of
                 None \<Rightarrow> (kErrorPdoInitError, s)
               | Some t \<Rightarrow> (kErrorOk, set_objects d (Some t) s))
        else (kErrorOk, s));
     if ret \<noteq> kErrorOk then Some (ret, s)
     else do {
       c \<leftarrow> disablePdoChannels d n (pdouChannels s);
       Some (kErrorOk, s\<lparr>pdouChannels := c\<rparr>)
     }
   }"

definition allocatePdoChannels ::
  "pdou_env \<Rightarrow> nat \<Rightarrow> nat \<Rightarrow> tPdouInstance \<Rightarrow> (tOplkError \<times> tPdouInstance) option" where
  "allocatePdoChannels E rxCount txCount s = do {
     (ret, s) \<leftarrow> allocateDirection E Rx rxCount s;
     if ret \<noteq> kErrorOk then Some (ret, s) else allocateDirection E Tx txCount s
   }"

text \<open>The numbers of channels are kept.\<close>

definition freePdoChannels :: "tPdouInstance \<Rightarrow> tPdouInstance" where
  "freePdoChannels s = s\<lparr>pdouChannels := (pdouChannels s)\<lparr>pRxPdoChannel := None, pTxPdoChannel := None\<rparr>,
     paRxObject := None, paTxObject := None\<rparr>"

fun checkAndConfigurePdos ::
  "bool \<Rightarrow> pdou_env \<Rightarrow> pdou_od \<Rightarrow> byte \<Rightarrow> nat \<Rightarrow> nat list \<Rightarrow> nat \<Rightarrow> tOplkError \<Rightarrow> tPdouInstance \<Rightarrow>
     (tOplkError \<times> nat \<times> tPdouInstance) option" where
  "checkAndConfigurePdos mn E OD junk base [] abortCode ret s = Some (ret, abortCode, s)"
| "checkAndConfigurePdos mn E OD junk base (pdoId # pdoIds) abortCode ret s =
     (let (ret, objectCount) = odRead OD (base + pdoId) 0x00 in
      if ret \<noteq> kErrorOk then Some (ret, abortCode, s)
      else do {
        (ret, abortCode, s) \<leftarrow> checkAndConfigurePdo mn E OD junk (base + pdoId) objectCount abortCode s;
        if ret \<noteq> kErrorOk then Some (ret, abortCode, s)
        else checkAndConfigurePdos mn E OD junk base pdoIds abortCode ret s
      })"

definition calcPdoMemSize :: "tPdoChannelSetup \<Rightarrow> (nat \<times> nat) option" where
  "calcPdoMemSize c = do {
     rx \<leftarrow> channel_sizes Rx c;
     tx \<leftarrow> channel_sizes Tx c;
     Some (sum_list rx, sum_list tx)
   }"

definition pdoucal_postPdokChannelAlloc ::
  "pdou_env \<Rightarrow> nat \<Rightarrow> nat \<Rightarrow> tPdouInstance \<Rightarrow> tOplkError \<times> tPdouInstance" where
  "pdoucal_postPdokChannelAlloc E rxCount txCount = pdou_call E (PostPdok (PdokAlloc rxCount txCount))"

definition pdoucal_postSetupPdoBuffers ::
  "pdou_env \<Rightarrow> nat \<Rightarrow> nat \<Rightarrow> tPdouInstance \<Rightarrow> tOplkError \<times> tPdouInstance" where
  "pdoucal_postSetupPdoBuffers E rxSize txSize = pdou_call E (PostPdok (PdokSetupPdoBuf rxSize txSize))"

definition configureAllPdos ::
  "bool \<Rightarrow> pdou_env \<Rightarrow> pdou_od \<Rightarrow> byte \<Rightarrow> tPdouInstance \<Rightarrow> (tOplkError \<times> tPdouInstance) option" where
  "configureAllPdos mn E OD junk s =
     (let (ret, rxPdos, s) = setupRxPdoChannelTables OD s in
      if ret \<noteq> kErrorOk then Some (ret, s)
      else let (ret, txPdos, s) = setupTxPdoChannelTables mn OD s in
      if ret \<noteq> kErrorOk then Some (ret, s)
      else do {
        (ret, s) \<leftarrow> allocatePdoChannels E (length rxPdos) (length txPdos) s;
        if ret \<noteq> kErrorOk then Some (ret, s)
        else let (ret, s) = pdoucal_postPdokChannelAlloc E (length rxPdos) (length txPdos) s in
        if ret \<noteq> kErrorOk then Some (ret, s)
        else do {
          (ret, abortCode, s) \<leftarrow> checkAndConfigurePdos mn E OD junk PDOU_OBD_IDX_RX_MAPP_PARAM rxPdos 0 kErrorOk
            (s\<lparr>fAllocated := True\<rparr>);
          if ret \<noteq> kErrorOk then Some (ret, s)
          else do {
            (ret, abortCode, s) \<leftarrow>
              checkAndConfigurePdos mn E OD junk PDOU_OBD_IDX_TX_MAPP_PARAM txPdos abortCode kErrorOk s;
            if ret \<noteq> kErrorOk then Some (ret, s)
            else do {
              (rxSize, txSize) \<leftarrow> calcPdoMemSize (pdouChannels s);
              let (_, s) = pdoucal_postSetupPdoBuffers E rxSize txSize s;
              Some (pdou_call E (PdoucalInitPdoMem rxSize txSize) (pdou_log (TargetMsleep 500) s))
            }
          }
        }
      })"

section \<open>Calls\<close>

definition pdou_init :: "pdou_env \<Rightarrow> tPdouInstance \<Rightarrow> tOplkError \<times> tPdouInstance" where
  "pdou_init E s = pdou_call E PdoucalInit
     \<lparr>aPdoIdToChannelIdRx = replicate (PDOU_PDO_ID_MASK + 1) 0, aPdoIdToChannelIdTx = replicate (PDOU_PDO_ID_MASK + 1) 0,
      pdouChannels = zero_setup, paRxObject = None, paTxObject = None, fAllocated = False, pdouRunning = False,
      pfnCbEventPdoChange = False, pdouOuts = pdouOuts s\<rparr>"

definition pdou_exit :: "pdou_env \<Rightarrow> tPdouInstance \<Rightarrow> tOplkError \<times> tPdouInstance" where
  "pdou_exit E s = pdou_call E PdoucalExit (pdou_log PdoucalCleanupPdoMem
     (freePdoChannels (s\<lparr>pdouRunning := False, pfnCbEventPdoChange := False\<rparr>)))"

definition pdou_registerEventPdoChangeCb :: "bool \<Rightarrow> tPdouInstance \<Rightarrow> tOplkError \<times> tPdouInstance" where
  "pdou_registerEventPdoChangeCb cb s = (kErrorOk, s\<lparr>pfnCbEventPdoChange := cb\<rparr>)"

text \<open>All PDOs are disabled, whatever the single calls return.\<close>

fun disableAllPdos ::
  "bool \<Rightarrow> pdou_env \<Rightarrow> pdou_od \<Rightarrow> byte \<Rightarrow> nat list \<Rightarrow> nat \<Rightarrow> tPdouInstance \<Rightarrow> tPdouInstance option" where
  "disableAllPdos mn E OD junk [] abortCode s = Some s"
| "disableAllPdos mn E OD junk (mapParamIndex # idxs) abortCode s = do {
     (_, abortCode, s) \<leftarrow> checkAndConfigurePdo mn E OD junk mapParamIndex 0 abortCode s;
     disableAllPdos mn E OD junk idxs abortCode s
   }"

definition pdou_cbNmtStateChange ::
  "bool \<Rightarrow> pdou_env \<Rightarrow> pdou_od \<Rightarrow> byte \<Rightarrow> tNmtState \<Rightarrow> tPdouInstance \<Rightarrow> (tOplkError \<times> tPdouInstance) option" where
  "pdou_cbNmtStateChange mn E OD junk nmtState s =
     (if nmtState \<in> {kNmtGsOff, kNmtGsInitialising, kNmtGsResetApplication, kNmtGsResetCommunication} then
        if fAllocated s then do {
          s \<leftarrow> disableAllPdos mn E OD junk
            ([PDOU_OBD_IDX_RX_MAPP_PARAM..<PDOU_OBD_IDX_RX_MAPP_PARAM + (PDOU_PDO_ID_MASK + 1)] @
             [PDOU_OBD_IDX_TX_MAPP_PARAM..<PDOU_OBD_IDX_TX_MAPP_PARAM + (PDOU_PDO_ID_MASK + 1)]) 0 s;
          Some (kErrorOk, s\<lparr>fAllocated := False, pdouRunning := False\<rparr>)
        }
        else Some (kErrorOk, s)
      else if nmtState = kNmtGsResetConfiguration then do {
        (ret, s) \<leftarrow> configureAllPdos mn E OD junk (s\<lparr>fAllocated := False, pdouRunning := False\<rparr>);
        if ret \<noteq> kErrorOk then Some (ret, s) else Some (ret, s\<lparr>pdouRunning := True\<rparr>)
      }
      else Some (kErrorOk, s))"

text \<open>
  An access of the object dictionary: \<open>preWrite\<close> says that \<open>value\<close> is going to be written. The
  result is the error, the abort code and the state.
\<close>

definition pdou_cbObdAccess ::
  "bool \<Rightarrow> pdou_env \<Rightarrow> pdou_od \<Rightarrow> byte \<Rightarrow> bool \<Rightarrow> nat \<Rightarrow> nat \<Rightarrow> nat \<Rightarrow> tPdouInstance \<Rightarrow>
     (tOplkError \<times> nat \<times> tPdouInstance) option" where
  "pdou_cbObdAccess mn E OD junk preWrite index subIndex value s =
     (let indexType = index AND PDOU_OBD_IDX_MASK in
      if \<not> preWrite then Some (kErrorOk, 0, s)
      else if indexType = PDOU_OBD_IDX_RX_COMM_PARAM \<or> indexType = PDOU_OBD_IDX_TX_COMM_PARAM then
        (case checkPdoValidity OD (PDOU_OBD_IDX_MAPP_PARAM OR index) 0 s of (ret, abortCode) \<Rightarrow>
           Some (ret, abortCode, s))
      else if indexType = PDOU_OBD_IDX_RX_MAPP_PARAM \<or> indexType = PDOU_OBD_IDX_TX_MAPP_PARAM then
        if subIndex = 0 then checkAndConfigurePdo mn E OD junk index (value mod 2 ^ 8) 0 s
        else (case checkPdoValidity OD index 0 s of (ret, abortCode) \<Rightarrow>
          if ret \<noteq> kErrorOk then Some (ret, abortCode, s)
          else (case checkAndSetObjectMapping OD (word_of_nat value)
              (if indexType = PDOU_OBD_IDX_RX_MAPP_PARAM then kObdAccWrite else kObdAccRead) abortCode of
            (ret, abortCode, _) \<Rightarrow> Some (ret, abortCode, s)))
      else Some (kErrorPdoInvalidObjIndex, SDO_AC_GENERAL_ERROR, s))"

section \<open>Copying the variables\<close>

definition ami_setUint8Le :: "byte list \<Rightarrow> nat \<Rightarrow> byte list option" where
  "ami_setUint8Le buf v = mem_write buf 0 (bytes_le 1 v)"

definition ami_getUint8Le :: "byte list \<Rightarrow> nat option" where
  "ami_getUint8Le buf = map_option value_le (mem_read buf 0 1)"

text \<open>A variable of \<open>n\<close> bytes of the little endian host, and a place in the shared buffers.\<close>

definition host_get :: "nat \<Rightarrow> nat \<Rightarrow> byte list \<Rightarrow> nat option" where
  "host_get n a vars = map_option value_le (mem_read vars a n)"

definition host_put :: "nat \<Rightarrow> nat \<Rightarrow> nat \<Rightarrow> byte list \<Rightarrow> byte list option" where
  "host_put n a v vars = mem_write vars a (bytes_le n v)"

definition on_buf ::
  "nat \<times> nat \<Rightarrow> (byte list \<Rightarrow> byte list option) \<Rightarrow> tPdoMemRegion \<Rightarrow> tPdoMemRegion option" where
  "on_buf a f m =
     (if fst a < length (pTripleBuf m) then
        map_option (\<lambda>b. m\<lparr>pTripleBuf := (pTripleBuf m)[fst a := take (snd a) (pTripleBuf m ! fst a) @ b]\<rparr>)
          (f (drop (snd a) (pTripleBuf m ! fst a)))
      else None)"

definition in_buf :: "nat \<times> nat \<Rightarrow> (byte list \<Rightarrow> 'a option) \<Rightarrow> tPdoMemRegion \<Rightarrow> 'a option" where
  "in_buf a f m =
     (if fst a < length (pTripleBuf m) then f (drop (snd a) (pTripleBuf m ! fst a)) else None)"

definition object_place :: "nat \<times> nat \<Rightarrow> tPdoMappObject \<Rightarrow> nat \<times> nat" where
  "object_place pdo obj = (fst pdo, snd pdo + bitOffset obj div 8)"

text \<open>
  The types that need a conversion: the size of the variable and the functions of the abstract
  memory interface.
\<close>

definition number_access ::
  "tObdType \<Rightarrow> (nat \<times> (byte list \<Rightarrow> nat \<Rightarrow> byte list option) \<times> (byte list \<Rightarrow> nat option)) option" where
  "number_access t =
     (if t \<in> {kObdTypeBool, kObdTypeInt8, kObdTypeUInt8} then Some (1, ami_setUint8Le, ami_getUint8Le)
      else if t \<in> {kObdTypeInt16, kObdTypeUInt16} then Some (2, ami_setUint16Le, ami_getUint16Le)
      else if t \<in> {kObdTypeInt24, kObdTypeUInt24} then Some (4, ami_setUint24Le, ami_getUint24Le)
      else if t \<in> {kObdTypeInt32, kObdTypeUInt32, kObdTypeReal32} then Some (4, ami_setUint32Le, ami_getUint32Le)
      else if t \<in> {kObdTypeInt40, kObdTypeUInt40} then Some (8, ami_setUint40Le, ami_getUint40Le)
      else if t \<in> {kObdTypeInt48, kObdTypeUInt48} then Some (8, ami_setUint48Le, ami_getUint48Le)
      else if t \<in> {kObdTypeInt56, kObdTypeUInt56} then Some (8, ami_setUint56Le, ami_getUint56Le)
      else if t \<in> {kObdTypeInt64, kObdTypeUInt64, kObdTypeReal64} then Some (8, ami_setUint64Le, ami_getUint64Le)
      else None)"

text \<open>
  The size of an object that is copied as it is. A negative size (for a type that is not known) is
  an access outside every memory.
\<close>

definition object_size :: "tPdoMappObject \<Rightarrow> nat option" where
  "object_size obj = (if byteSizeOrType obj < PDO_COMMUNICATION_PROFILE_START then None
     else Some (byteSizeOrType obj - PDO_COMMUNICATION_PROFILE_START))"

definition is_time_type :: "tObdType \<Rightarrow> bool" where
  "is_time_type t \<longleftrightarrow> t = kObdTypeTimeOfDay \<or> t = kObdTypeTimeDiff"

text \<open>\<^verbatim>\<open>tTimeOfDay\<close> in the memory of the host.\<close>

definition host_get_time :: "nat \<Rightarrow> byte list \<Rightarrow> tTimeOfDay option" where
  "host_get_time a vars = do {
     ms \<leftarrow> host_get 4 a vars;
     d \<leftarrow> host_get 2 (a + 4) vars;
     Some \<lparr>msec = ms, days = d\<rparr>
   }"

definition host_put_time :: "nat \<Rightarrow> tTimeOfDay \<Rightarrow> byte list \<Rightarrow> byte list option" where
  "host_put_time a t vars = Option.bind (host_put 4 a (msec t) vars) (host_put 2 (a + 4) (days t))"

definition copyVarToPdo ::
  "byte list \<Rightarrow> nat \<times> nat \<Rightarrow> tPdoMappObject \<Rightarrow> tPdoMemRegion \<Rightarrow> (tOplkError \<times> tPdoMemRegion) option" where
  "copyVarToPdo vars pdo obj m =
     (let a = object_place pdo obj; var = mapVar obj;
          raw = (do {
            n \<leftarrow> object_size obj;
            bs \<leftarrow> mem_read vars var n;
            m \<leftarrow> on_buf a (\<lambda>buf. mem_write buf 0 bs) m;
            Some (kErrorOk, m)
          })
      in case obd_type_of (byteSizeOrType obj) of
           None \<Rightarrow> raw
         | Some t \<Rightarrow>
             (case number_access t of
                Some (n, put, _) \<Rightarrow> do {
                  v \<leftarrow> host_get n var vars;
                  m \<leftarrow> on_buf a (\<lambda>buf. put buf v) m;
                  Some (kErrorOk, m)
                }
              | None \<Rightarrow>
                  if is_time_type t then do {
                    time \<leftarrow> host_get_time var vars;
                    m \<leftarrow> on_buf a (\<lambda>buf. ami_setTimeOfDay buf time) m;
                    Some (kErrorOk, m)
                  }
                  else raw))"

text \<open>
  The other direction. For a time of day the arguments of \<^verbatim>\<open>ami_getTimeOfDay\<close> are the variable as
  the source and the PDO as the destination.
\<close>

definition copyVarFromPdo ::
  "nat \<times> nat \<Rightarrow> tPdoMappObject \<Rightarrow> tPdoMemRegion \<times> byte list \<Rightarrow>
     (tOplkError \<times> tPdoMemRegion \<times> byte list) option" where
  "copyVarFromPdo pdo obj mv =
     (case mv of (m, vars) \<Rightarrow>
      let a = object_place pdo obj; var = mapVar obj;
          raw = (do {
            n \<leftarrow> object_size obj;
            bs \<leftarrow> in_buf a (\<lambda>buf. mem_read buf 0 n) m;
            vars \<leftarrow> mem_write vars var bs;
            Some (kErrorOk, m, vars)
          })
      in case obd_type_of (byteSizeOrType obj) of
           None \<Rightarrow> raw
         | Some t \<Rightarrow>
             (case number_access t of
                Some (n, _, get) \<Rightarrow> do {
                  v \<leftarrow> in_buf a get m;
                  vars \<leftarrow> host_put n var v vars;
                  Some (kErrorOk, m, vars)
                }
              | None \<Rightarrow>
                  if is_time_type t then do {
                    time \<leftarrow> ami_getTimeOfDay (drop var vars);
                    m \<leftarrow> on_buf a (\<lambda>buf. host_put_time 0 time buf) m;
                    Some (kErrorOk, m, vars)
                  }
                  else raw))"

fun copyVarsToPdo ::
  "byte list \<Rightarrow> nat \<times> nat \<Rightarrow> tPdoMappObject list \<Rightarrow> tPdoMemRegion \<Rightarrow> tPdoMemRegion option" where
  "copyVarsToPdo vars pdo [] m = Some m"
| "copyVarsToPdo vars pdo (obj # objs) m = do {
     (_, m) \<leftarrow> copyVarToPdo vars pdo obj m;
     copyVarsToPdo vars pdo objs m
   }"

fun copyVarsFromPdo ::
  "nat \<times> nat \<Rightarrow> tPdoMappObject list \<Rightarrow> tPdoMemRegion \<times> byte list \<Rightarrow> (tPdoMemRegion \<times> byte list) option" where
  "copyVarsFromPdo pdo [] mv = Some mv"
| "copyVarsFromPdo pdo (obj # objs) mv = do {
     (_, mv) \<leftarrow> copyVarFromPdo pdo obj mv;
     copyVarsFromPdo pdo objs mv
   }"

text \<open>The mapping objects of a channel in its part of the table.\<close>

definition channel_objects :: "pdo_dir \<Rightarrow> nat \<Rightarrow> nat \<Rightarrow> tPdouInstance \<Rightarrow> tPdoMappObject list option" where
  "channel_objects d ch n s =
     (if n = 0 then Some []
      else Option.bind (objects d s) (\<lambda>t. mem_read t (ch * D_PDO_ChannelObjects) n))"

fun copyRxChannels ::
  "tPdouInstance \<Rightarrow> nat list \<Rightarrow> tPdoMemRegion \<times> byte list \<Rightarrow> (tPdoMemRegion \<times> byte list) option" where
  "copyRxChannels s [] mv = Some mv"
| "copyRxChannels s (ch # chs) mv = do {
     x \<leftarrow> get_channel Rx ch (pdouChannels s);
     if chNodeId x = PDO_INVALID_NODE_ID then copyRxChannels s chs mv
     else do {
       (pdo, m) \<leftarrow> pdoucal_getRxPdo ch (fst mv);
       objs \<leftarrow> channel_objects Rx ch (mappObjectCount x) s;
       mv \<leftarrow> copyVarsFromPdo pdo objs (m, snd mv);
       copyRxChannels s chs mv
     }
   }"

fun copyTxChannels ::
  "tPdouInstance \<Rightarrow> byte list \<Rightarrow> nat list \<Rightarrow> tPdoMemRegion \<Rightarrow> tPdoMemRegion option" where
  "copyTxChannels s vars [] m = Some m"
| "copyTxChannels s vars (ch # chs) m = do {
     x \<leftarrow> get_channel Tx ch (pdouChannels s);
     if chNodeId x = PDO_INVALID_NODE_ID then copyTxChannels s vars chs m
     else do {
       pdo \<leftarrow> pdoucal_getTxPdoAdrs ch m;
       objs \<leftarrow> channel_objects Tx ch (mappObjectCount x) s;
       m \<leftarrow> copyVarsToPdo vars pdo objs m;
       m \<leftarrow> pdoucal_setTxPdo ch m;
       copyTxChannels s vars chs m
     }
   }"

text \<open>The shared memory is \<^term>\<open>None\<close> when the pointer to it is \<^verbatim>\<open>NULL\<close>; without channels it is not used.\<close>

definition pdou_copyRxPdoToPi ::
  "tPdouInstance \<Rightarrow> tPdoMemRegion option \<Rightarrow> byte list \<Rightarrow> (tOplkError \<times> tPdoMemRegion option \<times> byte list) option" where
  "pdou_copyRxPdoToPi s m vars =
     (let n = setup_count Rx (pdouChannels s) in
      if \<not> pdouRunning s \<or> n = 0 then Some (kErrorOk, m, vars)
      else do {
        m \<leftarrow> m;
        (m, vars) \<leftarrow> copyRxChannels s [0..<n] (m, vars);
        Some (kErrorOk, Some m, vars)
      })"

definition pdou_copyTxPdoFromPi ::
  "tPdouInstance \<Rightarrow> tPdoMemRegion option \<Rightarrow> byte list \<Rightarrow> (tOplkError \<times> tPdoMemRegion option) option" where
  "pdou_copyTxPdoFromPi s m vars =
     (let n = setup_count Tx (pdouChannels s) in
      if \<not> pdouRunning s \<or> n = 0 then Some (kErrorOk, m)
      else do {
        m \<leftarrow> m;
        m \<leftarrow> copyTxChannels s vars [0..<n] m;
        Some (kErrorOk, Some m)
      })"


end
