(* ===== verification/Pdo_Exchange.thy ===== *)
theory Pdo_Exchange
  imports Pdou
begin

text \<open>
  The exchange of process data from the variables of one node to those of another: the user layer
  of the producer copies its variables into the shared buffers, its kernel layer fills a frame,
  the kernel layer of the consumer takes the PDO of the frame, and its user layer copies it to the
  variables. The layers of a node share a configuration (\<open>pdo_ready\<close>); that it is reached by the
  configuration is shown in \<open>Pdo_Config\<close>.
\<close>

unbundle bit_operations_syntax

section \<open>Channel tables\<close>

text \<open>The channels of a direction, and a setup whose tables have the numbers of channels that it names.\<close>

definition chan_list :: "pdo_dir \<Rightarrow> tPdoChannelSetup \<Rightarrow> tPdoChannel list" where
  "chan_list d c = (case setup_table d c of None \<Rightarrow> [] | Some t \<Rightarrow> t)"

definition setup_ok :: "tPdoChannelSetup \<Rightarrow> bool" where
  "setup_ok c \<longleftrightarrow> (\<forall>d. length (chan_list d c) = setup_count d c \<and>
     (setup_count d c = 0 \<longrightarrow> setup_table d c = None))"

lemma setup_access [simp]:
  "setup_count d (set_table d' t c) = setup_count d c"
  "setup_table d (set_count d' n c) = setup_table d c"
  "setup_count d (set_count d' n c) = (if d = d' then n else setup_count d c)"
  "setup_table d (set_table d' t c) = (if d = d' then t else setup_table d c)"
  by (cases d; cases d'; simp add: setup_count_def setup_table_def set_table_def set_count_def)+

lemma chan_list_set [simp]:
  "chan_list d (set_table d' t c) = (if d = d' then (case t of None \<Rightarrow> [] | Some t \<Rightarrow> t) else chan_list d c)"
  "chan_list d (set_count d' n c) = chan_list d c"
  by (simp_all add: chan_list_def)

lemma setup_eqI:
  assumes "\<And>d. setup_count d a = setup_count d b" and "\<And>d. setup_table d a = setup_table d b"
  shows "a = (b :: tPdoChannelSetup)"
  using assms(1) [of Rx] assms(1) [of Tx] assms(2) [of Rx] assms(2) [of Tx]
  by (cases a; cases b) (simp add: setup_count_def setup_table_def)

lemma setup_okD:
  assumes "setup_ok c"
  shows "length (chan_list d c) = setup_count d c"
    "setup_count d c = 0 \<Longrightarrow> setup_table d c = None"
    "setup_count d c \<noteq> 0 \<Longrightarrow> setup_table d c = Some (chan_list d c)"
proof -
  show l: "length (chan_list d c) = setup_count d c" using assms by (simp add: setup_ok_def)
  show "setup_table d c = None" if "setup_count d c = 0" using that assms by (simp add: setup_ok_def)
  show "setup_table d c = Some (chan_list d c)" if "setup_count d c \<noteq> 0"
    using that l by (auto simp: chan_list_def split: option.splits)
qed

text \<open>Two setups with the same channels are equal.\<close>

lemma setup_ok_eqI:
  assumes "setup_ok a" and "setup_ok b" and "\<And>d. chan_list d a = chan_list d b"
  shows "a = b"
proof (rule setup_eqI)
  show n: "setup_count d a = setup_count d b" for d
    using setup_okD(1) [OF assms(1), of d] setup_okD(1) [OF assms(2), of d] assms(3) by simp
  show "setup_table d a = setup_table d b" for d
    using setup_okD(2, 3) [OF assms(1), of d] setup_okD(2, 3) [OF assms(2), of d] assms(3) n
    by (cases "setup_count d b = 0") auto
qed

lemma get_channel_ok:
  assumes "setup_ok c"
  shows "get_channel d ch c = (if ch < setup_count d c then Some (chan_list d c ! ch) else None)"
  using setup_okD [OF assms, of d] by (cases "setup_count d c = 0") (simp_all add: get_channel_def)

lemma put_channel_ok:
  assumes "setup_ok c" and "ch < setup_count d c"
  shows "\<exists>c'. put_channel d ch x c = Some c' \<and> setup_ok c' \<and>
     (\<forall>d'. setup_count d' c' = setup_count d' c) \<and>
     (\<forall>d'. chan_list d' c' = (if d' = d then (chan_list d c)[ch := x] else chan_list d' c))"
proof -
  have "put_channel d ch x c = Some (set_table d (Some ((chan_list d c)[ch := x])) c)"
    using setup_okD [OF assms(1), of d] assms(2) by (simp add: put_channel_def)
  moreover have "setup_ok (set_table d (Some ((chan_list d c)[ch := x])) c)"
    using assms by (auto simp: setup_ok_def)
  ultimately show ?thesis by auto
qed

lemma channel_sizes_ok: "setup_ok c \<Longrightarrow> channel_sizes d c = Some (map pdoSize (chan_list d c))"
  using setup_okD [of c d] by (cases "setup_count d c = 0") (auto simp: channel_sizes_def)

lemma find_channel_ok:
  assumes "setup_ok c"
  shows "find_channel d node c =
     Some (find (\<lambda>ch. chNodeId (chan_list d c ! ch) = node) [0..<setup_count d c])"
  using setup_okD [OF assms, of d] by (cases "setup_count d c = 0") (auto simp: find_channel_def)

lemma find_channel_SomeD:
  assumes "setup_ok c" and "find_channel d node c = Some (Some ch)"
  shows "ch < setup_count d c" and "chNodeId (chan_list d c ! ch) = node"
  using assms by (auto simp: find_channel_ok find_Some_iff)

definition disabled :: "tPdoChannel \<Rightarrow> bool" where
  "disabled x \<longleftrightarrow> chNodeId x = PDO_INVALID_NODE_ID"

lemma disable_ok:
  assumes "setup_ok c"
  shows "\<exists>c'. disablePdoChannels d (setup_count d c) c = Some c' \<and> setup_ok c' \<and>
     (\<forall>d'. setup_count d' c' = setup_count d' c) \<and> list_all disabled (chan_list d c') \<and>
     (\<forall>d'. d' \<noteq> d \<longrightarrow> chan_list d' c' = chan_list d' c)"
proof (cases "setup_count d c = 0")
  case True
  then have "chan_list d c = []" using setup_okD(1) [OF assms, of d] by simp
  with True assms show ?thesis by (simp add: disablePdoChannels_def)
next
  case False
  let ?t = "map (\<lambda>x. x\<lparr>chNodeId := PDO_INVALID_NODE_ID\<rparr>) (chan_list d c)"
  have "disablePdoChannels d (setup_count d c) c = Some (set_table d (Some ?t) c)"
    using setup_okD [OF assms, of d] False by (simp add: disablePdoChannels_def)
  moreover have "setup_ok (set_table d (Some ?t) c)" using assms False by (auto simp: setup_ok_def)
  ultimately show ?thesis by (auto simp: list_all_iff disabled_def)
qed

lemma alloc_ok:
  assumes "setup_ok c" and "alloc n = Some t" and "length t = n"
  shows "\<exists>c'. allocChannels alloc d n c = (kErrorOk, c') \<and> setup_ok c' \<and> setup_count d c' = n \<and>
     (\<forall>d'. d' \<noteq> d \<longrightarrow> setup_count d' c' = setup_count d' c \<and> chan_list d' c' = chan_list d' c)"
proof (cases "setup_count d c = n")
  case True
  with assms(1) show ?thesis by (simp add: allocChannels_def)
next
  case False
  with assms show ?thesis by (cases "n = 0") (auto simp: allocChannels_def setup_ok_def)
qed

section \<open>Places in a memory\<close>

text \<open>\<open>splice pos xs bs\<close> replaces the bytes at \<open>pos\<close>; \<open>splices\<close> does so for several places in order.\<close>

definition splice :: "nat \<Rightarrow> 'a list \<Rightarrow> 'a list \<Rightarrow> 'a list" where
  "splice pos xs bs = take pos bs @ xs @ drop (pos + length xs) bs"

definition splices :: "(nat \<times> 'a list) list \<Rightarrow> 'a list \<Rightarrow> 'a list" where
  "splices ws bs = foldl (\<lambda>bs (pos, xs). splice pos xs bs) bs ws"

lemma splices_simps [simp]:
  "splices [] bs = bs"
  "splices ((pos, xs) # ws) bs = splices ws (splice pos xs bs)"
  "splices (ws @ ws') bs = splices ws' (splices ws bs)"
  by (simp_all add: splices_def)

lemma mem_write_splice: "mem_write bs pos xs = (if pos + length xs \<le> length bs then Some (splice pos xs bs) else None)"
  by (simp add: mem_write_def splice_def)

lemma length_splice: "pos + length xs \<le> length bs \<Longrightarrow> length (splice pos xs bs) = length bs"
  by (simp add: splice_def)

text \<open>Places are pairs of a position and a length.\<close>

definition apart :: "nat \<times> nat \<Rightarrow> nat \<times> nat \<Rightarrow> bool" where
  "apart a b \<longleftrightarrow> fst a + snd a \<le> fst b \<or> fst b + snd b \<le> fst a"

definition within :: "nat \<Rightarrow> nat \<times> nat \<Rightarrow> bool" where
  "within n a \<longleftrightarrow> fst a + snd a \<le> n"

abbreviation place_of :: "nat \<times> 'a list \<Rightarrow> nat \<times> nat" where
  "place_of w \<equiv> (fst w, length (snd w))"

lemma splice_at: "pos + length xs \<le> length bs \<Longrightarrow> take (length xs) (drop pos (splice pos xs bs)) = xs"
  by (simp add: splice_def)

lemma splice_other:
  assumes "pos + length xs \<le> length bs" and "apart (pos, length xs) (pos', n)"
  shows "take n (drop pos' (splice pos xs bs)) = take n (drop pos' bs)"
proof (rule nth_equalityI)
  show l: "length (take n (drop pos' (splice pos xs bs))) = length (take n (drop pos' bs))"
    using assms(1) by (simp add: length_splice)
  show "take n (drop pos' (splice pos xs bs)) ! i = take n (drop pos' bs) ! i"
    if "i < length (take n (drop pos' (splice pos xs bs)))" for i
  proof -
    have i: "i < n" "pos' + i < length bs" using that assms(1) by (auto simp: length_splice)
    have "splice pos xs bs ! (pos' + i) = bs ! (pos' + i)"
      using mem_write_nth [of bs pos xs "splice pos xs bs" "pos' + i"] i assms
      by (auto simp: mem_write_splice apart_def)
    then show ?thesis using i l by (simp add: length_splice assms(1))
  qed
qed

lemma splices_other:
  "list_all (\<lambda>w. within (length bs) (place_of w) \<and> apart (place_of w) (pos, n)) ws \<Longrightarrow>
     length (splices ws bs) = length bs \<and> take n (drop pos (splices ws bs)) = take n (drop pos bs)"
proof (induction ws arbitrary: bs)
  case (Cons w ws)
  obtain p xs where w: "w = (p, xs)" by (cases w)
  with Cons.prems have "p + length xs \<le> length bs" "apart (p, length xs) (pos, n)"
    by (simp_all add: within_def)
  with Cons.IH [of "splice p xs bs"] Cons.prems w show ?case
    by (simp add: length_splice splice_other)
qed simp

lemma length_splices:
  "list_all (\<lambda>w. within (length bs) (place_of w)) ws \<Longrightarrow> length (splices ws bs) = length bs"
proof (induction ws arbitrary: bs)
  case (Cons w ws)
  then show ?case by (cases w) (simp add: within_def length_splice)
qed simp

text \<open>After writes to places that are pairwise apart, each place has its bytes.\<close>

lemma splices_nth:
  assumes "list_all (\<lambda>w. within (length bs) (place_of w)) ws"
    and "sorted_wrt apart (map place_of ws)" and "i < length ws"
  shows "take (length (snd (ws ! i))) (drop (fst (ws ! i)) (splices ws bs)) = snd (ws ! i)"
proof -
  obtain p xs where w: "ws ! i = (p, xs)" by (cases "ws ! i")
  let ?b = "splices (take i ws) bs"
  have b: "length ?b = length bs"
    using assms(1) by (intro length_splices) (auto simp: list_all_iff dest: in_set_takeD)
  have fit: "p + length xs \<le> length ?b"
    using assms(1, 3) w b by (auto simp: list_all_length within_def)
  have "list_all (\<lambda>v. within (length (splice p xs ?b)) (place_of v) \<and> apart (place_of v) (p, length xs)) (drop (Suc i) ws)"
    unfolding list_all_length
  proof (intro allI impI)
    fix k assume k: "k < length (drop (Suc i) ws)"
    have "apart (place_of (ws ! i)) (place_of (ws ! (Suc i + k)))"
      using assms(2) k by (simp add: sorted_wrt_iff_nth_less)
    moreover have "within (length bs) (place_of (ws ! (Suc i + k)))"
      using assms(1) k by (simp add: list_all_length)
    ultimately show "within (length (splice p xs ?b)) (place_of (drop (Suc i) ws ! k)) \<and>
        apart (place_of (drop (Suc i) ws ! k)) (p, length xs)"
      using k b fit w by (auto simp: length_splice apart_def)
  qed
  note s = splices_other [OF this]
  have "splices ws bs = splices (drop (Suc i) ws) (splice p xs ?b)"
    using id_take_nth_drop [OF assms(3)] w by (metis splices_simps(2, 3))
  with s fit w show ?thesis by (simp add: splice_at)
qed

section \<open>Mapping objects\<close>

interpretation u8le: wire_codec LittleEndian 1 ami_setUint8Le ami_getUint8Le
proof
  fix buf :: "byte list" and v assume l: "1 \<le> length buf"
  then show "ami_setUint8Le buf v = Some (wire LittleEndian 1 v @ drop 1 buf)"
    by (simp add: ami_setUint8Le_def mem_write_def wire_def)
  show "ami_getUint8Le buf = Some (unwire LittleEndian (take 1 buf))"
    using l by (simp add: ami_getUint8Le_def mem_read_def unwire_def)
qed

text \<open>The size of a type in a PDO, and in the memory of the host.\<close>

primrec type_width :: "tObdType \<Rightarrow> nat" where
  "type_width kObdTypeBool = 1" | "type_width kObdTypeInt8 = 1" | "type_width kObdTypeInt16 = 2"
| "type_width kObdTypeInt32 = 4" | "type_width kObdTypeUInt8 = 1" | "type_width kObdTypeUInt16 = 2"
| "type_width kObdTypeUInt32 = 4" | "type_width kObdTypeReal32 = 4" | "type_width kObdTypeVString = 0"
| "type_width kObdTypeOString = 0" | "type_width kObdTypeTimeOfDay = 6" | "type_width kObdTypeTimeDiff = 6"
| "type_width kObdTypeDomain = 0" | "type_width kObdTypeInt24 = 3" | "type_width kObdTypeReal64 = 8"
| "type_width kObdTypeInt40 = 5" | "type_width kObdTypeInt48 = 6" | "type_width kObdTypeInt56 = 7"
| "type_width kObdTypeInt64 = 8" | "type_width kObdTypeUInt24 = 3" | "type_width kObdTypeUInt40 = 5"
| "type_width kObdTypeUInt48 = 6" | "type_width kObdTypeUInt56 = 7" | "type_width kObdTypeUInt64 = 8"

definition obj_width :: "tPdoMappObject \<Rightarrow> nat" where
  "obj_width obj = (case obd_type_of (byteSizeOrType obj) of
     None \<Rightarrow> byteSizeOrType obj - PDO_COMMUNICATION_PROFILE_START | Some t \<Rightarrow> type_width t)"

definition host_width :: "tPdoMappObject \<Rightarrow> nat" where
  "host_width obj = (case Option.bind (obd_type_of (byteSizeOrType obj)) number_access of
     Some (n, _) \<Rightarrow> n | None \<Rightarrow> obj_width obj)"

definition is_time_object :: "tPdoMappObject \<Rightarrow> bool" where
  "is_time_object obj \<longleftrightarrow>
     (case obd_type_of (byteSizeOrType obj) of None \<Rightarrow> False | Some t \<Rightarrow> is_time_type t)"

text \<open>The objects that \<^verbatim>\<open>checkAndSetObjectMapping\<close> sets up.\<close>

definition valid_object :: "tPdoMappObject \<Rightarrow> bool" where
  "valid_object obj \<longleftrightarrow> (case obd_type_of (byteSizeOrType obj) of
     None \<Rightarrow> PDO_COMMUNICATION_PROFILE_START \<le> byteSizeOrType obj | Some t \<Rightarrow> \<not> is_string_type t)"

definition pdo_place :: "tPdoMappObject \<Rightarrow> nat \<times> nat" where
  "pdo_place obj = (bitOffset obj div 8, obj_width obj)"

definition var_place :: "tPdoMappObject \<Rightarrow> nat \<times> nat" where
  "var_place obj = (mapVar obj, host_width obj)"

lemma wire_codec_le:
  "number_access t = Some (n, put, get) \<Longrightarrow> wire_codec LittleEndian (type_width t) put get \<and> type_width t \<le> n"
  by (cases t)
    (auto simp: number_access_def u8le.wire_codec_axioms [unfolded One_nat_def] u16le.wire_codec_axioms u24le.wire_codec_axioms
      u32le.wire_codec_axioms u40le.wire_codec_axioms u48le.wire_codec_axioms u56le.wire_codec_axioms
      u64le.wire_codec_axioms)

lemma number_or_time: "number_access t = None \<Longrightarrow> \<not> is_string_type t \<Longrightarrow> is_time_type t"
  by (cases t) (auto simp: number_access_def is_string_type_def is_time_type_def)

lemma time_not_number: "is_time_type t \<Longrightarrow> number_access t = None \<and> type_width t = 6"
  by (auto simp: number_access_def is_time_type_def)

lemma obd_type_of_string: "PDO_COMMUNICATION_PROFILE_START \<le> n \<Longrightarrow> obd_type_of n = None"
  by (simp add: obd_type_of_def)

lemma obd_type_of_code [simp]: "obd_type_of (obd_type_code t) = Some t"
  by (cases t) (simp_all add: obd_type_of_def)

text \<open>The bytes of a variable that go to the PDO, and those that a received PDO puts in a variable.\<close>

definition time_wire :: "tTimeOfDay \<Rightarrow> byte list" where
  "time_wire t = wire LittleEndian 4 (msec t AND 0x0FFFFFFF) @ wire LittleEndian 2 (days t)"

definition wire_of :: "byte list \<Rightarrow> tPdoMappObject \<Rightarrow> byte list" where
  "wire_of vars obj =
     (if is_time_object obj then (case host_get_time (mapVar obj) vars of Some t \<Rightarrow> time_wire t | None \<Rightarrow> [])
      else take (obj_width obj) (drop (mapVar obj) vars))"

definition host_of :: "byte list \<Rightarrow> tPdoMappObject \<Rightarrow> byte list" where
  "host_of pdo obj = take (obj_width obj) (drop (bitOffset obj div 8) pdo) @
     replicate (host_width obj - obj_width obj) 0"

lemma host_width_ge: "valid_object obj \<Longrightarrow> obj_width obj \<le> host_width obj"
  using wire_codec_le
  by (auto simp: host_width_def obj_width_def split: option.splits prod.splits bind_splits)

lemma length_wire_of:
  assumes "valid_object obj" and "within (length vars) (var_place obj)"
  shows "length (wire_of vars obj) = obj_width obj"
proof (cases "is_time_object obj")
  case True
  then obtain t where t: "obd_type_of (byteSizeOrType obj) = Some t" "is_time_type t"
    by (auto simp: is_time_object_def split: option.splits)
  with assms(2) show ?thesis
    by (auto simp: wire_of_def True time_not_number obj_width_def host_width_def host_get_time_def host_get_def
        mem_read_def within_def var_place_def time_wire_def)
next
  case False
  with assms host_width_ge [OF assms(1)] show ?thesis
    by (simp add: wire_of_def within_def var_place_def)
qed

lemma bytes_le_value_le: "length bs \<le> n \<Longrightarrow> bytes_le n (value_le bs) = bs @ replicate (n - length bs) 0"
proof (induction bs arbitrary: n)
  case (Cons b bs)
  then obtain k where n: "n = Suc k" "length bs \<le> k" by (cases n) auto
  have "unat b < 256" using unsigned_less [of b] by simp
  then have "(unat b + 256 * value_le bs) div 256 = value_le bs" by simp
  moreover have "(word_of_nat (unat b + 256 * value_le bs) :: byte) = b"
    using bytes_value_le [of "b # bs"] by simp
  ultimately show ?case using Cons.IH [OF n(2)] n(1) by simp
qed (simp add: bytes_le_zero)

lemma bytes_le_take: "w \<le> length bs \<Longrightarrow> bytes_le w (value_le bs) = take w bs"
proof (induction bs arbitrary: w)
  case (Cons b bs)
  show ?case
  proof (cases w)
    case (Suc k)
    have "unat b < 256" using unsigned_less [of b] by simp
    then have "(unat b + 256 * value_le bs) div 256 = value_le bs" by simp
    moreover have "(word_of_nat (unat b + 256 * value_le bs) :: byte) = b"
      using bytes_value_le [of "b # bs"] by simp
    ultimately show ?thesis using Cons Suc by simp
  qed simp
qed simp

lemma on_buf_put:
  assumes "\<And>buf. length bs \<le> length buf \<Longrightarrow> f buf = Some (bs @ drop (length bs) buf)"
    and "fst a < length (pTripleBuf m)" and "snd a + length bs \<le> length (pTripleBuf m ! fst a)"
  shows "on_buf a f m = write_at a bs m"
  using assms(1) [of "drop (snd a) (pTripleBuf m ! fst a)"] assms(2, 3)
  by (simp add: on_buf_def write_at_def mem_write_def add.commute)

lemma ami_setTimeOfDay_wire:
  assumes "6 \<le> length buf"
  shows "ami_setTimeOfDay buf t = Some (time_wire t @ drop 6 buf)"
proof -
  have "put_at 4 ami_setUint16Le (wire LittleEndian 4 v @ drop 4 buf) d =
      Some (wire LittleEndian 4 v @ wire LittleEndian 2 d @ drop 6 buf)" for v d
    using assms u16le.put_wire [of "drop 4 buf" d] by (simp add: put_at_def)
  then show ?thesis using assms u32le.put_wire [of buf] by (simp add: ami_setTimeOfDay_def time_wire_def)
qed

lemma obj_numberD:
  assumes "obd_type_of (byteSizeOrType obj) = Some t" and "number_access t = Some (n, put, get)"
  shows "host_width obj = n" "obj_width obj = type_width t" "\<not> is_time_object obj" "obj_width obj \<le> n"
proof -
  show "host_width obj = n" "obj_width obj = type_width t"
    using assms by (simp_all add: host_width_def obj_width_def)
  then show "obj_width obj \<le> n" using wire_codec_le [OF assms(2)] by simp
  show "\<not> is_time_object obj" using assms time_not_number [of t] by (auto simp: is_time_object_def)
qed

lemma number_wire:
  assumes "number_access t = Some (n, put, get)" and "type_width t \<le> length buf"
  shows "put buf v = Some (wire LittleEndian (type_width t) v @ drop (type_width t) buf)"
    and "get buf = Some (value_le (take (type_width t) buf))"
  using wire_codec_le [OF assms(1)] assms(2) wire_codec.get_wire wire_codec.axioms(1) wire_setter.put_wire
  by (fastforce simp: unwire_def)+

lemma copyVarToPdo_write:
  assumes v: "valid_object obj" and var: "within (length vars) (var_place obj)"
    and a: "fst a < length (pTripleBuf m)" "snd a + bitOffset obj div 8 + obj_width obj \<le> length (pTripleBuf m ! fst a)"
  shows "copyVarToPdo vars a obj m = map_option (Pair kErrorOk) (write_at (object_place a obj) (wire_of vars obj) m)"
proof -
  have l: "length (wire_of vars obj) = obj_width obj" using length_wire_of [OF v var] .
  have p: "fst (object_place a obj) < length (pTripleBuf m)"
    "snd (object_place a obj) + length (wire_of vars obj) \<le> length (pTripleBuf m ! fst (object_place a obj))"
    using a l by (simp_all add: object_place_def)
  have q: "mapVar obj + host_width obj \<le> length vars" using var by (simp add: within_def var_place_def)
  show ?thesis
  proof (cases "obd_type_of (byteSizeOrType obj)")
    case None
    then have s: "object_size obj = Some (obj_width obj)" "host_width obj = obj_width obj" "\<not> is_time_object obj"
      using v by (auto simp: object_size_def obj_width_def host_width_def valid_object_def is_time_object_def)
    have "on_buf (object_place a obj) (\<lambda>buf. mem_write buf 0 (wire_of vars obj)) m =
        write_at (object_place a obj) (wire_of vars obj) m"
      by (rule on_buf_put [OF _ p]) (simp add: mem_write_def)
    then show ?thesis using None s q
      by (cases "write_at (object_place a obj) (wire_of vars obj) m")
        (simp_all add: copyVarToPdo_def mem_read_def wire_of_def)
  next
    case (Some t)
    show ?thesis
    proof (cases "number_access t")
      case None
      then have t: "is_time_type t" "is_time_object obj" "obj_width obj = 6"
        using v Some number_or_time [of t] time_not_number [of t]
        by (auto simp: valid_object_def is_time_object_def obj_width_def)
      have "host_width obj = 6" using Some None t by (simp add: host_width_def)
      with q obtain time where time: "host_get_time (mapVar obj) vars = Some time"
        by (auto simp: host_get_time_def host_get_def mem_read_def)
      have "on_buf (object_place a obj) (\<lambda>buf. ami_setTimeOfDay buf time) m =
          write_at (object_place a obj) (time_wire time) m"
        by (rule on_buf_put) (use p l t time in \<open>simp_all add: ami_setTimeOfDay_wire wire_of_def\<close>)
      then show ?thesis using Some None t time
        by (cases "write_at (object_place a obj) (time_wire time) m") (simp_all add: copyVarToPdo_def wire_of_def)
    next
      fix np assume np: "number_access t = Some np"
      obtain n put get where n: "np = (n, put, get)" by (cases np) auto
      note o = obj_numberD [OF Some np [unfolded n]]
      let ?v = "value_le (take n (drop (mapVar obj) vars))"
      have h: "host_get n (mapVar obj) vars = Some ?v"
        using q o(1) by (simp add: host_get_def mem_read_def)
      have "on_buf (object_place a obj) (\<lambda>buf. put buf ?v) m = write_at (object_place a obj) (wire_of vars obj) m"
      proof (rule on_buf_put [OF _ p])
        fix buf :: "byte list" assume "length (wire_of vars obj) \<le> length buf"
        moreover have "wire_of vars obj = wire LittleEndian (type_width t) ?v"
          using o q by (simp add: wire_of_def wire_def bytes_le_take min_absorb1)
        ultimately show "put buf ?v = Some (wire_of vars obj @ drop (length (wire_of vars obj)) buf)"
          using number_wire(1) [OF np [unfolded n]] l o(2) by simp
      qed
      then show ?thesis using Some np n h
        by (cases "write_at (object_place a obj) (wire_of vars obj) m") (simp_all add: copyVarToPdo_def)
    qed
  qed
qed

lemma copyVarFromPdo_splice:
  assumes v: "valid_object obj" and time: "\<not> is_time_object obj" and var: "within (length vars) (var_place obj)"
    and a: "fst a < length (pTripleBuf m)" "snd a + n \<le> length (pTripleBuf m ! fst a)"
    and fit: "within n (pdo_place obj)"
  shows "copyVarFromPdo a obj (m, vars) = Some (kErrorOk, m,
     splice (mapVar obj) (host_of (take n (drop (snd a) (pTripleBuf m ! fst a))) obj) vars)"
proof -
  let ?pdo = "take n (drop (snd a) (pTripleBuf m ! fst a))"
  let ?buf = "drop (snd (object_place a obj)) (pTripleBuf m ! fst (object_place a obj))"
  have f: "bitOffset obj div 8 + obj_width obj \<le> n" using fit by (simp add: within_def pdo_place_def)
  then have b: "take (obj_width obj) (drop (bitOffset obj div 8) ?pdo) = take (obj_width obj) ?buf"
    by (simp add: object_place_def take_drop min_def add.commute add.left_commute)
  have h: "host_of ?pdo obj = take (obj_width obj) ?buf @ replicate (host_width obj - obj_width obj) 0"
    by (simp only: host_of_def b)
  have lb: "obj_width obj \<le> length ?buf" using f a by (simp add: object_place_def)
  have q: "mapVar obj + host_width obj \<le> length vars" using var by (simp add: within_def var_place_def)
  have p: "fst (object_place a obj) < length (pTripleBuf m)" using a by (simp add: object_place_def)
  show ?thesis
  proof (cases "obd_type_of (byteSizeOrType obj)")
    case None
    then have s: "object_size obj = Some (obj_width obj)" "host_width obj = obj_width obj"
      using v by (auto simp: object_size_def obj_width_def host_width_def valid_object_def)
    have "in_buf (object_place a obj) (\<lambda>buf. mem_read buf 0 (obj_width obj)) m = Some (take (obj_width obj) ?buf)"
      using p lb by (simp add: in_buf_def mem_read_def)
    then show ?thesis using None s q lb
      by (simp add: copyVarFromPdo_def mem_write_splice h)
  next
    case (Some t)
    with v time obtain n' put get where np: "number_access t = Some (n', put, get)"
      using number_or_time [of t] by (cases "number_access t") (auto simp: valid_object_def is_time_object_def)
    note o = obj_numberD [OF Some np]
    have "in_buf (object_place a obj) get m = Some (value_le (take (obj_width obj) ?buf))"
      using number_wire(2) [OF np, of ?buf] lb o(2) p by (simp add: in_buf_def)
    moreover have "bytes_le n' (value_le (take (obj_width obj) ?buf)) = host_of ?pdo obj"
      using o(1, 4) lb unfolding h by (simp add: bytes_le_value_le)
    ultimately show ?thesis using Some np q lb o(1)
      by (simp add: copyVarFromPdo_def host_put_def mem_write_splice)
  qed
qed

text \<open>
  An object of a time type. The copy from the PDO writes the PDO, with the bytes that the copy to
  the PDO would write.
\<close>

lemma host_put_wire:
  "host_put 4 0 v buf = (if 4 \<le> length buf then Some (wire LittleEndian 4 v @ drop 4 buf) else None)"
  "host_put 2 4 v buf = (if 6 \<le> length buf then Some (take 4 buf @ wire LittleEndian 2 v @ drop 6 buf) else None)"
  by (simp_all add: host_put_def mem_write_def wire_def)

lemma ami_getTimeOfDay_bytes:
  assumes "6 \<le> length buf"
  shows "ami_getTimeOfDay buf =
     Some \<lparr>msec = value_le (take 4 buf) AND 0x0FFFFFFF, days = value_le (take 2 (drop 4 buf))\<rparr>"
  using assms u32le.get_wire [of buf] u16le.get_wire [of "drop 4 buf"]
  by (simp add: ami_getTimeOfDay_def unwire_def)

lemma valid_time_object: "is_time_object obj \<Longrightarrow> valid_object obj"
  by (auto simp: is_time_object_def valid_object_def is_time_type_def is_string_type_def split: option.splits)

lemma copyVarFromPdo_time:
  assumes "is_time_object obj" and "within (length vars) (var_place obj)" and "fst a < length (pTripleBuf m)"
    and "snd a + bitOffset obj div 8 + obj_width obj \<le> length (pTripleBuf m ! fst a)"
  shows "copyVarFromPdo a obj (m, vars) =
      map_option (\<lambda>m. (kErrorOk, m, vars)) (write_at (object_place a obj) (wire_of vars obj) m)"
proof -
  obtain t where t: "obd_type_of (byteSizeOrType obj) = Some t" "is_time_type t"
    using assms(1) by (auto simp: is_time_object_def split: option.splits)
  have n: "number_access t = None" "obj_width obj = 6" "host_width obj = 6" "valid_object obj"
    using t time_not_number [of t] by (auto simp: obj_width_def host_width_def valid_object_def is_time_type_def is_string_type_def)
  have q: "mapVar obj + 6 \<le> length vars" using assms(2) n(3) by (simp add: within_def var_place_def)
  let ?buf = "drop (mapVar obj) vars"
  let ?t = "\<lparr>msec = value_le (take 4 ?buf) AND 0x0FFFFFFF, days = value_le (take 2 (drop 4 ?buf))\<rparr>"
  have w: "wire_of vars obj = wire LittleEndian 4 (msec ?t) @ wire LittleEndian 2 (days ?t)"
    using q assms(1) by (simp add: wire_of_def host_get_time_def host_get_def mem_read_def time_wire_def add.commute)
  then have l: "length (wire_of vars obj) = 6" by simp
  have "on_buf (object_place a obj) (\<lambda>buf. host_put_time 0 ?t buf) m = write_at (object_place a obj) (wire_of vars obj) m"
    by (rule on_buf_put) (use assms(3, 4) n(2) l w in \<open>simp_all add: host_put_time_def host_put_wire object_place_def\<close>)
  then show ?thesis
    using t n(1) q by (simp add: copyVarFromPdo_def ami_getTimeOfDay_bytes map_conv_bind_option comp_def)
qed

section \<open>The configuration of a node\<close>

text \<open>The mapping objects of a channel; a disabled one has none.\<close>

definition chan_objs :: "pdo_dir \<Rightarrow> nat \<Rightarrow> tPdouInstance \<Rightarrow> tPdoMappObject list" where
  "chan_objs d ch s =
     (let x = chan_list d (pdouChannels s) ! ch in
      if disabled x then []
      else (case channel_objects d ch (mappObjectCount x) s of None \<Rightarrow> [] | Some objs \<Rightarrow> objs))"

text \<open>
  The channels have their sizes in the layout \<open>c\<close> of the shared memory, and the mapping objects are
  in the table and fit the PDO of the channel.
\<close>

definition layout_ok :: "pdo_conf \<Rightarrow> tPdoChannelSetup \<Rightarrow> bool" where
  "layout_ok c setup \<longleftrightarrow> setup_ok setup \<and> (\<forall>d. chan_sizes c d = map pdoSize (chan_list d setup))"

definition mapping_ok :: "tPdouInstance \<Rightarrow> bool" where
  "mapping_ok s \<longleftrightarrow> (\<forall>d. \<forall>ch < setup_count d (pdouChannels s).
     let x = chan_list d (pdouChannels s) ! ch in \<not> disabled x \<longrightarrow>
       channel_objects d ch (mappObjectCount x) s = Some (chan_objs d ch s) \<and>
       list_all (\<lambda>obj. valid_object obj \<and> within (pdoSize x) (pdo_place obj)) (chan_objs d ch s))"

text \<open>All mapped variables are in a memory of \<open>n\<close> bytes.\<close>

definition vars_within :: "nat \<Rightarrow> pdo_dir \<Rightarrow> tPdouInstance \<Rightarrow> bool" where
  "vars_within n d s \<longleftrightarrow> (\<forall>ch < setup_count d (pdouChannels s).
     list_all (\<lambda>obj. within n (var_place obj)) (chan_objs d ch s))"

text \<open>
  The layers of a node exchange process data: both run, they have the same channels, and the shared
  memory has the layout of the channels and holds the PDOs \<open>reg\<close>.
\<close>

definition pdo_ready ::
  "pdo_conf \<Rightarrow> (pdo_dir \<times> nat \<Rightarrow> byte list) \<Rightarrow> tPdouInstance \<Rightarrow> tPdokInstance \<Rightarrow> bool" where
  "pdo_ready c reg s k \<longleftrightarrow> pdouRunning s \<and> pdokRunning k \<and> pdokChannels k = pdouChannels s \<and>
     layout_ok c (pdouChannels s) \<and> mapping_ok s \<and> (\<exists>m. pdoMem k = Some m \<and> holds_values c reg m)"

lemma layout_okD:
  assumes "layout_ok c setup"
  shows "setup_ok setup" "length (chan_sizes c d) = setup_count d setup"
    "ch < setup_count d setup \<Longrightarrow> chan_sizes c d ! ch = pdoSize (chan_list d setup ! ch)"
proof -
  show s: "setup_ok setup" using assms by (simp add: layout_ok_def)
  show "length (chan_sizes c d) = setup_count d setup" "ch < setup_count d setup \<Longrightarrow>
      chan_sizes c d ! ch = pdoSize (chan_list d setup ! ch)"
    using assms setup_okD(1) [OF s, of d] by (simp_all add: layout_ok_def)
qed

lemma mapping_okD:
  assumes "mapping_ok s" and "ch < setup_count d (pdouChannels s)"
    and "\<not> disabled (chan_list d (pdouChannels s) ! ch)"
  shows "channel_objects d ch (mappObjectCount (chan_list d (pdouChannels s) ! ch)) s = Some (chan_objs d ch s)"
    "list_all (\<lambda>obj. valid_object obj \<and> within (pdoSize (chan_list d (pdouChannels s) ! ch)) (pdo_place obj)) (chan_objs d ch s)"
  using assms by (auto simp: mapping_ok_def Let_def)

section \<open>The producer's user layer\<close>

definition tx_writes :: "byte list \<Rightarrow> tPdoMappObject list \<Rightarrow> (nat \<times> byte list) list" where
  "tx_writes vars objs = map (\<lambda>obj. (bitOffset obj div 8, wire_of vars obj)) objs"

lemma copyVarsToPdo_slot:
  assumes ok: "region_ok c m" and ch: "ch < length (chan_sizes c Tx)"
    and objs: "list_all (\<lambda>obj. valid_object obj \<and> within (chan_sizes c Tx ! ch) (pdo_place obj)) objs"
    and vars: "list_all (\<lambda>obj. within (length vars) (var_place obj)) objs"
    and w: "w = writeBuf (infos Tx m ! ch)"
  shows "\<exists>m'. copyVarsToPdo vars (w, chan_off c Tx ch) objs m = Some m' \<and> region_ok c m' \<and> (\<forall>d. infos d m' = infos d m) \<and>
     slot c Tx ch w m' = splices (tx_writes vars objs) (slot c Tx ch w m) \<and>
     (\<forall>d' ch' b. ch' < length (chan_sizes c d') \<longrightarrow> (d', ch', b) \<noteq> (Tx, ch, w) \<longrightarrow>
        slot c d' ch' b m' = slot c d' ch' b m)"
  using ok objs vars w
proof (induction objs arbitrary: m)
  case Nil
  then show ?case by (simp add: tx_writes_def)
next
  case (Cons obj objs)
  let ?pos = "bitOffset obj div 8"
  have obj: "valid_object obj" "?pos + obj_width obj \<le> chan_sizes c Tx ! ch" "within (length vars) (var_place obj)"
    using Cons.prems by (simp_all add: within_def pdo_place_def)
  note l = length_wire_of [OF obj(1, 3)]
  note R = region_okD [OF Cons.prems(1) ch]
  have w: "w < 3" using perm3D(2) [OF R(3)] Cons.prems(4) by simp
  have fit: "chan_off c Tx ch + ?pos + obj_width obj \<le> length (pTripleBuf m ! w)"
    using R(5) [OF w] chan_inside [OF ch] obj(2) by linarith
  have "write_at (object_place (w, chan_off c Tx ch) obj) bs m = store Tx ch ?pos bs m" for bs
    using R(1, 2, 4) w Cons.prems(4) by (simp add: write_at_def store_def object_place_def Let_def)
  with copyVarToPdo_write [OF obj(1, 3), of "(w, chan_off c Tx ch)" m] fit w R(4)
  have c: "copyVarToPdo vars (w, chan_off c Tx ch) obj m = map_option (Pair kErrorOk) (store Tx ch ?pos (wire_of vars obj) m)"
    by simp
  from store_ok [OF Cons.prems(1) ch, of ?pos "wire_of vars obj"] obj(2) l Cons.prems(4) obtain m1 where
    m1: "store Tx ch ?pos (wire_of vars obj) m = Some m1" "region_ok c m1" "\<And>d. infos d m1 = infos d m"
    "slot c Tx ch w m1 = splice ?pos (wire_of vars obj) (slot c Tx ch w m)"
    "\<And>d' ch' b. ch' < length (chan_sizes c d') \<Longrightarrow> (d', ch', b) \<noteq> (Tx, ch, w) \<Longrightarrow>
        slot c d' ch' b m1 = slot c d' ch' b m"
    by (auto simp: splice_def)
  from Cons.IH [OF m1(2)] Cons.prems(2, 3, 4) m1(3) obtain m' where
    m': "copyVarsToPdo vars (w, chan_off c Tx ch) objs m1 = Some m'" "region_ok c m'" "\<And>d. infos d m' = infos d m1"
    "slot c Tx ch w m' = splices (tx_writes vars objs) (slot c Tx ch w m1)"
    "\<And>d' ch' b. ch' < length (chan_sizes c d') \<Longrightarrow> (d', ch', b) \<noteq> (Tx, ch, w) \<Longrightarrow>
        slot c d' ch' b m' = slot c d' ch' b m1" by auto
  show ?case using m1 m' c by (auto simp: tx_writes_def)
qed

text \<open>One enabled channel: the PDO of the channel is the image of the variables on an old PDO.\<close>

lemma tx_channel_holds:
  assumes h: "holds_values c reg m" and ch: "ch < length (chan_sizes c Tx)"
    and objs: "list_all (\<lambda>obj. valid_object obj \<and> within (chan_sizes c Tx ! ch) (pdo_place obj)) objs"
    and vars: "list_all (\<lambda>obj. within (length vars) (var_place obj)) objs"
  shows "\<exists>m' old. Option.bind (pdoucal_getTxPdoAdrs ch m)
       (\<lambda>pdo. Option.bind (copyVarsToPdo vars pdo objs m) (pdoucal_setTxPdo ch)) = Some m' \<and>
     length old = chan_sizes c Tx ! ch \<and>
     holds_values c (reg((Tx, ch) := splices (tx_writes vars objs) old)) m'"
proof -
  have ok: "region_ok c m" using h by (simp add: holds_values_def)
  note R = region_okD [OF ok ch]
  let ?w = "writeBuf (infos Tx m ! ch)"
  have a: "pdoucal_getTxPdoAdrs ch m = Some (?w, chan_off c Tx ch)"
    using R(1, 2) by (simp add: pdoucal_getTxPdoAdrs_def infos_def Let_def)
  from copyVarsToPdo_slot [OF ok ch objs vars refl] obtain m1 where
    m1: "copyVarsToPdo vars (?w, chan_off c Tx ch) objs m = Some m1" "region_ok c m1" "\<And>d. infos d m1 = infos d m"
    "slot c Tx ch ?w m1 = splices (tx_writes vars objs) (slot c Tx ch ?w m)"
    "\<And>d' ch' b. ch' < length (chan_sizes c d') \<Longrightarrow> (d', ch', b) \<noteq> (Tx, ch, ?w) \<Longrightarrow>
        slot c d' ch' b m1 = slot c d' ch' b m" by blast
  have p: "pdoucal_setTxPdo ch m1 = Option.bind (exchangeWrite Tx ch m1) (setNewData Tx ch True)"
    by (simp add: pdoucal_setTxPdo_def)
  from publish_holds [OF h ch m1(2, 3, 5)] obtain m2 where
    "pdoucal_setTxPdo ch m1 = Some m2"
    "holds_values c (reg((Tx, ch) := splices (tx_writes vars objs) (slot c Tx ch ?w m))) m2"
    unfolding p m1(4) by blast
  moreover have "length (slot c Tx ch ?w m) = chan_sizes c Tx ! ch"
    using length_slot [OF ok ch] perm3D(2) [OF R(3)] by simp
  ultimately show ?thesis using a m1(1) by auto
qed

text \<open>What the registers hold afterwards: \<open>chs\<close> are the channels that were copied.\<close>

definition tx_copied ::
  "pdo_conf \<Rightarrow> tPdouInstance \<Rightarrow> byte list \<Rightarrow> nat set \<Rightarrow> (pdo_dir \<times> nat \<Rightarrow> byte list) \<Rightarrow> (pdo_dir \<times> nat \<Rightarrow> byte list) \<Rightarrow> bool" where
  "tx_copied c s vars chs reg reg' \<longleftrightarrow> (\<forall>ch. reg' (Rx, ch) = reg (Rx, ch)) \<and>
     (\<forall>ch. if ch \<in> chs \<and> \<not> disabled (chan_list Tx (pdouChannels s) ! ch)
       then \<exists>old. length old = chan_sizes c Tx ! ch \<and> reg' (Tx, ch) = splices (tx_writes vars (chan_objs Tx ch s)) old
       else reg' (Tx, ch) = reg (Tx, ch))"

lemma tx_copied_insert:
  assumes "tx_copied c s vars chs reg1 reg'" and "ch \<notin> chs"
    and "if disabled (chan_list Tx (pdouChannels s) ! ch) then reg1 = reg
      else \<exists>old. length old = chan_sizes c Tx ! ch \<and>
        reg1 = reg((Tx, ch) := splices (tx_writes vars (chan_objs Tx ch s)) old)"
  shows "tx_copied c s vars (insert ch chs) reg reg'"
  unfolding tx_copied_def
proof (intro conjI allI)
  fix ch'
  have rx: "reg1 (Rx, ch') = reg (Rx, ch')" using assms(3) by (auto split: if_splits)
  then show "reg' (Rx, ch') = reg (Rx, ch')" using assms(1) by (simp add: tx_copied_def)
  have "ch' \<noteq> ch \<Longrightarrow> reg1 (Tx, ch') = reg (Tx, ch')" using assms(3) by (auto split: if_splits)
  then show "if ch' \<in> insert ch chs \<and> \<not> disabled (chan_list Tx (pdouChannels s) ! ch')
      then \<exists>old. length old = chan_sizes c Tx ! ch' \<and> reg' (Tx, ch') = splices (tx_writes vars (chan_objs Tx ch' s)) old
      else reg' (Tx, ch') = reg (Tx, ch')"
  proof (cases "ch' = ch")
    case True
    then have "reg' (Tx, ch') = reg1 (Tx, ch)" using assms(1, 2) by (simp add: tx_copied_def)
    with assms(3) True show ?thesis by (auto split: if_splits)
  next
    case False
    with \<open>ch' \<noteq> ch \<Longrightarrow> reg1 (Tx, ch') = reg (Tx, ch')\<close> assms(1) show ?thesis by (simp add: tx_copied_def)
  qed
qed

lemma copyTxChannels_holds:
  assumes l: "layout_ok c (pdouChannels s)" and mp: "mapping_ok s" and v: "vars_within (length vars) Tx s"
  shows "holds_values c reg m \<Longrightarrow> distinct chs \<Longrightarrow> set chs \<subseteq> {..<setup_count Tx (pdouChannels s)} \<Longrightarrow>
     \<exists>m' reg'. copyTxChannels s vars chs m = Some m' \<and> holds_values c reg' m' \<and> tx_copied c s vars (set chs) reg reg'"
proof (induction chs arbitrary: m reg)
  case Nil
  then show ?case by (auto simp: tx_copied_def)
next
  case (Cons ch chs)
  let ?x = "chan_list Tx (pdouChannels s) ! ch"
  have ch: "ch < setup_count Tx (pdouChannels s)" and chs: "distinct chs" "set chs \<subseteq> {..<setup_count Tx (pdouChannels s)}" "ch \<notin> set chs"
    using Cons.prems(2, 3) by simp_all
  have g: "get_channel Tx ch (pdouChannels s) = Some ?x"
    using get_channel_ok [OF layout_okD(1) [OF l]] ch by simp
  show ?case
  proof (cases "disabled ?x")
    case True
    from Cons.IH [OF Cons.prems(1) chs(1, 2)] obtain m' reg' where
      m': "copyTxChannels s vars chs m = Some m'" "holds_values c reg' m'" "tx_copied c s vars (set chs) reg reg'" by auto
    from tx_copied_insert [OF m'(3) chs(3)] True have "tx_copied c s vars (set (ch # chs)) reg reg'" by simp
    with m'(1, 2) True g show ?thesis by (auto simp: disabled_def)
  next
    case False
    note o = mapping_okD [OF mp ch False]
    have sz: "chan_sizes c Tx ! ch = pdoSize ?x" "ch < length (chan_sizes c Tx)"
      using layout_okD(2, 3) [OF l] ch by simp_all
    have "list_all (\<lambda>obj. within (length vars) (var_place obj)) (chan_objs Tx ch s)"
      using v ch by (simp add: vars_within_def)
    from tx_channel_holds [OF Cons.prems(1) sz(2) _ this] o(2) sz(1)
    obtain m1 old where m1: "Option.bind (pdoucal_getTxPdoAdrs ch m)
        (\<lambda>pdo. Option.bind (copyVarsToPdo vars pdo (chan_objs Tx ch s) m) (pdoucal_setTxPdo ch)) = Some m1"
      "length old = chan_sizes c Tx ! ch"
      "holds_values c (reg((Tx, ch) := splices (tx_writes vars (chan_objs Tx ch s)) old)) m1" by auto
    from Cons.IH [OF m1(3) chs(1, 2)] obtain m' reg' where
      m': "copyTxChannels s vars chs m1 = Some m'" "holds_values c reg' m'"
      "tx_copied c s vars (set chs) (reg((Tx, ch) := splices (tx_writes vars (chan_objs Tx ch s)) old)) reg'" by blast
    have "tx_copied c s vars (set (ch # chs)) reg reg'"
      using tx_copied_insert [OF m'(3) chs(3), of reg] False m1(2) by auto
    moreover have "copyTxChannels s vars (ch # chs) m = copyTxChannels s vars chs m1"
      using g False o(1) m1(1) by (auto simp: disabled_def split: bind_splits)
    ultimately show ?thesis using m'(1, 2) by auto
  qed
qed

lemma pdou_copyTxPdoFromPi_holds:
  assumes r: "pdo_ready c reg s k" and v: "vars_within (length vars) Tx s"
  shows "\<exists>m' reg'. pdou_copyTxPdoFromPi s (pdoMem k) vars = Some (kErrorOk, Some m') \<and>
     pdo_ready c reg' s (k\<lparr>pdoMem := Some m'\<rparr>) \<and>
     tx_copied c s vars {..<setup_count Tx (pdouChannels s)} reg reg'"
proof -
  obtain m where m: "pdoMem k = Some m" "holds_values c reg m" using r by (auto simp: pdo_ready_def)
  have l: "layout_ok c (pdouChannels s)" "mapping_ok s" using r by (simp_all add: pdo_ready_def)
  from copyTxChannels_holds [OF l v m(2), of "[0..<setup_count Tx (pdouChannels s)]"] obtain m' reg' where
    "copyTxChannels s vars [0..<setup_count Tx (pdouChannels s)] m = Some m'" "holds_values c reg' m'"
    "tx_copied c s vars {..<setup_count Tx (pdouChannels s)} reg reg'"
    by (auto simp: atLeast0LessThan)
  then show ?thesis using r m
    by (cases "setup_count Tx (pdouChannels s) = 0") (auto simp: pdou_copyTxPdoFromPi_def pdo_ready_def Let_def)
qed

section \<open>The consumer's user layer\<close>

definition rx_writes ::
  "tPdouInstance \<Rightarrow> (pdo_dir \<times> nat \<Rightarrow> byte list) \<Rightarrow> nat list \<Rightarrow> (nat \<times> byte list) list" where
  "rx_writes s reg chs = concat (map (\<lambda>ch.
     map (\<lambda>obj. (mapVar obj, host_of (reg (Rx, ch)) obj)) (chan_objs Rx ch s)) chs)"

definition no_time_objects :: "tPdouInstance \<Rightarrow> bool" where
  "no_time_objects s \<longleftrightarrow> (\<forall>ch < setup_count Rx (pdouChannels s).
     list_all (\<lambda>obj. \<not> is_time_object obj) (chan_objs Rx ch s))"

lemma length_host_of:
  "valid_object obj \<Longrightarrow> within (length pdo) (pdo_place obj) \<Longrightarrow> length (host_of pdo obj) = host_width obj"
  using host_width_ge [of obj] by (auto simp: host_of_def within_def pdo_place_def)

lemma copyVarsFromPdo_splices:
  assumes a: "fst a < length (pTripleBuf m)" "snd a + n \<le> length (pTripleBuf m ! fst a)"
    and objs: "list_all (\<lambda>obj. valid_object obj \<and> within n (pdo_place obj)) objs"
    and time: "list_all (\<lambda>obj. \<not> is_time_object obj) objs"
    and pdo: "pdo = take n (drop (snd a) (pTripleBuf m ! fst a))"
  shows "list_all (\<lambda>obj. within (length vars) (var_place obj)) objs \<Longrightarrow>
     copyVarsFromPdo a objs (m, vars) = Some (m, splices (map (\<lambda>obj. (mapVar obj, host_of pdo obj)) objs) vars)"
  using objs time
proof (induction objs arbitrary: vars)
  case (Cons obj objs)
  have obj: "valid_object obj" "within n (pdo_place obj)" "\<not> is_time_object obj" "within (length vars) (var_place obj)"
    using Cons.prems by simp_all
  have "length pdo = n" using a by (simp add: pdo)
  then have "length (host_of pdo obj) = host_width obj" using length_host_of obj by simp
  then have "length (splice (mapVar obj) (host_of pdo obj) vars) = length vars"
    using obj(4) by (simp add: within_def var_place_def length_splice)
  with Cons copyVarFromPdo_splice [OF obj(1, 3, 4) a obj(2)] show ?case by (simp add: pdo)
qed simp

lemma length_rx_splices:
  assumes "layout_ok c (pdouChannels s)" and "mapping_ok s" and "vars_within (length vars) Rx s"
    and "\<And>ch. ch < setup_count Rx (pdouChannels s) \<Longrightarrow> length (reg (Rx, ch)) = chan_sizes c Rx ! ch"
    and "set chs \<subseteq> {..<setup_count Rx (pdouChannels s)}"
  shows "map place_of (rx_writes s reg chs) = concat (map (\<lambda>ch. map var_place (chan_objs Rx ch s)) chs)"
    and "list_all (\<lambda>w. within (length vars) (place_of w)) (rx_writes s reg chs)"
proof -
  have p: "place_of (mapVar obj, host_of (reg (Rx, ch)) obj) = var_place obj"
    if "ch \<in> set chs" "obj \<in> set (chan_objs Rx ch s)" for ch obj
  proof -
    have ch: "ch < setup_count Rx (pdouChannels s)" using that(1) assms(5) by auto
    have "\<not> disabled (chan_list Rx (pdouChannels s) ! ch)" using that(2) by (auto simp: chan_objs_def Let_def)
    from mapping_okD(2) [OF assms(2) ch this] that(2) layout_okD(3) [OF assms(1) ch] assms(4) [OF ch]
    have "valid_object obj" "within (length (reg (Rx, ch))) (pdo_place obj)" by (simp_all add: list_all_iff)
    then show ?thesis by (simp add: length_host_of var_place_def)
  qed
  then show m: "map place_of (rx_writes s reg chs) = concat (map (\<lambda>ch. map var_place (chan_objs Rx ch s)) chs)"
    by (simp add: rx_writes_def map_concat comp_def cong: map_cong)
  have "list_all (within (length vars)) (concat (map (\<lambda>ch. map var_place (chan_objs Rx ch s)) chs))"
    using assms(3, 5) by (fastforce simp: vars_within_def list_all_iff)
  then show "list_all (\<lambda>w. within (length vars) (place_of w)) (rx_writes s reg chs)"
    by (simp only: m [symmetric] list.pred_map comp_def)
qed

lemma holds_length:
  assumes "holds_values c reg m" and "ch < length (chan_sizes c d)"
  shows "length (reg (d, ch)) = chan_sizes c d ! ch"
proof -
  have r: "region_ok c m" "channel_value c d ch m = reg (d, ch)" using assms by (simp_all add: holds_values_def)
  show ?thesis
    using length_slot [OF r(1) assms(2)] perm3D(1, 3) [OF region_okD(3) [OF r(1) assms(2)]]
    by (simp add: r(2) [symmetric] channel_value_def Let_def)
qed

lemma copyRxChannels_holds:
  assumes l: "layout_ok c (pdouChannels s)" and mp: "mapping_ok s" and nt: "no_time_objects s"
  shows "holds_values c reg m \<Longrightarrow> vars_within (length vars) Rx s \<Longrightarrow>
     set chs \<subseteq> {..<setup_count Rx (pdouChannels s)} \<Longrightarrow>
     \<exists>m'. copyRxChannels s chs (m, vars) = Some (m', splices (rx_writes s reg chs) vars) \<and> holds_values c reg m'"
proof (induction chs arbitrary: m vars)
  case Nil
  then show ?case by (simp add: rx_writes_def)
next
  case (Cons ch chs)
  let ?x = "chan_list Rx (pdouChannels s) ! ch"
  let ?ws = "map (\<lambda>obj. (mapVar obj, host_of (reg (Rx, ch)) obj)) (chan_objs Rx ch s)"
  have ch: "ch < setup_count Rx (pdouChannels s)" and chs: "set chs \<subseteq> {..<setup_count Rx (pdouChannels s)}"
    using Cons.prems(3) by simp_all
  have g: "get_channel Rx ch (pdouChannels s) = Some ?x"
    using get_channel_ok [OF layout_okD(1) [OF l]] ch by simp
  have sz: "chan_sizes c Rx ! ch = pdoSize ?x" "ch < length (chan_sizes c Rx)"
    using layout_okD(2, 3) [OF l] ch by simp_all
  have w: "rx_writes s reg (ch # chs) = ?ws @ rx_writes s reg chs" by (simp add: rx_writes_def)
  show ?case
  proof (cases "disabled ?x")
    case True
    then have "chan_objs Rx ch s = []" by (simp add: chan_objs_def)
    with Cons True g chs w show ?thesis by (simp add: disabled_def)
  next
    case False
    note o = mapping_okD [OF mp ch False]
    have v: "list_all (\<lambda>obj. within (length vars) (var_place obj)) (chan_objs Rx ch s)"
      using Cons.prems(2) ch by (simp add: vars_within_def)
    have t: "list_all (\<lambda>obj. \<not> is_time_object obj) (chan_objs Rx ch s)" using nt ch by (simp add: no_time_objects_def)
    from fetch_holds [OF Cons.prems(1) sz(2)] obtain m1 where
      m1: "fetchNewData Rx ch m = Some m1" "holds_values c reg m1" "\<not> newData (infos Rx m1 ! ch)" by blast
    then have ok: "region_ok c m1" by (simp add: holds_values_def)
    note R = region_okD [OF ok sz(2)]
    let ?a = "(readBuf (infos Rx m1 ! ch), chan_off c Rx ch)"
    have p: "pdoucal_getRxPdo ch m = Some (?a, m1)"
      using m1(1) R(2) by (simp add: pdoucal_getRxPdo_def infos_def)
    have r: "fst ?a < 3" using perm3D(1) [OF R(3)] by simp
    then have a: "fst ?a < length (pTripleBuf m1)" "snd ?a + chan_sizes c Rx ! ch \<le> length (pTripleBuf m1 ! fst ?a)"
      using R(4) le_trans [OF chan_inside [OF sz(2)] R(5) [OF r]] by simp_all
    have "reg (Rx, ch) = channel_value c Rx ch m1" using m1(2) sz(2) by (simp add: holds_values_def)
    then have "reg (Rx, ch) = take (chan_sizes c Rx ! ch) (drop (snd ?a) (pTripleBuf m1 ! fst ?a))"
      using m1(3) by (simp add: channel_value_def slot_def Let_def)
    from copyVarsFromPdo_splices [OF a _ t this v] o(2) sz(1)
    have f: "copyVarsFromPdo ?a (chan_objs Rx ch s) (m1, vars) = Some (m1, splices ?ws vars)" by simp
    have "list_all (\<lambda>w. within (length vars) (place_of w)) (rx_writes s reg [ch])"
      using length_rx_splices(2) [OF l mp Cons.prems(2), of reg "[ch]"] holds_length [OF Cons.prems(1), of _ Rx]
        layout_okD(2) [OF l, of Rx] ch by simp
    then have "length (splices ?ws vars) = length vars" by (intro length_splices) (simp add: rx_writes_def)
    then have "vars_within (length (splices ?ws vars)) Rx s" using Cons.prems(2) by simp
    from Cons.IH [OF m1(2) this chs] obtain m' where
      "copyRxChannels s chs (m1, splices ?ws vars) = Some (m', splices (rx_writes s reg chs) (splices ?ws vars))"
      "holds_values c reg m'" by blast
    then show ?thesis using g False o(1) p f w by (simp add: disabled_def)
  qed
qed

lemma pdou_copyRxPdoToPi_holds:
  assumes r: "pdo_ready c reg s k" and v: "vars_within (length vars) Rx s" and nt: "no_time_objects s"
  shows "\<exists>m'. pdou_copyRxPdoToPi s (pdoMem k) vars =
       Some (kErrorOk, Some m', splices (rx_writes s reg [0..<setup_count Rx (pdouChannels s)]) vars) \<and>
     pdo_ready c reg s (k\<lparr>pdoMem := Some m'\<rparr>)"
proof -
  obtain m where m: "pdoMem k = Some m" "holds_values c reg m" using r by (auto simp: pdo_ready_def)
  have l: "layout_ok c (pdouChannels s)" "mapping_ok s" using r by (simp_all add: pdo_ready_def)
  from copyRxChannels_holds [OF l nt m(2) v, of "[0..<setup_count Rx (pdouChannels s)]"] obtain m' where
    "copyRxChannels s [0..<setup_count Rx (pdouChannels s)] (m, vars) =
      Some (m', splices (rx_writes s reg [0..<setup_count Rx (pdouChannels s)]) vars)" "holds_values c reg m'"
    by (auto simp: atLeast0LessThan)
  then show ?thesis using r m
    by (cases "setup_count Rx (pdouChannels s) = 0")
      (auto simp: pdou_copyRxPdoToPi_def pdo_ready_def Let_def rx_writes_def)
qed

text \<open>
  The copy from the PDO in the slot of the reader, for every valid object: it stays in the slot, and
  in the variables. Only objects of a time type change the slot.
\<close>

lemma copyVarFromPdo_slot:
  assumes ok: "region_ok c m" and ch: "ch < length (chan_sizes c Rx)" and b: "b < 3"
    and obj: "valid_object obj" "within (chan_sizes c Rx ! ch) (pdo_place obj)" "within (length vars) (var_place obj)"
  shows "\<exists>m' vars'. copyVarFromPdo (b, chan_off c Rx ch) obj (m, vars) = Some (kErrorOk, m', vars') \<and>
     length vars' = length vars \<and> region_ok c m' \<and> (\<forall>d. infos d m' = infos d m) \<and>
     (\<forall>d' ch' b'. ch' < length (chan_sizes c d') \<longrightarrow> (d', ch', b') \<noteq> (Rx, ch, b) \<longrightarrow>
        slot c d' ch' b' m' = slot c d' ch' b' m)"
proof -
  let ?a = "(b, chan_off c Rx ch)" and ?pos = "bitOffset obj div 8"
  note R = region_okD [OF ok ch]
  have fit: "fst ?a < length (pTripleBuf m)" "snd ?a + chan_sizes c Rx ! ch \<le> length (pTripleBuf m ! fst ?a)"
    using b R(4) le_trans [OF chan_inside [OF ch] R(5) [OF b]] by simp_all
  have pos: "?pos + obj_width obj \<le> chan_sizes c Rx ! ch" using obj(2) by (simp add: within_def pdo_place_def)
  show ?thesis
  proof (cases "is_time_object obj")
    case True
    have "copyVarFromPdo ?a obj (m, vars) =
        map_option (\<lambda>m. (kErrorOk, m, vars)) (write_at (object_place ?a obj) (wire_of vars obj) m)"
      by (rule copyVarFromPdo_time [OF True obj(3) fit(1)]) (use fit(2) pos in simp)
    moreover have "?pos + length (wire_of vars obj) \<le> chan_sizes c Rx ! ch"
      using pos length_wire_of [OF obj(1, 3)] by simp
    from write_slot [OF ok ch b this] obtain m' where
      "write_at (object_place ?a obj) (wire_of vars obj) m = Some m'" "region_ok c m'" "\<forall>d. infos d m' = infos d m"
      "\<forall>d' ch' b'. ch' < length (chan_sizes c d') \<longrightarrow> (d', ch', b') \<noteq> (Rx, ch, b) \<longrightarrow>
        slot c d' ch' b' m' = slot c d' ch' b' m"
      by (auto simp: object_place_def)
    ultimately show ?thesis by (intro exI [of _ m'] exI [of _ vars]) simp
  next
    case False
    have "length (host_of (take (chan_sizes c Rx ! ch) (drop (snd ?a) (pTripleBuf m ! fst ?a))) obj) = host_width obj"
      by (rule length_host_of [OF obj(1)]) (use obj(2) fit in simp)
    moreover have "mapVar obj + host_width obj \<le> length vars" using obj(3) by (simp add: within_def var_place_def)
    ultimately show ?thesis
      using copyVarFromPdo_splice [OF obj(1) False obj(3) fit obj(2)] ok by (simp add: length_splice)
  qed
qed

lemma copyVarsFromPdo_slot:
  assumes ch: "ch < length (chan_sizes c Rx)" and b: "b < 3"
  shows "region_ok c m \<Longrightarrow> list_all (\<lambda>obj. valid_object obj \<and> within (chan_sizes c Rx ! ch) (pdo_place obj)) objs \<Longrightarrow>
    list_all (\<lambda>obj. within (length vars) (var_place obj)) objs \<Longrightarrow>
    \<exists>m' vars'. copyVarsFromPdo (b, chan_off c Rx ch) objs (m, vars) = Some (m', vars') \<and>
     length vars' = length vars \<and> region_ok c m' \<and> (\<forall>d. infos d m' = infos d m) \<and>
     (\<forall>d' ch' b'. ch' < length (chan_sizes c d') \<longrightarrow> (d', ch', b') \<noteq> (Rx, ch, b) \<longrightarrow>
        slot c d' ch' b' m' = slot c d' ch' b' m)"
proof (induction objs arbitrary: m vars)
  case (Cons obj objs)
  from copyVarFromPdo_slot [OF Cons.prems(1) ch b, of obj vars] Cons.prems(2, 3) obtain m1 vars1 where
    1: "copyVarFromPdo (b, chan_off c Rx ch) obj (m, vars) = Some (kErrorOk, m1, vars1)" "length vars1 = length vars"
      "region_ok c m1" "\<And>d. infos d m1 = infos d m"
      "\<And>d' ch' b'. ch' < length (chan_sizes c d') \<Longrightarrow> (d', ch', b') \<noteq> (Rx, ch, b) \<Longrightarrow> slot c d' ch' b' m1 = slot c d' ch' b' m"
    by auto
  from Cons.IH [OF 1(3), of vars1] Cons.prems(2, 3) 1(2) obtain m2 vars2 where
    2: "copyVarsFromPdo (b, chan_off c Rx ch) objs (m1, vars1) = Some (m2, vars2)" "length vars2 = length vars1"
      "region_ok c m2" "\<And>d. infos d m2 = infos d m1"
      "\<And>d' ch' b'. ch' < length (chan_sizes c d') \<Longrightarrow> (d', ch', b') \<noteq> (Rx, ch, b) \<Longrightarrow> slot c d' ch' b' m2 = slot c d' ch' b' m1"
    by auto
  show ?case
    by (intro exI [of _ m2] exI [of _ vars2]) (use 1 2 in \<open>simp del: split_paired_All\<close>)
qed auto

lemma copyRxChannels_ready:
  assumes l: "layout_ok c (pdouChannels s)" and mp: "mapping_ok s"
  shows "holds_values c reg m \<Longrightarrow> vars_within (length vars) Rx s \<Longrightarrow>
     set chs \<subseteq> {..<setup_count Rx (pdouChannels s)} \<Longrightarrow>
     \<exists>m' vars' reg'. copyRxChannels s chs (m, vars) = Some (m', vars') \<and> length vars' = length vars \<and>
       holds_values c reg' m' \<and> (\<forall>ch. reg' (Tx, ch) = reg (Tx, ch))"
proof (induction chs arbitrary: m vars reg)
  case (Cons ch chs)
  let ?x = "chan_list Rx (pdouChannels s) ! ch"
  have ch: "ch < setup_count Rx (pdouChannels s)" and chs: "set chs \<subseteq> {..<setup_count Rx (pdouChannels s)}"
    using Cons.prems(3) by simp_all
  have g: "get_channel Rx ch (pdouChannels s) = Some ?x"
    using get_channel_ok [OF layout_okD(1) [OF l]] ch by simp
  have sz: "chan_sizes c Rx ! ch = pdoSize ?x" "ch < length (chan_sizes c Rx)"
    using layout_okD(2, 3) [OF l] ch by simp_all
  show ?case
  proof (cases "disabled ?x")
    case True
    then show ?thesis using Cons.IH [OF Cons.prems(1, 2) chs] g by (simp add: disabled_def)
  next
    case False
    note o = mapping_okD [OF mp ch False]
    have v: "list_all (\<lambda>obj. within (length vars) (var_place obj)) (chan_objs Rx ch s)"
      using Cons.prems(2) ch by (simp add: vars_within_def)
    from fetch_holds [OF Cons.prems(1) sz(2)] obtain m1 where
      m1: "fetchNewData Rx ch m = Some m1" "holds_values c reg m1" "\<not> newData (infos Rx m1 ! ch)" by blast
    then have ok: "region_ok c m1" by (simp add: holds_values_def)
    note R = region_okD [OF ok sz(2)]
    let ?b = "readBuf (infos Rx m1 ! ch)"
    have p: "pdoucal_getRxPdo ch m = Some ((?b, chan_off c Rx ch), m1)"
      using m1(1) R(2) by (simp add: pdoucal_getRxPdo_def infos_def)
    from copyVarsFromPdo_slot [OF sz(2) perm3D(1) [OF R(3)] ok _ v] o(2) sz(1) obtain m2 vars2 where
      f: "copyVarsFromPdo (?b, chan_off c Rx ch) (chan_objs Rx ch s) (m1, vars) = Some (m2, vars2)"
        "length vars2 = length vars" "region_ok c m2" "\<And>d. infos d m2 = infos d m1"
        "\<And>d' ch' b'. ch' < length (chan_sizes c d') \<Longrightarrow> (d', ch', b') \<noteq> (Rx, ch, ?b) \<Longrightarrow> slot c d' ch' b' m2 = slot c d' ch' b' m1"
      by auto
    have "channel_value c d' ch' m2 = (reg((Rx, ch) := slot c Rx ch ?b m2)) (d', ch')"
      if "ch' < length (chan_sizes c d')" for d' ch'
    proof (cases "(d', ch') = (Rx, ch)")
      case True
      then show ?thesis using m1(3) f(4) by (simp add: channel_value_def Let_def)
    next
      case False
      then have "channel_value c d' ch' m2 = channel_value c d' ch' m1"
        by (intro channel_value_other) (use f(4) f(5) [OF that] in auto)
      then show ?thesis using False m1(2) that by (auto simp: holds_values_def)
    qed
    then have "holds_values c (reg((Rx, ch) := slot c Rx ch ?b m2)) m2" using f(3) by (simp add: holds_values_def)
    from Cons.IH [OF this _ chs, of vars2] Cons.prems(2) f(2) obtain m' vars' reg' where
      "copyRxChannels s chs (m2, vars2) = Some (m', vars')" "length vars' = length vars2" "holds_values c reg' m'"
      "\<forall>ch'. reg' (Tx, ch') = reg (Tx, ch')" by fastforce
    then show ?thesis using g False o(1) p f(1, 2) by (simp add: disabled_def) blast
  qed
qed auto

lemma pdou_copyRxPdoToPi_ready:
  assumes r: "pdo_ready c reg s k" and v: "vars_within (length vars) Rx s"
  shows "\<exists>m' vars' reg'. pdou_copyRxPdoToPi s (pdoMem k) vars = Some (kErrorOk, Some m', vars') \<and>
     length vars' = length vars \<and> pdo_ready c reg' s (k\<lparr>pdoMem := Some m'\<rparr>) \<and> (\<forall>ch. reg' (Tx, ch) = reg (Tx, ch))"
proof -
  obtain m where m: "pdoMem k = Some m" "holds_values c reg m" using r by (auto simp: pdo_ready_def)
  have l: "layout_ok c (pdouChannels s)" "mapping_ok s" using r by (simp_all add: pdo_ready_def)
  from copyRxChannels_ready [OF l m(2) v, of "[0..<setup_count Rx (pdouChannels s)]"] obtain m' vars' reg' where
    "copyRxChannels s [0..<setup_count Rx (pdouChannels s)] (m, vars) = Some (m', vars')" "length vars' = length vars"
    "holds_values c reg' m'" "\<forall>ch. reg' (Tx, ch) = reg (Tx, ch)"
    by (auto simp: atLeast0LessThan)
  then show ?thesis using r m
    by (cases "setup_count Rx (pdouChannels s) = 0") (auto simp: pdou_copyRxPdoToPi_def pdo_ready_def Let_def)
qed
section \<open>The kernel layers\<close>

text \<open>The node by which the channel of a frame is searched, for sending and for receiving.\<close>

definition tx_node :: "byte list \<Rightarrow> nat" where
  "tx_node frame = (if frame ! OFFSET_MESSAGE_TYPE = kMsgTypePres then PDO_PRES_NODE_ID
     else unat (frame ! OFFSET_DST_NODE_ID))"

definition rx_node :: "byte list \<Rightarrow> nat" where
  "rx_node frame = (if frame ! OFFSET_MESSAGE_TYPE = kMsgTypePreq then PDO_PREQ_NODE_ID
     else unat (frame ! OFFSET_SRC_NODE_ID))"

lemma nth_splice:
  assumes "pos + length xs \<le> length bs" and "i < length bs"
  shows "splice pos xs bs ! i = (if pos \<le> i \<and> i < pos + length xs then xs ! (i - pos) else bs ! i)"
  using mem_write_nth [of bs pos xs "splice pos xs bs" i] assms by (simp add: mem_write_splice)

lemma put_uint16_splice:
  "off + 2 \<le> length buf \<Longrightarrow> put_at off ami_setUint16Le buf v = Some (splice off (wire LittleEndian 2 v) buf)"
  using u16le.put_wire [of "drop off buf" v] by (simp add: put_at_def splice_def add.commute)

lemma pdo_ready_channel:
  assumes "pdo_ready c reg s k" and "find_channel d node (pdokChannels k) = Some (Some ch)"
  shows "ch < setup_count d (pdouChannels s)" "ch < length (chan_sizes c d)"
    "get_channel d ch (pdokChannels k) = Some (chan_list d (pdouChannels s) ! ch)"
    "chNodeId (chan_list d (pdouChannels s) ! ch) = node"
    "chan_sizes c d ! ch = pdoSize (chan_list d (pdouChannels s) ! ch)"
proof -
  have l: "layout_ok c (pdouChannels s)" and k: "pdokChannels k = pdouChannels s"
    using assms(1) by (simp_all add: pdo_ready_def)
  note s = layout_okD(1) [OF l]
  note f = find_channel_SomeD [OF s assms(2) [unfolded k]]
  show "ch < setup_count d (pdouChannels s)" "chNodeId (chan_list d (pdouChannels s) ! ch) = node" using f by simp_all
  then show "ch < length (chan_sizes c d)"
    "get_channel d ch (pdokChannels k) = Some (chan_list d (pdouChannels s) ! ch)"
    "chan_sizes c d ! ch = pdoSize (chan_list d (pdouChannels s) ! ch)"
    using layout_okD(2, 3) [OF l] get_channel_ok [OF s] k by simp_all
qed

definition tx_frame :: "byte list \<Rightarrow> tPdoChannel \<Rightarrow> byte list \<Rightarrow> byte list" where
  "tx_frame frame x payload =
     (splice OFFSET_PDO_SIZE (wire LittleEndian 2 (pdoSize x))
       (splice PLK_FRAME_OFFSET_PDO_PAYLOAD payload
         (frame[OFFSET_FLAG1 := frame ! OFFSET_FLAG1 AND NOT PLK_FRAME_FLAG1_RD, OFFSET_PDO_VERSION := mappingVersion x])))
      [OFFSET_FLAG1 := frame ! OFFSET_FLAG1 OR PLK_FRAME_FLAG1_RD]"

lemma copyTxPdo_ready:
  assumes r: "pdo_ready c reg s k" and f: "find_channel Tx (tx_node frame) (pdokChannels k) = Some (Some ch)"
    and x: "x = chan_list Tx (pdouChannels s) ! ch"
    and sz: "pdoSize x + 24 \<le> frameSize" "frameSize \<le> length frame"
  shows "\<exists>k'. copyTxPdo frame frameSize True k = Some (tx_frame frame x (reg (Tx, ch)), k') \<and> pdo_ready c reg s k'"
proof -
  note C = pdo_ready_channel [OF r f]
  obtain m where m: "pdoMem k = Some m" "holds_values c reg m" "pdokRunning k" using r by (auto simp: pdo_ready_def)
  from read_holds [OF m(2) C(2)] C(5) x obtain m' where
    m': "pdokcal_readTxPdo ch (pdoSize x) m = Some (reg (Tx, ch), m')" "holds_values c reg m'"
    by (auto simp: tx_read)
  have l: "length (reg (Tx, ch)) = pdoSize x" using holds_length [OF m(2) C(2)] C(5) x by simp
  have g: "get_channel Tx ch (pdokChannels k) = Some x" using C(3) x by simp
  have "fillTxPdo (frame[18 := frame ! 18 AND NOT PLK_FRAME_FLAG1_RD]) ch (frame ! 18) True k =
      Some (tx_frame frame x (reg (Tx, ch)), k\<lparr>pdoMem := Some m'\<rparr>)"
    using sz l m m' g
    by (simp add: fillTxPdo_def set_frame_byte_def mem_write_splice put_uint16_splice length_splice tx_frame_def)
  then have "copyTxPdo frame frameSize True k = Some (tx_frame frame x (reg (Tx, ch)), k\<lparr>pdoMem := Some m'\<rparr>)"
    using sz m g f [unfolded tx_node_def] by (auto simp: copyTxPdo_def frame_byte_def set_frame_byte_def split: if_splits)
  moreover have "pdo_ready c reg s (k\<lparr>pdoMem := Some m'\<rparr>)" using r m'(2) by (simp add: pdo_ready_def)
  ultimately show ?thesis by blast
qed

lemma tx_frame_fields:
  assumes "length payload + 24 \<le> length frame"
  shows "length (tx_frame frame x payload) = length frame"
    "take (length payload) (drop 24 (tx_frame frame x payload)) = payload"
    "tx_frame frame x payload ! OFFSET_FLAG1 AND PLK_FRAME_FLAG1_RD \<noteq> 0"
    "tx_frame frame x payload ! OFFSET_PDO_VERSION = mappingVersion x"
    "rx_node (tx_frame frame x payload) = rx_node frame"
proof -
  show "length (tx_frame frame x payload) = length frame" using assms by (simp add: tx_frame_def length_splice)
  show "take (length payload) (drop 24 (tx_frame frame x payload)) = payload"
    using assms by (simp add: tx_frame_def splice_other length_splice apart_def splice_at drop_update_swap)
  have "(v OR 1) AND 1 \<noteq> (0 :: byte)" for v
  proof -
    have "(v OR 1) AND 1 = (1 :: byte)" by (rule bit_word_eqI) (auto simp: bit_simps)
    then show ?thesis by simp
  qed
  then show "tx_frame frame x payload ! OFFSET_FLAG1 AND PLK_FRAME_FLAG1_RD \<noteq> 0"
    using assms by (simp add: tx_frame_def length_splice)
  show "tx_frame frame x payload ! OFFSET_PDO_VERSION = mappingVersion x"
    "rx_node (tx_frame frame x payload) = rx_node frame"
    using assms by (simp_all add: tx_frame_def rx_node_def nth_splice length_splice)
qed

lemma pdok_processRxPdo_ready:
  assumes r: "pdo_ready c reg s k" and f: "find_channel Rx (rx_node frame) (pdokChannels k) = Some (Some ch)"
    and x: "x = chan_list Rx (pdouChannels s) ! ch"
    and sz: "pdoSize x + 24 \<le> frameSize" "frameSize \<le> length frame"
    and rd: "frame ! OFFSET_FLAG1 AND PLK_FRAME_FLAG1_RD \<noteq> 0"
    and v: "mappingVersion x AND PLK_VERSION_MAIN = frame ! OFFSET_PDO_VERSION AND PLK_VERSION_MAIN"
  shows "\<exists>k'. pdok_processRxPdo deferred frame frameSize k = Some (kErrorOk, k') \<and>
     pdo_ready c (reg((Rx, ch) := take (pdoSize x) (drop 24 frame))) s k'"
proof -
  note C = pdo_ready_channel [OF r f]
  obtain m where m: "pdoMem k = Some m" "holds_values c reg m" "pdokRunning k" using r by (auto simp: pdo_ready_def)
  let ?p = "take (pdoSize x) (drop 24 frame)"
  have "length ?p = chan_sizes c Rx ! ch" using sz C(5) x by simp
  from write_holds [OF m(2) C(2) this] obtain m' where
    m': "pdokcal_writeRxPdo ch ?p m = Some m'" "holds_values c (reg((Rx, ch) := ?p)) m'" by (auto simp: rx_write)
  have "storeRxPdo frame frameSize ch k = Some (k\<lparr>pdoMem := Some m'\<rparr>)"
    using sz C(3) x v m m'(1) by (simp add: storeRxPdo_def frame_byte_def mem_read_def)
  then have "pdok_processRxPdo deferred frame frameSize k =
      Some (kErrorOk, if deferred then pdok_log DllkReleaseRxFrame (k\<lparr>pdoMem := Some m'\<rparr>) else k\<lparr>pdoMem := Some m'\<rparr>)"
    using sz rd m f [unfolded rx_node_def] by (auto simp: pdok_processRxPdo_def frame_byte_def split: if_splits)
  then show ?thesis using r m'(2) by (auto simp: pdo_ready_def pdok_log_def)
qed

section \<open>From the variables of one node to those of another\<close>

text \<open>Both ends of a channel map objects of the same types to the same places, in the same order.\<close>

definition same_mapping :: "tPdoMappObject list \<Rightarrow> tPdoMappObject list \<Rightarrow> bool" where
  "same_mapping objs1 objs2 \<longleftrightarrow>
     map (\<lambda>obj. (bitOffset obj, byteSizeOrType obj)) objs1 = map (\<lambda>obj. (bitOffset obj, byteSizeOrType obj)) objs2"

lemma same_mappingD:
  assumes "same_mapping objs1 objs2"
  shows "length objs1 = length objs2"
    and "i < length objs1 \<Longrightarrow> bitOffset (objs1 ! i) = bitOffset (objs2 ! i) \<and>
      obj_width (objs1 ! i) = obj_width (objs2 ! i) \<and> host_width (objs1 ! i) = host_width (objs2 ! i) \<and>
      is_time_object (objs1 ! i) = is_time_object (objs2 ! i)"
proof -
  show l: "length objs1 = length objs2" using assms by (auto simp: same_mapping_def dest: map_eq_imp_length_eq)
  assume "i < length objs1"
  with assms l have "(bitOffset (objs1 ! i), byteSizeOrType (objs1 ! i)) = (bitOffset (objs2 ! i), byteSizeOrType (objs2 ! i))"
    unfolding same_mapping_def by (metis (no_types, lifting) nth_map)
  then have e: "byteSizeOrType (objs1 ! i) = byteSizeOrType (objs2 ! i)" "bitOffset (objs1 ! i) = bitOffset (objs2 ! i)"
    by simp_all
  show "bitOffset (objs1 ! i) = bitOffset (objs2 ! i) \<and>
      obj_width (objs1 ! i) = obj_width (objs2 ! i) \<and> host_width (objs1 ! i) = host_width (objs2 ! i) \<and>
      is_time_object (objs1 ! i) = is_time_object (objs2 ! i)"
    unfolding obj_width_def host_width_def is_time_object_def e by simp
qed

text \<open>The image of the variables on any old PDO has the bytes of every object.\<close>

lemma tx_image_nth:
  assumes "list_all (\<lambda>obj. valid_object obj \<and> within n (pdo_place obj)) objs"
    and "list_all (\<lambda>obj. within (length vars) (var_place obj)) objs"
    and "sorted_wrt apart (map pdo_place objs)" and "length old = n" and i: "i < length objs"
  shows "take (obj_width (objs ! i)) (drop (bitOffset (objs ! i) div 8) (splices (tx_writes vars objs) old)) =
     wire_of vars (objs ! i)"
proof -
  have p: "place_of (bitOffset obj div 8, wire_of vars obj) = pdo_place obj" if "obj \<in> set objs" for obj
    using that assms(1, 2) by (simp add: list_all_iff length_wire_of pdo_place_def)
  have m: "map place_of (tx_writes vars objs) = map pdo_place objs"
    using p by (simp add: tx_writes_def)
  have "list_all (within (length old)) (map pdo_place objs)" using assms(1, 4) by (simp add: list_all_iff)
  then have w: "list_all (\<lambda>w. within (length old) (place_of w)) (tx_writes vars objs)"
    by (simp only: m [symmetric] list.pred_map comp_def)
  have "length (wire_of vars (objs ! i)) = obj_width (objs ! i)"
    using assms(1, 2) i by (simp add: list_all_length length_wire_of)
  then show ?thesis
    using splices_nth [OF w, of i] assms(3) i by (simp add: m) (simp add: tx_writes_def)
qed

text \<open>The place of an object in the concatenation of those of all channels.\<close>

lemma nth_concat_map:
  assumes "ch < n" and "i < length (f ch)"
  shows "\<exists>k < length (concat (map f [0..<n])). concat (map f [0..<n]) ! k = f ch ! i"
proof -
  have "f ch ! i \<in> set (f ch)" "ch \<in> set [0..<n]" using assms by simp_all
  then have "f ch ! i \<in> set (concat (map f [0..<n]))" unfolding set_concat set_map by blast
  then show ?thesis by (simp only: in_set_conv_nth)
qed

lemma rx_writes_read:
  assumes "layout_ok c (pdouChannels s)" and "mapping_ok s" and v: "vars_within (length vars) Rx s"
    and l: "\<And>ch. ch < setup_count Rx (pdouChannels s) \<Longrightarrow> length (reg (Rx, ch)) = chan_sizes c Rx ! ch"
    and "sorted_wrt apart (concat (map (\<lambda>ch. map var_place (chan_objs Rx ch s)) [0..<setup_count Rx (pdouChannels s)]))"
    and ch: "ch < setup_count Rx (pdouChannels s)" and obj: "i < length (chan_objs Rx ch s)"
  defines "o2 \<equiv> chan_objs Rx ch s ! i"
  shows "mem_read (splices (rx_writes s reg [0..<setup_count Rx (pdouChannels s)]) vars) (mapVar o2) (host_width o2) =
     Some (host_of (reg (Rx, ch)) o2)"
proof -
  let ?n = "setup_count Rx (pdouChannels s)"
  let ?ws = "rx_writes s reg [0..<?n]"
  note W = length_rx_splices [OF assms(1, 2) v l, of "[0..<?n]"]
  have sub: "set [0..<?n] \<subseteq> {..<?n}" by auto
  from nth_concat_map [OF ch, of i "\<lambda>ch. map (\<lambda>obj. (mapVar obj, host_of (reg (Rx, ch)) obj)) (chan_objs Rx ch s)"] obj
  obtain k where k: "k < length ?ws" "?ws ! k = (mapVar o2, host_of (reg (Rx, ch)) o2)"
    by (auto simp: rx_writes_def o2_def)
  have s: "sorted_wrt apart (map place_of ?ws)" using assms(5) W(1) [OF _ sub] by simp
  have fit: "list_all (\<lambda>w. within (length vars) (place_of w)) ?ws" using W(2) [OF _ sub] by simp
  have "o2 \<in> set (chan_objs Rx ch s)" using obj by (simp add: o2_def)
  then have d: "\<not> disabled (chan_list Rx (pdouChannels s) ! ch)" by (auto simp: chan_objs_def Let_def)
  have "length (host_of (reg (Rx, ch)) o2) = host_width o2"
    using mapping_okD(2) [OF assms(2) ch d] \<open>o2 \<in> _\<close> l [OF ch] layout_okD(3) [OF assms(1) ch]
    by (intro length_host_of) (simp_all add: list_all_iff)
  moreover have "mapVar o2 + host_width o2 \<le> length vars"
    using v ch \<open>o2 \<in> _\<close> by (auto simp: vars_within_def list_all_iff within_def var_place_def)
  ultimately show ?thesis
    using splices_nth [OF fit s k(1)] k(2) length_splices [OF fit] by (simp add: mem_read_def)
qed

lemma tx_copiedD:
  assumes "tx_copied c s vars chs reg reg'" and "ch \<in> chs" and "\<not> disabled (chan_list Tx (pdouChannels s) ! ch)"
  shows "\<exists>old. length old = chan_sizes c Tx ! ch \<and> reg' (Tx, ch) = splices (tx_writes vars (chan_objs Tx ch s)) old"
  using assms by (simp add: tx_copied_def)

section \<open>Properties\<close>

text \<open>
  C6: Process data arrives. When both nodes are configured, the channel that the producer sends in
  a frame and the channel in which the consumer receives it are enabled and have the same mapping
  and the same main version of it, and the mapped objects do not overlap, then the copy of the
  producer's variables, the frame that its kernel fills, the reception of this frame and the copy
  to the consumer's variables all succeed, leave both nodes ready for the next cycle, and every
  variable of this channel of the consumer has the bytes of the variable of the producer; an
  integer of 24, 40, 48 or 56 bits is extended with zeros. Conditions: the consumer receives no
  object of a time type in any channel (C38 shows that such an object never arrives), its channel
  is not larger than the one of the producer, the buffer of the frame has room for the PDO, and
  the mapped variables lie in the memories of the process variables of the nodes.
\<close>

theorem pdo_end_to_end:
  assumes "pdo_ready c1 reg1 s1 k1" and "pdo_ready c2 reg2 s2 k2"
    and tx: "find_channel Tx (tx_node frame) (pdokChannels k1) = Some (Some ch1)"
    and rx: "find_channel Rx (rx_node frame) (pdokChannels k2) = Some (Some ch2)"
    and x1: "x1 = chan_list Tx (pdouChannels s1) ! ch1" and x2: "x2 = chan_list Rx (pdouChannels s2) ! ch2"
    and version: "mappingVersion x2 AND PLK_VERSION_MAIN = mappingVersion x1 AND PLK_VERSION_MAIN"
    and enabled: "\<not> disabled x1" "\<not> disabled x2"
    and same: "same_mapping (chan_objs Tx ch1 s1) (chan_objs Rx ch2 s2)"
    and apart1: "sorted_wrt apart (map pdo_place (chan_objs Tx ch1 s1))"
    and apart2: "sorted_wrt apart (concat (map (\<lambda>ch. map var_place (chan_objs Rx ch s2)) [0..<setup_count Rx (pdouChannels s2)]))"
    and vars: "vars_within (length vars1) Tx s1" "vars_within (length vars2) Rx s2" and "no_time_objects s2"
    and sz: "pdoSize x2 \<le> pdoSize x1" "pdoSize x1 + 24 \<le> frameSize" "frameSize \<le> length frame"
  shows "\<exists>m1 frame' k1' k2' m2 vars2' reg1' reg2'.
     pdou_copyTxPdoFromPi s1 (pdoMem k1) vars1 = Some (kErrorOk, Some m1) \<and>
     cbProcessTpdo frame frameSize True (k1\<lparr>pdoMem := Some m1\<rparr>) = Some (frame', k1') \<and>
     pdokcal_process E deferred (PdoRx frame' frameSize) k2 = Some (kErrorOk, k2') \<and>
     pdou_copyRxPdoToPi s2 (pdoMem k2') vars2 = Some (kErrorOk, Some m2, vars2') \<and>
     pdo_ready c1 reg1' s1 k1' \<and> pdo_ready c2 reg2' s2 (k2'\<lparr>pdoMem := Some m2\<rparr>) \<and>
     (\<forall>i < length (chan_objs Rx ch2 s2).
        let o1 = chan_objs Tx ch1 s1 ! i; o2 = chan_objs Rx ch2 s2 ! i in
        mem_read vars2' (mapVar o2) (host_width o2) =
          Some (take (obj_width o1) (drop (mapVar o1) vars1) @ replicate (host_width o1 - obj_width o1) 0))"
proof -
  have l1: "layout_ok c1 (pdouChannels s1)" "mapping_ok s1" and l2: "layout_ok c2 (pdouChannels s2)" "mapping_ok s2"
    using assms(1, 2) by (simp_all add: pdo_ready_def)
  note C1 = pdo_ready_channel [OF assms(1) tx, folded x1] and C2 = pdo_ready_channel [OF assms(2) rx, folded x2]
  note O1 = mapping_okD [OF l1(2) C1(1), folded x1, OF enabled(1)]
    and O2 = mapping_okD [OF l2(2) C2(1), folded x2, OF enabled(2)]
  from pdou_copyTxPdoFromPi_holds [OF assms(1) vars(1)] obtain m1 reg1' where
    tx1: "pdou_copyTxPdoFromPi s1 (pdoMem k1) vars1 = Some (kErrorOk, Some m1)"
      "pdo_ready c1 reg1' s1 (k1\<lparr>pdoMem := Some m1\<rparr>)"
      "tx_copied c1 s1 vars1 {..<setup_count Tx (pdouChannels s1)} reg1 reg1'" by blast
  obtain old where old: "length old = pdoSize x1"
    "reg1' (Tx, ch1) = splices (tx_writes vars1 (chan_objs Tx ch1 s1)) old"
    using tx_copiedD [OF tx1(3), of ch1] C1(1, 5) enabled(1) by (auto simp: x1)
  have p: "length (reg1' (Tx, ch1)) = pdoSize x1"
    using tx1(2) holds_length C1(2, 5) by (fastforce simp: pdo_ready_def)
  define frame' where "frame' = tx_frame frame x1 (reg1' (Tx, ch1))"
  obtain k1' where tx2: "copyTxPdo frame frameSize True (k1\<lparr>pdoMem := Some m1\<rparr>) = Some (frame', k1')" "pdo_ready c1 reg1' s1 k1'"
    using copyTxPdo_ready [OF tx1(2) _ x1 sz(2, 3)] tx by (auto simp: frame'_def)
  have F: "length frame' = length frame" "take (pdoSize x1) (drop 24 frame') = reg1' (Tx, ch1)"
    "frame' ! OFFSET_FLAG1 AND PLK_FRAME_FLAG1_RD \<noteq> 0" "frame' ! OFFSET_PDO_VERSION = mappingVersion x1"
    "rx_node frame' = rx_node frame"
    using tx_frame_fields [of "reg1' (Tx, ch1)" frame x1] sz p by (simp_all add: frame'_def)
  define reg2' where "reg2' = reg2((Rx, ch2) := take (pdoSize x2) (drop 24 frame'))"
  obtain k2' where rx1: "pdok_processRxPdo deferred frame' frameSize k2 = Some (kErrorOk, k2')" "pdo_ready c2 reg2' s2 k2'"
    using pdok_processRxPdo_ready [OF assms(2) _ x2, of frame' frameSize deferred] rx F sz version
    by (auto simp: reg2'_def)
  from pdou_copyRxPdoToPi_holds [OF rx1(2) vars(2) assms(15)] obtain m2 where
    rx2: "pdou_copyRxPdoToPi s2 (pdoMem k2') vars2 =
        Some (kErrorOk, Some m2, splices (rx_writes s2 reg2' [0..<setup_count Rx (pdouChannels s2)]) vars2)"
      "pdo_ready c2 reg2' s2 (k2'\<lparr>pdoMem := Some m2\<rparr>)" by blast
  have len2: "length (reg2' (Rx, ch)) = chan_sizes c2 Rx ! ch" if "ch < setup_count Rx (pdouChannels s2)" for ch
    using that rx1(2) holds_length layout_okD(2) [OF l2(1), of Rx] by (fastforce simp: pdo_ready_def)
  have "mem_read (splices (rx_writes s2 reg2' [0..<setup_count Rx (pdouChannels s2)]) vars2)
        (mapVar (chan_objs Rx ch2 s2 ! i)) (host_width (chan_objs Rx ch2 s2 ! i)) =
      Some (take (obj_width (chan_objs Tx ch1 s1 ! i)) (drop (mapVar (chan_objs Tx ch1 s1 ! i)) vars1) @
        replicate (host_width (chan_objs Tx ch1 s1 ! i) - obj_width (chan_objs Tx ch1 s1 ! i)) 0)"
    if i: "i < length (chan_objs Rx ch2 s2)" for i
  proof -
    let ?o1 = "chan_objs Tx ch1 s1 ! i" and ?o2 = "chan_objs Rx ch2 s2 ! i"
    have i1: "i < length (chan_objs Tx ch1 s1)" using same_mappingD(1) [OF same] i by simp
    note S = same_mappingD(2) [OF same i1]
    have w: "bitOffset ?o2 div 8 + obj_width ?o2 \<le> pdoSize x2"
      using O2(2) i by (simp add: list_all_length within_def pdo_place_def)
    have "\<not> is_time_object ?o1" using assms(15) C2(1) i S by (simp add: no_time_objects_def list_all_length)
    then have "wire_of vars1 ?o1 = take (obj_width ?o1) (drop (mapVar ?o1) vars1)" by (simp add: wire_of_def)
    moreover have "take (obj_width ?o1) (drop (bitOffset ?o1 div 8) (reg1' (Tx, ch1))) = wire_of vars1 ?o1"
      unfolding old(2) using tx_image_nth [OF O1(2) _ apart1 old(1) i1] vars(1) C1(1) by (simp add: vars_within_def)
    moreover have "take (obj_width ?o1) (drop (bitOffset ?o1 div 8) (reg2' (Rx, ch2))) =
        take (obj_width ?o1) (drop (bitOffset ?o1 div 8) (reg1' (Tx, ch1)))"
      using w S sz(1) by (simp add: reg2'_def F(2) [symmetric] drop_take min_def)
    ultimately have "host_of (reg2' (Rx, ch2)) ?o2 =
        take (obj_width ?o1) (drop (mapVar ?o1) vars1) @ replicate (host_width ?o1 - obj_width ?o1) 0"
      using S by (simp add: host_of_def)
    with rx_writes_read [OF l2 vars(2) len2 apart2 C2(1) i] show ?thesis by simp
  qed
  then show ?thesis using tx1(1) tx2 rx1(1) rx2 by (auto simp: cbProcessTpdo_def pdokcal_process_def)
qed

definition example_channel :: "nat \<Rightarrow> tPdoChannel" where
  "example_channel node = \<lparr>chNodeId = node, pdoSize = 5, mappingVersion = 0x10, mappObjectCount = 2\<rparr>"

definition example_user :: "pdo_dir \<Rightarrow> nat \<Rightarrow> nat \<Rightarrow> nat \<Rightarrow> tPdouInstance" where
  "example_user d node var24 var16 = set_objects d (Some
      [\<lparr>mapVar = var24, bitOffset = 0, byteSizeOrType = obd_type_code kObdTypeUInt24\<rparr>,
       \<lparr>mapVar = var16, bitOffset = 24, byteSizeOrType = obd_type_code kObdTypeUInt16\<rparr>])
    \<lparr>aPdoIdToChannelIdRx = [], aPdoIdToChannelIdTx = [],
     pdouChannels = set_table d (Some [example_channel node]) (set_count d 1 zero_setup),
     paRxObject = None, paTxObject = None, fAllocated = True, pdouRunning = True,
     pfnCbEventPdoChange = False, pdouOuts = []\<rparr>"

definition example_conf :: "pdo_dir \<Rightarrow> pdo_conf" where
  "example_conf d = (case d of Rx \<Rightarrow> ([5], []) | Tx \<Rightarrow> ([], [5]))"

definition example_kernel :: "pdo_dir \<Rightarrow> nat \<Rightarrow> tPdokInstance" where
  "example_kernel d node = \<lparr>pdokChannels = set_table d (Some [example_channel node]) (set_count d 1 zero_setup),
     pdokRunning = True,
     pdoMem = snd (pdokcal_initPdoMem True (fst (example_conf d)) (snd (example_conf d)) 5 0), pdokOuts = []\<rparr>"

lemmas example_node_defs = example_user_def example_kernel_def example_channel_def example_conf_def zero_setup_def

lemma example_setup:
  "setup_count d' (pdouChannels (example_user d node a b)) = (if d' = d then 1 else 0)"
  "chan_list d' (pdouChannels (example_user d node a b)) = (if d' = d then [example_channel node] else [])"
  "pdokChannels (example_kernel d node) = pdouChannels (example_user d node a b)"
  by (cases d; cases d'; simp add: example_node_defs set_objects_def set_table_def set_count_def setup_count_def
      chan_list_def setup_table_def)+

lemma example_objs:
  assumes "node \<noteq> PDO_INVALID_NODE_ID"
  shows "chan_objs d 0 (example_user d node a b) =
     [\<lparr>mapVar = a, bitOffset = 0, byteSizeOrType = obd_type_code kObdTypeUInt24\<rparr>,
      \<lparr>mapVar = b, bitOffset = 24, byteSizeOrType = obd_type_code kObdTypeUInt16\<rparr>]"
proof -
  have "\<not> disabled (example_channel node)" using assms by (simp add: disabled_def example_channel_def)
  moreover have "mappObjectCount (example_channel node) = 2" by (simp add: example_channel_def)
  ultimately show ?thesis
    by (cases d) (simp_all add: chan_objs_def example_setup channel_objects_def mem_read_def objects_def
        example_user_def set_objects_def)
qed

lemma example_places:
  "obd_type_code kObdTypeUInt24 = 0x16" "obd_type_code kObdTypeUInt16 = 6"
  "pdo_place \<lparr>mapVar = a, bitOffset = n, byteSizeOrType = 0x16\<rparr> = (n div 8, 3)"
  "pdo_place \<lparr>mapVar = a, bitOffset = n, byteSizeOrType = 6\<rparr> = (n div 8, 2)"
  "var_place \<lparr>mapVar = a, bitOffset = n, byteSizeOrType = 0x16\<rparr> = (a, 4)"
  "var_place \<lparr>mapVar = a, bitOffset = n, byteSizeOrType = 6\<rparr> = (a, 2)"
  "obj_width \<lparr>mapVar = a, bitOffset = n, byteSizeOrType = 0x16\<rparr> = 3"
  "obj_width \<lparr>mapVar = a, bitOffset = n, byteSizeOrType = 6\<rparr> = 2"
  "host_width \<lparr>mapVar = a, bitOffset = n, byteSizeOrType = 0x16\<rparr> = 4"
  "host_width \<lparr>mapVar = a, bitOffset = n, byteSizeOrType = 6\<rparr> = 2"
  "valid_object \<lparr>mapVar = a, bitOffset = n, byteSizeOrType = 0x16\<rparr>"
  "valid_object \<lparr>mapVar = a, bitOffset = n, byteSizeOrType = 6\<rparr>"
  "\<not> is_time_object \<lparr>mapVar = a, bitOffset = n, byteSizeOrType = 0x16\<rparr>"
  "\<not> is_time_object \<lparr>mapVar = a, bitOffset = n, byteSizeOrType = 6\<rparr>"
  by (simp_all add: pdo_place_def var_place_def obj_width_def host_width_def valid_object_def obd_type_of_def
      number_access_def is_string_type_def is_time_object_def is_time_type_def)

lemma example_node_ready:
  assumes "node \<noteq> PDO_INVALID_NODE_ID"
  shows "pdo_ready (example_conf d) (zero_registers (example_conf d)) (example_user d node a b) (example_kernel d node)"
proof -
  let ?s = "example_user d node a b"
  have "setup_ok (pdouChannels ?s)"
    by (auto simp: setup_ok_def example_setup)
      (cases d; simp add: example_user_def set_objects_def set_table_def set_count_def setup_table_def setup_count_def zero_setup_def split: pdo_dir.splits)
  moreover have "chan_sizes (example_conf d) d' = map pdoSize (chan_list d' (pdouChannels ?s))" for d'
    by (cases d; cases d') (simp_all add: example_setup chan_sizes_def example_conf_def example_channel_def)
  moreover have "mapping_ok ?s"
    using example_objs [OF assms, of d a b]
    by (cases d) (auto simp: mapping_ok_def example_setup chan_objs_def Let_def example_channel_def example_places within_def
        split: option.splits)
  moreover obtain m where m: "pdokcal_initPdoMem True (fst (example_conf d)) (snd (example_conf d)) 5 0 = (kErrorOk, Some m)"
    by (simp add: pdokcal_initPdoMem_def)
  moreover have "holds_values (example_conf d) (zero_registers (example_conf d)) m"
    using init_holds [OF _ m] by (cases d) (simp_all add: total_size_def example_conf_def)
  ultimately show ?thesis
    by (simp add: pdo_ready_def layout_ok_def example_setup example_kernel_def)
      (simp add: example_user_def set_objects_def split: pdo_dir.split)
qed

lemma example_find:
  assumes "node \<noteq> PDO_INVALID_NODE_ID"
  shows "find_channel d node (pdokChannels (example_kernel d node)) = Some (Some 0)"
proof -
  have r: "setup_ok (pdouChannels (example_user d node 0 0))"
    using example_node_ready [OF assms, of d 0 0] by (simp add: pdo_ready_def layout_ok_def)
  have "[0..<1] = [0 :: nat]" by simp
  then show ?thesis
    by (simp add: example_setup(3) [of d node 0 0] find_channel_ok [OF r] example_setup(1, 2) example_channel_def)
qed

definition example_env :: pdok_env where
  "example_env = \<lparr>pdokAnswer = \<lambda>_. kErrorOk, pdokMalloc = \<lambda>n. Some (replicate n (example_channel 0xFF)), pdokAllocMem = True\<rparr>"

definition example_frame :: "byte list" where
  "example_frame = (replicate 60 0)[OFFSET_MESSAGE_TYPE := kMsgTypePres, OFFSET_SRC_NODE_ID := 7]"

theorem pdo_end_to_end_witness:
  "\<exists>m1 frame' k1' k2' m2 vars2'.
     pdou_copyTxPdoFromPi (example_user Tx 0 0 4) (pdoMem (example_kernel Tx 0)) [1, 2, 3, 9, 4, 5] = Some (kErrorOk, Some m1) \<and>
     cbProcessTpdo example_frame 60 True (example_kernel Tx 0\<lparr>pdoMem := Some m1\<rparr>) = Some (frame', k1') \<and>
     pdokcal_process example_env False (PdoRx frame' 60) (example_kernel Rx 7) = Some (kErrorOk, k2') \<and>
     pdou_copyRxPdoToPi (example_user Rx 7 2 0) (pdoMem k2') (replicate 6 0) = Some (kErrorOk, Some m2, vars2') \<and>
     mem_read vars2' 2 4 = Some [1, 2, 3, 0] \<and> mem_read vars2' 0 2 = Some [4, 5]"
proof -
  let ?s1 = "example_user Tx 0 0 4" and ?k1 = "example_kernel Tx 0"
  let ?s2 = "example_user Rx 7 2 0" and ?k2 = "example_kernel Rx 7"
  have n: "tx_node example_frame = 0" "rx_node example_frame = 7" "length example_frame = 60"
    by (simp_all add: tx_node_def rx_node_def example_frame_def)
  note r1 = example_node_ready [of 0 Tx 0 4, simplified] and r2 = example_node_ready [of 7 Rx 2 0, simplified]
  have f: "find_channel Tx (tx_node example_frame) (pdokChannels ?k1) = Some (Some 0)"
    "find_channel Rx (rx_node example_frame) (pdokChannels ?k2) = Some (Some 0)"
    by (simp_all only: n) (rule example_find; simp)+
  have objs: "chan_objs Tx 0 ?s1 = [\<lparr>mapVar = 0, bitOffset = 0, byteSizeOrType = 0x16\<rparr>, \<lparr>mapVar = 4, bitOffset = 24, byteSizeOrType = 6\<rparr>]"
    "chan_objs Rx 0 ?s2 = [\<lparr>mapVar = 2, bitOffset = 0, byteSizeOrType = 0x16\<rparr>, \<lparr>mapVar = 0, bitOffset = 24, byteSizeOrType = 6\<rparr>]"
    using example_objs [of 0 Tx 0 4] example_objs [of 7 Rx 2 0] by (simp_all add: example_places)
  have within: "vars_within (length [1, 2, 3, 9, 4, 5 :: byte]) Tx ?s1" "vars_within (length (replicate 6 (0 :: byte))) Rx ?s2"
    "no_time_objects ?s2"
    by (simp_all add: vars_within_def no_time_objects_def example_setup objs example_places within_def)
  have map: "same_mapping (chan_objs Tx 0 ?s1) (chan_objs Rx 0 ?s2)" "sorted_wrt apart (map pdo_place (chan_objs Tx 0 ?s1))"
    "sorted_wrt apart (concat (map (\<lambda>ch. map var_place (chan_objs Rx ch ?s2)) [0..<setup_count Rx (pdouChannels ?s2)]))"
    by (simp_all add: same_mapping_def objs example_places apart_def example_setup upt_rec)
  have en: "\<not> disabled (chan_list Tx (pdouChannels ?s1) ! 0)" "\<not> disabled (chan_list Rx (pdouChannels ?s2) ! 0)"
    by (simp_all add: example_setup disabled_def example_channel_def)
  have sz: "pdoSize (chan_list Rx (pdouChannels ?s2) ! 0) \<le> pdoSize (chan_list Tx (pdouChannels ?s1) ! 0)"
    "pdoSize (chan_list Tx (pdouChannels ?s1) ! 0) + 24 \<le> 60" "60 \<le> length example_frame"
    "mappingVersion (chan_list Rx (pdouChannels ?s2) ! 0) AND PLK_VERSION_MAIN = mappingVersion (chan_list Tx (pdouChannels ?s1) ! 0) AND PLK_VERSION_MAIN"
    by (simp_all add: example_setup example_channel_def n)
  from pdo_end_to_end [OF r1 r2 f refl refl sz(4) en map within sz(1-3), of example_env False]
  obtain m1 frame' k1' k2' m2 vars2' where
    x: "pdou_copyTxPdoFromPi ?s1 (pdoMem ?k1) [1, 2, 3, 9, 4, 5] = Some (kErrorOk, Some m1)"
      "cbProcessTpdo example_frame 60 True (?k1\<lparr>pdoMem := Some m1\<rparr>) = Some (frame', k1')"
      "pdokcal_process example_env False (PdoRx frame' 60) ?k2 = Some (kErrorOk, k2')"
      "pdou_copyRxPdoToPi ?s2 (pdoMem k2') (replicate 6 0) = Some (kErrorOk, Some m2, vars2')"
    and v: "\<forall>i < length (chan_objs Rx 0 ?s2). let o1 = chan_objs Tx 0 ?s1 ! i; o2 = chan_objs Rx 0 ?s2 ! i in
        mem_read vars2' (mapVar o2) (host_width o2) =
          Some (take (obj_width o1) (drop (mapVar o1) [1, 2, 3, 9, 4, 5]) @ replicate (host_width o1 - obj_width o1) 0)"
    by blast
  have "mem_read vars2' 2 4 = Some [1, 2, 3, 0]" "mem_read vars2' 0 2 = Some [4, 5]"
    using spec [OF v, of 0] spec [OF v, of 1]
    by (simp_all add: objs Let_def example_places)
  with x show ?thesis by blast
qed

section \<open>Any frames\<close>

text \<open>
  The operations of a running exchange on the memory that the layers share: frames that the DLL has
  received or is going to send, with any contents, and the copies of the user layer. The pointer to
  the shared memory is the same in both layers.
\<close>

datatype pdo_exchange =
    FrameReceived "byte list" nat
  | FrameToSend "byte list" nat bool
  | CopyToPdos "byte list"
  | CopyFromPdos "byte list"

definition exchange_step :: "tPdouInstance \<Rightarrow> bool \<Rightarrow> pdo_exchange \<Rightarrow> tPdokInstance \<Rightarrow> tPdokInstance option" where
  "exchange_step s deferred e k =
     (case e of
        FrameReceived frame frameSize \<Rightarrow> map_option snd (pdok_processRxPdo deferred frame frameSize k)
      | FrameToSend frame frameSize ready \<Rightarrow> map_option snd (cbProcessTpdo frame frameSize ready k)
      | CopyToPdos vars \<Rightarrow>
          map_option (\<lambda>(ret, m). k\<lparr>pdoMem := m\<rparr>) (pdou_copyTxPdoFromPi s (pdoMem k) vars)
      | CopyFromPdos vars \<Rightarrow>
          map_option (\<lambda>(ret, m, vars). k\<lparr>pdoMem := m\<rparr>) (pdou_copyRxPdoToPi s (pdoMem k) vars))"

text \<open>
  A buffer has room for the header of the frame and for what its size says, and the mapped variables
  are in the memory of the process variables.
\<close>

definition exchange_ok :: "tPdouInstance \<Rightarrow> pdo_exchange \<Rightarrow> bool" where
  "exchange_ok s e \<longleftrightarrow>
     (case e of
        FrameReceived frame frameSize \<Rightarrow> 24 \<le> length frame \<and> frameSize \<le> length frame
      | FrameToSend frame frameSize ready \<Rightarrow> 24 \<le> length frame \<and> frameSize \<le> length frame
      | CopyToPdos vars \<Rightarrow> vars_within (length vars) Tx s
      | CopyFromPdos vars \<Rightarrow> vars_within (length vars) Rx s)"

lemma pdo_ready_log [simp]: "pdo_ready c reg s (pdok_log out k) = pdo_ready c reg s k"
  by (simp add: pdo_ready_def pdok_log_def)

text \<open>A received frame changes at most the PDOs of channels of its node.\<close>

lemma received_ready:
  assumes r: "pdo_ready c reg s k" and sz: "24 \<le> length frame" "frameSize \<le> length frame"
  shows "\<exists>k' reg'. pdok_processRxPdo deferred frame frameSize k = Some (kErrorOk, k') \<and> pdo_ready c reg' s k' \<and>
     (\<forall>dc. reg' dc \<noteq> reg dc \<longrightarrow> fst dc = Rx \<and> chNodeId (chan_list Rx (pdouChannels s) ! snd dc) = rx_node frame)"
proof -
  let ?log = "\<lambda>k. if deferred then pdok_log DllkReleaseRxFrame k else k"
  have keep: ?thesis if "pdok_processRxPdo deferred frame frameSize k = Some (kErrorOk, ?log k)"
    using that r by (intro exI [of _ "?log k"] exI [of _ reg]) simp
  have run: "pdokRunning k" "setup_ok (pdokChannels k)" using r by (simp_all add: pdo_ready_def layout_ok_def)
  obtain f where f: "find_channel Rx (rx_node frame) (pdokChannels k) = Some f" using find_channel_ok [OF run(2)] by blast
  have p: "pdok_processRxPdo deferred frame frameSize k =
      (if frame ! OFFSET_FLAG1 AND PLK_FRAME_FLAG1_RD = 0 then Some (kErrorOk, ?log k)
       else case f of None \<Rightarrow> Some (kErrorOk, ?log k)
         | Some ch \<Rightarrow> map_option (\<lambda>k. (kErrorOk, ?log k)) (storeRxPdo frame frameSize ch k))"
    using sz(1) run(1) f [unfolded rx_node_def]
    by (auto simp: pdok_processRxPdo_def frame_byte_def map_conv_bind_option comp_def split: if_splits option.split)
  show ?thesis
  proof (cases "frame ! OFFSET_FLAG1 AND PLK_FRAME_FLAG1_RD = 0 \<or> find_channel Rx (rx_node frame) (pdokChannels k) = Some None")
    case True
    then show ?thesis using p f by (intro keep) auto
  next
    case False
    then obtain ch where ch: "f = Some ch" and rd: "frame ! OFFSET_FLAG1 AND PLK_FRAME_FLAG1_RD \<noteq> 0" using f by auto
    note C = pdo_ready_channel [OF r f [unfolded ch]]
    let ?x = "chan_list Rx (pdouChannels s) ! ch"
    show ?thesis
    proof (cases "mappingVersion ?x AND PLK_VERSION_MAIN = frame ! OFFSET_PDO_VERSION AND PLK_VERSION_MAIN \<and> pdoSize ?x + 24 \<le> frameSize")
      case True
      then have "mappingVersion ?x AND PLK_VERSION_MAIN = frame ! OFFSET_PDO_VERSION AND PLK_VERSION_MAIN" "pdoSize ?x + 24 \<le> frameSize"
        by simp_all
      from pdok_processRxPdo_ready [OF r f [unfolded ch] refl this(2) sz(2) rd this(1), of deferred] obtain k' where
        "pdok_processRxPdo deferred frame frameSize k = Some (kErrorOk, k')"
        "pdo_ready c (reg((Rx, ch) := take (pdoSize ?x) (drop 24 frame))) s k'" by blast
      then show ?thesis using C(4)
        by (intro exI [of _ k'] exI [of _ "reg((Rx, ch) := take (pdoSize ?x) (drop 24 frame))"]) auto
    next
      case False
      then have "storeRxPdo frame frameSize ch k = Some k"
        using C(3) sz(1) by (auto simp: storeRxPdo_def frame_byte_def)
      then show ?thesis using p rd ch by (intro keep) simp
    qed
  qed
qed

text \<open>A frame that is not filled gets an empty PDO.\<close>

lemma emptyTxPdo_some: "24 \<le> length frame \<Longrightarrow> \<exists>frame'. emptyTxPdo frame flag1 ready = Some frame'"
  by (cases ready) (auto simp: emptyTxPdo_def put_uint16_splice set_frame_byte_def length_splice)

lemma fillTxPdo_ready:
  assumes r: "pdo_ready c reg s k" and f: "find_channel Tx node (pdokChannels k) = Some (Some ch)"
    and sz: "pdoSize (chan_list Tx (pdouChannels s) ! ch) + 24 \<le> length frame"
  shows "\<exists>frame' k'. fillTxPdo frame ch flag1 ready k = Some (frame', k') \<and> pdo_ready c reg s k'"
proof -
  note C = pdo_ready_channel [OF r f]
  obtain m where m: "pdoMem k = Some m" "holds_values c reg m" using r by (auto simp: pdo_ready_def)
  from read_holds [OF m(2) C(2)] C(5) obtain m' where
    m': "pdokcal_readTxPdo ch (pdoSize (chan_list Tx (pdouChannels s) ! ch)) m = Some (reg (Tx, ch), m')" "holds_values c reg m'"
    by (auto simp: tx_read)
  have l: "length (reg (Tx, ch)) = pdoSize (chan_list Tx (pdouChannels s) ! ch)" using holds_length [OF m(2) C(2)] C(5) by simp
  have "pdo_ready c reg s (k\<lparr>pdoMem := Some m'\<rparr>)" using r m'(2) by (simp add: pdo_ready_def)
  then show ?thesis using sz l m m' C(3)
    by (cases ready) (auto simp: fillTxPdo_def set_frame_byte_def mem_write_splice put_uint16_splice length_splice)
qed

lemma to_send_ready:
  assumes r: "pdo_ready c reg s k" and sz: "24 \<le> length frame" "frameSize \<le> length frame"
  shows "\<exists>frame' k'. copyTxPdo frame frameSize ready k = Some (frame', k') \<and> pdo_ready c reg s k'"
proof -
  have run: "pdokRunning k" "setup_ok (pdokChannels k)" using r by (simp_all add: pdo_ready_def layout_ok_def)
  let ?f = "frame[OFFSET_FLAG1 := frame ! OFFSET_FLAG1 AND - 2]"
  let ?empty = "map_option (\<lambda>frame. (frame, k)) (emptyTxPdo ?f (frame ! OFFSET_FLAG1) ready)"
  obtain f where f: "find_channel Tx (tx_node frame) (pdokChannels k) = Some f" using find_channel_ok [OF run(2)] by blast
  have p: "copyTxPdo frame frameSize ready k = (case f of None \<Rightarrow> ?empty
      | Some ch \<Rightarrow> Option.bind (get_channel Tx ch (pdokChannels k)) (\<lambda>x. if frameSize < pdoSize x + 24 then ?empty
          else fillTxPdo ?f ch (frame ! OFFSET_FLAG1) ready k))"
    using sz(1) run(1) f [unfolded tx_node_def]
    by (auto simp: copyTxPdo_def frame_byte_def set_frame_byte_def split: if_splits option.split)
  have e: "\<exists>frame' k'. ?empty = Some (frame', k') \<and> pdo_ready c reg s k'"
    using emptyTxPdo_some [of ?f "frame ! OFFSET_FLAG1" ready] sz(1) r by auto
  show ?thesis
  proof (cases f)
    case None
    with e p show ?thesis by simp
  next
    case (Some ch)
    note C = pdo_ready_channel [OF r f [unfolded Some]]
    show ?thesis
    proof (cases "frameSize < pdoSize (chan_list Tx (pdouChannels s) ! ch) + 24")
      case True
      with e p Some C(3) show ?thesis by simp
    next
      case False
      with fillTxPdo_ready [OF r f [unfolded Some], of ?f "frame ! OFFSET_FLAG1" ready] sz(2) p Some C(3) show ?thesis by simp
    qed
  qed
qed

lemma exchange_step_ready:
  assumes "\<exists>reg. pdo_ready c reg s k" and "exchange_ok s e"
  shows "\<exists>k'. exchange_step s deferred e k = Some k' \<and> (\<exists>reg. pdo_ready c reg s k')"
proof -
  from assms(1) obtain reg where r: "pdo_ready c reg s k" by blast
  show ?thesis
  proof (cases e)
    case (FrameReceived frame frameSize)
    with assms(2) received_ready [OF r, of frame frameSize deferred] show ?thesis by (auto simp: exchange_ok_def exchange_step_def)
  next
    case (FrameToSend frame frameSize ready)
    with assms(2) to_send_ready [OF r, of frame frameSize ready] show ?thesis
      by (auto simp: exchange_ok_def exchange_step_def cbProcessTpdo_def)
  next
    case (CopyToPdos vars)
    with assms(2) pdou_copyTxPdoFromPi_holds [OF r, of vars] show ?thesis by (auto simp: exchange_ok_def exchange_step_def)
  next
    case (CopyFromPdos vars)
    with assms(2) pdou_copyRxPdoToPi_ready [OF r, of vars] show ?thesis by (auto simp: exchange_ok_def exchange_step_def)
  qed
qed

interpretation pdo_exchange: safe_machine "exchange_step u deferred" "exchange_ok u" "\<lambda>k. \<exists>reg. pdo_ready c reg u k"
  for c u deferred
  by unfold_locales (rule exchange_step_ready)

text \<open>
  C17: No frame can corrupt a running exchange. Whatever frames are received, with any node,
  version and size of a PDO in them, whatever frames are to be sent and whenever the user layer
  copies its variables in either direction, objects of the time types included (their copy writes
  to the shared memory, C38), no access leaves the shared memory, the process variables or a frame,
  both layers stay configured and running, and a received frame changes only the PDOs of channels
  of its own node. This is for buffers that have room for the 24 bytes of the header and for the
  size given with them, and for mapped variables that lie in the memory of the process variables.
\<close>

theorem pdo_exchange_safe:
  assumes "pdo_ready c reg s k" and "list_all (exchange_ok s) es" and "24 \<le> length frame" and "frameSize \<le> length frame"
  shows "\<exists>k1 reg1 k2 reg2. run_steps (exchange_step s deferred) es k = Some k1 \<and> pdo_ready c reg1 s k1 \<and>
     pdok_processRxPdo deferred frame frameSize k1 = Some (kErrorOk, k2) \<and> pdo_ready c reg2 s k2 \<and>
     (\<forall>d ch. reg2 (d, ch) \<noteq> reg1 (d, ch) \<longrightarrow> d = Rx \<and> chNodeId (chan_list Rx (pdouChannels s) ! ch) = rx_node frame)"
proof -
  from pdo_exchange.run_safe [where c = c and u = s and s = k and es = es and deferred = deferred] assms(1, 2) obtain k1 reg1 where
    "run_steps (exchange_step s deferred) es k = Some k1" "pdo_ready c reg1 s k1" by metis
  moreover from received_ready [OF this(2) assms(3, 4), of deferred] obtain k2 reg2 where
    "pdok_processRxPdo deferred frame frameSize k1 = Some (kErrorOk, k2)" "pdo_ready c reg2 s k2"
    "\<forall>dc. reg2 dc \<noteq> reg1 dc \<longrightarrow> fst dc = Rx \<and> chNodeId (chan_list Rx (pdouChannels s) ! snd dc) = rx_node frame" by blast
  ultimately show ?thesis by fastforce
qed

theorem pdo_exchange_safe_witness:
  "\<exists>k1 reg1 k2 reg2. run_steps (exchange_step (example_user Rx 7 2 0) True)
       [FrameReceived (replicate 24 0xFF) 24, CopyFromPdos (replicate 6 0), FrameToSend (replicate 60 0) 60 False] (example_kernel Rx 7) = Some k1 \<and>
     pdo_ready (example_conf Rx) reg1 (example_user Rx 7 2 0) k1 \<and>
     pdok_processRxPdo True (replicate 30 0xFF) 30 k1 = Some (kErrorOk, k2) \<and>
     pdo_ready (example_conf Rx) reg2 (example_user Rx 7 2 0) k2 \<and>
     (\<forall>d ch. reg2 (d, ch) \<noteq> reg1 (d, ch) \<longrightarrow>
        d = Rx \<and> chNodeId (chan_list Rx (pdouChannels (example_user Rx 7 2 0)) ! ch) = rx_node (replicate 30 0xFF))"
proof (rule pdo_exchange_safe)
  show "pdo_ready (example_conf Rx) (zero_registers (example_conf Rx)) (example_user Rx 7 2 0) (example_kernel Rx 7)"
    by (rule example_node_ready) simp
  have "chan_objs Rx 0 (example_user Rx 7 2 0) =
      [\<lparr>mapVar = 2, bitOffset = 0, byteSizeOrType = 0x16\<rparr>, \<lparr>mapVar = 0, bitOffset = 24, byteSizeOrType = 6\<rparr>]"
    using example_objs [of 7 Rx 2 0] by (simp add: example_places)
  then show "list_all (exchange_ok (example_user Rx 7 2 0))
      [FrameReceived (replicate 24 0xFF) 24, CopyFromPdos (replicate 6 0), FrameToSend (replicate 60 0) 60 False]"
    by (simp add: exchange_ok_def vars_within_def example_setup example_places within_def)
qed simp_all


section \<open>Time of day\<close>

text \<open>
  C38: A received time of day is thrown away. \<^verbatim>\<open>copyVarFromPdo\<close> passes the variable as the source and
  the PDO as the destination: for a time of day or a time difference, the copy of a received PDO
  does what the copy for a PDO to be sent does. The variable keeps its value whatever has been
  received, and the value of the variable overwrites the received one in the shared buffer.
\<close>

theorem pdo_time_of_day_not_received:
  assumes "is_time_object obj" and "within (length vars) (var_place obj)" and "fst a < length (pTripleBuf m)"
    and "snd a + bitOffset obj div 8 + obj_width obj \<le> length (pTripleBuf m ! fst a)"
  shows "\<exists>m'. copyVarFromPdo a obj (m, vars) = Some (kErrorOk, m', vars) \<and>
     copyVarToPdo vars a obj m = Some (kErrorOk, m')"
proof -
  have v: "valid_object obj" using assms(1) valid_time_object by simp
  have "snd a + bitOffset obj div 8 + length (wire_of vars obj) \<le> length (pTripleBuf m ! fst a)"
    using assms(4) length_wire_of [OF v assms(2)] by simp
  then obtain m' where m': "write_at (object_place a obj) (wire_of vars obj) m = Some m'"
    using assms(3) by (simp add: write_at_def object_place_def mem_write_def)
  then show ?thesis using copyVarFromPdo_time [OF assms] copyVarToPdo_write [OF v assms(2-4)] by simp
qed

theorem pdo_time_of_day_not_received_witness:
  "\<exists>m'. copyVarFromPdo (0, 0) \<lparr>mapVar = 0, bitOffset = 0, byteSizeOrType = 0x0C\<rparr>
       (\<lparr>pdoMemSize = 6, rxChannelInfo = [], txChannelInfo = [], pTripleBuf = [replicate 6 5]\<rparr>, replicate 6 0) =
     Some (kErrorOk, m', replicate 6 0) \<and>
     copyVarToPdo (replicate 6 0) (0, 0) \<lparr>mapVar = 0, bitOffset = 0, byteSizeOrType = 0x0C\<rparr>
       \<lparr>pdoMemSize = 6, rxChannelInfo = [], txChannelInfo = [], pTripleBuf = [replicate 6 5]\<rparr> = Some (kErrorOk, m')"
  by (rule pdo_time_of_day_not_received)
    (simp_all add: is_time_object_def obd_type_of_def is_time_type_def within_def var_place_def host_width_def obj_width_def
      number_access_def)

end
