(* ===== verification/Pdo_Config.thy ===== *)
theory Pdo_Config
  imports Pdo_Exchange
begin

text \<open>
  The configuration of the process data exchange: in the NMT state Reset Configuration the user
  layer reads the mapping from the object dictionary, fills its own tables and posts the
  configuration of every channel to the kernel layer. Here it is shown that no contents of the
  dictionary make it leave its tables, and that, when it succeeds, the events that it has posted
  bring the kernel layer to the same tables and to a shared memory of the right layout.
\<close>

unbundle bit_operations_syntax

section \<open>What is relied on\<close>

text \<open>
  The answer of the dictionary on the size of an object (\<^verbatim>\<open>dataTypeSize_l\<close> and \<^verbatim>\<open>isNumerical\<close> in
  \<^verbatim>\<open>obd.c\<close>), and allocations that succeed, with any contents of the memory.
\<close>

definition od_sizes :: "pdou_od \<Rightarrow> bool" where
  "od_sizes OD \<longleftrightarrow> (\<forall>index subIndex t. odType OD index subIndex = (kErrorOk, t) \<longrightarrow> \<not> is_string_type t \<longrightarrow>
     odNumerical OD index subIndex = (kErrorOk, True) \<and> odDataSize OD index subIndex = type_width t)"

definition user_env_ok :: "pdou_env \<Rightarrow> bool" where
  "user_env_ok E \<longleftrightarrow> (\<forall>n. \<exists>t. mallocChannels E n = Some t \<and> length t = n) \<and>
     (\<forall>n. \<exists>t. mallocObjects E n = Some t \<and> length t = n) \<and>
     (\<forall>outs event. pdouAnswer E (outs @ [PostPdok event]) = kErrorOk)"

definition kernel_env_ok :: "pdok_env \<Rightarrow> bool" where
  "kernel_env_ok E \<longleftrightarrow> (\<forall>n. \<exists>t. pdokMalloc E n = Some t \<and> length t = n) \<and>
     (\<forall>outs. pdokAnswer E outs = kErrorOk) \<and> pdokAllocMem E"

section \<open>The mapping of one PDO\<close>

lemma field_less:
  fixes x :: u64
  shows "unat (drop_bit 32 (x AND 0x0000FFFF00000000)) < 2 ^ 16" "unat (drop_bit 48 (x AND 0xFFFF000000000000)) < 2 ^ 16"
proof -
  have m: "(0x0000FFFF00000000 :: u64) = push_bit 32 (mask 16)" "(0xFFFF000000000000 :: u64) = push_bit 48 (mask 16)"
    by (simp_all add: mask_eq_exp_minus_1 push_bit_eq_mult)
  have "drop_bit 32 (x AND 0x0000FFFF00000000) = take_bit 16 (drop_bit 32 x)"
    "drop_bit 48 (x AND 0xFFFF000000000000) = take_bit 16 (drop_bit 48 x)"
    unfolding m by (rule bit_word_eqI, auto simp: bit_simps)+
  then show "unat (drop_bit 32 (x AND 0x0000FFFF00000000)) < 2 ^ 16" "unat (drop_bit 48 (x AND 0xFFFF000000000000)) < 2 ^ 16"
    using take_bit_nat_less_exp [of 16 "unat (drop_bit 32 x)"] take_bit_nat_less_exp [of 16 "unat (drop_bit 48 x)"]
    by (simp_all add: unsigned_take_bit_eq)
qed

lemma checkAndSetObjectMapping_fits:
  assumes "od_sizes OD"
    and "checkAndSetObjectMapping OD objectMapping access abortCode = (kErrorOk, abortCode', Some (obj, n))"
  shows "valid_object obj" "within n (pdo_place obj)" "n < 2 ^ 16"
proof -
  obtain index subIndex off bitSize where dec: "decodeObjectMapping objectMapping = (index, subIndex, off, bitSize)"
    by (metis prod_cases4)
  have small: "off < 2 ^ 16" "bitSize < 2 ^ 16" using dec field_less [of objectMapping]
    by (auto simp: decodeObjectMapping_def)
  obtain typeErr t where t: "odType OD index subIndex = (typeErr, t)" by (cases "odType OD index subIndex")
  let ?b = "if t = kObdTypeBool then 1 else bitSize div 8"
  obtain numErr numerical where num: "odNumerical OD index subIndex = (numErr, numerical)"
    by (cases "odNumerical OD index subIndex")
  have r: "typeErr = kErrorOk" "numErr = kErrorOk" "numerical \<longrightarrow> ?b = odDataSize OD index subIndex"
    "\<exists>var. obj = mapp_object var off t ?b" "n = off div 8 + ?b"
    using assms(2) dec t num
    by (auto simp: checkAndSetObjectMapping_def Let_def split: if_splits prod.splits option.splits)
  then obtain var where obj: "obj = mapp_object var off t ?b" by blast
  have b: "?b < 2 ^ 14" using small(2) by auto
  show "n < 2 ^ 16" using r(5) small(1) b by simp
  show "valid_object obj"
    using b by (auto simp: obj mapp_object_def valid_object_def obd_type_of_string)
  have "obj_width obj = ?b"
  proof (cases "is_string_type t")
    case True
    with b show ?thesis by (simp add: obj mapp_object_def obj_width_def obd_type_of_string)
  next
    case False
    then have "?b = type_width t" using assms(1) t num r by (auto simp: od_sizes_def)
    with False show ?thesis by (simp add: obj mapp_object_def obj_width_def)
  qed
  then show "within n (pdo_place obj)"
    using r(5) small(1) by (simp add: within_def pdo_place_def obj mapp_object_def)
qed

definition fits :: "nat \<Rightarrow> tPdoMappObject \<Rightarrow> bool" where
  "fits n obj \<longleftrightarrow> valid_object obj \<and> within n (pdo_place obj)"

lemma fits_mono: "fits m obj \<Longrightarrow> m \<le> n \<Longrightarrow> fits n obj"
  by (auto simp: fits_def within_def)

text \<open>
  The loop stays in its part of the table, whatever the dictionary returns; when it succeeds the
  part starts with the objects that are counted, which fit the size.
\<close>

definition loop_result ::
  "nat \<Rightarrow> nat \<Rightarrow> tPdoMappObject list \<Rightarrow> nat \<Rightarrow> nat \<Rightarrow>
     (tOplkError \<times> nat \<times> tPdoMappObject list \<times> nat \<times> nat) option \<Rightarrow> bool" where
  "loop_result pos k tbl calc count res \<longleftrightarrow> (\<exists>ret abortCode tbl' calc' count'. res = Some (ret, abortCode, tbl', calc', count') \<and>
     length tbl' = length tbl \<and> (\<forall>i. i < pos \<or> pos + k \<le> i \<longrightarrow> tbl' ! i = tbl ! i) \<and>
     (ret = kErrorOk \<longrightarrow> calc \<le> calc' \<and> count \<le> count' \<and> count' \<le> count + k \<and>
        (\<forall>i < count' - count. fits calc' (tbl' ! (pos + i)))))"

lemma loop_result_stop:
  assumes "ret \<noteq> kErrorOk" and "length tbl' = length tbl" and "\<And>i. i < pos \<or> pos + k \<le> i \<Longrightarrow> tbl' ! i = tbl ! i"
  shows "loop_result pos k tbl calc count (Some (ret, abortCode, tbl', calc', count'))"
  using assms by (auto simp: loop_result_def)

lemma loop_result_step:
  assumes "loop_result (pos + 1) k (tbl[pos := obj]) calc1 (count + 1) res" and pos: "pos < length tbl"
    and obj: "fits calc1 obj" and calc: "calc \<le> calc1"
  shows "loop_result pos (Suc k) tbl calc count res"
proof -
  from assms(1) obtain r a tbl' calc' count' where res: "res = Some (r, a, tbl', calc', count')" "length tbl' = length tbl"
    and same: "\<And>i. i < pos + 1 \<or> pos + 1 + k \<le> i \<Longrightarrow> tbl' ! i = tbl[pos := obj] ! i"
    and good: "r = kErrorOk \<Longrightarrow> calc1 \<le> calc' \<and> count + 1 \<le> count' \<and> count' \<le> count + 1 + k \<and>
        (\<forall>i < count' - (count + 1). fits calc' (tbl' ! (pos + 1 + i)))"
    unfolding loop_result_def by force
  have at: "tbl' ! pos = obj" using same [of pos] pos by simp
  have "tbl' ! i = tbl ! i" if "i < pos \<or> pos + Suc k \<le> i" for i using same [of i] that by auto
  moreover have "fits calc' (tbl' ! (pos + i))" if "r = kErrorOk" "i < count' - count" for i
  proof (cases i)
    case 0
    with good [OF that(1)] at obj show ?thesis by (auto intro: fits_mono)
  next
    case (Suc j)
    with good [OF that(1)] that(2) show ?thesis by simp
  qed
  moreover have "calc \<le> calc'" "count \<le> count'" "count' \<le> count + Suc k" if "r = kErrorOk"
    using good [OF that] calc by auto
  ultimately show ?thesis unfolding loop_result_def using res by blast
qed

lemma setupMappingLoop_ok:
  assumes od: "od_sizes OD"
  shows "pos + length subs \<le> length tbl \<Longrightarrow> ret = kErrorOk \<Longrightarrow>
     loop_result pos (length subs) tbl calc count
       (setupMappingLoop OD mappParamIndex maxPdoSize subs pos tbl abortCode calc count ret)"
proof (induction subs arbitrary: pos tbl abortCode calc count ret)
  case Nil
  then show ?case by (simp add: loop_result_def)
next
  case (Cons sub subs)
  have pos: "pos < length tbl" using Cons.prems by simp
  obtain ret1 objectMapping where rd: "odRead OD mappParamIndex sub = (ret1, objectMapping)"
    by (cases "odRead OD mappParamIndex sub")
  let ?acc = "if PDOU_OBD_IDX_TX_MAPP_PARAM \<le> mappParamIndex then kObdAccRead else kObdAccWrite"
  obtain ret2 ab2 res where ck: "checkAndSetObjectMapping OD (word_of_nat objectMapping) ?acc abortCode = (ret2, ab2, res)"
    by (metis prod_cases3)
  show ?case
  proof (cases "ret1 = kErrorOk \<and> ret2 = kErrorOk")
    case False
    have stop: "loop_result pos (length (sub # subs)) tbl calc count (Some (r, a, tbl, calc, count))"
      if "r \<noteq> kErrorOk" for r a using that by (intro loop_result_stop) simp_all
    show ?thesis using False stop rd ck by (cases "ret1 = kErrorOk") simp_all
  next
    case ok: True
    show ?thesis
    proof (cases res)
      case None
      from Cons.IH [of pos tbl kErrorOk calc count ab2] Cons.prems(1) show ?thesis
        using rd ck ok None by (auto simp: loop_result_def)
    next
      case (Some on)
      obtain obj n where on: "on = (obj, n)" by (cases on)
      from checkAndSetObjectMapping_fits [OF od] ck ok Some on have n: "fits n obj" "n < 2 ^ 16" by (auto simp: fits_def)
      let ?tbl = "tbl[pos := obj]"
      consider (skip) "n = 0" | (big) "n \<noteq> 0" "maxPdoSize < n" | (take) "n \<noteq> 0" "n \<le> maxPdoSize" by fastforce
      then show ?thesis
      proof cases
        case skip
        from Cons.IH [of pos ?tbl kErrorOk calc count ab2] Cons.prems(1) show ?thesis
          using rd ck ok Some on pos skip by (auto simp: loop_result_def)
      next
        case big
        then show ?thesis using rd ck ok Some on pos
          by (auto intro!: loop_result_stop)
      next
        case take
        let ?calc = "if calc < n then n mod 2 ^ 16 else calc"
        have calc: "calc \<le> ?calc" "n \<le> ?calc" using n(2) by auto
        have e: "setupMappingLoop OD mappParamIndex maxPdoSize (sub # subs) pos tbl abortCode calc count ret =
            setupMappingLoop OD mappParamIndex maxPdoSize subs (pos + 1) ?tbl ab2 ?calc (count + 1) kErrorOk"
          using rd ck ok Some on pos take by simp
        have "loop_result (pos + 1) (length subs) ?tbl ?calc (count + 1)
            (setupMappingLoop OD mappParamIndex maxPdoSize subs (pos + 1) ?tbl ab2 ?calc (count + 1) kErrorOk)"
          using Cons.prems(1) by (intro Cons.IH) simp_all
        from loop_result_step [OF this pos fits_mono [OF n(1) calc(2)] calc(1)] show ?thesis unfolding e by simp
      qed
    qed
  qed
qed

section \<open>The tables of the user layer\<close>

definition tables_ok :: "tPdouInstance \<Rightarrow> bool" where
  "tables_ok s \<longleftrightarrow> setup_ok (pdouChannels s) \<and> (\<forall>d. setup_count d (pdouChannels s) \<noteq> 0 \<longrightarrow>
     (\<exists>t. objects d s = Some t \<and> length t = setup_count d (pdouChannels s) * D_PDO_ChannelObjects))"

lemma tables_okD:
  assumes "tables_ok s"
  shows "setup_ok (pdouChannels s)"
    and "ch < setup_count d (pdouChannels s) \<Longrightarrow>
      \<exists>t. objects d s = Some t \<and> length t = setup_count d (pdouChannels s) * D_PDO_ChannelObjects"
proof -
  show "setup_ok (pdouChannels s)" using assms by (simp add: tables_ok_def)
  assume "ch < setup_count d (pdouChannels s)"
  then have "setup_count d (pdouChannels s) \<noteq> 0" by simp
  then show "\<exists>t. objects d s = Some t \<and> length t = setup_count d (pdouChannels s) * D_PDO_ChannelObjects"
    using assms unfolding tables_ok_def by blast
qed

text \<open>The mapping objects of the channel \<open>x\<close> in its part of the table \<open>t\<close>.\<close>

definition part_ok :: "tPdoMappObject list option \<Rightarrow> nat \<Rightarrow> tPdoChannel \<Rightarrow> bool" where
  "part_ok t ch x \<longleftrightarrow> disabled x \<or> mappObjectCount x \<le> D_PDO_ChannelObjects \<and>
     (\<forall>i < mappObjectCount x. fits (pdoSize x) (the t ! (ch * D_PDO_ChannelObjects + i)))"

definition parts_ok :: "tPdouInstance \<Rightarrow> bool" where
  "parts_ok s \<longleftrightarrow> (\<forall>d. \<forall>ch < setup_count d (pdouChannels s). part_ok (objects d s) ch (chan_list d (pdouChannels s) ! ch))"

lemma part_inside: "ch < n \<Longrightarrow> k \<le> D_PDO_ChannelObjects \<Longrightarrow> ch * D_PDO_ChannelObjects + k \<le> n * D_PDO_ChannelObjects"
  for n :: nat
proof -
  assume "ch < n" and k: "k \<le> D_PDO_ChannelObjects"
  then have "Suc ch * D_PDO_ChannelObjects \<le> n * D_PDO_ChannelObjects" by (intro mult_le_mono1) simp
  with k show ?thesis by simp
qed

lemma parts_ok_mapping:
  assumes "tables_ok s" and "parts_ok s"
  shows "mapping_ok s"
  unfolding mapping_ok_def Let_def
proof (intro allI impI)
  fix d ch
  let ?x = "chan_list d (pdouChannels s) ! ch" and ?n = D_PDO_ChannelObjects
  assume ch: "ch < setup_count d (pdouChannels s)" and en: "\<not> disabled ?x"
  obtain t where t: "objects d s = Some t" "length t = setup_count d (pdouChannels s) * ?n"
    using tables_okD(2) [OF assms(1) ch] by blast
  have "part_ok (objects d s) ch ?x" using assms(2) ch by (simp add: parts_ok_def)
  with en t(1) have p: "mappObjectCount ?x \<le> ?n" "\<And>i. i < mappObjectCount ?x \<Longrightarrow> fits (pdoSize ?x) (t ! (ch * ?n + i))"
    by (simp_all add: part_ok_def)
  have l: "ch * ?n + mappObjectCount ?x \<le> length t" using part_inside [OF ch p(1)] t(2) by simp
  then have c: "channel_objects d ch (mappObjectCount ?x) s = Some (take (mappObjectCount ?x) (drop (ch * ?n) t))"
    using t(1) by (simp add: channel_objects_def mem_read_def)
  then show "channel_objects d ch (mappObjectCount ?x) s = Some (chan_objs d ch s) \<and>
      list_all (\<lambda>obj. valid_object obj \<and> within (pdoSize ?x) (pdo_place obj)) (chan_objs d ch s)"
    using en l p(2) by (simp add: chan_objs_def list_all_length fits_def)
qed

section \<open>The events for the kernel layer\<close>

definition posts :: "pdou_out list \<Rightarrow> pdok_event list" where
  "posts outs = List.map_filter (\<lambda>out. case out of PostPdok event \<Rightarrow> Some event | _ \<Rightarrow> None) outs"

lemma posts_simps [simp]:
  "posts [] = []" "posts (PostPdok event # outs) = event # posts outs" "posts (PdoChange chg # outs) = posts outs"
  "posts (TargetMsleep n # outs) = posts outs" "posts (PdoucalInitPdoMem rxSize txSize # outs) = posts outs"
  "posts (outs @ outs') = posts outs @ posts outs'"
  by (simp_all add: posts_def map_filter_def)

text \<open>The kernel layer processes events in their order, whatever it returns for each.\<close>

fun pdok_events :: "pdok_env \<Rightarrow> bool \<Rightarrow> pdok_event list \<Rightarrow> tPdokInstance \<Rightarrow> tPdokInstance option" where
  "pdok_events E deferred [] k = Some k"
| "pdok_events E deferred (event # events) k =
     Option.bind (pdokcal_process E deferred event k) (\<lambda>(ret, k). pdok_events E deferred events k)"

lemma pdok_events_append:
  "pdok_events E deferred (events @ events') k =
     Option.bind (pdok_events E deferred events k) (pdok_events E deferred events')"
proof (induction events arbitrary: k)
  case (Cons event events)
  then show ?case by (cases "pdokcal_process E deferred event k") auto
qed simp

text \<open>
  The tables of both layers: those channels of which the kernel has got the configuration (\<open>C\<close>)
  are the same.
\<close>

definition in_step :: "(pdo_dir \<times> nat) set \<Rightarrow> tPdouInstance \<Rightarrow> tPdokInstance \<Rightarrow> bool" where
  "in_step C s k \<longleftrightarrow> tables_ok s \<and> parts_ok s \<and> setup_ok (pdokChannels k) \<and>
     (\<forall>d. setup_count d (pdokChannels k) = setup_count d (pdouChannels s)) \<and>
     (\<forall>(d, ch) \<in> C. ch < setup_count d (pdouChannels s) \<longrightarrow>
        chan_list d (pdokChannels k) ! ch = chan_list d (pdouChannels s) ! ch)"

lemma in_step_outs [simp]:
  "in_step C (s\<lparr>pdouOuts := outs\<rparr>) k = in_step C s k" "in_step C (s\<lparr>pdouRunning := b\<rparr>) k = in_step C s k"
  by (simp_all add: in_step_def tables_ok_def parts_ok_def objects_def split: pdo_dir.split)

abbreviation dir_of :: "bool \<Rightarrow> pdo_dir" where
  "dir_of tx \<equiv> (if tx then Tx else Rx)"

lemma kernel_configure:
  assumes env: "kernel_env_ok E" and ok: "setup_ok (pdokChannels k)"
    and ch: "confChannelId conf < setup_count (dir_of (confTx conf)) (pdokChannels k)"
  shows "\<exists>k'. pdok_configureChannel E conf k = Some (kErrorOk, k') \<and> setup_ok (pdokChannels k') \<and>
     (\<forall>d. setup_count d (pdokChannels k') = setup_count d (pdokChannels k)) \<and>
     (\<forall>d. chan_list d (pdokChannels k') = (if d = dir_of (confTx conf)
        then (chan_list d (pdokChannels k))[confChannelId conf := confChannel conf] else chan_list d (pdokChannels k)))"
proof -
  from put_channel_ok [OF ok ch, of "confChannel conf"] obtain c' where
    c: "put_channel (dir_of (confTx conf)) (confChannelId conf) (confChannel conf) (pdokChannels k) = Some c'"
    "setup_ok c'" "\<forall>d'. setup_count d' c' = setup_count d' (pdokChannels k)"
    "\<forall>d'. chan_list d' c' = (if d' = dir_of (confTx conf)
        then (chan_list (dir_of (confTx conf)) (pdokChannels k))[confChannelId conf := confChannel conf]
        else chan_list d' (pdokChannels k))"
    by auto
  have call: "pdok_call E out k = (kErrorOk, pdok_log out k)" for out k
    using env by (simp add: pdok_call_def kernel_env_ok_def)
  note g = get_channel_ok [OF ok, of "dir_of (confTx conf)" "confChannelId conf"]
  show ?thesis
    using c ch g by (cases "confTx conf") (auto simp: pdok_configureChannel_def call pdok_log_def Let_def)
qed

lemma user_configure:
  assumes env: "user_env_ok E" and ok: "setup_ok (pdouChannels s)" and al: "fAllocated s"
    and ch: "confChannelId conf < setup_count (dir_of (confTx conf)) (pdouChannels s)"
  shows "\<exists>c'. configurePdoChannel E conf s =
       Some (kErrorOk, s\<lparr>pdouChannels := c', pdouOuts := pdouOuts s @ [PostPdok (PdokConfig conf)]\<rparr>) \<and> setup_ok c' \<and>
     (\<forall>d. setup_count d c' = setup_count d (pdouChannels s)) \<and>
     (\<forall>d. chan_list d c' = (if d = dir_of (confTx conf)
        then (chan_list d (pdouChannels s))[confChannelId conf := confChannel conf] else chan_list d (pdouChannels s)))"
proof -
  from put_channel_ok [OF ok ch, of "confChannel conf"] obtain c' where
    "put_channel (dir_of (confTx conf)) (confChannelId conf) (confChannel conf) (pdouChannels s) = Some c'"
    "setup_ok c'" "\<forall>d'. setup_count d' c' = setup_count d' (pdouChannels s)"
    "\<forall>d'. chan_list d' c' = (if d' = dir_of (confTx conf)
        then (chan_list (dir_of (confTx conf)) (pdouChannels s))[confChannelId conf := confChannel conf]
        else chan_list d' (pdouChannels s))"
    by auto
  with env al show ?thesis
    by (intro exI [of _ c']) (auto simp: configurePdoChannel_def pdoucal_postConfigureChannel_def pdou_call_def pdou_log_def user_env_ok_def)
qed

section \<open>One channel\<close>

text \<open>
  What a step of the configuration leaves: the numbers of channels and the tables of channels are
  kept, and the events that it has posted bring the kernel layer in step.
\<close>

definition same_frame :: "tPdouInstance \<Rightarrow> tPdouInstance \<Rightarrow> bool" where
  "same_frame s s' \<longleftrightarrow> fAllocated s' = fAllocated s \<and> aPdoIdToChannelIdRx s' = aPdoIdToChannelIdRx s \<and>
     aPdoIdToChannelIdTx s' = aPdoIdToChannelIdTx s \<and>
     (\<forall>d. setup_count d (pdouChannels s') = setup_count d (pdouChannels s))"

definition brings_in_step ::
  "pdok_env \<Rightarrow> bool \<Rightarrow> (pdo_dir \<times> nat) set \<Rightarrow> tPdouInstance \<Rightarrow> tPdokInstance \<Rightarrow> tPdouInstance \<Rightarrow> bool" where
  "brings_in_step E deferred C s k s' \<longleftrightarrow> same_frame s s' \<and>
     (\<exists>outs k'. pdouOuts s' = pdouOuts s @ outs \<and> pdok_events E deferred (posts outs) k = Some k' \<and> in_step C s' k')"

definition configures ::
  "pdok_env \<Rightarrow> bool \<Rightarrow> (pdo_dir \<times> nat) set \<Rightarrow> tPdouInstance \<Rightarrow> tPdokInstance \<Rightarrow>
     (tOplkError \<times> nat \<times> tPdouInstance) option \<Rightarrow> bool" where
  "configures E deferred C s k res \<longleftrightarrow> (\<exists>ret abortCode s'. res = Some (ret, abortCode, s') \<and>
     (ret = kErrorOk \<longrightarrow> brings_in_step E deferred C s k s'))"

text \<open>A part of the table that another channel has.\<close>

lemma part_ok_other:
  assumes "part_ok (Some t) ch' x" and "ch' \<noteq> ch"
    and "\<And>i. i < ch * D_PDO_ChannelObjects \<or> ch * D_PDO_ChannelObjects + D_PDO_ChannelObjects \<le> i \<Longrightarrow> t1 ! i = t ! i"
  shows "part_ok (Some t1) ch' x"
proof -
  have "t1 ! (ch' * D_PDO_ChannelObjects + i) = t ! (ch' * D_PDO_ChannelObjects + i)" if "i < D_PDO_ChannelObjects" for i
  proof -
    from assms(2) consider "ch' + 1 \<le> ch" | "ch + 1 \<le> ch'" by linarith
    then have "ch' * D_PDO_ChannelObjects + i < ch * D_PDO_ChannelObjects \<or>
        ch * D_PDO_ChannelObjects + D_PDO_ChannelObjects \<le> ch' * D_PDO_ChannelObjects + i"
      using that by cases auto
    then show ?thesis by (rule assms(3))
  qed
  with assms(1) show ?thesis by (auto simp: part_ok_def)
qed

lemma configure_in_step:
  assumes env: "user_env_ok EU" "kernel_env_ok EK" and st: "in_step C s k"
    and ch: "ch < setup_count (dir_of tx) (pdouChannels s)"
    and s1: "fAllocated s1" "pdouChannels s1 = pdouChannels s" "\<And>d'. d' \<noteq> dir_of tx \<Longrightarrow> objects d' s1 = objects d' s"
    and t: "objects (dir_of tx) s = Some t" "objects (dir_of tx) s1 = Some t1" "length t1 = length t"
      "\<And>i. i < ch * D_PDO_ChannelObjects \<or> ch * D_PDO_ChannelObjects + D_PDO_ChannelObjects \<le> i \<Longrightarrow> t1 ! i = t ! i"
    and x: "part_ok (Some t1) ch x"
  defines "conf \<equiv> \<lparr>confChannelId = ch, confTx = tx, confChannel = x\<rparr>"
  shows "\<exists>c' k'. configurePdoChannel EU conf s1 =
       Some (kErrorOk, s1\<lparr>pdouChannels := c', pdouOuts := pdouOuts s1 @ [PostPdok (PdokConfig conf)]\<rparr>) \<and>
     (\<forall>d. setup_count d c' = setup_count d (pdouChannels s)) \<and>
     pdok_events EK deferred [PdokConfig conf] k = Some k' \<and>
     (\<forall>outs. in_step (insert (dir_of tx, ch) C) (s1\<lparr>pdouChannels := c', pdouOuts := outs\<rparr>) k')"
proof -
  have T: "tables_ok s" "parts_ok s" "setup_ok (pdokChannels k)"
    and counts: "\<And>d. setup_count d (pdokChannels k) = setup_count d (pdouChannels s)"
    and same: "\<And>d ch. (d, ch) \<in> C \<Longrightarrow> ch < setup_count d (pdouChannels s) \<Longrightarrow>
        chan_list d (pdokChannels k) ! ch = chan_list d (pdouChannels s) ! ch"
    using st by (auto simp: in_step_def)
  have ok: "setup_ok (pdouChannels s1)" using T(1) s1(2) by (simp add: tables_ok_def)
  have cf: "confChannelId conf = ch" "confTx conf = tx" "confChannel conf = x" by (simp_all add: conf_def)
  from user_configure [OF env(1) ok s1(1), of conf] ch obtain c' where
    c: "configurePdoChannel EU conf s1 =
        Some (kErrorOk, s1\<lparr>pdouChannels := c', pdouOuts := pdouOuts s1 @ [PostPdok (PdokConfig conf)]\<rparr>)"
      "setup_ok c'" "\<And>d. setup_count d c' = setup_count d (pdouChannels s)"
      "\<And>d. chan_list d c' = (if d = dir_of tx then (chan_list d (pdouChannels s))[ch := x] else chan_list d (pdouChannels s))"
    unfolding cf s1(2) by auto
  from kernel_configure [OF env(2) T(3), of conf] ch obtain k' where
    k: "pdok_configureChannel EK conf k = Some (kErrorOk, k')" "setup_ok (pdokChannels k')"
      "\<And>d. setup_count d (pdokChannels k') = setup_count d (pdokChannels k)"
      "\<And>d. chan_list d (pdokChannels k') =
        (if d = dir_of tx then (chan_list d (pdokChannels k))[ch := x] else chan_list d (pdokChannels k))"
    unfolding cf counts by auto
  have len: "length (chan_list d (pdouChannels s)) = setup_count d (pdouChannels s)"
    "length (chan_list d (pdokChannels k)) = setup_count d (pdouChannels s)" for d
    using setup_okD(1) [OF tables_okD(1) [OF T(1)]] setup_okD(1) [OF T(3)] counts by simp_all
  have obj: "objects d (s1\<lparr>pdouChannels := c', pdouOuts := outs\<rparr>) = objects d s1" for d outs
    by (simp add: objects_def split: pdo_dir.split)
  have "in_step (insert (dir_of tx, ch) C) (s1\<lparr>pdouChannels := c', pdouOuts := outs\<rparr>) k'" for outs
  proof -
    let ?s = "s1\<lparr>pdouChannels := c', pdouOuts := outs\<rparr>"
    have "tables_ok ?s"
      unfolding tables_ok_def obj
    proof (intro conjI allI impI)
      show "setup_ok (pdouChannels ?s)" using c(2) by simp
      fix d assume "setup_count d (pdouChannels ?s) \<noteq> 0"
      then have "0 < setup_count d (pdouChannels s)" using c(3) by simp
      from tables_okD(2) [OF T(1) this] s1(3) t(1-3) c(3)
      show "\<exists>t. objects d s1 = Some t \<and> length t = setup_count d (pdouChannels ?s) * D_PDO_ChannelObjects"
        by (cases "d = dir_of tx") auto
    qed
    moreover have "parts_ok ?s"
      unfolding parts_ok_def obj
    proof (intro allI impI)
      fix d ch' assume "ch' < setup_count d (pdouChannels ?s)"
      then have ch': "ch' < setup_count d (pdouChannels s)" using c(3) by simp
      have old: "part_ok (objects d s) ch' (chan_list d (pdouChannels s) ! ch')" using T(2) ch' by (simp add: parts_ok_def)
      show "part_ok (objects d s1) ch' (chan_list d (pdouChannels ?s) ! ch')"
      proof (cases "d = dir_of tx")
        case True
        show ?thesis
        proof (cases "ch' = ch")
          case True
          with \<open>d = dir_of tx\<close> x t(2) c(4) len(1) ch show ?thesis by auto
        next
          case False
          with part_ok_other [OF _ False t(4), of "chan_list d (pdouChannels s) ! ch'"] old \<open>d = dir_of tx\<close> t(1, 2) c(4)
          show ?thesis by auto
        qed
      next
        case False
        with old s1(3) c(4) show ?thesis by auto
      qed
    qed
    moreover have "chan_list d (pdokChannels k') ! ch' = chan_list d (pdouChannels ?s) ! ch'"
      if "(d, ch') \<in> insert (dir_of tx, ch) C" "ch' < setup_count d (pdouChannels ?s)" for d ch'
      using that same [of d ch'] c(3, 4) k(4) len ch by (auto simp: nth_list_update)
    ultimately show ?thesis using k(2, 3) c(3) counts by (auto simp: in_step_def)
  qed
  then show ?thesis using c(1, 3) k(1) by (auto simp: pdokcal_process_def)
qed

lemma callPdoChangeCb_outs:
  "snd (callPdoChangeCb E OD act nodeId idx n tx s) = s \<or>
     (\<exists>chg. snd (callPdoChangeCb E OD act nodeId idx n tx s) = s\<lparr>pdouOuts := pdouOuts s @ [PdoChange chg]\<rparr>)"
  by (auto simp: callPdoChangeCb_def pdou_call_def pdou_log_def split: prod.split)

lemma reportPdoChange_outs:
  "\<exists>ret' abortCode' outs. reportPdoChange E OD act nodeId idx n tx ret abortCode s =
     (ret', abortCode', s\<lparr>pdouOuts := pdouOuts s @ outs\<rparr>) \<and> posts outs = []"
proof -
  obtain r s' where r: "callPdoChangeCb E OD act nodeId idx n tx s = (r, s')" by fastforce
  have "\<exists>outs. s' = s\<lparr>pdouOuts := pdouOuts s @ outs\<rparr> \<and> posts outs = []"
    using callPdoChangeCb_outs [of E OD act nodeId idx n tx s] r
  proof (elim disjE exE)
    assume "snd (callPdoChangeCb E OD act nodeId idx n tx s) = s"
    with r show ?thesis by (intro exI [of _ "[]"]) simp
  next
    fix chg assume "snd (callPdoChangeCb E OD act nodeId idx n tx s) = s\<lparr>pdouOuts := pdouOuts s @ [PdoChange chg]\<rparr>"
    with r show ?thesis by (intro exI [of _ "[PdoChange chg]"]) simp
  qed
  then show ?thesis
  proof (cases "fAllocated s \<and> pfnCbEventPdoChange s")
    case False
    then show ?thesis by (auto simp: reportPdoChange_def intro!: exI [of _ "[]"])
  qed (auto simp: reportPdoChange_def r)
qed

lemma brings_in_stepI:
  assumes "s' = s1\<lparr>pdouChannels := c', pdouOuts := pdouOuts s @ outs\<rparr>" and "same_frame s s1"
    and "\<And>d. setup_count d c' = setup_count d (pdouChannels s)"
    and "pdok_events E deferred (posts outs) k = Some k'"
    and "\<And>outs. in_step C (s1\<lparr>pdouChannels := c', pdouOuts := outs\<rparr>) k'"
  shows "brings_in_step E deferred C s k s'"
  using assms by (auto simp: brings_in_step_def same_frame_def)

lemma disablePdo_configures:
  assumes env: "user_env_ok EU" "kernel_env_ok EK" and st: "in_step C s k" and al: "fAllocated s"
    and ch: "ch < setup_count (dir_of tx) (pdouChannels s)"
  shows "configures EK deferred (insert (dir_of tx, ch) C) s k (disablePdo EU OD nodeId idx tx ch version abortCode s)"
proof -
  let ?x = "\<lparr>chNodeId = PDO_INVALID_NODE_ID, pdoSize = 0, mappingVersion = version, mappObjectCount = 0\<rparr>"
  let ?conf = "\<lparr>confChannelId = ch, confTx = tx, confChannel = ?x\<rparr>"
  let ?s1 = "s\<lparr>pdouRunning := False\<rparr>"
  have "tables_ok s" using st by (simp add: in_step_def)
  from tables_okD(2) [OF this ch] obtain t where t: "objects (dir_of tx) s = Some t" by blast
  have obj: "objects d ?s1 = objects d s" for d by (simp add: objects_def split: pdo_dir.split)
  have "part_ok (Some t) ch ?x" by (simp add: part_ok_def disabled_def)
  from configure_in_step [OF env st ch _ _ _ t _ _ _ this, of ?s1 deferred] obj t al obtain c' k' where
    c: "configurePdoChannel EU ?conf ?s1 =
        Some (kErrorOk, ?s1\<lparr>pdouChannels := c', pdouOuts := pdouOuts s @ [PostPdok (PdokConfig ?conf)]\<rparr>)"
      "\<And>d. setup_count d c' = setup_count d (pdouChannels s)"
      "pdok_events EK deferred [PdokConfig ?conf] k = Some k'"
      "\<And>outs. in_step (insert (dir_of tx, ch) C) (?s1\<lparr>pdouChannels := c', pdouOuts := outs\<rparr>) k'" by auto
  let ?s2 = "?s1\<lparr>pdouChannels := c', pdouOuts := pdouOuts s @ [PostPdok (PdokConfig ?conf)]\<rparr>"
  from reportPdoChange_outs [of EU OD False nodeId idx 0 tx kErrorOk abortCode ?s2] obtain ret' ab' outs where
    r: "reportPdoChange EU OD False nodeId idx 0 tx kErrorOk abortCode ?s2 = (ret', ab', ?s2\<lparr>pdouOuts := pdouOuts ?s2 @ outs\<rparr>)"
      "posts outs = []" by blast
  have "brings_in_step EK deferred (insert (dir_of tx, ch) C) s k (?s2\<lparr>pdouOuts := pdouOuts ?s2 @ outs\<rparr>)"
    by (rule brings_in_stepI [OF _ _ c(2) _ c(4), where outs = "PostPdok (PdokConfig ?conf) # outs"])
      (use c(3) r(2) in \<open>simp_all add: same_frame_def\<close>)
  then show ?thesis using c(1) r(1) by (auto simp: configures_def disablePdo_def)
qed

lemma configures_error: "ret \<noteq> kErrorOk \<Longrightarrow> configures E deferred C s k (Some (ret, abortCode, s'))"
  by (simp add: configures_def)

lemma enablePdo_configures:
  assumes env: "user_env_ok EU" "kernel_env_ok EK" "od_sizes OD" and st: "in_step C s k" and al: "fAllocated s"
    and ch: "ch < setup_count (dir_of tx) (pdouChannels s)" and n: "n \<le> D_PDO_ChannelObjects"
  shows "configures EK deferred (insert (dir_of tx, ch) C) s k (enablePdo EU OD nodeId idx tx ch n abortCode s)"
proof -
  let ?comm = "idx AND (0xFFFF - PDOU_OBD_IDX_MAPP_PARAM)"
  obtain ret1 ab1 where v: "checkPdoValidity OD idx abortCode s = (ret1, ab1)" by (cases "checkPdoValidity OD idx abortCode s")
  obtain ret2 version where rd: "odRead OD ?comm 0x02 = (ret2, version)" by (cases "odRead OD ?comm 0x02")
  obtain ret3 ab3 maxSize where mx: "getMaxPdoSize OD nodeId tx ab1 = (ret3, ab3, maxSize)" by (metis prod_cases3)
  have T: "tables_ok s" using st by (simp add: in_step_def)
  from tables_okD(2) [OF T ch] obtain t where t: "objects (dir_of tx) s = Some t"
    "length t = setup_count (dir_of tx) (pdouChannels s) * D_PDO_ChannelObjects" by blast
  let ?pos = "ch * D_PDO_ChannelObjects"
  have len: "length [1..<n + 1] = n" by (simp del: upt_Suc)
  have "loop_result ?pos n t 0 0 (setupMappingObjects OD idx n maxSize ?pos t ab3)"
    unfolding setupMappingObjects_def using part_inside [OF ch n] t(2)
      setupMappingLoop_ok [OF env(3), of ?pos "[1..<n + 1]" t kErrorOk 0 0 idx maxSize ab3, unfolded len] by simp
  then obtain ret4 ab4 t1 size_p cnt where L: "setupMappingObjects OD idx n maxSize ?pos t ab3 = Some (ret4, ab4, t1, size_p, cnt)"
    "length t1 = length t" "\<forall>i. i < ?pos \<or> ?pos + n \<le> i \<longrightarrow> t1 ! i = t ! i"
    "ret4 = kErrorOk \<longrightarrow> 0 \<le> size_p \<and> 0 \<le> cnt \<and> cnt \<le> 0 + n \<and> (\<forall>i < cnt - 0. fits size_p (t1 ! (?pos + i)))"
    unfolding loop_result_def by blast
  let ?x = "\<lparr>chNodeId = nodeId, pdoSize = size_p, mappingVersion = word_of_nat version, mappObjectCount = cnt\<rparr>"
  let ?conf = "\<lparr>confChannelId = ch, confTx = tx, confChannel = ?x\<rparr>"
  let ?s1 = "set_objects (dir_of tx) (Some t1) s"
  have s1: "fAllocated ?s1" "pdouChannels ?s1 = pdouChannels s" "pdouOuts ?s1 = pdouOuts s"
    "objects d ?s1 = (if d = dir_of tx then Some t1 else objects d s)" "same_frame s ?s1" for d
    using al by (cases d; cases tx; simp add: set_objects_def objects_def same_frame_def)+
  show ?thesis
  proof (cases "ret1 = kErrorOk \<and> ret2 = kErrorOk \<and> ret3 = kErrorOk \<and> ret4 = kErrorOk")
    case False
    then show ?thesis using v rd mx t(1) L(1)
      by (auto simp: enablePdo_def Let_def intro!: configures_error)
  next
    case True
    have px: "part_ok (Some t1) ch ?x" using L(4) True n by (auto simp: part_ok_def)
    have same: "t1 ! i = t ! i" if "i < ?pos \<or> ?pos + D_PDO_ChannelObjects \<le> i" for i using spec [OF L(3), of i] that n by auto
    from configure_in_step [OF env(1, 2) st ch s1(1, 2) _ t(1) _ L(2) same px, of deferred] s1(3, 4) obtain c' k' where
      c: "configurePdoChannel EU ?conf ?s1 =
          Some (kErrorOk, ?s1\<lparr>pdouChannels := c', pdouOuts := pdouOuts s @ [PostPdok (PdokConfig ?conf)]\<rparr>)"
        "\<And>d. setup_count d c' = setup_count d (pdouChannels s)"
        "pdok_events EK deferred [PdokConfig ?conf] k = Some k'"
        "\<And>outs. in_step (insert (dir_of tx, ch) C) (?s1\<lparr>pdouChannels := c', pdouOuts := outs\<rparr>) k'" by auto
    let ?s2 = "?s1\<lparr>pdouChannels := c', pdouOuts := pdouOuts s @ [PostPdok (PdokConfig ?conf)]\<rparr>"
    from reportPdoChange_outs [of EU OD True nodeId idx n tx kErrorOk ab4 ?s2] obtain ret' ab' outs where
      r: "reportPdoChange EU OD True nodeId idx n tx kErrorOk ab4 ?s2 = (ret', ab', ?s2\<lparr>pdouOuts := pdouOuts ?s2 @ outs\<rparr>)"
        "posts outs = []" by blast
    have "brings_in_step EK deferred (insert (dir_of tx, ch) C) s k (?s2\<lparr>pdouOuts := pdouOuts ?s2 @ outs\<rparr>)"
      by (rule brings_in_stepI [OF _ s1(5) c(2) _ c(4), where outs = "PostPdok (PdokConfig ?conf) # outs"])
        (use c(3) r(2) in simp_all)
    then show ?thesis using True v rd mx t(1) L(1) c(1) r(1) by (auto simp: configures_def enablePdo_def Let_def)
  qed
qed

lemma checkAndConfigurePdo_configures:
  assumes env: "user_env_ok EU" "kernel_env_ok EK" "od_sizes OD" and st: "in_step C s k" and al: "fAllocated s"
    and id: "getPdoChannelId mn (idx AND PDOU_PDO_ID_MASK) (PDOU_OBD_IDX_TX_MAPP_PARAM \<le> idx) s = Some ch"
    and tx: "tx = (PDOU_OBD_IDX_TX_MAPP_PARAM \<le> idx)" and ch: "ch < setup_count (dir_of tx) (pdouChannels s)"
  shows "configures EK deferred (insert (dir_of tx, ch) C) s k (checkAndConfigurePdo mn EU OD junk idx n abortCode s)"
proof -
  let ?comm = "idx AND (0xFFFF - PDOU_OBD_IDX_MAPP_PARAM)"
  obtain ret nodeId where rd: "odRead OD ?comm 0x01 = (ret, nodeId)" by (cases "odRead OD ?comm 0x01")
  consider (high) "D_PDO_ChannelObjects < n" | (bad) "n \<le> D_PDO_ChannelObjects" "ret \<noteq> kErrorOk"
    | (off) "ret = kErrorOk" "n = 0" | (on) "ret = kErrorOk" "n \<noteq> 0" "n \<le> D_PDO_ChannelObjects" by fastforce
  then show ?thesis
  proof cases
    case high
    then show ?thesis by (auto simp: checkAndConfigurePdo_def intro!: configures_error)
  next
    case bad
    then show ?thesis using rd id by (auto simp: checkAndConfigurePdo_def Let_def intro!: configures_error)
  next
    case off
    then have "checkAndConfigurePdo mn EU OD junk idx n abortCode s = disablePdo EU OD nodeId idx tx ch junk abortCode s"
      using rd id tx by (simp add: checkAndConfigurePdo_def Let_def)
    then show ?thesis using disablePdo_configures [OF env(1, 2) st al ch] by simp
  next
    case on
    then have "checkAndConfigurePdo mn EU OD junk idx n abortCode s = enablePdo EU OD nodeId idx tx ch n abortCode s"
      using rd id tx al by (simp add: checkAndConfigurePdo_def Let_def)
    then show ?thesis using enablePdo_configures [OF env st al ch on(3)] by simp
  qed
qed

section \<open>All channels\<close>

lemma brings_in_step_frame: "brings_in_step E deferred C s k s' \<Longrightarrow> same_frame s s'"
  by (simp add: brings_in_step_def)

lemma same_frame_channel: "same_frame s s' \<Longrightarrow> getPdoChannelId mn p tx s' = getPdoChannelId mn p tx s"
  by (simp add: same_frame_def getPdoChannelId_def)

lemma brings_in_step_trans:
  assumes "pdouOuts s1 = pdouOuts s @ outs" and "pdok_events E deferred (posts outs) k = Some k1" and "same_frame s s1"
    and "brings_in_step E deferred C s1 k1 s2"
  shows "brings_in_step E deferred C s k s2"
proof -
  from assms(4) obtain outs2 k2 where o: "pdouOuts s2 = pdouOuts s1 @ outs2"
    "pdok_events E deferred (posts outs2) k1 = Some k2" "in_step C s2 k2" "same_frame s1 s2"
    by (auto simp: brings_in_step_def)
  have "pdouOuts s2 = pdouOuts s @ (outs @ outs2)" "pdok_events E deferred (posts (outs @ outs2)) k = Some k2"
    using o(1, 2) assms(1, 2) by (simp_all add: pdok_events_append)
  then show ?thesis using o(3, 4) assms(3) unfolding brings_in_step_def same_frame_def by metis
qed

lemma mask_pdo_id:
  assumes "p < 256"
  shows "(PDOU_OBD_IDX_RX_MAPP_PARAM + p) AND PDOU_PDO_ID_MASK = p" "(PDOU_OBD_IDX_TX_MAPP_PARAM + p) AND PDOU_PDO_ID_MASK = p"
proof -
  have m: "n AND 255 = n mod 256" for n :: nat
    using take_bit_eq_mask [of 8 n] by (simp add: take_bit_eq_mod mask_eq_exp_minus_1)
  have "5632 + p = p + 22 * 256" "6656 + p = p + 26 * 256" by simp_all
  then have "(5632 + p) mod 256 = p" "(6656 + p) mod 256 = p" using assms by (simp_all only: mod_mult_self1 mod_less)
  then show "(PDOU_OBD_IDX_RX_MAPP_PARAM + p) AND PDOU_PDO_ID_MASK = p" "(PDOU_OBD_IDX_TX_MAPP_PARAM + p) AND PDOU_PDO_ID_MASK = p"
    by (simp_all only: m)
qed

lemma checkAndConfigurePdos_configures:
  assumes env: "user_env_ok EU" "kernel_env_ok EK" "od_sizes OD"
    and base: "base = (if tx then PDOU_OBD_IDX_TX_MAPP_PARAM else PDOU_OBD_IDX_RX_MAPP_PARAM)"
  shows "in_step C s k \<Longrightarrow> fAllocated s \<Longrightarrow>
     (\<forall>p \<in> set pdoIds. p < 256 \<and> (\<exists>ch < setup_count (dir_of tx) (pdouChannels s). getPdoChannelId mn p tx s = Some ch)) \<Longrightarrow>
     configures EK deferred (C \<union> {(dir_of tx, ch) | ch p. p \<in> set pdoIds \<and> getPdoChannelId mn p tx s = Some ch}) s k
       (checkAndConfigurePdos mn EU OD junk base pdoIds abortCode kErrorOk s)"
proof (induction pdoIds arbitrary: C s k abortCode)
  case Nil
  then have "brings_in_step EK deferred C s k s"
    by (auto simp: brings_in_step_def same_frame_def intro!: exI [of _ "[]"])
  then show ?case by (simp add: configures_def)
next
  case (Cons p pdoIds)
  obtain ret n where rd: "odRead OD (base + p) 0 = (ret, n)" by (cases "odRead OD (base + p) 0")
  obtain ch where p: "p < 256" "ch < setup_count (dir_of tx) (pdouChannels s)" "getPdoChannelId mn p tx s = Some ch"
    using Cons.prems(3) by auto
  let ?C = "C \<union> {(dir_of tx, ch) | ch q. q \<in> set (p # pdoIds) \<and> getPdoChannelId mn q tx s = Some ch}"
  have tx: "tx = (PDOU_OBD_IDX_TX_MAPP_PARAM \<le> base + p)" using base p(1) by (cases tx) simp_all
  have m: "(base + p) AND PDOU_PDO_ID_MASK = p" using mask_pdo_id [OF p(1)] base by (cases tx) (simp_all only: if_True if_False)
  have "getPdoChannelId mn ((base + p) AND PDOU_PDO_ID_MASK) (PDOU_OBD_IDX_TX_MAPP_PARAM \<le> base + p) s = Some ch"
    using p(3) by (simp only: m tx [symmetric])
  from checkAndConfigurePdo_configures [OF env Cons.prems(1, 2) this tx p(2), of deferred junk n abortCode]
  obtain ret1 ab1 s1 where c: "checkAndConfigurePdo mn EU OD junk (base + p) n abortCode s = Some (ret1, ab1, s1)"
    "ret1 = kErrorOk \<Longrightarrow> brings_in_step EK deferred (insert (dir_of tx, ch) C) s k s1"
    by (auto simp: configures_def)
  show ?case
  proof (cases "ret = kErrorOk \<and> ret1 = kErrorOk")
    case False
    then show ?thesis using rd c(1) by (auto simp: configures_error)
  next
    case True
    with c(2) have b: "brings_in_step EK deferred (insert (dir_of tx, ch) C) s k s1" by simp
    then obtain outs k1 where o: "pdouOuts s1 = pdouOuts s @ outs" "pdok_events EK deferred (posts outs) k = Some k1"
      "in_step (insert (dir_of tx, ch) C) s1 k1" "same_frame s s1" by (auto simp: brings_in_step_def)
    have al: "fAllocated s1" and n: "setup_count d (pdouChannels s1) = setup_count d (pdouChannels s)" for d
      using o(4) Cons.prems(2) by (simp_all add: same_frame_def)
    have "\<forall>p \<in> set pdoIds. p < 256 \<and> (\<exists>ch < setup_count (dir_of tx) (pdouChannels s1). getPdoChannelId mn p tx s1 = Some ch)"
      using Cons.prems(3) by (simp add: same_frame_channel [OF o(4)] n)
    from Cons.IH [OF o(3) al this, of ab1] obtain ret2 ab2 s2 where
      r: "checkAndConfigurePdos mn EU OD junk base pdoIds ab1 kErrorOk s1 = Some (ret2, ab2, s2)"
      "ret2 = kErrorOk \<Longrightarrow> brings_in_step EK deferred (insert (dir_of tx, ch) C \<union>
         {(dir_of tx, ch) | ch q. q \<in> set pdoIds \<and> getPdoChannelId mn q tx s = Some ch}) s1 k1 s2"
      by (auto simp: configures_def same_frame_channel [OF o(4)])
    have C: "?C = insert (dir_of tx, ch) C \<union> {(dir_of tx, ch) | ch q. q \<in> set pdoIds \<and> getPdoChannelId mn q tx s = Some ch}"
      using p(3) by auto
    have "brings_in_step EK deferred ?C s k s2" if "ret2 = kErrorOk"
      unfolding C by (rule brings_in_step_trans [OF o(1, 2, 4) r(2) [OF that]])
    then show ?thesis using True rd c(1) r(1) by (simp add: configures_def)
  qed
qed

section \<open>The scan of the dictionary and the allocation\<close>

text \<open>The tables of a scan: the PDO of every channel has this channel.\<close>

definition scanned :: "nat \<Rightarrow> nat list \<Rightarrow> nat list \<Rightarrow> bool" where
  "scanned limit toChannel toPdo \<longleftrightarrow> length toChannel = 256 \<and> distinct toPdo \<and> set toPdo \<subseteq> {..<256} \<and>
     length toPdo \<le> limit \<and> (\<forall>i < length toPdo. toChannel ! (toPdo ! i) = i)"

lemma scanned_next:
  assumes "scanned limit toChannel toPdo" and "p \<notin> set toPdo" and "p < 256" and "length toPdo + 1 \<le> limit"
  shows "scanned limit (toChannel[p := length toPdo]) (toPdo @ [p])"
  using assms by (auto simp: scanned_def nth_append nth_list_update)

lemma scanPdos_ok:
  "scanned limit toChannel toPdo \<Longrightarrow> distinct (toPdo @ pdoIds) \<Longrightarrow> set pdoIds \<subseteq> {..<256} \<Longrightarrow>
     scanPdos OD base limit tooMany pdoIds toChannel toPdo = (ret, toChannel', toPdo') \<Longrightarrow>
     scanned limit toChannel' toPdo'"
proof (induction pdoIds arbitrary: toChannel toPdo)
  case (Cons p pdoIds)
  obtain r nodeId where rd: "odRead OD (base + p) 0x01 = (r, nodeId)" by (cases "odRead OD (base + p) 0x01")
  consider (skip) "r \<in> {kErrorObdIndexNotExist, kErrorObdSubindexNotExist, kErrorObdIllegalPart}"
    | (stop) "r \<notin> {kErrorObdIndexNotExist, kErrorObdSubindexNotExist, kErrorObdIllegalPart}"
      "r \<noteq> kErrorOk \<or> limit < length toPdo + 1"
    | (take) "r = kErrorOk" "length toPdo + 1 \<le> limit" by fastforce
  then show ?case
  proof cases
    case skip
    with Cons.prems rd have "scanPdos OD base limit tooMany pdoIds toChannel toPdo = (ret, toChannel', toPdo')" by simp
    from Cons.IH [OF Cons.prems(1) _ _ this] Cons.prems(2, 3) show ?thesis by simp
  next
    case stop
    then show ?thesis using Cons.prems rd by (auto split: if_splits)
  next
    case take
    with Cons.prems(4) rd have e: "scanPdos OD base limit tooMany pdoIds (toChannel[p := length toPdo]) (toPdo @ [p]) =
        (ret, toChannel', toPdo')" by simp
    from Cons.IH [OF scanned_next [OF Cons.prems(1)] _ _ e] Cons.prems(2, 3) take(2) show ?thesis by simp
  qed
qed simp

lemma scanned_start: "scanned limit (replicate 256 0) []"
  by (simp add: scanned_def)

lemma objects_set [simp]:
  "objects d (set_objects d' t s) = (if d = d' then t else objects d s)"
  "pdouChannels (set_objects d t s) = pdouChannels s" "pdouOuts (set_objects d t s) = pdouOuts s"
  "aPdoIdToChannelIdRx (set_objects d t s) = aPdoIdToChannelIdRx s"
  "aPdoIdToChannelIdTx (set_objects d t s) = aPdoIdToChannelIdTx s"
  "objects d (s\<lparr>pdouChannels := c\<rparr>) = objects d s"
  "objects d (s\<lparr>fAllocated := b\<rparr>) = objects d s" "objects d (s\<lparr>pdouRunning := b\<rparr>) = objects d s"
  "objects d (s\<lparr>aPdoIdToChannelIdRx := xs\<rparr>) = objects d s" "objects d (s\<lparr>aPdoIdToChannelIdTx := xs\<rparr>) = objects d s"
  "objects d (s\<lparr>pdouOuts := outs\<rparr>) = objects d s"
  by (cases d; cases d'; simp add: objects_def set_objects_def)+

lemma allocateDirection_ok:
  assumes env: "user_env_ok E" and ok: "tables_ok s"
  shows "\<exists>s'. allocateDirection E d n s = Some (kErrorOk, s') \<and> tables_ok s' \<and> setup_count d (pdouChannels s') = n \<and>
     list_all disabled (chan_list d (pdouChannels s')) \<and>
     (\<forall>d'. d' \<noteq> d \<longrightarrow> setup_count d' (pdouChannels s') = setup_count d' (pdouChannels s) \<and>
        chan_list d' (pdouChannels s') = chan_list d' (pdouChannels s)) \<and>
     pdouOuts s' = pdouOuts s \<and> aPdoIdToChannelIdRx s' = aPdoIdToChannelIdRx s \<and> aPdoIdToChannelIdTx s' = aPdoIdToChannelIdTx s"
proof -
  note T = tables_okD [OF ok]
  obtain t where t: "mallocChannels E n = Some t" "length t = n" using env unfolding user_env_ok_def by blast
  obtain ob where ob: "mallocObjects E (n * D_PDO_ChannelObjects) = Some ob" "length ob = n * D_PDO_ChannelObjects"
    using env unfolding user_env_ok_def by blast
  obtain c1 where c1: "allocChannels (mallocChannels E) d n (pdouChannels s) = (kErrorOk, c1)" "setup_ok c1" "setup_count d c1 = n"
    "\<And>d'. d' \<noteq> d \<Longrightarrow> setup_count d' c1 = setup_count d' (pdouChannels s) \<and> chan_list d' c1 = chan_list d' (pdouChannels s)"
    using alloc_ok [where alloc = "mallocChannels E" and d = d, OF T(1) t] by blast
  obtain c2 where c2: "disablePdoChannels d n c1 = Some c2" "setup_ok c2" "\<And>d'. setup_count d' c2 = setup_count d' c1"
    "list_all disabled (chan_list d c2)" "\<And>d'. d' \<noteq> d \<Longrightarrow> chan_list d' c2 = chan_list d' c1"
    using disable_ok [OF c1(2), of d] c1(3) by blast
  define s1 where "s1 = (if setup_count d (pdouChannels s) = n then s
    else if n = 0 then set_objects d None (s\<lparr>pdouChannels := c1\<rparr>) else set_objects d (Some ob) (s\<lparr>pdouChannels := c1\<rparr>))"
  have twice: "set_objects d u (set_objects d v s) = set_objects d u s" for u v and s :: tPdouInstance
    by (cases d) (simp_all add: set_objects_def)
  have keep: "setup_count d (pdouChannels s) = n \<Longrightarrow> pdouChannels s = c1" using c1(1) by (simp add: allocChannels_def)
  then have p1: "pdouChannels s1 = c1" by (simp add: s1_def)
  have a: "allocateDirection E d n s = Some (kErrorOk, s1\<lparr>pdouChannels := c2\<rparr>)"
    using c1(1) c2(1) ob(1) keep by (auto simp: allocateDirection_def s1_def twice)
  have "\<exists>t. objects d' s1 = Some t \<and> length t = setup_count d' c1 * D_PDO_ChannelObjects" if "setup_count d' c1 \<noteq> 0" for d'
  proof (cases "d' = d")
    case True
    with that ob(2) c1(3) T(2) [of 0 d] show ?thesis by (auto simp: s1_def)
  next
    case False
    with that c1(4) T(2) [of 0 d'] show ?thesis by (auto simp: s1_def)
  qed
  with c2(2, 3) p1 have "tables_ok (s1\<lparr>pdouChannels := c2\<rparr>)" by (auto simp: tables_ok_def)
  then show ?thesis using a c1 c2 by (auto simp: s1_def)
qed

lemma kernel_alloc:
  assumes env: "kernel_env_ok E" and ok: "setup_ok (pdokChannels k)"
  shows "\<exists>k'. pdok_allocChannelMem E n m k = Some (kErrorOk, k') \<and> setup_ok (pdokChannels k') \<and>
     setup_count Rx (pdokChannels k') = n \<and> setup_count Tx (pdokChannels k') = m"
proof -
  obtain t u where t: "pdokMalloc E n = Some t" "length t = n" "pdokMalloc E m = Some u" "length u = m"
    using env unfolding kernel_env_ok_def by metis
  let ?k = "pdok_log (DllkDeleteNode C_ADR_BROADCAST) k"
  have call: "pdok_call E (DllkDeleteNode C_ADR_BROADCAST) k = (kErrorOk, ?k)"
    using env by (simp add: pdok_call_def kernel_env_ok_def)
  have ok': "setup_ok (pdokChannels ?k)" using ok by (simp add: pdok_log_def)
  from alloc_ok [where alloc = "pdokMalloc E" and d = Rx, OF ok' t(1, 2)] obtain c1 where
    c1: "allocChannels (pdokMalloc E) Rx n (pdokChannels ?k) = (kErrorOk, c1)" "setup_ok c1" "setup_count Rx c1 = n" by blast
  from disable_ok [OF c1(2), of Rx] obtain c2 where
    c2: "disablePdoChannels Rx (setup_count Rx c1) c1 = Some c2" "setup_ok c2" "setup_count Rx c2 = n" using c1(3) by auto
  from alloc_ok [where alloc = "pdokMalloc E" and d = Tx, OF c2(2) t(3, 4)] obtain c3 where
    c3: "allocChannels (pdokMalloc E) Tx m c2 = (kErrorOk, c3)" "setup_ok c3" "setup_count Tx c3 = m" "setup_count Rx c3 = n"
    using c2(3) by auto
  from disable_ok [OF c3(2), of Tx] obtain c4 where
    c4: "disablePdoChannels Tx (setup_count Tx c3) c3 = Some c4" "setup_ok c4" "setup_count Rx c4 = n" "setup_count Tx c4 = m"
    using c3(3, 4) by auto
  show ?thesis using call c1 c2 c3 c4 by (simp add: pdok_allocChannelMem_def)
qed

section \<open>The whole configuration\<close>

text \<open>The layout that a table of channels gives.\<close>

definition conf_of :: "tPdoChannelSetup \<Rightarrow> pdo_conf" where
  "conf_of c = (map pdoSize (chan_list Rx c), map pdoSize (chan_list Tx c))"

lemma layout_conf_of: "setup_ok c \<Longrightarrow> layout_ok (conf_of c) c"
  by (auto simp: layout_ok_def conf_of_def chan_sizes_def split: pdo_dir.split)

lemma calcPdoMemSize_ok:
  "setup_ok c \<Longrightarrow> calcPdoMemSize c = Some (sum_list (fst (conf_of c)), sum_list (snd (conf_of c)))"
  by (simp add: calcPdoMemSize_def channel_sizes_ok conf_of_def)

lemma kernel_setup:
  assumes env: "kernel_env_ok E" and ok: "setup_ok (pdokChannels k)"
  defines "c \<equiv> conf_of (pdokChannels k)"
  shows "\<exists>k'. pdok_setupPdoBuffers E (sum_list (fst c)) (sum_list (snd c)) k = Some (kErrorOk, k') \<and>
     pdokRunning k' \<and> pdokChannels k' = pdokChannels k \<and>
     (\<exists>m. pdoMem k' = Some m \<and> holds_values c (zero_registers c) m)"
proof -
  have s: "channel_sizes Rx (pdokChannels k) = Some (fst c)" "channel_sizes Tx (pdokChannels k) = Some (snd c)"
    using channel_sizes_ok [OF ok] by (simp_all add: c_def conf_of_def)
  obtain m where m: "pdokcal_initPdoMem True (fst c) (snd c) (sum_list (fst c)) (sum_list (snd c)) = (kErrorOk, Some m)"
    by (simp add: pdokcal_initPdoMem_def)
  have "holds_values c (zero_registers c) m"
    using init_holds [OF _ m] by (simp add: total_size_def)
  moreover have "pdokAllocMem E" using env by (simp add: kernel_env_ok_def)
  ultimately show ?thesis using s m by (auto simp: pdok_setupPdoBuffers_def pdok_log_def Let_def)
qed

lemma in_step_ready:
  assumes st: "in_step C s k" and all: "\<And>d ch. ch < setup_count d (pdouChannels s) \<Longrightarrow> (d, ch) \<in> C"
  shows "pdokChannels k = pdouChannels s" "setup_ok (pdouChannels s)" "mapping_ok s"
proof -
  have T: "tables_ok s" "parts_ok s" "setup_ok (pdokChannels k)" using st by (simp_all add: in_step_def)
  note ok = tables_okD(1) [OF T(1)]
  show "setup_ok (pdouChannels s)" "mapping_ok s" using ok parts_ok_mapping [OF T(1, 2)] by simp_all
  show "pdokChannels k = pdouChannels s"
  proof (rule setup_ok_eqI [OF T(3) ok], rule nth_equalityI)
    fix d
    have n: "setup_count d (pdokChannels k) = setup_count d (pdouChannels s)" using st by (simp add: in_step_def)
    then show "length (chan_list d (pdokChannels k)) = length (chan_list d (pdouChannels s))"
      using setup_okD(1) [OF T(3)] setup_okD(1) [OF ok] by simp
    show "chan_list d (pdokChannels k) ! i = chan_list d (pdouChannels s) ! i"
      if "i < length (chan_list d (pdokChannels k))" for i
      using that st all [of i d] n setup_okD(1) [OF T(3), of d] by (auto simp: in_step_def)
  qed
qed

lemma scan_channel:
  assumes "scanned limit toChannel toPdo" and "i < length toPdo"
  shows "toPdo ! i < 256" "toChannel ! (toPdo ! i) = i" "length toChannel = 256"
  using assms nth_mem by (auto simp: scanned_def)

lemma tables_ok_simps [simp]:
  "tables_ok (s\<lparr>aPdoIdToChannelIdRx := xs\<rparr>) = tables_ok s" "tables_ok (s\<lparr>aPdoIdToChannelIdTx := xs\<rparr>) = tables_ok s"
  "tables_ok (s\<lparr>fAllocated := b\<rparr>) = tables_ok s" "tables_ok (s\<lparr>pdouRunning := b\<rparr>) = tables_ok s"
  "tables_ok (s\<lparr>pdouOuts := outs\<rparr>) = tables_ok s"
  by (simp_all add: tables_ok_def)

lemma all_disabled_parts:
  assumes "setup_ok (pdouChannels s)" and "\<And>d. list_all disabled (chan_list d (pdouChannels s))"
  shows "parts_ok s"
  using assms setup_okD(1) [OF assms(1)] by (simp add: parts_ok_def part_ok_def list_all_length)

text \<open>The channel tables are allocated in both layers: they are in step, with no channel configured.\<close>

lemma allocate_in_step:
  assumes env: "user_env_ok EU" "kernel_env_ok EK" and ok: "tables_ok s" "setup_ok (pdokChannels k)"
  shows "\<exists>s1 k1. allocatePdoChannels EU n m s = Some (kErrorOk, s1) \<and>
     pdok_events EK deferred [PdokAlloc n m] k = Some k1 \<and> in_step {} s1 k1 \<and>
     setup_count Rx (pdouChannels s1) = n \<and> setup_count Tx (pdouChannels s1) = m \<and> pdouOuts s1 = pdouOuts s \<and>
     aPdoIdToChannelIdRx s1 = aPdoIdToChannelIdRx s \<and> aPdoIdToChannelIdTx s1 = aPdoIdToChannelIdTx s"
proof -
  from allocateDirection_ok [OF env(1) ok(1), of Rx n] obtain s0 where
    s0: "allocateDirection EU Rx n s = Some (kErrorOk, s0)" "tables_ok s0" "setup_count Rx (pdouChannels s0) = n"
      "list_all disabled (chan_list Rx (pdouChannels s0))" "pdouOuts s0 = pdouOuts s"
      "aPdoIdToChannelIdRx s0 = aPdoIdToChannelIdRx s" "aPdoIdToChannelIdTx s0 = aPdoIdToChannelIdTx s" by blast
  from allocateDirection_ok [OF env(1) s0(2), of Tx m] obtain s1 where
    s1: "allocateDirection EU Tx m s0 = Some (kErrorOk, s1)" "tables_ok s1" "setup_count Tx (pdouChannels s1) = m"
      "list_all disabled (chan_list Tx (pdouChannels s1))" "setup_count Rx (pdouChannels s1) = n"
      "list_all disabled (chan_list Rx (pdouChannels s1))" "pdouOuts s1 = pdouOuts s0"
      "aPdoIdToChannelIdRx s1 = aPdoIdToChannelIdRx s0" "aPdoIdToChannelIdTx s1 = aPdoIdToChannelIdTx s0"
    using s0(3, 4) by auto
  from kernel_alloc [OF env(2) ok(2), of n m] obtain k1 where
    k1: "pdok_allocChannelMem EK n m k = Some (kErrorOk, k1)" "setup_ok (pdokChannels k1)"
      "setup_count Rx (pdokChannels k1) = n" "setup_count Tx (pdokChannels k1) = m" by blast
  have d: "list_all disabled (chan_list d (pdouChannels s1))" for d using s1(4, 6) by (cases d) simp_all
  have "setup_count d (pdokChannels k1) = setup_count d (pdouChannels s1)" for d using s1(3, 5) k1(3, 4) by (cases d) simp_all
  with s1(2) k1(2) all_disabled_parts [OF tables_okD(1) [OF s1(2)] d] have "in_step {} s1 k1" by (simp add: in_step_def)
  with s0 s1 k1(1) show ?thesis by (simp add: allocatePdoChannels_def pdokcal_process_def)
qed

text \<open>The channels of the PDOs of a scan are all channels of the direction.\<close>

lemma rx_channels:
  assumes sc: "scanned limit (aPdoIdToChannelIdRx s) pdos" and n: "setup_count Rx (pdouChannels s) = length pdos"
  shows "\<forall>p \<in> set pdos. p < 256 \<and> (\<exists>ch < setup_count Rx (pdouChannels s). getPdoChannelId mn p False s = Some ch)"
    and "ch < setup_count Rx (pdouChannels s) \<Longrightarrow> \<exists>p. p \<in> set pdos \<and> getPdoChannelId mn p False s = Some ch"
proof -
  have at: "getPdoChannelId mn (pdos ! i) False s = Some i" if "i < length pdos" for i
    using scan_channel [OF sc that] by (simp add: getPdoChannelId_def)
  show "\<forall>p \<in> set pdos. p < 256 \<and> (\<exists>ch < setup_count Rx (pdouChannels s). getPdoChannelId mn p False s = Some ch)"
    using at scan_channel(1) [OF sc] n by (auto simp: in_set_conv_nth)
  show "\<exists>p. p \<in> set pdos \<and> getPdoChannelId mn p False s = Some ch" if "ch < setup_count Rx (pdouChannels s)"
    using at [of ch] that n nth_mem [of ch pdos] by metis
qed

lemma tx_channels:
  assumes sc: "scanned (D_PDO_TPDOChannels_U16 mn) toChannel pdos" and n: "setup_count Tx (pdouChannels s) = length pdos"
    and t: "mn \<Longrightarrow> aPdoIdToChannelIdTx s = toChannel"
  shows "\<forall>p \<in> set pdos. p < 256 \<and> (\<exists>ch < setup_count Tx (pdouChannels s). getPdoChannelId mn p True s = Some ch)"
    and "ch < setup_count Tx (pdouChannels s) \<Longrightarrow> \<exists>p. p \<in> set pdos \<and> getPdoChannelId mn p True s = Some ch"
proof -
  have at: "getPdoChannelId mn (pdos ! i) True s = Some i" if i: "i < length pdos" for i
  proof (cases mn)
    case True
    then show ?thesis using scan_channel [OF sc i] t by (simp add: getPdoChannelId_def)
  next
    case False
    then have "length pdos \<le> 1" using sc by (simp add: scanned_def D_PDO_TPDOChannels_U16_def)
    with i False show ?thesis by (simp add: getPdoChannelId_def)
  qed
  show "\<forall>p \<in> set pdos. p < 256 \<and> (\<exists>ch < setup_count Tx (pdouChannels s). getPdoChannelId mn p True s = Some ch)"
    using at scan_channel(1) [OF sc] n by (auto simp: in_set_conv_nth)
  show "\<exists>p. p \<in> set pdos \<and> getPdoChannelId mn p True s = Some ch" if "ch < setup_count Tx (pdouChannels s)"
    using at [of ch] that n nth_mem [of ch pdos] by metis
qed

definition ready_after ::
  "pdok_env \<Rightarrow> bool \<Rightarrow> tPdouInstance \<Rightarrow> tPdokInstance \<Rightarrow> tPdouInstance \<Rightarrow> bool" where
  "ready_after E deferred s k s' \<longleftrightarrow> (\<exists>outs k' c. pdouOuts s' = pdouOuts s @ outs \<and>
     pdok_events E deferred (posts outs) k = Some k' \<and> pdo_ready c (zero_registers c) (s'\<lparr>pdouRunning := True\<rparr>) k')"

text \<open>The end of the configuration, once all channels are in step.\<close>

lemma setup_ready:
  assumes env: "kernel_env_ok EK" and st: "in_step C s k" and all: "\<And>d ch. ch < setup_count d (pdouChannels s) \<Longrightarrow> (d, ch) \<in> C"
    and s': "s' = s\<lparr>pdouOuts := pdouOuts s @ outs\<rparr>" "posts outs = [PdokSetupPdoBuf rxSize txSize]"
    and sz: "calcPdoMemSize (pdouChannels s) = Some (rxSize, txSize)"
  shows "ready_after EK deferred s k s'"
proof -
  note R = in_step_ready [OF st all]
  from kernel_setup [OF env, of k] R(1, 2) obtain k' m where
    k': "pdok_setupPdoBuffers EK rxSize txSize k = Some (kErrorOk, k')" "pdokRunning k'" "pdokChannels k' = pdouChannels s"
      "pdoMem k' = Some m" "holds_values (conf_of (pdouChannels s)) (zero_registers (conf_of (pdouChannels s))) m"
    using sz calcPdoMemSize_ok [OF R(2)] by auto
  have mp: "mapping_ok (s'\<lparr>pdouRunning := True\<rparr>) = mapping_ok s"
    by (simp add: s'(1) mapping_ok_def chan_objs_def channel_objects_def)
  have "pdo_ready (conf_of (pdouChannels s)) (zero_registers (conf_of (pdouChannels s))) (s'\<lparr>pdouRunning := True\<rparr>) k'"
    using k' R layout_conf_of [OF R(2)] mp by (simp add: pdo_ready_def) (simp add: s'(1))
  then show ?thesis
    unfolding ready_after_def using s' k'(1)
    by (intro exI [of _ outs] exI [of _ k'] exI [of _ "conf_of (pdouChannels s)"]) (simp add: pdokcal_process_def)
qed

lemma configureAllPdos_ready:
  assumes env: "user_env_ok EU" "kernel_env_ok EK" "od_sizes OD" and ok: "tables_ok s" "setup_ok (pdokChannels k)"
  shows "\<exists>ret s'. configureAllPdos mn EU OD junk s = Some (ret, s') \<and> (ret = kErrorOk \<longrightarrow> ready_after EK deferred s k s')"
proof -
  obtain ret1 rxTo rxPdos where rx: "scanPdos OD PDOU_OBD_IDX_RX_COMM_PARAM D_PDO_RPDOChannels_U16
      kErrorPdoTooManyPdos [0..<PDOU_MAX_PDO_OBJECTS] (replicate (PDOU_PDO_ID_MASK + 1) 0) [] = (ret1, rxTo, rxPdos)"
    by (metis prod_cases3)
  obtain ret2 txTo txPdos where tx: "scanPdos OD PDOU_OBD_IDX_TX_COMM_PARAM (D_PDO_TPDOChannels_U16 mn)
      kErrorPdoTooManyTxPdos [0..<PDOU_MAX_PDO_OBJECTS] (replicate (PDOU_PDO_ID_MASK + 1) 0) [] = (ret2, txTo, txPdos)"
    by (metis prod_cases3)
  have sc: "scanned D_PDO_RPDOChannels_U16 rxTo rxPdos" "scanned (D_PDO_TPDOChannels_U16 mn) txTo txPdos"
    using scanPdos_ok [OF scanned_start _ _ rx [simplified]] scanPdos_ok [OF scanned_start _ _ tx [simplified]]
    by (simp_all add: atLeast0LessThan)
  let ?s1 = "s\<lparr>aPdoIdToChannelIdRx := rxTo\<rparr>"
  let ?s2 = "if mn then ?s1\<lparr>aPdoIdToChannelIdTx := txTo\<rparr> else ?s1"
  have t1: "setupRxPdoChannelTables OD s = (ret1, rxPdos, ?s1)" using rx by (simp add: setupRxPdoChannelTables_def)
  have t2: "setupTxPdoChannelTables mn OD ?s1 = (ret2, txPdos, ?s2)" using tx by (simp add: setupTxPdoChannelTables_def)
  have "tables_ok ?s2" using ok(1) by simp
  from allocate_in_step [OF env(1, 2) this ok(2), of "length rxPdos" "length txPdos" deferred] obtain s3 k3 where
    a: "allocatePdoChannels EU (length rxPdos) (length txPdos) ?s2 = Some (kErrorOk, s3)"
      "pdok_events EK deferred [PdokAlloc (length rxPdos) (length txPdos)] k = Some k3" "in_step {} s3 k3"
      "setup_count Rx (pdouChannels s3) = length rxPdos" "setup_count Tx (pdouChannels s3) = length txPdos"
      "pdouOuts s3 = pdouOuts s" "aPdoIdToChannelIdRx s3 = rxTo" "mn \<Longrightarrow> aPdoIdToChannelIdTx s3 = txTo" by auto
  let ?o4 = "[PostPdok (PdokAlloc (length rxPdos) (length txPdos))]"
  let ?s4 = "s3\<lparr>pdouOuts := pdouOuts s @ ?o4, fAllocated := True\<rparr>"
  have p: "pdoucal_postPdokChannelAlloc EU (length rxPdos) (length txPdos) s3 = (kErrorOk, s3\<lparr>pdouOuts := pdouOuts s @ ?o4\<rparr>)"
    using env(1) a(6) by (simp add: pdoucal_postPdokChannelAlloc_def pdou_call_def pdou_log_def user_env_ok_def)
  have st4: "in_step {} ?s4 k3" using a(3) by (simp add: in_step_def parts_ok_def)
  have k3: "pdok_events EK deferred (posts ?o4) k = Some k3" using a(2) by simp
  show ?thesis
  proof (cases "ret1 = kErrorOk \<and> ret2 = kErrorOk")
    case False
    then show ?thesis using t1 t2 by (auto simp: configureAllPdos_def Let_def)
  next
    case ret: True
    have cs: "configureAllPdos mn EU OD junk s = do {
        (ret, abortCode, s) \<leftarrow> checkAndConfigurePdos mn EU OD junk PDOU_OBD_IDX_RX_MAPP_PARAM rxPdos 0 kErrorOk ?s4;
        if ret \<noteq> kErrorOk then Some (ret, s)
        else do {
          (ret, abortCode, s) \<leftarrow> checkAndConfigurePdos mn EU OD junk PDOU_OBD_IDX_TX_MAPP_PARAM txPdos abortCode kErrorOk s;
          if ret \<noteq> kErrorOk then Some (ret, s)
          else do {
            (rxSize, txSize) \<leftarrow> calcPdoMemSize (pdouChannels s);
            let (_, s) = pdoucal_postSetupPdoBuffers EU rxSize txSize s;
            Some (pdou_call EU (PdoucalInitPdoMem rxSize txSize) (pdou_log (TargetMsleep 500) s))
          }
        }
      }" using ret t1 t2 a(1) p by (simp add: configureAllPdos_def Let_def)
    have c4: "scanned D_PDO_RPDOChannels_U16 (aPdoIdToChannelIdRx ?s4) rxPdos" "setup_count Rx (pdouChannels ?s4) = length rxPdos"
      using sc(1) a(4, 7) by simp_all
    note R = rx_channels [OF c4]
    from checkAndConfigurePdos_configures [OF env, of PDOU_OBD_IDX_RX_MAPP_PARAM False, OF _ st4, of rxPdos mn deferred junk 0] R(1)
    obtain ret5 ab5 s5 where c5: "checkAndConfigurePdos mn EU OD junk PDOU_OBD_IDX_RX_MAPP_PARAM rxPdos 0 kErrorOk ?s4 = Some (ret5, ab5, s5)"
      "ret5 = kErrorOk \<Longrightarrow> brings_in_step EK deferred {(Rx, ch) | ch p. p \<in> set rxPdos \<and> getPdoChannelId mn p False ?s4 = Some ch} ?s4 k3 s5"
      by (auto simp: configures_def)
    show ?thesis
    proof (cases "ret5 = kErrorOk")
      case False
      then show ?thesis using cs c5(1) by simp
    next
      case True
      let ?C5 = "{(Rx, ch) | ch p. p \<in> set rxPdos \<and> getPdoChannelId mn p False ?s4 = Some ch}"
      from c5(2) [OF True] obtain o5 k5 where s5: "pdouOuts s5 = pdouOuts ?s4 @ o5" "pdok_events EK deferred (posts o5) k3 = Some k5"
        "in_step ?C5 s5 k5" "same_frame ?s4 s5" by (auto simp: brings_in_step_def)
      have f5: "fAllocated s5" "setup_count d (pdouChannels s5) = setup_count d (pdouChannels ?s4)"
        "mn \<Longrightarrow> aPdoIdToChannelIdTx s5 = txTo" for d using s5(4) a(8) by (simp_all add: same_frame_def)
      have n5: "setup_count Tx (pdouChannels s5) = length txPdos" using f5(2) a(5) by simp
      note X = tx_channels [OF sc(2) n5 f5(3)]
      let ?C6 = "?C5 \<union> {(Tx, ch) | ch p. p \<in> set txPdos \<and> getPdoChannelId mn p True s5 = Some ch}"
      from checkAndConfigurePdos_configures [OF env, of PDOU_OBD_IDX_TX_MAPP_PARAM True, OF _ s5(3) f5(1), of txPdos mn deferred junk ab5] X(1)
      obtain ret6 ab6 s6 where c6: "checkAndConfigurePdos mn EU OD junk PDOU_OBD_IDX_TX_MAPP_PARAM txPdos ab5 kErrorOk s5 = Some (ret6, ab6, s6)"
        "ret6 = kErrorOk \<Longrightarrow> brings_in_step EK deferred ?C6 s5 k5 s6"
        by (auto simp: configures_def)
      show ?thesis
      proof (cases "ret6 = kErrorOk")
        case False
        then show ?thesis using cs c5(1) c6(1) True by simp
      next
        case ret6: True
        from c6(2) [OF this] obtain o6 k6 where s6: "pdouOuts s6 = pdouOuts s5 @ o6" "pdok_events EK deferred (posts o6) k5 = Some k6"
          "in_step ?C6 s6 k6" "same_frame s5 s6" by (auto simp: brings_in_step_def)
        have all: "(d, ch) \<in> ?C6" if "ch < setup_count d (pdouChannels s6)" for d ch
        proof (cases d)
          case Rx
          then have "ch < setup_count Rx (pdouChannels ?s4)" using that s6(4) f5(2) by (simp add: same_frame_def)
          from R(2) [OF this, of mn] Rx show ?thesis by auto
        next
          case Tx
          then have "ch < setup_count Tx (pdouChannels s5)" using that s6(4) by (simp add: same_frame_def)
          from X(2) [OF _ this] Tx show ?thesis by auto
        qed
        have "setup_ok (pdouChannels s6)" using in_step_ready(2) [OF s6(3) all] .
        from calcPdoMemSize_ok [OF this] obtain rxSize txSize where sz: "calcPdoMemSize (pdouChannels s6) = Some (rxSize, txSize)" by blast
        let ?o7 = "[PostPdok (PdokSetupPdoBuf rxSize txSize), TargetMsleep 500, PdoucalInitPdoMem rxSize txSize]"
        let ?s7 = "s6\<lparr>pdouOuts := pdouOuts s6 @ ?o7\<rparr>"
        obtain ret7 where c7: "configureAllPdos mn EU OD junk s = Some (ret7, ?s7)"
          using cs c5(1) c6(1) True ret6 sz
          by (simp add: pdoucal_postSetupPdoBuffers_def pdou_call_def pdou_log_def)
        have o7: "posts ?o7 = [PdokSetupPdoBuf rxSize txSize]" by (simp only: posts_simps)
        have "ready_after EK deferred s6 k6 ?s7"
          by (rule setup_ready [OF env(2) s6(3) all refl o7 sz])
        then obtain o7 k7 c where r: "pdouOuts ?s7 = pdouOuts s6 @ o7" "pdok_events EK deferred (posts o7) k6 = Some k7"
          "pdo_ready c (zero_registers c) (?s7\<lparr>pdouRunning := True\<rparr>) k7" unfolding ready_after_def by blast
        have "pdouOuts ?s7 = pdouOuts s @ (?o4 @ o5 @ o6 @ o7)" using r(1) s5(1) s6(1) by simp
        moreover have "pdok_events EK deferred (posts (?o4 @ o5 @ o6 @ o7)) k = Some k7"
          using k3 s5(2) s6(2) r(2) unfolding posts_simps(6) pdok_events_append by simp
        ultimately have "ready_after EK deferred s k ?s7" unfolding ready_after_def using r(3) by blast
        then show ?thesis using c7 by blast
      qed
    qed
  qed
qed

section \<open>Properties\<close>

text \<open>
  C7: The configuration makes both layers agree. In the NMT state Reset Configuration, whatever the
  object dictionary contains, the user layer never accesses its tables out of range and returns.
  When it returns success, the events that it has posted, processed in their order, bring the kernel
  layer to the same channels and to a shared memory with a slot of the right size for each of them,
  every mapped object lies within the PDO of its channel, and both layers exchange PDOs, all zero.
  The allocations of both layers, the posting of events and the calls of the DLL succeed.
\<close>

theorem pdo_layers_configured:
  assumes "user_env_ok EU" and "kernel_env_ok EK" and "od_sizes OD" and "tables_ok s" and "setup_ok (pdokChannels k)"
  shows "\<exists>ret s'. pdou_cbNmtStateChange mn EU OD junk kNmtGsResetConfiguration s = Some (ret, s') \<and>
     (ret = kErrorOk \<longrightarrow> (\<exists>outs c k'. pdouOuts s' = pdouOuts s @ outs \<and>
        pdok_events EK deferred (posts outs) k = Some k' \<and> pdo_ready c (zero_registers c) s' k'))"
proof -
  let ?s = "s\<lparr>fAllocated := False, pdouRunning := False\<rparr>"
  have "tables_ok ?s" using assms(4) by simp
  from configureAllPdos_ready [OF assms(1-3) this assms(5), of mn junk deferred] obtain ret s' where
    c: "configureAllPdos mn EU OD junk ?s = Some (ret, s')" "ret = kErrorOk \<longrightarrow> ready_after EK deferred ?s k s'" by blast
  show ?thesis
  proof (cases "ret = kErrorOk")
    case False
    with c(1) show ?thesis by (simp add: pdou_cbNmtStateChange_def)
  next
    case True
    with c(2) obtain outs k' c' where "pdouOuts s' = pdouOuts s @ outs" "pdok_events EK deferred (posts outs) k = Some k'"
      "pdo_ready c' (zero_registers c') (s'\<lparr>pdouRunning := True\<rparr>) k'" by (auto simp: ready_after_def)
    with c(1) True show ?thesis
      by (intro exI [of _ kErrorOk] exI [of _ "s'\<lparr>pdouRunning := True\<rparr>"] conjI impI exI [of _ outs] exI [of _ c'] exI [of _ k'])
        (simp_all add: pdou_cbNmtStateChange_def)
  qed
qed

definition example_user_env :: pdou_env where
  "example_user_env = \<lparr>pdouAnswer = \<lambda>_. kErrorOk, mallocChannels = \<lambda>n. Some (replicate n (example_channel 0)),
     mallocObjects = \<lambda>n. Some (replicate n \<lparr>mapVar = 0, bitOffset = 0, byteSizeOrType = 0\<rparr>)\<rparr>"

text \<open>A dictionary with one receive PDO, for node 7, of one 16-bit object.\<close>

definition example_od :: pdou_od where
  "example_od = \<lparr>odRead = \<lambda>index subIndex.
       if index = 0x1400 then (kErrorOk, if subIndex = 1 then 7 else 0x10)
       else if index = 0x1600 then (kErrorOk, if subIndex = 0 then 1 else 0x0010000000012000)
       else if index = 0x1F8D then (kErrorOk, if subIndex = 0 then 254 else 36)
       else (kErrorObdIndexNotExist, 0),
     odType = \<lambda>index subIndex. (kErrorOk, kObdTypeUInt16), odAccess = \<lambda>index subIndex. (kErrorOk, 0x0B),
     odDataSize = \<lambda>index subIndex. 2, odNumerical = \<lambda>index subIndex. (kErrorOk, True),
     odDataPtr = \<lambda>index subIndex. Some 100\<rparr>"

definition example_start :: tPdouInstance where
  "example_start = \<lparr>aPdoIdToChannelIdRx = replicate 256 0, aPdoIdToChannelIdTx = replicate 256 0, pdouChannels = zero_setup,
     paRxObject = None, paTxObject = None, fAllocated = False, pdouRunning = False, pfnCbEventPdoChange = False, pdouOuts = []\<rparr>"

definition example_kernel_start :: tPdokInstance where
  "example_kernel_start = \<lparr>pdokChannels = zero_setup, pdokRunning = False, pdoMem = None, pdokOuts = []\<rparr>"

lemma scanPdos_skip:
  "(\<And>p. p \<in> set pdoIds \<Longrightarrow> fst (odRead OD (base + p) 1) = kErrorObdIndexNotExist) \<Longrightarrow>
     scanPdos OD base limit tooMany pdoIds toChannel toPdo = (kErrorOk, toChannel, toPdo)"
proof (induction pdoIds)
  case (Cons p pdoIds)
  have "fst (odRead OD (base + p) 1) = kErrorObdIndexNotExist" by (rule Cons.prems) simp
  then obtain v where "odRead OD (base + p) 1 = (kErrorObdIndexNotExist, v)" by (cases "odRead OD (base + p) 1") simp
  moreover have "scanPdos OD base limit tooMany pdoIds toChannel toPdo = (kErrorOk, toChannel, toPdo)"
    by (rule Cons.IH) (rule Cons.prems, simp)
  ultimately show ?case by simp
qed simp

lemma zero_setup_ok: "setup_ok zero_setup"
  by (simp add: setup_ok_def zero_setup_def chan_list_def setup_table_def setup_count_def split: pdo_dir.split)

lemma example_scans:
  "setupRxPdoChannelTables example_od s = (kErrorOk, [0], s\<lparr>aPdoIdToChannelIdRx := replicate 256 0\<rparr>)"
  "setupTxPdoChannelTables False example_od s = (kErrorOk, [], s)"
proof -
  have "scanPdos example_od 0x1400 256 tooMany [1..<256] ch [0] = (kErrorOk, ch, [0])" for tooMany ch
    by (rule scanPdos_skip) (simp add: example_od_def)
  moreover have "[0..<256] = 0 # [1..<256 :: nat]" by (simp add: upt_rec)
  moreover have "odRead example_od 0x1400 1 = (kErrorOk, 7)" by (simp add: example_od_def)
  moreover have "(replicate 256 (0 :: nat))[0 := 0] = replicate 256 0" by (simp add: list_update_same_conv)
  ultimately show "setupRxPdoChannelTables example_od s = (kErrorOk, [0], s\<lparr>aPdoIdToChannelIdRx := replicate 256 0\<rparr>)"
    by (simp add: setupRxPdoChannelTables_def)
  have "scanPdos example_od 0x1800 1 tooMany [0..<256] ch [] = (kErrorOk, ch, [])" for tooMany ch
    by (rule scanPdos_skip) (simp add: example_od_def)
  then show "setupTxPdoChannelTables False example_od s = (kErrorOk, [], s)"
    by (simp add: setupTxPdoChannelTables_def D_PDO_TPDOChannels_U16_def)
qed

lemma example_mapping:
  "checkAndSetObjectMapping example_od (word_of_nat 0x0010000000012000) kObdAccWrite ab =
     (kErrorOk, ab, Some (\<lparr>mapVar = 100, bitOffset = 0, byteSizeOrType = 6\<rparr>, 2))"
  by (simp add: checkAndSetObjectMapping_def decodeObjectMapping_def example_od_def mapp_object_def is_string_type_def)

lemma example_configured:
  "\<exists>s'. pdou_cbNmtStateChange False example_user_env example_od 0 kNmtGsResetConfiguration example_start =
     Some (kErrorOk, s') \<and> setup_count Rx (pdouChannels s') = 1"
proof -
  let ?s1 = "example_start\<lparr>fAllocated := False, pdouRunning := False, aPdoIdToChannelIdRx := replicate 256 0\<rparr>"
  obtain s2 where s2: "allocatePdoChannels example_user_env 1 0 ?s1 = Some (kErrorOk, s2)"
    "setup_count Rx (pdouChannels s2) = 1" "setup_count Tx (pdouChannels s2) = 0" "aPdoIdToChannelIdRx s2 = replicate 256 0"
    "paRxObject s2 = Some (replicate 254 \<lparr>mapVar = 0, bitOffset = 0, byteSizeOrType = 0\<rparr>)"
    "pRxPdoChannel (pdouChannels s2) = Some [example_channel 0xFF]" "pfnCbEventPdoChange s2 = False" "pdouRunning s2 = False"
    by (simp add: allocatePdoChannels_def allocateDirection_def example_start_def zero_setup_def setup_count_def allocChannels_def
        set_count_def set_table_def set_objects_def example_user_env_def disablePdoChannels_def setup_table_def example_channel_def)
  have rd: "odRead example_od 0x1600 0 = (kErrorOk, 1)" "odRead example_od 0x1600 1 = (kErrorOk, 0x0010000000012000)"
    "odRead example_od 0x1400 1 = (kErrorOk, 7)" "odRead example_od 0x1400 2 = (kErrorOk, 0x10)"
    "odRead example_od 0x1F8D 0 = (kErrorOk, 254)" "odRead example_od 0x1F8D 7 = (kErrorOk, 36)"
    by (simp_all add: example_od_def)
  have m: "setupMappingObjects example_od 0x1600 1 36 0 tbl ab =
      Some (kErrorOk, ab, tbl[0 := \<lparr>mapVar = 100, bitOffset = 0, byteSizeOrType = 6\<rparr>], 2, 1)" if "tbl \<noteq> []" for tbl ab
    using that rd(2) example_mapping by (simp add: setupMappingObjects_def)
  have mx: "getMaxPdoSize example_od 7 False ab = (kErrorOk, ab, 36)" for ab
    using rd(5, 6) by (simp add: getMaxPdoSize_def)
  have post: "pdou_call example_user_env out s = (kErrorOk, pdou_log out s)" for out s
    by (simp add: pdou_call_def example_user_env_def)
  let ?s3 = "pdou_log (PostPdok (PdokAlloc 1 0)) s2\<lparr>fAllocated := True\<rparr>"
  have ix: "(0x1600 :: nat) AND 0xFF = 0" "(0x1600 :: nat) AND (0xFFFF - 0x0200) = 0x1400"
    by simp_all
  obtain s4 where s4: "checkAndConfigurePdo False example_user_env example_od 0 0x1600 1 0 ?s3 = Some (kErrorOk, 0, s4)"
    "setup_count Rx (pdouChannels s4) = 1" "setup_count Tx (pdouChannels s4) = 0" 
    "setup_table Rx (pdouChannels s4) = Some [\<lparr>chNodeId = 7, pdoSize = 2, mappingVersion = 0x10, mappObjectCount = 1\<rparr>]"
    using s2 rd m mx ix
    by (simp add: checkAndConfigurePdo_def getPdoChannelId_def pdou_log_def enablePdo_def checkPdoValidity_def objects_def
        configurePdoChannel_def pdoucal_postConfigureChannel_def put_channel_def setup_table_def post reportPdoChange_def set_objects_def
        set_table_def setup_count_def)
  show ?thesis
    using s2(1) s4 rd(1)
    by (simp add: pdou_cbNmtStateChange_def configureAllPdos_def example_scans pdoucal_postPdokChannelAlloc_def post
        pdou_log_def calcPdoMemSize_def channel_sizes_def pdoucal_postSetupPdoBuffers_def)
qed

theorem pdo_layers_configured_witness:
  "\<exists>s' c k'. pdou_cbNmtStateChange False example_user_env example_od 0 kNmtGsResetConfiguration example_start =
       Some (kErrorOk, s') \<and> setup_count Rx (pdouChannels s') = 1 \<and>
     pdok_events example_env False (posts (pdouOuts s')) example_kernel_start = Some k' \<and>
     pdo_ready c (zero_registers c) s' k'"
proof -
  have "user_env_ok example_user_env" "kernel_env_ok example_env"
    by (simp_all add: user_env_ok_def kernel_env_ok_def example_user_env_def example_env_def)
  moreover have "od_sizes example_od" by (simp add: od_sizes_def example_od_def)
  moreover have "tables_ok example_start"
    using zero_setup_ok by (simp add: tables_ok_def example_start_def)
      (simp add: zero_setup_def setup_count_def split: pdo_dir.split)
  moreover have "setup_ok (pdokChannels example_kernel_start)" using zero_setup_ok by (simp add: example_kernel_start_def)
  ultimately obtain ret s' where s': "pdou_cbNmtStateChange False example_user_env example_od 0 kNmtGsResetConfiguration example_start = Some (ret, s')"
    "ret = kErrorOk \<longrightarrow> (\<exists>outs c k'. pdouOuts s' = pdouOuts example_start @ outs \<and>
        pdok_events example_env False (posts outs) example_kernel_start = Some k' \<and> pdo_ready c (zero_registers c) s' k')"
    using pdo_layers_configured [of example_user_env example_env example_od example_start example_kernel_start False 0 False] by blast
  moreover have "pdouOuts example_start = []" by (simp add: example_start_def)
  ultimately show ?thesis using example_configured by auto
qed

section \<open>Changes at run time\<close>

text \<open>
  The operations of the user layer other than Reset Configuration, each with the dictionary that
  it sees: accesses of the dictionary and changes of the NMT state.
\<close>

datatype pdou_op = ObdAccess pdou_od bool nat nat nat | NmtChange pdou_od tNmtState

definition pdou_step :: "bool \<Rightarrow> pdou_env \<Rightarrow> byte \<Rightarrow> pdou_op \<Rightarrow> tPdouInstance \<Rightarrow> tPdouInstance option" where
  "pdou_step mn E junk event s =
     (case event of
        ObdAccess OD preWrite index subIndex value \<Rightarrow>
          map_option (\<lambda>(ret, abortCode, s). s) (pdou_cbObdAccess mn E OD junk preWrite index subIndex value s)
      | NmtChange OD nmtState \<Rightarrow> map_option snd (pdou_cbNmtStateChange mn E OD junk nmtState s))"

definition resets_configuration :: "pdou_op \<Rightarrow> bool" where
  "resets_configuration event \<longleftrightarrow> (case event of ObdAccess _ _ _ _ _ \<Rightarrow> False | NmtChange _ st \<Rightarrow> st = kNmtGsResetConfiguration)"

lemma set_objects_running [simp]: "pdouRunning (set_objects d t s) = pdouRunning s"
  by (simp add: set_objects_def split: pdo_dir.split)

lemma reportPdoChange_running:
  "reportPdoChange E OD act nodeId idx n tx ret abortCode s = (ret', abortCode', s') \<Longrightarrow> pdouRunning s' = pdouRunning s"
  using reportPdoChange_outs [of E OD act nodeId idx n tx ret abortCode s] by auto

lemma configurePdoChannel_running:
  "configurePdoChannel E conf s = Some (ret, s') \<Longrightarrow> pdouRunning s' = pdouRunning s"
  by (auto simp: configurePdoChannel_def pdoucal_postConfigureChannel_def pdou_call_def pdou_log_def split: if_splits bind_splits)

lemma disablePdo_running:
  "disablePdo E OD nodeId idx tx ch version abortCode s = Some (ret, abortCode', s') \<Longrightarrow> \<not> pdouRunning s'"
  by (auto simp: disablePdo_def dest!: configurePdoChannel_running reportPdoChange_running split: bind_splits)

lemma enablePdo_running:
  "enablePdo E OD nodeId idx tx ch n abortCode s = Some (ret, abortCode', s') \<Longrightarrow> pdouRunning s' = pdouRunning s"
  by (auto simp: enablePdo_def Let_def dest!: configurePdoChannel_running reportPdoChange_running
      split: bind_splits if_splits prod.splits)

lemma checkAndConfigurePdo_running:
  "checkAndConfigurePdo mn E OD junk idx n abortCode s = Some (ret, abortCode', s') \<Longrightarrow> \<not> pdouRunning s \<Longrightarrow> \<not> pdouRunning s'"
  by (auto simp: checkAndConfigurePdo_def Let_def dest!: disablePdo_running enablePdo_running
      split: bind_splits if_splits prod.splits)

lemma disableAllPdos_running:
  "disableAllPdos mn E OD junk idxs abortCode s = Some s' \<Longrightarrow> \<not> pdouRunning s \<Longrightarrow> \<not> pdouRunning s'"
proof (induction mn E OD junk idxs abortCode s rule: disableAllPdos.induct)
  case (2 mn E OD junk idx idxs abortCode s)
  from "2.prems" obtain ret ab s1 where c: "checkAndConfigurePdo mn E OD junk idx 0 abortCode s = Some (ret, ab, s1)"
    "disableAllPdos mn E OD junk idxs ab s1 = Some s'" by (auto split: bind_splits)
  from checkAndConfigurePdo_running [OF c(1) "2.prems"(2)] have "\<not> pdouRunning s1" .
  then show ?case using "2.IH" [OF c(1) refl refl c(2)] by blast
qed simp

lemma pdou_step_running:
  assumes "pdou_step mn E junk event s = Some s'" and "\<not> resets_configuration event" and "\<not> pdouRunning s"
  shows "\<not> pdouRunning s'"
proof (cases event)
  case (ObdAccess OD preWrite index subIndex v)
  with assms show ?thesis
    by (auto simp: pdou_step_def pdou_cbObdAccess_def Let_def dest!: checkAndConfigurePdo_running split: if_splits prod.splits)
next
  case (NmtChange OD st)
  with assms show ?thesis
    by (auto simp: pdou_step_def pdou_cbNmtStateChange_def resets_configuration_def split: if_splits bind_splits)
qed

lemma pdou_run_running:
  "run_steps (pdou_step mn E junk) events s = Some s' \<Longrightarrow> list_all (\<lambda>e. \<not> resets_configuration e) events \<Longrightarrow>
     \<not> pdouRunning s \<Longrightarrow> \<not> pdouRunning s'"
proof (induction events arbitrary: s)
  case (Cons event events)
  then show ?case by (auto dest: pdou_step_running split: option.splits)
qed simp

text \<open>
  C37: Disabling one PDO at run time stops the exchange of all PDOs for good. When the number of
  mapped objects of a PDO is set to 0, the module stops to run, and no access of the dictionary
  (enabling the PDO again with a new mapping included) and no NMT state but Reset Configuration makes
  it run again: from then on both copies of the user layer return success and copy nothing, for
  every channel. The kernel layer is stopped by the event that configures the channel.
\<close>

theorem pdo_disable_stops_exchange:
  assumes env: "user_env_ok E" "kernel_env_ok EK" and st: "pdo_ready c reg s k" and al: "fAllocated s"
    and index: "index AND PDOU_OBD_IDX_MASK \<in> {PDOU_OBD_IDX_RX_MAPP_PARAM, PDOU_OBD_IDX_TX_MAPP_PARAM}"
    and id: "getPdoChannelId mn (index AND PDOU_PDO_ID_MASK) tx s = Some ch" "tx = (PDOU_OBD_IDX_TX_MAPP_PARAM \<le> index)"
    and ch: "ch < setup_count (dir_of tx) (pdouChannels s)"
    and rd: "fst (odRead OD (index AND (0xFFFF - PDOU_OBD_IDX_MAPP_PARAM)) 0x01) = kErrorOk"
  shows "\<exists>s1 outs k1. pdou_step mn E junk (ObdAccess OD True index 0 0) s = Some s1 \<and>
     pdouOuts s1 = pdouOuts s @ outs \<and> pdok_events EK deferred (posts outs) k = Some k1 \<and> \<not> pdokRunning k1 \<and>
     (\<forall>events s2. list_all (\<lambda>e. \<not> resets_configuration e) events \<longrightarrow>
        run_steps (pdou_step mn E junk) events s1 = Some s2 \<longrightarrow>
        (\<forall>m vars. pdou_copyRxPdoToPi s2 m vars = Some (kErrorOk, m, vars) \<and>
           pdou_copyTxPdoFromPi s2 m vars = Some (kErrorOk, m)))"
proof -
  obtain nodeId where nd: "odRead OD (index AND (0xFFFF - PDOU_OBD_IDX_MAPP_PARAM)) 0x01 = (kErrorOk, nodeId)"
    using rd by (metis prod.collapse)
  let ?x = "\<lparr>chNodeId = PDO_INVALID_NODE_ID, pdoSize = 0, mappingVersion = junk, mappObjectCount = 0\<rparr>"
  let ?conf = "\<lparr>confChannelId = ch, confTx = tx, confChannel = ?x\<rparr>"
  let ?s0 = "s\<lparr>pdouRunning := False\<rparr>"
  have T: "setup_ok (pdouChannels s)" "setup_ok (pdokChannels k)" "setup_count d (pdokChannels k) = setup_count d (pdouChannels s)" for d
    using st by (simp_all add: pdo_ready_def layout_ok_def)
  from user_configure [OF env(1), of ?s0 ?conf] T(1) al ch obtain c' where
    c: "configurePdoChannel E ?conf ?s0 = Some (kErrorOk, ?s0\<lparr>pdouChannels := c', pdouOuts := pdouOuts s @ [PostPdok (PdokConfig ?conf)]\<rparr>)"
    by auto
  from reportPdoChange_outs [of E OD False nodeId index 0 tx kErrorOk 0
      "?s0\<lparr>pdouChannels := c', pdouOuts := pdouOuts s @ [PostPdok (PdokConfig ?conf)]\<rparr>"] obtain ret ab outs where
    r: "reportPdoChange E OD False nodeId index 0 tx kErrorOk 0
        (?s0\<lparr>pdouChannels := c', pdouOuts := pdouOuts s @ [PostPdok (PdokConfig ?conf)]\<rparr>) =
        (ret, ab, ?s0\<lparr>pdouChannels := c', pdouOuts := (pdouOuts s @ [PostPdok (PdokConfig ?conf)]) @ outs\<rparr>)"
      "posts outs = []" by auto
  let ?s1 = "?s0\<lparr>pdouChannels := c', pdouOuts := pdouOuts s @ (PostPdok (PdokConfig ?conf) # outs)\<rparr>"
  have "checkAndConfigurePdo mn E OD junk index 0 0 s = Some (ret, ab, ?s1)"
    using id nd c r(1) by (simp add: checkAndConfigurePdo_def disablePdo_def)
  then have s1: "pdou_step mn E junk (ObdAccess OD True index 0 0) s = Some ?s1"
    using index by (auto simp: pdou_step_def pdou_cbObdAccess_def)
  have call: "pdok_call EK out k = (kErrorOk, pdok_log out k)" for out k
    using env(2) by (simp add: pdok_call_def kernel_env_ok_def)
  have k1: "\<exists>k1. pdok_configureChannel EK ?conf k = Some (kErrorOk, k1) \<and> \<not> pdokRunning k1"
    using get_channel_ok [OF T(2), of "dir_of tx" ch] put_channel_ok [OF T(2), of ch "dir_of tx" ?x] ch T(3)
    by (cases tx) (auto simp: pdok_configureChannel_def call pdok_log_def has_filter_def)
  moreover have "\<not> pdouRunning s2" if "list_all (\<lambda>e. \<not> resets_configuration e) events"
      "run_steps (pdou_step mn E junk) events ?s1 = Some s2" for events s2
    using pdou_run_running [OF that(2, 1)] by simp
  then have "pdou_copyRxPdoToPi s2 m vars = Some (kErrorOk, m, vars) \<and> pdou_copyTxPdoFromPi s2 m vars = Some (kErrorOk, m)"
    if "list_all (\<lambda>e. \<not> resets_configuration e) events" "run_steps (pdou_step mn E junk) events ?s1 = Some s2" for events s2 m vars
    using that by (simp add: pdou_copyRxPdoToPi_def pdou_copyTxPdoFromPi_def Let_def)
  ultimately show ?thesis using s1 r(2)
    by (intro exI [of _ ?s1] exI [of _ "PostPdok (PdokConfig ?conf) # outs"]) (auto simp: pdokcal_process_def)
qed

lemma pdo_ready_ids: "pdo_ready c reg (s\<lparr>aPdoIdToChannelIdRx := xs\<rparr>) k = pdo_ready c reg s k"
proof -
  have "channel_objects d ch n (s\<lparr>aPdoIdToChannelIdRx := xs\<rparr>) = channel_objects d ch n s" for d ch n
    by (simp add: channel_objects_def)
  then show ?thesis by (simp add: pdo_ready_def mapping_ok_def chan_objs_def)
qed

theorem pdo_disable_stops_exchange_witness:
  "\<exists>s1 outs k1. pdou_step False example_user_env 0 (ObdAccess example_od True 0x1600 0 0)
       (example_user Rx 7 2 0\<lparr>aPdoIdToChannelIdRx := [0]\<rparr>) = Some s1 \<and>
     pdouOuts s1 = pdouOuts (example_user Rx 7 2 0\<lparr>aPdoIdToChannelIdRx := [0]\<rparr>) @ outs \<and>
     pdok_events example_env False (posts outs) (example_kernel Rx 7) = Some k1 \<and> \<not> pdokRunning k1 \<and>
     (\<forall>events s2. list_all (\<lambda>e. \<not> resets_configuration e) events \<longrightarrow>
        run_steps (pdou_step False example_user_env 0) events s1 = Some s2 \<longrightarrow>
        (\<forall>m vars. pdou_copyRxPdoToPi s2 m vars = Some (kErrorOk, m, vars) \<and>
           pdou_copyTxPdoFromPi s2 m vars = Some (kErrorOk, m)))"
proof (rule pdo_disable_stops_exchange)
  show "user_env_ok example_user_env" "kernel_env_ok example_env"
    by (simp_all add: user_env_ok_def kernel_env_ok_def example_user_env_def example_env_def)
  show "pdo_ready (example_conf Rx) (zero_registers (example_conf Rx)) (example_user Rx 7 2 0\<lparr>aPdoIdToChannelIdRx := [0]\<rparr>) (example_kernel Rx 7)"
    using example_node_ready [of 7 Rx 2 0] by (simp add: pdo_ready_ids)
  show "getPdoChannelId False (0x1600 AND PDOU_PDO_ID_MASK) False (example_user Rx 7 2 0\<lparr>aPdoIdToChannelIdRx := [0]\<rparr>) = Some 0"
    by (simp add: getPdoChannelId_def)
  show "fst (odRead example_od (0x1600 AND (0xFFFF - PDOU_OBD_IDX_MAPP_PARAM)) 0x01) = kErrorOk"
    by (simp add: example_od_def)
qed (simp_all add: example_setup, simp add: example_user_def set_objects_def)

end
