(* ===== verification/Spec2Isabelle.thy ===== *)
theory Spec2Isabelle
  imports Nmtk Dllk_StateMachine Errhndk Circbuf Timeru Sdo_Link Sdo_Transfer Ledu Dllk_Cal Ami_Hosts Pdo_Config
begin

text \<open>
  A verification library for openPOWERLINK, an implementation of the Ethernet POWERLINK protocol
  stack in C (\<^verbatim>\<open>src/stack\<close> of the repository). A POWERLINK network has one managing node (MN),
  which polls the controlled nodes (CN) in a fixed cycle: SoC, a PReq and a PRes for each node,
  SoA, and one asynchronous frame. The stack of a node is cut in two: the kernel layer follows the
  cycle, the user layer configures the node and talks to the application. The layers exchange
  events through queues and process data through shared memory.

  \<^bold>\<open>The parts and how they interact.\<close> The driver tells the DLL which frames arrive. The DLL state
  machine compares them with the cycle and posts what is missing to the kernel error handler. The
  error handler counts, and at a threshold posts an event to the NMT kernel module (or removes a
  node from the cycle, or reports it to the managing node's user layer). The NMT kernel module
  holds the state of the node, and announces each change to the DLL and to the user layer, where,
  among others, the LED module shows it. The events go through circular buffers. Modules of the
  user layer take their timers from one timer module. PDO frames are copied to and from triple
  buffers that both layers share, and all integers in frames are accessed through the abstract
  memory interface. Two nodes configure each other by SDO, whose sequence layer makes a reliable
  connection of unreliable frames, over which the command layer reads and writes objects.

  \<^bold>\<open>Theories.\<close> Every C function is a definition of the same name, unless stated otherwise.

  \<^item> \<open>Oplk_Prelude\<close>: byte memories with checked accesses, 32-bit arithmetic on naturals, runs of
    partial steps, and the locales \<open>safe_machine\<close> (a machine whose steps keep an invariant and are
    always defined), \<open>guarded_machine\<close> (the same, for operations that a condition on the state
    admits) and \<open>fifo_channel\<close> (a bounded queue of messages).
  \<^item> \<open>Oplk_Types\<close>: the enumerations and event structures of \<^verbatim>\<open>stack/include/oplk\<close> (\<^verbatim>\<open>nmt.h\<close>,
    \<^verbatim>\<open>event.h\<close>, \<^verbatim>\<open>dll.h\<close>, \<^verbatim>\<open>errordefs.h\<close>).
  \<^item> \<open>Nmtk\<close> (\<^verbatim>\<open>stack/src/kernel/nmt/nmtk.c\<close>): \<^verbatim>\<open>tNmtkInstance\<close> is a record, each of the 18
    handlers \<^verbatim>\<open>doState...\<close> a function of an event and the instance, \<^verbatim>\<open>nmtk_process\<close> their
    dispatch with the announcement of the new state. Shown: the refinement of the transition
    relation of the specification, safety of all runs, the boot-up handshakes, the change of role
    between CN and MN.
  \<^item> \<open>Dllk_StateMachine\<close> (\<^verbatim>\<open>stack/src/kernel/dll/dllkstatemachine.c\<close> and
    \<^verbatim>\<open>dllk_asyncFrameNotReceived\<close> of \<^verbatim>\<open>dllkframe.c\<close>): the handlers of both roles behind their
    tables, \<^verbatim>\<open>dllk_changeState\<close> around them. Calls of other modules are recorded in order
    (\<open>dllk_outs\<close>) and answered by an arbitrary environment. Shown: safety of all runs, the
    accounting of lost SoC, SoA and PReq frames over cycles, the managing node's cycle and its
    reduced cycle.
  \<^item> \<open>Errhndk\<close> (\<^verbatim>\<open>stack/src/kernel/errhnd/errhndk.c\<close>, \<^verbatim>\<open>errhndkcal-local.c\<close>): error objects,
    one handler for each error source, the decrement in each cycle. Shown: safety of all runs, the
    threshold rule (8 up, 1 down, an event at the threshold), the removal of nodes, and the three
    branches that store a counter in the wrong object.
  \<^item> \<open>Circbuf\<close> (\<^verbatim>\<open>stack/src/common/circbuf/circbuffer.c\<close>): the ring memory, with writes in one
    and two parts and reads around its end. Shown: the refinement of a bounded queue of messages
    and the \<open>fifo_channel\<close> interpretation.
  \<^item> \<open>Timeru\<close> (\<^verbatim>\<open>stack/src/user/timer/timer-generic.c\<close>): the list of timers with differences of
    times and the free list. Shown: the refinement of a schedule of expiry times, what the polls
    post, and where the 32-bit time wraps around.
  \<^item> \<open>Ledu\<close> (\<^verbatim>\<open>stack/src/user/ledu.c\<close>): the status LED with its timer in \<open>Timeru\<close>. Shown: the
    flash patterns in real time, and that the LED never gets stuck after its first steady state,
    whatever timers other modules hold, as long as they leave one.
  \<^item> \<open>Ami\<close>, \<open>Ami_Hosts\<close> (\<^verbatim>\<open>stack/src/common/ami/amile.c\<close>, \<^verbatim>\<open>amibe.c\<close>, \<^verbatim>\<open>amix86.c\<close>): the
    accessors of integers in frames for three hosts; the functions of \<^verbatim>\<open>amibe.c\<close> and \<^verbatim>\<open>amix86.c\<close>,
    which have the names of those of \<^verbatim>\<open>amile.c\<close>, are \<open>amibe_...\<close> and \<open>amix86_...\<close>. Shown: round
    trips, agreement of the hosts, and which getters read something else. The locales
    \<open>wire_setter\<close> and \<open>wire_codec\<close> are the contract of one format.
  \<^item> \<open>Pdo_TripleBuf\<close> (\<^verbatim>\<open>stack/src/kernel/pdo/pdokcal-triplebufshm.c\<close>,
    \<^verbatim>\<open>stack/src/user/pdo/pdoucal-triplebufshm.c\<close>): the layout of the shared memory, and the
    exchange of buffers between a writer and a reader. Shown: complete calls implement registers,
    overlapping calls never tear a value, and what the separate flag of new data costs.
  \<^item> \<open>Pdok\<close> (\<^verbatim>\<open>stack/src/kernel/pdo/pdok.c\<close>, \<^verbatim>\<open>pdokcal.c\<close>) and \<open>Pdou\<close>
    (\<^verbatim>\<open>stack/src/user/pdo/pdou.c\<close>, \<^verbatim>\<open>pdoucal.c\<close>): the tables of channels of both layers, the
    checks of received frames, the filling of sent ones, the copying of mapped objects between frames
    and variables, and the configuration of the channels from the object dictionary with its abort
    codes. Loops in the middle of a C function are definitions of their own. The object dictionary
    answers by a function of the state (\<open>od_sizes\<close> states that sizes it reports are honest).
  \<^item> \<open>Pdo_Exchange\<close>: one node's layers together with the triple buffers, a step for each
    event and call. Shown: values of the sending application arrive in the variables of the receiving
    one, no frame corrupts a node whose layers agree, and one type of object that is not received.
  \<^item> \<open>Pdo_Config\<close>: the channels that both layers have after a Reset Configuration agree, which
    is what \<open>Pdo_Exchange\<close> assumes of a running node; and a mapping that is disabled at run time
    disables the whole exchange.
  \<^item> \<open>Dllcal_Queue\<close> (\<^verbatim>\<open>stack/src/kernel/dll/dllkcal-circbuf.c\<close>, \<^verbatim>\<open>stack/src/common/dll/dllcal-direct.c\<close>):
    the queues of asynchronous frames behind the table of functions \<^verbatim>\<open>tDllCalFuncIntf\<close>; its contract is
    the locale \<open>dllcal_queue\<close> (which gives a \<open>fifo_channel\<close>), interpreted for both implementations.
  \<^item> \<open>Dllk_Cal\<close> (\<^verbatim>\<open>stack/src/kernel/dll/dllkcal.c\<close>): sending and receiving asynchronous frames, and the
    scheduler of the managing node, which turns over six queues in circular buffers to find the
    node that the next SoA invites. Shown: the refinement of queues that are lists of nodes, that no
    node starves while they are not cleared, that a node does after a clearing, and what a failed
    initialisation does.
  \<^item> \<open>Sdo_Seq\<close>, \<open>Sdo_Link\<close> (\<^verbatim>\<open>stack/src/user/sdo/sdo-sequ.c\<close>): the connections of the SDO sequence
    layer with their states, sequence numbers and history of sent frames, on the timers of
    \<open>Timeru\<close>; the branches of the large handlers are functions of their own (\<open>connectedSend\<close>,
    \<open>connectedReceive\<close>, \<open>waitAckReceive\<close>, ...). Callbacks of the command layer may call the module
    again. Shown: every run returns, with its loops and in any environment; and for two instances
    (\<open>Sdo_Link\<close>) the handshake, the delivery of data over an unreliable network, and two cases in
    which the protocol fails.
  \<^item> \<open>Sdo_Com\<close> (\<^verbatim>\<open>stack/src/user/sdo/sdo-comu.c\<close>): the SDO command layer, client and server, with its
    state machine, the two kinds of transfers and the aborts; the branches of its large functions are
    functions of their own (\<open>sendSegment\<close>, \<open>serverWriteSegmented\<close>, \<open>clientReadFrame\<close>, ...), and names
    that \<open>Sdo_Seq\<close> has as well begin with \<open>com_\<close>. The layers call each other from callbacks: \<open>com_react\<close>
    ties that knot, for environments of any depth of nesting. Shown: a transfer is reported at most
    once, and a frame that makes the server leave the object.
  \<^item> \<open>Sdo_Transfer\<close>: a client and a server of \<open>Sdo_Com\<close> over a sequence layer that delivers in order.
    Shown: what a segmented write does in every interleaving of frames and acknowledges.
  \<^item> this theory: the way from a missing PReq through DLL, queue, error handler and NMT.

  \<^bold>\<open>Conventions.\<close> A state is a record with the fields of the C instance. Calls of code that is not
  part of a theory (drivers, posting of events, callbacks of the application) are recorded in the
  state in their order, and their results are an argument, an arbitrary function of the calls so
  far; theorems name what they need of it. Undefined behaviour of C (an access outside an array, a
  corrupted list) is \<^term>\<open>None\<close>, and the theorems that a run is safe say that it is not reached.
  Compile-time switches are boolean arguments (\<open>mn\<close> for \<^verbatim>\<open>CONFIG_INCLUDE_NMT_MN\<close>). Functions
  run to their end one after the other, as in the single-threaded configuration; only for the triple
  buffers, which two processes access at once, the step is a single memory access.

  \<^bold>\<open>Bounds.\<close> Counters are 32-bit words where their wrap-around shows, else naturals with
  the wrap-around written out (\<open>wrap32\<close>). The refinement of the circular buffer is for memories of at
  most \<open>2^31\<close> bytes and messages of at most \<open>2^30\<close> bytes, so that no offset wraps around; larger sizes
  do not fit the address space of the targets. The threshold counts hold while the counters are below
  \<open>2^32\<close>, which the theorems assume explicitly. The timer schedule is for due times within 32 bits of
  the start time; what happens outside is a theorem of its own. All recursions are over lists or
  numbers, except loops that are \<^verbatim>\<open>partial_function\<close>s, for which termination is proved as such.
  The number given to \<open>com_step\<close> in \<open>Sdo_Com\<close> bounds the environment: callbacks at that depth make no
  calls. The properties hold for every number, so for every run whose callbacks return, and the
  transfer needs one level for each segment.

  \<^bold>\<open>Not modelled.\<close> The drivers, the operating system layers and the hardware access
  (\<^verbatim>\<open>edrv\<close>, \<^verbatim>\<open>hrestimer\<close>, \<^verbatim>\<open>target\<close>, \<^verbatim>\<open>veth\<close>), because they are calls of registers and of the
  system; the demo applications, the generated object dictionaries and the tools. Of the core: the frame
  processing and the node administration of the DLL, the event dispatch, the user parts of NMT, the
  SDO transports, the object dictionary, the configuration manager
  and the control modules; they are not yet modelled. Of the modelled modules: the table of
  instances of the circular buffers, and the Windows thread of the timer module.
\<close>

section \<open>From a missing PReq to the NMT state\<close>

text \<open>
  A controlled node counts missing PReq frames across three modules: the DLL state machine posts
  error events to the error handler, which counts them and posts an NMT cycle error at the
  threshold, which takes the NMT state machine out of \<^verbatim>\<open>Operational\<close>. The queues between the
  modules keep the order of the events (\<open>Circbuf\<close> and the locale \<open>fifo_channel\<close>).
\<close>

lemma posted_preq_events:
  assumes "cs_monitored n" and "cycleCount s = 0" and "dllState s = kDllCsWaitSoc"
    and "dllk_outs s = []"
  shows "\<exists>s'. run_steps (\<lambda>e. dllk_step mn masnd (env, n, e)) (concat (map cn_cycle bs)) s = Some s' \<and>
     list_all2 (\<lambda>lost e. dllErrorEvents e = (if lost then ERR_CN_LOSS_PREQ else ERR_CN_RECVD_PREQ))
       (map Not bs) (posted (dllk_outs s'))"
proof -
  obtain s' where s': "run_steps (\<lambda>e. dllk_step mn masnd (env, n, e)) (concat (map cn_cycle bs)) s = Some s'"
    and "posted_errors s' = posted_errors s @
       map (\<lambda>b. if b then DLL_ERR_CN_RECVD_PREQ else DLL_ERR_CN_LOSS_PREQ) bs"
    using cn_cycles_from_wait_soc [OF assms(1-3), of mn masnd env bs] by blast
  then have "map dllErrorEvents (posted (dllk_outs s')) =
       map (\<lambda>b. if b then DLL_ERR_CN_RECVD_PREQ else DLL_ERR_CN_LOSS_PREQ) bs"
    using assms(4) by (simp add: posted_errors_def)
  then have "list_all2 (=) (map (\<lambda>b. if b then ERR_CN_RECVD_PREQ else ERR_CN_LOSS_PREQ) bs)
      (map dllErrorEvents (posted (dllk_outs s')))" by (simp add: list_all2_refl)
  then show ?thesis using s'
    by (fastforce simp: list.rel_map elim!: list_all2_mono split: if_splits)
qed

lemma cycle_errors_dispatch:
  assumes "stateIndex k = kNmtkCsOperational"
  shows "run_steps (nmtk_dispatch mn) (replicate n kNmtEventNmtCycleError) k =
     Some (if n = 0 then k else k\<lparr>stateIndex := kNmtkCsPreOperational1\<rparr>)"
proof -
  have "run_steps (nmtk_dispatch mn) (replicate m kNmtEventNmtCycleError)
      (k\<lparr>stateIndex := kNmtkCsPreOperational1\<rparr>) = Some (k\<lparr>stateIndex := kNmtkCsPreOperational1\<rparr>)" for m
    by (induction m) (simp_all add: nmtk_dispatch_def doStateCsPreOperational1_def)
  then show ?thesis using assms
    by (cases n) (simp_all add: nmtk_dispatch_def doStateCsOperational_def)
qed

section \<open>Properties\<close>

text \<open>
  C1: A controlled node in \<^verbatim>\<open>Operational\<close> that is polled or not in each of a sequence of cycles
  stays there exactly when the counting rule of the specification reports nothing. The error
  events that the DLL posts over the cycles, processed by the error handler, raise and lower the
  PReq counter by the rule, and the NMT events that come of it take the node to
  \<^verbatim>\<open>PreOperational1\<close> as soon as there is one report.
\<close>

theorem missing_preq_end_to_end:
  assumes "cycleCount s = 0" and "dllState s = kDllCsWaitSoc" and "dllk_outs s = []"
    and "0 < threshold (cnLossPreq (errorObjects h))" and "history_ok henv"
    and "unat (thresholdCnt (cnLossPreq (errorObjects h))) + 8 * length bs < 2 ^ 32"
    and "errhndk_outs h = []" and "stateIndex k = kNmtkCsOperational"
    and "leaky (unat (threshold (cnLossPreq (errorObjects h))))
      (unat (thresholdCnt (cnLossPreq (errorObjects h)))) (map Not bs) = (c, n)"
  shows "\<exists>s' h' k'.
     run_steps (\<lambda>e. dllk_step mn masnd (denv, kNmtCsOperational, e)) (concat (map cn_cycle bs)) s = Some s' \<and>
     run_steps (errhndk_step False henv) (map (dll_error time) (posted (dllk_outs s'))) h = Some h' \<and>
     run_steps (nmtk_dispatch mn) (nmt_posts (errhndk_outs h')) k = Some k' \<and>
     unat (thresholdCnt (cnLossPreq (errorObjects h'))) = c \<and>
     stateIndex k' = (if n = 0 then kNmtkCsOperational else kNmtkCsPreOperational1)"
proof -
  obtain s' where s': "run_steps (\<lambda>e. dllk_step mn masnd (denv, kNmtCsOperational, e))
      (concat (map cn_cycle bs)) s = Some s'"
    and l: "list_all2 (\<lambda>lost e. dllErrorEvents e =
        (if lost then ERR_CN_LOSS_PREQ else ERR_CN_RECVD_PREQ)) (map Not bs) (posted (dllk_outs s'))"
    using posted_preq_events [of kNmtCsOperational s mn masnd denv bs] assms(1-3)
    by (auto simp: cs_monitored_def)
  from preq_cycles [OF assms(4, 5) l _ assms(9), of time] assms(6, 7) obtain h' where
    "run_steps (errhndk_step False henv) (map (dll_error time) (posted (dllk_outs s'))) h = Some h'"
    "unat (thresholdCnt (cnLossPreq (errorObjects h'))) = c"
    "nmt_posts (errhndk_outs h') = replicate n kNmtEventNmtCycleError"
    by auto
  with s' cycle_errors_dispatch [OF assms(8), of mn n] assms(8) show ?thesis by auto
qed

theorem missing_preq_end_to_end_witness:
  "\<exists>s' h' k'.
     run_steps (\<lambda>e. dllk_step False False (dllk_ok_env, kNmtCsOperational, e))
       (concat (map cn_cycle [False, True, False])) (dllk_example kDllCsWaitSoc) = Some s' \<and>
     run_steps (errhndk_step False post_ok) (map (dll_error 0) (posted (dllk_outs s')))
       (errhndk_example 15) = Some h' \<and>
     run_steps (nmtk_dispatch False) (nmt_posts (errhndk_outs h')) (nmtk_example kNmtkCsOperational) =
       Some k' \<and>
     unat (thresholdCnt (cnLossPreq (errorObjects h'))) = 15 \<and> stateIndex k' = kNmtkCsPreOperational1"
proof -
  have h: "threshold (cnLossPreq (errorObjects (errhndk_example 15))) = 15"
    "thresholdCnt (cnLossPreq (errorObjects (errhndk_example 15))) = 0"
    "errhndk_outs (errhndk_example 15) = []"
    by (simp_all add: errhndk_example_def Let_def)
  have d: "cycleCount (dllk_example kDllCsWaitSoc) = 0"
    "dllState (dllk_example kDllCsWaitSoc) = kDllCsWaitSoc" "dllk_outs (dllk_example kDllCsWaitSoc) = []"
    by (simp_all add: dllk_example_def)
  have k: "stateIndex (nmtk_example kNmtkCsOperational) = kNmtkCsOperational"
    by (simp add: nmtk_example_def)
  have env: "history_ok post_ok" by (simp add: history_ok_def post_ok_def)
  have thr: "0 < threshold (cnLossPreq (errorObjects (errhndk_example 15)))"
    "unat (thresholdCnt (cnLossPreq (errorObjects (errhndk_example 15)))) +
      8 * length [False, True, False] < 2 ^ 32"
    by (simp_all add: h)
  have "leaky (unat (15 :: u32)) (unat (0 :: u32)) (map Not [False, True, False]) = (15, 1)" by simp
  then have l: "leaky (unat (threshold (cnLossPreq (errorObjects (errhndk_example 15)))))
      (unat (thresholdCnt (cnLossPreq (errorObjects (errhndk_example 15)))))
      (map Not [False, True, False]) = (15, 1)"
    unfolding h .
  from missing_preq_end_to_end [OF d thr(1) env thr(2) h(3) k l, of False False dllk_ok_env 0]
  show ?thesis by (simp only: one_neq_zero if_False)
qed

end
